(* ===== verification/OsPrelude.thy ===== *)
theory OsPrelude
  imports Main "HOL-Library.Word" "HOL-Library.Monad_Syntax"
begin

unbundle bit_operations_syntax

text \<open>
  Shared vocabulary of the development: machine types of the ILP32 target (an IA-32 build,
  \<open>unsigned long\<close> and pointers are 32 bits wide), the outcome of a C function, bounds-checked
  little-endian reads from byte arrays, byte-addressed memory with 32-bit stores, the characters
  and NUL-terminated arrays of C, and the generic lemmas the components share.
\<close>

section \<open>Machine types and outcomes\<close>

type_synonym u8 = "8 word"
type_synonym u16 = "16 word"
type_synonym u32 = "32 word"

named_theorems cstr_simps \<open>evaluation of C character and string routines\<close>
named_theorems rd_simps \<open>evaluation of reads from byte arrays\<close>

text \<open>
  A call either returns a value, ends the process through \<open>exit\<close> (with the message that was
  logged), or reaches behaviour that C leaves undefined (an access outside an object).
\<close>

datatype 'a outcome = Ret 'a | Exit string | Undef

fun obind :: "'a outcome \<Rightarrow> ('a \<Rightarrow> 'b outcome) \<Rightarrow> 'b outcome" where
  "obind (Ret x) f = f x"
| "obind (Exit m) f = Exit m"
| "obind Undef f = Undef"

text \<open>OS/2 return codes used by the modelled code.\<close>

abbreviation (input) NO_ERROR :: u32 where "NO_ERROR \<equiv> 0"
abbreviation (input) ERROR_INVALID_FUNCTION :: u32 where "ERROR_INVALID_FUNCTION \<equiv> 1"
abbreviation (input) ERROR_FILE_NOT_FOUND :: u32 where "ERROR_FILE_NOT_FOUND \<equiv> 2"
abbreviation (input) ERROR_PATH_NOT_FOUND :: u32 where "ERROR_PATH_NOT_FOUND \<equiv> 3"
abbreviation (input) ERROR_TOO_MANY_OPEN_FILES :: u32 where "ERROR_TOO_MANY_OPEN_FILES \<equiv> 4"
abbreviation (input) ERROR_ACCESS_DENIED :: u32 where "ERROR_ACCESS_DENIED \<equiv> 5"
abbreviation (input) ERROR_INVALID_HANDLE :: u32 where "ERROR_INVALID_HANDLE \<equiv> 6"
abbreviation (input) ERROR_NOT_ENOUGH_MEMORY :: u32 where "ERROR_NOT_ENOUGH_MEMORY \<equiv> 8"
abbreviation (input) ERROR_BAD_FORMAT :: u32 where "ERROR_BAD_FORMAT \<equiv> 11"
abbreviation (input) ERROR_BAD_LENGTH :: u32 where "ERROR_BAD_LENGTH \<equiv> 24"
abbreviation (input) ERROR_WRITE_FAULT :: u32 where "ERROR_WRITE_FAULT \<equiv> 29"
abbreviation (input) ERROR_INVALID_PARAMETER :: u32 where "ERROR_INVALID_PARAMETER \<equiv> 87"
abbreviation (input) ERROR_NOT_FROZEN :: u32 where "ERROR_NOT_FROZEN \<equiv> 90"
abbreviation (input) ERROR_OPEN_FAILED :: u32 where "ERROR_OPEN_FAILED \<equiv> 110"
abbreviation (input) ERROR_BUFFER_OVERFLOW :: u32 where "ERROR_BUFFER_OVERFLOW \<equiv> 111"
abbreviation (input) ERROR_INVALID_NAME :: u32 where "ERROR_INVALID_NAME \<equiv> 123"
abbreviation (input) ERROR_MOD_NOT_FOUND :: u32 where "ERROR_MOD_NOT_FOUND \<equiv> 126"
abbreviation (input) ERROR_SEEK_ON_DEVICE :: u32 where "ERROR_SEEK_ON_DEVICE \<equiv> 132"
abbreviation (input) ERROR_MAX_THRDS_REACHED :: u32 where "ERROR_MAX_THRDS_REACHED \<equiv> 164"
abbreviation (input) ERROR_ALREADY_EXISTS :: u32 where "ERROR_ALREADY_EXISTS \<equiv> 183"
abbreviation (input) ERROR_ENVVAR_NOT_FOUND :: u32 where "ERROR_ENVVAR_NOT_FOUND \<equiv> 203"
abbreviation (input) ERROR_FILENAME_EXCED_RANGE :: u32 where "ERROR_FILENAME_EXCED_RANGE \<equiv> 206"
abbreviation (input) ERROR_NO_DATA :: u32 where "ERROR_NO_DATA \<equiv> 232"
abbreviation (input) ERROR_THREAD_NOT_TERMINATED :: u32 where "ERROR_THREAD_NOT_TERMINATED \<equiv> 294"
abbreviation (input) ERROR_INVALID_PROCID :: u32 where "ERROR_INVALID_PROCID \<equiv> 303"
abbreviation (input) ERROR_INVALID_THREADID :: u32 where "ERROR_INVALID_THREADID \<equiv> 309"
abbreviation (input) ERROR_INVALID_ADDRESS :: u32 where "ERROR_INVALID_ADDRESS \<equiv> 487"

lemma obind_Ret_iff [simp]: "obind m f = Ret y \<longleftrightarrow> (\<exists>x. m = Ret x \<and> f x = Ret y)"
  by (cases m) auto

section \<open>Reads from byte arrays\<close>

text \<open>
  A read of a \<open>char\<close>, \<open>unsigned short\<close> or \<open>unsigned long\<close> at an index of an array; a read that
  leaves the array gives no value. Multi-byte reads are little-endian and unaligned.
\<close>

definition rd8 :: "u8 list \<Rightarrow> nat \<Rightarrow> u8 option" where
  "rd8 bs i = (if i < length bs then Some (bs ! i) else None)"

definition rd16 :: "u8 list \<Rightarrow> nat \<Rightarrow> u16 option" where
  "rd16 bs i = do { a \<leftarrow> rd8 bs i; b \<leftarrow> rd8 bs (i + 1); Some (ucast a OR push_bit 8 (ucast b)) }"

definition rd32 :: "u8 list \<Rightarrow> nat \<Rightarrow> u32 option" where
  "rd32 bs i = do { a \<leftarrow> rd16 bs i; b \<leftarrow> rd16 bs (i + 2); Some (ucast a OR push_bit 16 (ucast b)) }"

text \<open>The bytes of a value, least significant first.\<close>

definition le16 :: "u16 \<Rightarrow> u8 list" where
  "le16 w = [ucast w, ucast (drop_bit 8 w)]"

definition le32 :: "u32 \<Rightarrow> u8 list" where
  "le32 w = [ucast w, ucast (drop_bit 8 w), ucast (drop_bit 16 w), ucast (drop_bit 24 w)]"

text \<open>A 32-bit store into an array.\<close>

definition wr32 :: "u8 list \<Rightarrow> nat \<Rightarrow> u32 \<Rightarrow> u8 list" where
  "wr32 bs i v = take i bs @ le32 v @ drop (i + 4) bs"

section \<open>Byte-addressed memory\<close>

type_synonym memory = "u32 \<Rightarrow> u8"

definition mem_rd32 :: "memory \<Rightarrow> u32 \<Rightarrow> u32" where
  "mem_rd32 m a = ucast (m a) OR push_bit 8 (ucast (m (a + 1))) OR push_bit 16 (ucast (m (a + 2)))
     OR push_bit 24 (ucast (m (a + 3)))"

definition mem_wr32 :: "memory \<Rightarrow> u32 \<Rightarrow> u32 \<Rightarrow> memory" where
  "mem_wr32 m a v = m(a := ucast v, a + 1 := ucast (drop_bit 8 v),
     a + 2 := ucast (drop_bit 16 v), a + 3 := ucast (drop_bit 24 v))"

fun mem_wr :: "memory \<Rightarrow> u32 \<Rightarrow> u8 list \<Rightarrow> memory" where
  "mem_wr m a [] = m"
| "mem_wr m a (b # bs) = mem_wr (m(a := b)) (a + 1) bs"

section \<open>Characters and NUL-terminated arrays\<close>

abbreviation NUL :: char where "NUL \<equiv> CHR 0x00"
abbreviation CR :: char where "CR \<equiv> CHR 0x0D"
abbreviation BSL :: char where "BSL \<equiv> CHR 0x5C"
abbreviation LF :: char where "LF \<equiv> CHR 0x0A"

definition toupper :: "char \<Rightarrow> char" where
  "toupper c = (if 97 \<le> (of_char c :: nat) \<and> (of_char c :: nat) \<le> 122
     then char_of ((of_char c :: nat) - 32) else c)"

definition tolower :: "char \<Rightarrow> char" where
  "tolower c = (if 65 \<le> (of_char c :: nat) \<and> (of_char c :: nat) \<le> 90
     then char_of ((of_char c :: nat) + 32) else c)"

text \<open>The string held by an array: everything before the first NUL.\<close>

definition cstr :: "char list \<Rightarrow> string" where
  "cstr buf = takeWhile (\<lambda>c. c \<noteq> NUL) buf"

text \<open>A NUL-terminated string read at an index up to and including its terminator.\<close>

definition cs_at :: "string \<Rightarrow> nat \<Rightarrow> char" where
  "cs_at s i = (if i < length s then s ! i else NUL)"

text \<open>Characters of a binary image.\<close>

definition char_of_u8 :: "u8 \<Rightarrow> char" where
  "char_of_u8 b = char_of (unat b)"

definition u8_of_char :: "char \<Rightarrow> u8" where
  "u8_of_char c = of_char c"

section \<open>Generic lemmas\<close>

lemma char_of_numeral_eq [cstr_simps]:
  "char_of (numeral n :: nat) = c \<longleftrightarrow> numeral n mod 256 = (of_char c :: nat)"
  by (auto simp: char_of_eq_iff take_bit_eq_mod)

lemma eq_char_of_numeral [cstr_simps]:
  "c = char_of (numeral n :: nat) \<longleftrightarrow> numeral n mod 256 = (of_char c :: nat)"
  unfolding char_of_numeral_eq [symmetric] by (rule eq_commute)

lemma of_char_toupper:
  "(of_char (toupper c) :: nat) =
     (if 97 \<le> (of_char c :: nat) \<and> (of_char c :: nat) \<le> 122 then of_char c - 32 else of_char c)"
  by (auto simp: toupper_def)

lemma of_char_tolower:
  "(of_char (tolower c) :: nat) =
     (if 65 \<le> (of_char c :: nat) \<and> (of_char c :: nat) \<le> 90 then of_char c + 32 else of_char c)"
  by (auto simp: tolower_def)

lemma char_eq_of_char: "c = d \<longleftrightarrow> (of_char c :: nat) = of_char d"
  by (metis char_of_char)

lemma toupper_idem [simp]: "toupper (toupper c) = toupper c"
  by (auto simp: char_eq_of_char of_char_toupper)

lemma tolower_idem [simp]: "tolower (tolower c) = tolower c"
  by (auto simp: char_eq_of_char of_char_tolower)

lemma toupper_tolower [simp]: "toupper (tolower c) = toupper c"
  by (auto simp: char_eq_of_char of_char_toupper of_char_tolower)

lemma tolower_toupper [simp]: "tolower (toupper c) = tolower c"
  by (auto simp: char_eq_of_char of_char_toupper of_char_tolower)

lemma toupper_eq_NUL [simp]: "toupper c = NUL \<longleftrightarrow> c = NUL"
  by (auto simp: char_eq_of_char of_char_toupper)

lemma tolower_eq_NUL [simp]: "tolower c = NUL \<longleftrightarrow> c = NUL"
  by (auto simp: char_eq_of_char of_char_tolower)

lemma toupper_NUL [simp]: "toupper NUL = NUL"
  by simp

lemma char_u8_inverse [simp]: "char_of_u8 (u8_of_char c) = c"
proof -
  have "unat (of_nat (of_char c :: nat) :: u8) = of_char c"
    by (simp only: unat_of_nat) simp
  then have "unat (of_char c :: u8) = of_char c" by (simp only: of_nat_of_char)
  then show ?thesis by (simp add: char_of_u8_def u8_of_char_def)
qed

lemma char_of_u8_NUL: "char_of_u8 b = NUL \<longleftrightarrow> b = 0"
proof -
  have "unat b < 256" using unsigned_less [where ?'a = nat and w = b] by simp
  then show ?thesis by (auto simp: char_of_u8_def char_of_eq_iff take_bit_eq_mod unat_eq_0)
qed

lemma cstr_no_NUL [simp]: "NUL \<notin> set (cstr buf)"
  unfolding cstr_def by (metis (full_types) set_takeWhileD)

lemma cstr_append_NUL [simp]: "NUL \<notin> set s \<Longrightarrow> cstr (s @ NUL # r) = s"
  unfolding cstr_def by (induction s) auto

lemma cstr_id: "NUL \<notin> set s \<Longrightarrow> cstr s = s"
  unfolding cstr_def by (induction s) auto

lemma cstr_split: "NUL \<in> set buf \<Longrightarrow> \<exists>r. buf = cstr buf @ NUL # r"
proof (induction buf)
  case (Cons c buf)
  then show ?case by (cases "c = NUL") (auto simp: cstr_def)
qed simp

lemma cs_at_less [simp]: "i < length s \<Longrightarrow> cs_at s i = s ! i"
  and cs_at_end [simp]: "cs_at s (length s) = NUL"
  by (simp_all add: cs_at_def)

lemma rd8_simps [rd_simps]:
  "rd8 (b # bs) 0 = Some b" "rd8 (b # bs) (Suc i) = rd8 bs i" "rd8 [] i = None"
  by (simp_all add: rd8_def)

lemma rd8_append [rd_simps]:
  "rd8 (xs @ ys) i = (if i < length xs then rd8 xs i else rd8 ys (i - length xs))"
  by (auto simp: rd8_def nth_append)

lemma rd8_drop: "rd8 (drop k bs) i = rd8 bs (k + i)"
  by (auto simp: rd8_def)

lemma rd8_None_iff: "rd8 bs i = None \<longleftrightarrow> length bs \<le> i"
  by (simp add: rd8_def)

lemma rd8_Some_iff: "(\<exists>b. rd8 bs i = Some b) \<longleftrightarrow> i < length bs"
  by (simp add: rd8_def)

lemma length_le16 [simp]: "length (le16 w) = 2" by (simp add: le16_def)
lemma length_le32 [simp]: "length (le32 w) = 4" by (simp add: le32_def)

lemma rd16_le16 [rd_simps]: "rd16 (le16 w @ r) 0 = Some w"
  by (simp add: rd16_def rd8_def le16_def) (rule bit_word_eqI; auto simp: bit_simps)

lemma rd32_le32 [rd_simps]: "rd32 (le32 w @ r) 0 = Some w"
  apply (simp add: rd32_def rd16_def rd8_def le32_def)
  apply (rule bit_word_eqI)
  subgoal for n by (cases "n < 16"; cases "n < 24") (auto simp: bit_simps)
  done

lemma rd16_Suc [rd_simps]: "rd16 (b # bs) (Suc i) = rd16 bs i"
  by (simp add: rd16_def rd8_simps)

lemma rd32_Suc [rd_simps]: "rd32 (b # bs) (Suc i) = rd32 bs i"
  by (simp add: rd32_def rd16_Suc)

lemma rd16_skip: "rd16 (xs @ ys) (length xs + i) = rd16 ys i"
  by (simp add: rd16_def rd8_append)

lemma rd32_skip: "rd32 (xs @ ys) (length xs + i) = rd32 ys i"
  using rd16_skip [of xs ys i] rd16_skip [of xs ys "i + 2"] by (simp add: rd32_def add.assoc)

lemma rd16_drop: "rd16 (drop k bs) i = rd16 bs (k + i)"
  by (simp add: rd16_def rd8_drop add.assoc)

lemma rd32_drop: "rd32 (drop k bs) i = rd32 bs (k + i)"
  by (simp add: rd32_def rd16_drop add.assoc)

lemma length_wr32 [simp]: "i + 4 \<le> length bs \<Longrightarrow> length (wr32 bs i v) = length bs"
  by (simp add: wr32_def)

lemma rd32_wr32 [simp]: "i + 4 \<le> length bs \<Longrightarrow> rd32 (wr32 bs i v) i = Some v"
  using rd32_skip [of "take i bs" "le32 v @ drop (i + 4) bs" 0] by (simp add: wr32_def rd32_le32)

lemma unat_of_nat32: "n < 2 ^ 32 \<Longrightarrow> unat (of_nat n :: u32) = n"
  by (simp add: unat_of_nat)

lemma sint_of_nat32: "p < 2 ^ 31 \<Longrightarrow> sint (of_nat p :: u32) = int p"
  by (simp add: signed_of_nat signed_take_bit_int_eq_self)

lemma mem_wr32_other:
  "a' \<notin> {a, a + 1, a + 2, a + 3} \<Longrightarrow> mem_wr32 m a v a' = m a'"
  by (simp add: mem_wr32_def)

end
