(* ===== verification/CfgParser.thy ===== *)
theory CfgParser
  imports OsPrelude
begin

text \<open>
  The \<^verbatim>\<open>CONFIG.SYS\<close> parser of the OS/2 server
  (\<^verbatim>\<open>OS2/Server/shared/lib/compat/cfgparser.c\<close>): the option record, the statement tables, one
  handler per option, the line parser, the file parser and the environment lookup.

  The line buffer is the C array itself: a list of characters that holds a NUL, so that what the
  code reads behind the terminator is visible. Logging has no effect on the state; \<open>error\<close> ends
  the process and is \<open>Exit\<close>; a write outside an array is \<open>Undef\<close>. Whether \<open>malloc\<close> succeeds is
  the argument \<open>ok\<close>.
\<close>

section \<open>C library routines the parser calls\<close>

definition is_space :: "char \<Rightarrow> bool" where
  "is_space c \<longleftrightarrow> c = CHR '' '' \<or> (9 \<le> (of_char c :: nat) \<and> (of_char c :: nat) \<le> 13)"

definition is_digit :: "char \<Rightarrow> bool" where
  "is_digit c \<longleftrightarrow> 48 \<le> (of_char c :: nat) \<and> (of_char c :: nat) \<le> 57"

definition digits_value :: "string \<Rightarrow> int" where
  "digits_value ds = foldl (\<lambda>n c. 10 * n + (int (of_char c) - 48)) 0 ds"

text \<open>\<open>atoi\<close>; a value that does not fit in an \<open>int\<close> is undefined behaviour in C.\<close>

definition atoi :: "string \<Rightarrow> int outcome" where
  "atoi s = (let t = dropWhile is_space s;
       neg = (t \<noteq> [] \<and> hd t = CHR ''-'');
       u = (if t \<noteq> [] \<and> (hd t = CHR ''-'' \<or> hd t = CHR ''+'') then tl t else t);
       v = digits_value (takeWhile is_digit u);
       r = (if neg then - v else v)
     in if - (2 ^ 31) \<le> r \<and> r < 2 ^ 31 then Ret r else Undef)"

text \<open>\<open>strcpy(line, line + k)\<close>: the bytes behind the copied terminator keep their old values.\<close>

definition strcpy_down :: "char list \<Rightarrow> nat \<Rightarrow> char list outcome" where
  "strcpy_down line k = (let src = drop k line in
     if NUL \<in> set src then Ret (cstr src @ NUL # drop (length (cstr src) + 1) line) else Undef)"

text \<open>\<^verbatim>\<open>compat/string.c\<close>: upper-cases the string in place.\<close>

definition strupr :: "char list \<Rightarrow> char list" where
  "strupr buf = map toupper (cstr buf) @ drop (length (cstr buf)) buf"

text \<open>\<open>toupper(line[0]) == s[0] && toupper(line[1]) == s[1] && \<dots>\<close>\<close>

definition upper_is :: "char list \<Rightarrow> string \<Rightarrow> bool" where
  "upper_is line s \<longleftrightarrow> map toupper (take (length s) line) = s"

text \<open>
  \<open>pc = malloc((size_t)len + 1)\<close>, \<open>error\<close> on failure, then \<open>strcpy(pc, line)\<close>: copying more than
  was allocated is undefined.
\<close>

definition dup_line :: "bool \<Rightarrow> char list \<Rightarrow> int \<Rightarrow> string outcome" where
  "dup_line ok line len =
     (if \<not> ok then Exit ''Memory could not be allocated!''
      else if length (cstr line) + 1 \<le> unat (word_of_int len + 1 :: u32) then Ret (cstr line)
      else Undef)"

section \<open>State\<close>

record cfg_opts =
  autofail :: u16
  buffers :: u16
  clockscale :: u16
  closefiles :: u16
  codepage :: "char list"
  country :: "string option"
  devinfo_kbd :: "string option"
  devinfo_vio :: "string option"
  diskcache :: "string option"
  dllbasing :: u16
  dumpprocess :: char
  earlymeminit :: u16
  fakeiss :: u16
  i13pages :: u16
  ibm_java_options :: "string option"
  iopl :: "string option"
  iropt :: "string option"
  javanofpk :: u16
  lastdrive :: char
  ldrstackopt :: u16
  libpath :: "string option"
  maxwait :: u16
  memman :: "string option"
  mode :: "string option list"
  mode_id :: u32
  ndwtimer :: u16
  pauseonerror :: u16
  printmonbufsize :: "string option"
  priority :: u16
  priority_disk_io :: u16
  protectonly :: u16
  protshell :: "string option"
  raskdata :: u16
  reipl :: u16
  remote_install_state :: char
  reservedriveletter :: char
  setboot :: "string option"
  sourcepath :: "string option"
  strace :: "string option"
  suppresspopups :: char
  swappath :: "string option"
  sxfakehwfpu :: u16
  sysdump :: "string option"
  threads :: u32
  timeslice :: "string option"
  trace :: "string option"
  tracebuf :: u32
  trapdump :: "string option"
  traplog :: "string option"
  truemode :: u16
  virtualaddresslimit :: u32
  vme :: u16
  workplace_native :: u16
  workplace_primary_cp :: u16
  workplace_process :: u16
  wp_objhandle :: u32
  debugmodmgr :: u16
  debugixfmgr :: u16
  debugprcmgr :: u16
  debugmemmgr :: u16
  configfile :: "string option"
  bootdrive :: "string option"

definition options0 :: cfg_opts where
  "options0 = \<lparr>autofail = 0,
     buffers = 0,
     clockscale = 0,
     closefiles = 0,
     codepage = replicate 7 NUL,
     country = None,
     devinfo_kbd = None,
     devinfo_vio = None,
     diskcache = None,
     dllbasing = 0,
     dumpprocess = NUL,
     earlymeminit = 0,
     fakeiss = 0,
     i13pages = 0,
     ibm_java_options = None,
     iopl = None,
     iropt = None,
     javanofpk = 0,
     lastdrive = NUL,
     ldrstackopt = 0,
     libpath = None,
     maxwait = 0,
     memman = None,
     mode = replicate 20 None,
     mode_id = 0,
     ndwtimer = 0,
     pauseonerror = 0,
     printmonbufsize = None,
     priority = 0,
     priority_disk_io = 0,
     protectonly = 0,
     protshell = None,
     raskdata = 0,
     reipl = 0,
     remote_install_state = NUL,
     reservedriveletter = NUL,
     setboot = None,
     sourcepath = None,
     strace = None,
     suppresspopups = NUL,
     swappath = None,
     sxfakehwfpu = 0,
     sysdump = None,
     threads = 0,
     timeslice = None,
     trace = None,
     tracebuf = 0,
     trapdump = None,
     traplog = None,
     truemode = 0,
     virtualaddresslimit = 0,
     vme = 0,
     workplace_native = 0,
     workplace_primary_cp = 0,
     workplace_process = 0,
     wp_objhandle = 0,
     debugmodmgr = 0,
     debugixfmgr = 0,
     debugprcmgr = 0,
     debugmemmgr = 0,
     configfile = None,
     bootdrive = None\<rparr>"

text \<open>\<open>struct name\<close> and \<open>struct types\<close>; the array \<open>sp\<close> has the capacity the source declares.\<close>

record cfg_name =
  nm_line :: int
  nm_string :: "string option"

record cfg_types =
  ty_name :: string
  ty_sep :: char
  ty_sp :: "cfg_name list"
  ty_ip :: nat

record cfg_state =
  opts :: cfg_opts
  typetab :: "cfg_types list"

definition name0 :: cfg_name where
  "name0 = \<lparr>nm_line = 0, nm_string = None\<rparr>"

definition type_table :: "cfg_types list" where
  "type_table =
    [\<lparr>ty_name = ''CALL'', ty_sep = CHR ''='', ty_sp = replicate 30 name0, ty_ip = 0\<rparr>,
     \<lparr>ty_name = ''RUNSERVER'', ty_sep = CHR ''='', ty_sp = replicate 30 name0, ty_ip = 0\<rparr>,
     \<lparr>ty_name = ''RUN'', ty_sep = CHR ''='', ty_sp = replicate 30 name0, ty_ip = 0\<rparr>,
     \<lparr>ty_name = ''SET'', ty_sep = CHR ''='', ty_sp = replicate 150 name0, ty_ip = 0\<rparr>,
     \<lparr>ty_name = ''IXF'', ty_sep = CHR ''='', ty_sp = replicate 30 name0, ty_ip = 0\<rparr>]"

text \<open>Static storage at program start.\<close>

definition cfg_state0 :: cfg_state where
  "cfg_state0 = \<lparr>opts = options0, typetab = type_table\<rparr>"

definition MAXLENGTH :: nat where
  "MAXLENGTH = 1512"

definition options_list :: "string list" where
  "options_list = [''AUTOFAIL'', ''BUFFERS'', ''CLOCKSCALE'', ''CLOSEFILES'',
     ''CODEPAGE'', ''COUNTRY'', ''DEVINFO'', ''DISKCACHE'',
     ''DLLBASING'', ''DUMPPROCESS'', ''EARLYMEMINIT'', ''FAKEISS'',
     ''I13PAGES'', ''IBM_JAVA_OPTIONS'', ''IOPL'', ''IROPT'',
     ''JAVANOFPK'', ''LASTDRIVE'', ''LDRSTACKOPT'', ''LIBPATH'',
     ''MAXWAIT'', ''MEMMAN'', ''MODE'', ''NDWTIMER'',
     ''PAUSEONERROR'', ''PRINTMONBUFSIZE'', ''PRIORITY'', ''PRIORITY_DISK_IO'',
     ''PROTECTONLY'', ''PROTSHELL'', ''RASKDATA'', ''REIPL'',
     ''REMOTE_INSTALL_STATE'', ''RESERVEDRIVELETTER'', ''SETBOOT'', ''SOURCEPATH'',
     ''STRACE'', ''SUPPRESSPOPUPS'', ''SWAPPATH'', ''SXFAKEHWFPU'',
     ''SYSDUMP'', ''THREADS'', ''TIMESLICE'', ''TRACE'',
     ''TRACEBUF'', ''TRAPDUMP'', ''TRAPLOG'', ''TRUEMODE'',
     ''VIRTUALADDRESSLIMIT'', ''VME'', ''WORKPLACE_NATIVE'', ''WORKPLACE_PRIMARY_CP'',
     ''WORKPLACE_PROCESS'', ''WP_OBJHANDLE'', ''DEBUGMODMGR'', ''DEBUGIXFMGR'',
     ''DEBUGPRCMGR'']"

text \<open>\<open>CfgInitOptions\<close>; \<open>ok1\<close>, \<open>ok2\<close> and \<open>ok3\<close> say whether its three allocations succeed.\<close>

definition CfgInitOptions :: "bool \<Rightarrow> bool \<Rightarrow> bool \<Rightarrow> cfg_state \<Rightarrow> (u32 \<times> cfg_state) outcome" where
  "CfgInitOptions ok1 ok2 ok3 st =
     (let o1 = (opts st)\<lparr>autofail := 0, dllbasing := 1\<rparr> in
      if \<not> ok1 then Exit ''init_options: memory could not be allocated!''
      else let o2 = o1\<lparr>iopl := Some ''YES'', ldrstackopt := 1, maxwait := 3, mode_id := 0,
             pauseonerror := 1, priority := 1, priority_disk_io := 1, reipl := 0,
             protshell := None, debugmodmgr := 0, debugixfmgr := 0, debugprcmgr := 0,
             debugmemmgr := 0\<rparr> in
      if \<not> ok2 then Exit ''init_options: memory could not be allocated!''
      else let o3 = o2\<lparr>configfile := Some ''config.sys''\<rparr> in
      if \<not> ok3 then Exit ''init_options: memory could not be allocated!''
      else Ret (NO_ERROR, st\<lparr>opts := o3\<lparr>bootdrive := Some ''C:''\<rparr>\<rparr>))"

section \<open>Option handlers\<close>

text \<open>
  One definition per \<open>case\<close> of the switch. Arguments: whether \<open>malloc\<close> succeeds, the line buffer
  (holding the option's value), its length, the options.
\<close>

type_synonym cfg_handler = "bool \<Rightarrow> char list \<Rightarrow> int \<Rightarrow> cfg_opts \<Rightarrow> (char list \<times> cfg_opts) outcome"

definition opt_autofail :: cfg_handler where
  "opt_autofail ok line len o' = Ret (line, if upper_is line ''NO'' then o'\<lparr>autofail := 0\<rparr>
     else if upper_is line ''YES'' then o'\<lparr>autofail := 1\<rparr> else o')"

definition opt_buffers :: cfg_handler where
  "opt_buffers ok line len o' = obind (atoi (cstr line)) (\<lambda>h. Ret (line, o'\<lparr>buffers := word_of_int h\<rparr>))"

definition opt_clockscale :: cfg_handler where
  "opt_clockscale ok line len o' = obind (atoi (cstr line)) (\<lambda>h.
     if h = 1 \<or> h = 2 \<or> h = 4 then Ret (line, o'\<lparr>clockscale := word_of_int h\<rparr>)
     else Exit ''Syntax error in config.sys line.'')"

definition opt_closefiles :: cfg_handler where
  "opt_closefiles ok line len o' = Ret (line, if upper_is line ''TRUE'' then o'\<lparr>closefiles := 1\<rparr> else o'\<lparr>closefiles := 0\<rparr>)"

definition opt_codepage :: cfg_handler where
  "opt_codepage ok line len o' = (if 7 \<le> length line then Ret (line, o'\<lparr>codepage := take 7 line\<rparr>) else Undef)"

definition opt_country :: cfg_handler where
  "opt_country ok line len o' = (let line = strupr line in
     obind (dup_line ok line len) (\<lambda>pc. Ret (line, o'\<lparr>country := Some pc\<rparr>)))"

definition opt_devinfo :: cfg_handler where
  "opt_devinfo ok line len o' = (let line = strupr line in
     obind (dup_line ok line len) (\<lambda>pc.
       Ret (line, if take 3 pc = ''KBD'' then o'\<lparr>devinfo_kbd := Some pc\<rparr>
         else if take 3 pc = ''SCR'' then o'\<lparr>devinfo_vio := Some pc\<rparr> else o')))"

definition opt_diskcache :: cfg_handler where
  "opt_diskcache ok line len o' = (let line = strupr line in
     obind (dup_line ok line len) (\<lambda>pc. Ret (line, o'\<lparr>diskcache := Some pc\<rparr>)))"

definition opt_dllbasing :: cfg_handler where
  "opt_dllbasing ok line len o' = Ret (line, if upper_is line ''ON'' then o'\<lparr>dllbasing := 1\<rparr>
     else if upper_is line ''OFF'' then o'\<lparr>dllbasing := 0\<rparr> else o')"

definition opt_dumpprocess :: cfg_handler where
  "opt_dumpprocess ok line len o' = Ret (line, o'\<lparr>dumpprocess := line ! 0\<rparr>)"

definition opt_earlymeminit :: cfg_handler where
  "opt_earlymeminit ok line len o' = Ret (line, if upper_is line ''TRUE'' then o'\<lparr>earlymeminit := 1\<rparr> else o'\<lparr>earlymeminit := 0\<rparr>)"

definition opt_fakeiss :: cfg_handler where
  "opt_fakeiss ok line len o' = Ret (line, if upper_is line ''YES'' then o'\<lparr>fakeiss := 1\<rparr> else o'\<lparr>fakeiss := 0\<rparr>)"

definition opt_i13pages :: cfg_handler where
  "opt_i13pages ok line len o' = Ret (line, if line ! 0 = CHR ''1'' then o'\<lparr>i13pages := 1\<rparr> else o'\<lparr>i13pages := 0\<rparr>)"

definition opt_ibm_java_options :: cfg_handler where
  "opt_ibm_java_options ok line len o' = obind (dup_line ok line len) (\<lambda>pc. Ret (line, o'\<lparr>ibm_java_options := Some pc\<rparr>))"

definition opt_iopl :: cfg_handler where
  "opt_iopl ok line len o' = obind (dup_line ok line len) (\<lambda>pc. Ret (line, o'\<lparr>iopl := Some pc\<rparr>))"

definition opt_iropt :: cfg_handler where
  "opt_iropt ok line len o' = obind (dup_line ok line len) (\<lambda>pc. Ret (line, o'\<lparr>iropt := Some pc\<rparr>))"

definition opt_javanofpk :: cfg_handler where
  "opt_javanofpk ok line len o' = Ret (line, if upper_is line ''YES'' then o'\<lparr>javanofpk := 1\<rparr> else o'\<lparr>javanofpk := 0\<rparr>)"

definition opt_lastdrive :: cfg_handler where
  "opt_lastdrive ok line len o' = Ret (line, o'\<lparr>lastdrive := line ! 0\<rparr>)"

definition opt_ldrstackopt :: cfg_handler where
  "opt_ldrstackopt ok line len o' = Ret (line, if upper_is line ''TRUE'' then o'\<lparr>ldrstackopt := 1\<rparr>
     else if upper_is line ''FALSE'' then o'\<lparr>ldrstackopt := 0\<rparr> else o')"

definition opt_libpath :: cfg_handler where
  "opt_libpath ok line len o' = obind (dup_line ok line len) (\<lambda>pc. Ret (line, o'\<lparr>libpath := Some pc\<rparr>))"

definition opt_maxwait :: cfg_handler where
  "opt_maxwait ok line len o' = obind (atoi (cstr line)) (\<lambda>h.
     if 1 \<le> h \<and> h \<le> 255 then Ret (line, o'\<lparr>maxwait := word_of_int h\<rparr>)
     else Exit ''Syntax error in config.sys line.'')"

definition opt_memman :: cfg_handler where
  "opt_memman ok line len o' = obind (dup_line ok line len) (\<lambda>pc. Ret (line, o'\<lparr>memman := Some pc\<rparr>))"

definition opt_mode :: cfg_handler where
  "opt_mode ok line len o' = (if mode_id o' <s 20
     then obind (dup_line ok line len) (\<lambda>pc.
       if unat (mode_id o') < length (mode o')
       then Ret (line, o'\<lparr>mode := (mode o')[unat (mode_id o') := Some pc], mode_id := mode_id o' + 1\<rparr>)
       else Undef)
     else Ret (line, o'))"

definition opt_ndwtimer :: cfg_handler where
  "opt_ndwtimer ok line len o' = Ret (line, if upper_is line ''OFF'' then o'\<lparr>ndwtimer := 0\<rparr> else o'\<lparr>ndwtimer := 1\<rparr>)"

definition opt_pauseonerror :: cfg_handler where
  "opt_pauseonerror ok line len o' = Ret (line, if upper_is line ''NO'' then o'\<lparr>pauseonerror := 0\<rparr>
     else if upper_is line ''YES'' then o'\<lparr>pauseonerror := 1\<rparr> else o')"

definition opt_printmonbufsize :: cfg_handler where
  "opt_printmonbufsize ok line len o' = obind (dup_line ok line len) (\<lambda>pc. Ret (line, o'\<lparr>printmonbufsize := Some pc\<rparr>))"

definition opt_priority :: cfg_handler where
  "opt_priority ok line len o' = Ret (line, if upper_is line ''DYNAMIC'' then o'\<lparr>priority := 1\<rparr>
     else if upper_is line ''ABSOLUTE'' then o'\<lparr>priority := 0\<rparr> else o')"

definition opt_priority_disk_io :: cfg_handler where
  "opt_priority_disk_io ok line len o' = Ret (line, if upper_is line ''NO'' then o'\<lparr>priority_disk_io := 0\<rparr>
     else if upper_is line ''YES'' then o'\<lparr>priority_disk_io := 1\<rparr> else o')"

definition opt_protectonly :: cfg_handler where
  "opt_protectonly ok line len o' = Ret (line, if upper_is line ''NO'' then o'\<lparr>protectonly := 0\<rparr>
     else if upper_is line ''YES'' then o'\<lparr>protectonly := 1\<rparr> else o')"

definition opt_protshell :: cfg_handler where
  "opt_protshell ok line len o' = obind (dup_line ok line len) (\<lambda>pc. Ret (line, o'\<lparr>protshell := Some pc\<rparr>))"

definition opt_raskdata :: cfg_handler where
  "opt_raskdata ok line len o' = Ret (line, if upper_is line ''OTE'' then o'\<lparr>raskdata := 1\<rparr> else o'\<lparr>raskdata := 0\<rparr>)"

definition opt_reipl :: cfg_handler where
  "opt_reipl ok line len o' = Ret (line, if upper_is line ''ON'' then o'\<lparr>reipl := 1\<rparr>
     else if upper_is line ''OFF'' then o'\<lparr>reipl := 0\<rparr> else o')"

definition opt_remote_install_state :: cfg_handler where
  "opt_remote_install_state ok line len o' = Ret (line, o'\<lparr>remote_install_state := line ! 0\<rparr>)"

definition opt_reservedriveletter :: cfg_handler where
  "opt_reservedriveletter ok line len o' = Ret (line, o'\<lparr>reservedriveletter := line ! 0\<rparr>)"

definition opt_setboot :: cfg_handler where
  "opt_setboot ok line len o' = obind (dup_line ok line len) (\<lambda>pc. Ret (line, o'\<lparr>setboot := Some pc\<rparr>))"

definition opt_sourcepath :: cfg_handler where
  "opt_sourcepath ok line len o' = obind (dup_line ok line len) (\<lambda>pc. Ret (line, o'\<lparr>sourcepath := Some pc\<rparr>))"

definition opt_strace :: cfg_handler where
  "opt_strace ok line len o' = obind (dup_line ok line len) (\<lambda>pc. Ret (line, o'\<lparr>strace := Some pc\<rparr>))"

definition opt_suppresspopups :: cfg_handler where
  "opt_suppresspopups ok line len o' = Ret (line, o'\<lparr>suppresspopups := line ! 0\<rparr>)"

definition opt_swappath :: cfg_handler where
  "opt_swappath ok line len o' = obind (dup_line ok line len) (\<lambda>pc. Ret (line, o'\<lparr>swappath := Some pc\<rparr>))"

definition opt_sxfakehwfpu :: cfg_handler where
  "opt_sxfakehwfpu ok line len o' = Ret (line, if line ! 0 = CHR ''1'' then o'\<lparr>sxfakehwfpu := 1\<rparr> else o'\<lparr>sxfakehwfpu := 0\<rparr>)"

definition opt_sysdump :: cfg_handler where
  "opt_sysdump ok line len o' = obind (dup_line ok line len) (\<lambda>pc. Ret (line, o'\<lparr>sysdump := Some pc\<rparr>))"

definition opt_threads :: cfg_handler where
  "opt_threads ok line len o' = obind (atoi (cstr line)) (\<lambda>h. Ret (line, o'\<lparr>threads := word_of_int h\<rparr>))"

definition opt_timeslice :: cfg_handler where
  "opt_timeslice ok line len o' = obind (dup_line ok line len) (\<lambda>pc. Ret (line, o'\<lparr>timeslice := Some pc\<rparr>))"

definition opt_trace :: cfg_handler where
  "opt_trace ok line len o' = obind (dup_line ok line len) (\<lambda>pc. Ret (line, o'\<lparr>trace := Some pc\<rparr>))"

definition opt_tracebuf :: cfg_handler where
  "opt_tracebuf ok line len o' = obind (atoi (cstr line)) (\<lambda>h. Ret (line, o'\<lparr>tracebuf := word_of_int h\<rparr>))"

definition opt_trapdump :: cfg_handler where
  "opt_trapdump ok line len o' = obind (dup_line ok line len) (\<lambda>pc. Ret (line, o'\<lparr>trapdump := Some pc\<rparr>))"

definition opt_traplog :: cfg_handler where
  "opt_traplog ok line len o' = obind (dup_line ok line len) (\<lambda>pc. Ret (line, o'\<lparr>traplog := Some pc\<rparr>))"

definition opt_truemode :: cfg_handler where
  "opt_truemode ok line len o' = Ret (line, if line ! 0 = CHR ''1'' then o'\<lparr>truemode := 1\<rparr> else o'\<lparr>truemode := 0\<rparr>)"

definition opt_virtualaddresslimit :: cfg_handler where
  "opt_virtualaddresslimit ok line len o' = obind (atoi (cstr line)) (\<lambda>h. Ret (line, o'\<lparr>virtualaddresslimit := word_of_int h\<rparr>))"

definition opt_vme :: cfg_handler where
  "opt_vme ok line len o' = Ret (line, if upper_is line ''NO'' then o'\<lparr>vme := 0\<rparr> else o'\<lparr>vme := 1\<rparr>)"

definition opt_workplace_native :: cfg_handler where
  "opt_workplace_native ok line len o' = Ret (line, if line ! 0 = CHR ''0'' then o'\<lparr>workplace_native := 0\<rparr> else o'\<lparr>workplace_native := 1\<rparr>)"

definition opt_workplace_primary_cp :: cfg_handler where
  "opt_workplace_primary_cp ok line len o' = Ret (line, if line ! 0 = CHR ''1'' then o'\<lparr>workplace_primary_cp := 1\<rparr> else o'\<lparr>workplace_primary_cp := 0\<rparr>)"

definition opt_workplace_process :: cfg_handler where
  "opt_workplace_process ok line len o' = Ret (line, if upper_is line ''NO'' then o'\<lparr>workplace_process := 0\<rparr> else o'\<lparr>workplace_process := 1\<rparr>)"

definition opt_wp_objhandle :: cfg_handler where
  "opt_wp_objhandle ok line len o' = obind (atoi (cstr line)) (\<lambda>h. Ret (line, o'\<lparr>wp_objhandle := word_of_int h\<rparr>))"

definition opt_debugmodmgr :: cfg_handler where
  "opt_debugmodmgr ok line len o' = Ret (line, if upper_is line ''NO'' then o'\<lparr>debugmodmgr := 0\<rparr> else o'\<lparr>debugmodmgr := 1\<rparr>)"

definition opt_debugixfmgr :: cfg_handler where
  "opt_debugixfmgr ok line len o' = Ret (line, if upper_is line ''NO'' then o'\<lparr>debugixfmgr := 0\<rparr> else o'\<lparr>debugixfmgr := 1\<rparr>)"

definition opt_debugprcmgr :: cfg_handler where
  "opt_debugprcmgr ok line len o' = Ret (line, if upper_is line ''NO'' then o'\<lparr>debugprcmgr := 0\<rparr> else o'\<lparr>debugprcmgr := 1\<rparr>)"

definition option_handlers :: "cfg_handler list" where
  "option_handlers = [opt_autofail, opt_buffers, opt_clockscale, opt_closefiles,
     opt_codepage, opt_country, opt_devinfo, opt_diskcache,
     opt_dllbasing, opt_dumpprocess, opt_earlymeminit, opt_fakeiss,
     opt_i13pages, opt_ibm_java_options, opt_iopl, opt_iropt,
     opt_javanofpk, opt_lastdrive, opt_ldrstackopt, opt_libpath,
     opt_maxwait, opt_memman, opt_mode, opt_ndwtimer,
     opt_pauseonerror, opt_printmonbufsize, opt_priority, opt_priority_disk_io,
     opt_protectonly, opt_protshell, opt_raskdata, opt_reipl,
     opt_remote_install_state, opt_reservedriveletter, opt_setboot, opt_sourcepath,
     opt_strace, opt_suppresspopups, opt_swappath, opt_sxfakehwfpu,
     opt_sysdump, opt_threads, opt_timeslice, opt_trace,
     opt_tracebuf, opt_trapdump, opt_traplog, opt_truemode,
     opt_virtualaddresslimit, opt_vme, opt_workplace_native, opt_workplace_primary_cp,
     opt_workplace_process, opt_wp_objhandle, opt_debugmodmgr, opt_debugixfmgr,
     opt_debugprcmgr]"

section \<open>The line parser\<close>

text \<open>The comparison loops: \<open>count\<close> when the loop over the keyword ends.\<close>

fun match_count :: "string \<Rightarrow> char list \<Rightarrow> nat" where
  "match_count (k # ks) (c # cs) = (if toupper c \<noteq> k then 0 else Suc (match_count ks cs))"
| "match_count ks cs = 0"

text \<open>The first statement keyword that is a prefix of the line.\<close>

fun find_type :: "cfg_types list \<Rightarrow> char list \<Rightarrow> nat option" where
  "find_type [] line = None"
| "find_type (t # ts) line =
     (if match_count (ty_name t) line = length (ty_name t) then Some 0
      else map_option Suc (find_type ts line))"

text \<open>The first option name that is a prefix of the line and is followed by \<open>=\<close>.\<close>

fun find_option :: "string list \<Rightarrow> char list \<Rightarrow> nat option" where
  "find_option [] line = None"
| "find_option (n # ns) line =
     (if match_count n line = length n \<and> toupper (line ! match_count n line) = CHR ''=''
      then Some 0 else map_option Suc (find_option ns line))"

text \<open>A statement line: its text behind keyword and separator is stored in the next slot.\<close>

definition CfgTypeLine ::
  "bool \<Rightarrow> nat \<Rightarrow> char list \<Rightarrow> int \<Rightarrow> int \<Rightarrow> cfg_state \<Rightarrow> (u32 \<times> char list \<times> cfg_state) outcome" where
  "CfgTypeLine ok i line len lineno st =
     (let t = typetab st ! i; count = length (ty_name t) + 1 in
      obind (strcpy_down line count) (\<lambda>line.
        if \<not> ok then Ret (0, line, st)
        else obind (dup_line True line (len - int count)) (\<lambda>pc.
          if ty_ip t < length (ty_sp t)
          then Ret (1, line, st\<lparr>typetab := (typetab st)[i := t\<lparr>
                 ty_sp := (ty_sp t)[ty_ip t := \<lparr>nm_line = lineno, nm_string = Some pc\<rparr>],
                 ty_ip := ty_ip t + 1\<rparr>]\<rparr>)
          else Undef)))"

text \<open>An option line: the value is moved to the front of the buffer and handed to the handler.\<close>

definition CfgOptionLine ::
  "bool \<Rightarrow> nat \<Rightarrow> char list \<Rightarrow> int \<Rightarrow> cfg_state \<Rightarrow> (u32 \<times> char list \<times> cfg_state) outcome" where
  "CfgOptionLine ok i line len st =
     (let count = length (options_list ! i) + 1 in
      obind (strcpy_down line count) (\<lambda>line.
      obind ((option_handlers ! i) ok line (len - int count) (opts st)) (\<lambda>(line, o').
        Ret (1, line, st\<lparr>opts := o'\<rparr>))))"

definition CfgParseLine ::
  "bool \<Rightarrow> char list \<Rightarrow> int \<Rightarrow> int \<Rightarrow> cfg_state \<Rightarrow> (u32 \<times> char list \<times> cfg_state) outcome" where
  "CfgParseLine ok line len lineno st =
     (if NUL \<notin> set line then Undef
      else case find_type (typetab st) line of
        Some i \<Rightarrow> CfgTypeLine ok i line len lineno st
      | None \<Rightarrow> (case find_option options_list line of
          Some i \<Rightarrow> CfgOptionLine ok i line len st
        | None \<Rightarrow> Ret (2, line, st)))"

section \<open>The file parser and the environment\<close>

text \<open>
  The loop of \<open>CfgParseConfig\<close>: \<open>rest\<close> is the file from the current offset on, \<open>line\<close> the local
  array, \<open>len\<close> and \<open>lineno\<close> the loop's counters. After every character one following CR or LF is
  skipped. The loop ends when the file does or when the line array is full.
\<close>

definition skip_eol :: "char list \<Rightarrow> char list" where
  "skip_eol cs = (case cs of c # r \<Rightarrow> if c = CR \<or> c = LF then r else cs | [] \<Rightarrow> [])"

lemma length_skip_eol [termination_simp]: "length (skip_eol cs) < Suc (length cs)"
  by (auto simp: skip_eol_def split: list.splits)

fun cfg_loop ::
  "bool \<Rightarrow> char list \<Rightarrow> char list \<Rightarrow> nat \<Rightarrow> int \<Rightarrow> cfg_state \<Rightarrow> (char list \<times> cfg_state) outcome" where
  "cfg_loop ok [] line len lineno st = Ret (line, st)"
| "cfg_loop ok (c # rest) line len lineno st =
     (if \<not> len < MAXLENGTH then Ret (line, st)
      else if c = CR \<or> c = LF
      then obind (CfgParseLine ok (line[len := NUL]) (int len) lineno st) (\<lambda>(rc, line, st).
             if rc = 0 then Exit ''parse: an error occured''
             else cfg_loop ok (skip_eol rest) line 0 (lineno + 1) st)
      else cfg_loop ok (skip_eol rest) (line[len := c]) (len + 1) lineno st)"

text \<open>\<open>line0\<close> is the (uninitialised) content of the local array.\<close>

definition CfgParseConfig ::
  "bool \<Rightarrow> char list \<Rightarrow> char list \<Rightarrow> cfg_state \<Rightarrow> (u32 \<times> cfg_state) outcome" where
  "CfgParseConfig ok line0 addr st =
     obind (cfg_loop ok addr line0 0 0 st) (\<lambda>(_, st). Ret (0, st))"

text \<open>
  \<open>CfgCleanup\<close> frees the stored strings: it returns the strings handed to \<open>free\<close>; the pointers
  in the tables keep their values.
\<close>

definition CfgCleanup :: "cfg_state \<Rightarrow> u32 \<times> string list" where
  "CfgCleanup st =
     (0, concat (map (\<lambda>t. List.map_filter nm_string (take (ty_ip t) (ty_sp t))) (typetab st))
         @ (case iopl (opts st) of None \<Rightarrow> [] | Some s \<Rightarrow> [s]))"

text \<open>
  The comparison of \<open>CfgGetenv\<close>: \<open>p\<close> runs over the stored string up to \<open>=\<close> and breaks at a
  difference; the result is the string from \<open>p\<close> on when the loop ends.
\<close>

fun getenv_scan :: "string \<Rightarrow> string \<Rightarrow> string" where
  "getenv_scan [] name = []"
| "getenv_scan (c # p) name =
     (if c = CHR ''='' then c # p
      else if c \<noteq> toupper (cs_at name 0) then c # p
      else getenv_scan p (drop 1 name))"

fun getenv_entries :: "cfg_name list \<Rightarrow> string \<Rightarrow> string option outcome" where
  "getenv_entries [] name = Ret None"
| "getenv_entries (e # es) name =
     (case nm_string e of None \<Rightarrow> Undef
      | Some s \<Rightarrow> (let p = getenv_scan s name in
          if p \<noteq> [] \<and> hd p = CHR ''='' then Ret (Some (tl p)) else getenv_entries es name))"

definition CfgGetenv :: "cfg_state \<Rightarrow> string \<Rightarrow> (u32 \<times> string option) outcome" where
  "CfgGetenv st name =
     (let t = typetab st ! 3 in
      obind (getenv_entries (take (ty_ip t) (ty_sp t)) name) (\<lambda>r. case r of
        Some v \<Rightarrow> Ret (NO_ERROR, Some v)
      | None \<Rightarrow> Ret (ERROR_ENVVAR_NOT_FOUND, None)))"

lemmas opt_defs =
  opt_autofail_def opt_buffers_def opt_clockscale_def opt_closefiles_def opt_codepage_def
  opt_country_def opt_devinfo_def opt_diskcache_def opt_dllbasing_def opt_dumpprocess_def
  opt_earlymeminit_def opt_fakeiss_def opt_i13pages_def opt_ibm_java_options_def opt_iopl_def
  opt_iropt_def opt_javanofpk_def opt_lastdrive_def opt_ldrstackopt_def opt_libpath_def
  opt_maxwait_def opt_memman_def opt_mode_def opt_ndwtimer_def opt_pauseonerror_def
  opt_printmonbufsize_def opt_priority_def opt_priority_disk_io_def opt_protectonly_def
  opt_protshell_def opt_raskdata_def opt_reipl_def opt_remote_install_state_def
  opt_reservedriveletter_def opt_setboot_def opt_sourcepath_def opt_strace_def
  opt_suppresspopups_def opt_swappath_def opt_sxfakehwfpu_def opt_sysdump_def opt_threads_def
  opt_timeslice_def opt_trace_def opt_tracebuf_def opt_trapdump_def opt_traplog_def
  opt_truemode_def opt_virtualaddresslimit_def opt_vme_def opt_workplace_native_def
  opt_workplace_primary_cp_def opt_workplace_process_def opt_wp_objhandle_def opt_debugmodmgr_def
  opt_debugixfmgr_def opt_debugprcmgr_def

end
