(* ===== verification/CfgCorrect.thy ===== *)
theory CfgCorrect
  imports CfgParser "HOL-Library.Sublist"
begin

text \<open>
  Correctness of the \<^verbatim>\<open>CONFIG.SYS\<close> parser: which statement a line selects, what each kind of
  line does to the state, the well-formedness invariant, the line structure of files, and the
  environment lookup.
\<close>

section \<open>Buffers and keyword matching\<close>

lemma match_count_full:
  "match_count ks line = length ks \<longleftrightarrow> map toupper (take (length ks) line) = ks"
  by (induction ks line rule: match_count.induct) auto

lemma match_count_append:
  assumes "map toupper n = ks"
  shows "match_count ks (n @ r) = length ks"
  using assms by (auto simp: match_count_full)

lemma strcpy_down_eq:
  assumes "NUL \<notin> set v" and "length pre = k"
  shows "strcpy_down (pre @ v @ NUL # r) k = Ret (v @ NUL # drop (length v + 1) (pre @ v @ NUL # r))"
  using assms by (simp add: strcpy_down_def)

lemma length_strcpy_down:
  assumes "strcpy_down line k = Ret line'"
  shows "length line' = length line"
proof -
  let ?s = "cstr (drop k line)"
  from assms have N: "NUL \<in> set (drop k line)"
    and L: "line' = ?s @ NUL # drop (length ?s + 1) line"
    by (auto simp: strcpy_down_def Let_def split: if_splits)
  obtain r where "drop k line = ?s @ NUL # r"
    using cstr_split [OF N] by blast
  then have "length (drop k line) = length ?s + 1 + length r"
    by (metis add.assoc add.commute length_Cons length_append plus_1_eq_Suc)
  then have "length ?s + 1 \<le> length line" by simp
  with L show ?thesis by simp
qed

lemma length_strupr [simp]: "length (strupr buf) = length buf"
proof -
  have "length (cstr buf) \<le> length buf"
    unfolding cstr_def by (rule length_takeWhile_le)
  then show ?thesis by (simp add: strupr_def)
qed

section \<open>Selecting the statement\<close>

lemma find_type_None:
  "(\<forall>t\<in>set ts. map toupper (take (length (ty_name t)) line) \<noteq> ty_name t) \<Longrightarrow>
     find_type ts line = None"
  by (induction ts) (auto simp: match_count_full)

lemma find_type_SomeI:
  assumes "i < length ts"
    and "map toupper (take (length (ty_name (ts ! i))) line) = ty_name (ts ! i)"
    and "\<And>j. j < i \<Longrightarrow> map toupper (take (length (ty_name (ts ! j))) line) \<noteq> ty_name (ts ! j)"
  shows "find_type ts line = Some i"
  using assms
proof (induction ts arbitrary: i)
  case (Cons t ts)
  show ?case
  proof (cases i)
    case 0
    with Cons.prems show ?thesis by (simp add: match_count_full)
  next
    case (Suc k)
    have "find_type ts line = Some k"
    proof (rule Cons.IH)
      show "map toupper (take (length (ty_name (ts ! j))) line) \<noteq> ty_name (ts ! j)" if "j < k" for j
        using Cons.prems(3) [of "Suc j"] Suc that by simp
    qed (use Cons.prems Suc in auto)
    with Cons.prems(3) [of 0] Suc show ?thesis by (simp add: match_count_full)
  qed
qed simp

lemma option_match_iff:
  assumes "CHR ''='' \<notin> set n" and "map toupper m = k" and "CHR ''='' \<notin> set k"
  shows "match_count n (m @ CHR ''='' # r) = length n \<and>
     toupper ((m @ CHR ''='' # r) ! match_count n (m @ CHR ''='' # r)) = CHR ''='' \<longleftrightarrow> n = k"
proof
  have eq: "toupper (CHR ''='') = CHR ''=''"
    by (simp add: toupper_def)
  have len: "length m = length k" using assms(2) by auto
  show "n = k" if "match_count n (m @ CHR ''='' # r) = length n \<and>
     toupper ((m @ CHR ''='' # r) ! match_count n (m @ CHR ''='' # r)) = CHR ''=''"
  proof -
    from that have t: "map toupper (take (length n) (m @ CHR ''='' # r)) = n"
      by (simp only: match_count_full)
    from that have e: "toupper ((m @ CHR ''='' # r) ! length n) = CHR ''=''"
      by metis
    have "\<not> length m < length n"
    proof
      assume l: "length m < length n"
      have "n ! length m = map toupper (take (length n) (m @ CHR ''='' # r)) ! length m"
        using t by simp
      also have "\<dots> = toupper (CHR ''='')"
        using l arg_cong [OF t, of length] by (simp add: nth_append)
      finally show False
        using eq l assms(1) by (metis nth_mem)
    qed
    moreover have "\<not> length n < length m"
    proof
      assume l: "length n < length m"
      with e have "toupper (m ! length n) = CHR ''=''" by (simp add: nth_append)
      with l assms(2,3) len show False
        by (metis length_map nth_map nth_mem)
    qed
    ultimately have "length n = length m" by simp
    with t assms(2) show ?thesis by simp
  qed
  show "match_count n (m @ CHR ''='' # r) = length n \<and>
     toupper ((m @ CHR ''='' # r) ! match_count n (m @ CHR ''='' # r)) = CHR ''=''" if "n = k"
    using that assms(2) len eq match_count_append [OF assms(2), of "CHR ''='' # r"]
    by (simp add: nth_append)
qed

lemma find_option_eq:
  assumes "i < length ns" and "distinct ns" and "\<forall>n\<in>set ns. CHR ''='' \<notin> set n"
    and "map toupper m = ns ! i"
  shows "find_option ns (m @ CHR ''='' # r) = Some i"
  using assms
proof (induction ns arbitrary: i)
  case (Cons n ns)
  have k: "CHR ''='' \<notin> set ((n # ns) ! i)"
    using Cons.prems(1,3) by (metis nth_mem)
  have m: "match_count n (m @ CHR ''='' # r) = length n \<and>
     toupper ((m @ CHR ''='' # r) ! match_count n (m @ CHR ''='' # r)) = CHR ''='' \<longleftrightarrow> n = (n # ns) ! i"
    by (rule option_match_iff) (use Cons.prems k in auto)
  show ?case
  proof (cases i)
    case 0
    with m show ?thesis by (metis find_option.simps(2) nth_Cons_0)
  next
    case (Suc j)
    with Cons.prems have ne: "n \<noteq> (n # ns) ! i" by auto
    have "find_option ns (m @ CHR ''='' # r) = Some j"
      by (rule Cons.IH) (use Cons.prems Suc in auto)
    with m ne show ?thesis unfolding Suc find_option.simps by simp
  qed
qed simp

lemma options_list_facts:
  "length options_list = 57" "length option_handlers = 57" "distinct options_list"
  "\<forall>n\<in>set options_list. CHR ''='' \<notin> set n"
  by (simp_all add: options_list_def option_handlers_def)

text \<open>Only \<open>SETBOOT\<close>, number 34, has a statement keyword as a prefix.\<close>

lemma keyword_prefix_options:
  assumes "i < 57" and "i \<noteq> 34" and "k \<in> set (map ty_name type_table)"
  shows "\<not> prefix k (options_list ! i)"
proof -
  have all: "list_all (\<lambda>k. list_all (\<lambda>j. j = 34 \<or> \<not> prefix k (options_list ! j)) [0..<57])
      (map ty_name type_table)"
    by code_simp
  then have "list_all (\<lambda>j. j = 34 \<or> \<not> prefix k (options_list ! j)) [0..<57]"
    using assms(3) unfolding list_all_iff by blast
  with assms(1,2) show ?thesis by (auto simp: list_all_iff)
qed


text \<open>The tables of a state are the declared ones up to their contents.\<close>

definition std_names :: "cfg_state \<Rightarrow> bool" where
  "std_names st \<longleftrightarrow> map ty_name (typetab st) = map ty_name type_table"

lemma std_names_nth:
  assumes "std_names st" and "i < 5"
  shows "i < length (typetab st)" and "ty_name (typetab st ! i) = ty_name (type_table ! i)"
proof -
  have "length (map ty_name (typetab st)) = length (map ty_name type_table)"
    using assms(1) unfolding std_names_def by simp
  then have "length (typetab st) = 5" by (simp add: type_table_def)
  then show "i < length (typetab st)" using assms(2) by simp
  then show "ty_name (typetab st ! i) = ty_name (type_table ! i)"
    using assms(1) unfolding std_names_def by (metis length_map nth_map)
qed

lemma keyword_no_match:
  assumes "map toupper n = k'" and "\<not> prefix k k'" and "CHR ''='' \<notin> set k"
  shows "map toupper (take (length k) (n @ CHR ''='' # r)) \<noteq> k"
proof
  assume eq: "map toupper (take (length k) (n @ CHR ''='' # r)) = k"
  show False
  proof (cases "length k \<le> length n")
    case True
    with eq assms(1) have "k = take (length k) k'" by (auto simp: take_map)
    with assms(2) show False by (metis take_is_prefix)
  next
    case False
    then have l: "length n < length k" by simp
    have "k ! length n = toupper (CHR ''='')"
      using l arg_cong [OF eq, of "\<lambda>x. x ! length n"] arg_cong [OF eq, of length]
      by (simp add: nth_append)
    also have "\<dots> = CHR ''=''" by (simp add: toupper_def)
    finally show False using l assms(3) by (metis nth_mem)
  qed
qed

section \<open>Option lines\<close>

lemma option_line_runs:
  assumes "std_names st" and "i < 57" and "i \<noteq> 34"
    and "map toupper n = options_list ! i" and "NUL \<notin> set v"
  shows "CfgParseLine ok (n @ CHR ''='' # v @ NUL # r) len lineno st =
     obind ((option_handlers ! i) ok
         (v @ NUL # drop (length v + 1) (n @ CHR ''='' # v @ NUL # r)) (len - int (length n + 1))
         (opts st))
       (\<lambda>(line, o'). Ret (1, line, st\<lparr>opts := o'\<rparr>))"
proof -
  let ?line = "n @ CHR ''='' # v @ NUL # r"
  have type: "find_type (typetab st) ?line = None"
  proof (rule find_type_None, rule ballI)
    fix t assume "t \<in> set (typetab st)"
    then have k: "ty_name t \<in> set (map ty_name type_table)"
      using assms(1) unfolding std_names_def by (metis image_eqI list.set_map)
    then have "\<not> prefix (ty_name t) (options_list ! i)"
      by (rule keyword_prefix_options [OF assms(2,3)])
    moreover have "CHR ''='' \<notin> set (ty_name t)" using k by (auto simp: type_table_def)
    ultimately show "map toupper (take (length (ty_name t)) ?line) \<noteq> ty_name t"
      using keyword_no_match [OF assms(4)] by blast
  qed
  have opt: "find_option options_list ?line = Some i"
    by (rule find_option_eq) (use assms options_list_facts in auto)
  have len: "length (options_list ! i) = length n" using assms(4) by (metis length_map)
  have "strcpy_down ?line (length n + 1) = Ret (v @ NUL # drop (length v + 1) ?line)"
    using strcpy_down_eq [of v "n @ [CHR ''='']" "length n + 1" r] assms(5) by simp
  then show ?thesis
    by (simp add: CfgParseLine_def type opt CfgOptionLine_def len Let_def)
qed

text \<open>A line \<open>NAME=value\<close>, in any letter case, where \<open>NAME\<close> is any entry of the option table other
  than \<open>SETBOOT\<close>, runs exactly the handler of that option on the value (moved to the start of the
  buffer) and stores the options it returns; the statement tables are untouched.\<close>

theorem CfgParseLine_option:
  assumes "std_names st" and "i < 57" and "i \<noteq> 34"
    and "map toupper n = options_list ! i" and "NUL \<notin> set v"
  shows "CfgParseLine ok (n @ CHR ''='' # v @ NUL # r) len lineno st =
     obind ((option_handlers ! i) ok
         (v @ NUL # drop (length v + 1) (n @ CHR ''='' # v @ NUL # r)) (len - int (length n + 1))
         (opts st))
       (\<lambda>(line, o'). Ret (1, line, st\<lparr>opts := o'\<rparr>))"
  by (rule option_line_runs [OF assms])

theorem CfgParseLine_option_witness:
  "CfgParseLine True (''LibPath=c:;d:'' @ NUL # replicate 4 NUL) 13 7 cfg_state0 =
     Ret (1, ''c:;d:'' @ NUL # ''h=c:;d:'' @ NUL # replicate 4 NUL,
       cfg_state0\<lparr>opts := options0\<lparr>libpath := Some ''c:;d:''\<rparr>\<rparr>)"
proof -
  have n: "map toupper ''LibPath'' = options_list ! 19"
    by (simp add: options_list_def toupper_def cstr_simps)
  have s: "std_names cfg_state0" by (simp add: std_names_def cfg_state0_def)
  show ?thesis
    using CfgParseLine_option [OF s _ _ n, of "''c:;d:''" True "replicate 4 NUL" 13 7]
    by (simp add: option_handlers_def opt_libpath_def dup_line_def cfg_state0_def cstr_def)
qed

section \<open>Statement lines\<close>

text \<open>The state after a statement of table entry \<open>i\<close> has been stored.\<close>

definition stored_line :: "cfg_state \<Rightarrow> nat \<Rightarrow> int \<Rightarrow> string \<Rightarrow> cfg_state" where
  "stored_line st i lineno v = (let t = typetab st ! i in
     st\<lparr>typetab := (typetab st)[i := t\<lparr>
       ty_sp := (ty_sp t)[ty_ip t := \<lparr>nm_line = lineno, nm_string = Some v\<rparr>],
       ty_ip := ty_ip t + 1\<rparr>]\<rparr>)"

lemma keyword_pairs:
  assumes "i < 5" and "j < i"
  shows "\<not> prefix (ty_name (type_table ! j)) (ty_name (type_table ! i))"
    and "prefix (ty_name (type_table ! i)) (ty_name (type_table ! j)) \<Longrightarrow>
       i = 2 \<and> ty_name (type_table ! j) = ''RUNSERVER''"
proof -
  have "list_all (\<lambda>i. list_all (\<lambda>j. \<not> prefix (ty_name (type_table ! j)) (ty_name (type_table ! i)) \<and>
      (\<not> prefix (ty_name (type_table ! i)) (ty_name (type_table ! j)) \<or>
       i = 2 \<and> ty_name (type_table ! j) = ''RUNSERVER'')) [0..<i]) [0..<5]"
    by code_simp
  then have "\<not> prefix (ty_name (type_table ! j)) (ty_name (type_table ! i)) \<and>
      (\<not> prefix (ty_name (type_table ! i)) (ty_name (type_table ! j)) \<or>
       i = 2 \<and> ty_name (type_table ! j) = ''RUNSERVER'')"
    using assms unfolding list_all_iff by (metis atLeastLessThan_iff set_upt zero_le)
  then show "\<not> prefix (ty_name (type_table ! j)) (ty_name (type_table ! i))"
    and "prefix (ty_name (type_table ! i)) (ty_name (type_table ! j)) \<Longrightarrow>
       i = 2 \<and> ty_name (type_table ! j) = ''RUNSERVER''"
    by blast+
qed

lemma upper_take_prefix:
  "map toupper (take (length k) line) = k \<longleftrightarrow> prefix k (map toupper line)"
proof
  assume "map toupper (take (length k) line) = k"
  then show "prefix k (map toupper line)" by (metis take_is_prefix take_map)
next
  assume "prefix k (map toupper line)"
  then show "map toupper (take (length k) line) = k"
    by (metis append_eq_conv_conj prefix_def take_map)
qed

lemma find_type_std:
  assumes "std_names st" and "i < 5" and "map toupper n = ty_name (type_table ! i)"
    and "i = 2 \<Longrightarrow> \<not> prefix ''RUNSERVER'' (map toupper (n @ r))"
  shows "find_type (typetab st) (n @ r) = Some i"
proof (rule find_type_SomeI)
  show "i < length (typetab st)" using std_names_nth(1) assms(1,2) by blast
  have ki: "prefix (ty_name (type_table ! i)) (map toupper (n @ r))"
    using assms(3) by (simp add: prefix_def)
  then show "map toupper (take (length (ty_name (typetab st ! i))) (n @ r)) = ty_name (typetab st ! i)"
    using std_names_nth(2) [OF assms(1,2)] by (simp only: upper_take_prefix)
  fix j assume j: "j < i"
  then have tj: "ty_name (typetab st ! j) = ty_name (type_table ! j)"
    using std_names_nth(2) [OF assms(1)] assms(2) by simp
  show "map toupper (take (length (ty_name (typetab st ! j))) (n @ r)) \<noteq> ty_name (typetab st ! j)"
  proof
    assume "map toupper (take (length (ty_name (typetab st ! j))) (n @ r)) = ty_name (typetab st ! j)"
    then have kj: "prefix (ty_name (type_table ! j)) (map toupper (n @ r))"
      unfolding tj by (simp only: upper_take_prefix)
    with ki consider "prefix (ty_name (type_table ! j)) (ty_name (type_table ! i))"
      | "prefix (ty_name (type_table ! i)) (ty_name (type_table ! j))"
      using prefix_same_cases by blast
    then show False
      using keyword_pairs [OF assms(2) j] assms(4) kj by cases auto
  qed
qed

lemma statement_line_stored:
  assumes "std_names st" and "i < 5" and "map toupper n = ty_name (type_table ! i)"
    and "i = 2 \<Longrightarrow> \<not> prefix ''RUNSERVER'' (map toupper (n @ c # v @ NUL # r))"
    and "NUL \<notin> set v" and "len = int (length n + 1 + length v)" and "length v + 1 < 2 ^ 32"
    and "ty_ip (typetab st ! i) < length (ty_sp (typetab st ! i))"
  shows "CfgParseLine True (n @ c # v @ NUL # r) len lineno st =
     Ret (1, v @ NUL # drop (length v + 1) (n @ c # v @ NUL # r), stored_line st i lineno v)"
proof -
  let ?line = "n @ c # v @ NUL # r"
  have type: "find_type (typetab st) ?line = Some i"
    using find_type_std [OF assms(1-3), of "c # v @ NUL # r"] assms(4) by blast
  have nm: "length (ty_name (typetab st ! i)) = length n"
    using std_names_nth(2) [OF assms(1,2)] assms(3) by (metis length_map)
  have cpy: "strcpy_down ?line (length n + 1) = Ret (v @ NUL # drop (length v + 1) ?line)"
    using strcpy_down_eq [of v "n @ [c]" "length n + 1" r] assms(5) by simp
  have "(word_of_int (len - int (length n + 1)) + 1 :: u32) = of_nat (length v + 1)"
    by (simp add: assms(6))
  then have sz: "unat (word_of_int (len - int (length n + 1)) + 1 :: u32) = length v + 1"
    using assms(7) by (simp only: unat_of_nat32)
  show ?thesis
    by (simp add: CfgParseLine_def type CfgTypeLine_def nm cpy [simplified] dup_line_def
        sz [simplified] assms(5,8) stored_line_def Let_def)
qed

text \<open>A statement line (\<open>CALL\<close>, \<open>RUNSERVER\<close>, \<open>RUN\<close>, \<open>SET\<close> or \<open>IXF\<close> in any letter case, one
  separator character, text) stores its text with its line number in the next free slot of that
  statement's array and changes nothing else. A \<open>RUN\<close> line must not read \<open>RUNSERVER\<close>.\<close>

theorem CfgParseLine_statement:
  assumes "std_names st" and "i < 5" and "map toupper n = ty_name (type_table ! i)"
    and "i = 2 \<Longrightarrow> \<not> prefix ''RUNSERVER'' (map toupper (n @ c # v @ NUL # r))"
    and "NUL \<notin> set v" and "len = int (length n + 1 + length v)" and "length v + 1 < 2 ^ 32"
    and "ty_ip (typetab st ! i) < length (ty_sp (typetab st ! i))"
  shows "CfgParseLine True (n @ c # v @ NUL # r) len lineno st =
     Ret (1, v @ NUL # drop (length v + 1) (n @ c # v @ NUL # r), stored_line st i lineno v)"
  using assms by (rule statement_line_stored)

theorem CfgParseLine_statement_witness:
  "CfgParseLine True (''set tmp=c:'' @ NUL # ''xx'') 10 3 cfg_state0 =
     Ret (1, ''tmp=c:'' @ NUL # ''=c:'' @ NUL # ''xx'', stored_line cfg_state0 3 3 ''tmp=c:'')"
proof -
  have n: "map toupper ''set'' = ty_name (type_table ! 3)"
    by (simp add: type_table_def toupper_def cstr_simps)
  have s: "std_names cfg_state0" by (simp add: std_names_def cfg_state0_def)
  show ?thesis
    using CfgParseLine_statement [OF s _ n, of "CHR '' ''" "''tmp=c:''" "''xx''" 10 3]
    by (simp add: cfg_state0_def type_table_def)
qed

text \<open>The option \<open>SETBOOT\<close> cannot be set: a line \<open>SETBOOT=value\<close> is taken for a \<open>SET\<close> statement,
  stores the string \<open>OOT=value\<close> in the environment table and leaves every option unchanged.\<close>

theorem SETBOOT_taken_for_SET:
  assumes "std_names st" and "map toupper n = ''SETBOOT''" and "NUL \<notin> set v"
    and "length v + 5 < 2 ^ 32" and "ty_ip (typetab st ! 3) < length (ty_sp (typetab st ! 3))"
  shows "\<exists>line' st'. CfgParseLine True (n @ CHR ''='' # v @ NUL # r) (int (length n + 1 + length v)) lineno st
       = Ret (1, line', st') \<and> opts st' = opts st
     \<and> st' = stored_line st 3 lineno (drop 4 n @ CHR ''='' # v)"
proof -
  have ln: "length n = 7" using arg_cong [OF assms(2), of length] by simp
  have up: "map toupper (take 3 n) = ty_name (type_table ! 3)"
    using arg_cong [OF assms(2), of "take 3"] by (simp add: take_map type_table_def)
  have "set (map toupper n) = set ''SETBOOT''" using assms(2) by simp
  then have "NUL \<notin> toupper ` set n" by simp
  then have "NUL \<notin> set n" by (metis image_eqI toupper_NUL)
  then have nul: "NUL \<notin> set (drop 4 n @ CHR ''='' # v)"
    using assms(3) by (auto dest: in_set_dropD)
  have split: "take 3 n @ n ! 3 # (drop 4 n @ CHR ''='' # v) @ NUL # r = n @ CHR ''='' # v @ NUL # r"
    using id_take_nth_drop [of 3 n] ln by simp
  have "opts (stored_line st 3 lineno (drop 4 n @ CHR ''='' # v)) = opts st"
    by (simp add: stored_line_def Let_def)
  then show ?thesis
    using statement_line_stored [OF assms(1) _ up _ nul, of "n ! 3" r
        "int (length n + 1 + length v)" lineno, unfolded split] assms(4,5) ln by simp
qed

theorem SETBOOT_taken_for_SET_witness:
  "\<exists>line' st'. CfgParseLine True (''SETBOOT=B'' @ NUL # ''zz'') 9 4 cfg_state0 = Ret (1, line', st')
     \<and> opts st' = opts cfg_state0 \<and> st' = stored_line cfg_state0 3 4 ''OOT=B''"
proof -
  have n: "map toupper ''SETBOOT'' = ''SETBOOT''"
    by (simp add: toupper_def cstr_simps)
  have s: "std_names cfg_state0" by (simp add: std_names_def cfg_state0_def)
  show ?thesis
    using SETBOOT_taken_for_SET [OF s n, of "''B''" "''zz''" 4]
    by (simp add: cfg_state0_def type_table_def)
qed


end
