(* ===== verification/CfgWf.thy ===== *)
theory CfgWf
  imports CfgCorrect
begin

text \<open>
  The well-formedness invariant of the configuration and that each of the option handlers keeps it.
\<close>

section \<open>Well-formedness\<close>

definition opts_wf :: "cfg_opts \<Rightarrow> bool" where
  "opts_wf o' \<longleftrightarrow> length (mode o') = 20 \<and> unat (mode_id o') \<le> 20
     \<and> (\<forall>k<unat (mode_id o'). mode o' ! k \<noteq> None)
     \<and> length (codepage o') = 7 \<and> 1 \<le> unat (maxwait o') \<and> unat (maxwait o') \<le> 255
     \<and> clockscale o' \<in> {0, 1, 2, 4} \<and> iopl o' \<noteq> None \<and> bootdrive o' \<noteq> None
     \<and> configfile o' \<noteq> None
     \<and> list_all (\<lambda>w. w \<le> 1) [autofail o', closefiles o', dllbasing o', earlymeminit o', fakeiss o',
          i13pages o', javanofpk o', ldrstackopt o', ndwtimer o', pauseonerror o', priority o',
          priority_disk_io o', protectonly o', raskdata o', reipl o', sxfakehwfpu o', truemode o',
          vme o', workplace_native o', workplace_primary_cp o', workplace_process o', debugmodmgr o',
          debugixfmgr o', debugprcmgr o', debugmemmgr o']"

definition type_wf :: "cfg_types \<Rightarrow> bool" where
  "type_wf t \<longleftrightarrow> ty_ip t \<le> length (ty_sp t) \<and> (\<forall>k<ty_ip t. \<exists>s. nm_string (ty_sp t ! k) = Some s \<and> NUL \<notin> set s)"

definition cfg_wf :: "cfg_state \<Rightarrow> bool" where
  "cfg_wf st \<longleftrightarrow> opts_wf (opts st) \<and> list_all type_wf (typetab st)
     \<and> map (\<lambda>t. (ty_name t, length (ty_sp t))) (typetab st)
         = map (\<lambda>t. (ty_name t, length (ty_sp t))) type_table"

lemma cfg_wf_std_names: "cfg_wf st \<Longrightarrow> std_names st"
  unfolding cfg_wf_def std_names_def
  by (metis (mono_tags, lifting) comp_apply fst_conv map_eq_conv map_map)

text \<open>Which updates of the options keep them well-formed.\<close>

lemma opts_wf_free [simp]:
  "opts_wf (o'\<lparr>buffers := x_buffers\<rparr>) = opts_wf o'"
  "opts_wf (o'\<lparr>country := x_country\<rparr>) = opts_wf o'"
  "opts_wf (o'\<lparr>devinfo_kbd := x_devinfo_kbd\<rparr>) = opts_wf o'"
  "opts_wf (o'\<lparr>devinfo_vio := x_devinfo_vio\<rparr>) = opts_wf o'"
  "opts_wf (o'\<lparr>diskcache := x_diskcache\<rparr>) = opts_wf o'"
  "opts_wf (o'\<lparr>dumpprocess := x_dumpprocess\<rparr>) = opts_wf o'"
  "opts_wf (o'\<lparr>ibm_java_options := x_ibm_java_options\<rparr>) = opts_wf o'"
  "opts_wf (o'\<lparr>iropt := x_iropt\<rparr>) = opts_wf o'"
  "opts_wf (o'\<lparr>lastdrive := x_lastdrive\<rparr>) = opts_wf o'"
  "opts_wf (o'\<lparr>libpath := x_libpath\<rparr>) = opts_wf o'"
  "opts_wf (o'\<lparr>memman := x_memman\<rparr>) = opts_wf o'"
  "opts_wf (o'\<lparr>printmonbufsize := x_printmonbufsize\<rparr>) = opts_wf o'"
  "opts_wf (o'\<lparr>protshell := x_protshell\<rparr>) = opts_wf o'"
  "opts_wf (o'\<lparr>remote_install_state := x_remote_install_state\<rparr>) = opts_wf o'"
  "opts_wf (o'\<lparr>reservedriveletter := x_reservedriveletter\<rparr>) = opts_wf o'"
  "opts_wf (o'\<lparr>setboot := x_setboot\<rparr>) = opts_wf o'"
  "opts_wf (o'\<lparr>sourcepath := x_sourcepath\<rparr>) = opts_wf o'"
  "opts_wf (o'\<lparr>strace := x_strace\<rparr>) = opts_wf o'"
  "opts_wf (o'\<lparr>suppresspopups := x_suppresspopups\<rparr>) = opts_wf o'"
  "opts_wf (o'\<lparr>swappath := x_swappath\<rparr>) = opts_wf o'"
  "opts_wf (o'\<lparr>sysdump := x_sysdump\<rparr>) = opts_wf o'"
  "opts_wf (o'\<lparr>threads := x_threads\<rparr>) = opts_wf o'"
  "opts_wf (o'\<lparr>timeslice := x_timeslice\<rparr>) = opts_wf o'"
  "opts_wf (o'\<lparr>trace := x_trace\<rparr>) = opts_wf o'"
  "opts_wf (o'\<lparr>tracebuf := x_tracebuf\<rparr>) = opts_wf o'"
  "opts_wf (o'\<lparr>trapdump := x_trapdump\<rparr>) = opts_wf o'"
  "opts_wf (o'\<lparr>traplog := x_traplog\<rparr>) = opts_wf o'"
  "opts_wf (o'\<lparr>virtualaddresslimit := x_virtualaddresslimit\<rparr>) = opts_wf o'"
  "opts_wf (o'\<lparr>wp_objhandle := x_wp_objhandle\<rparr>) = opts_wf o'"
  by (simp_all add: opts_wf_def)

lemma opts_wf_flag [simp]:
  assumes "opts_wf o'"
  shows
    "opts_wf (o'\<lparr>autofail := w\<rparr>) \<longleftrightarrow> w \<le> 1"
    and "opts_wf (o'\<lparr>closefiles := w\<rparr>) \<longleftrightarrow> w \<le> 1"
    and "opts_wf (o'\<lparr>dllbasing := w\<rparr>) \<longleftrightarrow> w \<le> 1"
    and "opts_wf (o'\<lparr>earlymeminit := w\<rparr>) \<longleftrightarrow> w \<le> 1"
    and "opts_wf (o'\<lparr>fakeiss := w\<rparr>) \<longleftrightarrow> w \<le> 1"
    and "opts_wf (o'\<lparr>i13pages := w\<rparr>) \<longleftrightarrow> w \<le> 1"
    and "opts_wf (o'\<lparr>javanofpk := w\<rparr>) \<longleftrightarrow> w \<le> 1"
    and "opts_wf (o'\<lparr>ldrstackopt := w\<rparr>) \<longleftrightarrow> w \<le> 1"
    and "opts_wf (o'\<lparr>ndwtimer := w\<rparr>) \<longleftrightarrow> w \<le> 1"
    and "opts_wf (o'\<lparr>pauseonerror := w\<rparr>) \<longleftrightarrow> w \<le> 1"
    and "opts_wf (o'\<lparr>priority := w\<rparr>) \<longleftrightarrow> w \<le> 1"
    and "opts_wf (o'\<lparr>priority_disk_io := w\<rparr>) \<longleftrightarrow> w \<le> 1"
    and "opts_wf (o'\<lparr>protectonly := w\<rparr>) \<longleftrightarrow> w \<le> 1"
    and "opts_wf (o'\<lparr>raskdata := w\<rparr>) \<longleftrightarrow> w \<le> 1"
    and "opts_wf (o'\<lparr>reipl := w\<rparr>) \<longleftrightarrow> w \<le> 1"
    and "opts_wf (o'\<lparr>sxfakehwfpu := w\<rparr>) \<longleftrightarrow> w \<le> 1"
    and "opts_wf (o'\<lparr>truemode := w\<rparr>) \<longleftrightarrow> w \<le> 1"
    and "opts_wf (o'\<lparr>vme := w\<rparr>) \<longleftrightarrow> w \<le> 1"
    and "opts_wf (o'\<lparr>workplace_native := w\<rparr>) \<longleftrightarrow> w \<le> 1"
    and "opts_wf (o'\<lparr>workplace_primary_cp := w\<rparr>) \<longleftrightarrow> w \<le> 1"
    and "opts_wf (o'\<lparr>workplace_process := w\<rparr>) \<longleftrightarrow> w \<le> 1"
    and "opts_wf (o'\<lparr>debugmodmgr := w\<rparr>) \<longleftrightarrow> w \<le> 1"
    and "opts_wf (o'\<lparr>debugixfmgr := w\<rparr>) \<longleftrightarrow> w \<le> 1"
    and "opts_wf (o'\<lparr>debugprcmgr := w\<rparr>) \<longleftrightarrow> w \<le> 1"
    and "opts_wf (o'\<lparr>debugmemmgr := w\<rparr>) \<longleftrightarrow> w \<le> 1"
  using assms by (simp_all add: opts_wf_def)

lemma opts_wf_special [simp]:
  assumes "opts_wf o'"
  shows "opts_wf (o'\<lparr>codepage := cp\<rparr>) \<longleftrightarrow> length cp = 7"
    and "opts_wf (o'\<lparr>clockscale := w\<rparr>) \<longleftrightarrow> w \<in> {0, 1, 2, 4}"
    and "opts_wf (o'\<lparr>iopl := s\<rparr>) \<longleftrightarrow> s \<noteq> None"
  using assms by (simp_all add: opts_wf_def)

lemma mode_id_small: "(w :: u32) <s 20 \<Longrightarrow> unat w \<le> 20 \<Longrightarrow> unat w < 20"
  by (cases "w = 20") (auto simp: le_less word_unat_eq_iff)

lemma opts_wf_mode [simp]:
  assumes "opts_wf o'" and "mode_id o' <s 20"
  shows "opts_wf (o'\<lparr>mode := (mode o')[unat (mode_id o') := Some x], mode_id := mode_id o' + 1\<rparr>)"
proof -
  have lt: "unat (mode_id o') < 20"
    using mode_id_small assms by (simp add: opts_wf_def)
  then have "unat (mode_id o' + 1) = unat (mode_id o') + 1"
    by (simp add: unat_word_ariths)
  with assms(1) lt show ?thesis
    by (auto simp: opts_wf_def less_Suc_eq nth_list_update)
qed

lemma opts_wf_maxwait [simp]:
  assumes "opts_wf o'" and "1 \<le> h" and "h \<le> 255"
  shows "opts_wf (o'\<lparr>maxwait := word_of_int h\<rparr>)"
proof -
  have "unat (word_of_int h :: u16) = nat h"
    using assms by (simp add: unat_eq_nat_uint uint_word_of_int)
  with assms show ?thesis by (auto simp: opts_wf_def)
qed

text \<open>A handler keeps well-formed options and the size of the buffer.\<close>

definition handler_keeps :: "cfg_handler \<Rightarrow> bool" where
  "handler_keeps h \<longleftrightarrow> (\<forall>ok line len o' line' o''. opts_wf o' \<longrightarrow>
     h ok line len o' = Ret (line', o'') \<longrightarrow> opts_wf o'' \<and> length line' = length line)"

lemma handlers_keep:
  "handler_keeps opt_autofail"
  "handler_keeps opt_buffers"
  "handler_keeps opt_clockscale"
  "handler_keeps opt_closefiles"
  "handler_keeps opt_codepage"
  "handler_keeps opt_country"
  "handler_keeps opt_devinfo"
  "handler_keeps opt_diskcache"
  "handler_keeps opt_dllbasing"
  "handler_keeps opt_dumpprocess"
  "handler_keeps opt_earlymeminit"
  "handler_keeps opt_fakeiss"
  "handler_keeps opt_i13pages"
  "handler_keeps opt_ibm_java_options"
  "handler_keeps opt_iopl"
  "handler_keeps opt_iropt"
  "handler_keeps opt_javanofpk"
  "handler_keeps opt_lastdrive"
  "handler_keeps opt_ldrstackopt"
  "handler_keeps opt_libpath"
  "handler_keeps opt_maxwait"
  "handler_keeps opt_memman"
  "handler_keeps opt_mode"
  "handler_keeps opt_ndwtimer"
  "handler_keeps opt_pauseonerror"
  "handler_keeps opt_printmonbufsize"
  "handler_keeps opt_priority"
  "handler_keeps opt_priority_disk_io"
  "handler_keeps opt_protectonly"
  "handler_keeps opt_protshell"
  "handler_keeps opt_raskdata"
  "handler_keeps opt_reipl"
  "handler_keeps opt_remote_install_state"
  "handler_keeps opt_reservedriveletter"
  "handler_keeps opt_setboot"
  "handler_keeps opt_sourcepath"
  "handler_keeps opt_strace"
  "handler_keeps opt_suppresspopups"
  "handler_keeps opt_swappath"
  "handler_keeps opt_sxfakehwfpu"
  "handler_keeps opt_sysdump"
  "handler_keeps opt_threads"
  "handler_keeps opt_timeslice"
  "handler_keeps opt_trace"
  "handler_keeps opt_tracebuf"
  "handler_keeps opt_trapdump"
  "handler_keeps opt_traplog"
  "handler_keeps opt_truemode"
  "handler_keeps opt_virtualaddresslimit"
  "handler_keeps opt_vme"
  "handler_keeps opt_workplace_native"
  "handler_keeps opt_workplace_primary_cp"
  "handler_keeps opt_workplace_process"
  "handler_keeps opt_wp_objhandle"
  "handler_keeps opt_debugmodmgr"
  "handler_keeps opt_debugixfmgr"
  "handler_keeps opt_debugprcmgr"
  by (auto simp: handler_keeps_def opt_defs Let_def split: if_splits)

lemma handler_wf:
  assumes "i < 57" and "opts_wf o'" and "(option_handlers ! i) ok line len o' = Ret (line', o'')"
  shows "opts_wf o'' \<and> length line' = length line"
proof -
  have "list_all handler_keeps option_handlers"
    unfolding option_handlers_def by (simp only: list.pred_inject handlers_keep simp_thms)
  then have "handler_keeps (option_handlers ! i)"
    using assms(1) options_list_facts(2) by (simp add: list_all_length)
  with assms(2,3) show ?thesis unfolding handler_keeps_def by blast
qed

end
