(* ===== verification/CfgFile.thy ===== *)
theory CfgFile
  imports CfgWf
begin

text \<open>
  The configuration as a whole: every line keeps the well-formedness invariant, the line structure
  of a \<^verbatim>\<open>CONFIG.SYS\<close> file, and the environment that \<open>SET\<close> lines build.
\<close>

lemma find_option_less: "find_option ns line = Some i \<Longrightarrow> i < length ns"
  by (induction ns arbitrary: i) (auto split: if_splits)

lemma find_type_less: "find_type ts line = Some i \<Longrightarrow> i < length ts"
  by (induction ts arbitrary: i) (auto split: if_splits)

section \<open>Every line keeps the invariant\<close>

lemma CfgOptionLine_wf:
  assumes "cfg_wf st" and "i < 57" and "CfgOptionLine ok i line len st = Ret (rc, line', st')"
  shows "cfg_wf st' \<and> length line' = length line"
proof -
  obtain l1 o'' where l1: "strcpy_down line (length (options_list ! i) + 1) = Ret l1"
    and h: "(option_handlers ! i) ok l1 (len - int (length (options_list ! i) + 1)) (opts st) = Ret (line', o'')"
    and st': "st' = st\<lparr>opts := o''\<rparr>"
    using assms(3) unfolding CfgOptionLine_def Let_def by (auto split: prod.splits)
  have "opts_wf o'' \<and> length line' = length l1"
    using handler_wf [OF assms(2) _ h] assms(1) by (simp add: cfg_wf_def)
  then show ?thesis
    using assms(1) st' length_strcpy_down [OF l1] by (simp add: cfg_wf_def)
qed

lemma stored_type_wf:
  assumes "type_wf t" and "ty_ip t < length (ty_sp t)"
  and "NUL \<notin> set v" shows "type_wf (t\<lparr>ty_sp := (ty_sp t)[ty_ip t := \<lparr>nm_line = l, nm_string = Some v\<rparr>], ty_ip := ty_ip t + 1\<rparr>)"
  using assms by (auto simp: type_wf_def nth_list_update less_Suc_eq)

lemma stored_line_wf:
  assumes "cfg_wf st" and "i < length (typetab st)"
    and "ty_ip (typetab st ! i) < length (ty_sp (typetab st ! i))"
    and "NUL \<notin> set v"
  shows "cfg_wf (stored_line st i lineno v)"
proof -
  have "type_wf (typetab st ! i)" using assms(1,2) by (simp add: cfg_wf_def list_all_length)
  then have "list_all type_wf (typetab (stored_line st i lineno v))"
    using assms stored_type_wf
    by (auto simp: cfg_wf_def stored_line_def Let_def list_all_length nth_list_update)
  moreover have "map (\<lambda>t. (ty_name t, length (ty_sp t))) (typetab (stored_line st i lineno v))
      = map (\<lambda>t. (ty_name t, length (ty_sp t))) (typetab st)"
    using assms(2) by (auto simp: stored_line_def Let_def list_eq_iff_nth_eq nth_list_update)
  ultimately show ?thesis using assms(1) by (simp add: cfg_wf_def stored_line_def Let_def)
qed

lemma dup_line_no_NUL: "dup_line ok line len = Ret v \<Longrightarrow> NUL \<notin> set v"
  by (auto simp: dup_line_def split: if_splits)

lemma CfgTypeLine_wf:
  assumes "cfg_wf st" and "i < length (typetab st)"
    and "CfgTypeLine ok i line len lineno st = Ret (rc, line', st')"
  shows "cfg_wf st' \<and> length line' = length line"
proof -
  obtain l1 where l1: "strcpy_down line (length (ty_name (typetab st ! i)) + 1) = Ret l1"
    and "line' = l1"
    and "st' = st \<or> ty_ip (typetab st ! i) < length (ty_sp (typetab st ! i)) \<and>
           (\<exists>v n. dup_line True l1 n = Ret v \<and> st' = stored_line st i lineno v)"
    using assms(3) unfolding CfgTypeLine_def stored_line_def Let_def
    by (auto split: if_splits)
  then show ?thesis
    using length_strcpy_down [OF l1] stored_line_wf [OF assms(1,2)] dup_line_no_NUL assms(1) by blast
qed

lemma CfgParseLine_wf:
  assumes "cfg_wf st" and "CfgParseLine ok line len lineno st = Ret (rc, line', st')"
  shows "cfg_wf st'" and "length line' = length line"
proof -
  have "cfg_wf st' \<and> length line' = length line"
  proof (cases "find_type (typetab st) line")
    case (Some i)
    then have "CfgTypeLine ok i line len lineno st = Ret (rc, line', st')"
      using assms(2) by (auto simp: CfgParseLine_def split: if_splits)
    then show ?thesis using CfgTypeLine_wf [OF assms(1)] find_type_less [OF Some] by blast
  next
    case None
    show ?thesis
    proof (cases "find_option options_list line")
      case (Some i)
      with None have "CfgOptionLine ok i line len st = Ret (rc, line', st')"
        using assms(2) by (auto simp: CfgParseLine_def split: if_splits)
      then show ?thesis
        using CfgOptionLine_wf [OF assms(1)] find_option_less [OF Some] options_list_facts(1) by simp
    qed (use None assms in \<open>auto simp: CfgParseLine_def split: if_splits\<close>)
  qed
  then show "cfg_wf st'" and "length line' = length line" by blast+
qed

lemma cfg_loop_wf:
  assumes "cfg_wf st" and "cfg_loop ok rest line len lineno st = Ret (line', st')"
  shows "cfg_wf st' \<and> length line' = length line"
  using assms
proof (induction ok rest line len lineno st rule: cfg_loop.induct)
  case (2 ok c rest line len lineno st)
  show ?case
  proof (cases "len < MAXLENGTH \<and> (c = CR \<or> c = LF)")
    case True
    then obtain rc l1 st1 where p: "CfgParseLine ok (line[len := NUL]) (int len) lineno st = Ret (rc, l1, st1)"
      and rc: "rc \<noteq> 0" and l: "cfg_loop ok (skip_eol rest) l1 0 (lineno + 1) st1 = Ret (line', st')"
      using "2.prems"(2) by (auto split: if_splits)
    then show ?thesis
      using "2.IH"(1) [OF _ _ rc _ l] True CfgParseLine_wf [OF "2.prems"(1) p] by simp
  next
    case False
    with "2.prems" "2.IH"(2) show ?thesis by (auto split: if_splits)
  qed
qed simp



section \<open>Lines of a file\<close>

definition no_eol :: "string \<Rightarrow> bool" where
  "no_eol l \<longleftrightarrow> CR \<notin> set l \<and> LF \<notin> set l"

definition crlf_text :: "string list \<Rightarrow> string" where
  "crlf_text ls = concat (map (\<lambda>l. l @ [CR, LF]) ls)"

definition lf_text :: "string list \<Rightarrow> string" where
  "lf_text ls = concat (map (\<lambda>l. l @ [LF]) ls)"

text \<open>The reference: the lines one after another, each in the buffer its predecessor left.\<close>

fun cfg_lines :: "bool \<Rightarrow> string list \<Rightarrow> char list \<Rightarrow> int \<Rightarrow> cfg_state \<Rightarrow> cfg_state outcome" where
  "cfg_lines ok [] line lineno st = Ret st"
| "cfg_lines ok (l # ls) line lineno st =
     obind (CfgParseLine ok (l @ NUL # drop (length l + 1) line) (int (length l)) lineno st)
       (\<lambda>(rc, line, st). if rc = 0 then Exit ''parse: an error occured''
          else cfg_lines ok ls line (lineno + 1) st)"

lemma skip_eol_simps [simp]:
  "skip_eol [] = []" "skip_eol (CR # r) = r" "skip_eol (LF # r) = r"
  "no_eol l \<Longrightarrow> l \<noteq> [] \<Longrightarrow> skip_eol (l @ r) = l @ r"
  by (cases l; auto simp: skip_eol_def no_eol_def)+

lemma loop_reads_line:
  assumes "no_eol l" and "l \<noteq> []" and "length p + length l \<le> length (p @ q)"
    and "length p + length l \<le> MAXLENGTH"
  shows "cfg_loop ok (l @ r) (p @ q) (length p) n st =
     cfg_loop ok (skip_eol r) (p @ l @ drop (length l) q) (length p + length l) n st"
  using assms
proof (induction l arbitrary: p q)
  case (Cons c l)
  obtain d q' where q: "q = d # q'" using Cons.prems(3) by (cases q) auto
  have c: "c \<noteq> CR" "c \<noteq> LF" "no_eol l" using Cons.prems(1) by (auto simp: no_eol_def)
  have "cfg_loop ok ((c # l) @ r) (p @ q) (length p) n st =
      cfg_loop ok (skip_eol (l @ r)) ((p @ [c]) @ q') (length (p @ [c])) n st"
    using c Cons.prems(4) by (simp add: q)
  also have "\<dots> = cfg_loop ok (skip_eol r) (p @ (c # l) @ drop (length (c # l)) q)
      (length p + length (c # l)) n st"
  proof (cases "l = []")
    case False
    have "cfg_loop ok (l @ r) ((p @ [c]) @ q') (length (p @ [c])) n st =
        cfg_loop ok (skip_eol r) ((p @ [c]) @ l @ drop (length l) q') (length (p @ [c]) + length l) n st"
      by (rule Cons.IH) (use Cons.prems c False q in auto)
    with False c q show ?thesis by simp
  qed (use q in simp)
  finally show ?case .
qed simp

lemma loop_parses_line:
  assumes "no_eol l" and "length l < MAXLENGTH" and "length line = MAXLENGTH"
    and "e = CR \<or> e = LF" and "skip_eol r = e # r'"
  shows "cfg_loop ok (if l = [] then e # r' else l @ r) line 0 n st =
     obind (CfgParseLine ok (l @ NUL # drop (length l + 1) line) (int (length l)) n st)
       (\<lambda>(rc, line, st). if rc = 0 then Exit ''parse: an error occured''
          else cfg_loop ok (skip_eol r') line 0 (n + 1) st)"
proof -
  have "cfg_loop ok (if l = [] then e # r' else l @ r) line 0 n st
      = cfg_loop ok (e # r') (l @ drop (length l) line) (length l) n st"
    using loop_reads_line [of l "[]" line ok r n st] assms by simp
  moreover have "drop (length l) line = line ! length l # drop (length l + 1) line"
    using assms(2,3) Cons_nth_drop_Suc [of "length l" line] by simp
  ultimately show ?thesis
    using assms(2,4) by (auto simp: list_update_append)
qed

lemma crlf_head:
  assumes "no_eol l" and "t = crlf_text (l # ls) \<or> t = skip_eol (crlf_text (l # ls))"
  shows "\<exists>e r r'. t = (if l = [] then e # r' else l @ r) \<and> skip_eol r = e # r' \<and> (e = CR \<or> e = LF)
     \<and> (skip_eol r' = crlf_text ls \<or> skip_eol r' = skip_eol (crlf_text ls))"
proof (cases "l = [] \<and> t = crlf_text (l # ls)")
  case True
  then show ?thesis
    by (intro exI [of _ CR] exI [of _ "LF # CR # LF # crlf_text ls"] exI [of _ "LF # crlf_text ls"])
      (simp add: crlf_text_def)
next
  case False
  with assms show ?thesis
    by (intro exI [of _ LF] exI [of _ "CR # LF # crlf_text ls"] exI [of _ "crlf_text ls"])
      (cases "l = []"; simp add: crlf_text_def)
qed

lemma crlf_loop:
  assumes "list_all (\<lambda>l. no_eol l \<and> length l < MAXLENGTH) ls" and "cfg_wf st"
    and "length line = MAXLENGTH" and "t = crlf_text ls \<or> t = skip_eol (crlf_text ls)"
  shows "obind (cfg_loop ok t line 0 n st) (\<lambda>(_, st). Ret st) = cfg_lines ok ls line n st"
  using assms
proof (induction ls arbitrary: line n st t)
  case Nil
  then show ?case by (auto simp: crlf_text_def)
next
  case (Cons l ls)
  let ?buf = "l @ NUL # drop (length l + 1) line"
  obtain e r r' where t: "t = (if l = [] then e # r' else l @ r)" and e: "e = CR \<or> e = LF"
    and r: "skip_eol r = e # r'"
    and r': "skip_eol r' = crlf_text ls \<or> skip_eol r' = skip_eol (crlf_text ls)"
    using crlf_head [of l t ls] Cons.prems(1,4) by auto
  have step: "cfg_loop ok t line 0 n st = obind (CfgParseLine ok ?buf (int (length l)) n st)
       (\<lambda>(rc, line, st). if rc = 0 then Exit ''parse: an error occured''
          else cfg_loop ok (skip_eol r') line 0 (n + 1) st)"
    unfolding t by (rule loop_parses_line) (use Cons.prems e r in auto)
  show ?case
  proof (cases "CfgParseLine ok ?buf (int (length l)) n st")
    case (Ret x)
    obtain rc line1 st1 where x: "x = (rc, line1, st1)" by (cases x) auto
    have "cfg_wf st1" and "length line1 = length ?buf"
      using CfgParseLine_wf [OF Cons.prems(2)] Ret x by auto
    then have "obind (cfg_loop ok (skip_eol r') line1 0 (n + 1) st1) (\<lambda>(_, st). Ret st)
        = cfg_lines ok ls line1 (n + 1) st1"
      by (intro Cons.IH) (use Cons.prems r' in auto)
    with step Ret x show ?thesis by simp
  qed (use step in auto)
qed

lemma config_lines:
  assumes "cfg_wf st" and "length line0 = MAXLENGTH"
    and "list_all (\<lambda>l. no_eol l \<and> length l < MAXLENGTH) ls"
  shows "CfgParseConfig ok line0 (crlf_text ls) st =
     obind (cfg_lines ok ls line0 0 st) (\<lambda>st'. Ret (0, st'))"
proof -
  have "obind (cfg_loop ok (crlf_text ls) line0 0 0 st) (\<lambda>(_, st). Ret st) = cfg_lines ok ls line0 0 st"
    by (rule crlf_loop) (use assms in auto)
  from this [symmetric] show ?thesis
    unfolding CfgParseConfig_def by (cases "cfg_loop ok (crlf_text ls) line0 0 0 st") auto
qed

text \<open>C34: Lines end at CR LF: parsing a file whose lines are each followed by CR LF is exactly
  parsing the lines in order, with line numbers from 0, each line in the buffer the one before it
  left (empty lines included), stopping at the first line the line parser rejects.\<close>

theorem CfgParseConfig_crlf:
  assumes "cfg_wf st" and "length line0 = MAXLENGTH"
    and "list_all (\<lambda>l. no_eol l \<and> length l < MAXLENGTH) ls"
  shows "CfgParseConfig ok line0 (crlf_text ls) st =
     obind (cfg_lines ok ls line0 0 st) (\<lambda>st'. Ret (0, st'))"
  using assms by (rule config_lines)

lemma cfg_wf_init: "CfgInitOptions True True True cfg_state0 = Ret (rc, st) \<Longrightarrow> cfg_wf st"
  by (auto simp: CfgInitOptions_def cfg_state0_def options0_def opts_wf_def cfg_wf_def type_table_def
      type_wf_def Let_def)

theorem CfgParseConfig_crlf_witness:
  "\<exists>st. CfgInitOptions True True True cfg_state0 = Ret (0, st) \<and>
     CfgParseConfig True (replicate 1512 NUL) (crlf_text [''SET A=1'', [], ''THREADS=64'']) st =
     obind (cfg_lines True [''SET A=1'', [], ''THREADS=64''] (replicate 1512 NUL) 0 st)
       (\<lambda>st'. Ret (0, st'))"
proof -
  obtain st where st: "CfgInitOptions True True True cfg_state0 = Ret (0, st)"
    by (simp add: CfgInitOptions_def Let_def)
  have "list_all (\<lambda>l. no_eol l \<and> length l < MAXLENGTH) [''SET A=1'', [], ''THREADS=64'']"
    by (simp add: no_eol_def MAXLENGTH_def)
  with CfgParseConfig_crlf [OF cfg_wf_init [OF st]] st show ?thesis
    by (simp add: MAXLENGTH_def)
qed

section \<open>Files without CR\<close>

lemma loop_skips_line:
  assumes "no_eol l" and "l \<noteq> []"
  shows "\<exists>line' len'. cfg_loop ok (l @ r) line len n st = cfg_loop ok (skip_eol r) line' len' n st
     \<or> cfg_loop ok (l @ r) line len n st = Ret (line', st)"
  using assms
proof (induction l arbitrary: line len)
  case (Cons c l)
  show ?case
  proof (cases "l = [] \<or> \<not> len < MAXLENGTH")
    case True
    with Cons.prems(1) show ?thesis by (cases "len < MAXLENGTH") (auto simp: no_eol_def)
  next
    case False
    with Cons.prems have "cfg_loop ok ((c # l) @ r) line len n st = cfg_loop ok (l @ r) (line[len := c]) (len + 1) n st"
      by (auto simp: no_eol_def)
    moreover have "no_eol l" using Cons.prems by (simp add: no_eol_def)
    ultimately show ?thesis using Cons.IH [of "line[len := c]" "len + 1"] False by metis
  qed
qed simp

lemma lf_loop:
  assumes "list_all (\<lambda>l. no_eol l \<and> l \<noteq> []) ls"
  shows "\<exists>line'. cfg_loop ok (lf_text ls) line len n st = Ret (line', st)"
  using assms
proof (induction ls arbitrary: line len)
  case (Cons l ls)
  have "lf_text (l # ls) = l @ LF # lf_text ls" by (simp add: lf_text_def)
  moreover have "\<exists>line'. cfg_loop ok (lf_text ls) line1 len1 n st = Ret (line', st)" for line1 len1
    by (rule Cons.IH) (use Cons.prems in simp)
  ultimately show ?case
    using loop_skips_line [of l ok "LF # lf_text ls" line len n st] Cons.prems by auto
qed (simp add: lf_text_def)

text \<open>A file whose lines end in a bare LF is ignored: the end-of-line skip behind each character
  consumes the only terminator, no line is ever parsed, and the parser reports success with the
  state unchanged.\<close>

theorem CfgParseConfig_lf_ignored:
  assumes "list_all (\<lambda>l. no_eol l \<and> l \<noteq> []) ls"
  shows "CfgParseConfig ok line0 (lf_text ls) st = Ret (0, st)"
  using lf_loop [OF assms, of ok line0 0 0 st] by (auto simp: CfgParseConfig_def)

theorem CfgParseConfig_lf_ignored_witness:
  "CfgParseConfig True (replicate 1512 NUL) (lf_text [''SET A=1'', ''THREADS=64'']) cfg_state0
     = Ret (0, cfg_state0)"
  by (rule CfgParseConfig_lf_ignored) (simp add: no_eol_def)

section \<open>The environment\<close>

text \<open>The strings of the \<open>SET\<close> statements, oldest first.\<close>

definition env_strings :: "cfg_state \<Rightarrow> string list" where
  "env_strings st = (let t = typetab st ! 3 in
     map (\<lambda>e. the (nm_string e)) (take (ty_ip t) (ty_sp t)))"

definition env_key :: "string \<Rightarrow> string" where
  "env_key s = takeWhile (\<lambda>c. c \<noteq> CHR ''='') s"

text \<open>What the comparison of \<open>CfgGetenv\<close> decides: the stored key is a prefix of the name.\<close>

definition env_hit :: "string \<Rightarrow> string \<Rightarrow> bool" where
  "env_hit name s \<longleftrightarrow> CHR ''='' \<in> set s \<and> prefix (env_key s) (map toupper name)"

definition env_value :: "string \<Rightarrow> string" where
  "env_value s = drop (length (env_key s) + 1) s"

lemma getenv_scan_hit:
  assumes "NUL \<notin> set s"
  shows "if env_hit name s then getenv_scan s name = CHR ''='' # env_value s
     else \<forall>v. getenv_scan s name \<noteq> CHR ''='' # v"
  using assms
proof (induction s name rule: getenv_scan.induct)
  case (2 c p name)
  show ?case
  proof (cases "c = CHR ''=''")
    case False
    show ?thesis
    proof (cases name)
      case Nil
      with False 2 show ?thesis by (auto simp: env_hit_def env_key_def cs_at_def)
    next
      case (Cons d n)
      with False 2 show ?thesis
        by (auto simp: env_hit_def env_key_def env_value_def)
    qed
  qed (auto simp: env_hit_def env_key_def env_value_def)
qed (simp add: env_hit_def)

lemma getenv_entries_find:
  assumes "list_all (\<lambda>e. \<exists>s. nm_string e = Some s \<and> NUL \<notin> set s) es"
  shows "getenv_entries es name =
     Ret (map_option env_value (find (env_hit name) (map (\<lambda>e. the (nm_string e)) es)))"
  using assms
proof (induction es)
  case (Cons e es)
  then obtain s where s: "nm_string e = Some s" "NUL \<notin> set s" by auto
  with getenv_scan_hit [OF s(2), of name] Cons show ?case
    by (cases "getenv_scan s name") (auto split: if_splits)
qed simp

lemma cfg_wf_table:
  assumes "cfg_wf st"
  shows "length (typetab st) = 5" and "length (ty_sp (typetab st ! 3)) = 150"
proof -
  have m: "map (\<lambda>t. (ty_name t, length (ty_sp t))) (typetab st)
      = map (\<lambda>t. (ty_name t, length (ty_sp t))) type_table"
    using assms by (simp add: cfg_wf_def)
  from arg_cong [OF m, of length] show l: "length (typetab st) = 5" by (simp add: type_table_def)
  from arg_cong [OF m, of "\<lambda>xs. snd (xs ! 3)"] l show "length (ty_sp (typetab st ! 3)) = 150"
    by (simp add: type_table_def)
qed

lemma getenv_find:
  assumes "cfg_wf st"
  shows "CfgGetenv st name = (case find (env_hit name) (env_strings st) of
       None \<Rightarrow> Ret (ERROR_ENVVAR_NOT_FOUND, None)
     | Some s \<Rightarrow> Ret (NO_ERROR, Some (env_value s)))"
proof -
  let ?t = "typetab st ! 3"
  have "length (typetab st) = 5"
    by (rule cfg_wf_table(1) [OF assms])
  then have "type_wf ?t" using assms by (simp add: cfg_wf_def list_all_length)
  then have "list_all (\<lambda>e. \<exists>s. nm_string e = Some s \<and> NUL \<notin> set s) (take (ty_ip ?t) (ty_sp ?t))"
    by (auto simp: type_wf_def list_all_length)
  from getenv_entries_find [OF this, of name] show ?thesis
    by (auto simp: CfgGetenv_def env_strings_def Let_def split: option.splits)
qed

text \<open>Environment lookup, completely: on a well-formed configuration \<open>CfgGetenv\<close> never fails
  and answers with the value of the oldest \<open>SET\<close> string whose key is a prefix of the upper-cased
  name, and with \<open>ERROR_ENVVAR_NOT_FOUND\<close> when there is none.\<close>

theorem CfgGetenv_spec:
  assumes "cfg_wf st"
  shows "CfgGetenv st name = (case find (env_hit name) (env_strings st) of
       None \<Rightarrow> Ret (ERROR_ENVVAR_NOT_FOUND, None)
     | Some s \<Rightarrow> Ret (NO_ERROR, Some (env_value s)))"
  using assms by (rule getenv_find)

lemma find_append: "find P (xs @ ys) = (case find P xs of None \<Rightarrow> find P ys | Some x \<Rightarrow> Some x)"
  by (induction xs) auto

lemma env_strings_stored:
  assumes "cfg_wf st" and "ty_ip (typetab st ! 3) < 150"
  shows "env_strings (stored_line st 3 n s) = env_strings st @ [s]"
  using assms cfg_wf_table [OF assms(1)]
  by (simp add: env_strings_def stored_line_def Let_def take_Suc_conv_app_nth)

text \<open>The state after \<open>SET\<close> lines \<open>a\<close> and \<open>b\<close>, stored one after the other.\<close>

definition two_sets :: "string \<Rightarrow> string \<Rightarrow> cfg_state" where
  "two_sets a b = stored_line (stored_line (cfg_state0\<lparr>opts := options0\<lparr>maxwait := 3, iopl := Some ''YES'',
     configfile := Some ''config.sys'', bootdrive := Some ''C:''\<rparr>\<rparr>) 3 0 a) 3 1 b"

lemma two_sets_wf: "NUL \<notin> set a \<Longrightarrow> NUL \<notin> set b \<Longrightarrow> cfg_wf (two_sets a b)"
  unfolding two_sets_def
  by (intro stored_line_wf)
    (simp_all add: cfg_wf_def opts_wf_def options0_def cfg_state0_def type_table_def type_wf_def
      stored_line_def Let_def)

lemma two_sets_env: "env_strings (two_sets a b) = [a, b]"
  by (simp add: env_strings_def two_sets_def stored_line_def cfg_state0_def type_table_def Let_def
      take_Suc_conv_app_nth numeral_2_eq_2)

theorem CfgGetenv_spec_witness:
  "CfgGetenv (two_sets ''PATH=C:'' ''PATHEXT=.EXE'') ''pathext'' = Ret (0, Some ''C:'')"
proof -
  have "env_hit ''pathext'' ''PATH=C:''"
    by (simp add: env_hit_def env_key_def toupper_def cstr_simps)
  then show ?thesis
    using CfgGetenv_spec [OF two_sets_wf, of "''PATH=C:''" "''PATHEXT=.EXE''" "''pathext''"]
    by (simp add: two_sets_env env_value_def env_key_def)
qed

text \<open>Round trip of the environment: after a line \<open>SET K=V\<close> has been parsed, looking the
  name up in any letter case returns \<open>V\<close>, provided that no older entry has a key that is a prefix of it
  and that the key was written in upper case.\<close>

theorem CfgGetenv_after_SET:
  assumes "cfg_wf st" and "ty_ip (typetab st ! 3) < 150"
    and "map toupper name = k" and "CHR ''='' \<notin> set k" and "NUL \<notin> set (k @ v)"
    and "length (k @ v) < 1000" and "find (env_hit name) (env_strings st) = None"
  shows "\<exists>line' st'. CfgParseLine True (''SET '' @ (k @ CHR ''='' # v) @ NUL # r) (int (length (k @ v) + 5)) n st
       = Ret (1, line', st') \<and> CfgGetenv st' name = Ret (NO_ERROR, Some v)"
proof -
  let ?s = "k @ CHR ''='' # v" and ?st = "stored_line st 3 n (k @ CHR ''='' # v)"
  have nul: "NUL \<notin> set ?s" using assms(5) by simp
  have key: "env_key ?s = k" and val: "env_value ?s = v"
    using assms(4) by (auto simp: env_key_def env_value_def takeWhile_append)
  have room: "ty_ip (typetab st ! 3) < length (ty_sp (typetab st ! 3))"
    using assms(2) cfg_wf_table [OF assms(1)] by simp
  have wf: "cfg_wf ?st"
    by (rule stored_line_wf [OF assms(1) _ room nul]) (simp add: cfg_wf_table [OF assms(1)])
  have "find (env_hit name) (env_strings st @ [?s]) = Some ?s"
    using assms(3,7) key by (simp add: find_append env_hit_def)
  then have get: "CfgGetenv ?st name = Ret (NO_ERROR, Some v)"
    using getenv_find [OF wf] env_strings_stored [OF assms(1,2)] val by simp
  have up: "map toupper ''SET'' = ty_name (type_table ! 3)"
    by (simp add: type_table_def toupper_def)
  have "CfgParseLine True (''SET'' @ CHR '' '' # ?s @ NUL # r) (int (length (k @ v) + 5)) n st =
      Ret (1, ?s @ NUL # drop (length ?s + 1) (''SET'' @ CHR '' '' # ?s @ NUL # r), ?st)"
    by (rule statement_line_stored [OF cfg_wf_std_names [OF assms(1)] _ up _ nul _ _ room])
      (use assms(6) in auto)
  with get show ?thesis by simp
qed

theorem CfgGetenv_after_SET_witness:
  "\<exists>line' st'. CfgParseLine True (''SET '' @ (''TMP'' @ CHR ''='' # ''D:'') @ NUL # ''x'') 10 2
       (two_sets ''PATH=C:'' ''DPATH=C:'') = Ret (1, line', st') \<and>
     CfgGetenv st' ''tmp'' = Ret (0, Some ''D:'')"
proof -
  have wf: "cfg_wf (two_sets ''PATH=C:'' ''DPATH=C:'')" by (simp add: two_sets_wf)
  have ip: "ty_ip (typetab (two_sets ''PATH=C:'' ''DPATH=C:'') ! 3) < 150"
    by (simp add: two_sets_def stored_line_def cfg_state0_def type_table_def Let_def)
  have up: "map toupper ''tmp'' = ''TMP''" by (simp add: toupper_def cstr_simps)
  have "find (env_hit ''tmp'') (env_strings (two_sets ''PATH=C:'' ''DPATH=C:'')) = None"
    by (simp add: two_sets_env env_hit_def env_key_def toupper_def cstr_simps)
  from CfgGetenv_after_SET [OF wf ip up _ _ _ this, of "''D:''" "''x''" 2] show ?thesis by simp
qed

end
