(* ===== verification/CfgOpt.thy ===== *)
theory CfgOpt
  imports CfgFile
begin

text \<open>
  Queries for configuration options: \<open>cfg_Getopt\<close> (\<^verbatim>\<open>lib/compat/env.c\<close>), which the servers call directly, and
  \<open>CPCfgGetopt\<close> and \<open>CPCfgGetenv\<close> (\<^verbatim>\<open>server/os2srv/api/cfg.c\<close>), which clients of the OS/2 server call. Both
  search the same four tables of names and fields.
\<close>

section \<open>Tables\<close>

text \<open>Every field of the first table is read as a \<open>short int\<close>, also the fields of type \<open>int\<close>.\<close>

definition short :: "u16 \<Rightarrow> int" where
  "short v = sint v"

definition short_int :: "u32 \<Rightarrow> int" where
  "short_int v = sint (ucast v :: u16)"

definition intlist :: "(string \<times> (cfg_opts \<Rightarrow> int)) list" where
  "intlist = [
     (''autofail'', \<lambda>o'. short (autofail o')), (''buffers'', \<lambda>o'. short (buffers o')), (''clockscale'', \<lambda>o'. short (clockscale o')),
     (''closefiles'', \<lambda>o'. short (closefiles o')), (''dllbasing'', \<lambda>o'. short (dllbasing o')), (''earlymeminit'', \<lambda>o'. short (earlymeminit o')),
     (''fakeiss'', \<lambda>o'. short (fakeiss o')), (''i13pages'', \<lambda>o'. short (i13pages o')), (''javanofpk'', \<lambda>o'. short (javanofpk o')),
     (''ldrstackopt'', \<lambda>o'. short (ldrstackopt o')), (''maxwait'', \<lambda>o'. short (maxwait o')), (''ndwtimer'', \<lambda>o'. short (ndwtimer o')),
     (''pauseonerror'', \<lambda>o'. short (pauseonerror o')), (''priority'', \<lambda>o'. short (priority o')), (''priority_disk_io'', \<lambda>o'. short (priority_disk_io o')),
     (''protectonly'', \<lambda>o'. short (protectonly o')), (''raskdata'', \<lambda>o'. short (raskdata o')), (''reipl'', \<lambda>o'. short (reipl o')),
     (''sxfakehwfpu'', \<lambda>o'. short (sxfakehwfpu o')), (''threads'', \<lambda>o'. short_int (threads o')), (''tracebuf'', \<lambda>o'. short_int (tracebuf o')),
     (''truemode'', \<lambda>o'. short (truemode o')), (''vme'', \<lambda>o'. short (vme o')), (''workplace_native'', \<lambda>o'. short (workplace_native o')),
     (''workplace_primary_cp'', \<lambda>o'. short (workplace_primary_cp o')), (''workplace_process'', \<lambda>o'. short (workplace_process o')), (''wp_objhandle'', \<lambda>o'. short_int (wp_objhandle o')),
     (''debugmodmgr'', \<lambda>o'. short (debugmodmgr o')), (''debugixfmgr'', \<lambda>o'. short (debugixfmgr o')), (''debugprcmgr'', \<lambda>o'. short (debugprcmgr o')),
     (''debugmemmgr'', \<lambda>o'. short (debugmemmgr o'))]"

definition chrlist :: "(string \<times> (cfg_opts \<Rightarrow> char)) list" where
  "chrlist = [
     (''dumpprocess'', dumpprocess), (''lastdrive'', lastdrive), (''remote_install_state'', remote_install_state),
     (''reservedriveletter'', reservedriveletter), (''suppresspopups'', suppresspopups)]"

definition arrlist :: "string list" where
  "arrlist = [''codepage'']"

definition strlist :: "(string \<times> (cfg_opts \<Rightarrow> string option)) list" where
  "strlist = [
     (''country'', country), (''devinfo_kbd'', devinfo_kbd), (''devinfo_vio'', devinfo_vio), (''diskcache'', diskcache),
     (''ibm_java_options'', ibm_java_options), (''iopl'', iopl), (''iropt'', iropt), (''libpath'', libpath),
     (''memman'', memman), (''printmonbufsize'', printmonbufsize), (''protshell'', protshell), (''sourcepath'', sourcepath),
     (''strace'', strace), (''swapppath'', swappath), (''sysdump'', sysdump), (''timeslice'', timeslice),
     (''trace'', trace), (''trapdump'', trapdump), (''traplog'', traplog), (''configfile'', configfile),
     (''bootdrive'', bootdrive)]"

text \<open>The search loops stop behind the first entry whose name is equal.\<close>

fun tab_find :: "string \<Rightarrow> (string \<times> 'a) list \<Rightarrow> 'a option" where
  "tab_find name [] = None"
| "tab_find name ((n, a) # tab) = (if name = n then Some a else tab_find name tab)"

section \<open>Queries\<close>

text \<open>
  \<open>strcpy\<close> to the caller's string of \<open>cap\<close> characters, and the string that the code finds in the memory of the table
  entry for an array, which holds the address of the array. With no zero byte in the address the
  copy goes on behind the entry.
\<close>

definition copy_str :: "nat \<Rightarrow> string \<Rightarrow> string outcome" where
  "copy_str cap s = (if length s < cap then Ret s else Undef)"

definition address_str :: "u32 \<Rightarrow> string outcome" where
  "address_str a = (let s = map char_of_u8 (le32 a) in if NUL \<in> set s then Ret (cstr s) else Undef)"

text \<open>
  The results are the code, the flag for integers, the integer and the string; \<open>arr_addr\<close> is the address of
  \<open>codepage\<close> in the options.
\<close>

definition cfg_Getopt ::
    "u32 \<Rightarrow> nat \<Rightarrow> string \<Rightarrow> bool \<Rightarrow> int \<Rightarrow> string \<Rightarrow> cfg_state \<Rightarrow> (u32 \<times> bool \<times> int \<times> string) outcome" where
  "cfg_Getopt arr_addr cap name is_int value_int value_str st =
     (case tab_find name intlist of
        Some f \<Rightarrow> Ret (NO_ERROR, True, f (opts st), value_str)
      | None \<Rightarrow>
     (case tab_find name chrlist of
        Some f \<Rightarrow> if 2 \<le> cap then Ret (NO_ERROR, False, value_int, cstr [f (opts st)]) else Undef
      | None \<Rightarrow>
     (case tab_find name (map (\<lambda>n. (n, ())) arrlist) of
        Some _ \<Rightarrow> obind (address_str arr_addr) (\<lambda>s. obind (copy_str cap s) (\<lambda>s. Ret (NO_ERROR, False, value_int, s)))
      | None \<Rightarrow>
     (case tab_find name strlist of
        Some f \<Rightarrow> (case f (opts st) of
            None \<Rightarrow> Undef
          | Some s \<Rightarrow> obind (copy_str cap s) (\<lambda>s. Ret (NO_ERROR, False, value_int, s)))
      | None \<Rightarrow> Ret (1, is_int, value_int, value_str)))))"

definition CPCfgGetopt ::
    "u32 \<Rightarrow> nat \<Rightarrow> string \<Rightarrow> bool \<Rightarrow> int \<Rightarrow> string \<Rightarrow> cfg_state \<Rightarrow> (u32 \<times> bool \<times> int \<times> string) outcome" where
  "CPCfgGetopt arr_addr cap name is_int value_int value_str st =
     (case tab_find name intlist of
        Some f \<Rightarrow> Ret (NO_ERROR, True, f (opts st), value_str)
      | None \<Rightarrow>
     (case tab_find name chrlist of
        Some f \<Rightarrow> if 2 \<le> cap then Ret (NO_ERROR, False, value_int, cstr [f (opts st)]) else Undef
      | None \<Rightarrow>
     (case tab_find name (map (\<lambda>n. (n, ())) arrlist) of
        Some _ \<Rightarrow> obind (address_str arr_addr) (\<lambda>s. obind (copy_str cap s) (\<lambda>s. Ret (NO_ERROR, False, value_int, s)))
      | None \<Rightarrow>
     (case tab_find name strlist of
        Some f \<Rightarrow> (case f (opts st) of
            None \<Rightarrow> Undef
          | Some s \<Rightarrow> obind (copy_str cap s) (\<lambda>s. Ret (NO_ERROR, False, value_int, s)))
      | None \<Rightarrow> Ret (1, is_int, value_int, value_str)))))"

definition CPCfgGetenv :: "cfg_state \<Rightarrow> string \<Rightarrow> (u32 \<times> string option) outcome" where
  "CPCfgGetenv st name = CfgGetenv st name"

section \<open>Options that were set can be queried\<close>

text \<open>The options whose handler keeps the text of the line, by their position in \<open>options_list\<close>, without the one for \<open>SWAPPATH\<close>.\<close>

definition text_options :: "nat list" where
  "text_options = [13, 14, 15, 19, 21, 25, 29, 35, 36, 40, 42, 43, 45, 46]"

definition getopt_name :: "nat \<Rightarrow> string" where
  "getopt_name i = map tolower (options_list ! i)"

lemma dup_line_value:
  assumes "NUL \<notin> set v" and "int (length v) \<le> len" and "len < 2 ^ 31"
  shows "dup_line True (v @ NUL # r) len = Ret v"
proof -
  have "word_of_int len + 1 = (word_of_int (len + 1) :: u32)" by (metis of_int_add of_int_1)
  moreover have "unat (word_of_int (len + 1) :: u32) = nat (len + 1)"
    unfolding unat_eq_nat_uint uint_word_of_int using assms(2,3) by simp
  ultimately have "unat (word_of_int len + 1 :: u32) = nat (len + 1)" by simp
  moreover have "length v + 1 \<le> nat (len + 1)" using assms(2) by linarith
  ultimately show ?thesis using assms(1) by (simp only: dup_line_def cstr_append_NUL) simp
qed

lemma text_names:
  "map getopt_name text_options = [''ibm_java_options'', ''iopl'', ''iropt'', ''libpath'', ''memman'', ''printmonbufsize'',
     ''protshell'', ''sourcepath'', ''strace'', ''sysdump'', ''timeslice'', ''trace'', ''trapdump'', ''traplog'']"
  by code_simp

lemmas text_name_eqs = text_names [unfolded text_options_def, simplified]

lemma text_lookups:
  assumes "i \<in> set text_options"
  shows "tab_find (getopt_name i) intlist = None" "tab_find (getopt_name i) chrlist = None"
    "tab_find (getopt_name i) (map (\<lambda>n. (n, ())) arrlist) = None"
proof -
  have "list_all (\<lambda>n. tab_find n intlist = None \<and> tab_find n chrlist = None \<and> tab_find n (map (\<lambda>n. (n, ())) arrlist) = None)
      (map getopt_name text_options)"
    unfolding text_names by (simp add: intlist_def chrlist_def arrlist_def)
  with assms show "tab_find (getopt_name i) intlist = None" "tab_find (getopt_name i) chrlist = None"
    "tab_find (getopt_name i) (map (\<lambda>n. (n, ())) arrlist) = None"
    by (auto simp: list_all_iff)
qed

lemma text_handler:
  assumes "i \<in> set text_options" and "dup_line True line len = Ret v"
  shows "\<exists>o' f. (option_handlers ! i) True line len o1 = Ret (line, o') \<and> tab_find (getopt_name i) strlist = Some f \<and> f o' = Some v"
  using assms(1) unfolding text_options_def
  by (elim set_ConsD [THEN disjE]; simp add: option_handlers_def assms(2) text_name_eqs strlist_def opt_ibm_java_options_def opt_iopl_def
      opt_iropt_def opt_libpath_def opt_memman_def opt_printmonbufsize_def opt_protshell_def opt_sourcepath_def opt_strace_def
      opt_sysdump_def opt_timeslice_def opt_trace_def opt_trapdump_def opt_traplog_def)

text \<open>A text option can be queried: after a line \<open>NAME=value\<close> in any letter case, both query functions return the
  value under the name in lower case.\<close>

theorem getopt_after_option:
  assumes "std_names st" and "i \<in> set text_options" and "map toupper n = options_list ! i" and "NUL \<notin> set v"
    and "int (length n + 1 + length v) \<le> len" and "len < 2 ^ 31" and "length v < cap"
  shows "\<exists>line st'. CfgParseLine True (n @ CHR ''='' # v @ NUL # r) len lineno st = Ret (1, line, st') \<and>
    cfg_Getopt a cap (getopt_name i) is_int vi vs st' = Ret (NO_ERROR, False, vi, v) \<and>
    CPCfgGetopt a cap (getopt_name i) is_int vi vs st' = Ret (NO_ERROR, False, vi, v)"
proof -
  let ?line = "v @ NUL # drop (length v + 1) (n @ CHR ''='' # v @ NUL # r)"
  have i: "i < 57" "i \<noteq> 34" using assms(2) by (auto simp: text_options_def)
  have "dup_line True ?line (len - int (length n + 1)) = Ret v"
    by (rule dup_line_value) (use assms(4-6) in simp_all)
  from text_handler [OF assms(2) this, of "opts st"] obtain o' f where h:
      "(option_handlers ! i) True ?line (len - int (length n + 1)) (opts st) = Ret (?line, o')"
      "tab_find (getopt_name i) strlist = Some f" "f o' = Some v" by blast
  have "CfgParseLine True (n @ CHR ''='' # v @ NUL # r) len lineno st = Ret (1, ?line, st\<lparr>opts := o'\<rparr>)"
    using option_line_runs [OF assms(1) i assms(3,4)] h(1) by simp
  then show ?thesis
    using h(2,3) assms(7) by (simp add: cfg_Getopt_def CPCfgGetopt_def text_lookups [OF assms(2)] copy_str_def)
qed

theorem getopt_after_option_witness:
  "\<exists>line st'. CfgParseLine True (''LibPath=c:;d:'' @ [NUL]) 13 7 cfg_state0 = Ret (1, line, st') \<and>
     cfg_Getopt 0 10 ''libpath'' True 0 [] st' = Ret (NO_ERROR, False, 0, ''c:;d:'')"
proof -
  have n: "map toupper ''LibPath'' = options_list ! 19"
    by (simp add: options_list_def toupper_def cstr_simps)
  have "std_names cfg_state0" "19 \<in> set text_options"
    by (simp_all add: std_names_def cfg_state0_def text_options_def)
  from getopt_after_option [OF this n, of "''c:;d:''" 13 10 "[]" 7 0 True 0 "[]"] show ?thesis
    by (auto simp: text_name_eqs)
qed

section \<open>Options that cannot be queried\<close>

text \<open>Three options do not come back: the name of the swap path is misspelled in the tables, numbers of threads
  (and the other fields of type \<open>int\<close>) come back as their low 16 bits, and for the code page the caller
  gets the bytes of an address.\<close>

theorem getopt_wrong:
  "cfg_Getopt a cap ''swappath'' is_int vi vs st = Ret (1, is_int, vi, vs) \<and>
   cfg_Getopt a cap ''threads'' is_int vi vs (st\<lparr>opts := (opts st)\<lparr>threads := 0x10001\<rparr>\<rparr>) = Ret (NO_ERROR, True, 1, vs) \<and>
   cfg_Getopt 0x00434241 16 ''codepage'' is_int vi vs st = Ret (NO_ERROR, False, vi, ''ABC'')"
proof -
  have "tab_find ''swappath'' intlist = None" "tab_find ''swappath'' chrlist = None" "tab_find ''swappath'' strlist = None"
    "tab_find ''swappath'' (map (\<lambda>n. (n, ())) arrlist) = None" "tab_find ''codepage'' intlist = None" "tab_find ''codepage'' chrlist = None"
    "tab_find ''codepage'' (map (\<lambda>n. (n, ())) arrlist) = Some ()"
    "tab_find ''threads'' intlist = Some (\<lambda>o'. short_int (threads o'))"
    by (simp_all add: intlist_def chrlist_def strlist_def arrlist_def)
  moreover have "address_str 0x00434241 = Ret ''ABC''" by code_simp
  ultimately show ?thesis by (simp add: cfg_Getopt_def copy_str_def short_int_def)
qed

end
