(* ===== verification/LxFormat.thy ===== *)
theory LxFormat
  imports OsPrelude
begin

text \<open>
  The LX executable format as the loader sees it (\<^verbatim>\<open>include/os2/exe386.h\<close>,
  \<^verbatim>\<open>include/os3/modlx.h\<close>): the header, the object table entries, the module structure and the
  memory-buffer stream (\<^verbatim>\<open>lib/ixf/lx/mod.c\<close>). A value of an option type is \<open>None\<close> when the C code
  would access memory outside the buffer it reads.

  C \<open>int\<close> values are integers; an \<open>unsigned long\<close> converted to \<open>int\<close> is read with \<open>sint\<close>.
\<close>

section \<open>Structures\<close>

text \<open>\<open>struct e32_exe\<close>, packed; the last 20 reserved bytes carry no field.\<close>

record e32_exe =
  e32_magic0 :: u8
  e32_magic1 :: u8
  e32_border :: u8
  e32_worder :: u8
  e32_level :: u32
  e32_cpu :: u16
  e32_os :: u16
  e32_ver :: u32
  e32_mflags :: u32
  e32_mpages :: u32
  e32_startobj :: u32
  e32_eip :: u32
  e32_stackobj :: u32
  e32_esp :: u32
  e32_pagesize :: u32
  e32_pageshift :: u32
  e32_fixupsize :: u32
  e32_fixupsum :: u32
  e32_ldrsize :: u32
  e32_ldrsum :: u32
  e32_objtab :: u32
  e32_objcnt :: u32
  e32_objmap :: u32
  e32_itermap :: u32
  e32_rsrctab :: u32
  e32_rsrccnt :: u32
  e32_restab :: u32
  e32_enttab :: u32
  e32_dirtab :: u32
  e32_dircnt :: u32
  e32_fpagetab :: u32
  e32_frectab :: u32
  e32_impmod :: u32
  e32_impmodcnt :: u32
  e32_impproc :: u32
  e32_pagesum :: u32
  e32_datapage :: u32
  e32_preload :: u32
  e32_nrestab :: u32
  e32_cbnrestab :: u32
  e32_nressum :: u32
  e32_autodata :: u32
  e32_debuginfo :: u32
  e32_debuglen :: u32
  e32_instpreload :: u32
  e32_instdemand :: u32
  e32_heapsize :: u32
  e32_stacksize :: u32

text \<open>\<open>sizeof (struct e32_exe)\<close>\<close>

definition e32_exe_size :: nat where
  "e32_exe_size = 196"

definition read_e32_exe :: "u8 list \<Rightarrow> e32_exe option" where
  "read_e32_exe bs = do {
     magic0' \<leftarrow> rd8 bs 0;
     magic1' \<leftarrow> rd8 bs 1;
     border' \<leftarrow> rd8 bs 2;
     worder' \<leftarrow> rd8 bs 3;
     level' \<leftarrow> rd32 bs 4;
     cpu' \<leftarrow> rd16 bs 8;
     os' \<leftarrow> rd16 bs 10;
     ver' \<leftarrow> rd32 bs 12;
     mflags' \<leftarrow> rd32 bs 16;
     mpages' \<leftarrow> rd32 bs 20;
     startobj' \<leftarrow> rd32 bs 24;
     eip' \<leftarrow> rd32 bs 28;
     stackobj' \<leftarrow> rd32 bs 32;
     esp' \<leftarrow> rd32 bs 36;
     pagesize' \<leftarrow> rd32 bs 40;
     pageshift' \<leftarrow> rd32 bs 44;
     fixupsize' \<leftarrow> rd32 bs 48;
     fixupsum' \<leftarrow> rd32 bs 52;
     ldrsize' \<leftarrow> rd32 bs 56;
     ldrsum' \<leftarrow> rd32 bs 60;
     objtab' \<leftarrow> rd32 bs 64;
     objcnt' \<leftarrow> rd32 bs 68;
     objmap' \<leftarrow> rd32 bs 72;
     itermap' \<leftarrow> rd32 bs 76;
     rsrctab' \<leftarrow> rd32 bs 80;
     rsrccnt' \<leftarrow> rd32 bs 84;
     restab' \<leftarrow> rd32 bs 88;
     enttab' \<leftarrow> rd32 bs 92;
     dirtab' \<leftarrow> rd32 bs 96;
     dircnt' \<leftarrow> rd32 bs 100;
     fpagetab' \<leftarrow> rd32 bs 104;
     frectab' \<leftarrow> rd32 bs 108;
     impmod' \<leftarrow> rd32 bs 112;
     impmodcnt' \<leftarrow> rd32 bs 116;
     impproc' \<leftarrow> rd32 bs 120;
     pagesum' \<leftarrow> rd32 bs 124;
     datapage' \<leftarrow> rd32 bs 128;
     preload' \<leftarrow> rd32 bs 132;
     nrestab' \<leftarrow> rd32 bs 136;
     cbnrestab' \<leftarrow> rd32 bs 140;
     nressum' \<leftarrow> rd32 bs 144;
     autodata' \<leftarrow> rd32 bs 148;
     debuginfo' \<leftarrow> rd32 bs 152;
     debuglen' \<leftarrow> rd32 bs 156;
     instpreload' \<leftarrow> rd32 bs 160;
     instdemand' \<leftarrow> rd32 bs 164;
     heapsize' \<leftarrow> rd32 bs 168;
     stacksize' \<leftarrow> rd32 bs 172;
     Some
       \<lparr>e32_magic0 = magic0', e32_magic1 = magic1', e32_border = border',
        e32_worder = worder', e32_level = level', e32_cpu = cpu', e32_os = os', e32_ver = ver',
        e32_mflags = mflags', e32_mpages = mpages', e32_startobj = startobj', e32_eip = eip',
        e32_stackobj = stackobj', e32_esp = esp', e32_pagesize = pagesize',
        e32_pageshift = pageshift', e32_fixupsize = fixupsize', e32_fixupsum = fixupsum',
        e32_ldrsize = ldrsize', e32_ldrsum = ldrsum', e32_objtab = objtab', e32_objcnt = objcnt',
        e32_objmap = objmap', e32_itermap = itermap', e32_rsrctab = rsrctab',
        e32_rsrccnt = rsrccnt', e32_restab = restab', e32_enttab = enttab', e32_dirtab = dirtab',
        e32_dircnt = dircnt', e32_fpagetab = fpagetab', e32_frectab = frectab',
        e32_impmod = impmod', e32_impmodcnt = impmodcnt', e32_impproc = impproc',
        e32_pagesum = pagesum', e32_datapage = datapage', e32_preload = preload',
        e32_nrestab = nrestab', e32_cbnrestab = cbnrestab', e32_nressum = nressum',
        e32_autodata = autodata', e32_debuginfo = debuginfo', e32_debuglen = debuglen',
        e32_instpreload = instpreload', e32_instdemand = instdemand', e32_heapsize = heapsize',
        e32_stacksize = stacksize'\<rparr> }"

record o32_obj =
  o32_size :: u32
  o32_base :: u32
  o32_flags :: u32
  o32_pagemap :: u32
  o32_mapsize :: u32
  o32_reserved :: u32

definition read_o32_obj :: "u8 list \<Rightarrow> nat \<Rightarrow> o32_obj option" where
  "read_o32_obj bs i = do {
     size \<leftarrow> rd32 bs i; base \<leftarrow> rd32 bs (i + 4); flags \<leftarrow> rd32 bs (i + 8);
     pagemap \<leftarrow> rd32 bs (i + 12); mapsize \<leftarrow> rd32 bs (i + 16); reserved \<leftarrow> rd32 bs (i + 20);
     Some \<lparr>o32_size = size, o32_base = base, o32_flags = flags, o32_pagemap = pagemap,
        o32_mapsize = mapsize, o32_reserved = reserved\<rparr> }"

record o32_map =
  o32_pagedataoffset :: u32
  o32_pagesize :: u16
  o32_pageflags :: u16

definition read_o32_map :: "u8 list \<Rightarrow> nat \<Rightarrow> o32_map option" where
  "read_o32_map bs i = do {
     off \<leftarrow> rd32 bs i; size \<leftarrow> rd16 bs (i + 4); flags \<leftarrow> rd16 bs (i + 6);
     Some \<lparr>o32_pagedataoffset = off, o32_pagesize = size, o32_pageflags = flags\<rparr> }"

text \<open>\<open>struct LX_module\<close> for a module in a memory buffer.\<close>

record LX_module =
  lx_head_e32_exe :: e32_exe
  loader_section :: "u8 list"
  fixup_section :: "u8 list"
  offs_lx_head :: int
  lx_file_stream :: "u8 list"
  lx_stream_size :: int
  lx_stream_pos :: int

section \<open>The stream\<close>

datatype seek = SEEK_SET | SEEK_CUR | SEEK_END

text \<open>\<open>lx_fseek_stream\<close>: the result and the module with its new position.\<close>

definition lx_fseek_stream :: "LX_module \<Rightarrow> int \<Rightarrow> seek \<Rightarrow> int \<times> LX_module" where
  "lx_fseek_stream lx pos direction =
     (if direction = SEEK_SET \<and> pos \<le> lx_stream_size lx \<and> 0 \<le> pos
      then (pos, lx\<lparr>lx_stream_pos := pos\<rparr>)
      else if direction = SEEK_END \<and> pos \<le> lx_stream_size lx \<and> 0 \<le> pos
      then (lx_stream_size lx - pos, lx\<lparr>lx_stream_pos := lx_stream_size lx - pos\<rparr>)
      else if direction = SEEK_CUR \<and> pos \<le> lx_stream_size lx \<and> 0 \<le> pos
      then (lx_stream_pos lx + pos, lx\<lparr>lx_stream_pos := lx_stream_pos lx + pos\<rparr>)
      else (-1, lx))"

text \<open>
  \<open>lx_fread_stream\<close>: \<open>nmemb\<close> copies of \<open>sz\<close> bytes each. Nothing checks the copies against the
  size of the stream; bytes behind the buffer give no value.
\<close>

fun lx_fread_stream :: "nat \<Rightarrow> nat \<Rightarrow> LX_module \<Rightarrow> (u8 list \<times> LX_module) option" where
  "lx_fread_stream sz 0 lx = Some ([], lx)"
| "lx_fread_stream sz (Suc n) lx =
     (if 0 \<le> lx_stream_pos lx \<and> nat (lx_stream_pos lx) + sz \<le> length (lx_file_stream lx)
      then do {
        (bs, lx') \<leftarrow> lx_fread_stream sz n (lx\<lparr>lx_stream_pos := lx_stream_pos lx + int sz\<rparr>);
        Some (take sz (drop (nat (lx_stream_pos lx)) (lx_file_stream lx)) @ bs, lx') }
      else None)"

text \<open>A header of zeros and an empty module, the starting point of the examples.\<close>

definition e32_exe0 :: e32_exe where
  "e32_exe0 = \<lparr>e32_magic0 = 0, e32_magic1 = 0, e32_border = 0, e32_worder = 0,
     e32_level = 0, e32_cpu = 0, e32_os = 0, e32_ver = 0, e32_mflags = 0, e32_mpages = 0,
     e32_startobj = 0, e32_eip = 0, e32_stackobj = 0, e32_esp = 0, e32_pagesize = 0,
     e32_pageshift = 0, e32_fixupsize = 0, e32_fixupsum = 0, e32_ldrsize = 0, e32_ldrsum = 0,
     e32_objtab = 0, e32_objcnt = 0, e32_objmap = 0, e32_itermap = 0, e32_rsrctab = 0,
     e32_rsrccnt = 0, e32_restab = 0, e32_enttab = 0, e32_dirtab = 0, e32_dircnt = 0,
     e32_fpagetab = 0, e32_frectab = 0, e32_impmod = 0, e32_impmodcnt = 0, e32_impproc = 0,
     e32_pagesum = 0, e32_datapage = 0, e32_preload = 0, e32_nrestab = 0, e32_cbnrestab = 0,
     e32_nressum = 0, e32_autodata = 0, e32_debuginfo = 0, e32_debuglen = 0, e32_instpreload = 0,
     e32_instdemand = 0, e32_heapsize = 0, e32_stacksize = 0\<rparr>"

definition lx0 :: LX_module where
  "lx0 = \<lparr>lx_head_e32_exe = e32_exe0, loader_section = [], fixup_section = [], offs_lx_head = 0,
     lx_file_stream = [], lx_stream_size = 0, lx_stream_pos = 0\<rparr>"

section \<open>Facts about the stream\<close>

lemma fread_one:
  "lx_fread_stream sz 1 lx =
     (if 0 \<le> lx_stream_pos lx \<and> nat (lx_stream_pos lx) + sz \<le> length (lx_file_stream lx)
      then Some (take sz (drop (nat (lx_stream_pos lx)) (lx_file_stream lx)),
        lx\<lparr>lx_stream_pos := lx_stream_pos lx + int sz\<rparr>)
      else None)"
  by (simp add: numeral_nat)

lemma fseek_keeps [simp]:
  "lx_file_stream (snd (lx_fseek_stream lx pos d)) = lx_file_stream lx"
  "lx_stream_size (snd (lx_fseek_stream lx pos d)) = lx_stream_size lx"
  "loader_section (snd (lx_fseek_stream lx pos d)) = loader_section lx"
  "fixup_section (snd (lx_fseek_stream lx pos d)) = fixup_section lx"
  "offs_lx_head (snd (lx_fseek_stream lx pos d)) = offs_lx_head lx"
  "lx_head_e32_exe (snd (lx_fseek_stream lx pos d)) = lx_head_e32_exe lx"
  by (simp_all add: lx_fseek_stream_def)

lemma fread_spec:
  assumes "lx_fread_stream sz n lx = Some (bs, lx')"
  shows "bs = take (sz * n) (drop (nat (lx_stream_pos lx)) (lx_file_stream lx))
     \<and> lx' = lx\<lparr>lx_stream_pos := lx_stream_pos lx + int (sz * n)\<rparr> \<and> length bs = sz * n"
  using assms
proof (induction n arbitrary: lx bs lx')
  case (Suc n)
  let ?lx = "lx\<lparr>lx_stream_pos := lx_stream_pos lx + int sz\<rparr>"
  obtain bs1 where p: "0 \<le> lx_stream_pos lx" "nat (lx_stream_pos lx) + sz \<le> length (lx_file_stream lx)"
    and r: "lx_fread_stream sz n ?lx = Some (bs1, lx')"
    and bs: "bs = take sz (drop (nat (lx_stream_pos lx)) (lx_file_stream lx)) @ bs1"
    using Suc.prems by (auto split: if_splits bind_splits prod.splits)
  have IH: "bs1 = take (sz * n) (drop (nat (lx_stream_pos ?lx)) (lx_file_stream ?lx))"
     "lx' = ?lx\<lparr>lx_stream_pos := lx_stream_pos ?lx + int (sz * n)\<rparr>" "length bs1 = sz * n"
    using Suc.IH [OF r] by auto
  have d: "drop (nat (lx_stream_pos ?lx)) (lx_file_stream lx)
      = drop sz (drop (nat (lx_stream_pos lx)) (lx_file_stream lx))"
    using p(1) by (simp add: nat_add_distrib add.commute)
  show ?case
    using IH p bs d by (simp add: take_add algebra_simps)
qed simp

end
