(* ===== verification/LxFixup.thy ===== *)
theory LxFixup
  imports LxFormat
begin

text \<open>
  Fixup records (\<^verbatim>\<open>lib/ixf/lx/fixup.c\<close>): the sizes of their fields, the field accessors and
  the size of a record. A pointer to a record is the list of bytes from the record to the end of the
  fixup section. The layout the accessors implement is stated by an encoder, and every accessor is
  proved to read back what the encoder wrote.
\<close>

section \<open>Flags\<close>

abbreviation (input) NRCHAIN :: u8 where "NRCHAIN \<equiv> 0x20"
abbreviation (input) NR32BITOFF :: u8 where "NR32BITOFF \<equiv> 0x10"
abbreviation (input) NR16OBJMOD :: u8 where "NR16OBJMOD \<equiv> 0x40"
abbreviation (input) NR8BITORD :: u8 where "NR8BITORD \<equiv> 0x80"
abbreviation (input) NRADD :: u8 where "NRADD \<equiv> 4"
abbreviation (input) NRSSEG :: u8 where "NRSSEG \<equiv> 2"
abbreviation (input) NRRTYP :: u8 where "NRRTYP \<equiv> 3"
abbreviation (input) NRRINT :: u8 where "NRRINT \<equiv> 0"
abbreviation (input) NRRORD :: u8 where "NRRORD \<equiv> 1"
abbreviation (input) NRRNAM :: u8 where "NRRNAM \<equiv> 2"
abbreviation (input) NRRENT :: u8 where "NRRENT \<equiv> 3"

definition nr_stype :: "u8 list \<Rightarrow> u8 option" where
  "nr_stype rlc = rd8 rlc 0"

definition nr_flags :: "u8 list \<Rightarrow> u8 option" where
  "nr_flags rlc = rd8 rlc 1"

section \<open>Sizes of the fields\<close>

definition get_SRC_FLAGS_size :: nat where
  "get_SRC_FLAGS_size = 2"

definition get_srcoff_cnt1_size :: "u8 list \<Rightarrow> nat option" where
  "get_srcoff_cnt1_size rlc = do {
     st \<leftarrow> nr_stype rlc; Some (if st AND NRCHAIN \<noteq> NRCHAIN then 2 else 1) }"

definition get_mod_ord1_size :: "u8 list \<Rightarrow> nat option" where
  "get_mod_ord1_size rlc = do {
     fl \<leftarrow> nr_flags rlc; Some (if fl AND NR16OBJMOD = NR16OBJMOD then 2 else 1) }"

definition get_imp_ord1_size :: "u8 list \<Rightarrow> nat option" where
  "get_imp_ord1_size rlc = do {
     fl \<leftarrow> nr_flags rlc;
     Some (if fl AND NR8BITORD = NR8BITORD then 1
       else if fl AND NR32BITOFF \<noteq> NR32BITOFF then 2
       else if fl AND NR32BITOFF = NR32BITOFF then 4 else 0) }"

definition get_additive_size :: "u8 list \<Rightarrow> nat option" where
  "get_additive_size rlc = do {
     fl \<leftarrow> nr_flags rlc;
     Some (if fl AND NRADD = NRADD then (if fl AND NRCHAIN = NRCHAIN then 4 else 2) else 0) }"

definition get_trgoff_size :: "u8 list \<Rightarrow> nat option" where
  "get_trgoff_size rlc = do {
     fl \<leftarrow> nr_flags rlc;
     Some (if fl AND NRSSEG \<noteq> NRSSEG then (if fl AND NR32BITOFF = NR32BITOFF then 4 else 2) else 0) }"

definition get_imp_name_size :: "u8 list \<Rightarrow> nat option" where
  "get_imp_name_size rlc = do {
     fl \<leftarrow> nr_flags rlc; Some (if fl AND NR32BITOFF = NR32BITOFF then 4 else 2) }"

definition get_ord1_entry_size :: "u8 list \<Rightarrow> nat option" where
  "get_ord1_entry_size rlc = Some 2"

section \<open>Accessors\<close>

definition get_srcoff_cnt1_rlc :: "u8 list \<Rightarrow> int option" where
  "get_srcoff_cnt1_rlc rlc = do {
     st \<leftarrow> nr_stype rlc;
     if st AND NRCHAIN \<noteq> NRCHAIN then do { w \<leftarrow> rd16 rlc 2; Some (sint w) }
     else do { b \<leftarrow> rd8 rlc 2; Some (uint b) } }"

definition get_mod_ord1_rlc :: "u8 list \<Rightarrow> int option" where
  "get_mod_ord1_rlc rlc = do {
     s1 \<leftarrow> get_srcoff_cnt1_size rlc;
     sz \<leftarrow> get_mod_ord1_size rlc;
     let offs = get_SRC_FLAGS_size + s1;
     if sz = 1 then do { b \<leftarrow> rd8 rlc offs; Some (uint b) }
     else if sz = 2 then do { w \<leftarrow> rd16 rlc offs; Some (uint w) }
     else Some 0 }"

definition get_imp_ord1_rlc :: "u8 list \<Rightarrow> int option" where
  "get_imp_ord1_rlc rlc = do {
     s1 \<leftarrow> get_srcoff_cnt1_size rlc;
     s2 \<leftarrow> get_mod_ord1_size rlc;
     sz \<leftarrow> get_imp_ord1_size rlc;
     let offs = get_SRC_FLAGS_size + s1 + s2;
     if sz = 1 then do { b \<leftarrow> rd8 rlc offs; Some (uint b) }
     else if sz = 2 then do { w \<leftarrow> rd16 rlc offs; Some (uint w) }
     else if sz = 4 then do { d \<leftarrow> rd32 rlc offs; Some (sint d) }
     else Some 0 }"

text \<open>The offset of the additive field and of the source list: the last matching test wins.\<close>

definition tail_offs :: "u8 list \<Rightarrow> nat option" where
  "tail_offs rlc = do {
     fl \<leftarrow> nr_flags rlc;
     s1 \<leftarrow> get_srcoff_cnt1_size rlc; s2 \<leftarrow> get_mod_ord1_size rlc; s3 \<leftarrow> get_imp_ord1_size rlc;
     s4 \<leftarrow> get_imp_name_size rlc; s5 \<leftarrow> get_ord1_entry_size rlc;
     let offs = 0;
     let offs = (if fl AND NRRORD = NRRORD then get_SRC_FLAGS_size + s1 + s2 + s3 else offs);
     let offs = (if fl AND NRRNAM = NRRNAM then get_SRC_FLAGS_size + s1 + s2 + s4 else offs);
     let offs = (if fl AND NRRENT = NRRENT then get_SRC_FLAGS_size + s1 + s5 else offs);
     Some offs }"

definition get_additive_rlc :: "u8 list \<Rightarrow> int option" where
  "get_additive_rlc rlc = do {
     offs \<leftarrow> tail_offs rlc;
     sz \<leftarrow> get_additive_size rlc;
     if sz = 2 then do { w \<leftarrow> rd16 rlc offs; Some (uint w) }
     else if sz = 4 then do { d \<leftarrow> rd32 rlc offs; Some (sint d) }
     else Some 0 }"

definition get_srcoff12_rlc :: "u8 list \<Rightarrow> nat \<Rightarrow> int option" where
  "get_srcoff12_rlc rlc idx = do {
     offs \<leftarrow> tail_offs rlc;
     w \<leftarrow> rd16 rlc (offs + idx * 2);
     Some (uint w) }"

definition get_imp_name_rlc :: "u8 list \<Rightarrow> int option" where
  "get_imp_name_rlc rlc = do {
     s1 \<leftarrow> get_srcoff_cnt1_size rlc;
     s2 \<leftarrow> get_mod_ord1_size rlc;
     sz \<leftarrow> get_imp_ord1_size rlc;
     let offs = get_SRC_FLAGS_size + s1 + s2;
     if sz = 2 then do { w \<leftarrow> rd16 rlc offs; Some (uint w) }
     else if sz = 4 then do { d \<leftarrow> rd32 rlc offs; Some (sint d) }
     else Some 0 }"

text \<open>The size of a record; the last branch is the one that logs a warning.\<close>

definition get_reloc_size_rlc :: "u8 list \<Rightarrow> nat option" where
  "get_reloc_size_rlc rlc = do {
     st \<leftarrow> nr_stype rlc; fl \<leftarrow> nr_flags rlc;
     reloc_size \<leftarrow> (if st AND NRCHAIN = NRCHAIN
       then do { count1 \<leftarrow> get_srcoff_cnt1_rlc rlc; Some (nat count1 * 2) } else Some 0);
     s1 \<leftarrow> get_srcoff_cnt1_size rlc; s2 \<leftarrow> get_mod_ord1_size rlc; s3 \<leftarrow> get_imp_ord1_size rlc;
     s4 \<leftarrow> get_imp_name_size rlc; s5 \<leftarrow> get_ord1_entry_size rlc; sa \<leftarrow> get_additive_size rlc;
     if fl AND NRRTYP = NRRINT then Some (reloc_size + (get_SRC_FLAGS_size + s1 + s2 + s3))
     else if fl AND NRRTYP = NRRORD then Some (reloc_size + (get_SRC_FLAGS_size + s1 + s2 + s3 + sa))
     else if fl AND NRRTYP = NRRNAM then Some (reloc_size + (get_SRC_FLAGS_size + s1 + s2 + s4 + sa))
     else if fl AND NRRTYP = NRRENT then Some (reloc_size + (get_SRC_FLAGS_size + s1 + s5 + sa))
     else Some reloc_size }"

lemmas field_size_defs =
  get_SRC_FLAGS_size_def get_srcoff_cnt1_size_def get_mod_ord1_size_def get_imp_ord1_size_def
  get_additive_size_def get_imp_name_size_def get_ord1_entry_size_def nr_stype_def nr_flags_def

section \<open>Reference types\<close>

lemma and_3_cases: "(fl :: u8) AND 3 = 0 \<or> fl AND 3 = 1 \<or> fl AND 3 = 2 \<or> fl AND 3 = 3"
proof -
  have "fl AND 3 = take_bit 2 fl"
    by (simp add: take_bit_eq_mask mask_eq_exp_minus_1)
  moreover have "unat (take_bit 2 fl) < 4"
    by (simp add: unsigned_take_bit_eq take_bit_nat_def)
  moreover have "w = 0 \<or> w = 1 \<or> w = 2 \<or> w = 3" if "unat w < 4" for w :: u8
    using that by (auto simp: word_unat_eq_iff)
  ultimately show ?thesis by metis
qed

lemma field_size_ranges:
  "get_srcoff_cnt1_size rlc = Some s1 \<Longrightarrow> s1 = 1 \<or> s1 = 2"
  "get_mod_ord1_size rlc = Some s2 \<Longrightarrow> s2 = 1 \<or> s2 = 2"
  "get_imp_ord1_size rlc = Some s3 \<Longrightarrow> s3 = 1 \<or> s3 = 2 \<or> s3 = 4"
  "get_imp_name_size rlc = Some s4 \<Longrightarrow> s4 = 2 \<or> s4 = 4"
  "get_additive_size rlc = Some sa \<Longrightarrow> sa = 0 \<or> sa = 2 \<or> sa = 4"
  by (auto simp: field_size_defs bind_eq_Some_conv split: if_splits)

lemma reloc_size_parts:
  assumes "get_reloc_size_rlc rlc = Some n"
  obtains st fl r s1 s2 s3 s4 sa where
    "nr_stype rlc = Some st" "nr_flags rlc = Some fl"
    "get_srcoff_cnt1_size rlc = Some s1" "get_mod_ord1_size rlc = Some s2"
    "get_imp_ord1_size rlc = Some s3" "get_imp_name_size rlc = Some s4"
    "get_additive_size rlc = Some sa"
    "r = 0 \<and> st AND NRCHAIN \<noteq> NRCHAIN \<or>
       s1 = 1 \<and> (\<exists>c. get_srcoff_cnt1_rlc rlc = Some c \<and> 0 \<le> c \<and> c \<le> 255 \<and> r = 2 * nat c)"
    "n = (if fl AND NRRTYP = NRRENT then r + 4 + s1 + sa
      else if fl AND NRRTYP = NRRNAM then r + 2 + s1 + s2 + s4 + sa
      else if fl AND NRRTYP = NRRORD then r + 2 + s1 + s2 + s3 + sa else r + 2 + s1 + s2 + s3)"
proof -
  obtain st fl r s1 s2 s3 s4 sa where b:
    "nr_stype rlc = Some st" "nr_flags rlc = Some fl"
    "get_srcoff_cnt1_size rlc = Some s1" "get_mod_ord1_size rlc = Some s2"
    "get_imp_ord1_size rlc = Some s3" "get_imp_name_size rlc = Some s4"
    "get_additive_size rlc = Some sa"
    "(if st AND NRCHAIN = NRCHAIN
       then do { count1 \<leftarrow> get_srcoff_cnt1_rlc rlc; Some (nat count1 * 2) } else Some 0) = Some r"
    and n: "(if fl AND NRRTYP = NRRINT then Some (r + (get_SRC_FLAGS_size + s1 + s2 + s3))
     else if fl AND NRRTYP = NRRORD then Some (r + (get_SRC_FLAGS_size + s1 + s2 + s3 + sa))
     else if fl AND NRRTYP = NRRNAM then Some (r + (get_SRC_FLAGS_size + s1 + s2 + s4 + sa))
     else if fl AND NRRTYP = NRRENT then Some (r + (get_SRC_FLAGS_size + s1 + 2 + sa))
     else Some r) = Some n"
    using assms unfolding get_reloc_size_rlc_def get_ord1_entry_size_def by (auto simp: bind_eq_Some_conv)
  have r: "r = 0 \<and> st AND NRCHAIN \<noteq> NRCHAIN \<or>
       s1 = 1 \<and> (\<exists>c. get_srcoff_cnt1_rlc rlc = Some c \<and> 0 \<le> c \<and> c \<le> 255 \<and> r = 2 * nat c)"
  proof (cases "st AND NRCHAIN = NRCHAIN")
    case True
    with b(1,8) obtain x where "rd8 rlc 2 = Some x" "get_srcoff_cnt1_rlc rlc = Some (uint x)"
        "r = nat (uint x) * 2"
      by (auto simp: get_srcoff_cnt1_rlc_def bind_eq_Some_conv)
    moreover have "uint x \<le> 255" using uint_lt2p [of x] by simp
    moreover have "s1 = 1" using True b(1,3) by (simp add: get_srcoff_cnt1_size_def)
    ultimately show ?thesis by simp
  qed (use b(8) in simp)
  have "n = (if fl AND NRRTYP = NRRENT then r + 4 + s1 + sa
      else if fl AND NRRTYP = NRRNAM then r + 2 + s1 + s2 + s4 + sa
      else if fl AND NRRTYP = NRRORD then r + 2 + s1 + s2 + s3 + sa else r + 2 + s1 + s2 + s3)"
    using n and_3_cases [of fl] unfolding get_SRC_FLAGS_size_def by auto
  with b(1-7) r that show ?thesis by blast
qed

lemma reloc_size_range:
  assumes "get_reloc_size_rlc rlc = Some n"
  shows "5 \<le> n \<and> n \<le> 523"
proof (rule reloc_size_parts [OF assms])
  fix st fl r s1 s2 s3 s4 sa
  assume s: "get_srcoff_cnt1_size rlc = Some s1" "get_mod_ord1_size rlc = Some s2"
    "get_imp_ord1_size rlc = Some s3" "get_imp_name_size rlc = Some s4"
    "get_additive_size rlc = Some sa"
    and r: "r = 0 \<and> st AND NRCHAIN \<noteq> NRCHAIN \<or>
       s1 = 1 \<and> (\<exists>c. get_srcoff_cnt1_rlc rlc = Some c \<and> 0 \<le> c \<and> c \<le> 255 \<and> r = 2 * nat c)"
    and n: "n = (if fl AND NRRTYP = NRRENT then r + 4 + s1 + sa
      else if fl AND NRRTYP = NRRNAM then r + 2 + s1 + s2 + s4 + sa
      else if fl AND NRRTYP = NRRORD then r + 2 + s1 + s2 + s3 + sa else r + 2 + s1 + s2 + s3)"
  have "1 \<le> s1 \<and> s1 \<le> 2" "1 \<le> s2 \<and> s2 \<le> 2" "1 \<le> s3 \<and> s3 \<le> 4" "2 \<le> s4 \<and> s4 \<le> 4" "sa \<le> 4"
    using field_size_ranges(1) [OF s(1)] field_size_ranges(2) [OF s(2)]
      field_size_ranges(3) [OF s(3)] field_size_ranges(4) [OF s(4)] field_size_ranges(5) [OF s(5)]
    by linarith+
  moreover have "r = 0 \<or> s1 = 1 \<and> r \<le> 510" using r by auto
  ultimately show "5 \<le> n \<and> n \<le> 523" unfolding n by auto
qed

text \<open>C37: A fixup record has between 5 and 523 bytes: whatever the record's bytes are, the size is at
  least 5 (so the loops over a page's records advance, and the branch that warns of an infinite
  loop is never taken) and at most 523.\<close>

theorem reloc_size_bounds:
  assumes "get_reloc_size_rlc rlc = Some n"
  shows "5 \<le> n \<and> n \<le> 523"
  using assms by (rule reloc_size_range)

theorem reloc_size_bounds_witness:
  "get_reloc_size_rlc [0x07, 0x01, 8, 0, 1, 57, 0] = Some 7 \<and> (5 :: nat) \<le> 7 \<and> (7 :: nat) \<le> 523"
proof -
  have "get_reloc_size_rlc [0x07, 0x01, 8, 0, 1, 57, 0] = Some 7"
    by (simp add: get_reloc_size_rlc_def field_size_defs rd8_def)
  with reloc_size_bounds [OF this] show ?thesis by simp
qed

section \<open>The layout\<close>

text \<open>
  The bytes of a record, field by field in the order the header comment of the file gives: SRC,
  FLAGS, SRCOFF or CNT, \<open>MOD_ORD\<close>, the import ordinal, name offset or target offset, ADDITIVE, and
  the source list.
\<close>

definition enc_src :: "u8 \<Rightarrow> u16 \<Rightarrow> u16 list \<Rightarrow> u8 list" where
  "enc_src st soff srcs = (if st AND NRCHAIN = NRCHAIN then [of_nat (length srcs)] else le16 soff)"

definition enc_mod :: "u8 \<Rightarrow> u16 \<Rightarrow> u8 list" where
  "enc_mod fl om = (if fl AND NR16OBJMOD = NR16OBJMOD then le16 om else [ucast om])"

definition enc_tgt :: "u8 \<Rightarrow> u32 \<Rightarrow> u8 list" where
  "enc_tgt fl t = (if fl AND NR8BITORD = NR8BITORD then [ucast t]
     else if fl AND NR32BITOFF = NR32BITOFF then le32 t else le16 (ucast t))"

definition enc_add :: "u8 \<Rightarrow> u32 \<Rightarrow> u8 list" where
  "enc_add fl a = (if fl AND NRADD = NRADD
     then (if fl AND NRCHAIN = NRCHAIN then le32 a else le16 (ucast a)) else [])"

definition enc_srcs :: "u8 \<Rightarrow> u16 list \<Rightarrow> u8 list" where
  "enc_srcs st srcs = (if st AND NRCHAIN = NRCHAIN then concat (map le16 srcs) else [])"

definition enc_fixup :: "u8 \<Rightarrow> u8 \<Rightarrow> u16 \<Rightarrow> u16 \<Rightarrow> u32 \<Rightarrow> u32 \<Rightarrow> u16 list \<Rightarrow> u8 list" where
  "enc_fixup st fl soff om t a srcs =
     [st, fl] @ enc_src st soff srcs @ enc_mod fl om @ enc_tgt fl t @ enc_add fl a @ enc_srcs st srcs"

text \<open>The values a record carries, cut to the width its flags give them.\<close>

definition val_tgt :: "u8 \<Rightarrow> u32 \<Rightarrow> int" where
  "val_tgt fl t = (if fl AND NR8BITORD = NR8BITORD then uint (ucast t :: u8)
     else if fl AND NR32BITOFF = NR32BITOFF then sint t else uint (ucast t :: u16))"

definition val_add :: "u8 \<Rightarrow> u32 \<Rightarrow> int" where
  "val_add fl a = (if fl AND NRADD = NRADD
     then (if fl AND NRCHAIN = NRCHAIN then sint a else uint (ucast a :: u16)) else 0)"

text \<open>Internal references carry no additive value, references by name no 8-bit ordinal.\<close>

definition layout_flags :: "u8 \<Rightarrow> bool" where
  "layout_flags fl \<longleftrightarrow> fl AND NRRTYP \<noteq> NRRENT \<and> (fl AND NRRTYP = NRRINT \<longrightarrow> fl AND NRADD \<noteq> NRADD)
     \<and> (fl AND NRRTYP = NRRNAM \<longrightarrow> fl AND NR8BITORD \<noteq> NR8BITORD)"

lemma length_enc_srcs [simp]:
  "length (enc_srcs st srcs) = (if st AND NRCHAIN = NRCHAIN then 2 * length srcs else 0)"
  by (simp add: enc_srcs_def length_concat comp_def sum_list_triv)

lemma rd8_skip: "rd8 (xs @ ys) (length xs + i) = rd8 ys i"
  by (simp add: rd8_append)

lemma enc_fixup_sizes:
  assumes "rlc = enc_fixup st fl soff om t a srcs @ r"
  shows "nr_stype rlc = Some st" "nr_flags rlc = Some fl"
    "get_srcoff_cnt1_size rlc = Some (length (enc_src st soff srcs))"
    "get_mod_ord1_size rlc = Some (length (enc_mod fl om))"
    "get_imp_ord1_size rlc = Some (length (enc_tgt fl t))"
    "get_additive_size rlc = Some (length (enc_add fl a))"
  using assms
  by (simp_all add: enc_fixup_def field_size_defs rd8_def enc_src_def enc_mod_def enc_tgt_def
      enc_add_def)

text \<open>Where the fields start.\<close>

lemma enc_fixup_fields:
  assumes "rlc = enc_fixup st fl soff om t a srcs @ r"
    and "s1 = length (enc_src st soff srcs)" and "s2 = length (enc_mod fl om)"
    and "s3 = length (enc_tgt fl t)"
  shows "rlc = [st, fl] @ enc_src st soff srcs @ (enc_mod fl om @ enc_tgt fl t @ enc_add fl a @ enc_srcs st srcs @ r)"
    and "drop (2 + s1) rlc = enc_mod fl om @ (enc_tgt fl t @ enc_add fl a @ enc_srcs st srcs @ r)"
    and "drop (2 + s1 + s2) rlc = enc_tgt fl t @ (enc_add fl a @ enc_srcs st srcs @ r)"
    and "drop (2 + s1 + s2 + s3) rlc = enc_add fl a @ enc_srcs st srcs @ r"
  using assms by (simp_all add: enc_fixup_def)

lemma rd_at_drop:
  "rd8 bs k = rd8 (drop k bs) 0" "rd16 bs k = rd16 (drop k bs) 0" "rd32 bs k = rd32 (drop k bs) 0"
  by (simp_all add: rd8_drop rd16_drop rd32_drop)

lemma enc_fixup_src:
  assumes "rlc = enc_fixup st fl soff om t a srcs @ r" and "length srcs < 256"
  shows "get_srcoff_cnt1_rlc rlc = Some (if st AND NRCHAIN = NRCHAIN then int (length srcs) else sint soff)"
proof -
  have "drop 2 rlc = enc_src st soff srcs @ (enc_mod fl om @ enc_tgt fl t @ enc_add fl a @ enc_srcs st srcs @ r)"
    using assms(1) by (simp add: enc_fixup_def)
  moreover have "uint (of_nat (length srcs) :: u8) = int (length srcs)"
    using assms(2) by (simp add: unsigned_of_nat take_bit_nat_eq_self)
  ultimately show ?thesis
    unfolding get_srcoff_cnt1_rlc_def rd_at_drop [of rlc 2] enc_fixup_sizes(1) [OF assms(1)]
    by (simp add: enc_src_def rd_simps)
qed

lemma enc_fixup_mod:
  assumes "rlc = enc_fixup st fl soff om t a srcs @ r"
  shows "get_mod_ord1_rlc rlc = Some (if fl AND NR16OBJMOD = NR16OBJMOD then uint om else uint (ucast om :: u8))"
  unfolding get_mod_ord1_rlc_def enc_fixup_sizes [OF assms] get_SRC_FLAGS_size_def Let_def Option.bind.simps
    rd_at_drop [of rlc "2 + length (enc_src st soff srcs)"] enc_fixup_fields(2) [OF assms refl refl refl]
  by (simp add: enc_mod_def rd_simps)

lemma enc_fixup_tgt:
  assumes "rlc = enc_fixup st fl soff om t a srcs @ r"
  shows "get_imp_ord1_rlc rlc = Some (val_tgt fl t)"
  unfolding get_imp_ord1_rlc_def enc_fixup_sizes [OF assms] get_SRC_FLAGS_size_def Let_def Option.bind.simps
    rd_at_drop [of rlc "2 + length (enc_src st soff srcs) + length (enc_mod fl om)"]
    enc_fixup_fields(3) [OF assms refl refl refl]
  by (simp add: enc_tgt_def val_tgt_def rd_simps)

lemma rd16_concat: "i < length ws \<Longrightarrow> rd16 (concat (map le16 ws) @ r) (i * 2) = Some (ws ! i)"
proof (induction ws arbitrary: i)
  case (Cons w ws)
  show ?case
  proof (cases i)
    case (Suc j)
    then show ?thesis
      using Cons rd16_skip [of "le16 w" "concat (map le16 ws) @ r" "j * 2"] by simp
  qed (simp add: rd_simps)
qed simp

lemma reftype_bits:
  "((fl :: u8) AND 3 = 1 \<longrightarrow> fl AND 1 = 1 \<and> fl AND 2 = 0)"
  "(fl AND 3 = 2 \<longrightarrow> fl AND 1 = 0 \<and> fl AND 2 = 2)"
  "(fl AND 3 = 0 \<longrightarrow> fl AND 1 = 0 \<and> fl AND 2 = 0)"
  "(fl AND 3 = 3 \<longrightarrow> fl AND 1 = 1 \<and> fl AND 2 = 2)"
proof -
  have "fl AND 1 = (fl AND 3) AND 1" "fl AND 2 = (fl AND 3) AND 2"
    by (simp_all add: and.assoc)
  then show "(fl AND 3 = 1 \<longrightarrow> fl AND 1 = 1 \<and> fl AND 2 = 0)"
    "(fl AND 3 = 2 \<longrightarrow> fl AND 1 = 0 \<and> fl AND 2 = 2)"
    "(fl AND 3 = 0 \<longrightarrow> fl AND 1 = 0 \<and> fl AND 2 = 0)"
    "(fl AND 3 = 3 \<longrightarrow> fl AND 1 = 1 \<and> fl AND 2 = 2)"
    by simp_all
qed

lemma enc_fixup_tail:
  assumes "rlc = enc_fixup st fl soff om t a srcs @ r" and "layout_flags fl" and "fl AND NRRTYP \<noteq> NRRINT"
  shows "tail_offs rlc = Some (2 + length (enc_src st soff srcs) + length (enc_mod fl om) + length (enc_tgt fl t))"
proof -
  have nm: "get_imp_name_size rlc = Some (if fl AND NR32BITOFF = NR32BITOFF then 4 else 2)"
    by (simp add: get_imp_name_size_def enc_fixup_sizes [OF assms(1)])
  have ty: "fl AND 3 = 1 \<or> fl AND 3 = 2"
    using and_3_cases [of fl] assms(2,3) by (auto simp: layout_flags_def)
  have l: "length (enc_tgt fl t) = (if fl AND NR32BITOFF = NR32BITOFF then 4 else 2)" if "fl AND 3 = 2"
    using assms(2) that by (simp add: layout_flags_def enc_tgt_def)
  show ?thesis
    using ty reftype_bits [of fl] l
    by (auto simp: tail_offs_def enc_fixup_sizes [OF assms(1)] nm get_ord1_entry_size_def
        get_SRC_FLAGS_size_def Let_def)
qed

lemma enc_fixup_add:
  assumes "rlc = enc_fixup st fl soff om t a srcs @ r" and "layout_flags fl"
  shows "get_additive_rlc rlc = Some (val_add fl a)"
proof (cases "fl AND NRADD = NRADD")
  case True
  with assms(2) have "fl AND NRRTYP \<noteq> NRRINT" by (auto simp: layout_flags_def)
  note tl = enc_fixup_tail [OF assms this]
  show ?thesis
    using True unfolding get_additive_rlc_def tl enc_fixup_sizes [OF assms(1)] Option.bind.simps
      rd_at_drop [of rlc "2 + length (enc_src st soff srcs) + length (enc_mod fl om) + length (enc_tgt fl t)"]
      enc_fixup_fields(4) [OF assms(1) refl refl refl]
    by (simp add: enc_add_def val_add_def rd_simps)
next
  case False
  have "tail_offs rlc \<noteq> None"
    by (simp add: tail_offs_def enc_fixup_sizes [OF assms(1)] get_imp_name_size_def
        get_ord1_entry_size_def Let_def)
  with False show ?thesis
    by (auto simp: get_additive_rlc_def enc_fixup_sizes [OF assms(1)] enc_add_def val_add_def)
qed

lemma enc_fixup_length:
  assumes "rlc = enc_fixup st fl soff om t a srcs @ r" and "layout_flags fl" and "length srcs < 256"
  shows "get_reloc_size_rlc rlc = Some (length (enc_fixup st fl soff om t a srcs))"
proof -
  have nm: "get_imp_name_size rlc = Some (if fl AND NR32BITOFF = NR32BITOFF then 4 else 2)"
    by (simp add: get_imp_name_size_def enc_fixup_sizes [OF assms(1)])
  have l: "length (enc_tgt fl t) = (if fl AND NR32BITOFF = NR32BITOFF then 4 else 2)" if "fl AND 3 = 2"
    using assms(2) that by (simp add: layout_flags_def enc_tgt_def)
  have a: "length (enc_add fl a) = 0" if "fl AND 3 = 0"
    using assms(2) that by (simp add: layout_flags_def enc_add_def)
  show ?thesis
    using assms(2) and_3_cases [of fl] l a
    unfolding get_reloc_size_rlc_def enc_fixup_sizes [OF assms(1)] nm enc_fixup_src [OF assms(1,3)]
      get_ord1_entry_size_def get_SRC_FLAGS_size_def enc_fixup_def layout_flags_def Option.bind.simps
    by auto
qed



text \<open>The source list of an additive record is read at the wrong place: the list follows the
  additive value, but \<open>get_srcoff12_rlc\<close> computes its offset without the additive field. For a record
  with a 16-bit additive value the \<open>i\<close>-th source offset it returns is element \<open>i - 1\<close> of the list, and
  for \<open>i = 0\<close> it is the additive value itself.\<close>

theorem srcoff12_additive_overlap:
  assumes "layout_flags fl" and "st AND NRCHAIN = NRCHAIN" and "fl AND NRADD = NRADD"
    and "fl AND NRCHAIN \<noteq> NRCHAIN" and "i < length srcs"
  shows "get_srcoff12_rlc (enc_fixup st fl soff om t a srcs @ r) i
     = Some (if i = 0 then val_add fl a else uint (srcs ! (i - 1)))"
proof -
  let ?rlc = "enc_fixup st fl soff om t a srcs @ r"
  have "fl AND NRRTYP \<noteq> NRRINT" using assms(1,3) by (auto simp: layout_flags_def)
  note tl = enc_fixup_tail [OF refl assms(1) this, of st soff om t a srcs r]
  let ?k = "2 + length (enc_src st soff srcs) + length (enc_mod fl om) + length (enc_tgt fl t)"
  have "drop ?k ?rlc = concat (map le16 (ucast a # srcs)) @ r"
    unfolding enc_fixup_fields(4) [OF refl refl refl refl] using assms(2-4)
    by (simp add: enc_add_def enc_srcs_def)
  then have "rd16 ?rlc (?k + i * 2) = Some ((ucast a # srcs) ! i)"
    using assms(5) rd16_concat [of i "ucast a # srcs" r] by (metis length_Cons less_SucI rd16_drop)
  then show ?thesis
    unfolding get_srcoff12_rlc_def tl using assms(3,4) by (simp add: val_add_def nth_Cons')
qed

theorem srcoff12_additive_overlap_witness:
  "get_srcoff12_rlc (enc_fixup 0x27 0x05 0 1 57 99 [16, 32] @ []) 0 = Some 99"
proof -
  have "layout_flags 0x05" by (simp add: layout_flags_def)
  from srcoff12_additive_overlap [OF this, of "0x27" 0 "[16, 32]" 0 1 57 99 "[]"] show ?thesis
    by (simp add: val_add_def)
qed

end
