(* ===== verification/LxModule.thy ===== *)
theory LxModule
  imports LxFixup
begin

text \<open>
  Access to a loaded LX module (\<^verbatim>\<open>lib/ixf/lx/mod.c\<close>): the object table, the page map, the fixup page
  and record tables, the import name tables and the resident name table. Pointers into a section are
  integer positions in it; reading outside the section gives no value. A \<open>char\<close> is signed on the
  target, so length bytes from 128 on are negative.
\<close>

section \<open>Reads at integer positions\<close>

definition rd8i :: "u8 list \<Rightarrow> int \<Rightarrow> u8 option" where
  "rd8i bs i = (if 0 \<le> i then rd8 bs (nat i) else None)"

definition rd16i :: "u8 list \<Rightarrow> int \<Rightarrow> u16 option" where
  "rd16i bs i = (if 0 \<le> i then rd16 bs (nat i) else None)"

definition rd32i :: "u8 list \<Rightarrow> int \<Rightarrow> u32 option" where
  "rd32i bs i = (if 0 \<le> i then rd32 bs (nat i) else None)"

section \<open>Header and object table\<close>

text \<open>An object pointer is its number; the null pointer is \<open>None\<close>.\<close>

definition get_obj :: "LX_module \<Rightarrow> int \<Rightarrow> o32_obj option" where
  "get_obj lx nr = (if 1 \<le> nr then read_o32_obj (loader_section lx) (nat (24 * (nr - 1))) else None)"

definition get_obj_num :: "LX_module \<Rightarrow> u32" where
  "get_obj_num lx = e32_objcnt (lx_head_e32_exe lx)"

definition get_obj_map_num :: "LX_module \<Rightarrow> int" where
  "get_obj_map_num lx = sint (e32_mpages (lx_head_e32_exe lx))"

definition get_code :: "LX_module \<Rightarrow> u32 option" where
  "get_code lx = (if e32_startobj (lx_head_e32_exe lx) = 0 then None
     else Some (e32_startobj (lx_head_e32_exe lx)))"

definition get_code_num :: "LX_module \<Rightarrow> u32" where
  "get_code_num lx = e32_startobj (lx_head_e32_exe lx)"

definition get_eip :: "LX_module \<Rightarrow> u32" where
  "get_eip lx = e32_eip (lx_head_e32_exe lx)"

definition get_data_stack :: "LX_module \<Rightarrow> u32 option" where
  "get_data_stack lx =
     (if e32_stackobj (lx_head_e32_exe lx) = 0 \<or> get_obj_num lx < e32_stackobj (lx_head_e32_exe lx)
      then None else Some (e32_stackobj (lx_head_e32_exe lx)))"

definition get_data_stack_num :: "LX_module \<Rightarrow> int" where
  "get_data_stack_num lx = sint (e32_stackobj (lx_head_e32_exe lx))"

definition get_esp :: "LX_module \<Rightarrow> u32" where
  "get_esp lx = e32_esp (lx_head_e32_exe lx)"

text \<open>The position of the page map in the loader section, computed from the header's size.\<close>

definition get_obj_page_tbl :: "LX_module \<Rightarrow> int" where
  "get_obj_page_tbl lx = sint (e32_objmap (lx_head_e32_exe lx) - of_nat e32_exe_size)"

definition get_obj_map :: "LX_module \<Rightarrow> int \<Rightarrow> o32_map option" where
  "get_obj_map lx nr = (let p = get_obj_page_tbl lx + 8 * (nr - 1) in
     if 0 \<le> p then read_o32_map (loader_section lx) (nat p) else None)"

definition get_ldrsize :: "LX_module \<Rightarrow> int" where
  "get_ldrsize lx = sint (e32_ldrsize (lx_head_e32_exe lx))"

definition get_fixupsize :: "LX_module \<Rightarrow> int" where
  "get_fixupsize lx = sint (e32_fixupsize (lx_head_e32_exe lx))"

definition get_e32_pagesize :: "LX_module \<Rightarrow> u32" where
  "get_e32_pagesize lx = e32_pagesize (lx_head_e32_exe lx)"

definition get_e32_datapage :: "LX_module \<Rightarrow> u32" where
  "get_e32_datapage lx = e32_datapage (lx_head_e32_exe lx)"

definition get_e32_pageshift :: "LX_module \<Rightarrow> u32" where
  "get_e32_pageshift lx = e32_pageshift (lx_head_e32_exe lx)"

definition get_mflags :: "LX_module \<Rightarrow> u32" where
  "get_mflags lx = e32_mflags (lx_head_e32_exe lx)"

definition get_magic :: "LX_module \<Rightarrow> u8 \<times> u8" where
  "get_magic lx = (e32_magic0 (lx_head_e32_exe lx), e32_magic1 (lx_head_e32_exe lx))"

section \<open>Fixup tables\<close>

definition get_fixup_pg_tbl_offs :: "LX_module \<Rightarrow> int \<Rightarrow> int option" where
  "get_fixup_pg_tbl_offs lx logisk_sida = map_option sint (rd32i (fixup_section lx) (4 * (logisk_sida - 1)))"

text \<open>The record at an offset: the bytes from there to the end of the section.\<close>

definition get_fixup_rec_tbl_obj :: "LX_module \<Rightarrow> int \<Rightarrow> u8 list option" where
  "get_fixup_rec_tbl_obj lx offs =
     (let p = offs + sint (e32_frectab (lx_head_e32_exe lx) - e32_fpagetab (lx_head_e32_exe lx)) in
      if 0 \<le> p \<and> p \<le> int (length (fixup_section lx)) then Some (drop (nat p) (fixup_section lx))
      else None)"

section \<open>Pascal strings and import names\<close>

text \<open>\<open>copy_pas_str\<close>: the characters it stores before the terminating NUL.\<close>

definition copy_pas_str :: "u8 list \<Rightarrow> int \<Rightarrow> string option" where
  "copy_pas_str bs p = do {
     b \<leftarrow> rd8i bs p;
     let i = sint b;
     if i \<le> 0 then Some []
     else if nat p + 1 + nat i \<le> length bs
     then Some (map char_of_u8 (take (nat i) (drop (nat p + 1) bs)))
     else None }"

text \<open>The walk over the length bytes.\<close>

fun mod_name_walk :: "u8 list \<Rightarrow> nat \<Rightarrow> int \<Rightarrow> int option" where
  "mod_name_walk bs 0 p = Some p"
| "mod_name_walk bs (Suc n) p = do { b \<leftarrow> rd8i bs p; mod_name_walk bs n (p + sint b + 1) }"

text \<open>
  \<open>get_imp_mod_name\<close> logs the table up to its first NUL, then walks to entry \<open>mod_idx\<close>; an index
  below 1 never meets the loop's end condition within the section.
\<close>

definition get_imp_mod_name :: "LX_module \<Rightarrow> int \<Rightarrow> int option" where
  "get_imp_mod_name lx mod_idx =
     (let p = sint (e32_impmod (lx_head_e32_exe lx) - e32_fpagetab (lx_head_e32_exe lx)) in
      if 0 \<le> p \<and> 0 \<in> set (drop (nat p) (fixup_section lx)) \<and> 1 \<le> mod_idx
      then mod_name_walk (fixup_section lx) (nat (mod_idx - 1)) p else None)"

definition get_imp_mod_name_cstr :: "LX_module \<Rightarrow> int \<Rightarrow> string option" where
  "get_imp_mod_name_cstr lx mod_idx = do {
     p \<leftarrow> get_imp_mod_name lx mod_idx;
     s \<leftarrow> copy_pas_str (fixup_section lx) p;
     Some (cstr s) }"

definition get_imp_proc_name :: "LX_module \<Rightarrow> int \<Rightarrow> int option" where
  "get_imp_proc_name lx proc_idx =
     (let offs = sint (e32_impproc (lx_head_e32_exe lx) - e32_fpagetab (lx_head_e32_exe lx)) in
      do { _ \<leftarrow> rd8i (fixup_section lx) (offs + proc_idx);
           Some (offs + (if proc_idx = 0 then 1 else proc_idx)) })"

definition get_imp_proc_name_2 :: "LX_module \<Rightarrow> int \<Rightarrow> int option" where
  "get_imp_proc_name_2 lx proc_idx =
     (let offs = sint (e32_impproc (lx_head_e32_exe lx) - e32_fpagetab (lx_head_e32_exe lx)) in
      do { _ \<leftarrow> rd8i (fixup_section lx) (offs + proc_idx); Some (offs + proc_idx) })"

section \<open>Resident names\<close>

text \<open>
  The search loop: \<open>Some (Some n)\<close> is the ordinal returned (0 when the name is not found),
  \<open>Some None\<close> a run that is still going on when the fuel ends.
\<close>

fun res_name_loop :: "nat \<Rightarrow> u8 list \<Rightarrow> int \<Rightarrow> int \<Rightarrow> int \<Rightarrow> string \<Rightarrow> int option option" where
  "res_name_loop 0 bs offs tblsize lengths name = Some None"
| "res_name_loop (Suc fuel) bs offs tblsize lengths name =
     (if lengths < tblsize - 1 then do {
        b \<leftarrow> rd8i bs (offs + lengths);
        let c_len = sint b;
        s \<leftarrow> copy_pas_str bs (offs + lengths);
        w \<leftarrow> rd16i bs (offs + c_len + 1 + lengths);
        if cstr s = name then Some (Some (uint w))
        else res_name_loop fuel bs offs tblsize (lengths + (c_len + 1 + 2)) name }
      else Some (Some 0))"

definition get_res_name_tbl_entry :: "nat \<Rightarrow> LX_module \<Rightarrow> string \<Rightarrow> int option option" where
  "get_res_name_tbl_entry fuel lx entry_name =
     (let h = lx_head_e32_exe lx; offs = sint (e32_restab h - e32_objtab h) in
      do { _ \<leftarrow> rd8i (loader_section lx) offs;
           res_name_loop fuel (loader_section lx) offs (sint (e32_enttab h - e32_restab h)) 0 entry_name })"

definition get_non_res_name_tbl_entry :: "LX_module \<Rightarrow> string \<Rightarrow> int" where
  "get_non_res_name_tbl_entry lx entry_name = 0"

definition get_module_name_res_name_tbl_entry :: "LX_module \<Rightarrow> int option" where
  "get_module_name_res_name_tbl_entry lx =
     (let h = lx_head_e32_exe lx; offs = sint (e32_restab h - e32_objtab h) in
      do { _ \<leftarrow> copy_pas_str (loader_section lx) offs; Some offs })"

section \<open>Name tables, correct\<close>

lemma sint_u8: "sint (b :: u8) = (if uint b < 128 then uint b else uint b - 256)"
proof -
  have b: "0 \<le> uint b" "uint b < 256" using uint_lt2p [of b] by simp_all
  have "bit (uint b) 7 \<longleftrightarrow> 128 \<le> uint b"
  proof -
    have "uint b div 128 = (if uint b < 128 then 0 else 1)"
      using b by (auto simp: div_pos_pos_trivial intro: div_pos_geq [THEN trans])
    then show ?thesis by (simp add: bit_iff_odd)
  qed
  then show ?thesis
    using b by (simp add: sint_uint signed_take_bit_eq_take_bit_minus take_bit_int_eq_self)
qed

text \<open>The bytes of a Pascal string.\<close>

definition pas :: "string \<Rightarrow> u8 list" where
  "pas s = of_nat (length s) # map u8_of_char s"

lemma length_pas [simp]: "length (pas s) = length s + 1"
  by (simp add: pas_def)

lemma sint_length_byte: "n \<le> 127 \<Longrightarrow> sint (of_nat n :: u8) = int n"
  by (simp add: signed_of_nat signed_take_bit_int_eq_self)

lemma rd8i_mid: "rd8i (xs @ b # ys) (int (length xs)) = Some b"
  by (simp add: rd8i_def rd8_def)

lemma copy_pas_str_pas:
  assumes "length s \<le> 127"
  shows "copy_pas_str (xs @ pas s @ r) (int (length xs)) = Some s"
proof -
  have "rd8i (xs @ pas s @ r) (int (length xs)) = Some (of_nat (length s))"
    by (simp add: pas_def rd8i_mid)
  then show ?thesis
    using assms by (simp add: copy_pas_str_def sint_length_byte pas_def comp_def Let_def)
qed

lemma mod_name_walk_names:
  assumes "\<forall>s\<in>set names. length s \<le> 127" and "n \<le> length names" and "p = int (length xs)"
  shows "mod_name_walk (xs @ concat (map pas names) @ r) n p
     = Some (int (length (xs @ concat (map pas (take n names)))))"
  using assms
proof (induction n arbitrary: names xs p)
  case (Suc n)
  then obtain s ns where names: "names = s # ns" by (cases names) auto
  have b: "rd8i (xs @ concat (map pas names) @ r) p = Some (of_nat (length s))"
    using Suc.prems(3) by (simp add: names pas_def rd8i_mid)
  have "mod_name_walk ((xs @ pas s) @ concat (map pas ns) @ r) n (int (length (xs @ pas s)))
      = Some (int (length ((xs @ pas s) @ concat (map pas (take n ns)))))"
    by (rule Suc.IH) (use Suc.prems names in auto)
  then show ?case
    using b Suc.prems by (simp add: names sint_length_byte algebra_simps)
qed simp

text \<open>Import names: when the import module table holds the names as Pascal strings of at most
  127 characters, \<open>get_imp_mod_name_cstr\<close> returns the \<open>k\<close>-th name for every \<open>k\<close> from 1 to their number.\<close>

theorem imp_mod_name_roundtrip:
  assumes "fixup_section lx = xs @ concat (map pas names) @ r"
    and "int (length xs) = sint (e32_impmod (lx_head_e32_exe lx) - e32_fpagetab (lx_head_e32_exe lx))"
    and "0 \<in> set r" and "\<forall>s\<in>set names. length s \<le> 127 \<and> NUL \<notin> set s"
    and "1 \<le> k" and "k \<le> length names"
  shows "get_imp_mod_name_cstr lx (int k) = Some (names ! (k - 1))"
proof -
  let ?pre = "xs @ concat (map pas (take (k - 1) names))"
  have walk: "mod_name_walk (fixup_section lx) (k - 1) (int (length xs)) = Some (int (length ?pre))"
    unfolding assms(1) by (rule mod_name_walk_names) (use assms in auto)
  then have pos: "get_imp_mod_name lx (int k) = Some (int (length ?pre))"
    using assms(1,3,5) by (simp add: get_imp_mod_name_def Let_def assms(2) [symmetric] nat_diff_distrib)
  have split: "names = take (k - 1) names @ names ! (k - 1) # drop k names"
    using assms(5,6) id_take_nth_drop [of "k - 1" names] by simp
  have "concat (map pas names) = concat (map pas (take (k - 1) names)) @ pas (names ! (k - 1))
      @ concat (map pas (drop k names))"
    using arg_cong [OF split, of "\<lambda>ns. concat (map pas ns)"]
    by (simp only: map_append concat_append list.map concat.simps)
  then have "fixup_section lx = ?pre @ pas (names ! (k - 1)) @ (concat (map pas (drop k names)) @ r)"
    using assms(1) by simp
  moreover have "length (names ! (k - 1)) \<le> 127" "NUL \<notin> set (names ! (k - 1))"
    using assms(4-6) by (auto dest!: bspec [of _ _ "names ! (k - 1)"])
  ultimately show ?thesis
    unfolding get_imp_mod_name_cstr_def pos
    using copy_pas_str_pas [of "names ! (k - 1)" ?pre "concat (map pas (drop k names)) @ r"]
    by (simp add: cstr_id)
qed

theorem imp_mod_name_roundtrip_witness:
  "get_imp_mod_name_cstr (lx0\<lparr>fixup_section := 7 # concat (map pas [''DOSCALLS'', ''VIOCALLS'']) @ [0],
     lx_head_e32_exe := e32_exe0\<lparr>e32_impmod := 1\<rparr>\<rparr>) 2 = Some ''VIOCALLS''"
  using imp_mod_name_roundtrip [of "lx0\<lparr>fixup_section := 7 # concat (map pas [''DOSCALLS'', ''VIOCALLS'']) @ [0],
     lx_head_e32_exe := e32_exe0\<lparr>e32_impmod := 1\<rparr>\<rparr>" "[7]" "[''DOSCALLS'', ''VIOCALLS'']" "[0]" 2]
  by (simp add: e32_exe0_def)

text \<open>Length bytes are read as signed characters: a Pascal string whose length byte is 128 or more
  is copied as the empty string.\<close>

theorem copy_pas_str_long:
  assumes "rd8i bs p = Some b" and "128 \<le> b"
  shows "copy_pas_str bs p = Some []"
proof -
  have "sint b \<le> 0"
    using assms(2) sint_u8 [of b] uint_lt2p [of b] by (simp add: word_le_def)
  then show ?thesis using assms(1) by (simp add: copy_pas_str_def)
qed

theorem copy_pas_str_long_witness: "copy_pas_str (0x80 # replicate 200 65) 0 = Some []"
  by (rule copy_pas_str_long [where b = "0x80"]) (simp_all add: rd8i_def rd8_def)

section \<open>Resident names, correct\<close>

definition enc_res :: "(string \<times> u16) list \<Rightarrow> u8 list" where
  "enc_res es = concat (map (\<lambda>(s, w). pas s @ le16 w) es)"

text \<open>What the table answers: the ordinal of the first entry of that name, or 0.\<close>

definition res_lookup :: "(string \<times> u16) list \<Rightarrow> string \<Rightarrow> int" where
  "res_lookup es name = (case map_of es name of Some w \<Rightarrow> uint w | None \<Rightarrow> 0)"

lemma length_enc_res: "length (enc_res ((s, w) # es)) = length s + 3 + length (enc_res es)"
  by (simp add: enc_res_def)

lemma res_name_loop_table:
  assumes "list_all (\<lambda>(s, w). length s \<le> 127 \<and> NUL \<notin> set s) es"
    and "length es < fuel" and "tblsize = lengths + int (length (enc_res es)) + 1" and "0 \<le> lengths"
    and "offs + lengths = int (length xs)"
  shows "res_name_loop fuel (xs @ enc_res es @ r) offs tblsize lengths name = Some (Some (res_lookup es name))"
  using assms
proof (induction es arbitrary: fuel lengths xs)
  case Nil
  then obtain f where "fuel = Suc f" by (cases fuel) auto
  with Nil.prems show ?case by (simp add: res_lookup_def enc_res_def)
next
  case (Cons e es)
  obtain s w f where e: "e = (s, w)" and f: "fuel = Suc f" using Cons.prems(2) by (cases e; cases fuel) auto
  have s: "length s \<le> 127" "NUL \<notin> set s" using Cons.prems(1) e by auto
  let ?bs = "xs @ enc_res (e # es) @ r"
  have bs: "?bs = xs @ pas s @ (le16 w @ enc_res es @ r)" by (simp add: e enc_res_def)
  have b: "rd8i ?bs (offs + lengths) = Some (of_nat (length s))"
    unfolding Cons.prems(5) bs by (simp add: pas_def rd8i_mid)
  have c: "copy_pas_str ?bs (offs + lengths) = Some s"
    unfolding Cons.prems(5) bs by (rule copy_pas_str_pas [OF s(1)])
  have "rd16 ((xs @ pas s) @ (le16 w @ enc_res es @ r)) (length (xs @ pas s) + 0) = Some w"
    by (simp only: rd16_skip rd16_le16)
  moreover have "offs + int (length s) + 1 + lengths = int (length (xs @ pas s))"
    using Cons.prems(5) by simp
  ultimately have w: "rd16i ?bs (offs + int (length s) + 1 + lengths) = Some w"
    unfolding bs rd16i_def by (simp del: length_append)
  have rec: "res_name_loop f (((xs @ pas s) @ le16 w) @ enc_res es @ r) offs tblsize
      (lengths + (int (length s) + 1 + 2)) name = Some (Some (res_lookup es name))"
    by (rule Cons.IH) (use Cons.prems e f in \<open>auto simp: length_enc_res\<close>)
  have run: "lengths < tblsize - 1" using Cons.prems(3) e by (simp add: length_enc_res)
  show ?case
    using b c w rec run s unfolding f e
    by (simp add: sint_length_byte cstr_id res_lookup_def bs [unfolded e])
qed

text \<open>C38: Resident name table: on a table of entries with names of at most 127 characters the search
  ends, within one iteration per entry and one more, with the ordinal of the first entry of that
  name, or 0 when there is none.\<close>

theorem res_name_search:
  assumes "loader_section lx = xs @ enc_res es @ 0 # r"
    and "int (length xs) = sint (e32_restab (lx_head_e32_exe lx) - e32_objtab (lx_head_e32_exe lx))"
    and "int (length (enc_res es)) + 1
       = sint (e32_enttab (lx_head_e32_exe lx) - e32_restab (lx_head_e32_exe lx))"
    and "list_all (\<lambda>(s, w). length s \<le> 127 \<and> NUL \<notin> set s) es" and "length es < fuel"
  shows "get_res_name_tbl_entry fuel lx name = Some (Some (res_lookup es name))"
proof -
  have "rd8i (loader_section lx) (int (length xs)) \<noteq> None"
    unfolding assms(1) by (simp add: rd8i_def rd8_def)
  moreover have "res_name_loop fuel (loader_section lx) (int (length xs)) (int (length (enc_res es)) + 1) 0 name
      = Some (Some (res_lookup es name))"
    unfolding assms(1) by (rule res_name_loop_table) (use assms in auto)
  ultimately show ?thesis
    using assms(2,3) by (auto simp: get_res_name_tbl_entry_def Let_def)
qed

theorem res_name_search_witness:
  "get_res_name_tbl_entry 3 (lx0\<lparr>loader_section := enc_res [(''MOD'', 0), (''FN'', 7)] @ [0],
     lx_head_e32_exe := e32_exe0\<lparr>e32_enttab := 12\<rparr>\<rparr>) ''FN'' = Some (Some 7)"
  using res_name_search [of "lx0\<lparr>loader_section := enc_res [(''MOD'', 0), (''FN'', 7)] @ [0],
     lx_head_e32_exe := e32_exe0\<lparr>e32_enttab := 12\<rparr>\<rparr>" "[]" "[(''MOD'', 0), (''FN'', 7)]" "[]" 3 "''FN''"]
  by (simp add: e32_exe0_def enc_res_def res_lookup_def)

text \<open>A corrupt resident name table makes the search loop for ever: an entry whose length byte is
  \<open>0xFD\<close> (-3 as a signed character) is skipped by 0 bytes, so no amount of fuel ends the search.\<close>

theorem res_name_search_stuck:
  assumes "rd8i bs (offs + lengths) = Some 0xFD" and "lengths < tblsize - 1"
    and "2 \<le> offs + lengths" and "name \<noteq> []"
  shows "res_name_loop fuel bs offs tblsize lengths name = Some None"
proof (induction fuel)
  case (Suc fuel)
  have c: "copy_pas_str bs (offs + lengths) = Some []"
    using assms(1) by (simp add: copy_pas_str_def)
  have "nat (offs + lengths) < length bs"
    using assms(1) by (auto simp: rd8i_def rd8_def split: if_splits)
  then have "rd16i bs (offs + -3 + 1 + lengths) \<noteq> None"
    using assms(3) by (simp add: rd16i_def rd16_def rd8_def)
  then show ?case
    using Suc assms c by (auto simp: cstr_def)
qed simp

theorem res_name_search_stuck_witness:
  "\<forall>fuel. res_name_loop fuel [0, 0, 0xFD, 0, 0] 2 3 0 ''FN'' = Some None"
  using res_name_search_stuck [of "[0, 0, 0xFD, 0, 0]" 2 0 3 "''FN''"] by (simp add: rd8i_def rd8_def)

end
