(* ===== verification/LxLoad.thy ===== *)
theory LxLoad
  imports LxModule
begin

text \<open>
  Reading an LX file from a memory buffer (\<^verbatim>\<open>lib/ixf/lx/load.c\<close> and \<open>LXIdentify\<close> of
  \<^verbatim>\<open>lib/ixf/lx/lx.c\<close>): the format test, the header, the loader section and the fixup section. The
  debug dumps, which only print, are left out; memory allocation succeeds.
\<close>

section \<open>Operations\<close>

abbreviation (input) ENEWHDR :: nat where "ENEWHDR \<equiv> 0x3c"

text \<open>The DOS stub signature \<open>MZ\<close> or \<open>ZM\<close>.\<close>

definition is_mz :: "u8 \<Rightarrow> u8 \<Rightarrow> bool" where
  "is_mz a b \<longleftrightarrow> a = 0x4D \<and> b = 0x5A \<or> a = 0x5A \<and> b = 0x4D"

definition LXIdentify :: "u8 list \<Rightarrow> u32 option" where
  "LXIdentify bs = do {
     a \<leftarrow> rd8 bs 0;
     mz \<leftarrow> (if a = 0x4D \<or> a = 0x5A then do { b \<leftarrow> rd8 bs 1; Some (is_mz a b) } else Some False);
     off \<leftarrow> (if mz then rd32 bs ENEWHDR else Some 0);
     c \<leftarrow> rd8 bs (unat off);
     if c = 0x4C then do {
       d \<leftarrow> rd8 bs (unat off + 1);
       Some (if d = 0x58 then NO_ERROR else ERROR_BAD_FORMAT) }
     else Some ERROR_BAD_FORMAT }"

definition LXLoadHeader :: "LX_module \<Rightarrow> (bool \<times> LX_module) option" where
  "LXLoadHeader lx = do {
     (sig, lx) \<leftarrow> lx_fread_stream 2 1 (snd (lx_fseek_stream lx 0 SEEK_SET));
     (sig, off, lx) \<leftarrow>
       (if is_mz (sig ! 0) (sig ! 1) then do {
          (b, lx) \<leftarrow> lx_fread_stream 4 1 (snd (lx_fseek_stream lx (int ENEWHDR) SEEK_SET));
          w \<leftarrow> rd32 b 0;
          let off = sint w;
          (sig, lx) \<leftarrow> lx_fread_stream 1 2 (snd (lx_fseek_stream lx off SEEK_SET));
          Some (sig, off, lx\<lparr>offs_lx_head := off\<rparr>) }
        else Some (sig, 0, lx));
     let lx = (if off = 0 then lx\<lparr>offs_lx_head := 0\<rparr> else lx);
     if sig ! 0 = 0x4C \<and> sig ! 1 = 0x58 then do {
       (b, lx) \<leftarrow> lx_fread_stream e32_exe_size 1 (snd (lx_fseek_stream lx off SEEK_SET));
       hdr \<leftarrow> read_e32_exe b;
       Some (True, lx\<lparr>lx_head_e32_exe := hdr\<rparr>) }
     else Some (False, lx) }"

definition LXLoadLoaderSection :: "LX_module \<Rightarrow> LX_module option" where
  "LXLoadLoaderSection lx = (let h = lx_head_e32_exe lx in do {
     (b, lx) \<leftarrow> lx_fread_stream (unat (e32_ldrsize h)) 1
       (snd (lx_fseek_stream lx (sint (of_int (offs_lx_head lx) + e32_objtab h)) SEEK_SET));
     Some (lx\<lparr>loader_section := b\<rparr>) })"

definition LXLoadFixupSection :: "LX_module \<Rightarrow> LX_module option" where
  "LXLoadFixupSection lx = do {
     (b, lx) \<leftarrow> lx_fread_stream (unat (e32_fixupsize (lx_head_e32_exe lx))) 1 lx;
     Some (lx\<lparr>fixup_section := b\<rparr>) }"

text \<open>The module that \<open>LXLoadStream\<close> initialises before it reads the header.\<close>

definition stream_module :: "u8 list \<Rightarrow> int \<Rightarrow> LX_module \<Rightarrow> LX_module" where
  "stream_module bs str_size lx = lx\<lparr>lx_file_stream := bs, lx_stream_size := str_size,
     lx_stream_pos := 0, offs_lx_head := 0\<rparr>"

text \<open>\<open>Some None\<close> is the null pointer returned when the header is not an LX header.\<close>

definition LXLoadStream :: "u8 list \<Rightarrow> int \<Rightarrow> LX_module \<Rightarrow> LX_module option option" where
  "LXLoadStream bs str_size lx = do {
     (ok, lx) \<leftarrow> LXLoadHeader (stream_module bs str_size lx);
     if ok then do { lx \<leftarrow> LXLoadLoaderSection lx; lx \<leftarrow> LXLoadFixupSection lx; Some (Some lx) }
     else Some None }"

section \<open>The header\<close>

text \<open>Where the LX header starts.\<close>

definition lx_header_offset :: "u8 list \<Rightarrow> u32 option" where
  "lx_header_offset bs = do {
     a \<leftarrow> rd8 bs 0; b \<leftarrow> rd8 bs 1;
     if is_mz a b then rd32 bs ENEWHDR else Some 0 }"

lemma rd8_take: "i < n \<Longrightarrow> rd8 (take n bs) i = rd8 bs i"
  by (auto simp: rd8_def)

lemma rd16_take: "i + 1 < n \<Longrightarrow> rd16 (take n bs) i = rd16 bs i"
  by (simp add: rd16_def rd8_take)

lemma rd32_take: "i + 3 < n \<Longrightarrow> rd32 (take n bs) i = rd32 bs i"
  by (simp add: rd32_def rd16_take)

lemma rd8_nth: "rd8 bs i = Some b \<Longrightarrow> i < length bs \<and> bs ! i = b"
  by (auto simp: rd8_def split: if_splits)

lemma rd32_length: "rd32 bs i = Some w \<Longrightarrow> i + 4 \<le> length bs"
  by (auto simp: rd32_def rd16_def bind_eq_Some_conv dest!: rd8_nth)

lemma rd8_in: "i < length bs \<Longrightarrow> rd8 bs i = Some (bs ! i)"
  by (simp add: rd8_def)

lemma rd16_in: "i + 2 \<le> length bs \<Longrightarrow> \<exists>w. rd16 bs i = Some w"
  by (simp add: rd16_def rd8_def)

lemma rd32_in: "i + 4 \<le> length bs \<Longrightarrow> \<exists>w. rd32 bs i = Some w"
  by (simp add: rd32_def rd16_def rd8_def)

definition get16 :: "u8 list \<Rightarrow> nat \<Rightarrow> u16" where "get16 bs i = the (rd16 bs i)"
definition get32 :: "u8 list \<Rightarrow> nat \<Rightarrow> u32" where "get32 bs i = the (rd32 bs i)"

lemma rd_get:
  "i + 2 \<le> length bs \<Longrightarrow> rd16 bs i = Some (get16 bs i)"
  "i + 4 \<le> length bs \<Longrightarrow> rd32 bs i = Some (get32 bs i)"
  using rd16_in [of i bs] rd32_in [of i bs] by (auto simp: get16_def get32_def)

lemma read_e32_exe_in: "176 \<le> length bs \<Longrightarrow> \<exists>h. read_e32_exe bs = Some h"
proof -
  assume l: "176 \<le> length bs"
  then have "rd8 bs 0 = Some (bs ! 0)" by (intro rd8_in) linarith
  with l show ?thesis unfolding read_e32_exe_def by (simp add: rd_get rd8_in)
qed

lemma sint_small:
  assumes "unat (w :: u32) < n" and "n < 2 ^ 31"
  shows "sint w = int (unat w)"
proof -
  have "uint w = int (unat w)" by (rule uint_nat)
  moreover have "int n < 2 ^ 31" using assms(2) by simp
  ultimately have "uint w < 2 ^ 31" using assms(1) by linarith
  then have "signed_take_bit 31 (uint w) = uint w"
    by (intro signed_take_bit_int_eq_self) (simp_all add: order.trans [OF _ uint_ge_0])
  then show ?thesis by (simp add: sint_uint)
qed

text \<open>The outcome of reading the header, when its offset lies in the file.\<close>

lemma fseek_set:
  "0 \<le> p \<Longrightarrow> p \<le> lx_stream_size lx \<Longrightarrow> snd (lx_fseek_stream lx p SEEK_SET) = lx\<lparr>lx_stream_pos := p\<rparr>"
  by (simp add: lx_fseek_stream_def)

text \<open>The signature that decides and the position of the header.\<close>

lemma LXLoadHeader_sig:
  assumes "length bs < 2 ^ 31" and "lx_header_offset bs = Some off" and "unat off + 2 \<le> length bs"
    and "lx = stream_module bs (int (length bs)) l"
  shows "\<exists>pos. LXLoadHeader lx =
     (if bs ! unat off = 0x4C \<and> bs ! (unat off + 1) = 0x58 then do {
        (b, lx') \<leftarrow> lx_fread_stream 196 1 (lx\<lparr>lx_stream_pos := int (unat off), offs_lx_head := int (unat off)\<rparr>);
        hdr \<leftarrow> read_e32_exe b;
        Some (True, lx'\<lparr>lx_head_e32_exe := hdr\<rparr>) }
      else Some (False, lx\<lparr>lx_stream_pos := pos, offs_lx_head := int (unat off)\<rparr>))"
proof -
  obtain a b where ab: "rd8 bs 0 = Some a" "rd8 bs 1 = Some b"
    and off: "(if is_mz a b then rd32 bs ENEWHDR else Some 0) = Some off"
    using assms(2) by (auto simp: lx_header_offset_def bind_eq_Some_conv)
  then have bs01: "a = bs ! 0" "b = bs ! 1" "1 < length bs" by (auto dest: rd8_nth)
  define k where "k = unat off"
  have so: "sint off = int k"
    unfolding k_def by (rule sint_small [OF _ assms(1)]) (use assms(3) in simp)
  have k: "k + 2 \<le> length bs" using assms(3) by (simp add: k_def)
  have f0: "lx_fread_stream 2 1 (snd (lx_fseek_stream lx 0 SEEK_SET)) = Some (take 2 bs, lx\<lparr>lx_stream_pos := 2\<rparr>)"
    using bs01(3) assms(4) by (simp add: fseek_set fread_one stream_module_def)
  have sig0: "take 2 bs ! 0 = a" "take 2 bs ! 1 = b" using bs01 by simp_all
  show ?thesis
  proof (cases "is_mz a b")
    case False
    with off have o0: "off = 0" by simp
    have eq: "LXLoadHeader lx = (if a = 0x4C \<and> b = 0x58 then do {
        (b, lx') \<leftarrow> lx_fread_stream 196 1 (snd (lx_fseek_stream (lx\<lparr>lx_stream_pos := 2, offs_lx_head := 0\<rparr>) 0 SEEK_SET));
        hdr \<leftarrow> read_e32_exe b;
        Some (True, lx'\<lparr>lx_head_e32_exe := hdr\<rparr>) }
      else Some (False, lx\<lparr>lx_stream_pos := 2, offs_lx_head := 0\<rparr>))"
      unfolding LXLoadHeader_def f0 e32_exe_size_def using False by (simp only: sig0 Option.bind.simps prod.case if_False Let_def) simp
    show ?thesis
      unfolding eq using bs01 assms(4)
      by (intro exI [of _ 2]) (simp add: o0 fseek_set stream_module_def)
  next
    case True
    with off have w: "rd32 bs ENEWHDR = Some off" by simp
    then have l: "ENEWHDR + 4 \<le> length bs" by (rule rd32_length)
    have f1: "lx_fread_stream 4 1 (snd (lx_fseek_stream (lx\<lparr>lx_stream_pos := 2\<rparr>) (int ENEWHDR) SEEK_SET))
        = Some (take 4 (drop ENEWHDR bs), lx\<lparr>lx_stream_pos := int ENEWHDR + 4\<rparr>)"
      using l assms(4) by (simp add: fseek_set fread_one stream_module_def)
    have r1: "rd32 (take 4 (drop ENEWHDR bs)) 0 = Some off"
      using w by (simp add: rd32_take rd32_drop)
    have f2: "lx_fread_stream 1 2 (snd (lx_fseek_stream (lx\<lparr>lx_stream_pos := int ENEWHDR + 4\<rparr>) (int k) SEEK_SET))
        = Some ([bs ! k, bs ! (k + 1)], lx\<lparr>lx_stream_pos := int (k) + 2\<rparr>)"
      using k assms(4)
      by (simp add: fseek_set stream_module_def numeral_2_eq_2 nat_add_distrib take_Suc_conv_app_nth)
    have eq: "LXLoadHeader lx = (let lx = lx\<lparr>lx_stream_pos := int (k) + 2, offs_lx_head := int (k)\<rparr> in
       if bs ! k = 0x4C \<and> bs ! (k + 1) = 0x58 then do {
        (b, lx') \<leftarrow> lx_fread_stream 196 1 (snd (lx_fseek_stream lx (int (k)) SEEK_SET));
        hdr \<leftarrow> read_e32_exe b;
        Some (True, lx'\<lparr>lx_head_e32_exe := hdr\<rparr>) }
      else Some (False, lx))"
    proof -
      have u: "(if int k = 0 then lx\<lparr>lx_stream_pos := p, offs_lx_head := int k\<rparr>\<lparr>offs_lx_head := 0\<rparr>
          else lx\<lparr>lx_stream_pos := p, offs_lx_head := int k\<rparr>) = lx\<lparr>lx_stream_pos := p, offs_lx_head := int k\<rparr>" for p
        by simp
      have s2: "[x, y] ! 0 = x" "[x, y] ! 1 = y" for x y :: u8 by simp_all
      show ?thesis
        unfolding LXLoadHeader_def f0 e32_exe_size_def using True
        by (simp only: sig0 Option.bind.simps prod.case if_True f1 r1 f2 so Let_def u s2)
    qed
    show ?thesis
      unfolding eq k_def [symmetric] using k assms(4)
      by (intro exI [of _ "int (k) + 2"]) (auto simp: fseek_set stream_module_def Let_def)
  qed
qed

lemma LXIdentify_off:
  assumes "lx_header_offset bs = Some off" and "unat off + 2 \<le> length bs"
  shows "LXIdentify bs = Some (if bs ! unat off = 0x4C \<and> bs ! (unat off + 1) = 0x58 then NO_ERROR
     else ERROR_BAD_FORMAT)"
proof -
  obtain a b where ab: "rd8 bs 0 = Some a" "rd8 bs 1 = Some b"
    and off: "(if is_mz a b then rd32 bs ENEWHDR else Some 0) = Some off"
    using assms(1) by (auto simp: lx_header_offset_def bind_eq_Some_conv)
  have "is_mz a b \<Longrightarrow> a = 0x4D \<or> a = 0x5A" by (auto simp: is_mz_def)
  then have "LXIdentify bs = do {
       c \<leftarrow> rd8 bs (unat off);
       if c = 0x4C then do { d \<leftarrow> rd8 bs (unat off + 1);
         Some (if d = 0x58 then NO_ERROR else ERROR_BAD_FORMAT) }
       else Some ERROR_BAD_FORMAT }"
    using ab off by (cases "is_mz a b") (auto simp: LXIdentify_def)
  then show ?thesis using assms(2) by (simp add: rd8_in)
qed

lemma LXLoadHeader_result:
  assumes "length bs < 2 ^ 31" and "lx_header_offset bs = Some off" and "unat off + 196 \<le> length bs"
    and "bs ! unat off = 0x4C" and "bs ! (unat off + 1) = 0x58"
    and "lx = stream_module bs (int (length bs)) l"
  shows "\<exists>hdr. read_e32_exe (take 196 (drop (unat off) bs)) = Some hdr \<and>
     LXLoadHeader lx = Some (True, lx\<lparr>lx_stream_pos := int (unat off) + 196,
       offs_lx_head := int (unat off), lx_head_e32_exe := hdr\<rparr>)"
proof -
  define k where "k = unat off"
  have k: "k + 196 \<le> length bs" using assms(3) by (simp add: k_def)
  obtain hdr where h: "read_e32_exe (take 196 (drop k bs)) = Some hdr"
    using read_e32_exe_in [of "take 196 (drop k bs)"] k by auto
  have f: "lx_fread_stream 196 1 (lx\<lparr>lx_stream_pos := int k, offs_lx_head := int k\<rparr>)
      = Some (take 196 (drop k bs), lx\<lparr>lx_stream_pos := int k + 196, offs_lx_head := int k\<rparr>)"
    unfolding fread_one using k assms(6) by (simp add: stream_module_def)
  have "LXLoadHeader lx = do {
        (b, lx') \<leftarrow> lx_fread_stream 196 1 (lx\<lparr>lx_stream_pos := int k, offs_lx_head := int k\<rparr>);
        hdr \<leftarrow> read_e32_exe b;
        Some (True, lx'\<lparr>lx_head_e32_exe := hdr\<rparr>) }"
    using LXLoadHeader_sig [OF assms(1,2) _ assms(6)] assms(3-5) by (auto simp: k_def)
  also have "\<dots> = Some (True, lx\<lparr>lx_stream_pos := int k + 196, offs_lx_head := int k, lx_head_e32_exe := hdr\<rparr>)"
    by (simp only: f h Option.bind.simps prod.case)
  finally show ?thesis using h by (simp only: k_def) blast
qed

text \<open>The format test and the header reader agree: on a file of less than 2 GiB with room for a
  header at the offset its stub gives (\<open>MZ\<close> or \<open>ZM\<close> stubs through \<open>0x3C\<close>, offset 0 without a stub),
  both return, \<open>LXLoadHeader\<close> succeeds exactly when \<open>LXIdentify\<close> reports no error, and then the header
  it stores is the one at that offset.\<close>

theorem identify_iff_header:
  assumes "length bs < 2 ^ 31" and "lx_header_offset bs = Some off" and "unat off + 196 \<le> length bs"
  shows "\<exists>rc ok lx'. LXIdentify bs = Some rc
     \<and> LXLoadHeader (stream_module bs (int (length bs)) l) = Some (ok, lx') \<and> (ok \<longleftrightarrow> rc = NO_ERROR)
     \<and> (ok \<longrightarrow> offs_lx_head lx' = int (unat off)
         \<and> read_e32_exe (take 196 (drop (unat off) bs)) = Some (lx_head_e32_exe lx'))"
proof (cases "bs ! unat off = 0x4C \<and> bs ! (unat off + 1) = 0x58")
  case True
  then show ?thesis
    using LXIdentify_off [OF assms(2)] LXLoadHeader_result [OF assms _ _ refl, of l] assms(3) by auto
next
  case False
  then show ?thesis
    using LXIdentify_off [OF assms(2)] LXLoadHeader_sig [OF assms(1,2) _ refl, of l] assms(3) by auto
qed

theorem identify_iff_header_witness:
  "\<exists>rc ok lx'. LXIdentify ([0x4C, 0x58] @ replicate 194 0) = Some rc
     \<and> LXLoadHeader (stream_module ([0x4C, 0x58] @ replicate 194 0) 196 lx0) = Some (ok, lx')
     \<and> (ok \<longleftrightarrow> rc = 0)
     \<and> (ok \<longrightarrow> offs_lx_head lx' = 0
         \<and> read_e32_exe ([0x4C, 0x58] @ replicate 194 0) = Some (lx_head_e32_exe lx'))"
proof -
  have "lx_header_offset ([0x4C, 0x58] @ replicate 194 0) = Some 0"
    by (simp add: lx_header_offset_def rd8_def is_mz_def)
  from identify_iff_header [OF _ this, of lx0] show ?thesis by simp
qed

section \<open>The sections\<close>

text \<open>What \<open>LXLoadStream\<close> loads: the loader section is the \<open>e32_ldrsize\<close> bytes at the object table's
  offset from the LX header, and the fixup section is whatever follows it in the file: the code does
  not look at \<open>e32_fpagetab\<close>, so the sections are right when the fixup page table directly follows the
  loader section.\<close>

theorem LXLoadStream_sections:
  assumes "length bs < 2 ^ 31" and "lx_header_offset bs = Some off" and "unat off + 196 \<le> length bs"
    and "bs ! unat off = 0x4C" and "bs ! (unat off + 1) = 0x58"
    and "read_e32_exe (take 196 (drop (unat off) bs)) = Some h"
    and "p = unat off + unat (e32_objtab h)"
    and "p + unat (e32_ldrsize h) + unat (e32_fixupsize h) \<le> length bs"
  shows "\<exists>lx. LXLoadStream bs (int (length bs)) l = Some (Some lx) \<and> lx_head_e32_exe lx = h
     \<and> loader_section lx = take (unat (e32_ldrsize h)) (drop p bs)
     \<and> fixup_section lx = take (unat (e32_fixupsize h)) (drop (p + unat (e32_ldrsize h)) bs)
     \<and> offs_lx_head lx = int (unat off) \<and> lx_file_stream lx = bs"
proof -
  let ?lx = "stream_module bs (int (length bs)) l"
  let ?lx1 = "?lx\<lparr>lx_stream_pos := int (unat off) + 196, offs_lx_head := int (unat off), lx_head_e32_exe := h\<rparr>"
  let ?lx2 = "?lx1\<lparr>lx_stream_pos := int p + int (unat (e32_ldrsize h)),
      loader_section := take (unat (e32_ldrsize h)) (drop p bs)\<rparr>"
  have hd: "LXLoadHeader ?lx = Some (True, ?lx1)"
    using LXLoadHeader_result [OF assms(1-5) refl, of l] assms(6) by auto
  have "of_int (int (unat off)) + e32_objtab h = (of_nat p :: u32)" by (simp add: assms(7))
  moreover have "sint (of_nat p :: u32) = int p"
    by (rule sint_of_nat32) (use assms(1,8) in linarith)
  ultimately have pos: "sint (of_int (offs_lx_head ?lx1) + e32_objtab h) = int p" by simp
  have ldr: "LXLoadLoaderSection ?lx1 = Some ?lx2"
  proof -
    have "snd (lx_fseek_stream ?lx1 (int p) SEEK_SET) = ?lx1\<lparr>lx_stream_pos := int p\<rparr>"
      by (rule fseek_set) (use assms(8) in \<open>simp_all add: stream_module_def\<close>)
    moreover have "lx_fread_stream (unat (e32_ldrsize h)) 1 (?lx1\<lparr>lx_stream_pos := int p\<rparr>)
        = Some (take (unat (e32_ldrsize h)) (drop p bs), ?lx1\<lparr>lx_stream_pos := int p + int (unat (e32_ldrsize h))\<rparr>)"
      unfolding fread_one using assms(8) by (simp add: stream_module_def)
    moreover have "lx_head_e32_exe ?lx1 = h" by simp
    ultimately show ?thesis
      by (simp only: LXLoadLoaderSection_def Let_def pos Option.bind.simps prod.case)
  qed
  have "LXLoadFixupSection ?lx2 = Some (?lx2\<lparr>lx_stream_pos := int p + int (unat (e32_ldrsize h)) + int (unat (e32_fixupsize h)),
      fixup_section := take (unat (e32_fixupsize h)) (drop (p + unat (e32_ldrsize h)) bs)\<rparr>)"
    unfolding LXLoadFixupSection_def fread_one using assms(8) by (simp add: stream_module_def nat_add_distrib)
  with hd ldr show ?thesis by (simp add: LXLoadStream_def stream_module_def)
qed

theorem LXLoadStream_sections_witness:
  "\<exists>lx h. LXLoadStream ([0x4C, 0x58] @ replicate 198 0) 200 lx0 = Some (Some lx)
     \<and> lx_head_e32_exe lx = h \<and> read_e32_exe ([0x4C, 0x58] @ replicate 194 0) = Some h
     \<and> loader_section lx = take (unat (e32_ldrsize h)) (drop (unat (e32_objtab h)) ([0x4C, 0x58] @ replicate 198 0))"
proof -
  let ?bs = "[0x4C, 0x58] @ replicate 198 (0 :: u8)"
  have off: "lx_header_offset ?bs = Some 0"
    by (simp add: lx_header_offset_def rd8_def is_mz_def)
  have "take 196 ?bs = [0x4C, 0x58] @ replicate 194 0" by simp
  moreover obtain h where h: "read_e32_exe ([0x4C, 0x58] @ replicate 194 0) = Some h"
    and z: "e32_objtab h = 0" "e32_ldrsize h = 0" "e32_fixupsize h = 0"
    unfolding read_e32_exe_def
    by (simp add: rd32_def rd16_def rd8_def nth_append)
  ultimately show ?thesis
    using LXLoadStream_sections [OF _ off, of h 0 lx0] by auto
qed

end
