(* ===== verification/LxEntries.thy ===== *)
theory LxEntries
  imports LxLoad
begin

text \<open>
  Conversion of the entry table of an LX module into the loader's common format
  (\<open>convert_entry_table_to_BFF\<close> of \<^verbatim>\<open>lib/ixf/lx/lx.c\<close>): a counting pass over the bundles, the
  allocation, and a filling pass. A table position is the list of bytes from there to the end of the
  loader section. \<open>cbEntries\<close> is 32 bits wide; the array has as many elements as fit in the bytes
  that were asked for, and a store behind it gives no value.
\<close>

section \<open>The common format\<close>

record IXFMODULEENTRY =
  FunctionName :: "string option"
  Address :: u32
  ModuleName :: "string option"
  Ordinal :: int

text \<open>Contents of fresh memory; every element is written before it is read.\<close>

definition entry0 :: IXFMODULEENTRY where
  "entry0 = \<lparr>FunctionName = None, Address = 0, ModuleName = None, Ordinal = 0\<rparr>"

definition sizeof_entry :: nat where
  "sizeof_entry = 16"

text \<open>\<open>malloc(n * sizeof(...))\<close> for elements of \<open>sz\<close> bytes: the product is computed in 32 bits.\<close>

definition array_capacity :: "u32 \<Rightarrow> nat \<Rightarrow> nat" where
  "array_capacity n sz = unat (n * of_nat sz) div sz"

definition array_set :: "'a list \<Rightarrow> nat \<Rightarrow> 'a \<Rightarrow> 'a list option" where
  "array_set arr i x = (if i < length arr then Some (arr[i := x]) else None)"

section \<open>Bundles\<close>

abbreviation (input) EMPTY :: u8 where "EMPTY \<equiv> 0"
abbreviation (input) ENTRY32 :: u8 where "ENTRY32 \<equiv> 3"
abbreviation (input) ENTRYFWD :: u8 where "ENTRYFWD \<equiv> 4"

abbreviation (input) UNUSED_ENTRY_SIZE :: nat where "UNUSED_ENTRY_SIZE \<equiv> 2"
abbreviation (input) ENTRY_HEADER_SIZE :: nat where "ENTRY_HEADER_SIZE \<equiv> 4"
abbreviation (input) ENTRY_SIZE_32BIT :: nat where "ENTRY_SIZE_32BIT \<equiv> 5"
abbreviation (input) FORWARD_ENTRY_SIZE :: nat where "FORWARD_ENTRY_SIZE \<equiv> 7"

lemma rd8_0_Some [termination_simp]: "rd8 tbl 0 = Some b \<Longrightarrow> 0 < length tbl"
  by (auto simp: rd8_def split: if_splits)

text \<open>The counting pass: the return code and \<open>cbEntries\<close>.\<close>

function count_entries :: "u8 list \<Rightarrow> u32 \<Rightarrow> (u32 \<times> u32) option" where
  "count_entries tbl cb = do {
     cnt \<leftarrow> rd8 tbl 0;
     if cnt = 0 then Some (0, cb)
     else do {
       ty \<leftarrow> rd8 tbl 1;
       if ty = EMPTY then count_entries (drop UNUSED_ENTRY_SIZE tbl) (cb + ucast cnt)
       else if ty = ENTRY32
       then count_entries (drop (ENTRY_HEADER_SIZE + ENTRY_SIZE_32BIT * unat cnt) tbl) (cb + ucast cnt)
       else if ty = ENTRYFWD
       then count_entries (drop (ENTRY_HEADER_SIZE + FORWARD_ENTRY_SIZE * unat cnt) tbl) (cb + ucast cnt)
       else Some (1, cb) } }"
  by auto
termination
  by (relation "measure (\<lambda>(tbl, cb). length tbl)") (auto dest!: rd8_0_Some)

text \<open>The loop over a bundle of 32-bit entries; \<open>i\<close> is the 1-based index of the next element.\<close>

fun fill_32 ::
  "LX_module \<Rightarrow> int \<Rightarrow> nat \<Rightarrow> u8 list \<Rightarrow> nat \<Rightarrow> IXFMODULEENTRY list \<Rightarrow> IXFMODULEENTRY list option" where
  "fill_32 lx obj 0 p i arr = Some arr"
| "fill_32 lx obj (Suc n) p i arr = do {
     off \<leftarrow> rd32 p 1;
     ob \<leftarrow> get_obj lx obj;
     arr \<leftarrow> array_set arr (i - 1)
       \<lparr>FunctionName = None, Address = off + o32_base ob, ModuleName = None, Ordinal = 0\<rparr>;
     fill_32 lx obj n (drop ENTRY_SIZE_32BIT p) (i + 1) arr }"

text \<open>The loop over a bundle of forwarders.\<close>

fun fill_fwd ::
  "LX_module \<Rightarrow> nat \<Rightarrow> u8 list \<Rightarrow> nat \<Rightarrow> IXFMODULEENTRY list \<Rightarrow> IXFMODULEENTRY list option" where
  "fill_fwd lx 0 p i arr = Some arr"
| "fill_fwd lx (Suc n) p i arr = do {
     modord \<leftarrow> rd16 p 1;
     val \<leftarrow> rd32 p 3;
     nm \<leftarrow> get_imp_mod_name_cstr lx (uint modord);
     arr \<leftarrow> array_set arr (i - 1)
       \<lparr>FunctionName = None, Address = 0, ModuleName = Some nm, Ordinal = sint val\<rparr>;
     fill_fwd lx n (drop FORWARD_ENTRY_SIZE p) (i + 1) arr }"

text \<open>The loop over an unused bundle.\<close>

fun fill_empty :: "nat \<Rightarrow> nat \<Rightarrow> IXFMODULEENTRY list \<Rightarrow> IXFMODULEENTRY list option" where
  "fill_empty 0 i arr = Some arr"
| "fill_empty (Suc n) i arr = do {
     arr \<leftarrow> array_set arr (i - 1) \<lparr>FunctionName = None, Address = 0, ModuleName = None, Ordinal = 0\<rparr>;
     fill_empty n (i + 1) arr }"

text \<open>
  The filling pass; \<open>cb\<close> counts from 1 and is decremented at the end of the table. A bundle of an
  unknown type returns 0 with \<open>cb\<close> as it is.
\<close>

function fill_entries ::
  "LX_module \<Rightarrow> u8 list \<Rightarrow> nat \<Rightarrow> IXFMODULEENTRY list \<Rightarrow> (nat \<times> IXFMODULEENTRY list) option" where
  "fill_entries lx tbl cb arr = do {
     cnt \<leftarrow> rd8 tbl 0;
     if cnt = 0 then Some (cb - 1, arr)
     else do {
       ty \<leftarrow> rd8 tbl 1;
       if ty = EMPTY then do {
         arr \<leftarrow> fill_empty (unat cnt) cb arr;
         fill_entries lx (drop UNUSED_ENTRY_SIZE tbl) (cb + unat cnt) arr }
       else if ty = ENTRY32 then do {
         obj \<leftarrow> rd16 tbl 2;
         arr \<leftarrow> fill_32 lx (uint obj) (unat cnt) (drop ENTRY_HEADER_SIZE tbl) cb arr;
         fill_entries lx (drop (ENTRY_HEADER_SIZE + ENTRY_SIZE_32BIT * unat cnt) tbl) (cb + unat cnt) arr }
       else if ty = ENTRYFWD then do {
         arr \<leftarrow> fill_fwd lx (unat cnt) (drop ENTRY_HEADER_SIZE tbl) cb arr;
         fill_entries lx (drop (ENTRY_HEADER_SIZE + FORWARD_ENTRY_SIZE * unat cnt) tbl) (cb + unat cnt) arr }
       else Some (cb, arr) } }"
  by auto
termination
  by (relation "measure (\<lambda>(lx, tbl, cb, arr). length tbl)") (auto dest!: rd8_0_Some)

declare count_entries.simps [simp del] fill_entries.simps [simp del]

text \<open>The table in the loader section.\<close>

definition entry_table :: "LX_module \<Rightarrow> u8 list option" where
  "entry_table lx =
     (let offs = sint (e32_enttab (lx_head_e32_exe lx) - e32_objtab (lx_head_e32_exe lx)) in
      if 0 \<le> offs then Some (drop (nat offs) (loader_section lx)) else None)"

text \<open>The return code, \<open>cbEntries\<close> and \<open>Entries\<close>.\<close>

definition convert_entry_table_to_BFF :: "LX_module \<Rightarrow> (u32 \<times> u32 \<times> IXFMODULEENTRY list) option" where
  "convert_entry_table_to_BFF lx = do {
     tbl \<leftarrow> entry_table lx;
     (rc, cb) \<leftarrow> count_entries tbl 0;
     if rc \<noteq> 0 then Some (rc, cb, [])
     else do {
       (cb', arr) \<leftarrow> fill_entries lx tbl 1 (replicate (array_capacity cb sizeof_entry) entry0);
       Some (0, of_nat cb', arr) } }"

section \<open>The layout of the table\<close>

text \<open>A bundle: unused ordinals, 32-bit entries of an object, or forwarders.\<close>

datatype ebundle = BEmpty nat | B32 u16 "(u8 \<times> u32) list" | BFwd u16 "(u8 \<times> u16 \<times> u32) list"

fun bundle_count :: "ebundle \<Rightarrow> nat" where
  "bundle_count (BEmpty n) = n"
| "bundle_count (B32 ob es) = length es"
| "bundle_count (BFwd rs es) = length es"

definition bundle_ok :: "ebundle \<Rightarrow> bool" where
  "bundle_ok b \<longleftrightarrow> 1 \<le> bundle_count b \<and> bundle_count b \<le> 255"

definition enc_32 :: "(u8 \<times> u32) list \<Rightarrow> u8 list" where
  "enc_32 es = concat (map (\<lambda>(fl, off). fl # le32 off) es)"

definition enc_fwd :: "(u8 \<times> u16 \<times> u32) list \<Rightarrow> u8 list" where
  "enc_fwd es = concat (map (\<lambda>(fl, m, v). fl # le16 m @ le32 v) es)"

fun enc_bundle :: "ebundle \<Rightarrow> u8 list" where
  "enc_bundle (BEmpty n) = [of_nat n, EMPTY]"
| "enc_bundle (B32 ob es) = [of_nat (length es), ENTRY32] @ le16 ob @ enc_32 es"
| "enc_bundle (BFwd rs es) = [of_nat (length es), ENTRYFWD] @ le16 rs @ enc_fwd es"

text \<open>The entries a bundle stands for: addresses relocated by the object's base, forwarders with the
  name of the module they point to.\<close>

definition fwd_entry :: "LX_module \<Rightarrow> u8 \<times> u16 \<times> u32 \<Rightarrow> IXFMODULEENTRY option" where
  "fwd_entry lx e = (case e of (fl, m, v) \<Rightarrow> do {
     nm \<leftarrow> get_imp_mod_name_cstr lx (uint m);
     Some \<lparr>FunctionName = None, Address = 0, ModuleName = Some nm, Ordinal = sint v\<rparr> })"

fun bundle_entries :: "LX_module \<Rightarrow> ebundle \<Rightarrow> IXFMODULEENTRY list option" where
  "bundle_entries lx (BEmpty n) = Some (replicate n entry0)"
| "bundle_entries lx (B32 ob es) = do {
     obj \<leftarrow> get_obj lx (uint ob);
     Some (map (\<lambda>(fl, off). \<lparr>FunctionName = None, Address = off + o32_base obj, ModuleName = None,
       Ordinal = 0\<rparr>) es) }"
| "bundle_entries lx (BFwd rs es) = those (map (fwd_entry lx) es)"

definition table_entries :: "LX_module \<Rightarrow> ebundle list \<Rightarrow> IXFMODULEENTRY list option" where
  "table_entries lx bs = map_option concat (those (map (bundle_entries lx) bs))"

lemma those_Cons: "those (x # xs) = Some ys \<longleftrightarrow> (\<exists>z zs. x = Some z \<and> those xs = Some zs \<and> ys = z # zs)"
  by (auto split: option.splits)

lemma those_length: "those xs = Some ys \<Longrightarrow> length ys = length xs"
  by (induction xs arbitrary: ys) (auto split: option.splits)

lemma bundle_entries_length: "bundle_entries lx b = Some es \<Longrightarrow> length es = bundle_count b"
  by (cases b) (auto simp: bind_eq_Some_conv dest: those_length)

lemma array_set_mid: "array_set (pre @ x # post) (length pre) e = Some (pre @ e # post)"
  by (simp add: array_set_def)

lemma fill_empty_eq:
  "n \<le> length post \<Longrightarrow> fill_empty n (length pre + 1) (pre @ post) = Some (pre @ replicate n entry0 @ drop n post)"
proof (induction n arbitrary: pre post)
  case (Suc n)
  then obtain x p where "post = x # p" by (cases post) auto
  with Suc.IH [of p "pre @ [entry0]"] Suc.prems show ?case
    by (simp add: array_set_mid entry0_def)
qed simp

lemma fill_32_eq:
  assumes "get_obj lx ob = Some obj" and "length es \<le> length post"
  shows "fill_32 lx ob (length es) (enc_32 es @ r) (length pre + 1) (pre @ post) = Some (pre @
     map (\<lambda>(fl, off). \<lparr>FunctionName = None, Address = off + o32_base obj, ModuleName = None, Ordinal = 0\<rparr>) es
     @ drop (length es) post)"
  using assms(2)
proof (induction es arbitrary: pre post)
  case (Cons e es)
  obtain fl off where e: "e = (fl, off)" by fastforce
  obtain x p where post: "post = x # p" using Cons.prems by (cases post) auto
  have "rd32 (fl # le32 off @ enc_32 es @ r) 1 = Some off"
    by (simp add: rd32_Suc rd32_le32)
  moreover have "drop 5 (fl # le32 off @ enc_32 es @ r) = enc_32 es @ r" by simp
  ultimately show ?case
    using Cons.IH [of p "pre @ [\<lparr>FunctionName = None, Address = off + o32_base obj, ModuleName = None, Ordinal = 0\<rparr>]"]
      Cons.prems assms(1)
    by (simp add: e post enc_32_def array_set_mid)
qed simp

lemma fill_fwd_eq:
  assumes "those (map (fwd_entry lx) es) = Some xs" and "length es \<le> length post"
  shows "fill_fwd lx (length es) (enc_fwd es @ r) (length pre + 1) (pre @ post) = Some (pre @ xs @ drop (length es) post)"
  using assms
proof (induction es arbitrary: pre post xs)
  case (Cons e es)
  obtain fl m v where e: "e = (fl, m, v)" by (cases e) auto
  obtain x p where post: "post = x # p" using Cons.prems by (cases post) auto
  obtain y ys where y: "fwd_entry lx e = Some y" "those (map (fwd_entry lx) es) = Some ys" "xs = y # ys"
    using Cons.prems(1) by (auto simp: those_Cons simp del: those.simps)
  obtain nm where nm: "get_imp_mod_name_cstr lx (uint m) = Some nm"
    and y': "y = \<lparr>FunctionName = None, Address = 0, ModuleName = Some nm, Ordinal = sint v\<rparr>"
    using y(1) by (auto simp: fwd_entry_def e bind_eq_Some_conv)
  have "rd16 (fl # le16 m @ le32 v @ enc_fwd es @ r) 1 = Some m"
    by (simp add: rd16_Suc rd16_le16)
  moreover have "rd32 ((fl # le16 m) @ le32 v @ enc_fwd es @ r) (length (fl # le16 m) + 0) = Some v"
    by (simp only: rd32_skip rd32_le32)
  moreover have "drop 7 (fl # le16 m @ le32 v @ enc_fwd es @ r) = enc_fwd es @ r" by simp
  ultimately show ?case
    using Cons.IH [of ys p "pre @ [y]"] Cons.prems(2) y nm y'
    by (simp add: e post enc_fwd_def array_set_mid)
qed simp

section \<open>Both passes over an encoded table\<close>

lemma count_byte:
  assumes "1 \<le> n" and "n \<le> 255"
  shows "(of_nat n :: u8) \<noteq> 0" and "unat (of_nat n :: u8) = n" and "(ucast (of_nat n :: u8) :: u32) = of_nat n"
proof -
  show u: "unat (of_nat n :: u8) = n" using assms by (simp add: unat_of_nat)
  then show "(of_nat n :: u8) \<noteq> 0" using assms(1) by (metis not_one_le_zero unat_0)
  show "(ucast (of_nat n :: u8) :: u32) = of_nat n"
    by (metis u of_nat_unat)
qed

lemma length_enc_entries:
  "length (enc_32 es) = 5 * length es" "length (enc_fwd fs) = 7 * length fs"
  by (induction es; simp add: enc_32_def case_prod_beta) (induction fs; simp add: enc_fwd_def case_prod_beta)

lemma drop_bundle [simp]:
  "drop (4 + 5 * length es) (a # b # le16 ob @ enc_32 es @ r) = r"
  "drop (4 + 7 * length fs) (a # b # le16 ob @ enc_fwd fs @ r) = r"
proof -
  have "length (a # b # le16 ob @ enc_32 es) = 4 + 5 * length es"
    and "length (a # b # le16 ob @ enc_fwd fs) = 4 + 7 * length fs"
    by (simp_all add: length_enc_entries)
  then show "drop (4 + 5 * length es) (a # b # le16 ob @ enc_32 es @ r) = r"
    and "drop (4 + 7 * length fs) (a # b # le16 ob @ enc_fwd fs @ r) = r"
    by (metis append_Cons append_assoc append_eq_conv_conj)+
qed

lemma enc_bundle_head:
  assumes "tbl = enc_bundle b @ r"
  shows "rd8 tbl 0 = Some (of_nat (bundle_count b))"
    and "rd8 tbl 1 = Some (case b of BEmpty n \<Rightarrow> EMPTY | B32 ob es \<Rightarrow> ENTRY32 | BFwd rs es \<Rightarrow> ENTRYFWD)"
  using assms by (cases b; simp add: rd8_def)+

lemma count_bundle:
  assumes "bundle_ok b"
  shows "count_entries (enc_bundle b @ r) cb = count_entries r (cb + of_nat (bundle_count b))"
proof -
  note n = count_byte [OF assms [unfolded bundle_ok_def, THEN conjunct1] assms [unfolded bundle_ok_def, THEN conjunct2]]
  show ?thesis
    unfolding count_entries.simps [of "enc_bundle b @ r"] enc_bundle_head [OF refl] Option.bind.simps
    using n by (cases b) (simp_all add: length_enc_entries)
qed

lemma fill_bundle:
  assumes "bundle_ok b" and "bundle_entries lx b = Some es" and "length es \<le> length post"
  shows "fill_entries lx (enc_bundle b @ r) (length pre + 1) (pre @ post)
     = fill_entries lx r (length (pre @ es) + 1) ((pre @ es) @ drop (length es) post)"
proof -
  note n = count_byte [OF assms(1) [unfolded bundle_ok_def, THEN conjunct1] assms(1) [unfolded bundle_ok_def, THEN conjunct2]]
  have l: "length es = bundle_count b" by (rule bundle_entries_length [OF assms(2)])
  show ?thesis
  proof (cases b)
    case (BEmpty k)
    then show ?thesis
      using n l assms(2,3) fill_empty_eq [of k post pre]
      by (subst fill_entries.simps) (simp add: rd8_def)
  next
    case (B32 ob fs)
    then obtain obj where obj: "get_obj lx (uint ob) = Some obj"
      using assms(2) by (auto simp: bind_eq_Some_conv)
    have "rd16 (enc_bundle b @ r) 2 = Some ob"
      using rd16_skip [of "[of_nat (length fs), ENTRY32]" "le16 ob @ enc_32 fs @ r" 0] B32
      by (simp add: rd16_le16 numeral_2_eq_2)
    then show ?thesis
      using B32 n l assms(2,3) obj fill_32_eq [OF obj, of fs post r pre]
      by (subst fill_entries.simps) (simp add: rd8_def length_enc_entries)
  next
    case (BFwd rs fs)
    then show ?thesis
      using n l assms(2,3) fill_fwd_eq [of lx fs es post r pre]
      by (subst fill_entries.simps) (simp add: rd8_def length_enc_entries)
  qed
qed

lemma count_table:
  "list_all bundle_ok bs \<Longrightarrow> count_entries (concat (map enc_bundle bs) @ 0 # r) cb
     = Some (0, cb + of_nat (sum_list (map bundle_count bs)))"
proof (induction bs arbitrary: cb)
  case Nil
  show ?case by (subst count_entries.simps) (simp add: rd8_def)
next
  case (Cons b bs)
  then show ?case by (simp add: count_bundle add.assoc)
qed

lemma fill_table:
  assumes "list_all bundle_ok bs" and "those (map (bundle_entries lx) bs) = Some ess"
    and "length (concat ess) \<le> length post"
  shows "fill_entries lx (concat (map enc_bundle bs) @ 0 # r) (length pre + 1) (pre @ post)
     = Some (length (pre @ concat ess), pre @ concat ess @ drop (length (concat ess)) post)"
  using assms
proof (induction bs arbitrary: pre post ess)
  case Nil
  then show ?case by (subst fill_entries.simps) (simp add: rd8_def)
next
  case (Cons b bs)
  obtain es ess' where e: "bundle_entries lx b = Some es" "those (map (bundle_entries lx) bs) = Some ess'"
      "ess = es # ess'"
    using Cons.prems(2) by (auto simp: those_Cons simp del: those.simps)
  have "fill_entries lx (concat (map enc_bundle (b # bs)) @ 0 # r) (length pre + 1) (pre @ post)
      = fill_entries lx (concat (map enc_bundle bs) @ 0 # r) (length (pre @ es) + 1) ((pre @ es) @ drop (length es) post)"
    using fill_bundle [of b lx es post "concat (map enc_bundle bs) @ 0 # r" pre] Cons.prems e by simp
  also have "\<dots> = Some (length ((pre @ es) @ concat ess'),
      (pre @ es) @ concat ess' @ drop (length (concat ess')) (drop (length es) post))"
    by (rule Cons.IH) (use Cons.prems e in auto)
  finally show ?case using e by (simp add: add.commute)
qed

lemma table_entries_count:
  assumes "those (map (bundle_entries lx) bs) = Some ess"
  shows "sum_list (map bundle_count bs) = length (concat ess)"
  using assms
proof (induction bs arbitrary: ess)
  case (Cons b bs)
  then show ?case
    by (auto simp: those_Cons bundle_entries_length simp del: those.simps)
qed simp

text \<open>C8: The entry table: for every table of bundles (unused ordinals, 32-bit entries, forwarders;
  fewer than 2^28 entries) the conversion returns success, the number of entries, and exactly the
  entries of the bundles in ordinal order; the array allocated from the counting pass has room for
  every store of the filling pass.\<close>

theorem entry_table_roundtrip:
  assumes "entry_table lx = Some (concat (map enc_bundle bs) @ 0 # r)" and "list_all bundle_ok bs"
    and "table_entries lx bs = Some es" and "length es < 2 ^ 28"
  shows "convert_entry_table_to_BFF lx = Some (0, of_nat (length es), es)"
proof -
  obtain ess where ess: "those (map (bundle_entries lx) bs) = Some ess" and es: "es = concat ess"
    using assms(3) by (auto simp: table_entries_def)
  have cnt: "count_entries (concat (map enc_bundle bs) @ 0 # r) 0 = Some (0, of_nat (length es))"
    using count_table [OF assms(2), of r 0] table_entries_count [OF ess] es by simp
  have "unat (of_nat (length es * sizeof_entry) :: u32) = length es * sizeof_entry"
    by (rule unat_of_nat32) (use assms(4) in \<open>simp add: sizeof_entry_def\<close>)
  then have "unat (of_nat (length es) * of_nat sizeof_entry :: u32) = length es * sizeof_entry"
    by (simp only: of_nat_mult)
  then have cap: "array_capacity (of_nat (length es)) sizeof_entry = length es"
    by (simp add: array_capacity_def sizeof_entry_def)
  have "fill_entries lx (concat (map enc_bundle bs) @ 0 # r) 1 (replicate (length es) entry0) = Some (length es, es)"
    using fill_table [OF assms(2) ess, of "replicate (length es) entry0" r "[]"] es by simp
  then show ?thesis
    by (simp add: convert_entry_table_to_BFF_def assms(1) cnt cap)
qed

definition sample_module :: LX_module where
  "sample_module = lx0\<lparr>lx_head_e32_exe := e32_exe0\<lparr>e32_enttab := 24\<rparr>,
     loader_section := concat (map le32 [0x1000, 0x10000, 0, 0, 0, 0])
       @ concat (map enc_bundle [B32 1 [(3, 0x100)], BEmpty 1]) @ [0]\<rparr>"

theorem entry_table_roundtrip_witness:
  "convert_entry_table_to_BFF sample_module
     = Some (0, 2, [\<lparr>FunctionName = None, Address = 0x10100, ModuleName = None, Ordinal = 0\<rparr>, entry0])"
proof -
  let ?bs = "[B32 1 [(3, 0x100)], BEmpty 1]"
  let ?es = "[\<lparr>FunctionName = None, Address = 0x10100, ModuleName = None, Ordinal = 0\<rparr>, entry0]"
  have t: "entry_table sample_module = Some (concat (map enc_bundle ?bs) @ 0 # [])"
    by (simp add: entry_table_def sample_module_def e32_exe0_def)
  have "get_obj sample_module 1 = Some \<lparr>o32_size = 0x1000, o32_base = 0x10000, o32_flags = 0,
      o32_pagemap = 0, o32_mapsize = 0, o32_reserved = 0\<rparr>"
    by (simp add: get_obj_def sample_module_def read_o32_obj_def rd32_def rd16_def rd8_def le32_def)
  then have e: "table_entries sample_module ?bs = Some ?es"
    by (simp add: table_entries_def)
  have ok: "list_all bundle_ok ?bs" by (simp add: bundle_ok_def)
  from entry_table_roundtrip [OF t ok e] show ?thesis by simp
qed

end
