(* ===== verification/LxImports.thy ===== *)
theory LxImports
  imports LxEntries
begin

text \<open>
  Conversion of the import fixups of an LX module into the loader's common format
  (\<open>calc_imp_fixup_obj_lx\<close>, \<open>convert_imp_fixup_obj_lx\<close> and \<open>convert_fixup_table_to_BFF\<close> of
  \<^verbatim>\<open>lib/ixf/lx/lx.c\<close>): a counting pass over the fixup records of every page of every object, the
  allocation, and a filling pass. The reference is the list of the records of a page.
\<close>

section \<open>Operations\<close>

record IXFFIXUPENTRY =
  SrcAddress :: u32
  SrcVmAddress :: u32
  ImportEntry :: IXFMODULEENTRY

definition fixup0 :: IXFFIXUPENTRY where
  "fixup0 = \<lparr>SrcAddress = 0, SrcVmAddress = 0, ImportEntry = entry0\<rparr>"

definition sizeof_fixup :: nat where
  "sizeof_fixup = 24"

lemma reloc_size_pos [termination_simp]: "get_reloc_size_rlc rlc = Some sz \<Longrightarrow> 0 < sz"
  using reloc_size_range by fastforce

text \<open>
  The loop over the records of a page when counting; \<open>Inl\<close> is an early return of the function.
\<close>

function calc_page :: "LX_module \<Rightarrow> int \<Rightarrow> int \<Rightarrow> u32 \<Rightarrow> (u32 + u32) option" where
  "calc_page lx fixup_offset pg_end fixups =
     (if fixup_offset < pg_end then do {
        rlc \<leftarrow> get_fixup_rec_tbl_obj lx fixup_offset;
        fl \<leftarrow> nr_flags rlc;
        sz \<leftarrow> get_reloc_size_rlc rlc;
        let ty = fl AND NRRTYP;
        if ty = NRRINT \<or> ty = NRRENT then calc_page lx (fixup_offset + int sz) pg_end fixups
        else if ty = NRRORD then calc_page lx (fixup_offset + int sz) pg_end (fixups + 1)
        else if ty = NRRNAM then calc_page lx (fixup_offset + int sz) pg_end (fixups + 1)
        else Some (Inl 0) }
      else Some (Inr fixups))"
  by auto
termination
  by (relation "measure (\<lambda>(lx, off, e, n). nat (e - off))") (auto dest!: reloc_size_pos)

text \<open>The loop over the pages.\<close>

fun calc_pages :: "LX_module \<Rightarrow> int list \<Rightarrow> u32 \<Rightarrow> u32 option" where
  "calc_pages lx [] fixups = Some fixups"
| "calc_pages lx (page_nr # pages) fixups = do {
     pg_offs_fix \<leftarrow> get_fixup_pg_tbl_offs lx page_nr;
     pg_end_offs_fix \<leftarrow> get_fixup_pg_tbl_offs lx (page_nr + 1);
     r \<leftarrow> calc_page lx pg_offs_fix pg_end_offs_fix fixups;
     case r of Inl rc \<Rightarrow> Some rc | Inr fixups \<Rightarrow> calc_pages lx pages fixups }"

text \<open>The pages of an object: \<open>page_nr\<close> from \<open>startpage\<close> to \<open>lastpage - 1\<close>.\<close>

definition obj_pages :: "o32_obj \<Rightarrow> int list" where
  "obj_pages obj = [sint (o32_pagemap obj)..sint (o32_pagemap obj + o32_mapsize obj) - 1]"

definition calc_imp_fixup_obj_lx :: "LX_module \<Rightarrow> o32_obj \<Rightarrow> u32 option" where
  "calc_imp_fixup_obj_lx lx obj = calc_pages lx (obj_pages obj) 0"

text \<open>The address of a page in an address space where the object starts at \<open>base\<close>.\<close>

definition page_address :: "LX_module \<Rightarrow> o32_obj \<Rightarrow> u32 \<Rightarrow> int \<Rightarrow> u32" where
  "page_address lx obj base page_nr = base + get_e32_pagesize lx * (of_int page_nr - o32_pagemap obj)"

text \<open>The element written for an import by ordinal and for an import by name.\<close>

definition import_ord_fixup :: "LX_module \<Rightarrow> o32_obj \<Rightarrow> int \<Rightarrow> u8 list \<Rightarrow> IXFFIXUPENTRY option" where
  "import_ord_fixup lx obj page_nr rlc = do {
     mod_nr \<leftarrow> get_mod_ord1_rlc rlc;
     import_ord \<leftarrow> get_imp_ord1_rlc rlc;
     srcoff_cnt1 \<leftarrow> get_srcoff_cnt1_rlc rlc;
     mod_name \<leftarrow> get_imp_mod_name_cstr lx mod_nr;
     Some \<lparr>SrcAddress = page_address lx obj (o32_base obj) page_nr + of_int srcoff_cnt1,
       SrcVmAddress = page_address lx obj (o32_reserved obj) page_nr + of_int srcoff_cnt1,
       ImportEntry = \<lparr>FunctionName = None, Address = 0, ModuleName = Some mod_name,
         Ordinal = import_ord\<rparr>\<rparr> }"

definition import_name_fixup :: "LX_module \<Rightarrow> o32_obj \<Rightarrow> int \<Rightarrow> u8 list \<Rightarrow> IXFFIXUPENTRY option" where
  "import_name_fixup lx obj page_nr rlc = do {
     mod_nr \<leftarrow> get_mod_ord1_rlc rlc;
     import_name_offs \<leftarrow> get_imp_ord1_rlc rlc;
     srcoff_cnt1 \<leftarrow> get_srcoff_cnt1_rlc rlc;
     p \<leftarrow> get_imp_proc_name lx import_name_offs;
     import_name \<leftarrow> copy_pas_str (fixup_section lx) p;
     mod_name \<leftarrow> get_imp_mod_name_cstr lx mod_nr;
     Some \<lparr>SrcAddress = page_address lx obj (o32_base obj) page_nr + of_int srcoff_cnt1,
       SrcVmAddress = page_address lx obj (o32_reserved obj) page_nr + of_int srcoff_cnt1,
       ImportEntry = \<lparr>FunctionName = Some (cstr import_name), Address = 0, ModuleName = Some mod_name,
         Ordinal = 0\<rparr>\<rparr> }"

text \<open>The loop over the records of a page when filling: the fixup counter and the array.\<close>

function conv_page ::
  "LX_module \<Rightarrow> o32_obj \<Rightarrow> int \<Rightarrow> int \<Rightarrow> int \<Rightarrow> nat \<Rightarrow> IXFFIXUPENTRY list
     \<Rightarrow> (int + nat \<times> IXFFIXUPENTRY list) option" where
  "conv_page lx obj page_nr fixup_offset pg_end k arr =
     (if fixup_offset < pg_end then do {
        rlc \<leftarrow> get_fixup_rec_tbl_obj lx fixup_offset;
        fl \<leftarrow> nr_flags rlc;
        sz \<leftarrow> get_reloc_size_rlc rlc;
        let ty = fl AND NRRTYP;
        if ty = NRRINT \<or> ty = NRRENT then conv_page lx obj page_nr (fixup_offset + int sz) pg_end k arr
        else if ty = NRRORD then do {
          x \<leftarrow> import_ord_fixup lx obj page_nr rlc;
          arr \<leftarrow> array_set arr k x;
          conv_page lx obj page_nr (fixup_offset + int sz) pg_end (k + 1) arr }
        else if ty = NRRNAM then do {
          x \<leftarrow> import_name_fixup lx obj page_nr rlc;
          arr \<leftarrow> array_set arr k x;
          conv_page lx obj page_nr (fixup_offset + int sz) pg_end (k + 1) arr }
        else Some (Inl 0) }
      else Some (Inr (k, arr)))"
  by auto
termination
  by (relation "measure (\<lambda>(lx, obj, p, off, e, k, arr). nat (e - off))") (auto dest!: reloc_size_pos)

declare calc_page.simps [simp del] conv_page.simps [simp del]

fun conv_pages ::
  "LX_module \<Rightarrow> o32_obj \<Rightarrow> int list \<Rightarrow> nat \<Rightarrow> IXFFIXUPENTRY list
     \<Rightarrow> (nat \<times> IXFFIXUPENTRY list) option" where
  "conv_pages lx obj [] k arr = Some (k, arr)"
| "conv_pages lx obj (page_nr # pages) k arr = do {
     pg_offs_fix \<leftarrow> get_fixup_pg_tbl_offs lx page_nr;
     pg_end_offs_fix \<leftarrow> get_fixup_pg_tbl_offs lx (page_nr + 1);
     r \<leftarrow> conv_page lx obj page_nr pg_offs_fix pg_end_offs_fix k arr;
     case r of Inl rc \<Rightarrow> Some (k, arr) | Inr (k, arr) \<Rightarrow> conv_pages lx obj pages k arr }"

definition convert_imp_fixup_obj_lx ::
  "LX_module \<Rightarrow> o32_obj \<Rightarrow> nat \<Rightarrow> IXFFIXUPENTRY list \<Rightarrow> (nat \<times> IXFFIXUPENTRY list) option" where
  "convert_imp_fixup_obj_lx lx obj k arr = conv_pages lx obj (obj_pages obj) k arr"

text \<open>The two loops over the objects.\<close>

fun calc_objects :: "LX_module \<Rightarrow> int list \<Rightarrow> u32 \<Rightarrow> u32 option" where
  "calc_objects lx [] cbFixups = Some cbFixups"
| "calc_objects lx (i # is) cbFixups = do {
     obj \<leftarrow> get_obj lx i;
     n \<leftarrow> calc_imp_fixup_obj_lx lx obj;
     calc_objects lx is (cbFixups + n) }"

fun conv_objects ::
  "LX_module \<Rightarrow> int list \<Rightarrow> nat \<Rightarrow> IXFFIXUPENTRY list \<Rightarrow> (nat \<times> IXFFIXUPENTRY list) option" where
  "conv_objects lx [] k arr = Some (k, arr)"
| "conv_objects lx (i # is) k arr = do {
     obj \<leftarrow> get_obj lx i;
     (k, arr) \<leftarrow> convert_imp_fixup_obj_lx lx obj k arr;
     conv_objects lx is k arr }"

definition lx_objects :: "LX_module \<Rightarrow> int list" where
  "lx_objects lx = [1..uint (get_obj_num lx)]"

text \<open>\<open>cbFixups\<close> and \<open>Fixups\<close>; the return code is always 0.\<close>

definition convert_fixup_table_to_BFF :: "LX_module \<Rightarrow> (u32 \<times> IXFFIXUPENTRY list) option" where
  "convert_fixup_table_to_BFF lx = do {
     cbFixups \<leftarrow> calc_objects lx (lx_objects lx) 0;
     if cbFixups = 0 then Some (0, [])
     else do {
       (k, arr) \<leftarrow> conv_objects lx (lx_objects lx) 0 (replicate (array_capacity cbFixups sizeof_fixup) fixup0);
       Some (cbFixups, arr) } }"

section \<open>The reference\<close>

text \<open>The records of a page, in order.\<close>

function page_recs :: "LX_module \<Rightarrow> int \<Rightarrow> int \<Rightarrow> u8 list list option" where
  "page_recs lx off pg_end =
     (if off < pg_end then do {
        rlc \<leftarrow> get_fixup_rec_tbl_obj lx off;
        sz \<leftarrow> get_reloc_size_rlc rlc;
        rs \<leftarrow> page_recs lx (off + int sz) pg_end;
        Some (rlc # rs) }
      else Some [])"
  by auto
termination
  by (relation "measure (\<lambda>(lx, off, e). nat (e - off))") (auto dest!: reloc_size_pos)

declare page_recs.simps [simp del]

definition rec_type :: "u8 list \<Rightarrow> u8" where
  "rec_type rlc = the (nr_flags rlc) AND NRRTYP"

definition is_import :: "u8 list \<Rightarrow> bool" where
  "is_import rlc \<longleftrightarrow> rec_type rlc = NRRORD \<or> rec_type rlc = NRRNAM"

text \<open>The element of one import record, the elements of a page, of an object and of the module.\<close>

definition import_fixup :: "LX_module \<Rightarrow> o32_obj \<Rightarrow> int \<Rightarrow> u8 list \<Rightarrow> IXFFIXUPENTRY option" where
  "import_fixup lx obj page rlc = (if rec_type rlc = NRRORD then import_ord_fixup lx obj page rlc
     else import_name_fixup lx obj page rlc)"

definition page_imports :: "LX_module \<Rightarrow> o32_obj \<Rightarrow> int \<Rightarrow> IXFFIXUPENTRY list option" where
  "page_imports lx obj page = do {
     a \<leftarrow> get_fixup_pg_tbl_offs lx page;
     b \<leftarrow> get_fixup_pg_tbl_offs lx (page + 1);
     rs \<leftarrow> page_recs lx a b;
     those (map (import_fixup lx obj page) (filter is_import rs)) }"

definition obj_imports :: "LX_module \<Rightarrow> int \<Rightarrow> IXFFIXUPENTRY list option" where
  "obj_imports lx i = do {
     obj \<leftarrow> get_obj lx i;
     map_option concat (those (map (page_imports lx obj) (obj_pages obj))) }"

definition module_imports :: "LX_module \<Rightarrow> IXFFIXUPENTRY list option" where
  "module_imports lx = map_option concat (those (map (obj_imports lx) (lx_objects lx)))"

section \<open>Both passes meet the reference\<close>

lemma reloc_size_flags: "get_reloc_size_rlc rlc = Some sz \<Longrightarrow> \<exists>fl. nr_flags rlc = Some fl"
  by (auto simp: get_reloc_size_rlc_def bind_eq_Some_conv)

lemma page_recs_step:
  assumes "off < e" and "page_recs lx off e = Some rs"
  obtains rlc sz fl rs' where "get_fixup_rec_tbl_obj lx off = Some rlc" "get_reloc_size_rlc rlc = Some sz"
    "nr_flags rlc = Some fl" "page_recs lx (off + int sz) e = Some rs'" "rs = rlc # rs'"
    "rec_type rlc = fl AND NRRTYP"
  using assms reloc_size_flags
  by (subst (asm) page_recs.simps) (fastforce simp: bind_eq_Some_conv rec_type_def)

lemma calc_page_recs:
  assumes "page_recs lx off e = Some rs"
  shows "calc_page lx off e n = Some (Inr (n + of_nat (length (filter is_import rs))))"
  using assms
proof (induction lx off e arbitrary: n rs rule: page_recs.induct)
  case (1 lx off e)
  show ?case
  proof (cases "off < e")
    case False
    with 1 show ?thesis by (simp add: page_recs.simps [of lx off e] calc_page.simps [of lx off e])
  next
    case True
    obtain rlc sz fl rs' where r: "get_fixup_rec_tbl_obj lx off = Some rlc" "get_reloc_size_rlc rlc = Some sz"
      "nr_flags rlc = Some fl" "page_recs lx (off + int sz) e = Some rs'" "rs = rlc # rs'"
      "rec_type rlc = fl AND NRRTYP"
      by (rule page_recs_step [OF True 1(2)])
    have IH: "calc_page lx (off + int sz) e m = Some (Inr (m + of_nat (length (filter is_import rs'))))" for m
      by (rule 1(1) [OF True r(1,2,4)])
    show ?thesis
      using and_3_cases [of fl] True r IH
      by (subst calc_page.simps) (auto simp: is_import_def)
  qed
qed

lemma conv_page_recs:
  assumes "page_recs lx off e = Some rs"
    and "those (map (import_fixup lx obj page) (filter is_import rs)) = Some es"
    and "length es \<le> length post"
  shows "conv_page lx obj page off e (length pre) (pre @ post)
     = Some (Inr (length (pre @ es), pre @ es @ drop (length es) post))"
  using assms
proof (induction lx off e arbitrary: rs es pre post rule: page_recs.induct)
  case (1 lx off e)
  show ?case
  proof (cases "off < e")
    case False
    with 1 show ?thesis
      by (simp add: page_recs.simps [of lx off e] conv_page.simps [of lx obj page off e])
  next
    case True
    obtain rlc sz fl rs' where r: "get_fixup_rec_tbl_obj lx off = Some rlc" "get_reloc_size_rlc rlc = Some sz"
      "nr_flags rlc = Some fl" "page_recs lx (off + int sz) e = Some rs'" "rs = rlc # rs'"
      "rec_type rlc = fl AND NRRTYP"
      by (rule page_recs_step [OF True 1(2)])
    note IH = 1(1) [OF True r(1,2,4)]
    show ?thesis
    proof (cases "is_import rlc")
      case False
      then have t: "fl AND NRRTYP = NRRINT \<or> fl AND NRRTYP = NRRENT"
        using and_3_cases [of fl] r(6) by (auto simp: is_import_def)
      have "conv_page lx obj page (off + int sz) e (length pre) (pre @ post)
          = Some (Inr (length (pre @ es), pre @ es @ drop (length es) post))"
        by (rule IH) (use 1(3,4) r(5) False in auto)
      with True r t show ?thesis by (subst conv_page.simps) auto
    next
      case True': True
      obtain x xs where x: "import_fixup lx obj page rlc = Some x"
        "those (map (import_fixup lx obj page) (filter is_import rs')) = Some xs" "es = x # xs"
        using 1(3) r(5) True' by (auto simp: those_Cons simp del: those.simps)
      obtain y post' where post: "post = y # post'" using 1(4) x(3) by (cases post) auto
      have "conv_page lx obj page (off + int sz) e (length (pre @ [x])) ((pre @ [x]) @ post')
          = Some (Inr (length ((pre @ [x]) @ xs), (pre @ [x]) @ xs @ drop (length xs) post'))"
        by (rule IH) (use 1(4) x post in auto)
      moreover have "fl AND NRRTYP = NRRORD \<or> fl AND NRRTYP = NRRNAM"
        using True' r(6) by (auto simp: is_import_def)
      ultimately show ?thesis
        using True r x post array_set_mid [of pre y post' x]
        by (subst conv_page.simps) (auto simp: import_fixup_def)
    qed
  qed
qed

lemma calc_pages_imports:
  assumes "those (map (page_imports lx obj) pages) = Some ess"
  shows "calc_pages lx pages n = Some (n + of_nat (length (concat ess)))"
  using assms
proof (induction pages arbitrary: n ess)
  case (Cons p ps)
  obtain es ess' where e: "page_imports lx obj p = Some es" "those (map (page_imports lx obj) ps) = Some ess'"
      "ess = es # ess'"
    using Cons.prems by (auto simp: those_Cons simp del: those.simps)
  obtain a b rs where "get_fixup_pg_tbl_offs lx p = Some a" "get_fixup_pg_tbl_offs lx (p + 1) = Some b"
      "page_recs lx a b = Some rs" and t: "those (map (import_fixup lx obj p) (filter is_import rs)) = Some es"
    using e(1) by (auto simp: page_imports_def bind_eq_Some_conv)
  with calc_page_recs [of lx a b rs n] Cons.IH [OF e(2)] those_length [OF t] e(3) show ?case
    by (simp add: add.assoc)
qed simp

lemma conv_pages_imports:
  assumes "those (map (page_imports lx obj) pages) = Some ess" and "length (concat ess) \<le> length post"
  shows "conv_pages lx obj pages (length pre) (pre @ post)
     = Some (length (pre @ concat ess), pre @ concat ess @ drop (length (concat ess)) post)"
  using assms
proof (induction pages arbitrary: pre post ess)
  case (Cons p ps)
  obtain es ess' where e: "page_imports lx obj p = Some es" "those (map (page_imports lx obj) ps) = Some ess'"
      "ess = es # ess'"
    using Cons.prems by (auto simp: those_Cons simp del: those.simps)
  obtain a b rs where r: "get_fixup_pg_tbl_offs lx p = Some a" "get_fixup_pg_tbl_offs lx (p + 1) = Some b"
      "page_recs lx a b = Some rs" and t: "those (map (import_fixup lx obj p) (filter is_import rs)) = Some es"
    using e(1) by (auto simp: page_imports_def bind_eq_Some_conv)
  have c: "conv_page lx obj p a b (length pre) (pre @ post)
      = Some (Inr (length (pre @ es), (pre @ es) @ drop (length es) post))"
    using conv_page_recs [OF r(3) t, of post pre] Cons.prems(2) e(3) by simp
  have "conv_pages lx obj ps (length (pre @ es)) ((pre @ es) @ drop (length es) post)
      = Some (length ((pre @ es) @ concat ess'),
          (pre @ es) @ concat ess' @ drop (length (concat ess')) (drop (length es) post))"
    by (rule Cons.IH) (use Cons.prems(2) e in auto)
  with c r e(3) show ?case by (simp add: add.commute)
qed simp

lemma calc_objects_imports:
  assumes "those (map (obj_imports lx) is) = Some ess"
  shows "calc_objects lx is n = Some (n + of_nat (length (concat ess)))"
  using assms
proof (induction "is" arbitrary: n ess)
  case (Cons i iss)
  obtain es ess' where e: "obj_imports lx i = Some es" "those (map (obj_imports lx) iss) = Some ess'"
      "ess = es # ess'"
    using Cons.prems by (auto simp: those_Cons simp del: those.simps)
  then obtain obj where "get_obj lx i = Some obj" "calc_imp_fixup_obj_lx lx obj = Some (of_nat (length es))"
    using calc_pages_imports [where n = 0]
    by (fastforce simp: obj_imports_def calc_imp_fixup_obj_lx_def bind_eq_Some_conv)
  with Cons.IH [OF e(2)] e(3) show ?case by (simp add: add.assoc)
qed simp

lemma conv_objects_imports:
  assumes "those (map (obj_imports lx) is) = Some ess" and "length (concat ess) \<le> length post"
  shows "conv_objects lx is (length pre) (pre @ post)
     = Some (length (pre @ concat ess), pre @ concat ess @ drop (length (concat ess)) post)"
  using assms
proof (induction "is" arbitrary: pre post ess)
  case (Cons i iss)
  obtain es ess' where e: "obj_imports lx i = Some es" "those (map (obj_imports lx) iss) = Some ess'"
      "ess = es # ess'"
    using Cons.prems by (auto simp: those_Cons simp del: those.simps)
  obtain obj pss where o: "get_obj lx i = Some obj" "those (map (page_imports lx obj) (obj_pages obj)) = Some pss"
      "es = concat pss"
    using e(1) by (auto simp: obj_imports_def bind_eq_Some_conv)
  have c: "convert_imp_fixup_obj_lx lx obj (length pre) (pre @ post)
      = Some (length (pre @ es), (pre @ es) @ drop (length es) post)"
    using conv_pages_imports [OF o(2), of post pre] Cons.prems(2) e(3) o(3)
    by (simp add: convert_imp_fixup_obj_lx_def)
  have "conv_objects lx iss (length (pre @ es)) ((pre @ es) @ drop (length es) post)
      = Some (length ((pre @ es) @ concat ess'),
          (pre @ es) @ concat ess' @ drop (length (concat ess')) (drop (length es) post))"
    by (rule Cons.IH) (use Cons.prems(2) e in auto)
  with c o(1) e(3) show ?case by (simp add: add.commute)
qed simp

lemma capacity_exact:
  assumes "0 < sz" and "n * sz < 2 ^ 32"
  shows "array_capacity (of_nat n) sz = n"
proof -
  have "unat (of_nat (n * sz) :: u32) = n * sz" using assms(2) by (rule unat_of_nat32)
  then show ?thesis using assms(1) by (simp add: array_capacity_def)
qed

text \<open>C7: Import fixups: when the records of all pages can be read, the conversion yields exactly one
  element per import record, in the order of objects, pages and records, with the addresses, names
  and ordinals the reference gives; the array allocated from the counting pass (fewer than 2^32
  bytes) has room for every store of the filling pass.\<close>

theorem import_fixups_converted:
  assumes "module_imports lx = Some es" and "length es * sizeof_fixup < 2 ^ 32"
  shows "convert_fixup_table_to_BFF lx = Some (of_nat (length es), es)"
proof -
  obtain ess where ess: "those (map (obj_imports lx) (lx_objects lx)) = Some ess" and es: "es = concat ess"
    using assms(1) by (auto simp: module_imports_def)
  have cnt: "calc_objects lx (lx_objects lx) 0 = Some (of_nat (length es))"
    using calc_objects_imports [OF ess, of 0] es by simp
  have cap: "array_capacity (of_nat (length es)) sizeof_fixup = length es"
    by (rule capacity_exact) (use assms(2) in \<open>simp_all add: sizeof_fixup_def\<close>)
  have conv: "conv_objects lx (lx_objects lx) 0 (replicate (length es) fixup0) = Some (length es, es)"
    using conv_objects_imports [OF ess, of "replicate (length es) fixup0" "[]"] es by simp
  have u: "unat (of_nat (length es) :: u32) = length es"
    by (rule unat_of_nat32) (use assms(2) in \<open>simp add: sizeof_fixup_def\<close>)
  have "of_nat (length es) = (0 :: u32) \<longleftrightarrow> es = []"
  proof
    assume "of_nat (length es) = (0 :: u32)"
    with u have "length es = unat (0 :: u32)" by (simp only:)
    then show "es = []" by simp
  qed simp
  then show ?thesis
    by (simp add: convert_fixup_table_to_BFF_def cnt cap conv)
qed

text \<open>A module with one object of one page and one import by ordinal.\<close>

definition import_sample :: LX_module where
  "import_sample = lx0\<lparr>
     lx_head_e32_exe := e32_exe0\<lparr>e32_objcnt := 1, e32_pagesize := 0x1000, e32_frectab := 8,
       e32_impmod := 15, e32_impmodcnt := 1\<rparr>,
     loader_section := concat (map le32 [0x1000, 0x10000, 0, 1, 1, 0x20000]),
     fixup_section := le32 0 @ le32 7 @ enc_fixup 0x07 0x01 8 1 57 0 [] @ pas ''A'' @ [0]\<rparr>"

definition import_sample_fixup :: IXFFIXUPENTRY where
  "import_sample_fixup = \<lparr>SrcAddress = 0x10008, SrcVmAddress = 0x20008,
     ImportEntry = \<lparr>FunctionName = None, Address = 0, ModuleName = Some ''A'', Ordinal = 57\<rparr>\<rparr>"

lemma import_sample_obj:
  "get_obj import_sample 1 = Some \<lparr>o32_size = 0x1000, o32_base = 0x10000, o32_flags = 0,
     o32_pagemap = 1, o32_mapsize = 1, o32_reserved = 0x20000\<rparr>"
  by (simp add: get_obj_def import_sample_def read_o32_obj_def rd32_def rd16_def rd8_def le32_def)

lemma import_sample_section:
  "fixup_section import_sample = [0, 0, 0, 0, 7, 0, 0, 0, 7, 1, 8, 0, 1, 57, 0, 1, 65, 0]"
  by (simp add: import_sample_def enc_fixup_def enc_src_def enc_mod_def enc_tgt_def enc_add_def
      enc_srcs_def le32_def le16_def pas_def u8_of_char_def)

lemma import_sample_head:
  "e32_frectab (lx_head_e32_exe import_sample) = 8" "e32_fpagetab (lx_head_e32_exe import_sample) = 0"
  "e32_impmod (lx_head_e32_exe import_sample) = 15"
  by (simp_all add: import_sample_def e32_exe0_def)

lemma import_sample_recs:
  "page_recs import_sample 0 7 = Some [[7, 1, 8, 0, 1, 57, 0, 1, 65, 0]]"
proof -
  have r: "get_fixup_rec_tbl_obj import_sample 0 = Some [7, 1, 8, 0, 1, 57, 0, 1, 65, 0]"
    by (simp add: get_fixup_rec_tbl_obj_def import_sample_section import_sample_head)
  have "get_reloc_size_rlc [7, 1, 8, 0, 1, 57, 0, 1, 65, 0] = Some 7"
    by (simp add: get_reloc_size_rlc_def field_size_defs rd8_def)
  with r show ?thesis
    by (subst page_recs.simps) (simp add: page_recs.simps [of import_sample 7])
qed

lemma import_sample_name: "get_imp_mod_name_cstr import_sample 1 = Some ''A''"
proof -
  have p: "get_imp_mod_name import_sample 1 = Some 15"
    by (simp add: get_imp_mod_name_def import_sample_section import_sample_head)
  show ?thesis
    by (simp add: get_imp_mod_name_cstr_def p copy_pas_str_def import_sample_section rd8i_def rd8_def
        char_of_u8_def cstr_def) (simp add: cstr_simps)
qed

lemma import_sample_imports: "module_imports import_sample = Some [import_sample_fixup]"
proof -
  have pg: "get_fixup_pg_tbl_offs import_sample 1 = Some 0" "get_fixup_pg_tbl_offs import_sample 2 = Some 7"
    by (simp_all add: get_fixup_pg_tbl_offs_def rd32i_def rd32_def rd16_def rd8_def import_sample_section)
  have ps: "get_e32_pagesize import_sample = 0x1000" by (simp add: get_e32_pagesize_def import_sample_def)
  have n: "lx_objects import_sample = [1]"
    by (simp add: lx_objects_def get_obj_num_def import_sample_def)
  have t: "rec_type [7, 1, 8, 0, 1, 57, 0, 1, 65, 0] = 1" by (simp add: rec_type_def nr_flags_def rd8_def)
  have "import_ord_fixup import_sample \<lparr>o32_size = 0x1000, o32_base = 0x10000, o32_flags = 0,
     o32_pagemap = 1, o32_mapsize = 1, o32_reserved = 0x20000\<rparr> 1 [7, 1, 8, 0, 1, 57, 0, 1, 65, 0]
      = Some import_sample_fixup"
    by (simp add: import_ord_fixup_def get_mod_ord1_rlc_def get_imp_ord1_rlc_def get_srcoff_cnt1_rlc_def
        field_size_defs rd16_def rd8_def import_sample_name page_address_def ps import_sample_fixup_def)
  then show ?thesis
    by (simp add: module_imports_def n obj_imports_def import_sample_obj obj_pages_def page_imports_def
        pg import_sample_recs is_import_def import_fixup_def t)
qed

theorem import_fixups_converted_witness:
  "convert_fixup_table_to_BFF import_sample = Some (1, [import_sample_fixup])"
  using import_fixups_converted [OF import_sample_imports] by (simp add: sizeof_fixup_def)

end
