(* ===== verification/MemMgr.thy ===== *)
theory MemMgr
  imports OsPrelude
begin

text \<open>
  The registry of allocated address ranges (\<^verbatim>\<open>lib/memmgr/memmgr.c\<close>). The linked list of areas is a
  list whose head is the root node that the caller owns; addresses and sizes are 32 bits wide and
  sums wrap. Deallocation is a stub in the source.
\<close>

section \<open>Operations\<close>

record t_mem_area =
  area_start :: u32
  area_size :: u32

type_synonym mem_list = "t_mem_area list"

definition init_memmgr :: mem_list where
  "init_memmgr = [\<lparr>area_start = 0, area_size = 0\<rparr>]"

abbreviation (input) page_sz :: u32 where "page_sz \<equiv> 4096"

definition round_up_to_4KiB :: "u32 \<Rightarrow> u32" where
  "round_up_to_4KiB i = (let align_i = i mod page_sz in if align_i \<noteq> 0 then i + (page_sz - align_i) else i)"

text \<open>The two conditions of \<open>is_mem_used\<close> and \<open>seek_free_mem\<close>.\<close>

definition touches :: "t_mem_area \<Rightarrow> u32 \<Rightarrow> u32 \<Rightarrow> bool" where
  "touches el i_start i_size \<longleftrightarrow>
     (i_start \<ge> area_start el \<and> i_start \<le> area_size el + area_start el)
     \<or> (i_size + i_start \<ge> area_start el \<and> i_size + i_start \<le> area_size el + area_start el)"

definition covers :: "t_mem_area \<Rightarrow> u32 \<Rightarrow> u32 \<Rightarrow> bool" where
  "covers el i_start i_size \<longleftrightarrow>
     i_start \<le> area_start el \<and> i_size + i_start \<ge> area_size el + area_start el"

text \<open>One visit of \<open>seek_free_mem\<close>: both tests look at the position before the visit.\<close>

definition seek_step :: "u32 \<Rightarrow> t_mem_area \<Rightarrow> u32 \<Rightarrow> u32" where
  "seek_step i_size el start_pos =
     start_pos + (if touches el start_pos i_size then area_size el + area_start el else 0)
       + (if covers el start_pos i_size then area_size el + area_start el else 0)"

text \<open>The nodes behind the root, then the last node once more.\<close>

definition seek_free_mem :: "mem_list \<Rightarrow> u32 \<Rightarrow> u32" where
  "seek_free_mem areas i_size = (let sz = round_up_to_4KiB i_size in
     round_up_to_4KiB (seek_step sz (last areas) (fold (seek_step sz) (tl areas) 0)))"

definition is_mem_used :: "mem_list \<Rightarrow> u32 \<Rightarrow> u32 \<Rightarrow> bool" where
  "is_mem_used areas p_start i_size \<longleftrightarrow>
     (\<exists>el\<in>set (tl areas). touches el p_start i_size \<or> covers el p_start i_size)
     \<or> touches (last areas) p_start i_size \<or> covers (last areas) p_start i_size"

text \<open>\<open>ok\<close> says whether \<open>malloc\<close> succeeds.\<close>

definition alloc_mem_area :: "bool \<Rightarrow> mem_list \<Rightarrow> u32 \<Rightarrow> u32 \<Rightarrow> bool \<times> mem_list" where
  "alloc_mem_area ok areas p_start i_size =
     (if is_mem_used areas p_start i_size then (False, areas)
      else if \<not> ok then (False, areas)
      else (True, areas @ [\<lparr>area_start = p_start, area_size = i_size\<rparr>]))"

definition dealloc_mem_area :: "mem_list \<Rightarrow> u32 \<Rightarrow> bool \<times> mem_list" where
  "dealloc_mem_area areas p_start = (False, areas)"

section \<open>Registries\<close>

text \<open>
  What a client of a registry of address ranges relies on: an allocation of a range in use is
  refused, one that succeeds is recorded, and a range that is not in use is apart from every recorded
  one. Any sequence of allocations then leaves the recorded ranges pairwise apart.
\<close>

definition apart :: "nat \<times> nat \<Rightarrow> nat \<times> nat \<Rightarrow> bool" where
  "apart r r' \<longleftrightarrow> fst r + snd r < fst r' \<or> fst r' + snd r' < fst r"

lemma apart_sym: "apart r r' \<Longrightarrow> apart r' r"
  by (auto simp: apart_def)

locale area_registry =
  fixes inv :: "'s \<Rightarrow> bool"
    and ranges :: "'s \<Rightarrow> (nat \<times> nat) list"
    and used :: "'s \<Rightarrow> u32 \<Rightarrow> u32 \<Rightarrow> bool"
    and alloc :: "bool \<Rightarrow> 's \<Rightarrow> u32 \<Rightarrow> u32 \<Rightarrow> bool \<times> 's"
  assumes alloc_refuses: "used s p n \<Longrightarrow> alloc ok s p n = (False, s)"
    and alloc_fails: "alloc ok s p n = (False, s') \<Longrightarrow> s' = s"
    and alloc_records: "inv s \<Longrightarrow> alloc ok s p n = (True, s') \<Longrightarrow> ranges s' = ranges s @ [(unat p, unat n)]"
    and alloc_inv: "inv s \<Longrightarrow> unat p + unat n < 2 ^ 32 \<Longrightarrow> inv (snd (alloc ok s p n))"
    and unused_apart: "inv s \<Longrightarrow> unat p + unat n < 2 ^ 32 \<Longrightarrow> \<not> used s p n \<Longrightarrow> r \<in> set (ranges s) \<Longrightarrow>
       apart (unat p, unat n) r"
begin

fun run :: "(bool \<times> u32 \<times> u32) list \<Rightarrow> 's \<Rightarrow> 's" where
  "run [] s = s"
| "run ((ok, p, n) # reqs) s = run reqs (snd (alloc ok s p n))"

lemma alloc_pairwise:
  assumes "inv s" and "unat p + unat n < 2 ^ 32" and "pairwise apart (set (ranges s))"
    and "distinct (ranges s)"
  shows "pairwise apart (set (ranges (snd (alloc ok s p n)))) \<and> distinct (ranges (snd (alloc ok s p n)))"
proof (cases "alloc ok s p n")
  case (Pair b s')
  show ?thesis
  proof (cases b)
    case True
    with Pair have r: "ranges s' = ranges s @ [(unat p, unat n)]" using alloc_records [OF assms(1)] by simp
    have "\<not> used s p n" using alloc_refuses Pair True by fastforce
    then have a: "apart (unat p, unat n) r" if "r \<in> set (ranges s)" for r
      using unused_apart assms(1,2) that by blast
    have "(unat p, unat n) \<notin> set (ranges s)" using a [of "(unat p, unat n)"] by (auto simp: apart_def)
    with a r Pair assms(3,4) show ?thesis
      by (auto simp: pairwise_insert intro: apart_sym)
  next
    case False
    with Pair have "s' = s" using alloc_fails [of ok s p n s'] by simp
    with Pair assms(3,4) show ?thesis by simp
  qed
qed

lemma run_pairwise:
  assumes "inv s" and "pairwise apart (set (ranges s))" and "distinct (ranges s)"
    and "list_all (\<lambda>(ok, p, n). unat p + unat n < 2 ^ 32) reqs"
  shows "pairwise apart (set (ranges (run reqs s))) \<and> distinct (ranges (run reqs s)) \<and> inv (run reqs s)"
  using assms
proof (induction reqs arbitrary: s)
  case (Cons q reqs)
  obtain ok p n where q: "q = (ok, p, n)" by (cases q) auto
  have small: "unat p + unat n < 2 ^ 32" using Cons.prems(4) q by simp
  from alloc_pairwise [OF Cons.prems(1) small Cons.prems(2,3)] alloc_inv [OF Cons.prems(1) small]
  have "pairwise apart (set (ranges (run reqs (snd (alloc ok s p n)))))
      \<and> distinct (ranges (run reqs (snd (alloc ok s p n)))) \<and> inv (run reqs (snd (alloc ok s p n)))"
    by (intro Cons.IH) (use Cons.prems(4) in auto)
  then show ?case using q by simp
qed simp

end

section \<open>The registry of the server\<close>

text \<open>The areas behind the root as ranges; none of them wraps around.\<close>

definition mem_ranges :: "mem_list \<Rightarrow> (nat \<times> nat) list" where
  "mem_ranges areas = map (\<lambda>a. (unat (area_start a), unat (area_size a))) (tl areas)"

definition mem_inv :: "mem_list \<Rightarrow> bool" where
  "mem_inv areas \<longleftrightarrow> areas \<noteq> [] \<and> list_all (\<lambda>a. unat (area_start a) + unat (area_size a) < 2 ^ 32) areas"

lemma unat_add_no_wrap: "unat (a :: u32) + unat b < 2 ^ 32 \<Longrightarrow> unat (a + b) = unat a + unat b"
  by (simp add: unat_word_ariths)

lemma untouched_apart:
  assumes "unat (area_start el) + unat (area_size el) < 2 ^ 32" and "unat p + unat n < 2 ^ 32"
  shows "touches el p n \<or> covers el p n \<longleftrightarrow> \<not> apart (unat p, unat n) (unat (area_start el), unat (area_size el))"
proof -
  have "unat (area_size el + area_start el) = unat (area_start el) + unat (area_size el)"
    and "unat (n + p) = unat p + unat n"
    using assms by (simp_all add: unat_add_no_wrap add.commute)
  then show ?thesis
    by (auto simp: touches_def covers_def apart_def word_le_nat_alt)
qed

lemma last_in_tl: "areas \<noteq> [] \<Longrightarrow> tl areas \<noteq> [] \<Longrightarrow> last areas \<in> set (tl areas)"
  by (cases areas) auto

interpretation mem: area_registry mem_inv mem_ranges is_mem_used alloc_mem_area
proof
  fix s p n r
  assume inv: "mem_inv s" and small: "unat p + unat n < 2 ^ 32" and free: "\<not> is_mem_used s p n"
    and r: "r \<in> set (mem_ranges s)"
  then obtain el where el: "el \<in> set (tl s)" "r = (unat (area_start el), unat (area_size el))"
    by (auto simp: mem_ranges_def)
  have "unat (area_start el) + unat (area_size el) < 2 ^ 32"
    using inv el(1) by (cases s) (auto simp: mem_inv_def list_all_iff)
  moreover have "\<not> (touches el p n \<or> covers el p n)" using free el(1) by (auto simp: is_mem_used_def)
  ultimately show "apart (unat p, unat n) r" using untouched_apart small el(2) by blast
qed (auto simp: alloc_mem_area_def mem_ranges_def mem_inv_def tl_append split: if_splits list.splits)

text \<open>A sequence of allocation requests, each with the outcome of its \<open>malloc\<close>.\<close>

fun alloc_all :: "(bool \<times> u32 \<times> u32) list \<Rightarrow> mem_list \<Rightarrow> mem_list" where
  "alloc_all [] areas = areas"
| "alloc_all ((ok, p, n) # reqs) areas = alloc_all reqs (snd (alloc_mem_area ok areas p n))"

lemma alloc_all_run: "alloc_all reqs areas = mem.run reqs areas"
  by (induction reqs areas rule: alloc_all.induct) auto

text \<open>C35: No two registered areas overlap or touch: from the initial registry, after any sequence of
  allocation requests that do not wrap around the address space, whether they succeed or not, the
  registered areas are pairwise apart.\<close>

theorem registered_areas_apart:
  assumes "list_all (\<lambda>(ok, p, n). unat p + unat n < 2 ^ 32) reqs"
  shows "pairwise apart (set (mem_ranges (alloc_all reqs init_memmgr)))
     \<and> distinct (mem_ranges (alloc_all reqs init_memmgr))"
  using mem.run_pairwise [of init_memmgr reqs] assms
  by (simp add: alloc_all_run mem_inv_def init_memmgr_def mem_ranges_def)

theorem registered_areas_apart_witness:
  "pairwise apart (set (mem_ranges (alloc_all [(True, 0x1000, 0x1000), (True, 0x2000, 0x800), (True, 0x5000, 1)]
     init_memmgr)))
   \<and> length (alloc_all [(True, 0x1000, 0x1000), (True, 0x2000, 0x800), (True, 0x5000, 1)] init_memmgr) = 3"
  using registered_areas_apart [of "[(True, 0x1000, 0x1000), (True, 0x2000, 0x800), (True, 0x5000, 1)]"]
  by (simp add: alloc_mem_area_def is_mem_used_def touches_def covers_def init_memmgr_def)

section \<open>Searching for free memory\<close>

lemma unat_mod_4096: "unat (i mod 4096 :: u32) = unat i mod 4096"
  by (simp add: unat_mod_distrib)

lemma unat_round_up:
  "unat (round_up_to_4KiB i) = (if unat i mod 4096 = 0 then unat i else (unat i + (4096 - unat i mod 4096)) mod 2 ^ 32)"
proof -
  have m: "unat (i mod 4096) = unat i mod 4096" by (rule unat_mod_4096)
  then have le: "i mod 4096 \<le> 4096" by (simp add: word_le_nat_alt)
  have s: "unat (4096 - i mod 4096) = 4096 - unat i mod 4096"
    using unat_sub [OF le] m by simp
  have "i mod 4096 = 0 \<longleftrightarrow> unat i mod 4096 = 0" using m by (metis unat_0 unat_eq_zero)
  then show ?thesis
    unfolding round_up_to_4KiB_def Let_def using s by (simp add: unat_word_ariths)
qed

text \<open>Rounding up to pages: the result is a multiple of 4096, and unless the address space ends
  there it is the least multiple that is not below the argument.\<close>

theorem round_up_correct:
  "unat (round_up_to_4KiB i) mod 4096 = 0 \<and>
     (unat i \<le> 2 ^ 32 - 4096 \<longrightarrow> unat i \<le> unat (round_up_to_4KiB i) \<and> unat (round_up_to_4KiB i) < unat i + 4096)"
proof -
  define n where "n = unat i"
  have n: "n = 4096 * (n div 4096) + n mod 4096" by simp
  have mult: "(n + (4096 - n mod 4096)) mod 2 ^ 32 mod 4096 = 0"
  proof -
    have "4096 * q + r + (4096 - r) = 4096 * (q + 1)" if "r < 4096" for q r :: nat
      using that by simp
    from this [of "n mod 4096" "n div 4096"]
    have "n + (4096 - n mod 4096) = 4096 * (n div 4096 + 1)" using n by simp
    then have "(n + (4096 - n mod 4096)) mod 4096 = 0" by (simp only: mod_mult_self1_is_0)
    then show ?thesis by (simp add: mod_mod_cancel)
  qed
  have "n + (4096 - n mod 4096) < 2 ^ 32" if "n \<le> 2 ^ 32 - 4096" "n mod 4096 \<noteq> 0"
    using that by linarith
  with mult show ?thesis
    unfolding unat_round_up n_def [symmetric] by auto
qed

theorem round_up_correct_witness:
  "unat (round_up_to_4KiB 0x1001) mod 4096 = 0 \<and> 0x1001 \<le> unat (round_up_to_4KiB 0x1001)
     \<and> unat (round_up_to_4KiB 0x1001) < 0x2001"
  using round_up_correct [of "0x1001"] by simp

text \<open>The search can return memory that is in use: with two areas registered, the higher one
  first, \<open>seek_free_mem\<close> answers with the start of the higher area.\<close>

theorem seek_free_mem_returns_used:
  "\<exists>areas. areas = alloc_all [(True, 0x2000, 0x1000), (True, 0, 0x1000)] init_memmgr
     \<and> is_mem_used areas (seek_free_mem areas 0x1000) 0x1000"
  by (simp add: alloc_mem_area_def is_mem_used_def seek_free_mem_def seek_step_def touches_def covers_def
      round_up_to_4KiB_def init_memmgr_def Let_def)

end
