(* ===== verification/LxObjects.thy ===== *)
theory LxObjects
  imports LxImports MemMgr
begin

text \<open>
  Loading the objects of an LX module into memory and relocating them
  (\<^verbatim>\<open>lib/ixf/lx/loadobj.c\<close>, \<open>LXLoadObjects\<close> of \<^verbatim>\<open>load.c\<close>, \<open>LXLoad\<close> and \<open>LXFixup\<close> of \<^verbatim>\<open>lx.c\<close>), in the
  build for the L4 host. \<open>l4_alloc_mem\<close>, which belongs to the host, is the argument \<open>l4_alloc\<close>: the
  address it returns for a requested base, size and relocatability.
\<close>

section \<open>State\<close>

record l4_os3_section =
  sec_addr :: u32
  sec_size :: u32
  sec_type :: u16
  sec_id :: u16

record IXFSYSDEP =
  secnum :: nat
  seclist :: "l4_os3_section list"
  stack_low :: u32
  stack_high :: u32

record IXFModule =
  FormatStruct :: LX_module
  cbEntries :: u32
  Entries :: "IXFMODULEENTRY list"
  cbModules :: u32
  Modules :: "string list"
  cbFixups :: u32
  Fixups :: "IXFFIXUPENTRY list"
  EntryPoint :: u32
  Stack :: u32
  PIC :: bool
  hdlSysDep :: IXFSYSDEP

text \<open>The module, the memory of the server and its registry of used areas.\<close>

record load_state =
  ixf :: IXFModule
  mem :: memory
  root_area :: mem_list

type_synonym l4_allocator = "u32 \<Rightarrow> u32 \<Rightarrow> bool \<Rightarrow> u32"

abbreviation (input) MAP_FAILED :: u32 where "MAP_FAILED \<equiv> 0xFFFFFFFF"

section \<open>Allocating and loading objects\<close>

text \<open>\<open>lastelem\<close> and the link behind it append to the section list.\<close>

definition vm_alloc_obj_lx :: "l4_allocator \<Rightarrow> int \<Rightarrow> o32_obj \<Rightarrow> IXFModule \<Rightarrow> u32 \<times> IXFModule" where
  "vm_alloc_obj_lx l4_alloc nr obj m =
     (let lx = FormatStruct m; dep = hdlSysDep m;
        vm = l4_alloc (o32_base obj) (o32_size obj) (PIC m);
        dep = (if map_option uint (get_data_stack lx) = Some nr
          then dep\<lparr>stack_high := o32_base obj + get_esp lx,
            stack_low := o32_base obj + get_esp lx - e32_stacksize (lx_head_e32_exe lx)\<rparr> else dep);
        m = (if map_option uint (get_data_stack lx) = Some nr then m\<lparr>Stack := stack_high dep\<rparr> else m);
        m = (if map_option uint (get_code lx) = Some nr
          then m\<lparr>EntryPoint := o32_base obj + get_eip lx\<rparr> else m);
        sec = \<lparr>sec_addr = (if PIC m then vm else o32_base obj), sec_size = o32_size obj,
          sec_type = 7, sec_id = of_nat (secnum dep)\<rparr>
      in (vm, m\<lparr>hdlSysDep := dep\<lparr>seclist := seclist dep @ [sec], secnum := secnum dep + 1\<rparr>\<rparr>))"

text \<open>The loop over the pages of an object; \<open>pos\<close> is \<open>code_mmap_pos\<close>.\<close>

definition page_file_offset :: "LX_module \<Rightarrow> o32_map \<Rightarrow> int" where
  "page_file_offset lx pg =
     sint (push_bit (unat (get_e32_pageshift lx)) (o32_pagedataoffset pg) + get_e32_datapage lx)"

fun load_pages :: "int list \<Rightarrow> u32 \<Rightarrow> u32 \<Rightarrow> LX_module \<Rightarrow> memory \<Rightarrow> (LX_module \<times> memory) option" where
  "load_pages [] vm pos lx m = Some (lx, m)"
| "load_pages (page_nr # pages) vm pos lx m = do {
     pg \<leftarrow> get_obj_map lx page_nr;
     (b, lx') \<leftarrow> lx_fread_stream (unat (o32_pagesize pg)) 1
       (snd (lx_fseek_stream lx (page_file_offset lx pg) SEEK_SET));
     load_pages pages vm (pos + ucast (o32_pagesize pg)) lx' (mem_wr m (pos + vm) b) }"

definition load_obj_lx :: "LX_module \<Rightarrow> o32_obj \<Rightarrow> u32 \<Rightarrow> memory \<Rightarrow> (LX_module \<times> memory) option" where
  "load_obj_lx lx obj vm m = load_pages (obj_pages obj) vm 0 lx m"

text \<open>Stores to the object table.\<close>

definition set_reserved :: "int \<Rightarrow> u32 \<Rightarrow> LX_module \<Rightarrow> LX_module" where
  "set_reserved nr v lx = lx\<lparr>loader_section := wr32 (loader_section lx) (nat (24 * (nr - 1) + 20)) v\<rparr>"

definition set_base :: "int \<Rightarrow> u32 \<Rightarrow> LX_module \<Rightarrow> LX_module" where
  "set_base nr v lx = lx\<lparr>loader_section := wr32 (loader_section lx) (nat (24 * (nr - 1) + 4)) v\<rparr>"

text \<open>One object: allocate, record the address in the object table and the registry, load.\<close>

definition load_one :: "l4_allocator \<Rightarrow> bool \<Rightarrow> int \<Rightarrow> load_state \<Rightarrow> (bool \<times> load_state) option" where
  "load_one l4_alloc ok nr st = do {
     obj \<leftarrow> get_obj (FormatStruct (ixf st)) nr;
     let (vm, m) = vm_alloc_obj_lx l4_alloc nr obj (ixf st);
     let lx = set_reserved nr vm (FormatStruct m);
     let lx = (if PIC m then set_base nr vm lx else lx);
     let root = snd (alloc_mem_area ok (root_area st) vm (o32_size obj));
     let st = st\<lparr>ixf := m\<lparr>FormatStruct := lx\<rparr>, root_area := root\<rparr>;
     if vm = MAP_FAILED then Some (False, st)
     else do {
       obj' \<leftarrow> get_obj lx nr;
       (lx, memy) \<leftarrow> load_obj_lx lx obj' vm (mem st);
       Some (True, st\<lparr>ixf := (ixf st)\<lparr>FormatStruct := lx\<rparr>, mem := memy\<rparr>) } }"

fun load_objects :: "l4_allocator \<Rightarrow> bool \<Rightarrow> int list \<Rightarrow> load_state \<Rightarrow> (bool \<times> load_state) option" where
  "load_objects l4_alloc ok [] st = Some (True, st)"
| "load_objects l4_alloc ok (nr # nrs) st = do {
     (go, st) \<leftarrow> load_one l4_alloc ok nr st;
     if go then load_objects l4_alloc ok nrs st else Some (False, st) }"

definition LXLoadObjects :: "l4_allocator \<Rightarrow> bool \<Rightarrow> load_state \<Rightarrow> (bool \<times> load_state) option" where
  "LXLoadObjects l4_alloc ok st = load_objects l4_alloc ok (lx_objects (FormatStruct (ixf st))) st"

section \<open>Relocation\<close>

definition apply_internal_fixup :: "LX_module \<Rightarrow> u8 list \<Rightarrow> u32 \<Rightarrow> memory \<Rightarrow> memory option" where
  "apply_internal_fixup lx rlc vm_start_of_page m = do {
     srcoff_cnt1 \<leftarrow> get_srcoff_cnt1_rlc rlc;
     object1 \<leftarrow> get_mod_ord1_rlc rlc;
     addit \<leftarrow> get_additive_rlc rlc;
     target_object \<leftarrow> get_obj lx object1;
     trgoffs \<leftarrow> get_imp_ord1_rlc rlc;
     let vm_target = o32_reserved target_object + of_int trgoffs;
     let vm_source = vm_start_of_page + of_int srcoff_cnt1;
     Some (mem_wr32 m vm_source vm_target) }"

text \<open>The body of \<open>apply_internal_entry_table_fixup\<close> is compiled out.\<close>

definition apply_internal_entry_table_fixup :: "LX_module \<Rightarrow> u8 list \<Rightarrow> u32 \<Rightarrow> memory \<Rightarrow> memory" where
  "apply_internal_entry_table_fixup lx rlc vm_start_of_page m = m"

text \<open>The name lookups for imports, whose results are not used.\<close>

definition skip_import_ord :: "LX_module \<Rightarrow> u8 list \<Rightarrow> unit option" where
  "skip_import_ord lx rlc = do {
     mod_nr \<leftarrow> get_mod_ord1_rlc rlc;
     _ \<leftarrow> get_imp_mod_name_cstr lx mod_nr;
     Some () }"

definition skip_import_name :: "LX_module \<Rightarrow> u8 list \<Rightarrow> unit option" where
  "skip_import_name lx rlc = do {
     mod_nr \<leftarrow> get_mod_ord1_rlc rlc;
     import_name_offs \<leftarrow> get_imp_ord1_rlc rlc;
     p \<leftarrow> get_imp_proc_name lx import_name_offs;
     _ \<leftarrow> copy_pas_str (fixup_section lx) p;
     _ \<leftarrow> get_imp_mod_name_cstr lx mod_nr;
     Some () }"

text \<open>The loop over the records of a page; \<open>Inl\<close> is the return for an unsupported record.\<close>

function fixup_page :: "LX_module \<Rightarrow> u32 \<Rightarrow> int \<Rightarrow> int \<Rightarrow> memory \<Rightarrow> (memory + memory) option" where
  "fixup_page lx vm fixup_offset pg_end m =
     (if fixup_offset < pg_end then do {
        rlc \<leftarrow> get_fixup_rec_tbl_obj lx fixup_offset;
        fl \<leftarrow> nr_flags rlc;
        sz \<leftarrow> get_reloc_size_rlc rlc;
        let ty = fl AND NRRTYP;
        if ty = NRRINT then do {
          m \<leftarrow> apply_internal_fixup lx rlc vm m;
          fixup_page lx vm (fixup_offset + int sz) pg_end m }
        else if ty = NRRENT
        then fixup_page lx vm (fixup_offset + int sz) pg_end (apply_internal_entry_table_fixup lx rlc vm m)
        else if ty = NRRORD then do {
          _ \<leftarrow> skip_import_ord lx rlc;
          fixup_page lx vm (fixup_offset + int sz) pg_end m }
        else if ty = NRRNAM then do {
          _ \<leftarrow> skip_import_name lx rlc;
          fixup_page lx vm (fixup_offset + int sz) pg_end m }
        else Some (Inl m) }
      else Some (Inr m))"
  by auto
termination
  by (relation "measure (\<lambda>(lx, vm, off, e, m). nat (e - off))") (auto dest!: reloc_size_pos)

declare fixup_page.simps [simp del]

fun fixup_pages :: "LX_module \<Rightarrow> o32_obj \<Rightarrow> int list \<Rightarrow> memory \<Rightarrow> (bool \<times> memory) option" where
  "fixup_pages lx obj [] m = Some (True, m)"
| "fixup_pages lx obj (page_nr # pages) m = do {
     pg_offs_fix \<leftarrow> get_fixup_pg_tbl_offs lx page_nr;
     pg_end_offs_fix \<leftarrow> get_fixup_pg_tbl_offs lx (page_nr + 1);
     r \<leftarrow> fixup_page lx (page_address lx obj (o32_reserved obj) page_nr) pg_offs_fix pg_end_offs_fix m;
     case r of Inl m \<Rightarrow> Some (False, m) | Inr m \<Rightarrow> fixup_pages lx obj pages m }"

definition do_fixup_obj_lx :: "LX_module \<Rightarrow> o32_obj \<Rightarrow> memory \<Rightarrow> (bool \<times> memory) option" where
  "do_fixup_obj_lx lx obj m = fixup_pages lx obj (obj_pages obj) m"

fun fixup_objects :: "LX_module \<Rightarrow> int list \<Rightarrow> memory \<Rightarrow> (bool \<times> memory) option" where
  "fixup_objects lx [] m = Some (True, m)"
| "fixup_objects lx (i # is) m = do {
     obj \<leftarrow> get_obj lx i;
     (go, m) \<leftarrow> do_fixup_obj_lx lx obj m;
     if go then fixup_objects lx is m else Some (False, m) }"

definition do_fixup_code_data_lx :: "LX_module \<Rightarrow> memory \<Rightarrow> (bool \<times> memory) option" where
  "do_fixup_code_data_lx lx m = fixup_objects lx (lx_objects lx) m"

text \<open>\<open>LXFixup\<close>: the return code stays 0 whatever the outcome.\<close>

definition LXFixup :: "LX_module \<Rightarrow> memory \<Rightarrow> (u32 \<times> memory) option" where
  "LXFixup lx m = do { (_, m) \<leftarrow> do_fixup_code_data_lx lx m; Some (NO_ERROR, m) }"

section \<open>Loading a module\<close>

fun load_module_names :: "LX_module \<Rightarrow> int list \<Rightarrow> string list option" where
  "load_module_names lx [] = Some []"
| "load_module_names lx (i # is) = do {
     s \<leftarrow> get_imp_mod_name_cstr lx i; ss \<leftarrow> load_module_names lx is; Some (s # ss) }"

definition ISDLL :: "LX_module \<Rightarrow> bool" where
  "ISDLL lx \<longleftrightarrow> e32_mflags (lx_head_e32_exe lx) AND 0x38000 = 0x8000"

text \<open>
  \<open>LXLoad\<close>: the return code and the state. An unreadable header leaves the module as it is and is
  reported as success.
\<close>

definition LXLoad :: "l4_allocator \<Rightarrow> bool \<Rightarrow> u8 list \<Rightarrow> int \<Rightarrow> load_state \<Rightarrow> (u32 \<times> load_state) option" where
  "LXLoad l4_alloc ok addr fsize st = do {
     r \<leftarrow> LXLoadStream addr fsize (FormatStruct (ixf st));
     case r of None \<Rightarrow> Some (NO_ERROR, st)
     | Some lx \<Rightarrow> do {
         let n = e32_impmodcnt (lx_head_e32_exe lx);
         names \<leftarrow> load_module_names lx [1..uint n];
         let m = (ixf st)\<lparr>FormatStruct := lx, cbModules := n, Modules := names, PIC := ISDLL lx\<rparr>;
         (_, st) \<leftarrow> LXLoadObjects l4_alloc ok (st\<lparr>ixf := m\<rparr>);
         (rc, st) \<leftarrow> (if ISDLL lx then do {
             (rc, cb, es) \<leftarrow> convert_entry_table_to_BFF (FormatStruct (ixf st));
             Some (rc, st\<lparr>ixf := (ixf st)\<lparr>cbEntries := cb, Entries := es\<rparr>\<rparr>) }
           else Some (0, st));
         if rc \<noteq> 0 then Some (rc, st)
         else do {
           (cbf, fs) \<leftarrow> convert_fixup_table_to_BFF (FormatStruct (ixf st));
           let m = (ixf st)\<lparr>cbFixups := cbf, Fixups := fs\<rparr>;
           let m = (if get_code (FormatStruct m) = None then m\<lparr>EntryPoint := 0\<rparr> else m);
           let m = (if get_data_stack (FormatStruct m) = None then m\<lparr>Stack := 0\<rparr> else m);
           Some (NO_ERROR, st\<lparr>ixf := m\<rparr>) } } }"

section \<open>Memory\<close>

lemma mem_wr_append: "mem_wr m a (xs @ ys) = mem_wr (mem_wr m a xs) (a + of_nat (length xs)) ys"
  by (induction xs arbitrary: m a) (simp_all add: algebra_simps)

lemma mem_wr_other:
  "(\<And>i. i < length bs \<Longrightarrow> x \<noteq> a + of_nat i) \<Longrightarrow> mem_wr m a bs x = m x"
proof (induction bs arbitrary: m a)
  case (Cons b bs)
  have "x \<noteq> a" using Cons.prems [of 0] by simp
  moreover have "mem_wr (m(a := b)) (a + 1) bs x = (m(a := b)) x"
    by (rule Cons.IH) (use Cons.prems [of "Suc _"] in \<open>simp add: algebra_simps\<close>)
  ultimately show ?case by simp
qed simp

lemma of_nat_inj32: "i < 2 ^ 32 \<Longrightarrow> j < 2 ^ 32 \<Longrightarrow> (of_nat i :: u32) = of_nat j \<longleftrightarrow> i = j"
  by (metis unat_of_nat32)

lemma mem_wr_at:
  assumes "i < length bs" and "length bs \<le> 2 ^ 32"
  shows "mem_wr m a bs (a + of_nat i) = bs ! i"
proof -
  have bs: "bs = take i bs @ bs ! i # drop (i + 1) bs"
    using assms(1) id_take_nth_drop by simp
  have "mem_wr m a bs (a + of_nat i)
      = mem_wr (mem_wr m a (take i bs)) (a + of_nat (length (take i bs))) (bs ! i # drop (i + 1) bs) (a + of_nat i)"
    by (subst bs) (rule arg_cong [where f = "\<lambda>f. f _"], rule mem_wr_append)
  also have "\<dots> = mem_wr ((mem_wr m a (take i bs))(a + of_nat i := bs ! i)) (a + of_nat i + 1) (drop (i + 1) bs) (a + of_nat i)"
    using assms(1) by simp
  also have "\<dots> = bs ! i"
  proof (subst mem_wr_other)
    fix j assume "j < length (drop (i + 1) bs)"
    then have "(of_nat i :: u32) \<noteq> of_nat (i + 1 + j)"
      using assms by (subst of_nat_inj32) auto
    then show "a + of_nat i \<noteq> a + of_nat i + 1 + of_nat j"
      by (simp add: algebra_simps)
  qed simp
  finally show ?thesis .
qed

section \<open>Objects are loaded\<close>

text \<open>The bytes of a page in the file.\<close>

definition page_data :: "LX_module \<Rightarrow> int \<Rightarrow> u8 list option" where
  "page_data lx page_nr = do {
     pg \<leftarrow> get_obj_map lx page_nr;
     let off = page_file_offset lx pg;
     if 0 \<le> off \<and> off \<le> lx_stream_size lx
       \<and> nat off + unat (o32_pagesize pg) \<le> length (lx_file_stream lx)
     then Some (take (unat (o32_pagesize pg)) (drop (nat off) (lx_file_stream lx))) else None }"

lemma stream_pos_irrelevant [simp]:
  "get_obj_map (lx\<lparr>lx_stream_pos := p\<rparr>) n = get_obj_map lx n"
  "page_file_offset (lx\<lparr>lx_stream_pos := p\<rparr>) pg = page_file_offset lx pg"
  "page_data (lx\<lparr>lx_stream_pos := p\<rparr>) n = page_data lx n"
  by (simp_all add: get_obj_map_def get_obj_page_tbl_def page_file_offset_def page_data_def
      get_e32_pageshift_def get_e32_datapage_def Let_def cong: if_cong)

lemma load_pages_data:
  assumes "those (map (page_data lx) pages) = Some ps"
  shows "\<exists>p. load_pages pages vm pos lx m = Some (lx\<lparr>lx_stream_pos := p\<rparr>, mem_wr m (pos + vm) (concat ps))"
  using assms
proof (induction pages arbitrary: lx ps pos m)
  case Nil
  then show ?case by (auto intro: exI [of _ "lx_stream_pos lx"])
next
  case (Cons n ns)
  obtain b bs where b: "page_data lx n = Some b" "those (map (page_data lx) ns) = Some bs" "ps = b # bs"
    using Cons.prems by (auto simp: those_Cons simp del: those.simps)
  then obtain pg where pg: "get_obj_map lx n = Some pg" and o: "0 \<le> page_file_offset lx pg"
      "page_file_offset lx pg \<le> lx_stream_size lx"
      "nat (page_file_offset lx pg) + unat (o32_pagesize pg) \<le> length (lx_file_stream lx)"
    and bd: "b = take (unat (o32_pagesize pg)) (drop (nat (page_file_offset lx pg)) (lx_file_stream lx))"
    by (auto simp: page_data_def bind_eq_Some_conv Let_def split: if_splits)
  let ?q = "page_file_offset lx pg + int (unat (o32_pagesize pg))"
  have r: "lx_fread_stream (unat (o32_pagesize pg)) 1 (snd (lx_fseek_stream lx (page_file_offset lx pg) SEEK_SET))
      = Some (b, lx\<lparr>lx_stream_pos := ?q\<rparr>)"
    unfolding fseek_set [OF o(1,2)] fread_one using o bd by simp
  have "length b = unat (o32_pagesize pg)" using o bd by simp
  then have l: "of_nat (length b) = (ucast (o32_pagesize pg) :: u32)" by simp
  obtain p where "load_pages ns vm (pos + ucast (o32_pagesize pg)) (lx\<lparr>lx_stream_pos := ?q\<rparr>) (mem_wr m (pos + vm) b)
      = Some (lx\<lparr>lx_stream_pos := ?q\<rparr>\<lparr>lx_stream_pos := p\<rparr>,
          mem_wr (mem_wr m (pos + vm) b) (pos + ucast (o32_pagesize pg) + vm) (concat bs))"
    using Cons.IH [of "lx\<lparr>lx_stream_pos := ?q\<rparr>" bs] b(2) by force
  then show ?case
    using pg r b(3) l by (simp add: mem_wr_append algebra_simps) blast
qed

text \<open>C9: Loading an object: when every page of the object lies in the file, \<open>load_obj_lx\<close> succeeds,
  changes only the stream position of the module, and puts the pages into memory one behind the
  other from the object's address on: byte \<open>j\<close> of page \<open>k\<close> lands behind the sizes of the pages before
  it. Memory outside the loaded bytes keeps its contents.\<close>

theorem object_pages_loaded:
  assumes "those (map (page_data lx) (obj_pages obj)) = Some ps" and "length (concat ps) \<le> 2 ^ 32"
  shows "\<exists>p m'. load_obj_lx lx obj vm m = Some (lx\<lparr>lx_stream_pos := p\<rparr>, m')
     \<and> (\<forall>k<length ps. \<forall>j<length (ps ! k). m' (vm + of_nat (length (concat (take k ps)) + j)) = ps ! k ! j)
     \<and> (\<forall>x. (\<forall>i<length (concat ps). x \<noteq> vm + of_nat i) \<longrightarrow> m' x = m x)"
proof -
  obtain p where p: "load_obj_lx lx obj vm m = Some (lx\<lparr>lx_stream_pos := p\<rparr>, mem_wr m vm (concat ps))"
    using load_pages_data [OF assms(1), of vm 0 m] by (auto simp: load_obj_lx_def)
  have "mem_wr m vm (concat ps) (vm + of_nat (length (concat (take k ps)) + j)) = ps ! k ! j"
    if k: "k < length ps" and j: "j < length (ps ! k)" for k j
  proof -
    have "concat ps = concat (take k ps) @ ps ! k @ concat (drop (Suc k) ps)"
      using arg_cong [OF id_take_nth_drop [OF k], of concat] by (simp only: concat_append concat.simps)
    then have "length (concat (take k ps)) + j < length (concat ps)"
      and "concat ps ! (length (concat (take k ps)) + j) = ps ! k ! j"
      using j by (simp_all add: nth_append)
    then show ?thesis using mem_wr_at [OF _ assms(2)] by metis
  qed
  moreover have "mem_wr m vm (concat ps) x = m x" if "\<forall>i<length (concat ps). x \<noteq> vm + of_nat i" for x
    using that by (intro mem_wr_other) auto
  ultimately show ?thesis using p by blast
qed

definition page_sample :: LX_module where
  "page_sample = lx0\<lparr>lx_head_e32_exe := e32_exe0\<lparr>e32_objmap := 220\<rparr>,
     loader_section := replicate 24 0 @ le32 0 @ le16 2 @ le16 0,
     lx_file_stream := [9, 8], lx_stream_size := 2\<rparr>"

definition page_sample_obj :: o32_obj where
  "page_sample_obj = \<lparr>o32_size = 2, o32_base = 0, o32_flags = 0, o32_pagemap = 1, o32_mapsize = 1,
     o32_reserved = 0\<rparr>"

theorem object_pages_loaded_witness:
  "\<exists>p m'. load_obj_lx page_sample page_sample_obj 0x5000 (\<lambda>_. 0)
       = Some (page_sample\<lparr>lx_stream_pos := p\<rparr>, m') \<and> m' 0x5000 = 9 \<and> m' 0x5001 = 8 \<and> m' 0x5002 = 0"
proof -
  have "get_obj_map page_sample 1 = Some \<lparr>o32_pagedataoffset = 0, o32_pagesize = 2, o32_pageflags = 0\<rparr>"
    by (simp add: get_obj_map_def get_obj_page_tbl_def page_sample_def e32_exe_size_def read_o32_map_def
        rd32_def rd16_def rd8_def le32_def le16_def nth_append)
  moreover have "page_file_offset page_sample \<lparr>o32_pagedataoffset = 0, o32_pagesize = 2, o32_pageflags = 0\<rparr> = 0"
    by (simp add: page_file_offset_def get_e32_datapage_def page_sample_def e32_exe0_def)
  ultimately have "page_data page_sample 1 = Some [9, 8]"
    by (simp add: page_data_def page_sample_def)
  then have ps: "those (map (page_data page_sample) (obj_pages page_sample_obj)) = Some [[9, 8]]"
    by (simp add: obj_pages_def page_sample_obj_def)
  obtain p m' where l: "load_obj_lx page_sample page_sample_obj 0x5000 (\<lambda>_. 0) = Some (page_sample\<lparr>lx_stream_pos := p\<rparr>, m')"
    and in_p: "\<forall>k<1. \<forall>j<length ([[9, 8]] ! k). m' (0x5000 + of_nat (length (concat (take k [[9, 8 :: u8]])) + j)) = [[9, 8]] ! k ! j"
    and out_p: "\<forall>x. (\<forall>i<2. x \<noteq> 0x5000 + of_nat i) \<longrightarrow> m' x = 0"
    using object_pages_loaded [OF ps, of "0x5000" "\<lambda>_. 0"] by auto
  have "m' 0x5000 = 9" using in_p [rule_format, of 0 0] by simp
  moreover have "m' 0x5001 = 8" using in_p [rule_format, of 0 1] by simp
  moreover have "m' 0x5002 = 0" by (rule out_p [rule_format]) (auto simp: less_2_cases_iff)
  ultimately show ?thesis using l by blast
qed

section \<open>Internal fixups are applied\<close>

text \<open>The stores a record stands for; imports store nothing but their names must be readable.\<close>

definition rec_writes :: "LX_module \<Rightarrow> u32 \<Rightarrow> u8 list \<Rightarrow> (u32 \<times> u32) list option" where
  "rec_writes lx vm rlc =
     (if rec_type rlc = NRRINT then do {
        srcoff \<leftarrow> get_srcoff_cnt1_rlc rlc;
        object1 \<leftarrow> get_mod_ord1_rlc rlc;
        addit \<leftarrow> get_additive_rlc rlc;
        target \<leftarrow> get_obj lx object1;
        trgoffs \<leftarrow> get_imp_ord1_rlc rlc;
        Some [(vm + of_int srcoff, o32_reserved target + of_int trgoffs)] }
      else if rec_type rlc = NRRENT then Some []
      else if rec_type rlc = NRRORD then do { _ \<leftarrow> skip_import_ord lx rlc; Some [] }
      else do { _ \<leftarrow> skip_import_name lx rlc; Some [] })"

definition page_writes :: "LX_module \<Rightarrow> o32_obj \<Rightarrow> int \<Rightarrow> (u32 \<times> u32) list option" where
  "page_writes lx obj page = do {
     a \<leftarrow> get_fixup_pg_tbl_offs lx page;
     b \<leftarrow> get_fixup_pg_tbl_offs lx (page + 1);
     rs \<leftarrow> page_recs lx a b;
     map_option concat (those (map (rec_writes lx (page_address lx obj (o32_reserved obj) page)) rs)) }"

definition obj_writes :: "LX_module \<Rightarrow> int \<Rightarrow> (u32 \<times> u32) list option" where
  "obj_writes lx i = do {
     obj \<leftarrow> get_obj lx i;
     map_option concat (those (map (page_writes lx obj) (obj_pages obj))) }"

definition module_writes :: "LX_module \<Rightarrow> (u32 \<times> u32) list option" where
  "module_writes lx = map_option concat (those (map (obj_writes lx) (lx_objects lx)))"

definition apply_writes :: "(u32 \<times> u32) list \<Rightarrow> memory \<Rightarrow> memory" where
  "apply_writes ws m = fold (\<lambda>(a, v) m. mem_wr32 m a v) ws m"

lemma apply_writes_simps [simp]:
  "apply_writes [] m = m" "apply_writes (ws @ ws') m = apply_writes ws' (apply_writes ws m)"
  "apply_writes [(a, v)] m = mem_wr32 m a v"
  by (simp_all add: apply_writes_def)

lemma fixup_page_writes:
  assumes "page_recs lx off e = Some rs" and "those (map (rec_writes lx vm) rs) = Some wss"
  shows "fixup_page lx vm off e m = Some (Inr (apply_writes (concat wss) m))"
  using assms
proof (induction lx off e arbitrary: rs wss m rule: page_recs.induct)
  case (1 lx off e)
  show ?case
  proof (cases "off < e")
    case False
    with 1 show ?thesis by (simp add: page_recs.simps [of lx off e] fixup_page.simps [of lx vm off e])
  next
    case True
    obtain rlc sz fl rs' where r: "get_fixup_rec_tbl_obj lx off = Some rlc" "get_reloc_size_rlc rlc = Some sz"
      "nr_flags rlc = Some fl" "page_recs lx (off + int sz) e = Some rs'" "rs = rlc # rs'"
      "rec_type rlc = fl AND NRRTYP"
      by (rule page_recs_step [OF True 1(2)])
    obtain w ws where w: "rec_writes lx vm rlc = Some w" "those (map (rec_writes lx vm) rs') = Some ws" "wss = w # ws"
      using 1(3) r(5) by (auto simp: those_Cons simp del: those.simps)
    have IH: "fixup_page lx vm (off + int sz) e m' = Some (Inr (apply_writes (concat ws) m'))" for m'
      by (rule 1(1) [OF True r(1,2,4) w(2)])
    show ?thesis
      using and_3_cases [of fl] True r w IH
      by (subst fixup_page.simps)
        (auto simp: rec_writes_def apply_internal_fixup_def apply_internal_entry_table_fixup_def
          bind_eq_Some_conv Let_def)
  qed
qed

lemma fixup_pages_writes:
  assumes "those (map (page_writes lx obj) pages) = Some wss"
  shows "fixup_pages lx obj pages m = Some (True, apply_writes (concat wss) m)"
  using assms
proof (induction pages arbitrary: m wss)
  case (Cons p ps)
  obtain w ws where w: "page_writes lx obj p = Some w" "those (map (page_writes lx obj) ps) = Some ws" "wss = w # ws"
    using Cons.prems by (auto simp: those_Cons simp del: those.simps)
  obtain a b rs us where "get_fixup_pg_tbl_offs lx p = Some a" "get_fixup_pg_tbl_offs lx (p + 1) = Some b"
      "page_recs lx a b = Some rs" "w = concat us"
      "those (map (rec_writes lx (page_address lx obj (o32_reserved obj) p)) rs) = Some us"
    using w(1) by (auto simp: page_writes_def bind_eq_Some_conv)
  with fixup_page_writes Cons.IH [OF w(2)] w(3) show ?case by simp
qed simp

lemma fixup_objects_writes:
  assumes "those (map (obj_writes lx) is) = Some wss"
  shows "fixup_objects lx is m = Some (True, apply_writes (concat wss) m)"
  using assms
proof (induction "is" arbitrary: m wss)
  case (Cons i iss)
  obtain w ws where w: "obj_writes lx i = Some w" "those (map (obj_writes lx) iss) = Some ws" "wss = w # ws"
    using Cons.prems by (auto simp: those_Cons simp del: those.simps)
  obtain obj us where "get_obj lx i = Some obj" "those (map (page_writes lx obj) (obj_pages obj)) = Some us" "w = concat us"
    using w(1) by (auto simp: obj_writes_def bind_eq_Some_conv)
  with fixup_pages_writes Cons.IH [OF w(2)] w(3) show ?case by (simp add: do_fixup_obj_lx_def)
qed simp

text \<open>The four bytes of a 32-bit store.\<close>

definition span :: "u32 \<Rightarrow> u32 set" where
  "span a = {a, a + 1, a + 2, a + 3}"

fun apart_writes :: "(u32 \<times> u32) list \<Rightarrow> bool" where
  "apart_writes [] \<longleftrightarrow> True"
| "apart_writes ((a, v) # ws) \<longleftrightarrow> (\<forall>w\<in>set ws. span a \<inter> span (fst w) = {}) \<and> apart_writes ws"

lemma bytes_of_word:
  "ucast (ucast (v :: u32) :: u8) OR push_bit 8 (ucast (ucast (drop_bit 8 v) :: u8))
     OR push_bit 16 (ucast (ucast (drop_bit 16 v) :: u8)) OR push_bit 24 (ucast (ucast (drop_bit 24 v) :: u8)) = v"
  apply (rule bit_word_eqI)
  subgoal for n
    by (cases "n < 8"; cases "n < 16"; cases "n < 24") (auto simp: bit_simps)
  done

lemma mem_rd32_wr32: "mem_rd32 (mem_wr32 m a v) a = v"
proof -
  have "a \<noteq> a + 1" "a \<noteq> a + 2" "a \<noteq> a + 3" "a + 1 \<noteq> a + 2" "a + 1 \<noteq> a + 3" "a + 2 \<noteq> a + 3" by simp_all
  then show ?thesis
    unfolding mem_rd32_def mem_wr32_def by (simp add: bytes_of_word)
qed

lemma apply_writes_other:
  "x \<notin> (\<Union>w\<in>set ws. span (fst w)) \<Longrightarrow> apply_writes ws m x = m x"
proof (induction ws arbitrary: m)
  case (Cons w ws)
  obtain a v where w: "w = (a, v)" by fastforce
  have "apply_writes (w # ws) m x = apply_writes ws (mem_wr32 m a v) x"
    by (simp add: apply_writes_def w)
  also have "\<dots> = m x"
    using Cons w by (simp add: span_def mem_wr32_other)
  finally show ?case .
qed simp

lemma apply_writes_at:
  assumes "apart_writes ws" and "(a, v) \<in> set ws"
  shows "mem_rd32 (apply_writes ws m) a = v"
  using assms
proof (induction ws arbitrary: m)
  case (Cons w ws)
  obtain b u where w: "w = (b, u)" by fastforce
  have step: "apply_writes (w # ws) m = apply_writes ws (mem_wr32 m b u)" by (simp add: apply_writes_def w)
  show ?case
  proof (cases "(a, v) \<in> set ws")
    case True
    with Cons w step show ?thesis by simp
  next
    case False
    with Cons.prems(2) w have ab: "a = b" "v = u" by auto
    have "apply_writes ws (mem_wr32 m b u) x = mem_wr32 m b u x" if "x \<in> span a" for x
      using Cons.prems(1) w ab that by (intro apply_writes_other) fastforce
    then have "mem_rd32 (apply_writes ws (mem_wr32 m b u)) a = mem_rd32 (mem_wr32 m b u) a"
      by (simp add: mem_rd32_def span_def)
    with step ab show ?thesis by (simp add: mem_rd32_wr32)
  qed
qed simp


text \<open>A module with one object of one page and one internal fixup to offset \<open>0x20\<close> of that object.\<close>

definition reloc_sample :: LX_module where
  "reloc_sample = lx0\<lparr>
     lx_head_e32_exe := e32_exe0\<lparr>e32_objcnt := 1, e32_pagesize := 0x1000, e32_frectab := 8\<rparr>,
     loader_section := concat (map le32 [0x1000, 0x10000, 0, 1, 1, 0x50000]),
     fixup_section := [0, 0, 0, 0, 7, 0, 0, 0, 7, 0, 8, 0, 1, 0x20, 0]\<rparr>"


end
