(* ===== verification/IxfMgr.thy ===== *)
theory IxfMgr
  imports LxObjects
begin

text \<open>
  The manager of executable formats (\<^verbatim>\<open>server/os2exec/ixfmgr.c\<close>), the NE format
  (\<^verbatim>\<open>lib/ixf/ne/ne.c\<close>) and the list of formats that \<open>load_ixfs\<close> of \<^verbatim>\<open>server/os2exec/api/api.c\<close>
  builds. Module structures live in a heap indexed by their addresses. The answers of \<open>malloc\<close> are a
  list of addresses in the state (0 is the null pointer, and so is an exhausted list); the contents of
  fresh memory are an argument.
\<close>

section \<open>Format handlers\<close>

type_synonym fnIdentify = "u8 list \<Rightarrow> u32 option"
type_synonym fnLoad = "u8 list \<Rightarrow> load_state \<Rightarrow> (u32 \<times> load_state) option"
type_synonym fnFixup = "LX_module \<Rightarrow> memory \<Rightarrow> (u32 \<times> memory) option"

record IXFHandler =
  Identify :: fnIdentify
  Load :: fnLoad
  Fixup :: fnFixup

text \<open>
  The members of \<open>IXFModule\<close> that the format handlers do not touch, around those they fill in; a
  member that holds no function has no value.
\<close>

record exec_module =
  m_Load :: "fnLoad option"
  m_Fixup :: "fnFixup option"
  m_area :: "64 word"
  m_addr :: "u8 list"
  m_size :: u32
  m_name :: string
  m_exec :: bool
  m_ixf :: IXFModule

record ixf_state =
  heap :: "u32 \<Rightarrow> exec_module option"
  emem :: memory
  areas :: mem_list
  mallocs :: "u32 list"

definition malloc :: "'a ixf_state_scheme \<Rightarrow> u32 \<times> 'a ixf_state_scheme" where
  "malloc st = (case mallocs st of [] \<Rightarrow> (0, st) | a # as \<Rightarrow> (a, st\<lparr>mallocs := as\<rparr>))"

section \<open>The NE format\<close>

definition NEIdentify :: fnIdentify where
  "NEIdentify bs = do {
     a \<leftarrow> rd8 bs 0;
     mz \<leftarrow> (if a = 0x4D \<or> a = 0x5A then do { b \<leftarrow> rd8 bs 1; Some (is_mz a b) } else Some False);
     off \<leftarrow> (if mz then rd32 bs ENEWHDR else Some 0);
     c \<leftarrow> rd8 bs (unat off);
     if c = 0x4E then do {
       d \<leftarrow> rd8 bs (unat off + 1);
       Some (if d = 0x45 then NO_ERROR else ERROR_BAD_FORMAT) }
     else Some ERROR_BAD_FORMAT }"

definition NELoad :: fnLoad where
  "NELoad bs st = Some (ERROR_BAD_FORMAT, st)"

definition NEFixup :: fnFixup where
  "NEFixup lx m = Some (ERROR_BAD_FORMAT, m)"

section \<open>The format manager\<close>

definition lx_handler :: "l4_allocator \<Rightarrow> bool \<Rightarrow> IXFHandler" where
  "lx_handler l4_alloc ok = \<lparr>Identify = LXIdentify,
     Load = (\<lambda>bs. LXLoad l4_alloc ok bs (int (length bs))), Fixup = LXFixup\<rparr>"

definition ne_handler :: IXFHandler where
  "ne_handler = \<lparr>Identify = NEIdentify, Load = NELoad, Fixup = NEFixup\<rparr>"

text \<open>
  \<open>load_ixfs\<close>: \<open>open_lx\<close> and \<open>open_ne\<close> tell whether the host could open the two libraries. The result is
  the return code and the list of handlers.
\<close>

definition load_ixfs :: "bool \<Rightarrow> bool \<Rightarrow> l4_allocator \<Rightarrow> bool \<Rightarrow> IXFHandler list \<Rightarrow> int \<times> IXFHandler list" where
  "load_ixfs open_lx open_ne l4_alloc ok handlers =
     (if \<not> open_lx then (1, handlers)
      else if \<not> open_ne then (1, [lx_handler l4_alloc ok])
      else (0, [lx_handler l4_alloc ok, ne_handler]))"

fun identify_loop :: "IXFHandler list \<Rightarrow> u8 list \<Rightarrow> u32 \<Rightarrow> exec_module \<Rightarrow> (u32 \<times> exec_module) option" where
  "identify_loop [] bs rc m = Some (rc, m)"
| "identify_loop (p # ps) bs rc m = do {
     rc \<leftarrow> Identify p bs;
     if rc = NO_ERROR then Some (rc, m\<lparr>m_Load := Some (Load p), m_Fixup := Some (Fixup p)\<rparr>)
     else identify_loop ps bs rc m }"

definition IXFIdentifyModule :: "IXFHandler list \<Rightarrow> u8 list \<Rightarrow> exec_module \<Rightarrow> (u32 \<times> exec_module) option" where
  "IXFIdentifyModule handlers bs m = identify_loop handlers bs 0 m"

definition IXFLoadModule :: "u32 \<Rightarrow> 'a ixf_state_scheme \<Rightarrow> (u32 \<times> 'a ixf_state_scheme) option" where
  "IXFLoadModule h st = do {
     m \<leftarrow> heap st h;
     f \<leftarrow> m_Load m;
     (rc, ls) \<leftarrow> f (m_addr m) \<lparr>ixf = m_ixf m, mem = emem st, root_area = areas st\<rparr>;
     Some (rc, st\<lparr>heap := (heap st)(h \<mapsto> m\<lparr>m_ixf := ixf ls\<rparr>), emem := mem ls, areas := root_area ls\<rparr>) }"

definition IXFFixupModule :: "u32 \<Rightarrow> 'a ixf_state_scheme \<Rightarrow> (u32 \<times> 'a ixf_state_scheme) option" where
  "IXFFixupModule h st = do {
     m \<leftarrow> heap st h;
     f \<leftarrow> m_Fixup m;
     (rc, memy) \<leftarrow> f (FormatStruct (m_ixf m)) (emem st);
     Some (rc, st\<lparr>emem := memy\<rparr>) }"

text \<open>
  \<open>IXFAllocModule\<close>: the code, the address stored at the caller's pointer and the state. A structure
  whose system part could not be allocated is left behind.
\<close>

definition IXFAllocModule :: "exec_module \<Rightarrow> 'a ixf_state_scheme \<Rightarrow> u32 \<times> u32 \<times> 'a ixf_state_scheme" where
  "IXFAllocModule raw st =
     (let (a, st) = malloc st in
      if a = 0 then (ERROR_NOT_ENOUGH_MEMORY, 0, st)
      else let st = st\<lparr>heap := (heap st)(a \<mapsto> raw)\<rparr>; (d, st) = malloc st in
        if d = 0 then (ERROR_NOT_ENOUGH_MEMORY, a, st)
        else (NO_ERROR, a, st\<lparr>heap := (heap st)(a \<mapsto> raw\<lparr>m_ixf := (m_ixf raw)\<lparr>hdlSysDep :=
          (hdlSysDep (m_ixf raw))\<lparr>secnum := 0, seclist := []\<rparr>\<rparr>\<rparr>)\<rparr>))"

definition IXFFreeModule :: "u32 \<Rightarrow> 'a ixf_state_scheme \<Rightarrow> u32 \<times> 'a ixf_state_scheme" where
  "IXFFreeModule h st =
     (if h = 0 then (ERROR_INVALID_PARAMETER, st) else (NO_ERROR, st\<lparr>heap := (heap st)(h := None)\<rparr>))"

section \<open>Recognising a file\<close>

lemmas identify_defs = LXIdentify_def NEIdentify_def IXFIdentifyModule_def load_ixfs_def
  lx_handler_def ne_handler_def

text \<open>The two letters of a file's new header.\<close>

definition format_letters :: "u8 list \<Rightarrow> (u8 \<times> u8) option" where
  "format_letters bs = do {
     a \<leftarrow> rd8 bs 0; b \<leftarrow> rd8 bs 1;
     off \<leftarrow> (if is_mz a b then rd32 bs ENEWHDR else Some 0);
     c \<leftarrow> rd8 bs (unat off); d \<leftarrow> rd8 bs (unat off + 1); Some (c, d) }"

lemma letters_test:
  assumes "format_letters bs = Some (c, d)"
  shows "do {
     a \<leftarrow> rd8 bs 0;
     mz \<leftarrow> (if a = 0x4D \<or> a = 0x5A then do { b \<leftarrow> rd8 bs 1; Some (is_mz a b) } else Some False);
     off \<leftarrow> (if mz then rd32 bs ENEWHDR else Some 0);
     c \<leftarrow> rd8 bs (unat off);
     if c = x then do { d \<leftarrow> rd8 bs (unat off + 1); Some (if d = y then NO_ERROR else ERROR_BAD_FORMAT) }
     else Some ERROR_BAD_FORMAT } = Some (if (c, d) = (x, y) then NO_ERROR else ERROR_BAD_FORMAT)"
proof -
  obtain a b off where ab: "rd8 bs 0 = Some a" "rd8 bs 1 = Some b"
    and off: "(if is_mz a b then rd32 bs ENEWHDR else Some 0) = Some off"
    and cd: "rd8 bs (unat off) = Some c" "rd8 bs (unat off + 1) = Some d"
    using assms by (auto simp: format_letters_def bind_eq_Some_conv)
  have "(if a = 0x4D \<or> a = 0x5A then do { b \<leftarrow> rd8 bs 1; Some (is_mz a b) } else Some False) = Some (is_mz a b)"
    using ab(2) by (simp add: is_mz_def)
  then show ?thesis
    by (simp only: ab(1) off cd bind.bind_lunit split: if_split) simp
qed

lemmas LXIdentify_letters = letters_test [of _ _ _ "0x4C" "0x58", folded LXIdentify_def]
  and NEIdentify_letters = letters_test [of _ _ _ "0x4E" "0x45", folded NEIdentify_def]

text \<open>Recognition: with both formats installed, a file whose header letters are LX gets the
  operations of the LX format and one with letters NE those of the NE format, which refuse to load it;
  every other file is refused with \<open>ERROR_BAD_FORMAT\<close> and the module is not touched.\<close>

theorem identify_by_letters:
  assumes "format_letters bs = Some (c, d)"
    and "load_ixfs True True l4_alloc ok hs = (0, handlers)"
  shows "IXFIdentifyModule handlers bs m = Some
    (if (c, d) = (0x4C, 0x58) then (NO_ERROR, m\<lparr>m_Load := Some (\<lambda>bs. LXLoad l4_alloc ok bs (int (length bs))), m_Fixup := Some LXFixup\<rparr>)
     else if (c, d) = (0x4E, 0x45) then (NO_ERROR, m\<lparr>m_Load := Some (\<lambda>bs st. Some (ERROR_BAD_FORMAT, st)), m_Fixup := Some NEFixup\<rparr>)
     else (ERROR_BAD_FORMAT, m))"
proof -
  have "handlers = [lx_handler l4_alloc ok, ne_handler]"
    using assms(2) by (simp add: load_ixfs_def)
  then show ?thesis
    using LXIdentify_letters [OF assms(1)] NEIdentify_letters [OF assms(1)]
    by (auto simp: IXFIdentifyModule_def lx_handler_def ne_handler_def NELoad_def [abs_def])
qed

definition raw_exec_module :: exec_module where
  "raw_exec_module = \<lparr>m_Load = None, m_Fixup = None, m_area = 0, m_addr = [], m_size = 0, m_name = [],
     m_exec = False, m_ixf = \<lparr>FormatStruct = lx0, cbEntries = 0, Entries = [], cbModules = 0, Modules = [],
       cbFixups = 0, Fixups = [], EntryPoint = 0, Stack = 0, PIC = False,
       hdlSysDep = \<lparr>secnum = 0, seclist = [], stack_low = 0, stack_high = 0\<rparr>\<rparr>\<rparr>"

theorem identify_by_letters_witness:
  "IXFIdentifyModule [lx_handler (\<lambda>b s p. b) True, ne_handler] [0x4E, 0x45, 5] raw_exec_module
    = Some (0, raw_exec_module\<lparr>m_Load := Some (\<lambda>bs st. Some (11, st)), m_Fixup := Some NEFixup\<rparr>)"
proof -
  have "format_letters [0x4E, 0x45, 5] = Some (0x4E, 0x45)"
    by (simp add: format_letters_def rd8_def is_mz_def)
  from identify_by_letters [OF this, of "\<lambda>b s p. b" True "[]"] show ?thesis
    by (simp add: load_ixfs_def)
qed

end
