(* ===== verification/PathSearch.thy ===== *)
theory PathSearch
  imports CfgFile
begin

text \<open>
  Path names (\<^verbatim>\<open>lib/compat/path.c\<close>), the tokenizer they use (\<^verbatim>\<open>lib/compat/token.c\<close>) and the lookup of
  environment strings (\<open>cfg_Getenv\<close> of \<^verbatim>\<open>lib/compat/env.c\<close>), in the build for the L4 host, where the
  separator of the host is the backslash. The tokenizer writes a NUL over the delimiter behind a
  token and puts the delimiter back when it goes on: strings lie in an array of characters, a
  pointer is an index of it. \<open>io_load_file\<close>, which belongs to the host, is an argument.
\<close>

section \<open>Tokenizer\<close>

record tok_state =
  nxtToken :: "nat option"
  tok_ch :: char

definition tok_state0 :: tok_state where
  "tok_state0 = \<lparr>nxtToken = None, tok_ch = NUL\<rparr>"

text \<open>\<open>strchr\<close> also finds the terminator of the token string, so the scan ends at a NUL.\<close>

fun tok_scan :: "string \<Rightarrow> char list \<Rightarrow> nat \<Rightarrow> nat option" where
  "tok_scan token [] i = None"
| "tok_scan token (c # cs) i = (if c = NUL \<or> c \<in> set token then Some i else tok_scan token cs (Suc i))"

definition tok_from :: "nat \<Rightarrow> string option \<Rightarrow> tok_state \<Rightarrow> char list \<Rightarrow> (nat option \<times> tok_state \<times> char list) option" where
  "tok_from str token tk ar =
     (if token = None \<or> token = Some [] then Some (Some str, tk\<lparr>nxtToken := None\<rparr>, ar)
      else do {
        n \<leftarrow> tok_scan (the token) (drop str ar) str;
        Some (Some str, \<lparr>nxtToken = Some n, tok_ch = ar ! n\<rparr>, ar[n := NUL]) })"

definition StrTokenize ::
    "nat option \<Rightarrow> string option \<Rightarrow> tok_state \<Rightarrow> char list \<Rightarrow> (nat option \<times> tok_state \<times> char list) option" where
  "StrTokenize str token tk ar =
     (case str of
        Some s \<Rightarrow> tok_from s token tk ar
      | None \<Rightarrow> (case nxtToken tk of
          None \<Rightarrow> Some (None, tk\<lparr>nxtToken := None\<rparr>, ar)
        | Some n \<Rightarrow>
            if n < length ar then
              if tok_ch tk = NUL then Some (None, tk\<lparr>nxtToken := None\<rparr>, ar[n := NUL])
              else tok_from (n + 1) token tk (ar[n := tok_ch tk])
            else None))"

definition StrTokSave :: "tok_state \<Rightarrow> tok_state" where
  "StrTokSave tk = tk"

definition StrTokRestore :: "tok_state \<Rightarrow> tok_state \<Rightarrow> tok_state" where
  "StrTokRestore st tk = tk\<lparr>nxtToken := nxtToken st, tok_ch := tok_ch st\<rparr>"

definition StrTokStop :: "tok_state \<Rightarrow> char list \<Rightarrow> (nat option \<times> tok_state \<times> char list) option" where
  "StrTokStop tk ar = StrTokenize None None tk ar"

section \<open>Parts of a path name\<close>

text \<open>A character of a NUL-terminated string; reading behind the terminator gives no value.\<close>

definition chr_at :: "string \<Rightarrow> nat \<Rightarrow> char option" where
  "chr_at s i = (if i \<le> length s then Some (cs_at s i) else None)"

text \<open>The position of the last occurrence, as the loops over a path compute it.\<close>

fun last_index :: "char \<Rightarrow> string \<Rightarrow> nat \<Rightarrow> nat option \<Rightarrow> nat option" where
  "last_index c [] i e = e"
| "last_index c (x # xs) i e = last_index c xs (Suc i) (if x = c then Some i else e)"

definition get_drv :: "string \<Rightarrow> char option" where
  "get_drv s_path = do { c \<leftarrow> chr_at s_path 1; Some (if c = CHR '':'' then cs_at s_path 0 else NUL) }"

text \<open>\<open>get_directory\<close>: the inner \<open>None\<close> is the null pointer.\<close>

definition get_directory :: "string \<Rightarrow> string option option" where
  "get_directory s_path = do {
     c \<leftarrow> chr_at s_path 1;
     let s = (if c = CHR '':'' then 2 else 0);
     let e = (case last_index BSL (drop s s_path) s None of None \<Rightarrow> 0 | Some i \<Rightarrow> i);
     if e = 0 then Some None
     else Some (Some (take (e - s + 1) (drop s s_path))) }"

definition get_name :: "string \<Rightarrow> string" where
  "get_name s_path =
     (let s = (case last_index BSL s_path 0 None of None \<Rightarrow> 0 | Some i \<Rightarrow> i + 1) in drop s s_path)"

definition get_fname :: "string \<Rightarrow> string" where
  "get_fname s_path =
     (let e = (case last_index (CHR ''.'') s_path 0 None of None \<Rightarrow> length s_path | Some i \<Rightarrow> i)
      in take e s_path)"

section \<open>Searching a list of directories\<close>

abbreviation (input) psep :: string where "psep \<equiv> '';''"
abbreviation (input) hostsep :: char where "hostsep \<equiv> BSL"

text \<open>
  What the body of the loop does for one directory: \<open>fixc\<close> is written over the characters of the
  token, \<open>full\<close> builds the file name in the buffer (no value: it does not fit), and the file is tried.
  The result tells whether it was found, the buffer and the array.
\<close>

definition write_str :: "nat \<Rightarrow> string \<Rightarrow> char list \<Rightarrow> char list" where
  "write_str p s ar = take p ar @ s @ drop (p + length s) ar"

definition path_try ::
    "(char \<Rightarrow> char) \<Rightarrow> (string \<Rightarrow> string option) \<Rightarrow> (string \<Rightarrow> u32) \<Rightarrow> nat \<Rightarrow> char list \<Rightarrow> string
     \<Rightarrow> (bool \<times> string \<times> char list) option" where
  "path_try fixc full io p ar buf =
     (let s = cstr (drop p ar) in
      if s = [] then Some (False, buf, ar)
      else do { buf \<leftarrow> full (map fixc s); Some (io buf = NO_ERROR, buf, write_str p (map fixc s) ar) })"

definition tok_left :: "tok_state \<Rightarrow> char list \<Rightarrow> nat" where
  "tok_left tk ar = (case nxtToken tk of None \<Rightarrow> 0 | Some n \<Rightarrow> Suc (length ar) - n)"

lemma tok_scan_bounds: "tok_scan token cs i = Some n \<Longrightarrow> i \<le> n \<and> n < i + length cs"
  by (induction token cs i rule: tok_scan.induct) (auto split: if_splits)

lemma length_write_str: "p + length s \<le> length ar \<Longrightarrow> length (write_str p s ar) = length ar"
  by (simp add: write_str_def)

lemma length_cstr_drop: "p \<le> length ar \<Longrightarrow> p + length (cstr (drop p ar)) \<le> length ar"
  using length_takeWhile_le [of "\<lambda>c. c \<noteq> NUL" "drop p ar"] by (simp add: cstr_def)

lemma path_try_length:
  assumes "path_try fixc full io p ar buf = Some (f, buf', ar')"
  shows "length ar' = length ar"
proof (cases "p \<le> length ar")
  case True
  then show ?thesis
    using assms length_cstr_drop [OF True]
    by (auto simp: path_try_def Let_def bind_eq_Some_conv length_write_str split: if_splits)
next
  case False
  then show ?thesis using assms by (auto simp: path_try_def cstr_def)
qed

lemma StrTokenize_advances:
  assumes "StrTokenize None (Some psep) tk ar = Some (Some p, tk', ar')"
  shows "tok_left tk' ar' < tok_left tk ar"
  using assms
  by (auto simp: StrTokenize_def tok_from_def tok_left_def bind_eq_Some_conv
      split: option.splits if_splits dest!: tok_scan_bounds)

text \<open>The loop of both searches; it returns the code, the buffer, the tokenizer and the array.\<close>

function path_loop ::
    "(char \<Rightarrow> char) \<Rightarrow> (string \<Rightarrow> string option) \<Rightarrow> (string \<Rightarrow> u32) \<Rightarrow> nat \<Rightarrow> tok_state \<Rightarrow> char list \<Rightarrow> string
     \<Rightarrow> (u32 \<times> string \<times> tok_state \<times> char list) option" where
  "path_loop fixc full io p tk ar buf = do {
     (found, buf, ar) \<leftarrow> path_try fixc full io p ar buf;
     if found then do {
       (_, tk, ar) \<leftarrow> StrTokStop tk ar;
       Some (NO_ERROR, buf, tk, ar) }
     else do {
       (q, tk, ar) \<leftarrow> StrTokenize None (Some psep) tk ar;
       (case q of
          None \<Rightarrow> Some (ERROR_FILE_NOT_FOUND, buf, tk, ar)
        | Some p \<Rightarrow> path_loop fixc full io p tk ar buf) } }"
  by auto
termination
  by (relation "measure (\<lambda>(fixc, full, io, p, tk, ar, buf). tok_left tk ar)")
    (auto dest!: path_try_length StrTokenize_advances simp: tok_left_def split: option.splits)

declare path_loop.simps [simp del]

definition path_search ::
    "(char \<Rightarrow> char) \<Rightarrow> (string \<Rightarrow> string option) \<Rightarrow> (string \<Rightarrow> u32) \<Rightarrow> nat option \<Rightarrow> tok_state \<Rightarrow> char list \<Rightarrow> string
     \<Rightarrow> (u32 \<times> string \<times> tok_state \<times> char list) option" where
  "path_search fixc full io path tk ar buf = do {
     let st = StrTokSave tk;
     (p, tk, ar) \<leftarrow> StrTokenize path (Some psep) tk ar;
     (rc, buf, tk, ar) \<leftarrow> (case p of
        None \<Rightarrow> Some (ERROR_FILE_NOT_FOUND, buf, tk, ar)
      | Some p \<Rightarrow> path_loop fixc full io p tk ar buf);
     Some (rc, buf, if rc = NO_ERROR then tk else StrTokRestore st tk, ar) }"

text \<open>
  The file name tried for a directory of \<open>LIBPATH\<close>; \<open>cap\<close> is the size of the caller's buffer, and the
  name is also copied to a buffer of 251 characters.
\<close>

definition module_file :: "nat \<Rightarrow> string \<Rightarrow> string \<Rightarrow> string option" where
  "module_file cap name d =
     (let f = d @ (if last d \<noteq> hostsep then [hostsep] else []) @ name in
      if length f < cap \<and> length name < 251 then Some f else None)"

definition find_module_path ::
    "(string \<Rightarrow> u32) \<Rightarrow> nat \<Rightarrow> nat option \<Rightarrow> string \<Rightarrow> tok_state \<Rightarrow> char list \<Rightarrow> string
     \<Rightarrow> (u32 \<times> string \<times> tok_state \<times> char list) option" where
  "find_module_path io cap lp name tk ar buf =
     path_search (\<lambda>c. if c = BSL then hostsep else c) (module_file cap name) io lp tk ar buf"

definition program_file :: "nat \<Rightarrow> string option \<Rightarrow> string \<Rightarrow> string \<Rightarrow> string option" where
  "program_file cap boot name d = do {
     dir \<leftarrow> (if d = ''.'' then boot else Some d);
     let f = dir @ [BSL] @ name;
     if length f < cap then Some f else None }"

definition cfg_Getenv :: "cfg_state \<Rightarrow> string \<Rightarrow> (u32 \<times> string option) outcome" where
  "cfg_Getenv st name = CfgGetenv st name"

text \<open>
  The buffer for \<open>PATH\<close> has 4097 characters and is not initialised, so without the variable the
  search runs over whatever it holds.
\<close>

definition find_path ::
    "(string \<Rightarrow> u32) \<Rightarrow> nat \<Rightarrow> cfg_state \<Rightarrow> string \<Rightarrow> tok_state \<Rightarrow> string
     \<Rightarrow> (u32 \<times> string \<times> tok_state) option" where
  "find_path io cap cfg name tk buf =
     (case cfg_Getenv cfg ''PATH'' of
        Ret (rc, Some path) \<Rightarrow>
          if length path \<le> 4096 then do {
            (rc, buf, tk, ar) \<leftarrow> path_search (\<lambda>c. c) (program_file cap (bootdrive (opts cfg)) name) io
              (Some 0) tk (path @ [NUL]) buf;
            Some (rc, buf, tk) }
          else None
      | _ \<Rightarrow> None)"

section \<open>Tokens of a string\<close>

text \<open>The reference: the fields of a string between separators.\<close>

fun split_on :: "char \<Rightarrow> string \<Rightarrow> string list" where
  "split_on c [] = [[]]"
| "split_on c (x # xs) =
     (if x = c then [] # split_on c xs
      else (case split_on c xs of t # ts \<Rightarrow> (x # t) # ts | [] \<Rightarrow> [[x]]))"

lemma split_on_nonempty [simp]: "split_on c s \<noteq> []"
  by (induction s) (auto split: list.splits)

lemma split_on_token: "c \<notin> set t \<Longrightarrow> split_on c t = [t]"
  by (induction t) auto

lemma split_on_sep: "c \<notin> set t \<Longrightarrow> split_on c (t @ c # s) = t # split_on c s"
  by (induction t) (auto simp: split_on_token)

lemma split_on_cases:
  obtains t where "c \<notin> set t" "s = t"
  | t r where "c \<notin> set t" "s = t @ c # r"
  using split_list_first [of c s] by blast

text \<open>
  The state between two calls: the array with a NUL at \<open>n\<close>, and the character it hides.
\<close>

definition tok_at :: "nat \<Rightarrow> char list \<Rightarrow> tok_state" where
  "tok_at n ar = \<lparr>nxtToken = Some n, tok_ch = ar ! n\<rparr>"

lemma tok_scan_token:
  "\<forall>x \<in> set t. x \<noteq> NUL \<and> x \<notin> set token \<Longrightarrow> d = NUL \<or> d \<in> set token
   \<Longrightarrow> tok_scan token (t @ d # r) i = Some (i + length t)"
  by (induction t arbitrary: i) auto

lemma tok_from_token:
  assumes "ar = pre @ t @ d # post" and "\<forall>x \<in> set t. x \<noteq> NUL \<and> x \<noteq> c" and "d = NUL \<or> d = c"
  shows "tok_from (length pre) (Some [c]) tk ar
    = Some (Some (length pre), tok_at (length pre + length t) ar, ar[length pre + length t := NUL])"
  using tok_scan_token [of t "[c]" d post] assms by (simp add: tok_from_def tok_at_def)

lemma StrTokenize_next:
  assumes "n < length ar" and "ar ! n = d" and "d \<noteq> NUL"
  shows "StrTokenize None token (tok_at n ar) (ar[n := NUL]) = tok_from (n + 1) token (tok_at n ar) ar"
  using assms by (auto simp: StrTokenize_def tok_at_def)

lemma StrTokenize_last:
  assumes "n < length ar" and "ar ! n = NUL"
  shows "StrTokenize None token (tok_at n ar) (ar[n := NUL])
    = Some (None, \<lparr>nxtToken = None, tok_ch = NUL\<rparr>, ar)"
  using assms by (simp add: StrTokenize_def tok_at_def) (metis list_update_id)

lemma StrTokStop_restores:
  assumes "n < length ar"
  shows "\<exists>q. StrTokStop (tok_at n ar) (ar[n := NUL]) = Some (q, \<lparr>nxtToken = None, tok_ch = ar ! n\<rparr>, ar)"
proof (cases "ar ! n = NUL")
  case True
  then show ?thesis using assms by (simp add: StrTokStop_def StrTokenize_last)
next
  case False
  then show ?thesis
    using StrTokenize_next [OF assms refl False, of None]
    by (simp add: StrTokStop_def tok_from_def) (simp add: tok_at_def)
qed

lemma cstr_token:
  assumes "ar = pre @ t @ d # post" and "NUL \<notin> set t"
  shows "cstr (drop (length pre) (ar[length pre + length t := NUL])) = t"
  using assms by (simp add: list_update_append)

lemma write_str_id:
  "ar = pre @ t @ post \<Longrightarrow> write_str (length pre) t ar = ar"
  by (simp add: write_str_def)

section \<open>The search finds the first directory that has the file\<close>

definition first_file :: "(string \<Rightarrow> string option) \<Rightarrow> (string \<Rightarrow> u32) \<Rightarrow> string list \<Rightarrow> string option" where
  "first_file full io ds = find (\<lambda>d. io (the (full d)) = NO_ERROR) (filter (\<lambda>d. d \<noteq> []) ds)"

lemma path_try_token:
  assumes "ar = pre @ t @ d # post" and "NUL \<notin> set t" and "map fixc t = t" and "full t \<noteq> None \<or> t = []"
  shows "path_try fixc full io (length pre) (ar[length pre + length t := NUL]) buf =
    Some (t \<noteq> [] \<and> io (the (full t)) = NO_ERROR, if t = [] then buf else the (full t), ar[length pre + length t := NUL])"
proof -
  have w: "write_str (length pre) t (ar[length pre + length t := NUL]) = ar[length pre + length t := NUL]"
    by (rule write_str_id [of _ pre t "NUL # post"]) (use assms(1) in \<open>simp add: list_update_append\<close>)
  show ?thesis
    using assms(3,4) w by (auto simp: path_try_def cstr_token [OF assms(1,2)] Let_def)
qed

lemma path_loop_spec:
  assumes "ar = pre @ s @ NUL # post" and "NUL \<notin> set s" and "\<forall>x \<in> set s. fixc x = x"
    and "\<forall>d \<in> set (split_on (CHR '';'') s). d \<noteq> [] \<longrightarrow> full d \<noteq> None"
  shows "\<exists>buf' tk'. do { (q, tk, ar) \<leftarrow> tok_from (length pre) (Some psep) tk ar;
       path_loop fixc full io (the q) tk ar buf } =
     Some (if first_file full io (split_on (CHR '';'') s) = None then ERROR_FILE_NOT_FOUND else NO_ERROR,
       buf', tk', ar)
     \<and> (\<forall>d. first_file full io (split_on (CHR '';'') s) = Some d \<longrightarrow> full d = Some buf' \<and> nxtToken tk' = None)"
  using assms
proof (induction s arbitrary: pre tk buf rule: length_induct)
  case (1 s)
  note ar = "1.prems"(1) and nul = "1.prems"(2) and fixc = "1.prems"(3) and full = "1.prems"(4)
  let ?c = "CHR '';''"
  obtain t d r where s: "?c \<notin> set t" "split_on ?c s = t # (if d = NUL then [] else split_on ?c r)"
      "s = t @ (if d = NUL then [] else ?c # r)" "d = NUL \<or> d = ?c"
  proof (cases rule: split_on_cases [of ?c s])
    case (1 t)
    then show ?thesis by (intro that [of t NUL "[]"]) (simp_all add: split_on_token)
  next
    case (2 t r)
    then show ?thesis by (intro that [of t ?c r]) (simp_all add: split_on_sep)
  qed
  obtain post' where ar': "ar = pre @ t @ d # post'"
    using s(3,4) ar by (cases "d = NUL") auto
  have t: "\<forall>x \<in> set t. x \<noteq> NUL \<and> x \<noteq> ?c" "NUL \<notin> set t" "map fixc t = t"
    using s(1,3) nul fixc by (auto intro: map_idI)
  have ft: "full t \<noteq> None \<or> t = []"
    using full s(2) by auto
  let ?n = "length pre + length t"
  have n: "?n < length ar" and arn: "ar ! ?n = d"
    using ar' by (simp_all add: nth_append)
  note tok = tok_from_token [OF ar' t(1) s(4), of tk]
  note att = path_try_token [where full = full and io = io and buf = buf, OF ar' t(2,3) ft]
  show ?case
  proof (cases "t \<noteq> [] \<and> io (the (full t)) = NO_ERROR")
    case True
    then have "first_file full io (split_on ?c s) = Some t"
      by (simp add: s(2) first_file_def)
    moreover obtain q where "StrTokStop (tok_at ?n ar) (ar[?n := NUL]) = Some (q, \<lparr>nxtToken = None, tok_ch = ar ! ?n\<rparr>, ar)"
      using StrTokStop_restores [OF n] by blast
    ultimately show ?thesis
      using True ft by (simp add: tok path_loop.simps att)
  next
    case False
    then have ff: "first_file full io (split_on ?c s) = first_file full io (if d = NUL then [] else split_on ?c r)"
      by (auto simp: s(2) first_file_def)
    show ?thesis
    proof (cases "d = NUL")
      case True
      with False show ?thesis
        using arn by (simp add: ff tok path_loop.simps att StrTokenize_last [OF n]) (auto simp: first_file_def)
    next
      case nd: False
      then have d: "d = ?c" using s(4) by simp
      let ?buf = "if t = [] then buf else the (full t)"
      have "\<exists>buf' tk'. do { (q, tk, ar) \<leftarrow> tok_from (length (pre @ t @ [d])) (Some psep) (tok_at ?n ar) ar;
         path_loop fixc full io (the q) tk ar ?buf } =
       Some (if first_file full io (split_on ?c r) = None then ERROR_FILE_NOT_FOUND else NO_ERROR, buf', tk', ar)
       \<and> (\<forall>d. first_file full io (split_on ?c r) = Some d \<longrightarrow> full d = Some buf' \<and> nxtToken tk' = None)"
        by (rule "1.IH" [rule_format]) (use s nd ar nul fixc full in auto)
      moreover obtain q tk' ar2 where "tok_from (length (pre @ t @ [d])) (Some psep) (tok_at ?n ar) ar = Some (Some q, tk', ar2)"
        using calculation by (auto simp: bind_eq_Some_conv tok_from_def)
      ultimately show ?thesis
        using False nd
        by (simp add: ff tok path_loop.simps [of fixc full io "length pre"] att StrTokenize_next [OF n arn nd]) auto
    qed
  qed
qed

lemma split_on_length: "d \<in> set (split_on c s) \<Longrightarrow> length d \<le> length s"
proof (induction s arbitrary: d)
  case (Cons x s)
  then show ?case by (cases "split_on c s") (auto split: if_splits intro: le_SucI)
qed simp

lemma path_search_spec:
  assumes "ar = pre @ s @ NUL # post" and "NUL \<notin> set s" and "\<forall>x \<in> set s. fixc x = x"
    and "\<forall>d \<in> set (split_on (CHR '';'') s). d \<noteq> [] \<longrightarrow> full d \<noteq> None"
  shows "\<exists>buf' tk'. path_search fixc full io (Some (length pre)) tk ar buf = Some
     (if first_file full io (split_on (CHR '';'') s) = None then ERROR_FILE_NOT_FOUND else NO_ERROR, buf', tk', ar)
     \<and> (case first_file full io (split_on (CHR '';'') s) of
          None \<Rightarrow> tk' = tk | Some d \<Rightarrow> full d = Some buf' \<and> nxtToken tk' = None)"
proof -
  obtain buf' tk' where l: "do { (q, tk, ar) \<leftarrow> tok_from (length pre) (Some psep) tk ar;
       path_loop fixc full io (the q) tk ar buf } =
     Some (if first_file full io (split_on (CHR '';'') s) = None then ERROR_FILE_NOT_FOUND else NO_ERROR, buf', tk', ar)"
    and d: "\<forall>d. first_file full io (split_on (CHR '';'') s) = Some d \<longrightarrow> full d = Some buf' \<and> nxtToken tk' = None"
    using path_loop_spec [OF assms, of tk io buf] by blast
  obtain q tk2 ar2 where t: "tok_from (length pre) (Some psep) tk ar = Some (Some q, tk2, ar2)"
    using l by (auto simp: bind_eq_Some_conv tok_from_def)
  show ?thesis
    using l d t
    by (cases "first_file full io (split_on (CHR '';'') s)")
      (auto simp: path_search_def StrTokenize_def StrTokSave_def StrTokRestore_def)
qed

lemma module_search:
  assumes "ar = pre @ lib @ NUL # post" and "NUL \<notin> set lib"
    and "length name < 251" and "length lib + 1 + length name < cap"
  shows "\<exists>rc file tk'. find_module_path io cap (Some (length pre)) name tk ar buf = Some (rc, file, tk', ar) \<and>
    (case find (\<lambda>d. io (d @ (if last d \<noteq> BSL then [BSL] else []) @ name) = 0)
        (filter (\<lambda>d. d \<noteq> []) (split_on (CHR '';'') lib)) of
       None \<Rightarrow> rc = ERROR_FILE_NOT_FOUND
     | Some d \<Rightarrow> rc = NO_ERROR \<and> file = d @ (if last d \<noteq> BSL then [BSL] else []) @ name)"
proof -
  let ?ds = "split_on (CHR '';'') lib"
  have m: "module_file cap name d = Some (d @ (if last d \<noteq> BSL then [BSL] else []) @ name)"
    if "d \<in> set ?ds" for d
    using split_on_length [OF that] assms(3,4) by (simp add: module_file_def Let_def)
  have ff: "find (\<lambda>d. io (d @ (if last d \<noteq> BSL then [BSL] else []) @ name) = 0) (filter (\<lambda>d. d \<noteq> []) ?ds) =
      first_file (module_file cap name) io ?ds"
    unfolding first_file_def by (rule find_cong) (use m in auto)
  have full: "\<forall>d \<in> set ?ds. d \<noteq> [] \<longrightarrow> module_file cap name d \<noteq> None"
    using m by simp
  have "\<forall>x \<in> set lib. (if x = BSL then hostsep else x) = x" by simp
  from path_search_spec [OF assms(1,2) this full, of io tk buf]
  obtain fl tk' where s: "find_module_path io cap (Some (length pre)) name tk ar buf = Some
     (if first_file (module_file cap name) io ?ds = None then ERROR_FILE_NOT_FOUND else NO_ERROR, fl, tk', ar)"
    and f: "case first_file (module_file cap name) io ?ds of None \<Rightarrow> tk' = tk
      | Some d \<Rightarrow> module_file cap name d = Some fl \<and> nxtToken tk' = None"
    unfolding find_module_path_def by blast
  show ?thesis
  proof (cases "first_file (module_file cap name) io ?ds")
    case None
    with s show ?thesis unfolding ff by simp
  next
    case (Some d)
    then have "d \<in> set ?ds"
      by (auto simp: first_file_def find_Some_iff dest: nth_mem)
    with Some s f m show ?thesis unfolding ff by simp
  qed
qed

text \<open>Search for a module: with \<open>LIBPATH\<close> in memory and names that fit the buffers, the search
  returns \<open>NO_ERROR\<close> and the file name for the first non-empty directory of the list that has the file, and
  \<open>ERROR_FILE_NOT_FOUND\<close> when none has it; the option string, in which the tokenizer wrote, is as before.\<close>

theorem find_module_path_first:
  assumes "ar = pre @ lib @ NUL # post" and "NUL \<notin> set lib"
    and "length name < 251" and "length lib + 1 + length name < cap"
  shows "\<exists>rc file tk'. find_module_path io cap (Some (length pre)) name tk ar buf = Some (rc, file, tk', ar) \<and>
    (case find (\<lambda>d. io (d @ (if last d \<noteq> BSL then [BSL] else []) @ name) = 0)
        (filter (\<lambda>d. d \<noteq> []) (split_on (CHR '';'') lib)) of
       None \<Rightarrow> rc = ERROR_FILE_NOT_FOUND
     | Some d \<Rightarrow> rc = NO_ERROR \<and> file = d @ (if last d \<noteq> BSL then [BSL] else []) @ name)"
  using assms by (rule module_search)

theorem find_module_path_first_witness:
  "\<exists>tk'. find_module_path (\<lambda>f. if f = ''D:'' @ [BSL] @ ''KAL'' then 0 else 2) 4097 (Some 1) ''KAL'' tok_state0
      (''x'' @ ''C:;;D:'' @ NUL # ''y'') [] = Some (0, ''D:'' @ [BSL] @ ''KAL'', tk', ''x'' @ ''C:;;D:'' @ NUL # ''y'')"
  using find_module_path_first [of "''x'' @ ''C:;;D:'' @ NUL # ''y''" "''x''" "''C:;;D:''" "''y''" "''KAL''" 4097
      "\<lambda>f. if f = ''D:'' @ [BSL] @ ''KAL'' then 0 else 2" tok_state0 "[]"]
  by simp

section \<open>Taking a path apart\<close>

lemma last_index_append:
  "last_index c (xs @ ys) i e = last_index c ys (i + length xs) (last_index c xs i e)"
  by (induction xs arbitrary: i e) simp_all

lemma last_index_none: "c \<notin> set xs \<Longrightarrow> last_index c xs i e = e"
  by (induction xs arbitrary: i e) auto

lemma last_index_last: "c \<notin> set ys \<Longrightarrow> last_index c (xs @ c # ys) i e = Some (i + length xs)"
  by (simp add: last_index_append last_index_none)

text \<open>The parts of a fully qualified name: drive letter, directory with its last separator and
  file name are exactly the pieces the name consists of, and the module name is what precedes the
  extension.\<close>

theorem path_parts_roundtrip:
  assumes "BSL \<notin> set name" and "CHR ''.'' \<notin> set ext" and "BSL \<notin> set ext"
  shows "get_drv (d # CHR '':'' # dir @ BSL # name @ CHR ''.'' # ext) = Some d \<and>
    get_directory (d # CHR '':'' # dir @ BSL # name @ CHR ''.'' # ext) = Some (Some (dir @ [BSL])) \<and>
    get_name (d # CHR '':'' # dir @ BSL # name @ CHR ''.'' # ext) = name @ CHR ''.'' # ext \<and>
    get_fname (get_name (d # CHR '':'' # dir @ BSL # name @ CHR ''.'' # ext)) = name"
proof (intro conjI)
  let ?n = "name @ CHR ''.'' # ext"
  have b: "BSL \<notin> set ?n" using assms by simp
  have l: "last_index BSL (xs @ BSL # ?n) i e = Some (i + length xs)" for xs i e
    by (rule last_index_last [OF b])
  show "get_drv (d # CHR '':'' # dir @ BSL # ?n) = Some d"
    by (simp add: get_drv_def chr_at_def cs_at_def)
  show "get_directory (d # CHR '':'' # dir @ BSL # ?n) = Some (Some (dir @ [BSL]))"
    using l [of dir 2 None] by (simp add: get_directory_def chr_at_def cs_at_def Let_def numeral_2_eq_2)
  show *: "get_name (d # CHR '':'' # dir @ BSL # ?n) = ?n"
    using l [of "d # CHR '':'' # dir" 0 None] by (simp add: get_name_def Let_def)
  show "get_fname (get_name (d # CHR '':'' # dir @ BSL # ?n)) = name"
    unfolding * using last_index_last [OF assms(2), of name 0 None] by (simp add: get_fname_def Let_def)
qed

theorem path_parts_roundtrip_witness:
  "get_drv (''C:DIR'' @ BSL # ''KAL.DLL'') = Some (CHR ''C'') \<and>
   get_directory (''C:DIR'' @ BSL # ''KAL.DLL'') = Some (Some (''DIR'' @ [BSL])) \<and>
   get_name (''C:DIR'' @ BSL # ''KAL.DLL'') = ''KAL.DLL'' \<and>
   get_fname (get_name (''C:DIR'' @ BSL # ''KAL.DLL'')) = ''KAL''"
  using path_parts_roundtrip [of "''KAL''" "''DLL''" "CHR ''C''" "''DIR''"] by auto

text \<open>A dot in the directory: the module name of a file without extension is cut inside the
  directory, and the directory of a file in the root directory is reported as missing.\<close>

theorem path_parts_misread:
  assumes "CHR ''.'' \<notin> set ext" and "CHR ''.'' \<notin> set name" and "BSL \<notin> set name"
    and "name \<noteq> []" and "hd name \<noteq> CHR '':''"
  shows "get_fname (dir @ CHR ''.'' # ext @ BSL # name) = dir \<and> get_directory (BSL # name) = Some None"
proof
  have "CHR ''.'' \<notin> set (ext @ BSL # name)" using assms(1,2) by simp
  from last_index_last [OF this, of dir 0 None]
  show "get_fname (dir @ CHR ''.'' # ext @ BSL # name) = dir" by (simp add: get_fname_def Let_def)
  show "get_directory (BSL # name) = Some None"
    using assms(3-5)
    by (cases name) (auto simp: get_directory_def chr_at_def cs_at_def last_index_none Let_def)
qed

theorem path_parts_misread_witness:
  "get_fname (''C:OS2'' @ CHR ''.'' # ''V4'' @ BSL # ''KAL'') = ''C:OS2'' \<and> get_directory (BSL # ''KAL'') = Some None"
  using path_parts_misread [of "''V4''" "''KAL''" "''C:OS2''"] by simp

end
