(* ===== verification/ModRegistry.thy ===== *)
theory ModRegistry
  imports IxfMgr PathSearch
begin

text \<open>
  The list of loaded modules (\<^verbatim>\<open>server/os2exec/modmgr.c\<close>): the comparisons of names, the search for
  a record, registration and the queries for handles and names. The list that hangs from \<open>module_root\<close>
  is a list of records; the further instances of a program, linked through \<open>up\<close>, are a list in the
  record of the first. The interface that the loader relies on is the locale \<open>module_registry\<close>.
\<close>

section \<open>Comparing names\<close>

definition fold_case :: "char \<Rightarrow> nat" where
  "fold_case c = (let c = of_char c in if 65 \<le> c \<and> c \<le> 90 then c + 32 else c)"

lemma fold_case_NUL: "fold_case c = 0 \<longleftrightarrow> c = NUL"
  by (auto simp: fold_case_def Let_def char_eq_of_char)

lemma fold_case_first: "fold_case (cs_at s 0) = k \<Longrightarrow> 0 < k \<Longrightarrow> length s - Suc 0 < length s"
  by (cases s) (auto simp: fold_case_def cs_at_def)

function strnicmp :: "string \<Rightarrow> string \<Rightarrow> int \<Rightarrow> int" where
  "strnicmp s t n =
     (if n = 0 then 0
      else let c1 = fold_case (cs_at s 0); c2 = fold_case (cs_at t 0) in
        if c1 \<noteq> c2 then int c1 - int c2
        else if c1 = 0 then 0
        else strnicmp (tl s) (tl t) (n - 1))"
  by auto
termination
  by (relation "measure (\<lambda>(s, t, n). length s)") (auto dest: fold_case_first)

function stricmp :: "string \<Rightarrow> string \<Rightarrow> int" where
  "stricmp s t =
     (let c1 = fold_case (cs_at s 0); c2 = fold_case (cs_at t 0) in
      if c1 \<noteq> c2 then int c1 - int c2
      else if c1 = 0 then 0
      else stricmp (tl s) (tl t))"
  by auto
termination
  by (relation "measure (\<lambda>(s, t). length s)") (auto dest: fold_case_first)

declare strnicmp.simps [simp del] stricmp.simps [simp del]

section \<open>State\<close>

record instance_rec =
  rec_addr :: u32
  mod_name :: string
  module_struct :: u32
  instance_no :: nat
  load_status :: nat

record module_rec = instance_rec +
  up :: "instance_rec list"

record exec_state = ixf_state +
  modules :: "module_rec list"
  tok :: tok_state

abbreviation (input) LOADING :: nat where "LOADING \<equiv> 1"
abbreviation (input) DONE_LOADING :: nat where "DONE_LOADING \<equiv> 0"

section \<open>Searching and registering\<close>

text \<open>The loop over the list: the first record whose name matches.\<close>

fun find_rec :: "string \<Rightarrow> module_rec list \<Rightarrow> module_rec option" where
  "find_rec mname [] = None"
| "find_rec mname (r # rs) = (if stricmp mname (mod_name r) = 0 then Some r else find_rec mname rs)"

definition getrec :: "string \<Rightarrow> module_rec list \<Rightarrow> int \<times> module_rec option" where
  "getrec mname ms =
     (case find_rec mname ms of
        None \<Rightarrow> (1, None)
      | Some r \<Rightarrow> if load_status r = LOADING then (-1, None) else (0, Some r))"

fun getrec2 :: "u32 \<Rightarrow> module_rec list \<Rightarrow> int \<times> module_rec option" where
  "getrec2 hmod [] = (1, None)"
| "getrec2 hmod (r # rs) =
     (if hmod = rec_addr r then if load_status r = LOADING then (-1, None) else (0, Some r)
      else getrec2 hmod rs)"

text \<open>Appending to the list of instances of the record that was found.\<close>

fun add_instance :: "string \<Rightarrow> instance_rec \<Rightarrow> module_rec list \<Rightarrow> module_rec list" where
  "add_instance mname i [] = []"
| "add_instance mname i (r # rs) =
     (if stricmp mname (mod_name r) = 0 then r\<lparr>up := up r @ [i]\<rparr> # rs else r # add_instance mname i rs)"

definition last_instance :: "module_rec \<Rightarrow> nat" where
  "last_instance r = (if up r = [] then instance_no r else instance_no (last (up r)))"

definition ModRegister :: "string \<Rightarrow> u32 \<Rightarrow> bool \<Rightarrow> exec_state \<Rightarrow> (u32 \<times> exec_state) option" where
  "ModRegister mname mod_struct exeflag st =
     (let (a, st) = malloc st in
      if a = 0 then None
      else case getrec mname (modules st) of
        (t, prev) \<Rightarrow>
          if t = 0 \<and> exeflag then
            Some (a, st\<lparr>modules := add_instance mname
              \<lparr>rec_addr = a, mod_name = mname, module_struct = mod_struct,
               instance_no = last_instance (the prev) + 1, load_status = DONE_LOADING\<rparr> (modules st)\<rparr>)
          else
            Some (a, st\<lparr>modules := modules st @
              [\<lparr>rec_addr = a, mod_name = mname, module_struct = mod_struct,
                instance_no = 0, load_status = DONE_LOADING, up = []\<rparr>]\<rparr>))"

text \<open>A store to the member \<open>load_status\<close> through a pointer to the record.\<close>

definition set_load_status :: "u32 \<Rightarrow> nat \<Rightarrow> module_rec list \<Rightarrow> module_rec list" where
  "set_load_status a v ms = map (\<lambda>r.
     (if rec_addr r = a then r\<lparr>load_status := v\<rparr> else r)
       \<lparr>up := map (\<lambda>i. if rec_addr i = a then i\<lparr>load_status := v\<rparr> else i) (up r)\<rparr>) ms"

definition ModQueryModuleHandle :: "string \<Rightarrow> exec_state \<Rightarrow> u32 \<times> u32" where
  "ModQueryModuleHandle pszModname st =
     (case getrec (get_fname pszModname) (modules st) of
        (t, prev) \<Rightarrow> if t \<noteq> 0 then (ERROR_INVALID_NAME, 0) else (NO_ERROR, module_struct (the prev)))"

text \<open>The code and the contents of the buffer, which is only written on the paths that store to it.\<close>

definition ModQueryModuleName :: "u32 \<Rightarrow> u32 \<Rightarrow> string \<Rightarrow> exec_state \<Rightarrow> u32 \<times> string" where
  "ModQueryModuleName hmod cbName pchName st =
     (case getrec2 hmod (modules st) of
        (t, prev) \<Rightarrow>
          if t \<noteq> 0 then (ERROR_INVALID_HANDLE, [])
          else if of_nat (length (mod_name (the prev))) + 1 > cbName then (ERROR_BAD_LENGTH, pchName)
          else (NO_ERROR, mod_name (the prev)))"


section \<open>Names are compared without regard to case\<close>

lemma tolower_NUL [simp]: "tolower NUL = NUL"
  by simp

lemma fold_case_tolower: "fold_case c = of_char (tolower c)"
  by (simp only: fold_case_def of_char_tolower Let_def)

lemma fold_case_inj: "fold_case c = fold_case d \<longleftrightarrow> tolower c = tolower d"
  by (simp add: fold_case_tolower)

lemma cstr_first: "cstr s = (if cs_at s 0 = NUL then [] else cs_at s 0 # cstr (tl s))"
  by (cases s) (auto simp: cstr_def cs_at_def)

lemma stricmp_eq_0: "stricmp s t = 0 \<longleftrightarrow> map tolower (cstr s) = map tolower (cstr t)"
proof (induction s t rule: stricmp.induct)
  case (1 s t)
  then show ?case
    unfolding stricmp.simps [of s t] cstr_first [of s] cstr_first [of t]
    by (cases "cs_at s 0 = NUL"; cases "cs_at t 0 = NUL")
      (auto simp: fold_case_inj fold_case_NUL Let_def dest: sym [of NUL])
qed

text \<open>Comparing names: \<open>stricmp\<close> returns 0 exactly for strings that agree up to the case of letters,
  and exchanging its arguments changes the sign of the result.\<close>

theorem stricmp_equivalence:
  "(stricmp s t = 0 \<longleftrightarrow> map tolower (cstr s) = map tolower (cstr t)) \<and> stricmp t s = - stricmp s t"
proof
  show "stricmp t s = - stricmp s t"
    by (induction s t rule: stricmp.induct) (subst (1 2) stricmp.simps, auto simp: Let_def)
qed (rule stricmp_eq_0)

text \<open>With a bound at least as long as both strings the bounded comparison is the other one.\<close>

lemma strnicmp_long: "int (length s) < n \<Longrightarrow> strnicmp s t n = stricmp s t"
proof (induction s t n rule: strnicmp.induct)
  case (1 s t n)
  show ?case
    unfolding stricmp.simps [of s t] strnicmp.simps [of s t n]
    using 1 by (cases s) (auto simp: Let_def fold_case_NUL cs_at_def fold_case_inj)
qed

lemma stricmp_refl [simp]: "stricmp s s = 0"
  by (simp add: stricmp_eq_0)

section \<open>The interface of the registry\<close>

text \<open>
  What the loader relies on: \<open>lookup\<close> gives the handle registered for a name, \<open>reg\<close> registers one, and
  names that are the \<open>same\<close> cannot be told apart.
\<close>

fun reg_all :: "(string \<Rightarrow> u32 \<Rightarrow> bool \<Rightarrow> 's \<Rightarrow> (u32 \<times> 's) option) \<Rightarrow> (string \<times> u32 \<times> bool) list \<Rightarrow> 's \<Rightarrow> 's option" where
  "reg_all reg [] s = Some s"
| "reg_all reg ((n, h, e) # xs) s = do { (_, s) \<leftarrow> reg n h e s; reg_all reg xs s }"

locale module_registry =
  fixes lookup :: "string \<Rightarrow> 's \<Rightarrow> u32 option"
    and reg :: "string \<Rightarrow> u32 \<Rightarrow> bool \<Rightarrow> 's \<Rightarrow> (u32 \<times> 's) option"
    and same :: "string \<Rightarrow> string \<Rightarrow> bool"
  assumes same_refl: "same n n"
    and same_sym: "same n n' \<Longrightarrow> same n' n"
    and lookup_same: "same n n' \<Longrightarrow> lookup n s = lookup n' s"
    and lookup_new: "reg n h e s = Some (a, s') \<Longrightarrow> lookup n s = None
      \<Longrightarrow> lookup n' s' = (if same n' n then Some h else lookup n' s)"
    and lookup_old: "reg n h e s = Some (a, s') \<Longrightarrow> lookup n s = Some h0 \<Longrightarrow> lookup n' s' = lookup n' s"
begin

lemma lookup_reg:
  assumes "reg n h e s = Some (a, s')"
  shows "lookup n' s' = (case lookup n' s of Some h0 \<Rightarrow> Some h0 | None \<Rightarrow> if same n' n then Some h else None)"
  using lookup_new [OF assms] lookup_old [OF assms] lookup_same [of n' n s]
  by (cases "lookup n s") (auto split: option.splits)

lemma lookup_stable: "reg n h e s = Some (a, s') \<Longrightarrow> lookup n' s = Some h0 \<Longrightarrow> lookup n' s' = Some h0"
  by (simp add: lookup_reg)

lemma lookup_reg_all:
  "reg_all reg xs s = Some s' \<Longrightarrow>
   lookup n s' = (case lookup n s of Some h \<Rightarrow> Some h
     | None \<Rightarrow> map_option (fst \<circ> snd) (find (\<lambda>x. same n (fst x)) xs))"
proof (induction xs arbitrary: s)
  case (Cons x xs)
  obtain m h e where x: "x = (m, h, e)" by (cases x) auto
  then obtain a t where "reg m h e s = Some (a, t)" "reg_all reg xs t = Some s'"
    using Cons.prems by (auto simp: bind_eq_Some_conv)
  with Cons.IH [of t] x show ?case
    by (auto simp: lookup_reg comp_def split: option.splits)
qed (simp split: option.splits)

end

definition registered :: "string \<Rightarrow> exec_state \<Rightarrow> u32 option" where
  "registered n st = map_option module_struct (find_rec n (modules st))"

definition same_name :: "string \<Rightarrow> string \<Rightarrow> bool" where
  "same_name n n' \<longleftrightarrow> stricmp n n' = 0"

lemma find_rec_append:
  "find_rec n (ms @ ms') = (case find_rec n ms of None \<Rightarrow> find_rec n ms' | Some r \<Rightarrow> Some r)"
  by (induction ms) auto

lemma find_rec_add_instance:
  "map_option module_struct (find_rec n (add_instance m i ms)) = map_option module_struct (find_rec n ms)"
  by (induction ms) auto

lemma malloc_modules [simp]: "malloc st = (a, st') \<Longrightarrow> modules st' = modules st"
  by (auto simp: malloc_def split: list.splits)

lemma ModRegister_modules:
  assumes "ModRegister n h e st = Some (a, st')"
  obtains r where "modules st' = modules st @ [r]" "mod_name r = n" "module_struct r = h" "up r = []"
      "instance_no r = 0" "rec_addr r = a" "load_status r = DONE_LOADING" "\<not> (fst (getrec n (modules st)) = 0 \<and> e)"
  | i r0 where "modules st' = add_instance n i (modules st)" "getrec n (modules st) = (0, Some r0)" "e"
      "mod_name i = n" "module_struct i = h" "instance_no i = last_instance r0 + 1" "rec_addr i = a"
      "load_status i = DONE_LOADING"
  using assms
  by (force simp: ModRegister_def getrec_def Let_def split: prod.splits if_splits option.splits)

lemma find_rec_same: "stricmp n n' = 0 \<Longrightarrow> find_rec n ms = find_rec n' ms"
  by (induction ms) (auto simp: stricmp_eq_0)

interpretation mods: module_registry registered ModRegister same_name
proof (unfold_locales, goal_cases)
  case (3 n n' s)
  then show ?case by (simp add: registered_def same_name_def find_rec_same)
next
  case (4 n h e s a s' n')
  then show ?case
    by (elim ModRegister_modules)
      (auto simp: registered_def same_name_def find_rec_append getrec_def find_rec_same [of n'] split: option.splits)
next
  case (5 n h e s a s' h0 n')
  from 5(1) show ?case
  proof (cases rule: ModRegister_modules)
    case (1 r)
    then show ?thesis
      using 5(2) by (auto simp: registered_def find_rec_append find_rec_same [of n'] split: option.splits)
  qed (simp add: registered_def find_rec_add_instance)
qed (simp_all add: same_name_def stricmp_eq_0)

text \<open>C29: The registry keeps what it was told first: after any sequence of registrations a lookup, in
  any letter case, returns the handle it returned before, or else the handle of the first registration
  under that name.\<close>

theorem first_registration_wins:
  assumes "reg_all ModRegister xs st = Some st'"
  shows "registered n st' = (case registered n st of Some h \<Rightarrow> Some h
     | None \<Rightarrow> map_option (fst \<circ> snd) (find (\<lambda>x. same_name n (fst x)) xs))"
  by (rule mods.lookup_reg_all [OF assms])

definition exec_state0 :: exec_state where
  "exec_state0 = \<lparr>heap = (\<lambda>_. None), emem = (\<lambda>_. 0), areas = [], mallocs = [0x100, 0x200, 0x300], modules = [],
     tok = tok_state0\<rparr>"

lemma three_registrations:
  "\<exists>st. reg_all ModRegister [(''KAL'', 5, False), (''cmd'', 6, True), (''CMD'', 7, True)] exec_state0 = Some st \<and>
     modules st = [
       \<lparr>rec_addr = 0x100, mod_name = ''KAL'', module_struct = 5, instance_no = 0, load_status = 0, up = []\<rparr>,
       \<lparr>rec_addr = 0x200, mod_name = ''cmd'', module_struct = 6, instance_no = 0, load_status = 0,
        up = [\<lparr>rec_addr = 0x300, mod_name = ''CMD'', module_struct = 7, instance_no = 1, load_status = 0\<rparr>]\<rparr>]"
  by (simp add: ModRegister_def exec_state0_def malloc_def getrec_def stricmp.simps fold_case_def cs_at_def
      last_instance_def)

theorem first_registration_wins_witness:
  "\<exists>st. reg_all ModRegister [(''KAL'', 5, False), (''cmd'', 6, True), (''CMD'', 7, True)] exec_state0 = Some st
     \<and> registered ''Cmd'' st = Some 6"
proof -
  obtain st where st: "reg_all ModRegister [(''KAL'', 5, False), (''cmd'', 6, True), (''CMD'', 7, True)] exec_state0 = Some st"
    using three_registrations by blast
  moreover have "registered ''Cmd'' exec_state0 = None"
    by (simp add: registered_def exec_state0_def)
  moreover have "\<not> same_name ''Cmd'' ''KAL''" "same_name ''Cmd'' ''cmd''"
    by (simp_all add: same_name_def stricmp.simps fold_case_def cs_at_def)
  ultimately show ?thesis
    using first_registration_wins [OF st, of "''Cmd''"] by simp
qed

section \<open>Instances\<close>

definition chain_wf :: "module_rec \<Rightarrow> bool" where
  "chain_wf r \<longleftrightarrow> instance_no r = 0 \<and> map instance_no (up r) = [1..<Suc (length (up r))]
     \<and> list_all (\<lambda>i. same_name (mod_name i) (mod_name r)) (up r)"

lemma chain_wf_last: "chain_wf r \<Longrightarrow> last_instance r = length (up r)"
proof (cases "up r" rule: rev_cases)
  case (snoc us u)
  assume "chain_wf r"
  with snoc have "map instance_no (us @ [u]) ! length us = [1..<Suc (length (up r))] ! length us"
    by (simp add: chain_wf_def)
  with snoc show ?thesis by (simp add: nth_append last_instance_def nth_upt del: upt_Suc)
qed (simp add: chain_wf_def last_instance_def)

lemma add_instance_wf:
  assumes "list_all chain_wf ms" and "find_rec n ms = Some r0"
    and "instance_no i = last_instance r0 + 1" and "mod_name i = n"
  shows "list_all chain_wf (add_instance n i ms)"
  using assms
proof (induction ms)
  case (Cons r ms)
  show ?case
  proof (cases "stricmp n (mod_name r) = 0")
    case True
    with Cons.prems have "r0 = r" "chain_wf r" by simp_all
    with True Cons.prems chain_wf_last [of r] have "chain_wf (r\<lparr>up := up r @ [i]\<rparr>)"
      by (simp add: chain_wf_def same_name_def)
    with True Cons.prems show ?thesis by simp
  qed (use Cons in simp)
qed simp

lemma ModRegister_wf:
  assumes "list_all chain_wf (modules st)" and "ModRegister n h e st = Some (a, st')"
  shows "list_all chain_wf (modules st')"
  using assms(2)
proof (cases rule: ModRegister_modules)
  case (1 r)
  with assms(1) show ?thesis by (simp add: chain_wf_def)
next
  case (2 i r0)
  then have "find_rec n (modules st) = Some r0"
    by (auto simp: getrec_def split: option.splits if_splits)
  with 2 assms(1) show ?thesis by (simp add: add_instance_wf)
qed

lemma set_load_status_wf: "list_all chain_wf ms \<Longrightarrow> list_all chain_wf (set_load_status a v ms)"
proof (induction ms)
  case (Cons r ms)
  have "map instance_no (map (\<lambda>i. if rec_addr i = a then i\<lparr>load_status := v\<rparr> else i) us) = map instance_no us"
    "list_all (\<lambda>i. same_name (mod_name i) n) (map (\<lambda>i. if rec_addr i = a then i\<lparr>load_status := v\<rparr> else i) us)
      = list_all (\<lambda>i. same_name (mod_name i) n) us" for us :: "instance_rec list" and n
    by (induction us) auto
  with Cons show ?case by (simp add: set_load_status_def chain_wf_def del: map_map)
qed (simp add: set_load_status_def)

text \<open>Instances of programs: any sequence of registrations keeps every chain of instances numbered
  consecutively from 0 and under one name.\<close>

theorem instances_numbered:
  assumes "list_all chain_wf (modules st)" and "reg_all ModRegister xs st = Some st'"
  shows "list_all chain_wf (modules st')"
  using assms
proof (induction xs arbitrary: st)
  case (Cons x xs)
  obtain n h e where x: "x = (n, h, e)" by (cases x) auto
  then obtain a t where "ModRegister n h e st = Some (a, t)" "reg_all ModRegister xs t = Some st'"
    using Cons.prems by (auto simp: bind_eq_Some_conv)
  with Cons ModRegister_wf show ?case by blast
qed simp

theorem instances_numbered_witness:
  "\<exists>st r. reg_all ModRegister [(''KAL'', 5, False), (''cmd'', 6, True), (''CMD'', 7, True)] exec_state0 = Some st
     \<and> r \<in> set (modules st) \<and> chain_wf r \<and> map instance_no (up r) = [1]"
proof -
  obtain st where st: "reg_all ModRegister [(''KAL'', 5, False), (''cmd'', 6, True), (''CMD'', 7, True)] exec_state0 = Some st"
    and ms: "\<exists>r \<in> set (modules st). map instance_no (up r) = [1]"
    using three_registrations by fastforce
  have "list_all chain_wf (modules exec_state0)" by (simp add: exec_state0_def)
  from instances_numbered [OF this st] st ms show ?thesis by (auto simp: list_all_iff)
qed

section \<open>Queries\<close>

lemma getrec2_append:
  "hmod \<notin> rec_addr ` set ms \<Longrightarrow> getrec2 hmod (ms @ ms') = getrec2 hmod ms'"
  by (induction ms) auto

text \<open>Handles: after a new module has been registered the query by name returns its handle, but the
  query for the name of that handle fails with \<open>ERROR_INVALID_HANDLE\<close>: it answers only for the address of
  the registry's record, which no operation gives out.\<close>

theorem module_handle_queries:
  assumes "ModRegister (get_fname f) h e st = Some (a, st')" and "registered (get_fname f) st = None"
    and "a \<notin> rec_addr ` set (modules st)" and "h \<notin> rec_addr ` set (modules st)" and "h \<noteq> a"
    and "length (get_fname f) < unat cb"
  shows "ModQueryModuleHandle f st' = (NO_ERROR, h)
    \<and> ModQueryModuleName h cb buf st' = (ERROR_INVALID_HANDLE, [])
    \<and> ModQueryModuleName a cb buf st' = (NO_ERROR, get_fname f)"
proof -
  have none: "find_rec (get_fname f) (modules st) = None"
    using assms(2) by (simp add: registered_def)
  have cb: "\<not> cb < of_nat (length (get_fname f)) + 1"
  proof -
    have "length (get_fname f) + 1 \<le> unat cb" using assms(6) by simp
    moreover have "unat cb < 2 ^ 32" using unsigned_less [of cb, where ?'a = nat] by simp
    ultimately have "(of_nat (length (get_fname f) + 1) :: u32) \<le> cb"
      by (subst word_le_nat_alt, subst unat_of_nat32) simp_all
    then show ?thesis by (simp add: not_less add.commute)
  qed
  from assms(1) show ?thesis
  proof (cases rule: ModRegister_modules)
    case (1 r)
    with assms(3-5) none cb show ?thesis
      by (simp add: ModQueryModuleHandle_def ModQueryModuleName_def getrec_def find_rec_append getrec2_append)
  next
    case (2 i r0)
    with none show ?thesis by (simp add: getrec_def)
  qed
qed

theorem module_handle_queries_witness:
  "\<exists>st. ModRegister ''KAL'' 5 False exec_state0 = Some (0x100, st) \<and> ModQueryModuleHandle ''KAL.DLL'' st = (0, 5)
     \<and> ModQueryModuleName 5 260 [] st = (6, [])"
proof -
  have f: "get_fname ''KAL.DLL'' = ''KAL''" by (simp add: get_fname_def)
  obtain st where "ModRegister ''KAL'' 5 False exec_state0 = Some (0x100, st)"
    by (simp add: ModRegister_def exec_state0_def malloc_def getrec_def)
  with module_handle_queries [of "''KAL.DLL''" 5 False exec_state0 "0x100" st 260 "[]"] show ?thesis
    by (simp add: f registered_def exec_state0_def)
qed

end
