(* ===== verification/ModLink.thy ===== *)
theory ModLink
  imports ModRegistry
begin

text \<open>
  Resolving exports and linking imports (\<open>ModQueryProcAddr\<close> and \<open>ModLinkModule\<close> of
  \<^verbatim>\<open>server/os2exec/modmgr.c\<close>). A forwarder makes \<open>ModQueryProcAddr\<close> call itself; the recursion is bounded
  by fuel, and a call without a value is one that reads through a null pointer, leaves an array or runs
  out of fuel. What an export resolves to is specified by the inductive relation \<open>resolves\<close>.
\<close>

section \<open>Operations\<close>

text \<open>The search of the list for a module structure.\<close>

fun find_struct :: "u32 \<Rightarrow> module_rec list \<Rightarrow> module_rec option" where
  "find_struct hmod [] = None"
| "find_struct hmod (r # rs) = (if hmod = module_struct r then Some r else find_struct hmod rs)"

definition exports :: "exec_state \<Rightarrow> u32 \<Rightarrow> (u32 \<times> IXFMODULEENTRY list) option" where
  "exports st h = map_option (\<lambda>m. (cbEntries (m_ixf m), Entries (m_ixf m))) (heap st h)"

text \<open>The search by name; the inner \<open>None\<close> is the end of the loop.\<close>

fun find_entry :: "nat \<Rightarrow> IXFMODULEENTRY list \<Rightarrow> string option \<Rightarrow> IXFMODULEENTRY option option" where
  "find_entry 0 es pszName = Some None"
| "find_entry (Suc n) [] pszName = None"
| "find_entry (Suc n) (e # es) pszName = do {
     a \<leftarrow> FunctionName e;
     b \<leftarrow> pszName;
     if a = b then Some (Some e) else find_entry n es pszName }"

definition entry_at :: "u32 \<times> IXFMODULEENTRY list \<Rightarrow> u32 \<Rightarrow> string option \<Rightarrow> IXFMODULEENTRY option option" where
  "entry_at x ordinal pszName =
     (if ordinal > 0
      then if unat ordinal - 1 < length (snd x) then Some (Some (snd x ! (unat ordinal - 1))) else None
      else find_entry (unat (fst x)) (snd x) pszName)"

text \<open>One call up to its recursive call: \<open>Inl\<close> is a return with the code and \<open>*ppfn\<close>.\<close>

definition proc_step ::
    "exec_state \<Rightarrow> u32 \<Rightarrow> u32 \<Rightarrow> string option \<Rightarrow> u32 \<Rightarrow> ((u32 \<times> u32) + (u32 \<times> u32 \<times> string option)) option" where
  "proc_step st hmod ordinal pszName pfn = do {
     r \<leftarrow> find_struct hmod (modules st);
     x \<leftarrow> exports st (module_struct r);
     e \<leftarrow> entry_at x ordinal pszName;
     Some (case e of
        None \<Rightarrow> Inl (0, pfn)
      | Some e \<Rightarrow> (case ModuleName e of
          None \<Rightarrow> Inl (0, Address e)
        | Some mn \<Rightarrow> (case find_rec mn (modules st) of
            None \<Rightarrow> Inr (0, of_int (Ordinal e), FunctionName e)
          | Some r \<Rightarrow> if load_status r = LOADING then Inl (ERROR_ACCESS_DENIED, pfn)
              else Inr (module_struct r, of_int (Ordinal e), FunctionName e)))) }"

fun ModQueryProcAddr :: "nat \<Rightarrow> exec_state \<Rightarrow> u32 \<Rightarrow> u32 \<Rightarrow> string option \<Rightarrow> u32 \<Rightarrow> (u32 \<times> u32) option" where
  "ModQueryProcAddr 0 st hmod ordinal pszName pfn = None"
| "ModQueryProcAddr (Suc fuel) st hmod ordinal pszName pfn =
     (case proc_step st hmod ordinal pszName pfn of
        None \<Rightarrow> None
      | Some (Inl x) \<Rightarrow> Some x
      | Some (Inr (h, ord, name)) \<Rightarrow> ModQueryProcAddr fuel st h ord name pfn)"

text \<open>
  One import of the module structure at \<open>h\<close>: \<open>Inl\<close> is the early return, both carry the value of \<open>*phmod\<close>.
\<close>

definition link_one :: "nat \<Rightarrow> u32 \<Rightarrow> nat \<Rightarrow> exec_state \<Rightarrow> (u32 + (u32 \<times> exec_state)) option" where
  "link_one fuel h i st = do {
     m \<leftarrow> heap st h;
     fx \<leftarrow> (if i < length (Fixups (m_ixf m)) then Some (Fixups (m_ixf m) ! i) else None);
     mn \<leftarrow> ModuleName (ImportEntry fx);
     r \<leftarrow> find_rec mn (modules st);
     if load_status r = LOADING then Some (Inl 0)
     else do {
       (_, a) \<leftarrow> ModQueryProcAddr fuel st (module_struct r) (of_int (Ordinal (ImportEntry fx)))
         (FunctionName (ImportEntry fx)) (Address (ImportEntry fx));
       let fx' = fx\<lparr>ImportEntry := (ImportEntry fx)\<lparr>Address := a\<rparr>\<rparr>;
       let relative_jmp = a - SrcAddress fx - 4;
       Some (Inr (module_struct r, st\<lparr>
         heap := (heap st)(h \<mapsto> m\<lparr>m_ixf := (m_ixf m)\<lparr>Fixups := (Fixups (m_ixf m))[i := fx']\<rparr>\<rparr>),
         emem := mem_wr32 (emem st) (SrcVmAddress fx) relative_jmp\<rparr>)) } }"

fun link_loop :: "nat \<Rightarrow> u32 \<Rightarrow> nat list \<Rightarrow> u32 \<Rightarrow> exec_state \<Rightarrow> (u32 \<times> exec_state) option" where
  "link_loop fuel h [] phmod st = Some (phmod, st)"
| "link_loop fuel h (i # is) phmod st = do {
     x \<leftarrow> link_one fuel h i st;
     case x of Inl p \<Rightarrow> Some (p, st) | Inr (p, st) \<Rightarrow> link_loop fuel h is p st }"

definition ModLinkModule :: "nat \<Rightarrow> u32 \<Rightarrow> u32 \<Rightarrow> exec_state \<Rightarrow> (u32 \<times> exec_state) option" where
  "ModLinkModule fuel h phmod st = do {
     m \<leftarrow> heap st h;
     link_loop fuel h [0..<unat (cbFixups (m_ixf m))] phmod st }"

section \<open>What an export resolves to\<close>

inductive resolves :: "exec_state \<Rightarrow> u32 \<Rightarrow> u32 \<Rightarrow> string option \<Rightarrow> u32 \<Rightarrow> bool" for st where
  own: "find_struct h (modules st) = Some r \<Longrightarrow> exports st (module_struct r) = Some x
    \<Longrightarrow> entry_at x ord name = Some (Some e) \<Longrightarrow> ModuleName e = None \<Longrightarrow> resolves st h ord name (Address e)"
| forwarded: "find_struct h (modules st) = Some r \<Longrightarrow> exports st (module_struct r) = Some x
    \<Longrightarrow> entry_at x ord name = Some (Some e) \<Longrightarrow> ModuleName e = Some mn
    \<Longrightarrow> find_rec mn (modules st) = Some r' \<Longrightarrow> load_status r' \<noteq> LOADING
    \<Longrightarrow> resolves st (module_struct r') (of_int (Ordinal e)) (FunctionName e) a
    \<Longrightarrow> resolves st h ord name a"

inductive_cases resolvesE: "resolves st h ord name a"

lemma proc_step_own:
  assumes "find_struct h (modules st) = Some r" "exports st (module_struct r) = Some x"
    "entry_at x ord name = Some (Some e)" "ModuleName e = None"
  shows "proc_step st h ord name pfn = Some (Inl (0, Address e))"
  using assms by (simp add: proc_step_def)

lemma proc_step_forwarded:
  assumes "find_struct h (modules st) = Some r" "exports st (module_struct r) = Some x"
    "entry_at x ord name = Some (Some e)" "ModuleName e = Some mn"
    "find_rec mn (modules st) = Some r'" "load_status r' \<noteq> LOADING"
  shows "proc_step st h ord name pfn = Some (Inr (module_struct r', of_int (Ordinal e), FunctionName e))"
  using assms by (simp add: proc_step_def)

lemma ModQueryProcAddr_mono:
  "ModQueryProcAddr fuel st h ord name pfn = Some x \<Longrightarrow> fuel \<le> fuel' \<Longrightarrow> ModQueryProcAddr fuel' st h ord name pfn = Some x"
proof (induction fuel arbitrary: fuel' h ord name)
  case (Suc fuel)
  then obtain f where "fuel' = Suc f" "fuel \<le> f" by (cases fuel') auto
  with Suc show ?case by (auto split: option.splits sum.splits)
qed simp

lemma resolves_query:
  "resolves st h ord name a \<Longrightarrow> \<exists>fuel. ModQueryProcAddr fuel st h ord name pfn = Some (0, a)"
proof (induction rule: resolves.induct)
  case (own h r x ord name e)
  then have "ModQueryProcAddr (Suc 0) st h ord name pfn = Some (0, Address e)"
    by (simp add: proc_step_own)
  then show ?case by blast
next
  case (forwarded h r x ord name e mn r' a)
  then obtain fuel where "ModQueryProcAddr fuel st (module_struct r') (of_int (Ordinal e)) (FunctionName e) pfn = Some (0, a)"
    by blast
  with forwarded have "ModQueryProcAddr (Suc fuel) st h ord name pfn = Some (0, a)"
    by (simp add: proc_step_forwarded)
  then show ?case by blast
qed

lemma find_struct_None: "h \<notin> module_struct ` set ms \<Longrightarrow> find_struct h ms = None"
  by (induction ms) auto

lemma query_resolves:
  assumes "0 \<notin> module_struct ` set (modules st)"
  shows "ModQueryProcAddr fuel st h ord name pfn = Some (0, a) \<Longrightarrow> resolves st h ord name a \<or> a = pfn"
proof (induction fuel arbitrary: h ord name)
  case (Suc fuel)
  then obtain y where y: "proc_step st h ord name pfn = Some y" by (auto split: option.splits)
  then obtain r x eo where e: "find_struct h (modules st) = Some r" "exports st (module_struct r) = Some x"
      "entry_at x ord name = Some eo"
    by (auto simp: proc_step_def bind_eq_Some_conv)
  show ?case
  proof (cases eo)
    case None
    with Suc.prems e show ?thesis by (simp add: proc_step_def)
  next
    case eo: (Some e')
    show ?thesis
    proof (cases "ModuleName e'")
      case None
      with Suc.prems e eo show ?thesis by (auto simp: proc_step_def intro: resolves.own)
    next
      case (Some mn)
      show ?thesis
      proof (cases "find_rec mn (modules st)")
        case None
        have "ModQueryProcAddr fuel st 0 (of_int (Ordinal e')) (FunctionName e') pfn = Some (0, a)"
          using Suc.prems e eo Some None by (simp add: proc_step_def)
        then show ?thesis
          using find_struct_None [OF assms] by (cases fuel) (simp_all add: proc_step_def)
      next
        case r': (Some r')
        have l: "load_status r' \<noteq> LOADING"
          using Suc.prems e eo Some r' by (auto simp: proc_step_def)
        then have "ModQueryProcAddr fuel st (module_struct r') (of_int (Ordinal e')) (FunctionName e') pfn = Some (0, a)"
          using Suc.prems e eo Some r' by (simp add: proc_step_def)
        with Suc.IH resolves.forwarded [OF e(1,2) _ Some r' l] e(3) eo show ?thesis by blast
      qed
    qed
  qed
qed simp

text \<open>C3: Exports: when every registered module has a structure, \<open>ModQueryProcAddr\<close> returns success with a
  new address exactly when the export resolves to that address, through any chain of forwarders, and then
  it does so with every larger amount of fuel.\<close>

theorem query_iff_resolves:
  assumes "0 \<notin> module_struct ` set (modules st)" and "a \<noteq> pfn"
  shows "(\<exists>n. \<forall>fuel \<ge> n. ModQueryProcAddr fuel st h ord name pfn = Some (NO_ERROR, a)) \<longleftrightarrow> resolves st h ord name a"
proof
  assume "\<exists>n. \<forall>fuel \<ge> n. ModQueryProcAddr fuel st h ord name pfn = Some (NO_ERROR, a)"
  then obtain n where "ModQueryProcAddr n st h ord name pfn = Some (NO_ERROR, a)" by blast
  from query_resolves [OF assms(1) this] assms(2) show "resolves st h ord name a" by simp
next
  assume "resolves st h ord name a"
  then obtain n where "ModQueryProcAddr n st h ord name pfn = Some (NO_ERROR, a)"
    using resolves_query by blast
  then show "\<exists>n. \<forall>fuel \<ge> n. ModQueryProcAddr fuel st h ord name pfn = Some (NO_ERROR, a)"
    by (intro exI [of _ n] allI impI) (rule ModQueryProcAddr_mono)
qed

definition entry_fwd :: "string \<Rightarrow> int \<Rightarrow> IXFMODULEENTRY" where
  "entry_fwd mn ord = entry0\<lparr>ModuleName := Some mn, Ordinal := ord\<rparr>"

definition fwd_import :: IXFFIXUPENTRY where
  "fwd_import = \<lparr>SrcAddress = 0x2000, SrcVmAddress = 0x3000, ImportEntry = entry_fwd ''a'' 1\<rparr>"

text \<open>
  Two modules: the first export of A is forwarded to the second of B, whose first export is forwarded
  to itself; a third one is not registered yet and imports the first export of A.
\<close>

definition fwd_state :: exec_state where
  "fwd_state = exec_state0\<lparr>
     modules := [\<lparr>rec_addr = 0x50, mod_name = ''A'', module_struct = 5, instance_no = 0, load_status = 0, up = []\<rparr>,
       \<lparr>rec_addr = 0x60, mod_name = ''B'', module_struct = 6, instance_no = 0, load_status = 0, up = []\<rparr>],
     heap := [5 \<mapsto> raw_exec_module\<lparr>m_ixf := (m_ixf raw_exec_module)\<lparr>cbEntries := 1, Entries := [entry_fwd ''b'' 2]\<rparr>\<rparr>,
       6 \<mapsto> raw_exec_module\<lparr>m_ixf := (m_ixf raw_exec_module)\<lparr>cbEntries := 2,
         Entries := [entry_fwd ''b'' 1, entry0\<lparr>Address := 0x1234\<rparr>]\<rparr>\<rparr>,
       7 \<mapsto> raw_exec_module\<lparr>m_ixf := (m_ixf raw_exec_module)\<lparr>cbFixups := 1, Fixups := [fwd_import]\<rparr>\<rparr>]\<rparr>"

lemma fwd_state_lookup:
  "find_struct 5 (modules fwd_state) = Some \<lparr>rec_addr = 0x50, mod_name = ''A'', module_struct = 5, instance_no = 0, load_status = 0, up = []\<rparr>"
  "find_struct 6 (modules fwd_state) = Some \<lparr>rec_addr = 0x60, mod_name = ''B'', module_struct = 6, instance_no = 0, load_status = 0, up = []\<rparr>"
  "find_rec ''b'' (modules fwd_state) = Some \<lparr>rec_addr = 0x60, mod_name = ''B'', module_struct = 6, instance_no = 0, load_status = 0, up = []\<rparr>"
  "exports fwd_state 5 = Some (1, [entry_fwd ''b'' 2])"
  "exports fwd_state 6 = Some (2, [entry_fwd ''b'' 1, entry0\<lparr>Address := 0x1234\<rparr>])"
  by (simp_all add: fwd_state_def exports_def stricmp.simps fold_case_def cs_at_def)

lemma entry_fwd_simps [simp]:
  "ModuleName (entry_fwd mn ord) = Some mn" "Ordinal (entry_fwd mn ord) = ord" "FunctionName (entry_fwd mn ord) = None"
  by (simp_all add: entry_fwd_def entry0_def)

lemma fwd_state_resolves: "resolves fwd_state 5 1 None 0x1234"
proof -
  have "ModuleName (entry0\<lparr>Address := 0x1234\<rparr>) = None" by (simp add: entry0_def)
  from resolves.own [OF fwd_state_lookup(2) _ _ this, of "(2, [entry_fwd ''b'' 1, entry0\<lparr>Address := 0x1234\<rparr>])" 2 None]
  have "resolves fwd_state 6 2 None 0x1234" by (simp add: fwd_state_lookup entry_at_def)
  then show ?thesis
    by (intro resolves.forwarded [where e = "entry_fwd ''b'' 2" and x = "(1, [entry_fwd ''b'' 2])",
          OF fwd_state_lookup(1) _ _ _ fwd_state_lookup(3)])
      (simp_all add: fwd_state_lookup entry_at_def)
qed

theorem query_iff_resolves_witness:
  "resolves fwd_state 5 1 None 0x1234 \<and> (\<exists>fuel. ModQueryProcAddr fuel fwd_state 5 1 None 0 = Some (0, 0x1234))"
proof -
  have "0 \<notin> module_struct ` set (modules fwd_state)" by (simp add: fwd_state_def)
  from query_iff_resolves [OF this, of "0x1234" 0 5 1 None] fwd_state_resolves show ?thesis by auto
qed

text \<open>Circular forwarders: in a set of exports each of which is forwarded to another one of the set no
  query ever returns.\<close>

theorem forwarder_cycle_diverges:
  assumes "\<forall>(h, ord, name) \<in> C. \<exists>q \<in> C. proc_step st h ord name pfn = Some (Inr q)" and "(h, ord, name) \<in> C"
  shows "ModQueryProcAddr fuel st h ord name pfn = None"
  using assms(2)
proof (induction fuel arbitrary: h ord name)
  case (Suc fuel)
  then obtain q where "q \<in> C" "proc_step st h ord name pfn = Some (Inr q)"
    using assms(1) by blast
  with Suc.IH show ?case by (cases q) simp
qed simp

theorem forwarder_cycle_diverges_witness:
  "ModQueryProcAddr 1000 fwd_state 6 1 None 0 = None"
proof -
  have "proc_step fwd_state 6 1 None 0 = Some (Inr (6, 1, None))"
    by (simp add: proc_step_def fwd_state_lookup entry_at_def)
  then show ?thesis
    using forwarder_cycle_diverges [of "{(6, 1, None)}" fwd_state 0 6 1 None 1000] by simp
qed

section \<open>Linking\<close>

text \<open>The import's module is loaded and exports the function at the address.\<close>

definition import_resolved :: "exec_state \<Rightarrow> IXFFIXUPENTRY \<Rightarrow> u32 \<Rightarrow> bool" where
  "import_resolved st fx a \<longleftrightarrow> (\<exists>mn r. ModuleName (ImportEntry fx) = Some mn \<and> find_rec mn (modules st) = Some r
     \<and> load_status r \<noteq> LOADING
     \<and> resolves st (module_struct r) (of_int (Ordinal (ImportEntry fx))) (FunctionName (ImportEntry fx)) a)"

definition import_query :: "nat \<Rightarrow> exec_state \<Rightarrow> IXFFIXUPENTRY \<Rightarrow> u32 \<Rightarrow> bool" where
  "import_query fuel st fx a \<longleftrightarrow> (\<exists>mn r. ModuleName (ImportEntry fx) = Some mn \<and> find_rec mn (modules st) = Some r
     \<and> load_status r \<noteq> LOADING
     \<and> ModQueryProcAddr fuel st (module_struct r) (of_int (Ordinal (ImportEntry fx))) (FunctionName (ImportEntry fx))
         (Address (ImportEntry fx)) = Some (0, a))"

lemma import_query_enough:
  "import_resolved st fx a \<Longrightarrow> \<exists>n. \<forall>fuel \<ge> n. import_query fuel st fx a"
  unfolding import_resolved_def import_query_def by (meson resolves_query ModQueryProcAddr_mono)

lemma import_queries_enough:
  "list_all2 (import_resolved st) fxs as \<Longrightarrow> \<exists>n. \<forall>fuel \<ge> n. list_all2 (import_query fuel st) fxs as"
proof (induction rule: list_all2_induct)
  case (Cons fx fxs a as)
  then obtain n n' where "\<forall>fuel \<ge> n. import_query fuel st fx a" "\<forall>fuel \<ge> n'. list_all2 (import_query fuel st) fxs as"
    using import_query_enough by blast
  then show ?case by (intro exI [of _ "max n n'"]) simp
qed simp

definition jump_write :: "IXFFIXUPENTRY \<Rightarrow> u32 \<Rightarrow> u32 \<times> u32" where
  "jump_write fx a = (SrcVmAddress fx, a - SrcAddress fx - 4)"

text \<open>Linking changes neither the list of modules nor the exports, so queries are not affected.\<close>

lemma query_cong:
  assumes "modules st' = modules st" and "exports st' = exports st"
  shows "ModQueryProcAddr fuel st' h ord name pfn = ModQueryProcAddr fuel st h ord name pfn"
proof (induction fuel arbitrary: h ord name)
  case (Suc fuel)
  have "proc_step st' h ord name pfn = proc_step st h ord name pfn"
    by (simp only: proc_step_def assms)
  with Suc show ?case by (simp split: option.splits sum.splits)
qed simp

definition linked :: "exec_state \<Rightarrow> u32 \<Rightarrow> exec_state \<Rightarrow> bool" where
  "linked st h st' \<longleftrightarrow> modules st' = modules st \<and> exports st' = exports st
     \<and> (\<forall>h'. h' \<noteq> h \<longrightarrow> heap st' h' = heap st h')"

lemma import_query_cong:
  "linked st h st' \<Longrightarrow> import_query fuel st' fx a = import_query fuel st fx a"
  using query_cong [of st' st] by (simp add: import_query_def linked_def)

lemma link_one_resolved:
  assumes m: "heap st h = Some m" and i: "i < length (Fixups (m_ixf m))"
    and q: "import_query fuel st (Fixups (m_ixf m) ! i) a"
  shows "\<exists>p st' m'. link_one fuel h i st = Some (Inr (p, st')) \<and> linked st h st'
    \<and> emem st' = apply_writes [jump_write (Fixups (m_ixf m) ! i) a] (emem st)
    \<and> heap st' h = Some m' \<and> length (Fixups (m_ixf m')) = length (Fixups (m_ixf m))
    \<and> (\<forall>j. j \<noteq> i \<longrightarrow> Fixups (m_ixf m') ! j = Fixups (m_ixf m) ! j)"
proof -
  let ?fx = "Fixups (m_ixf m) ! i"
  obtain mn r where "ModuleName (ImportEntry ?fx) = Some mn" "find_rec mn (modules st) = Some r" "load_status r \<noteq> LOADING"
    "ModQueryProcAddr fuel st (module_struct r) (of_int (Ordinal (ImportEntry ?fx))) (FunctionName (ImportEntry ?fx))
       (Address (ImportEntry ?fx)) = Some (0, a)"
    using q by (auto simp: import_query_def)
  then show ?thesis
    using m i by (simp add: link_one_def linked_def jump_write_def exports_def fun_eq_iff)
qed

lemma link_loop_resolved:
  assumes "heap st h = Some m" and "distinct is" and "\<forall>i \<in> set is. i < length (Fixups (m_ixf m))"
    and "list_all2 (import_query fuel st) (map ((!) (Fixups (m_ixf m))) is) as"
  shows "\<exists>p st'. link_loop fuel h is phmod st = Some (p, st') \<and> linked st h st'
    \<and> emem st' = apply_writes (map2 jump_write (map ((!) (Fixups (m_ixf m))) is) as) (emem st)"
  using assms
proof (induction "is" arbitrary: st m as phmod)
  case Nil
  then show ?case by (simp add: linked_def)
next
  case (Cons i iss)
  obtain a as' where as: "as = a # as'" using Cons.prems(4) by (cases as) auto
  have i: "i < length (Fixups (m_ixf m))" "import_query fuel st (Fixups (m_ixf m) ! i) a"
    using Cons.prems(3,4) as by auto
  obtain p st' m' where one: "link_one fuel h i st = Some (Inr (p, st'))" "linked st h st'"
      "emem st' = apply_writes [jump_write (Fixups (m_ixf m) ! i) a] (emem st)" "heap st' h = Some m'"
      "length (Fixups (m_ixf m')) = length (Fixups (m_ixf m))"
      "\<forall>j. j \<noteq> i \<longrightarrow> Fixups (m_ixf m') ! j = Fixups (m_ixf m) ! j"
    using link_one_resolved [OF Cons.prems(1) i] by blast
  have nth: "map ((!) (Fixups (m_ixf m'))) iss = map ((!) (Fixups (m_ixf m))) iss"
    using one(6) Cons.prems(2) by auto
  have "\<exists>q st''. link_loop fuel h iss p st' = Some (q, st'') \<and> linked st' h st''
    \<and> emem st'' = apply_writes (map2 jump_write (map ((!) (Fixups (m_ixf m'))) iss) as') (emem st')"
  proof (rule Cons.IH [OF one(4)])
    show "distinct iss" "\<forall>i \<in> set iss. i < length (Fixups (m_ixf m'))"
      using Cons.prems(2,3) one(5) by auto
    show "list_all2 (import_query fuel st') (map ((!) (Fixups (m_ixf m'))) iss) as'"
      using Cons.prems(4) unfolding nth import_query_cong [OF one(2), abs_def] as by simp
  qed
  then obtain q st'' where rest: "link_loop fuel h iss p st' = Some (q, st'')" "linked st' h st''"
    "emem st'' = apply_writes (map2 jump_write (map ((!) (Fixups (m_ixf m))) iss) as') (emem st')"
    unfolding nth by blast
  have "link_loop fuel h (i # iss) phmod st = Some (q, st'')" "linked st h st''"
    "emem st'' = apply_writes (map2 jump_write (map ((!) (Fixups (m_ixf m))) (i # iss)) as) (emem st)"
    using one(1-3) rest by (simp_all add: as linked_def apply_writes_def)
  then show ?case by blast
qed

lemma ModLinkModule_patches:
  assumes "heap st h = Some m" and "unat (cbFixups (m_ixf m)) = length (Fixups (m_ixf m))"
    and "list_all2 (import_resolved st) (Fixups (m_ixf m)) as"
    and "apart_writes (map2 jump_write (Fixups (m_ixf m)) as)"
  shows "\<exists>n. \<forall>fuel \<ge> n. \<exists>p st'. ModLinkModule fuel h phmod st = Some (p, st')
    \<and> (\<forall>(fx, a) \<in> set (zip (Fixups (m_ixf m)) as). mem_rd32 (emem st') (SrcVmAddress fx) + (SrcAddress fx + 4) = a)
    \<and> (\<forall>x. x \<notin> (\<Union>fx \<in> set (Fixups (m_ixf m)). span (SrcVmAddress fx)) \<longrightarrow> emem st' x = emem st x)
    \<and> modules st' = modules st"
proof -
  let ?fs = "Fixups (m_ixf m)"
  have len: "length as = length ?fs" using assms(3) by (simp add: list_all2_lengthD)
  have all: "map ((!) ?fs) [0..<length ?fs] = ?fs" by (rule map_nth)
  obtain n where n: "\<forall>fuel \<ge> n. list_all2 (import_query fuel st) ?fs as"
    using import_queries_enough [OF assms(3)] by blast
  have "\<exists>p st'. ModLinkModule fuel h phmod st = Some (p, st') \<and> linked st h st'
      \<and> emem st' = apply_writes (map2 jump_write ?fs as) (emem st)" if "n \<le> fuel" for fuel
    using link_loop_resolved [OF assms(1), of "[0..<length ?fs]" fuel as phmod] n that
    by (simp add: all assms(1,2) ModLinkModule_def)
  moreover have "mem_rd32 (apply_writes (map2 jump_write ?fs as) (emem st)) (SrcVmAddress fx) + (SrcAddress fx + 4) = a"
    if "(fx, a) \<in> set (zip ?fs as)" for fx a
  proof -
    have "jump_write fx a \<in> set (map2 jump_write ?fs as)" using that by force
    then show ?thesis
      using apply_writes_at [OF assms(4), of "SrcVmAddress fx"] by (simp add: jump_write_def)
  qed
  moreover have "apply_writes (map2 jump_write ?fs as) (emem st) x = emem st x"
    if "x \<notin> (\<Union>fx \<in> set ?fs. span (SrcVmAddress fx))" for x
    using that by (intro apply_writes_other) (auto simp: jump_write_def dest: set_zip_leftD)
  ultimately have "\<exists>p st'. ModLinkModule fuel h phmod st = Some (p, st')
    \<and> (\<forall>(fx, a) \<in> set (zip ?fs as). mem_rd32 (emem st') (SrcVmAddress fx) + (SrcAddress fx + 4) = a)
    \<and> (\<forall>x. x \<notin> (\<Union>fx \<in> set ?fs. span (SrcVmAddress fx)) \<longrightarrow> emem st' x = emem st x)
    \<and> modules st' = modules st" if "n \<le> fuel" for fuel
    using that unfolding linked_def by fastforce
  then show ?thesis by blast
qed

text \<open>C2: Linking: when every import of a module resolves and the places to patch do not overlap, the
  linker returns, the displacement stored at every place, added to the address behind the operand in the
  program's address space, is the address of the imported function, and no other byte changes.\<close>

theorem imports_linked:
  assumes "heap st h = Some m" and "unat (cbFixups (m_ixf m)) = length (Fixups (m_ixf m))"
    and "list_all2 (import_resolved st) (Fixups (m_ixf m)) as"
    and "apart_writes (map2 jump_write (Fixups (m_ixf m)) as)"
  shows "\<exists>n. \<forall>fuel \<ge> n. \<exists>p st'. ModLinkModule fuel h phmod st = Some (p, st')
    \<and> (\<forall>(fx, a) \<in> set (zip (Fixups (m_ixf m)) as). mem_rd32 (emem st') (SrcVmAddress fx) + (SrcAddress fx + 4) = a)
    \<and> (\<forall>x. x \<notin> (\<Union>fx \<in> set (Fixups (m_ixf m)). span (SrcVmAddress fx)) \<longrightarrow> emem st' x = emem st x)
    \<and> modules st' = modules st"
  using assms by (rule ModLinkModule_patches)

theorem imports_linked_witness:
  "\<exists>fuel p st'. ModLinkModule fuel 7 0 fwd_state = Some (p, st') \<and> mem_rd32 (emem st') 0x3000 + (0x2000 + 4) = 0x1234
     \<and> emem st' 0x3004 = 0"
proof -
  let ?m = "raw_exec_module\<lparr>m_ixf := (m_ixf raw_exec_module)\<lparr>cbFixups := 1, Fixups := [fwd_import]\<rparr>\<rparr>"
  have m: "heap fwd_state 7 = Some ?m" by (simp add: fwd_state_def)
  have "find_rec ''a'' (modules fwd_state) =
      Some \<lparr>rec_addr = 0x50, mod_name = ''A'', module_struct = 5, instance_no = 0, load_status = 0, up = []\<rparr>"
    by (simp add: fwd_state_def stricmp.simps fold_case_def cs_at_def)
  then have "import_resolved fwd_state fwd_import 0x1234"
    using fwd_state_resolves by (simp add: import_resolved_def fwd_import_def)
  then have "list_all2 (import_resolved fwd_state) (Fixups (m_ixf ?m)) [0x1234]" by simp
  moreover have "emem fwd_state = (\<lambda>_. 0)" by (simp add: fwd_state_def exec_state0_def)
  moreover have "apart_writes (map2 jump_write (Fixups (m_ixf ?m)) [0x1234])"
    by (simp add: jump_write_def)
  ultimately show ?thesis
    using imports_linked [OF m, of "[0x1234]" 0] by (fastforce simp: fwd_import_def span_def)
qed

section \<open>Modules added later\<close>

lemma find_struct_append:
  "find_struct h (ms @ ms') = (case find_struct h ms of None \<Rightarrow> find_struct h ms' | Some r \<Rightarrow> Some r)"
  by (induction ms) auto

text \<open>What resolves keeps resolving when modules are appended to the list.\<close>

lemma resolves_append:
  assumes "resolves st h ord name a" and "modules st' = modules st @ rs" and "exports st' = exports st"
  shows "resolves st' h ord name a"
  using assms(1)
proof (induction rule: resolves.induct)
  case (own h r x ord name e)
  then show ?case by (intro resolves.own) (simp_all add: assms(2,3) find_struct_append)
next
  case (forwarded h r x ord name e mn r' a)
  show ?case
    by (rule resolves.forwarded [where mn = mn and r' = r' and r = r and x = x and e = e])
      (use forwarded in \<open>simp_all add: assms(2,3) find_struct_append find_rec_append\<close>)
qed

lemma import_resolved_append:
  "import_resolved st fx a \<Longrightarrow> modules st' = modules st @ rs \<Longrightarrow> exports st' = exports st \<Longrightarrow> import_resolved st' fx a"
  unfolding import_resolved_def
  by (elim exE conjE) (simp add: find_rec_append resolves_append)

end
