(* ===== verification/ModLoad.thy ===== *)
theory ModLoad
  imports ModLink
begin

text \<open>
  Opening and loading modules (\<open>OpenModule\<close>, \<open>LoadModule\<close> and the operations built on them in
  \<^verbatim>\<open>server/os2exec/modmgr.c\<close>). What belongs to the host is a record of arguments: file access, the
  copying of a module structure, the contents of fresh memory, the shared memory area, the formats
  \<open>load_ixfs\<close> installed and the configuration. Loading calls itself for the imported modules; fuel
  bounds the depth of these calls and of the forwarders that are followed.
\<close>

section \<open>Operations\<close>

record os_host =
  io_load_file :: "string \<Rightarrow> u32 \<times> u8 list"
  ixfCopyModule :: "exec_module \<Rightarrow> exec_module \<Rightarrow> u32 \<times> exec_module"
  raw_module :: exec_module
  shared_memory_area :: "64 word"
  IXFHandlers :: "IXFHandler list"
  host_cfg :: cfg_state

definition IXFCopyModule :: "os_host \<Rightarrow> exec_module \<Rightarrow> exec_module \<Rightarrow> u32 \<times> exec_module" where
  "IXFCopyModule host dst src = ixfCopyModule host dst src"

abbreviation (input) buf_size :: nat where "buf_size \<equiv> 4096"
abbreviation (input) CCHMAXPATH :: u32 where "CCHMAXPATH \<equiv> 260"

text \<open>
  Finding and reading the file: the code, the image and the state. The search of \<open>LIBPATH\<close> runs on the
  option string, which it leaves as it was.
\<close>

definition open_file :: "os_host \<Rightarrow> bool \<Rightarrow> string \<Rightarrow> exec_state \<Rightarrow> (u32 \<times> u8 list \<times> exec_state) option" where
  "open_file host exeflag pszModname st =
     (let io = io_load_file host; (rc, bs) = io pszModname in
      if rc = NO_ERROR then Some (rc, bs, st)
      else do {
        (rc, p_buf, tk) \<leftarrow>
          (if \<not> exeflag then
             map_option (\<lambda>(rc, b, tk, ar). (rc, b, tk))
               (case libpath (opts (host_cfg host)) of
                  Some lp \<Rightarrow> find_module_path (\<lambda>f. fst (io f)) (buf_size + 1) (Some 0) pszModname (tok st) (lp @ [NUL]) []
                | None \<Rightarrow> find_module_path (\<lambda>f. fst (io f)) (buf_size + 1) None pszModname (tok st) [] [])
           else find_path (\<lambda>f. fst (io f)) (buf_size + 1) (host_cfg host) pszModname (tok st) []);
        let st = st\<lparr>tok := tk\<rparr>;
        let (rc, bs) = (if rc = NO_ERROR then io p_buf else (rc, []));
        Some (rc, bs, st) })"

text \<open>
  The results of \<open>OpenModule\<close> and \<open>LoadModule\<close>: the code, the string at \<open>pszName\<close>, the value at
  \<open>phmod\<close> and the state. A null argument is \<open>None\<close>; the string and the value then stand for nothing.
\<close>

type_synonym mod_result = "u32 \<times> string \<times> u32 \<times> exec_state"

definition OpenModule ::
    "os_host \<Rightarrow> unit option \<Rightarrow> u32 \<Rightarrow> string option \<Rightarrow> bool \<Rightarrow> unit option \<Rightarrow> exec_state \<Rightarrow> mod_result option" where
  "OpenModule host pszName cbName pszModname exeflag phmod st =
     (if phmod = None \<or> pszModname = None \<or> pszName = None then Some (ERROR_INVALID_PARAMETER, [], 0, st)
      else let
        mname = get_fname (the pszModname);
        modname = (if \<not> exeflag \<and> stricmp mname ''EMXWRAP'' = 0 then ''SUB32.DLL'' else the pszModname);
        (t, prev) = getrec mname (modules st)
      in if t = 0 \<and> \<not> exeflag then Some (NO_ERROR, [], module_struct (the prev), st)
      else if t = -1 then
        if unat cbName \<le> length mname then Some (ERROR_BUFFER_OVERFLOW, [], 0, st)
        else Some (ERROR_MOD_NOT_FOUND, mname, 0, st)
      else do {
        (rc, bs, st) \<leftarrow> open_file host exeflag modname st;
        if rc \<noteq> NO_ERROR then
          if unat cbName \<le> length modname then Some (ERROR_BUFFER_OVERFLOW, [], 0, st)
          else Some (rc, modname, 0, st)
        else let (rc, h, st) = IXFAllocModule (raw_module host) st in
          if rc \<noteq> NO_ERROR then Some (rc, [], 0, st)
          else do {
            m \<leftarrow> heap st h;
            let m = m\<lparr>m_area := (if exeflag then 0 else shared_memory_area host)\<rparr>;
            if t = 0 \<and> exeflag then do {
              src \<leftarrow> heap st (module_struct (the prev));
              let (rc, m) = IXFCopyModule host m src;
              let st = st\<lparr>heap := (heap st)(h \<mapsto> m)\<rparr>;
              if rc \<noteq> NO_ERROR then Some (rc, [], 0, st)
              else do {
                (_, st) \<leftarrow> ModRegister mname h exeflag st;
                Some (NO_ERROR, [], h, st) } }
            else do {
              (rc, m) \<leftarrow> IXFIdentifyModule (IXFHandlers host) bs m;
              let st = st\<lparr>heap := (heap st)(h \<mapsto> m)\<rparr>;
              if rc \<noteq> NO_ERROR then
                if unat cbName \<le> length modname then Some (ERROR_BUFFER_OVERFLOW, [], 0, snd (IXFFreeModule h st))
                else let (rc, st) = IXFFreeModule h st in Some (rc, modname, 0, st)
              else Some (rc, [], h, st\<lparr>heap := (heap st)(h \<mapsto>
                m\<lparr>m_addr := bs, m_size := of_nat (length bs), m_name := modname, m_exec := exeflag\<rparr>)\<rparr>) } } })"

text \<open>The name a module is registered under, see \<^verbatim>\<open>docs/os2/sub32.txt\<close>.\<close>

definition load_name :: "string \<Rightarrow> string" where
  "load_name mname = (if stricmp mname ''SUB32'' = 0 then ''EMXWRAP'' else mname)"

text \<open>The return after a failed step: the name goes to the caller, the structure is freed.\<close>

definition load_failure :: "u32 \<Rightarrow> string \<Rightarrow> u32 \<Rightarrow> string \<Rightarrow> u32 \<Rightarrow> exec_state \<Rightarrow> mod_result" where
  "load_failure rc nm cbName pszModname h st =
     (let st' = snd (IXFFreeModule h st) in
      if unat cbName \<le> length pszModname then (ERROR_BUFFER_OVERFLOW, nm, h, st')
      else (rc, pszModname, 0, st'))"

text \<open>
  The loop over the imported modules; \<open>load\<close> is the recursive call, \<open>Inl\<close> a return of the function.
  The name is built in an array of 1024 characters.
\<close>

fun load_imports ::
    "os_host \<Rightarrow> (u32 \<Rightarrow> exec_state \<Rightarrow> mod_result option) \<Rightarrow> string \<Rightarrow> u32 \<Rightarrow> string \<Rightarrow> bool \<Rightarrow> u32 \<Rightarrow> string list
     \<Rightarrow> exec_state \<Rightarrow> (mod_result + exec_state) option" where
  "load_imports host load nm cbName pszModname exeflag h [] st = Some (Inr st)"
| "load_imports host load nm cbName pszModname exeflag h (imp # imps) st =
     (if 1024 < length imp + 5 then None
      else do {
        r \<leftarrow> (if fst (getrec imp (modules st)) \<noteq> 0 then do {
            (rc, _, hmod, st) \<leftarrow> OpenModule host (Some ()) CCHMAXPATH (Some (imp @ ''.dll'')) False (Some ()) st;
            if rc \<noteq> NO_ERROR then Some (Inl (rc, nm, h, st))
            else do {
              (rc, _, _, st) \<leftarrow> load hmod st;
              if rc \<noteq> NO_ERROR then Some (Inl (rc, nm, h, st)) else Some (Inr st) } }
          else Some (Inr st));
        case r of Inl x \<Rightarrow> Some (Inl x)
        | Inr st \<Rightarrow>
            if exeflag then load_imports host load nm cbName pszModname exeflag h imps st
            else do {
              (rc, st) \<leftarrow> IXFFixupModule h st;
              if rc \<noteq> NO_ERROR then Some (Inl (load_failure rc nm cbName pszModname h st))
              else load_imports host load nm cbName pszModname exeflag h imps st } })"

text \<open>The last instance of a program: the address of its record and its module structure.\<close>

definition last_rec :: "module_rec \<Rightarrow> u32 \<times> u32" where
  "last_rec r = (if up r = [] then (rec_addr r, module_struct r)
     else (rec_addr (last (up r)), module_struct (last (up r))))"

text \<open>The part of \<open>LoadModule\<close> behind the registration; \<open>a\<close> is the address of the new record.\<close>

definition finish_load ::
    "nat \<Rightarrow> os_host \<Rightarrow> (u32 \<Rightarrow> exec_state \<Rightarrow> mod_result option) \<Rightarrow> string \<Rightarrow> u32 \<Rightarrow> u32 \<Rightarrow> u32 \<Rightarrow> exec_state
     \<Rightarrow> mod_result option" where
  "finish_load fuel host load nm cbName h a st = do {
     m \<leftarrow> heap st h;
     let st = st\<lparr>modules := set_load_status a LOADING (modules st)\<rparr>;
     r \<leftarrow> (if unat (cbModules (m_ixf m)) \<le> length (Modules (m_ixf m))
       then load_imports host load nm cbName (m_name m) (m_exec m) h (take (unat (cbModules (m_ixf m))) (Modules (m_ixf m))) st
       else None);
     case r of Inl x \<Rightarrow> Some x
     | Inr st \<Rightarrow> do {
         (rc, st) \<leftarrow> (if m_exec m then IXFFixupModule h st else Some (NO_ERROR, st));
         if rc \<noteq> NO_ERROR then Some (rc, nm, h, st)
         else do {
           (_, st) \<leftarrow> ModLinkModule fuel h h st;
           Some (NO_ERROR, nm, h, st\<lparr>modules := set_load_status a DONE_LOADING (modules st)\<rparr>) } } }"

fun LoadModule :: "nat \<Rightarrow> os_host \<Rightarrow> string \<Rightarrow> u32 \<Rightarrow> u32 \<Rightarrow> exec_state \<Rightarrow> mod_result option" where
  "LoadModule 0 host nm cbName h st = None"
| "LoadModule (Suc fuel) host nm cbName h st = do {
     m \<leftarrow> heap st h;
     let mname = load_name (get_fname (m_name m));
     let (t, prev) = getrec mname (modules st);
     if t = 0 then
       if \<not> m_exec m then Some (NO_ERROR, nm, module_struct (the prev), st)
       else let (a, hmod) = last_rec (the prev) in
         Some (NO_ERROR, nm, hmod, st\<lparr>modules := set_load_status a DONE_LOADING (modules st)\<rparr>)
     else do {
       (rc, st) \<leftarrow> (if t = 1 then IXFLoadModule h st else Some (NO_ERROR, st));
       if rc \<noteq> NO_ERROR then Some (load_failure rc nm cbName (m_name m) h st)
       else do {
         (a, st) \<leftarrow> ModRegister mname h (m_exec m) st;
         finish_load fuel host (LoadModule fuel host [] CCHMAXPATH) nm cbName h a st } } }"

definition load_opened :: "nat \<Rightarrow> os_host \<Rightarrow> u32 \<Rightarrow> mod_result \<Rightarrow> mod_result option" where
  "load_opened fuel host cbName x =
     (case x of (rc, nm, h, st) \<Rightarrow> if rc \<noteq> NO_ERROR then Some x else LoadModule fuel host nm cbName h st)"

definition ModLoadModule :: "nat \<Rightarrow> os_host \<Rightarrow> u32 \<Rightarrow> string \<Rightarrow> exec_state \<Rightarrow> mod_result option" where
  "ModLoadModule fuel host cbName pszModname st = do {
     x \<leftarrow> OpenModule host (Some ()) cbName (Some pszModname) False (Some ()) st;
     load_opened fuel host cbName x }"

definition ModLoadExeModule :: "nat \<Rightarrow> os_host \<Rightarrow> u32 \<Rightarrow> string \<Rightarrow> exec_state \<Rightarrow> mod_result option" where
  "ModLoadExeModule fuel host cbName pszModname st = do {
     x \<leftarrow> OpenModule host (Some ()) cbName (Some pszModname) True (Some ()) st;
     load_opened fuel host cbName x }"

section \<open>Fuel\<close>

text \<open>More fuel keeps every value that was there.\<close>

definition ext :: "'a option \<Rightarrow> 'a option \<Rightarrow> bool" where
  "ext a b \<longleftrightarrow> (\<forall>x. a = Some x \<longrightarrow> b = Some x)"

named_theorems ext_intros \<open>structural rules for the order of partial results\<close>

lemma ext_refl [ext_intros]: "ext a a"
  by (simp add: ext_def)

lemma ext_bind [ext_intros]: "ext a b \<Longrightarrow> (\<And>x. ext (f x) (g x)) \<Longrightarrow> ext (Option.bind a f) (Option.bind b g)"
  by (cases a) (auto simp: ext_def)

lemma ext_if [ext_intros]: "ext a b \<Longrightarrow> ext c d \<Longrightarrow> ext (if p then a else c) (if p then b else d)"
  by simp

lemma ext_prod [ext_intros]: "(\<And>x y. ext (f x y) (g x y)) \<Longrightarrow> ext (case p of (x, y) \<Rightarrow> f x y) (case p of (x, y) \<Rightarrow> g x y)"
  by (cases p) simp

lemma ext_sum [ext_intros]:
  "(\<And>x. ext (f x) (g x)) \<Longrightarrow> (\<And>x. ext (f' x) (g' x))
   \<Longrightarrow> ext (case s of Inl x \<Rightarrow> f x | Inr x \<Rightarrow> f' x) (case s of Inl x \<Rightarrow> g x | Inr x \<Rightarrow> g' x)"
  by (cases s) simp_all

lemma ext_Let [ext_intros]: "(\<And>x. ext (f x) (g x)) \<Longrightarrow> ext (Let v f) (Let v g)"
  by (simp add: Let_def)

lemma query_ext: "fuel \<le> fuel' \<Longrightarrow> ext (ModQueryProcAddr fuel st h ord name pfn) (ModQueryProcAddr fuel' st h ord name pfn)"
  unfolding ext_def using ModQueryProcAddr_mono by blast

lemma link_one_ext: "fuel \<le> fuel' \<Longrightarrow> ext (link_one fuel h i st) (link_one fuel' h i st)"
  unfolding link_one_def by (intro ext_intros query_ext)

lemma link_loop_ext: "fuel \<le> fuel' \<Longrightarrow> ext (link_loop fuel h is p st) (link_loop fuel' h is p st)"
proof (induction "is" arbitrary: p st)
  case (Cons i iss)
  then show ?case unfolding link_loop.simps by (intro ext_intros link_one_ext) auto
qed (simp add: ext_refl)

lemma ModLinkModule_ext: "fuel \<le> fuel' \<Longrightarrow> ext (ModLinkModule fuel h p st) (ModLinkModule fuel' h p st)"
  unfolding ModLinkModule_def by (intro ext_intros link_loop_ext)

lemma load_imports_ext:
  assumes "\<And>h st. ext (load h st) (load' h st)"
  shows "ext (load_imports host load nm cb mn e h imps st) (load_imports host load' nm cb mn e h imps st)"
proof (induction imps arbitrary: st)
  case (Cons imp imps)
  then show ?case unfolding load_imports.simps by (intro ext_intros assms)
qed (simp add: ext_refl)

lemma finish_load_ext:
  assumes "fuel \<le> fuel'" and "\<And>h st. ext (load h st) (load' h st)"
  shows "ext (finish_load fuel host load nm cb h a st) (finish_load fuel' host load' nm cb h a st)"
  unfolding finish_load_def by (intro ext_intros load_imports_ext ModLinkModule_ext assms)

lemma LoadModule_ext:
  "fuel \<le> fuel' \<Longrightarrow> ext (LoadModule fuel host nm cb h st) (LoadModule fuel' host nm cb h st)"
proof (induction fuel arbitrary: fuel' nm cb h st)
  case 0
  show ?case by (simp add: ext_def)
next
  case (Suc fuel)
  obtain k where k: "fuel' = Suc k" "fuel \<le> k" using Suc.prems by (cases fuel') auto
  show ?case
    unfolding k(1) LoadModule.simps by (intro ext_intros finish_load_ext Suc.IH k(2))
qed

text \<open>The fuel does not matter: if loading a module returns with some amount of fuel, it returns the same
  code, handle and state with every larger amount.\<close>

theorem ModLoadModule_fuel:
  assumes "ModLoadModule fuel host cb f st = Some x" and "fuel \<le> fuel'"
  shows "ModLoadModule fuel' host cb f st = Some x"
proof -
  have "ext (ModLoadModule fuel host cb f st) (ModLoadModule fuel' host cb f st)"
    unfolding ModLoadModule_def load_opened_def by (intro ext_intros LoadModule_ext assms)
  with assms(1) show ?thesis by (simp add: ext_def)
qed

section \<open>A module that is loaded already\<close>

text \<open>Loading a loaded library again, under any spelling of its name, returns the handle of the loaded
  one and changes nothing.\<close>

theorem loaded_dll_again:
  assumes "getrec (get_fname f) (modules st) = (0, Some r)" and "heap st (module_struct r) = Some m"
    and "\<not> m_exec m" and "same_name (load_name (get_fname (m_name m))) (mod_name r)"
    and "same_name (get_fname f) (mod_name r)"
  shows "ModLoadModule (Suc fuel) host cb f st = Some (NO_ERROR, [], module_struct r, st)"
proof -
  have "stricmp (load_name (get_fname (m_name m))) (get_fname f) = 0"
    using assms(4,5) by (simp add: same_name_def stricmp_eq_0)
  then have "getrec (load_name (get_fname (m_name m))) (modules st) = (0, Some r)"
    using assms(1) find_rec_same by (simp add: getrec_def)
  then show ?thesis
    using assms(1-3) by (simp add: ModLoadModule_def OpenModule_def load_opened_def Let_def)
qed

section \<open>Files in an unknown format\<close>

text \<open>A file in a format that no handler knows is opened with the code \<open>NO_ERROR\<close> and the null handle,
  and loading it reads through that null pointer.\<close>

theorem bad_format_success:
  assumes "getrec (get_fname f) (modules st) = (1, None)" and "stricmp (get_fname f) ''EMXWRAP'' \<noteq> 0"
    and "open_file host False f st = Some (NO_ERROR, bs, st1)"
    and "mallocs st1 = a # d # as" and "a \<noteq> 0" and "d \<noteq> 0"
    and "\<forall>m. \<exists>rc. IXFIdentifyModule (IXFHandlers host) bs m = Some (rc, m) \<and> rc \<noteq> NO_ERROR"
    and "length f < unat cb" and "heap st1 0 = None"
  shows "(\<exists>st'. OpenModule host (Some ()) cb (Some f) False (Some ()) st = Some (NO_ERROR, f, 0, st'))
    \<and> ModLoadModule fuel host cb f st = None"
proof -
  obtain m st2 where al: "IXFAllocModule (raw_module host) st1 = (NO_ERROR, a, st2)" "heap st2 a = Some m"
      "heap st2 0 = None"
    using assms(4-6,9) by (simp add: IXFAllocModule_def malloc_def Let_def)
  let ?m = "m\<lparr>m_area := shared_memory_area host\<rparr>"
  obtain rc where id: "IXFIdentifyModule (IXFHandlers host) bs ?m = Some (rc, ?m)" "rc \<noteq> NO_ERROR"
    using assms(7) by blast
  have open0: "OpenModule host (Some ()) cb (Some f) False (Some ()) st
      = Some (NO_ERROR, f, 0, st2\<lparr>heap := (heap st2)(a := None)\<rparr>)"
    using assms(1,2,3,5,8) al id by (simp add: OpenModule_def IXFFreeModule_def Let_def)
  moreover have "LoadModule fuel host f cb 0 (st2\<lparr>heap := (heap st2)(a := None)\<rparr>) = None"
    using assms(5) al(3) by (cases fuel) simp_all
  ultimately show ?thesis by (simp add: ModLoadModule_def load_opened_def)
qed

section \<open>Loading a new module\<close>

definition rec_addrs :: "module_rec list \<Rightarrow> u32 set" where
  "rec_addrs ms = (\<Union>r \<in> set ms. insert (rec_addr r) (rec_addr ` set (up r)))"

lemma set_load_status_other: "a \<notin> rec_addrs ms \<Longrightarrow> set_load_status a v ms = ms"
proof (unfold set_load_status_def, rule map_idI)
  fix r assume "a \<notin> rec_addrs ms" and "r \<in> set ms"
  then have "rec_addr r \<noteq> a" and up: "\<forall>i \<in> set (up r). rec_addr i \<noteq> a"
    by (auto simp: rec_addrs_def)
  moreover have "map (\<lambda>i. if rec_addr i = a then i\<lparr>load_status := v\<rparr> else i) (up r) = up r"
    by (rule map_idI) (use up in simp)
  ultimately show "(if rec_addr r = a then r\<lparr>load_status := v\<rparr> else r)
      \<lparr>up := map (\<lambda>i. if rec_addr i = a then i\<lparr>load_status := v\<rparr> else i) (up r)\<rparr> = r"
    by simp
qed

lemma set_load_status_snoc:
  "a \<notin> rec_addrs ms \<Longrightarrow> rec_addr r = a \<Longrightarrow> up r = [] \<Longrightarrow>
   set_load_status a v (ms @ [r]) = ms @ [r\<lparr>load_status := v\<rparr>]"
  using set_load_status_other [of a ms v] by (simp add: set_load_status_def)

lemma getrec_none: "getrec n ms = (1, None) \<longleftrightarrow> find_rec n ms = None"
  by (auto simp: getrec_def split: option.splits)

lemma IXFLoadModule_shape:
  assumes "IXFLoadModule h st = Some (rc, st1)" and "heap st h = Some m"
  shows "modules st1 = modules (st :: exec_state) \<and> tok st1 = tok st \<and> mallocs st1 = mallocs st
    \<and> (\<exists>i. heap st1 h = Some (m\<lparr>m_ixf := i\<rparr>)) \<and> (\<forall>h'. h' \<noteq> h \<longrightarrow> heap st1 h' = heap st h')"
  using assms by (auto simp: IXFLoadModule_def bind_eq_Some_conv)

lemma IXFFixupModule_frame:
  assumes "IXFFixupModule h st = Some (rc, st2)"
  shows "IXFFixupModule h (st\<lparr>mallocs := as, modules := ms\<rparr>) = Some (rc, st2\<lparr>mallocs := as, modules := ms\<rparr>)
    \<and> heap st2 = heap (st :: exec_state)"
  using assms by (auto simp: IXFFixupModule_def bind_eq_Some_conv)

text \<open>The record that the registration of a new module appends, in the state in which its imports are loaded.\<close>

definition new_rec :: "u32 \<Rightarrow> string \<Rightarrow> u32 \<Rightarrow> nat \<Rightarrow> module_rec" where
  "new_rec a n h v = \<lparr>rec_addr = a, mod_name = n, module_struct = h, instance_no = 0, load_status = v, up = []\<rparr>"

lemma ModRegister_new:
  assumes "find_rec n (modules st) = None" and "mallocs st = a # as" and "a \<noteq> 0"
  shows "ModRegister n h e st = Some (a, st\<lparr>mallocs := as, modules := modules st @ [new_rec a n h DONE_LOADING]\<rparr>)"
  using assms by (simp add: ModRegister_def malloc_def getrec_def new_rec_def)

lemma set_status_new:
  "a \<notin> rec_addrs ms \<Longrightarrow> set_load_status a v (ms @ [new_rec a n h w]) = ms @ [new_rec a n h v]"
  by (simp add: set_load_status_snoc new_rec_def)

lemma LoadModule_new:
  assumes "heap st h = Some m" and "find_rec (load_name (get_fname (m_name m))) (modules st) = None"
    and "IXFLoadModule h st = Some (NO_ERROR, st1)" and "mallocs st1 = a # as" and "a \<noteq> 0"
  shows "LoadModule (Suc fuel) host nm cb h st = finish_load fuel host (LoadModule fuel host [] CCHMAXPATH) nm cb h a
    (st1\<lparr>mallocs := as, modules := modules st @ [new_rec a (load_name (get_fname (m_name m))) h DONE_LOADING]\<rparr>)"
  using assms IXFLoadModule_shape [OF assms(3,1)] ModRegister_new [of _ st1 a as h "m_exec m"]
  by (simp add: getrec_def Let_def)

text \<open>Imports that are loaded already: a program's loop only looks them up.\<close>

lemma load_imports_present:
  "\<forall>imp \<in> set imps. fst (getrec imp (modules st)) = 0 \<and> length imp \<le> 1019
   \<Longrightarrow> load_imports host load nm cb mn True h imps st = Some (Inr st)"
  by (induction imps) auto

lemma getrec_append: "fst (getrec n ms) = 0 \<Longrightarrow> getrec n (ms @ rs) = getrec n ms"
  by (auto simp: getrec_def find_rec_append split: option.splits)

text \<open>C1: Loading a program: when its file loads, its libraries are loaded and its imports resolve, \<open>LoadModule\<close>
  returns success with the program's handle, the program is registered and marked as loaded, every import
  is patched with the displacement to its function, and the rest of memory is what the relocation left.\<close>

theorem program_loaded:
  assumes "heap st h = Some m" and "m_exec m" and "find_rec (load_name (get_fname (m_name m))) (modules st) = None"
    and "IXFLoadModule h st = Some (NO_ERROR, st1)" and "heap st1 h = Some m1"
    and "IXFFixupModule h st1 = Some (NO_ERROR, st2)"
    and "mallocs st1 = a # as" and "a \<noteq> 0" and "a \<notin> rec_addrs (modules st)"
    and "unat (cbModules (m_ixf m1)) = length (Modules (m_ixf m1))"
    and "\<forall>imp \<in> set (Modules (m_ixf m1)). fst (getrec imp (modules st)) = 0 \<and> length imp \<le> 1019"
    and "unat (cbFixups (m_ixf m1)) = length (Fixups (m_ixf m1))"
    and "list_all2 (import_resolved st1) (Fixups (m_ixf m1)) adrs"
    and "apart_writes (map2 jump_write (Fixups (m_ixf m1)) adrs)"
  shows "\<exists>n. \<forall>fuel \<ge> n. \<exists>st'. LoadModule fuel host nm cb h st = Some (NO_ERROR, nm, h, st')
    \<and> getrec (load_name (get_fname (m_name m))) (modules st') = (0, Some (new_rec a (load_name (get_fname (m_name m))) h DONE_LOADING))
    \<and> (\<forall>(fx, v) \<in> set (zip (Fixups (m_ixf m1)) adrs). mem_rd32 (emem st') (SrcVmAddress fx) + (SrcAddress fx + 4) = v)
    \<and> (\<forall>x. x \<notin> (\<Union>fx \<in> set (Fixups (m_ixf m1)). span (SrcVmAddress fx)) \<longrightarrow> emem st' x = emem st2 x)"
proof -
  let ?n = "load_name (get_fname (m_name m))"
  let ?ms = "modules st @ [new_rec a ?n h LOADING]"
  let ?s2 = "st2\<lparr>mallocs := as, modules := ?ms\<rparr>"
  have sh: "modules st1 = modules st" and m1: "m_exec m1" "m_name m1 = m_name m"
    using IXFLoadModule_shape [OF assms(4,1)] assms(2,5) by auto
  note fr = IXFFixupModule_frame [OF assms(6), where as = as and ms = ?ms]
  have h2: "heap ?s2 h = Some m1" using fr assms(5) by simp
  have "exports ?s2 = exports st1" using fr by (simp add: exports_def fun_eq_iff)
  then have imp: "list_all2 (import_resolved ?s2) (Fixups (m_ixf m1)) adrs"
    using assms(13) by (rule_tac list_all2_mono [of "import_resolved st1"])
      (auto intro: import_resolved_append simp: sh)
  obtain n where n: "\<forall>fuel \<ge> n. \<exists>p st'. ModLinkModule fuel h h ?s2 = Some (p, st')
    \<and> (\<forall>(fx, v) \<in> set (zip (Fixups (m_ixf m1)) adrs). mem_rd32 (emem st') (SrcVmAddress fx) + (SrcAddress fx + 4) = v)
    \<and> (\<forall>x. x \<notin> (\<Union>fx \<in> set (Fixups (m_ixf m1)). span (SrcVmAddress fx)) \<longrightarrow> emem st' x = emem ?s2 x)
    \<and> modules st' = modules ?s2"
    using ModLinkModule_patches [OF h2 assms(12) imp assms(14), of h] by blast
  have loop: "load_imports host load nm cb (m_name m) True h (Modules (m_ixf m1)) (st1\<lparr>mallocs := as, modules := ?ms\<rparr>)
      = Some (Inr (st1\<lparr>mallocs := as, modules := ?ms\<rparr>))" for load
    by (rule load_imports_present) (use assms(11) getrec_append in auto)
  have fin: "finish_load fuel host load nm cb h a (st1\<lparr>mallocs := as, modules := modules st @ [new_rec a ?n h DONE_LOADING]\<rparr>) =
      (case ModLinkModule fuel h h ?s2 of None \<Rightarrow> None
       | Some (p, st') \<Rightarrow> Some (NO_ERROR, nm, h, st'\<lparr>modules := set_load_status a DONE_LOADING (modules st')\<rparr>))" for fuel load
    using assms(5,9,10) m1 loop fr set_status_new [OF assms(9)]
    by (cases "ModLinkModule fuel h h ?s2") (simp_all add: finish_load_def Let_def)
  have "\<exists>st'. LoadModule fuel host nm cb h st = Some (NO_ERROR, nm, h, st')
    \<and> getrec ?n (modules st') = (0, Some (new_rec a ?n h DONE_LOADING))
    \<and> (\<forall>(fx, v) \<in> set (zip (Fixups (m_ixf m1)) adrs). mem_rd32 (emem st') (SrcVmAddress fx) + (SrcAddress fx + 4) = v)
    \<and> (\<forall>x. x \<notin> (\<Union>fx \<in> set (Fixups (m_ixf m1)). span (SrcVmAddress fx)) \<longrightarrow> emem st' x = emem st2 x)"
    if le: "Suc n \<le> fuel" for fuel
  proof -
    obtain k where k: "fuel = Suc k" "n \<le> k" using le by (cases fuel) auto
    obtain p st' where l: "ModLinkModule k h h ?s2 = Some (p, st')" "modules st' = ?ms"
      "\<forall>(fx, v) \<in> set (zip (Fixups (m_ixf m1)) adrs). mem_rd32 (emem st') (SrcVmAddress fx) + (SrcAddress fx + 4) = v"
      "\<forall>x. x \<notin> (\<Union>fx \<in> set (Fixups (m_ixf m1)). span (SrcVmAddress fx)) \<longrightarrow> emem st' x = emem st2 x"
      using n k(2) by force
    have "getrec ?n (modules st @ [new_rec a ?n h DONE_LOADING]) = (0, Some (new_rec a ?n h DONE_LOADING))"
      using assms(3) by (simp add: getrec_def find_rec_append new_rec_def)
    then show ?thesis
      using l LoadModule_new [OF assms(1,3,4,7,8), of k host nm cb] fin [of k]
      by (simp add: k(1) set_status_new [OF assms(9)])
  qed
  then show ?thesis by blast
qed

section \<open>A library without imports\<close>

text \<open>A library that imports nothing is loaded, registered and marked as loaded, but never relocated:
  memory is as the format's load operation left it, whatever the relocation would store.\<close>

theorem dll_without_imports_not_relocated:
  assumes "heap st h = Some m" and "\<not> m_exec m" and "find_rec (load_name (get_fname (m_name m))) (modules st) = None"
    and "IXFLoadModule h st = Some (NO_ERROR, st1)" and "heap st1 h = Some m1"
    and "mallocs st1 = a # as" and "a \<noteq> 0" and "a \<notin> rec_addrs (modules st)"
    and "cbModules (m_ixf m1) = 0" and "cbFixups (m_ixf m1) = 0"
  shows "\<exists>st'. LoadModule (Suc fuel) host nm cb h st = Some (NO_ERROR, nm, h, st') \<and> emem st' = emem st1
    \<and> registered (load_name (get_fname (m_name m))) st' = Some h"
proof -
  have m1: "\<not> m_exec m1"
    using IXFLoadModule_shape [OF assms(4,1)] assms(2,5) by auto
  show ?thesis
    using LoadModule_new [OF assms(1,3,4,6,7), of fuel host nm cb] m1 assms(3,5,9,10)
    by (simp add: finish_load_def ModLinkModule_def set_status_new [OF assms(8)] registered_def find_rec_append)
      (simp add: new_rec_def)
qed

section \<open>A load that fails\<close>

lemma get_fname_dll: "get_fname (imp @ ''.dll'') = imp"
  using last_index_last [of "CHR ''.''" "''dll''" imp 0 None] by (simp add: get_fname_def)

lemma OpenModule_no_file:
  assumes "find_rec imp (modules st) = None" and "\<forall>f. fst (io_load_file host f) \<noteq> NO_ERROR"
    and "libpath (opts (host_cfg host)) = None" and "nxtToken (tok st) = None" and "length imp \<le> 255"
  shows "\<exists>e st'. OpenModule host (Some ()) CCHMAXPATH (Some (imp @ ''.dll'')) False (Some ()) st
    = Some (ERROR_FILE_NOT_FOUND, e, 0, st') \<and> modules st' = modules st"
proof -
  have "open_file host False f st = Some (ERROR_FILE_NOT_FOUND, [], st\<lparr>tok := StrTokRestore (tok st) ((tok st)\<lparr>nxtToken := None\<rparr>)\<rparr>)" for f
    using assms(2-4) by (simp add: open_file_def find_module_path_def path_search_def StrTokenize_def StrTokSave_def
        Let_def split_beta)
  then show ?thesis
    using assms(1,5) by (auto simp: OpenModule_def get_fname_dll getrec_def Let_def)
qed

text \<open>A load that fails on an import leaves the module marked as being loaded: every later attempt to
  load it, with whatever files the host then has, is refused with \<open>ERROR_MOD_NOT_FOUND\<close>.\<close>

theorem failed_import_blocks_module:
  assumes "heap st h = Some m" and "find_rec (load_name (get_fname (m_name m))) (modules st) = None"
    and "IXFLoadModule h st = Some (NO_ERROR, st1)" and "heap st1 h = Some m1"
    and "mallocs st1 = a # as" and "a \<noteq> 0" and "a \<notin> rec_addrs (modules st)"
    and "unat (cbModules (m_ixf m1)) = length (Modules (m_ixf m1))" and "Modules (m_ixf m1) = imp # imps"
    and "find_rec imp (modules st) = None" and "\<not> same_name imp (load_name (get_fname (m_name m)))" and "length imp \<le> 255"
    and "\<forall>f. fst (io_load_file host f) \<noteq> NO_ERROR" and "libpath (opts (host_cfg host)) = None" and "nxtToken (tok st) = None"
  shows "\<exists>st'. LoadModule (Suc fuel) host nm cb h st = Some (ERROR_FILE_NOT_FOUND, nm, h, st')
    \<and> (\<forall>fuel' host' cb' f. same_name (get_fname f) (load_name (get_fname (m_name m))) \<and> length (get_fname f) < unat cb'
         \<longrightarrow> ModLoadModule fuel' host' cb' f st' = Some (ERROR_MOD_NOT_FOUND, get_fname f, 0, st'))"
proof -
  let ?n = "load_name (get_fname (m_name m))"
  let ?s = "st1\<lparr>mallocs := as, modules := modules st @ [new_rec a ?n h LOADING]\<rparr>"
  have tok: "nxtToken (tok ?s) = None"
    using IXFLoadModule_shape [OF assms(3,1)] assms(15) by simp
  have none: "find_rec imp (modules ?s) = None"
    using assms(10,11) by (simp add: find_rec_append same_name_def new_rec_def)
  obtain e st' where o: "OpenModule host (Some ()) CCHMAXPATH (Some (imp @ ''.dll'')) False (Some ()) ?s
      = Some (ERROR_FILE_NOT_FOUND, e, 0, st')" and ms: "modules st' = modules ?s"
    using OpenModule_no_file [OF none assms(13,14) tok assms(12)] by blast
  have "LoadModule (Suc fuel) host nm cb h st = Some (ERROR_FILE_NOT_FOUND, nm, h, st')"
    using LoadModule_new [OF assms(1,2,3,5,6), of fuel host nm cb] o none assms(4,8,9,12)
    by (simp add: finish_load_def set_status_new [OF assms(7)] getrec_def)
  moreover have "ModLoadModule fuel' host' cb' f st' = Some (ERROR_MOD_NOT_FOUND, get_fname f, 0, st')"
    if "same_name (get_fname f) ?n" "length (get_fname f) < unat cb'" for fuel' host' cb' f
  proof -
    have "find_rec (get_fname f) (modules st') = Some (new_rec a ?n h LOADING)"
      using that(1) assms(2) find_rec_same [of "get_fname f" ?n] unfolding ms
      by (simp add: same_name_def find_rec_append new_rec_def)
    then show ?thesis
      using that(2) by (simp add: ModLoadModule_def OpenModule_def load_opened_def getrec_def new_rec_def Let_def)
  qed
  ultimately show ?thesis by blast
qed

section \<open>Sample runs\<close>

definition demo_host :: "(string \<Rightarrow> u32 \<times> u8 list) \<Rightarrow> os_host" where
  "demo_host io = \<lparr>io_load_file = io, ixfCopyModule = (\<lambda>dst src. (0, src)), raw_module = raw_exec_module,
     shared_memory_area = 1, IXFHandlers = [lx_handler (\<lambda>b s p. b) True, ne_handler], host_cfg = cfg_state0\<rparr>"

text \<open>A module whose file holds nothing to load, with the given imports.\<close>

definition demo_module :: "string \<Rightarrow> bool \<Rightarrow> string list \<Rightarrow> IXFFIXUPENTRY list \<Rightarrow> exec_module" where
  "demo_module n e imps fxs = raw_exec_module\<lparr>m_Load := Some (\<lambda>bs ls. Some (NO_ERROR, ls)), m_Fixup := Some LXFixup,
     m_name := n, m_exec := e,
     m_ixf := (m_ixf raw_exec_module)\<lparr>cbModules := of_nat (length imps), Modules := imps,
       cbFixups := of_nat (length fxs), Fixups := fxs\<rparr>\<rparr>"

definition demo_state :: "exec_module \<Rightarrow> exec_state" where
  "demo_state m = fwd_state\<lparr>heap := (heap fwd_state)(7 \<mapsto> m)\<rparr>"

lemma demo_load: "IXFLoadModule 7 (demo_state (demo_module n e imps fxs)) = Some (NO_ERROR, demo_state (demo_module n e imps fxs))"
  by (simp add: IXFLoadModule_def demo_state_def demo_module_def raw_exec_module_def)

lemma demo_fixup: "IXFFixupModule 7 (demo_state (demo_module n e imps fxs)) = Some (NO_ERROR, demo_state (demo_module n e imps fxs))"
  by (simp add: IXFFixupModule_def demo_state_def demo_module_def raw_exec_module_def LXFixup_def
      do_fixup_code_data_lx_def lx_objects_def get_obj_num_def lx0_def e32_exe0_def)

lemma demo_state_fields [simp]:
  "modules (demo_state m) = modules fwd_state" "mallocs (demo_state m) = [0x100, 0x200, 0x300]"
  "heap (demo_state m) 7 = Some m" "tok (demo_state m) = tok_state0" "emem (demo_state m) = (\<lambda>_. 0)"
  by (simp_all add: demo_state_def fwd_state_def exec_state0_def)

lemma demo_module_fields [simp]:
  "m_name (demo_module n e imps fxs) = n" "m_exec (demo_module n e imps fxs) = e"
  "Modules (m_ixf (demo_module n e imps fxs)) = imps" "Fixups (m_ixf (demo_module n e imps fxs)) = fxs"
  "cbModules (m_ixf (demo_module n e imps fxs)) = of_nat (length imps)"
  "cbFixups (m_ixf (demo_module n e imps fxs)) = of_nat (length fxs)"
  by (simp_all add: demo_module_def)

lemmas name_eval = stricmp.simps fold_case_def cs_at_def same_name_def get_fname_def load_name_def


lemma demo_names:
  "find_rec ''prog'' (modules fwd_state) = None" "find_rec ''new'' (modules fwd_state) = None"
  "find_rec ''X'' (modules fwd_state) = None"
  "getrec ''a'' (modules fwd_state) = (0, Some \<lparr>rec_addr = 0x50, mod_name = ''A'', module_struct = 5, instance_no = 0, load_status = 0, up = []\<rparr>)"
  "load_name (get_fname ''prog.exe'') = ''prog''" "load_name (get_fname ''new.dll'') = ''new''"
  "0x100 \<notin> rec_addrs (modules fwd_state)"
  by (simp_all add: fwd_state_def getrec_def rec_addrs_def name_eval)

theorem program_loaded_witness:
  "\<exists>fuel st'. LoadModule fuel (demo_host (\<lambda>_. (2, []))) [] 260 7 (demo_state (demo_module ''prog.exe'' True [''a''] [fwd_import]))
     = Some (0, [], 7, st') \<and> mem_rd32 (emem st') 0x3000 + (0x2000 + 4) = 0x1234"
proof -
  let ?m = "demo_module ''prog.exe'' True [''a''] [fwd_import]"
  let ?st = "demo_state ?m"
  have "exports ?st = exports fwd_state"
    by (simp add: exports_def fun_eq_iff demo_state_def demo_module_def fwd_state_def)
  then have "resolves ?st 5 1 None 0x1234"
    by (rule_tac resolves_append [OF fwd_state_resolves, of _ "[]"]) simp_all
  then have "import_resolved ?st fwd_import 0x1234"
    using demo_names(4) by (auto simp: import_resolved_def fwd_import_def getrec_def split: option.splits if_splits)
  then have r: "list_all2 (import_resolved ?st) (Fixups (m_ixf ?m)) [0x1234]" by simp
  have "\<exists>n. \<forall>fuel \<ge> n. \<exists>st'. LoadModule fuel (demo_host (\<lambda>_. (2, []))) [] 260 7 ?st = Some (NO_ERROR, [], 7, st')
    \<and> getrec (load_name (get_fname (m_name ?m))) (modules st')
        = (0, Some (new_rec 0x100 (load_name (get_fname (m_name ?m))) 7 DONE_LOADING))
    \<and> (\<forall>(fx, v) \<in> set (zip (Fixups (m_ixf ?m)) [0x1234]). mem_rd32 (emem st') (SrcVmAddress fx) + (SrcAddress fx + 4) = v)
    \<and> (\<forall>x. x \<notin> (\<Union>fx \<in> set (Fixups (m_ixf ?m)). span (SrcVmAddress fx)) \<longrightarrow> emem st' x = emem ?st x)"
    by (rule program_loaded [OF _ _ _ demo_load _ demo_fixup _ _ _ _ _ _ r, where a = "0x100" and as = "[0x200, 0x300]"])
      (simp_all add: demo_names jump_write_def)
  then show ?thesis by (fastforce simp: fwd_import_def)
qed

theorem dll_without_imports_not_relocated_witness:
  "\<exists>st'. LoadModule 1 (demo_host (\<lambda>_. (2, []))) [] 260 7 (demo_state (demo_module ''new.dll'' False [] []))
     = Some (0, [], 7, st') \<and> emem st' = (\<lambda>_. 0)"
  using dll_without_imports_not_relocated [OF _ _ _ demo_load, of "''new.dll''" False "[]" "[]"
      "demo_module ''new.dll'' False [] []" "demo_module ''new.dll'' False [] []" "0x100" "[0x200, 0x300]" 0
      "demo_host (\<lambda>_. (2, []))" "[]" 260]
  by (simp add: demo_names) blast

theorem failed_import_blocks_module_witness:
  "\<exists>st'. LoadModule 1 (demo_host (\<lambda>_. (2, []))) [] 260 7 (demo_state (demo_module ''new.dll'' False [''X''] []))
       = Some (2, [], 7, st')
     \<and> ModLoadModule 9 (demo_host (\<lambda>_. (0, [0x4C, 0x58]))) 260 ''NEW.DLL'' st' = Some (126, ''NEW'', 0, st')"
proof -
  let ?m = "demo_module ''new.dll'' False [''X''] []"
  have "\<not> same_name ''X'' ''new''" "same_name ''NEW'' ''new''" "get_fname ''NEW.DLL'' = ''NEW''"
    by (simp_all add: name_eval)
  then show ?thesis
    using failed_import_blocks_module [OF _ _ demo_load, of "''new.dll''" False "[''X'']" "[]" ?m ?m "0x100" "[0x200, 0x300]"
        "''X''" "[]" "demo_host (\<lambda>_. (2, []))" 0 "[]" 260]
    by (simp add: demo_names) (auto simp: demo_host_def cfg_state0_def options0_def tok_state0_def)
qed

lemma demo_open: "open_file (demo_host (\<lambda>_. (0, bs))) False f st = Some (0, bs, st)"
  by (simp add: open_file_def demo_host_def)

theorem bad_format_success_witness:
  "(\<exists>st'. OpenModule (demo_host (\<lambda>_. (0, [0, 0]))) (Some ()) 260 (Some ''new.dll'') False (Some ()) fwd_state
      = Some (0, ''new.dll'', 0, st'))
   \<and> ModLoadModule 5 (demo_host (\<lambda>_. (0, [0, 0]))) 260 ''new.dll'' fwd_state = None"
proof -
  have "format_letters [0, 0] = Some (0, 0)"
    by (simp add: format_letters_def rd8_def is_mz_def)
  then have "IXFIdentifyModule (IXFHandlers (demo_host (\<lambda>_. (0, [0, 0])))) [0, 0] m = Some (ERROR_BAD_FORMAT, m)" for m
    using LXIdentify_letters NEIdentify_letters
    by (simp add: IXFIdentifyModule_def demo_host_def lx_handler_def ne_handler_def)
  moreover have "mallocs fwd_state = [0x100, 0x200, 0x300]" "heap fwd_state 0 = None"
    by (simp_all add: fwd_state_def exec_state0_def)
  moreover have "get_fname ''new.dll'' = ''new''" "stricmp ''new'' ''EMXWRAP'' \<noteq> 0"
    by (simp_all add: name_eval)
  ultimately show ?thesis
    using bad_format_success [OF _ _ demo_open, where f = "''new.dll''" and st = fwd_state and bs = "[0, 0]"
        and a = "0x100" and d = "0x200" and as = "[0x300]" and cb = 260 and fuel = 5] demo_names(2)
    by (simp add: getrec_def)
qed

theorem loaded_dll_again_witness:
  "ModLoadModule 1 (demo_host (\<lambda>_. (2, []))) 260 ''a.dll''
     (demo_state (demo_module ''x'' False [] [])\<lparr>heap := [5 \<mapsto> demo_module ''A.DLL'' False [] []]\<rparr>)
   = Some (0, [], 5, demo_state (demo_module ''x'' False [] [])\<lparr>heap := [5 \<mapsto> demo_module ''A.DLL'' False [] []]\<rparr>)"
  using loaded_dll_again [of "''a.dll''" "demo_state (demo_module ''x'' False [] [])\<lparr>heap := [5 \<mapsto> demo_module ''A.DLL'' False [] []]\<rparr>"
      "\<lparr>rec_addr = 0x50, mod_name = ''A'', module_struct = 5, instance_no = 0, load_status = 0, up = []\<rparr>" _ 0]
  by (simp add: demo_names name_eval)

theorem ModLoadModule_fuel_witness:
  "\<exists>x. ModLoadModule 1 (demo_host (\<lambda>_. (2, []))) 260 ''X.dll'' fwd_state = Some x
     \<and> ModLoadModule 1000 (demo_host (\<lambda>_. (2, []))) 260 ''X.dll'' fwd_state = Some x"
proof -
  have "nxtToken (tok fwd_state) = None" "libpath (opts (host_cfg (demo_host (\<lambda>_. (2, []))))) = None"
    by (simp_all add: fwd_state_def exec_state0_def tok_state0_def demo_host_def cfg_state0_def options0_def)
  with OpenModule_no_file [OF demo_names(3), of "demo_host (\<lambda>_. (2, []))"]
  have "\<exists>x. ModLoadModule 1 (demo_host (\<lambda>_. (2, []))) 260 ''X.dll'' fwd_state = Some x"
    by (auto simp: ModLoadModule_def load_opened_def demo_host_def)
  then show ?thesis using ModLoadModule_fuel [where fuel = 1 and fuel' = 1000] by auto
qed

end
