(* ===== verification/ExcApi.thy ===== *)
theory ExcApi
  imports ModLoad
begin

text \<open>
  Calls to the executable server (\<^verbatim>\<open>server/os2exec/api/api.c\<close>): opening and loading a module for a client, the
  enumeration of a module's imports and sections, and the sharing of all sections of a module and of
  everything it imports with a client (\<open>excShare\<close> of the L4 build,
  \<^verbatim>\<open>platform/l4env/src/server/os2exec/server/src/api-local.c\<close>). The host's call that shares a dataspace is an
  argument; the sections it was called for are recorded.
\<close>

section \<open>Operations\<close>

abbreviation (input) OPENFLAG_EXEC :: u32 where "OPENFLAG_EXEC \<equiv> 1"

definition ExcOpen ::
    "os_host \<Rightarrow> unit option \<Rightarrow> u32 \<Rightarrow> string option \<Rightarrow> u32 \<Rightarrow> unit option \<Rightarrow> exec_state \<Rightarrow> mod_result option" where
  "ExcOpen host szLoadError cbLoadError pszModname flags phmod st =
     OpenModule host szLoadError cbLoadError pszModname (flags AND OPENFLAG_EXEC \<noteq> 0) phmod st"

text \<open>What the loader of a client gets, without the path, which is not set here.\<close>

record loaded_module =
  ip :: u32
  sp :: u32
  sp_limit :: u32
  hmod :: u32
  exeflag :: bool

text \<open>The structure is filled through the handle also when loading failed.\<close>

definition ExcLoad :: "nat \<Rightarrow> os_host \<Rightarrow> u32 \<Rightarrow> string \<Rightarrow> u32 \<Rightarrow> exec_state
    \<Rightarrow> (u32 \<times> u32 \<times> string \<times> loaded_module \<times> exec_state) option" where
  "ExcLoad fuel host phmod szLoadError cbLoadError st = do {
     (rc, nm, h, st) \<leftarrow> LoadModule fuel host szLoadError cbLoadError phmod st;
     m \<leftarrow> heap st h;
     let sysdep = hdlSysDep (m_ixf m);
     Some (rc, h, nm, \<lparr>ip = EntryPoint (m_ixf m), sp = stack_high sysdep, sp_limit = stack_low sysdep,
       hmod = h, exeflag = (m_area m = 0)\<rparr>, st) }"

text \<open>The results are the code, the index, the handle of the import (unchanged on failure) and the state.\<close>

definition ExcGetImp :: "os_host \<Rightarrow> u32 \<Rightarrow> u32 \<Rightarrow> u32 \<Rightarrow> exec_state \<Rightarrow> (u32 \<times> u32 \<times> u32 \<times> exec_state) option" where
  "ExcGetImp host h index imp_hmod st =
     (if h = 0 then Some (ERROR_INVALID_PARAMETER, index, imp_hmod, st)
      else do {
        m \<leftarrow> heap st h;
        if cbModules (m_ixf m) \<le> index then Some (ERROR_MOD_NOT_FOUND, index, imp_hmod, st)
        else if unat index < length (Modules (m_ixf m)) then do {
          (rc, _, hmod2, st) \<leftarrow> OpenModule host (Some ()) CCHMAXPATH (Some (Modules (m_ixf m) ! unat index)) False (Some ()) st;
          if rc \<noteq> 0 then Some (ERROR_MOD_NOT_FOUND, index, imp_hmod, st)
          else Some (NO_ERROR, index + 1, hmod2, st) }
        else None })"

text \<open>
  The loop over the list of sections, which counts in \<open>i\<close> and keeps the last section seen. No value as the third
  result: the caller's structure is not written.
\<close>

fun sect_loop :: "l4_os3_section list \<Rightarrow> u32 \<Rightarrow> u32 \<Rightarrow> l4_os3_section option \<Rightarrow> u32 \<times> l4_os3_section option" where
  "sect_loop [] i index r = (i, r)"
| "sect_loop (s # ss) i index r = (if i < index + 1 then sect_loop ss (i + 1) index (Some s) else (i, r))"

definition ExcGetSect :: "u32 \<Rightarrow> u32 \<Rightarrow> exec_state \<Rightarrow> (u32 \<times> u32 \<times> l4_os3_section option) option" where
  "ExcGetSect h index st = do {
     m \<leftarrow> heap st h;
     let s = seclist (hdlSysDep (m_ixf m));
     if s = [] then Some (1, index, None)
     else let (i, r) = sect_loop s 0 index None in
       if i < index then Some (1, index, None)
       else do { r \<leftarrow> r; Some (0, index + 1, Some r) } }"

definition ExcQueryProcAddr :: "nat \<Rightarrow> exec_state \<Rightarrow> u32 \<Rightarrow> u32 \<Rightarrow> string option \<Rightarrow> u32 \<Rightarrow> (u32 \<times> u32) option" where
  "ExcQueryProcAddr fuel st h ordinal pszName addr = ModQueryProcAddr fuel st h ordinal pszName addr"

definition ExcQueryModuleHandle :: "string \<Rightarrow> exec_state \<Rightarrow> u32 \<times> u32" where
  "ExcQueryModuleHandle pszModname st = ModQueryModuleHandle pszModname st"

definition ExcQueryModuleName :: "u32 \<Rightarrow> u32 \<Rightarrow> string \<Rightarrow> exec_state \<Rightarrow> u32 \<times> string" where
  "ExcQueryModuleName h cbBuf pszBuf st = ModQueryModuleName h cbBuf pszBuf st"

section \<open>Sharing sections\<close>

abbreviation (input) SECTYPE_READ :: u16 where "SECTYPE_READ \<equiv> 1"
abbreviation (input) SECTYPE_WRITE :: u16 where "SECTYPE_WRITE \<equiv> 2"

text \<open>The rights are the pair of the host's read and write flags.\<close>

type_synonym shares = "(l4_os3_section \<times> bool \<times> bool) list"

definition sect_rights :: "l4_os3_section \<Rightarrow> bool \<times> bool" where
  "sect_rights s = (sec_type s AND SECTYPE_READ \<noteq> 0, sec_type s AND SECTYPE_WRITE \<noteq> 0)"

fun share_sections :: "(l4_os3_section \<Rightarrow> bool \<times> bool \<Rightarrow> u32) \<Rightarrow> l4_os3_section list \<Rightarrow> shares \<Rightarrow> u32 \<times> shares" where
  "share_sections share [] log = (0, log)"
| "share_sections share (s # ss) log =
     (let rc = share s (sect_rights s) in
      if rc \<noteq> 0 then (rc, log) else share_sections share ss (log @ [(s, sect_rights s)]))"

text \<open>
  The recursive call for the imports and the loop around it; each call and each iteration takes one unit of fuel.
\<close>

fun excShare :: "nat \<Rightarrow> os_host \<Rightarrow> (l4_os3_section \<Rightarrow> bool \<times> bool \<Rightarrow> u32) \<Rightarrow> u32 \<Rightarrow> shares \<Rightarrow> exec_state
    \<Rightarrow> (u32 \<times> shares \<times> exec_state) option"
and share_imports :: "nat \<Rightarrow> os_host \<Rightarrow> (l4_os3_section \<Rightarrow> bool \<times> bool \<Rightarrow> u32) \<Rightarrow> u32 \<Rightarrow> u32 \<Rightarrow> u32 \<Rightarrow> shares \<Rightarrow> exec_state
    \<Rightarrow> (u32 \<times> shares \<times> exec_state) option" where
  "excShare 0 host share h log st = None"
| "excShare (Suc n) host share h log st = do {
     m \<leftarrow> heap st h;
     let (rc, log) = share_sections share (seclist (hdlSysDep (m_ixf m))) log;
     if rc \<noteq> 0 then Some (rc, log, st)
     else do {
       (rc, log, st) \<leftarrow> share_imports n host share h 0 0 log st;
       Some (if rc = ERROR_MOD_NOT_FOUND then 0 else rc, log, st) } }"
| "share_imports 0 host share h index imp_hmod log st = None"
| "share_imports (Suc n) host share h index imp_hmod log st = do {
     (rc, index, imp_hmod, st) \<leftarrow> ExcGetImp host h index imp_hmod st;
     if rc \<noteq> 0 then Some (rc, log, st)
     else if imp_hmod = 0 then share_imports n host share h index imp_hmod log st
     else do {
       (rc, log, st) \<leftarrow> excShare n host share imp_hmod log st;
       if rc \<noteq> 0 then Some (rc, log, st) else share_imports n host share h index imp_hmod log st } }"

definition ExcShare :: "nat \<Rightarrow> os_host \<Rightarrow> (l4_os3_section \<Rightarrow> bool \<times> bool \<Rightarrow> u32) \<Rightarrow> u32 \<Rightarrow> exec_state
    \<Rightarrow> (u32 \<times> shares \<times> exec_state) option" where
  "ExcShare fuel host share h st = excShare fuel host share h [] st"

section \<open>Enumeration of sections\<close>

lemma unat_inc: "unat (x :: u32) + 1 < 2 ^ 32 \<Longrightarrow> unat (x + 1) = unat x + 1"
  by (simp add: unat_word_ariths)

lemma sect_loop_at:
  assumes "i + of_nat k = index" and "unat i + length ss < 2 ^ 32" and "unat index + 1 < 2 ^ 32" and "unat i + k = unat index"
  shows "sect_loop ss i index r =
    (if k < length ss then (index + 1, Some (ss ! k)) else (i + of_nat (length ss), if ss = [] then r else Some (last ss)))"
  using assms
proof (induction ss arbitrary: i k r)
  case (Cons s ss)
  have i1: "unat (i + 1) = unat i + 1" using Cons.prems(2) by (intro unat_inc) simp
  have x1: "unat (index + 1) = unat index + 1" using Cons.prems(3) by (rule unat_inc)
  show ?case
  proof (cases k)
    case 0
    then have "index = i" using Cons.prems(1) by simp
    moreover have "sect_loop ss (i + 1) i x = (i + 1, x)" for x
      by (cases ss) auto
    ultimately show ?thesis using x1 0 by (simp add: word_less_nat_alt)
  next
    case (Suc k')
    have "sect_loop ss (i + 1) index (Some s) =
      (if k' < length ss then (index + 1, Some (ss ! k'))
       else (i + 1 + of_nat (length ss), if ss = [] then Some s else Some (last ss)))"
      using Cons.prems Suc i1 by (intro Cons.IH) (auto simp: add.assoc)
    moreover have "i < index + 1" using Cons.prems(4) Suc x1 by (simp add: word_less_nat_alt)
    ultimately show ?thesis using Suc by (auto simp: add.assoc)
  qed
qed simp

text \<open>Enumerating the sections of a module: the call returns the section at the index and advances the index; with the
  index behind the last section it returns the last section once more, and only then it fails.\<close>

theorem sections_enumerated:
  assumes "heap st h = Some m" and "seclist (hdlSysDep (m_ixf m)) = ss" and "length ss < 2 ^ 32" and "unat index + 1 < 2 ^ 32"
  shows "ExcGetSect h index st = Some
    (if unat index < length ss then (0, index + 1, Some (ss ! unat index))
     else if ss \<noteq> [] \<and> unat index = length ss then (0, index + 1, Some (last ss))
     else (1, index, None))"
proof -
  have l: "sect_loop ss 0 index None = (if unat index < length ss then (index + 1, Some (ss ! unat index))
      else (of_nat (length ss), if ss = [] then None else Some (last ss)))"
    using sect_loop_at [of 0 "unat index" index ss None] assms(3,4) by simp
  have "\<not> index + 1 < index" using unat_inc [OF assms(4)] by (simp add: word_less_nat_alt)
  moreover have "unat (of_nat (length ss) :: u32) = length ss" using assms(3) by (rule unat_of_nat32)
  ultimately show ?thesis
    using assms(1,2) by (cases "ss = []") (auto simp: ExcGetSect_def l word_less_nat_alt)
qed

section \<open>Sharing a module and its imports\<close>

text \<open>The handles of the modules that a module imports, when all of them are loaded.\<close>

definition import_handles :: "exec_state \<Rightarrow> u32 \<Rightarrow> u32 list option" where
  "import_handles st h = do {
     m \<leftarrow> heap st h;
     if unat (cbModules (m_ixf m)) = length (Modules (m_ixf m)) \<and>
       list_all (\<lambda>n. fst (getrec (get_fname n) (modules st)) = 0) (Modules (m_ixf m))
     then Some (map (\<lambda>n. module_struct (the (snd (getrec (get_fname n) (modules st))))) (Modules (m_ixf m)))
     else None }"

definition module_sections :: "exec_state \<Rightarrow> u32 \<Rightarrow> l4_os3_section list" where
  "module_sections st h = (case heap st h of None \<Rightarrow> [] | Some m \<Rightarrow> seclist (hdlSysDep (m_ixf m)))"

text \<open>The modules a module needs, itself included.\<close>

inductive_set needs :: "exec_state \<Rightarrow> u32 \<Rightarrow> u32 set" for st h where
  needs_self: "h \<in> needs st h"
| needs_import: "h1 \<in> needs st h \<Longrightarrow> import_handles st h1 = Some hs \<Longrightarrow> h2 \<in> set hs \<Longrightarrow> h2 \<in> needs st h"

lemma import_handles_facts:
  assumes "import_handles st h = Some hs"
  obtains m where "heap st h = Some m" "unat (cbModules (m_ixf m)) = length (Modules (m_ixf m))"
    "list_all (\<lambda>n. fst (getrec (get_fname n) (modules st)) = 0) (Modules (m_ixf m))"
    "hs = map (\<lambda>n. module_struct (the (snd (getrec (get_fname n) (modules st))))) (Modules (m_ixf m))"
proof (cases "heap st h")
  case (Some m)
  from that [OF Some] assms show thesis
    by (simp only: import_handles_def Some bind.bind_lunit split: if_splits) simp_all
qed (use assms in \<open>simp add: import_handles_def\<close>)

lemma OpenModule_loaded:
  assumes "fst (getrec (get_fname n) (modules st)) = 0"
  shows "OpenModule host (Some ()) cb (Some n) False (Some ()) st =
    Some (NO_ERROR, [], module_struct (the (snd (getrec (get_fname n) (modules st)))), st)"
  using assms by (cases "getrec (get_fname n) (modules st)") (simp add: OpenModule_def Let_def)

lemma ExcGetImp_loaded:
  assumes "import_handles st h = Some hs" and "h \<noteq> 0"
  shows "ExcGetImp host h index x st =
    (if unat index < length hs then Some (NO_ERROR, index + 1, hs ! unat index, st)
     else Some (ERROR_MOD_NOT_FOUND, index, x, st))"
proof -
  obtain m where m: "heap st h = Some m" "unat (cbModules (m_ixf m)) = length (Modules (m_ixf m))"
      "list_all (\<lambda>n. fst (getrec (get_fname n) (modules st)) = 0) (Modules (m_ixf m))"
      "hs = map (\<lambda>n. module_struct (the (snd (getrec (get_fname n) (modules st))))) (Modules (m_ixf m))"
    using assms(1) by (rule import_handles_facts)
  have len: "length hs = length (Modules (m_ixf m))" using m(4) by simp
  have le: "cbModules (m_ixf m) \<le> index \<longleftrightarrow> \<not> unat index < length hs"
    unfolding len word_le_nat_alt m(2) by auto
  show ?thesis
  proof (cases "unat index < length hs")
    case True
    let ?n = "Modules (m_ixf m) ! unat index"
    have "fst (getrec (get_fname ?n) (modules st)) = 0" using True m(3) len by (simp add: list_all_length)
    note open1 = OpenModule_loaded [OF this, of host CCHMAXPATH]
    have "hs ! unat index = module_struct (the (snd (getrec (get_fname ?n) (modules st))))"
      using True unfolding m(4) by simp
    then show ?thesis using True le len m(1) assms(2) open1 by (simp add: ExcGetImp_def)
  qed (use le m(1) assms(2) in \<open>simp add: ExcGetImp_def\<close>)
qed

lemma share_sections_all:
  "\<forall>s. share s (sect_rights s) = 0 \<Longrightarrow> share_sections share ss log = (0, log @ map (\<lambda>s. (s, sect_rights s)) ss)"
  by (induction ss arbitrary: log) (simp_all add: Let_def)

lemma needs_step:
  assumes "import_handles st h = Some hs"
  shows "needs st h = insert h (\<Union>x \<in> set hs. needs st x)"
proof (intro equalityI subsetI)
  fix y assume "y \<in> needs st h"
  then show "y \<in> insert h (\<Union>x \<in> set hs. needs st x)"
  proof (induction rule: needs.induct)
    case (needs_import h1 hs1 h2)
    then show ?case using assms by (auto intro: needs.intros)
  qed simp
next
  have trans: "y \<in> needs st h" if "y \<in> needs st x" "x \<in> needs st h" for x y
    using that(1) by (induction rule: needs.induct) (use that(2) in \<open>auto intro: needs.intros\<close>)
  fix y assume "y \<in> insert h (\<Union>x \<in> set hs. needs st x)"
  then show "y \<in> needs st h"
    using trans needs_self [of h st] needs_import [OF needs_self assms] by blast
qed

definition shared_of :: "exec_state \<Rightarrow> u32 \<Rightarrow> shares" where
  "shared_of st h = map (\<lambda>s. (s, sect_rights s)) (module_sections st h)"

text \<open>A call that shares \<open>xs\<close>, for all large enough amounts of fuel.\<close>

definition shares_all :: "os_host \<Rightarrow> (l4_os3_section \<Rightarrow> bool \<times> bool \<Rightarrow> u32) \<Rightarrow> exec_state \<Rightarrow> u32 \<Rightarrow> shares \<Rightarrow> bool" where
  "shares_all host share st h xs \<longleftrightarrow>
     (\<exists>n. \<forall>fuel \<ge> n. \<forall>log. excShare fuel host share h log st = Some (0, log @ xs, st))"

lemma share_imports_all:
  assumes "import_handles st h = Some hs" and "h \<noteq> 0" and "length hs < 2 ^ 32"
    and "\<forall>x \<in> set hs. x \<noteq> 0 \<and> (\<exists>xs. shares_all host share st x xs \<and> set xs = f x)"
  shows "k \<le> length hs \<Longrightarrow> \<exists>n ys. (\<forall>fuel \<ge> n. \<forall>y log. share_imports fuel host share h (of_nat k) y log st =
      Some (ERROR_MOD_NOT_FOUND, log @ ys, st)) \<and> set ys = (\<Union>x \<in> set (drop k hs). f x)"
proof (induction "length hs - k" arbitrary: k)
  case 0
  then have "unat (of_nat k :: u32) = length hs" using assms(3) by (simp add: unat_of_nat32)
  then have "share_imports (Suc m) host share h (of_nat k) y log st = Some (ERROR_MOD_NOT_FOUND, log @ [], st)" for m y log
    using ExcGetImp_loaded [OF assms(1,2), of host "of_nat k" y] by simp
  then have "\<forall>fuel \<ge> 1. \<forall>y log. share_imports fuel host share h (of_nat k) y log st = Some (ERROR_MOD_NOT_FOUND, log @ [], st)"
    by (metis Suc_le_D One_nat_def)
  moreover have "drop k hs = []" using 0 by simp
  ultimately show ?case by (intro exI [of _ 1] exI [of _ "[]"]) simp
next
  case (Suc d)
  then have k: "k < length hs" by simp
  then have uk: "unat (of_nat k :: u32) = k" using assms(3) by (simp add: unat_of_nat32)
  have d: "d = length hs - (k + 1)" "k + 1 \<le> length hs" using Suc.hyps(2) k by simp_all
  obtain n1 ys where ys: "\<forall>fuel \<ge> n1. \<forall>y log. share_imports fuel host share h (of_nat (k + 1)) y log st =
      Some (ERROR_MOD_NOT_FOUND, log @ ys, st)" "set ys = (\<Union>x \<in> set (drop (k + 1) hs). f x)"
    using Suc.hyps(1) [OF d] by blast
  have x: "hs ! k \<noteq> 0" "hs ! k \<in> set hs" using assms(4) k by auto
  then obtain n2 xs where xs: "\<forall>fuel \<ge> n2. \<forall>log. excShare fuel host share (hs ! k) log st = Some (0, log @ xs, st)"
      "set xs = f (hs ! k)"
    using assms(4) by (auto simp: shares_all_def)
  have step: "share_imports (Suc m) host share h (of_nat k) y log st = Some (ERROR_MOD_NOT_FOUND, log @ xs @ ys, st)"
    if "n1 \<le> m" "n2 \<le> m" for m y log
    using ExcGetImp_loaded [OF assms(1,2), of host "of_nat k" y] that uk k x(1) xs(1) ys(1) by (simp add: add.commute)
  have "\<forall>fuel \<ge> Suc (max n1 n2). \<forall>y log. share_imports fuel host share h (of_nat k) y log st = Some (ERROR_MOD_NOT_FOUND, log @ xs @ ys, st)"
    using step by (metis Suc_le_D Suc_le_mono max.bounded_iff)
  moreover have "set (xs @ ys) = (\<Union>x \<in> set (drop k hs). f x)"
    using xs(2) ys(2) by (simp flip: Cons_nth_drop_Suc [OF k])
  ultimately show ?case by blast
qed

lemma excShare_all:
  assumes "\<forall>s. share s (sect_rights s) = 0"
  shows "\<forall>x \<in> needs st h. x \<noteq> 0 \<and> (\<exists>hs. import_handles st x = Some hs \<and> (\<forall>y \<in> set hs. rank y < (rank x :: nat)))
    \<Longrightarrow> \<exists>xs. shares_all host share st h xs \<and> set xs = (\<Union>x \<in> needs st h. set (shared_of st x))"
proof (induction "rank h" arbitrary: h rule: less_induct)
  case less
  obtain hs where hs: "import_handles st h = Some hs" "\<forall>y \<in> set hs. rank y < rank h" "h \<noteq> 0"
    using less.prems needs_self by blast
  note step = needs_step [OF hs(1)]
  have sub: "needs st y \<subseteq> needs st h" if "y \<in> set hs" for y using step that by blast
  have imps: "\<forall>y \<in> set hs. y \<noteq> 0 \<and> (\<exists>xs. shares_all host share st y xs \<and> set xs = (\<Union>x \<in> needs st y. set (shared_of st x)))"
  proof
    fix y assume y: "y \<in> set hs"
    then have "y \<noteq> 0" using less.prems sub needs_self by blast
    moreover have "\<exists>xs. shares_all host share st y xs \<and> set xs = (\<Union>x \<in> needs st y. set (shared_of st x))"
      using less.prems sub [OF y] hs(2) y by (intro less.hyps) blast+
    ultimately show "y \<noteq> 0 \<and> (\<exists>xs. shares_all host share st y xs \<and> set xs = (\<Union>x \<in> needs st y. set (shared_of st x)))" ..
  qed
  obtain m where m: "heap st h = Some m" "unat (cbModules (m_ixf m)) = length (Modules (m_ixf m))"
      "hs = map (\<lambda>n. module_struct (the (snd (getrec (get_fname n) (modules st))))) (Modules (m_ixf m))"
    using hs(1) by (rule import_handles_facts)
  have len: "length hs < 2 ^ 32" using m(2,3) unsigned_less [where ?'a = nat and w = "cbModules (m_ixf m)"] by simp
  obtain n ys where ys: "\<forall>fuel \<ge> n. \<forall>y log. share_imports fuel host share h 0 y log st = Some (ERROR_MOD_NOT_FOUND, log @ ys, st)"
      "set ys = (\<Union>y \<in> set hs. \<Union>x \<in> needs st y. set (shared_of st x))"
    using share_imports_all [OF hs(1,3) len imps, of 0] by auto
  have one: "excShare (Suc f) host share h log st = Some (0, log @ shared_of st h @ ys, st)" if "n \<le> f" for f log
    using that ys(1) m(1) share_sections_all [where share = share, OF assms] by (simp add: shared_of_def module_sections_def)
  have "shares_all host share st h (shared_of st h @ ys)"
    unfolding shares_all_def by (rule exI [of _ "Suc n"]) (use one in \<open>metis Suc_le_D Suc_le_mono\<close>)
  moreover have "set (shared_of st h @ ys) = (\<Union>x \<in> needs st h. set (shared_of st x))"
    unfolding step using ys(2) by auto
  ultimately show ?case by blast
qed

text \<open>C26: Sharing a module with a client shares the sections of exactly the modules it needs, directly or through
  other modules, with the rights of each section, when all of them are loaded and do not import each other in a
  circle; the server's state is not changed. The amount of fuel does not matter.\<close>

theorem module_shared:
  assumes "\<forall>s. share s (sect_rights s) = 0"
    and "\<forall>x \<in> needs st h. x \<noteq> 0 \<and> (\<exists>hs. import_handles st x = Some hs \<and> (\<forall>y \<in> set hs. rank y < (rank x :: nat)))"
  shows "\<exists>n xs. (\<forall>fuel \<ge> n. ExcShare fuel host share h st = Some (0, xs, st)) \<and>
    set xs = (\<Union>x \<in> needs st h. (\<lambda>s. (s, sect_rights s)) ` set (module_sections st x))"
proof -
  obtain xs where "shares_all host share st h xs" "set xs = (\<Union>x \<in> needs st h. set (shared_of st x))"
    using excShare_all [where share = share, OF assms] by blast
  moreover from this(1) obtain n where "\<forall>fuel \<ge> n. ExcShare fuel host share h st = Some (0, xs, st)"
    unfolding shares_all_def ExcShare_def by (metis append_Nil)
  ultimately show ?thesis by (intro exI [of _ n] exI [of _ xs]) (simp add: shared_of_def)
qed

text \<open>A program that imports one library.\<close>

definition share_module :: "string list \<Rightarrow> l4_os3_section list \<Rightarrow> exec_module" where
  "share_module names ss =
     (let m = demo_module ''A.EXE'' True names []; i = m_ixf m in
      m\<lparr>m_ixf := i\<lparr>hdlSysDep := (hdlSysDep i)\<lparr>seclist := ss\<rparr>\<rparr>\<rparr>)"

definition share_sect :: "u32 \<Rightarrow> u16 \<Rightarrow> l4_os3_section" where
  "share_sect a t = \<lparr>sec_addr = a, sec_size = 0x1000, sec_type = t, sec_id = 0\<rparr>"

definition share_state :: exec_state where
  "share_state = exec_state0\<lparr>
     heap := [5 \<mapsto> share_module [] [share_sect 0x2000 1], 7 \<mapsto> share_module [''KAL.DLL''] [share_sect 0x1000 3]],
     modules := [new_rec 0x100 ''KAL'' 5 DONE_LOADING]\<rparr>"

lemma share_state_imports:
  "import_handles share_state 5 = Some []" "import_handles share_state 7 = Some [5]"
proof -
  have "get_fname ''KAL.DLL'' = ''KAL''" by (simp add: get_fname_def Let_def)
  moreover have "getrec ''KAL'' [new_rec 0x100 ''KAL'' 5 DONE_LOADING] = (0, Some (new_rec 0x100 ''KAL'' 5 DONE_LOADING))"
    by (simp add: getrec_def new_rec_def stricmp_refl)
  ultimately show "import_handles share_state 7 = Some [5]"
    by (simp add: import_handles_def share_state_def share_module_def demo_module_def Let_def new_rec_def)
qed (simp add: import_handles_def share_state_def share_module_def demo_module_def Let_def)

lemma share_state_needs: "needs share_state 7 = {7, 5}"
  unfolding needs_step [OF share_state_imports(2)] by (simp add: needs_step [OF share_state_imports(1)])

theorem module_shared_witness:
  "\<exists>n xs. (\<forall>fuel \<ge> n. ExcShare fuel (demo_host (\<lambda>f. (2, []))) (\<lambda>s r. 0) 7 share_state = Some (0, xs, share_state)) \<and>
     set xs = {(share_sect 0x1000 3, (True, True)), (share_sect 0x2000 1, (True, False))}"
proof -
  have "\<forall>x \<in> needs share_state 7. x \<noteq> 0 \<and> (\<exists>hs. import_handles share_state x = Some hs \<and>
      (\<forall>y \<in> set hs. (if y = 7 then 1 else 0) < (if x = 7 then 1 else 0 :: nat)))"
    by (simp add: share_state_needs share_state_imports)
  note ok = module_shared [OF _ this, of "\<lambda>s r. 0" "demo_host (\<lambda>f. (2, []))"]
  have "module_sections share_state 7 = [share_sect 0x1000 3]" "module_sections share_state 5 = [share_sect 0x2000 1]"
    by (simp_all add: module_sections_def share_state_def share_module_def Let_def)
  moreover have "sect_rights (share_sect 0x1000 3) = (True, True)" "sect_rights (share_sect 0x2000 1) = (True, False)"
    by (simp_all add: sect_rights_def share_sect_def)
  ultimately have "(\<Union>x \<in> needs share_state 7. (\<lambda>s. (s, sect_rights s)) ` set (module_sections share_state x)) =
      {(share_sect 0x1000 3, (True, True)), (share_sect 0x2000 1, (True, False))}"
    by (auto simp: share_state_needs)
  with ok show ?thesis by simp
qed

theorem sections_enumerated_witness:
  "ExcGetSect 7 0 share_state = Some (0, 1, Some (share_sect 0x1000 3)) \<and>
   ExcGetSect 7 1 share_state = Some (0, 2, Some (share_sect 0x1000 3)) \<and> ExcGetSect 7 2 share_state = Some (1, 2, None)"
proof -
  have m: "heap share_state 7 = Some (share_module [''KAL.DLL''] [share_sect 0x1000 3])"
    "seclist (hdlSysDep (m_ixf (share_module [''KAL.DLL''] [share_sect 0x1000 3]))) = [share_sect 0x1000 3]"
    by (simp_all add: share_state_def share_module_def Let_def)
  show ?thesis
    using sections_enumerated [OF m, of 0] sections_enumerated [OF m, of 1] sections_enumerated [OF m, of 2] by simp
qed

end
