(* ===== verification/KalMap.thy ===== *)
theory KalMap
  imports ModLoad
begin

text \<open>
  The module \<open>KAL\<close>, whose functions belong to the host (\<open>getline\<close>, \<open>dl_get_funcs\<close> and \<open>ModInitialize\<close> of
  \<^verbatim>\<open>server/os2exec/modmgr.c\<close>): its entry table is read from the text file \<^verbatim>\<open>kal.map\<close>, which has the number of
  functions in its first line and then a line with address and name for each of them. The file is the list of
  characters from the current position on; reading behind its end gives no value. Whether a block of
  memory of some size is available is an argument.
\<close>

section \<open>Lines and numbers\<close>

definition is_eol :: "char \<Rightarrow> bool" where
  "is_eol c \<longleftrightarrow> c = CR \<or> c = LF"

text \<open>A line is copied to an array of \<open>cap\<close> characters; line ends are skipped, empty lines too.\<close>

definition getline :: "nat \<Rightarrow> string \<Rightarrow> (string \<times> string) option" where
  "getline cap p =
     (let line = takeWhile (\<lambda>c. c \<noteq> NUL \<and> \<not> is_eol c) p;
          q = drop (length line) p;
          r = dropWhile is_eol q in
      if length line < cap \<and> q \<noteq> [] \<and> r \<noteq> [] then Some (line, r) else None)"

definition is_hex :: "char \<Rightarrow> bool" where
  "is_hex c \<longleftrightarrow> is_digit c \<or> (97 \<le> (of_char c :: nat) \<and> (of_char c :: nat) \<le> 102) \<or> (65 \<le> (of_char c :: nat) \<and> (of_char c :: nat) \<le> 70)"

definition hex_digit :: "char \<Rightarrow> nat" where
  "hex_digit c = (if is_digit c then of_char c - 48 else if 97 \<le> (of_char c :: nat) then of_char c - 87 else of_char c - 55)"

definition hex_value :: "string \<Rightarrow> nat" where
  "hex_value ds = foldl (\<lambda>n c. 16 * n + hex_digit c) 0 ds"

text \<open>
  The conversion \<open>%llx\<close> of \<open>sscanf\<close>: white space, a sign, the prefix \<open>0x\<close>, digits. The outer \<open>None\<close> is a value that does
  not fit, the inner one a failure of the conversion.
\<close>

definition scan_hex :: "string \<Rightarrow> (64 word \<times> string) option option" where
  "scan_hex s =
     (let t = dropWhile is_space s;
          neg = (t \<noteq> [] \<and> hd t = CHR ''-'');
          u = (if t \<noteq> [] \<and> (hd t = CHR ''-'' \<or> hd t = CHR ''+'') then tl t else t);
          v = (if take 2 u = ''0x'' \<or> take 2 u = ''0X'' then drop 2 u else u);
          ds = takeWhile is_hex v;
          n = hex_value ds in
      if ds = [] then Some None
      else if n < 2 ^ 64 then Some (Some (if neg then - of_nat n else of_nat n, drop (length ds) v))
      else None)"

text \<open>\<open>%s\<close> into an array of \<open>cap\<close> characters.\<close>

definition scan_str :: "nat \<Rightarrow> string \<Rightarrow> string option option" where
  "scan_str cap s =
     (let w = takeWhile (\<lambda>c. \<not> is_space c) (dropWhile is_space s) in
      if w = [] then Some None else if length w < cap then Some (Some w) else None)"

text \<open>
  \<open>sscanf(line, "%llx %s", &funcaddr, s)\<close>: variables keep their values when a conversion fails; \<open>None\<close> in the variables
  means that they were never written.
\<close>

definition scan_line :: "string \<Rightarrow> 64 word option \<times> string option \<Rightarrow> (64 word option \<times> string option) option" where
  "scan_line line x = do {
     r \<leftarrow> scan_hex line;
     (case r of
        None \<Rightarrow> Some x
      | Some (a, rest) \<Rightarrow> do {
          w \<leftarrow> scan_str 24 rest;
          Some (Some a, case w of None \<Rightarrow> snd x | Some w \<Rightarrow> Some w) }) }"

section \<open>The entry table\<close>

fun dl_loop :: "(nat \<Rightarrow> bool) \<Rightarrow> nat \<Rightarrow> nat \<Rightarrow> string \<Rightarrow> 64 word option \<times> string option \<Rightarrow> IXFMODULEENTRY list
    \<Rightarrow> (u32 \<times> IXFMODULEENTRY list) option" where
  "dl_loop mem_ok 0 i p x es = Some (0, es)"
| "dl_loop mem_ok (Suc n) i p x es = do {
     (line, p) \<leftarrow> getline 0x100 p;
     x \<leftarrow> scan_line line x;
     s \<leftarrow> snd x;
     funcaddr \<leftarrow> fst x;
     if \<not> mem_ok (length s + 1) then Some (1, es)
     else dl_loop mem_ok n (i + 1) p x
       (es @ [\<lparr>FunctionName = Some s, Address = ucast funcaddr, ModuleName = None, Ordinal = int i + 1\<rparr>]) }"

text \<open>The code, the number of entries and the table; an entry has 16 bytes.\<close>

definition dl_get_funcs :: "os_host \<Rightarrow> (nat \<Rightarrow> bool) \<Rightarrow> (u32 \<times> int \<times> IXFMODULEENTRY list) option" where
  "dl_get_funcs host mem_ok =
     (let (rc, bs) = io_load_file host (''c:'' @ BSL # ''kal.map'') in
      if rc \<noteq> 0 then Some (rc, 0, [])
      else do {
        (line, p) \<leftarrow> getline 0x100 (map char_of_u8 bs);
        n \<leftarrow> (case atoi line of Ret n \<Rightarrow> Some n | _ \<Rightarrow> None);
        let bytes = unat (of_int n * 16 :: u32);
        if \<not> mem_ok bytes then Some (1, n, [])
        else if int bytes < n * 16 then None
        else do {
          (rc, es) \<leftarrow> dl_loop mem_ok (nat n) 0 p (None, None) [];
          Some (rc, n, es) } })"

definition ModInitialize :: "os_host \<Rightarrow> (nat \<Rightarrow> bool) \<Rightarrow> exec_state \<Rightarrow> (u32 \<times> exec_state) option" where
  "ModInitialize host mem_ok st =
     (let st = st\<lparr>modules := []\<rparr>; (a, st) = malloc st in
      if a = 0 \<or> \<not> mem_ok 4 then None
      else
        let m = (raw_module host)\<lparr>m_name := ''KAL'', m_Load := None, m_Fixup := None\<rparr> in do {
        (rc, n, es) \<leftarrow> dl_get_funcs host mem_ok;
        if rc \<noteq> 0 then Some (rc, st\<lparr>heap := (heap st)(a \<mapsto> m)\<rparr>)
        else if \<not> mem_ok 16 then None
        else
          let m = m\<lparr>m_ixf := (m_ixf m)\<lparr>cbEntries := of_int n, Entries := es, cbModules := 0, Modules := [], cbFixups := 0,
                Stack := 0, EntryPoint := 0, PIC := False,
                hdlSysDep := \<lparr>secnum = 0, seclist = [], stack_low = 0, stack_high = 0\<rparr>\<rparr>\<rparr> in do {
          (_, st) \<leftarrow> ModRegister ''KAL'' a False (st\<lparr>heap := (heap st)(a \<mapsto> m)\<rparr>);
          Some (NO_ERROR, st) } })"

section \<open>Printing the file\<close>

definition digit_char :: "nat \<Rightarrow> char" where
  "digit_char d = char_of (if d < 10 then 48 + d else 87 + d)"

fun num_str :: "nat \<Rightarrow> nat \<Rightarrow> string" where
  "num_str b n = (if b < 2 \<or> n < b then [digit_char n] else num_str b (n div b) @ [digit_char (n mod b)])"

declare num_str.simps [simp del]

definition eol :: string where "eol = [CR, LF]"

definition map_line :: "u32 \<times> string \<Rightarrow> string" where
  "map_line x = num_str 16 (unat (fst x)) @ '' '' @ snd x @ eol"

definition kal_map :: "(u32 \<times> string) list \<Rightarrow> string" where
  "kal_map fs = num_str 10 (length fs) @ eol @ concat (map map_line fs) @ [NUL]"

lemma of_digit_char: "d < 16 \<Longrightarrow> (of_char (digit_char d) :: nat) = (if d < 10 then 48 + d else 87 + d)"
  unfolding digit_char_def of_char_of by (simp add: take_bit_eq_mod)

lemma digit_char_hex: "d < 16 \<Longrightarrow> is_hex (digit_char d) \<and> hex_digit (digit_char d) = d"
  by (auto simp: is_hex_def hex_digit_def is_digit_def of_digit_char)

lemma num_hex: "list_all is_hex (num_str 16 n) \<and> hex_value (num_str 16 n) = n"
proof (induction n rule: less_induct)
  case (less n)
  show ?case
  proof (cases "n < 16")
    case True
    then show ?thesis by (simp add: num_str.simps [of 16 n] hex_value_def digit_char_hex)
  next
    case False
    then have "n div 16 < n" by simp
    from less [OF this] False show ?thesis
      by (simp add: num_str.simps [of 16 n] hex_value_def digit_char_hex)
  qed
qed

lemma num_dec: "list_all is_digit (num_str 10 n) \<and> digits_value (num_str 10 n) = int n"
proof (induction n rule: less_induct)
  case (less n)
  have d: "d < 10 \<Longrightarrow> is_digit (digit_char d) \<and> int (of_char (digit_char d)) - 48 = int d" for d
    by (simp add: is_digit_def of_digit_char)
  show ?case
  proof (cases "n < 10")
    case True
    then show ?thesis using d by (simp add: num_str.simps [of 10 n] digits_value_def)
  next
    case False
    then have "n div 10 < n" by simp
    moreover have "10 * int (n div 10) + int (n mod 10) = int n" by arith
    ultimately show ?thesis
      using less [of "n div 10"] False d [of "n mod 10"] by (simp add: num_str.simps [of 10 n] digits_value_def)
  qed
qed

lemma num_str_nonempty: "num_str b n \<noteq> []"
  by (simp add: num_str.simps [of b n])

lemma hex_not_special: "is_hex c \<Longrightarrow> \<not> is_space c \<and> c \<noteq> CHR ''-'' \<and> c \<noteq> CHR ''+'' \<and> c \<noteq> CHR ''x'' \<and> c \<noteq> CHR ''X'' \<and> c \<noteq> NUL \<and> \<not> is_eol c"
  by (auto simp: is_hex_def is_digit_def is_space_def is_eol_def)

lemma digit_hex: "is_digit c \<Longrightarrow> is_hex c"
  by (simp add: is_hex_def)

section \<open>Reading the file back\<close>

lemma getline_line:
  assumes "list_all (\<lambda>c. c \<noteq> NUL \<and> \<not> is_eol c) l" and "length l < cap" and "r = c # r'" and "\<not> is_eol c"
  shows "getline cap (l @ eol @ r) = Some (l, r)"
proof -
  have e: "is_eol CR" "is_eol LF" by (simp_all add: is_eol_def)
  have "takeWhile (\<lambda>c. c \<noteq> NUL \<and> \<not> is_eol c) (l @ eol @ r) = l"
    using assms(1) e by (simp add: eol_def list_all_iff takeWhile_append)
  moreover have "dropWhile is_eol (eol @ r) = r" using assms(3,4) e by (simp add: eol_def)
  moreover have "drop (length l) (l @ eol @ r) = eol @ r" by simp
  ultimately show ?thesis using assms(2,3) unfolding getline_def Let_def by (simp only:) (simp add: eol_def)
qed

lemma atoi_num: "n < 2 ^ 31 \<Longrightarrow> atoi (num_str 10 n) = Ret (int n)"
proof -
  assume n: "n < 2 ^ 31"
  have all: "list_all is_digit (num_str 10 n)" and val: "digits_value (num_str 10 n) = int n" using num_dec by auto
  obtain c cs where c: "num_str 10 n = c # cs" using num_str_nonempty by (metis list.exhaust)
  have "is_digit c" using all c by simp
  then have "\<not> is_space c" "c \<noteq> CHR ''-''" "c \<noteq> CHR ''+''" using hex_not_special digit_hex by blast+
  have dw: "dropWhile is_space (num_str 10 n) = num_str 10 n" using c \<open>\<not> is_space c\<close> by simp
  have tw: "takeWhile is_digit (num_str 10 n) = num_str 10 n" using all by (simp add: list_all_iff takeWhile_eq_all_conv)
  have "hd (num_str 10 n) = c" using c by simp
  with n \<open>c \<noteq> CHR ''-''\<close> \<open>c \<noteq> CHR ''+''\<close> show ?thesis by (simp add: atoi_def Let_def dw tw val)
qed

definition plain_name :: "string \<Rightarrow> bool" where
  "plain_name s \<longleftrightarrow> s \<noteq> [] \<and> length s < 24 \<and> list_all (\<lambda>c. \<not> is_space c \<and> c \<noteq> NUL) s"

lemma eol_space: "is_eol c \<Longrightarrow> is_space c"
  by (auto simp: is_eol_def is_space_def)

lemma scan_hex_num:
  assumes "n < 2 ^ 64"
  shows "scan_hex (num_str 16 n @ CHR '' '' # r) = Some (Some (of_nat n, CHR '' '' # r))"
proof -
  have all: "list_all is_hex (num_str 16 n)" and val: "hex_value (num_str 16 n) = n" using num_hex by auto
  obtain c cs where c: "num_str 16 n = c # cs" using num_str_nonempty by (metis list.exhaust)
  have "is_hex c" "list_all is_hex cs" using all c by simp_all
  then have nc: "\<not> is_space c" "c \<noteq> CHR ''-''" "c \<noteq> CHR ''+''" using hex_not_special by blast+
  have t2: "take 2 (c # cs @ CHR '' '' # r) \<noteq> ''0x'' \<and> take 2 (c # cs @ CHR '' '' # r) \<noteq> ''0X''"
    using \<open>list_all is_hex cs\<close> hex_not_special by (cases cs) auto
  have tw: "takeWhile is_hex (c # cs @ CHR '' '' # r) = c # cs"
    using \<open>is_hex c\<close> \<open>list_all is_hex cs\<close> by (simp add: list_all_iff takeWhile_append is_hex_def is_digit_def)
  have dw: "dropWhile is_space (c # cs @ CHR '' '' # r) = c # cs @ CHR '' '' # r" using nc by simp
  have v: "hex_value (c # cs) = n" using val c by simp
  have "scan_hex (c # cs @ CHR '' '' # r) = Some (Some (of_nat n, drop (length (c # cs)) (c # cs @ CHR '' '' # r)))"
    unfolding scan_hex_def Let_def dw list.sel using nc(2,3) t2 assms by (simp only: tw v if_False simp_thms list.distinct) simp
  then show ?thesis unfolding c by simp
qed

lemma scan_map_line:
  assumes "plain_name w"
  shows "scan_line (num_str 16 (unat (a :: u32)) @ '' '' @ w) x = Some (Some (ucast a), Some w)"
proof -
  have w: "takeWhile (\<lambda>c. \<not> is_space c) w = w" "dropWhile is_space w = w" "w \<noteq> []" "length w < 24"
    using assms by (cases w; auto simp: plain_name_def list_all_iff takeWhile_eq_all_conv)+
  have "is_space (CHR '' '')" by (simp add: is_space_def)
  then have "dropWhile is_space (CHR '' '' # w) = w" using w(2) by simp
  then have "scan_str 24 (CHR '' '' # w) = Some (Some w)" unfolding scan_str_def Let_def by (simp only: w(1)) (simp add: w(3,4))
  moreover have "unat a < 2 ^ 64" using unsigned_less [where ?'a = nat and w = a] by simp
  ultimately show ?thesis using scan_hex_num [of "unat a" w] by (simp add: scan_line_def)
qed

lemma num_str_length: "n < b ^ Suc k \<Longrightarrow> 2 \<le> b \<Longrightarrow> length (num_str b n) \<le> Suc k"
proof (induction k arbitrary: n)
  case 0
  then show ?case by (simp add: num_str.simps [of b n])
next
  case (Suc k)
  show ?case
  proof (cases "n < b")
    case False
    have "n div b < b ^ Suc k" using Suc.prems by (simp add: less_mult_imp_div_less mult.commute)
    with Suc.IH Suc.prems(2) False show ?thesis by (simp add: num_str.simps [of b n])
  qed (simp add: num_str.simps [of b n])
qed

lemma plain_no_eol: "list_all (\<lambda>c. \<not> is_space c \<and> c \<noteq> NUL) w \<Longrightarrow> list_all (\<lambda>c. c \<noteq> NUL \<and> \<not> is_eol c) w"
  using eol_space by (auto simp: list_all_iff)

lemma num_no_eol: "list_all is_hex s \<Longrightarrow> list_all (\<lambda>c. c \<noteq> NUL \<and> \<not> is_eol c) s"
  using hex_not_special by (auto simp: list_all_iff)

lemma getline_map_line:
  assumes "plain_name (snd x)" and "r = c # r'" and "\<not> is_eol c"
  shows "getline 0x100 (map_line x @ r) = Some (num_str 16 (unat (fst x)) @ '' '' @ snd x, r)"
proof -
  let ?l = "num_str 16 (unat (fst x)) @ '' '' @ snd x"
  have "unat (fst x) < 16 ^ Suc 7" using unsigned_less [where ?'a = nat and w = "fst x"] by simp
  then have len: "length (num_str 16 (unat (fst x))) \<le> 8" using num_str_length [of "unat (fst x)" 16 7] by simp
  have hx: "list_all is_hex (num_str 16 (unat (fst x)))" using num_hex by blast
  have "list_all (\<lambda>c. c \<noteq> NUL \<and> \<not> is_eol c) ?l"
    using num_no_eol [OF hx] plain_no_eol [of "snd x"] assms(1) by (simp add: plain_name_def is_eol_def)
  moreover have "length ?l < 0x100" using len assms(1) by (simp add: plain_name_def)
  ultimately show ?thesis
    using getline_line [of ?l "0x100" r c r'] assms(2,3) by (simp add: map_line_def)
qed

definition map_entry :: "nat \<Rightarrow> u32 \<times> string \<Rightarrow> IXFMODULEENTRY" where
  "map_entry i x = \<lparr>FunctionName = Some (snd x), Address = fst x, ModuleName = None, Ordinal = int i + 1\<rparr>"

lemma map_tail_head:
  "\<exists>c r'. concat (map map_line fs) @ [NUL] = c # r' \<and> \<not> is_eol c"
proof (cases fs)
  case (Cons x xs)
  obtain c cs where c: "num_str 16 (unat (fst x)) = c # cs" using num_str_nonempty by (metis list.exhaust)
  then have "is_hex c" using num_hex [of "unat (fst x)"] by simp
  with Cons c show ?thesis using hex_not_special by (simp add: map_line_def)
qed (simp add: is_eol_def)

lemma address_kept: "ucast (ucast (a :: u32) :: 64 word) = a"
  by (rule bit_word_eqI) (simp add: bit_simps)

lemma dl_loop_line:
  assumes "plain_name (snd f)" and "r = c # r'" and "\<not> is_eol c"
  shows "dl_loop (\<lambda>_. True) (Suc n) i (map_line f @ r) x es =
    dl_loop (\<lambda>_. True) n (i + 1) r (Some (ucast (fst f)), Some (snd f)) (es @ [map_entry i f])"
  by (simp add: getline_map_line [OF assms] scan_map_line [OF assms(1), simplified] map_entry_def address_kept)

lemma dl_loop_map:
  assumes "list_all (\<lambda>x. plain_name (snd x)) fs"
  shows "dl_loop (\<lambda>_. True) (length fs) i (concat (map map_line fs) @ [NUL]) x es =
    Some (0, es @ map (\<lambda>k. map_entry (i + k) (fs ! k)) [0..<length fs])"
  using assms
proof (induction fs arbitrary: i x es)
  case (Cons f fs)
  obtain c r' where t: "concat (map map_line fs) @ [NUL] = c # r'" "\<not> is_eol c" using map_tail_head by blast
  have f: "plain_name (snd f)" using Cons.prems by simp
  have upt: "[0..<length (f # fs)] = 0 # map Suc [0..<length fs]"
    by (simp add: map_Suc_upt upt_conv_Cons del: upt_Suc)
  have "dl_loop (\<lambda>_. True) (length (f # fs)) i (concat (map map_line (f # fs)) @ [NUL]) x es =
      Some (0, (es @ [map_entry i f]) @ map (\<lambda>k. map_entry (i + 1 + k) (fs ! k)) [0..<length fs])"
    using dl_loop_line [OF f t, of "length fs" i x es] Cons.IH [of "i + 1"] Cons.prems by simp
  then show ?case unfolding upt by (simp add: comp_def)
qed simp

lemma dl_get_funcs_map:
  assumes "io_load_file host (''c:'' @ BSL # ''kal.map'') = (0, map u8_of_char (kal_map fs))" and "length fs < 2 ^ 27"
    and "list_all (\<lambda>x. plain_name (snd x)) fs"
  shows "dl_get_funcs host (\<lambda>_. True) = Some (0, int (length fs), map (\<lambda>k. map_entry k (fs ! k)) [0..<length fs])"
proof -
  obtain c r' where t: "concat (map map_line fs) @ [NUL] = c # r'" "\<not> is_eol c" using map_tail_head by blast
  have dig: "list_all is_hex (num_str 10 (length fs))" using num_dec [of "length fs"] digit_hex by (auto simp: list_all_iff)
  have "length fs < 10 ^ Suc 9" using assms(2) by simp
  then have "length (num_str 10 (length fs)) \<le> 10" using num_str_length [of "length fs" 10 9] by simp
  then have g: "getline 0x100 (kal_map fs) = Some (num_str 10 (length fs), concat (map map_line fs) @ [NUL])"
    using getline_line [OF num_no_eol [OF dig] _ t, of "0x100"] by (simp add: kal_map_def)
  have b: "uint (word_of_int (int (length fs)) * 16 :: u32) = int (length fs) * 16"
    using assms(2) by (simp add: uint_word_ariths unsigned_of_nat take_bit_nat_eq_self)
  have "map (char_of_u8 \<circ> u8_of_char) (kal_map fs) = kal_map fs"
    by (simp add: comp_def)
  with g have g': "getline 0x100 (map (char_of_u8 \<circ> u8_of_char) (kal_map fs)) =
      Some (num_str 10 (length fs), concat (map map_line fs) @ [NUL])" by simp
  have at: "atoi (num_str 10 (length fs)) = Ret (int (length fs))" using assms(2) by (intro atoi_num) simp
  show ?thesis
    unfolding dl_get_funcs_def assms(1) Let_def
    using b dl_loop_map [OF assms(3), of 0 "(None, None)" "[]"] by (simp add: g' at)
qed

section \<open>The functions of the host are found\<close>

definition kal_module :: "os_host \<Rightarrow> (u32 \<times> string) list \<Rightarrow> exec_module" where
  "kal_module host fs =
     (let m = (raw_module host)\<lparr>m_name := ''KAL'', m_Load := None, m_Fixup := None\<rparr> in
      m\<lparr>m_ixf := (m_ixf m)\<lparr>cbEntries := of_nat (length fs),
        Entries := map (\<lambda>k. map_entry k (fs ! k)) [0..<length fs], cbModules := 0, Modules := [], cbFixups := 0,
        Stack := 0, EntryPoint := 0, PIC := False,
        hdlSysDep := \<lparr>secnum = 0, seclist = [], stack_low = 0, stack_high = 0\<rparr>\<rparr>\<rparr>)"

lemma ModInitialize_map:
  assumes "io_load_file host (''c:'' @ BSL # ''kal.map'') = (0, map u8_of_char (kal_map fs))" and "length fs < 2 ^ 27"
    and "list_all (\<lambda>x. plain_name (snd x)) fs" and "mallocs st = a # b # rest" and "a \<noteq> 0" and "b \<noteq> 0"
  shows "ModInitialize host (\<lambda>_. True) st = Some (NO_ERROR, st\<lparr>mallocs := rest, heap := (heap st)(a \<mapsto> kal_module host fs),
    modules := [\<lparr>rec_addr = b, mod_name = ''KAL'', module_struct = a, instance_no = 0, load_status = DONE_LOADING, up = []\<rparr>]\<rparr>)"
  using assms(4-6)
  by (simp add: ModInitialize_def dl_get_funcs_map [OF assms(1-3)] malloc_def ModRegister_def getrec_def kal_module_def Let_def)

lemma find_entry_distinct:
  assumes "i < length es" and "distinct (map FunctionName es)" and "FunctionName (es ! i) = Some s"
    and "list_all (\<lambda>e. FunctionName e \<noteq> None) es"
  shows "find_entry (length es) es (Some s) = Some (Some (es ! i))"
  using assms
proof (induction es arbitrary: i)
  case (Cons e es)
  obtain a where a: "FunctionName e = Some a" using Cons.prems(4) by auto
  show ?case
  proof (cases i)
    case 0
    with Cons.prems(3) show ?thesis by simp
  next
    case (Suc j)
    have "FunctionName (es ! j) \<in> set (map FunctionName es)" using Suc Cons.prems(1) by simp
    then have "FunctionName e \<noteq> FunctionName (es ! j)" using Cons.prems(2) by auto
    then show ?thesis using Cons Suc a by simp
  qed
qed simp

text \<open>The host's functions: when \<open>kal.map\<close> lists functions with plain, different names, \<open>ModInitialize\<close> registers the
  module \<open>KAL\<close>, and afterwards a query for the \<open>i\<close>-th ordinal, or for the \<open>i\<close>-th name without an ordinal, returns
  the address of the \<open>i\<close>-th line.\<close>

theorem kal_functions_resolved:
  assumes "io_load_file host (''c:'' @ BSL # ''kal.map'') = (0, map u8_of_char (kal_map fs))" and "length fs < 2 ^ 27"
    and "list_all (\<lambda>x. plain_name (snd x)) fs" and "distinct (map snd fs)"
    and "mallocs st = a # b # rest" and "a \<noteq> 0" and "b \<noteq> 0"
    and "i < length fs"
  shows "\<exists>st'. ModInitialize host (\<lambda>_. True) st = Some (NO_ERROR, st') \<and> registered ''kal'' st' = Some a
    \<and> ModQueryProcAddr (Suc fuel) st' a (of_nat (i + 1)) name pfn = Some (NO_ERROR, fst (fs ! i))
    \<and> ModQueryProcAddr (Suc fuel) st' a 0 (Some (snd (fs ! i))) pfn = Some (NO_ERROR, fst (fs ! i))"
proof -
  let ?r = "\<lparr>rec_addr = b, mod_name = ''KAL'', module_struct = a, instance_no = 0, load_status = DONE_LOADING, up = []\<rparr> :: module_rec"
  let ?st = "st\<lparr>mallocs := rest, heap := (heap st)(a \<mapsto> kal_module host fs), modules := [?r]\<rparr>"
  let ?es = "map (\<lambda>k. map_entry k (fs ! k)) [0..<length fs]"
  have ex: "exports ?st (module_struct ?r) = Some (of_nat (length fs), ?es)"
    by (simp add: exports_def kal_module_def Let_def)
  have f: "find_struct a (modules ?st) = Some ?r" by simp
  have len: "unat (of_nat (length fs) :: u32) = length fs" "unat (of_nat (i + 1) :: u32) = i + 1"
    using assms(2,8) by (simp_all add: unsigned_of_nat take_bit_nat_eq_self del: of_nat_add of_nat_Suc)
  have e: "?es ! i = map_entry i (fs ! i)" using assms(8) by simp
  have "(of_nat (i + 1) :: u32) > 0" using len(2) by (auto simp: word_gt_0 simp del: of_nat_add of_nat_Suc)
  then have at: "entry_at (of_nat (length fs), ?es) (of_nat (i + 1)) name = Some (Some (map_entry i (fs ! i)))"
    using len(2) assms(8) e by (simp add: entry_at_def del: of_nat_add of_nat_Suc)
  have names: "map FunctionName ?es = map Some (map snd fs)"
    by (rule nth_equalityI) (simp_all add: map_entry_def)
  have "distinct (map FunctionName ?es)" using assms(4) unfolding names by (simp add: distinct_map inj_on_def)
  then have "find_entry (length ?es) ?es (Some (snd (fs ! i))) = Some (Some (?es ! i))"
    using assms(8) by (intro find_entry_distinct) (simp_all add: map_entry_def list_all_iff)
  then have nm: "entry_at (of_nat (length fs), ?es) 0 (Some (snd (fs ! i))) = Some (Some (map_entry i (fs ! i)))"
    unfolding e by (simp add: entry_at_def len(1))
  have own: "ModuleName (map_entry i (fs ! i)) = None" "Address (map_entry i (fs ! i)) = fst (fs ! i)" by (simp_all add: map_entry_def)
  have "registered ''kal'' ?st = Some a"
    by (simp add: registered_def stricmp.simps fold_case_def cs_at_def)
  moreover have "ModQueryProcAddr (Suc fuel) ?st a (of_nat (i + 1)) name pfn = Some (NO_ERROR, fst (fs ! i))"
    unfolding ModQueryProcAddr.simps proc_step_own [OF f ex at own(1)] by (simp add: own(2))
  moreover have "ModQueryProcAddr (Suc fuel) ?st a 0 (Some (snd (fs ! i))) pfn = Some (NO_ERROR, fst (fs ! i))"
    unfolding ModQueryProcAddr.simps proc_step_own [OF f ex nm own(1)] by (simp add: own(2))
  ultimately show ?thesis using ModInitialize_map [OF assms(1-3,5-7)] by blast
qed

definition kal_demo :: "(u32 \<times> string) list" where
  "kal_demo = [(0x12345, ''KalWrite''), (0x20ff, ''KalExit'')]"

theorem kal_functions_resolved_witness:
  "\<exists>st. ModInitialize (demo_host (\<lambda>_. (0, map u8_of_char (kal_map kal_demo)))) (\<lambda>_. True) exec_state0 = Some (NO_ERROR, st)
    \<and> registered ''kal'' st = Some 0x100
    \<and> ModQueryProcAddr 1 st 0x100 2 None 0 = Some (NO_ERROR, 0x20ff)
    \<and> ModQueryProcAddr 1 st 0x100 0 (Some ''KalExit'') 0 = Some (NO_ERROR, 0x20ff)"
proof -
  have "list_all (\<lambda>x. plain_name (snd x)) kal_demo"
    by (simp add: kal_demo_def plain_name_def is_space_def)
  from kal_functions_resolved [where fs = kal_demo and host = "demo_host (\<lambda>_. (0, map u8_of_char (kal_map kal_demo)))"
      and st = exec_state0 and a = "0x100" and b = "0x200" and rest = "[0x300]" and i = 1 and fuel = 0 and name = None and pfn = 0, OF _ _ this]
  show ?thesis by (simp add: demo_host_def exec_state0_def kal_demo_def)
qed

end
