(* ===== verification/Linked.thy ===== *)
theory Linked
  imports OsPrelude
begin

text \<open>
  Records in a store that are linked through members holding addresses, as the lists of shared memory areas
  and of processes are: the addresses met when following the links, the search loop of such lists, and the
  operations on doubly linked lists that the components have in common.
\<close>

section \<open>Linked records\<close>

text \<open>
  The list of addresses met when following \<open>nx\<close> from \<open>p\<close>, and the back links \<open>pv\<close>, the first of which is
  \<open>q\<close>.
\<close>

fun path :: "('a \<Rightarrow> u32) \<Rightarrow> (u32 \<Rightarrow> 'a option) \<Rightarrow> u32 \<Rightarrow> u32 list \<Rightarrow> bool" where
  "path nx h p [] \<longleftrightarrow> p = 0"
| "path nx h p (a # as) \<longleftrightarrow> p = a \<and> a \<noteq> 0 \<and> (\<exists>v. h a = Some v \<and> path nx h (nx v) as)"

fun backs :: "('a \<Rightarrow> u32) \<Rightarrow> (u32 \<Rightarrow> 'a option) \<Rightarrow> u32 \<Rightarrow> u32 list \<Rightarrow> bool" where
  "backs pv h q [] \<longleftrightarrow> True"
| "backs pv h q (a # as) \<longleftrightarrow> (\<exists>v. h a = Some v \<and> pv v = q) \<and> backs pv h a as"

lemma path_cong: "(\<And>a. a \<in> set as \<Longrightarrow> map_option nx (h' a) = map_option nx (h a)) \<Longrightarrow> path nx h' p as = path nx h p as"
proof (induction as arbitrary: p)
  case (Cons a as)
  then have "map_option nx (h' a) = map_option nx (h a)" "path nx h' q as = path nx h q as" for q by auto
  then show ?case by (cases "h a"; cases "h' a") auto
qed simp

lemma backs_cong: "(\<And>a. a \<in> set as \<Longrightarrow> map_option pv (h' a) = map_option pv (h a)) \<Longrightarrow> backs pv h' q as = backs pv h q as"
proof (induction as arbitrary: q)
  case (Cons a as)
  then have "map_option pv (h' a) = map_option pv (h a)" "backs pv h' a as = backs pv h a as" by auto
  then show ?case by (cases "h a"; cases "h' a") auto
qed simp

lemma backs_append:
  "backs pv h q (ps @ [c]) \<longleftrightarrow> backs pv h q ps \<and> (\<exists>v. h c = Some v \<and> pv v = (if ps = [] then q else last ps))"
  by (induction ps arbitrary: q) auto

lemma path_mem: "path nx h p as \<Longrightarrow> a \<in> set as \<Longrightarrow> a \<noteq> 0 \<and> (\<exists>v. h a = Some v)"
  by (induction as arbitrary: p) auto

section \<open>Search\<close>

text \<open>
  The loop over a list until a record satisfies \<open>P\<close>; the result is the address of the record or 0. No value:
  the loop reads a freed record or does not end.
\<close>

partial_function (option) search_from :: "('a \<Rightarrow> u32) \<Rightarrow> ('a \<Rightarrow> bool) \<Rightarrow> (u32 \<Rightarrow> 'a option) \<Rightarrow> u32 \<Rightarrow> u32 option" where
  "search_from nx P h p =
     (if p = 0 then Some 0
      else do { v \<leftarrow> h p; if P v then Some p else search_from nx P h (nx v) })"

lemma search_from_path:
  "path nx h p ps \<Longrightarrow>
   search_from nx P h p = Some (case find (\<lambda>a. P (the (h a))) ps of None \<Rightarrow> 0 | Some a \<Rightarrow> a)"
  by (induction ps arbitrary: p) (auto simp: search_from.simps)

lemma find_mem: "find P xs = Some x \<Longrightarrow> x \<in> set xs \<and> P x"
  by (auto simp: find_Some_iff dest: nth_mem)

section \<open>Doubly linked records\<close>

text \<open>Taking the record \<open>v\<close> at \<open>p\<close> out of its list and freeing it.\<close>

definition unlink_rec :: "('a \<Rightarrow> u32) \<Rightarrow> ('a \<Rightarrow> u32) \<Rightarrow> (u32 \<Rightarrow> 'a \<Rightarrow> 'a) \<Rightarrow> (u32 \<Rightarrow> 'a \<Rightarrow> 'a) \<Rightarrow>
    u32 \<Rightarrow> 'a \<Rightarrow> (u32 \<Rightarrow> 'a option) \<Rightarrow> (u32 \<Rightarrow> 'a option) option" where
  "unlink_rec nx pv set_nx set_pv p v h = do {
     h \<leftarrow> (if pv v \<noteq> 0 then do { w \<leftarrow> h (pv v); Some (h(pv v \<mapsto> set_nx (nx v) w)) } else Some h);
     h \<leftarrow> (if nx v \<noteq> 0 then do { w \<leftarrow> h (nx v); Some (h(nx v \<mapsto> set_pv (pv v) w)) } else Some h);
     Some (h(p := None)) }"

locale dlist =
  fixes nx pv :: "'a \<Rightarrow> u32" and set_nx set_pv :: "u32 \<Rightarrow> 'a \<Rightarrow> 'a"
  assumes nx_set_nx: "nx (set_nx x v) = x" and pv_set_nx: "pv (set_nx x v) = pv v"
    and nx_set_pv: "nx (set_pv x v) = nx v" and pv_set_pv: "pv (set_pv x v) = x"
begin

lemmas dl = nx_set_nx pv_set_nx nx_set_pv pv_set_pv

text \<open>Unlinking a record that has a predecessor.\<close>

lemma path_unlink:
  assumes "path nx h q (xs @ a # p # ys)" and "h p = Some v"
    and "map_option nx (h' a) = Some (nx v)" and "\<forall>x \<in> set xs \<union> set ys. map_option nx (h' x) = map_option nx (h x)"
  shows "path nx h' q (xs @ a # ys)"
  using assms
proof (induction xs arbitrary: q)
  case Nil
  then have "path nx h (nx v) ys" by auto
  then have "path nx h' (nx v) ys"
    using path_cong [of ys nx h' h] Nil.prems(4) by simp
  with Nil show ?case by auto
next
  case (Cons x xs)
  from Cons.prems(4) have hx: "map_option nx (h' x) = map_option nx (h x)" by simp
  show ?case
    using Cons hx by (cases "h' x") auto
qed

lemma backs_unlink:
  assumes "backs pv h q (xs @ a # p # ys)"
    and "\<forall>x \<in> set xs \<union> {a} \<union> set (tl ys). map_option pv (h' x) = map_option pv (h x)"
    and "ys \<noteq> [] \<Longrightarrow> map_option pv (h' (hd ys)) = Some a"
  shows "backs pv h' q (xs @ a # ys)"
  using assms
proof (induction xs arbitrary: q)
  case Nil
  have "backs pv h' a ys"
  proof (cases ys)
    case (Cons y zs)
    then have "backs pv h' y zs"
      using Nil.prems(1,2) backs_cong [of zs pv h' h] by simp
    with Nil.prems(3) Cons show ?thesis by auto
  qed simp
  with Nil.prems(1,2) show ?case by (cases "h' a") auto
next
  case (Cons x xs)
  from Cons.prems(2) have hx: "map_option pv (h' x) = map_option pv (h x)" by simp
  show ?case
    using Cons hx by (cases "h' x") auto
qed

lemma links_at:
  shows "path nx h q (xs @ p # ys) \<Longrightarrow> h p = Some v \<Longrightarrow> nx v = (if ys = [] then 0 else hd ys)"
    and "backs pv h q (xs @ a # p # ys) \<Longrightarrow> h p = Some v \<Longrightarrow> pv v = a"
proof -
  show "path nx h q (xs @ p # ys) \<Longrightarrow> h p = Some v \<Longrightarrow> nx v = (if ys = [] then 0 else hd ys)"
    by (induction xs arbitrary: q) (auto, cases ys, auto)
  show "backs pv h q (xs @ a # p # ys) \<Longrightarrow> h p = Some v \<Longrightarrow> pv v = a"
    by (induction xs arbitrary: q) auto
qed

lemma unlink_list:
  assumes "path nx h q (xs @ a # p # ys)" and "backs pv h 0 (xs @ a # p # ys)"
    and "distinct (xs @ a # p # ys)" and "h p = Some v"
  obtains h' where "unlink_rec nx pv set_nx set_pv p v h = Some h'" "path nx h' q (xs @ a # ys)" "backs pv h' 0 (xs @ a # ys)"
    "dom h' = dom h - {p}"
proof -
  have pv: "pv v = a" by (rule links_at(2) [OF assms(2,4)])
  have nv: "nx v = (if ys = [] then 0 else hd ys)"
    using links_at(1) [of h q "xs @ [a]" p ys v] assms(1,4) by simp
  obtain w where w: "a \<noteq> 0" "h a = Some w" using path_mem [OF assms(1), of a] by auto
  define h1 where "h1 = h(a \<mapsto> set_nx (nx v) w)"
  define h2 where "h2 = (if ys = [] then h1 else h1(hd ys \<mapsto> set_pv a (the (h1 (hd ys)))))"
  have y: "hd ys \<noteq> 0 \<and> hd ys \<in> dom h \<and> hd ys \<notin> set xs \<union> {a, p} \<union> set (tl ys)" if "ys \<noteq> []"
    using that assms(3) path_mem [OF assms(1), of "hd ys"] by (cases ys) auto
  have un: "unlink_rec nx pv set_nx set_pv p v h = Some (h2(p := None))"
  proof (cases "ys = []")
    case True
    then show ?thesis using w by (simp add: unlink_rec_def pv nv h1_def h2_def dl)
  next
    case False
    with y obtain u where u: "h (hd ys) = Some u" "hd ys \<noteq> a" "hd ys \<noteq> 0" by auto
    then have "h1 (hd ys) = Some u" by (simp add: h1_def)
    with False u w show ?thesis by (simp add: unlink_rec_def pv nv h1_def h2_def dl)
  qed
  have "path nx (h2(p := None)) q (xs @ a # ys)"
    by (rule path_unlink [OF assms(1,4)]) (use assms(3) y w in \<open>auto simp: h1_def h2_def dl\<close>)
  moreover have "backs pv (h2(p := None)) 0 (xs @ a # ys)"
  proof (rule backs_unlink [OF assms(2)])
    show "\<forall>x \<in> set xs \<union> {a} \<union> set (tl ys). map_option pv ((h2(p := None)) x) = map_option pv (h x)"
      using assms(3) y w by (cases ys) (auto simp: h1_def h2_def dl)
    show "map_option pv ((h2(p := None)) (hd ys)) = Some a" if "ys \<noteq> []"
      using that y by (auto simp: h2_def dl)
  qed
  moreover have "dom (h2(p := None)) = dom h - {p}"
    using w y by (auto simp: h1_def h2_def dl split: if_splits)
  ultimately show thesis using that un by blast
qed

text \<open>What unlinking leaves alone in the other records.\<close>

lemma unlink_frame:
  assumes "unlink_rec nx pv set_nx set_pv p v h = Some h'" and "\<And>x v. f (set_nx x v) = f v" and "\<And>x v. f (set_pv x v) = f v"
    and "x \<noteq> p"
  shows "map_option f (h' x) = map_option f (h x)"
  using assms(1,4) by (auto simp: unlink_rec_def bind_eq_Some_conv assms(2,3) split: if_splits)

text \<open>Appending the record \<open>v\<close> at \<open>c\<close> behind the last one.\<close>

lemma append_list:
  assumes "path nx h q ps" and "backs pv h 0 ps" and "distinct ps" and "ps \<noteq> []" and "c \<notin> set ps" and "c \<noteq> 0"
    and "h (last ps) = Some w" and "nx v = 0" and "pv v = last ps"
  shows "path nx (h(last ps \<mapsto> set_nx c w, c \<mapsto> v)) q (ps @ [c])"
    and "backs pv (h(last ps \<mapsto> set_nx c w, c \<mapsto> v)) 0 (ps @ [c])"
proof -
  show "path nx (h(last ps \<mapsto> set_nx c w, c \<mapsto> v)) q (ps @ [c])"
    using assms(1,3-8)
  proof (induction ps arbitrary: q)
    case (Cons a ps)
    show ?case
    proof (cases ps)
      case Nil
      with Cons.prems show ?thesis by (auto simp: dl)
    next
      case (Cons b bs)
      then have l: "last (a # ps) = last ps" "ps \<noteq> []" "last ps \<noteq> a" using Cons.prems(2) by auto
      obtain u where u: "h a = Some u" "path nx h (nx u) ps" using Cons.prems(1) by auto
      then have "path nx (h(last ps \<mapsto> set_nx c w, c \<mapsto> v)) (nx u) (ps @ [c])"
        using Cons.prems l by (intro Cons.IH) auto
      moreover have "a \<noteq> c" "a \<noteq> last ps" "q = a" "a \<noteq> 0" using Cons.prems(1,4) l(3) by auto
      ultimately show ?thesis using u(1) unfolding l(1) append_Cons path.simps by simp
    qed
  qed simp
  let ?h = "h(last ps \<mapsto> set_nx c w, c \<mapsto> v)"
  have "map_option pv (?h x) = map_option pv (h x)" if "x \<in> set ps" for x
    using that assms(5,7) by (auto simp: dl)
  then have "backs pv ?h 0 ps" using assms(2) backs_cong [of ps pv ?h h] by blast
  then show "backs pv ?h 0 (ps @ [c])" using assms(4,9) by (simp add: backs_append)
qed

end

end
