(* ===== verification/SharedMem.thy ===== *)
theory SharedMem
  imports Linked
begin

text \<open>
  Shared memory areas (\<^verbatim>\<open>server/os2exec/api/api.c\<close>): a doubly linked list of reference-counted records
  that hangs from \<open>areas_list\<close>. The records lie in an explicit store, so that a pointer to a freed record is
  visible as such: reading through it gives no value. Reserving and releasing address space and attaching
  dataspaces belong to the host and are arguments.
\<close>

section \<open>State and operations\<close>

record vmdata =
  vm_name :: string
  vm_owner :: u32
  refcnt :: u32
  vm_rights :: u32
  vm_area :: "64 word"
  vm_addr :: u32
  vm_size :: u32
  vm_next :: u32
  vm_prev :: u32

record shm_state =
  vheap :: "u32 \<Rightarrow> vmdata option"
  areas_list :: u32
  vmallocs :: "u32 list"

record shm_host =
  RegAreaReserveInArea :: "u32 \<Rightarrow> 64 word \<Rightarrow> int \<times> u32 \<times> 64 word"
  RegAreaRelease :: "64 word \<Rightarrow> u32"
  RegAttachDataspaceToArea :: "64 word \<Rightarrow> u32 \<Rightarrow> u32 \<Rightarrow> int"
  raw_vmdata :: vmdata
  shm_area :: "64 word"


text \<open>The test of \<open>get_area\<close>; pointer arithmetic wraps around.\<close>

definition in_area :: "u32 \<Rightarrow> vmdata \<Rightarrow> bool" where
  "in_area addr v \<longleftrightarrow> vm_addr v \<le> addr \<and> addr \<le> vm_addr v + vm_size v"

definition named :: "string \<Rightarrow> vmdata \<Rightarrow> bool" where
  "named pszName v \<longleftrightarrow> vm_name v \<noteq> [] \<and> vm_name v = pszName"

definition get_area :: "u32 \<Rightarrow> shm_state \<Rightarrow> u32 option" where
  "get_area addr st = search_from vm_next (in_area addr) (vheap st) (areas_list st)"

definition get_mem_by_name :: "string \<Rightarrow> shm_state \<Rightarrow> u32 option" where
  "get_mem_by_name pszName st = search_from vm_next (named pszName) (vheap st) (areas_list st)"

definition vmalloc :: "shm_state \<Rightarrow> u32 \<times> shm_state" where
  "vmalloc st = (case vmallocs st of [] \<Rightarrow> (0, st) | a # as \<Rightarrow> (a, st\<lparr>vmallocs := as\<rparr>))"

text \<open>The stores to the new record, and the one to the back link of the record that was first.\<close>

definition new_area :: "shm_host \<Rightarrow> u32 \<Rightarrow> string option \<Rightarrow> u32 \<Rightarrow> u32 \<Rightarrow> 64 word \<Rightarrow> u32 \<Rightarrow> vmdata" where
  "new_area host sz name rights addr area2 next =
     (let v = (raw_vmdata host)\<lparr>refcnt := 1, vm_area := area2, vm_addr := addr, vm_size := sz, vm_rights := rights,
        vm_next := next, vm_prev := 0\<rparr>
      in case name of None \<Rightarrow> v | Some n \<Rightarrow> v\<lparr>vm_name := n\<rparr>)"

definition set_first_prev :: "u32 \<Rightarrow> shm_state \<Rightarrow> (u32 \<Rightarrow> vmdata option) option" where
  "set_first_prev p st =
     (if areas_list st \<noteq> 0 then do {
        w \<leftarrow> vheap st (areas_list st);
        Some ((vheap st)(areas_list st \<mapsto> w\<lparr>vm_prev := p\<rparr>)) }
      else Some (vheap st))"

text \<open>The code, \<open>*addr\<close> and the state; names have room for 255 characters.\<close>

definition ExcAllocSharedMem ::
    "shm_host \<Rightarrow> u32 \<Rightarrow> string option \<Rightarrow> u32 \<Rightarrow> shm_state \<Rightarrow> (u32 \<times> u32 \<times> shm_state) option" where
  "ExcAllocSharedMem host sz name rights st =
     (let (ret, addr, area2) = RegAreaReserveInArea host sz (shm_area host) in
      if ret < 0 then Some (ERROR_NOT_ENOUGH_MEMORY, addr, st)
      else let (p, st) = vmalloc st in
      if p = 0 then Some (ERROR_NOT_ENOUGH_MEMORY, addr, st)
      else if name \<noteq> None \<and> 255 < length (the name) then None
      else do {
        h \<leftarrow> set_first_prev p st;
        Some (0, addr, st\<lparr>vheap := h(p \<mapsto> new_area host sz name rights addr area2 (areas_list st)), areas_list := p\<rparr>) })"

definition ExcMapDataspace :: "shm_host \<Rightarrow> u32 \<Rightarrow> u32 \<Rightarrow> shm_state \<Rightarrow> u32 option" where
  "ExcMapDataspace host addr rights st = do {
     p \<leftarrow> get_area addr st;
     if p = 0 then Some ERROR_INVALID_ADDRESS
     else do {
       v \<leftarrow> vheap st p;
       Some (if RegAttachDataspaceToArea host (vm_area v) rights addr < 0 then ERROR_FILE_NOT_FOUND else 0) } }"

text \<open>Taking a reference through the record at \<open>p\<close>: the address, size and owner that are returned.\<close>

definition take_ref :: "u32 \<Rightarrow> shm_state \<Rightarrow> ((u32 \<times> u32 \<times> u32) \<times> shm_state) option" where
  "take_ref p st = do {
     v \<leftarrow> vheap st p;
     Some ((vm_addr v, vm_size v, vm_owner v), st\<lparr>vheap := (vheap st)(p \<mapsto> v\<lparr>refcnt := refcnt v + 1\<rparr>)\<rparr>) }"

definition ExcGetSharedMem :: "u32 \<Rightarrow> shm_state \<Rightarrow> (u32 \<times> (u32 \<times> u32 \<times> u32) option \<times> shm_state) option" where
  "ExcGetSharedMem pb st = do {
     p \<leftarrow> get_area pb st;
     if p = 0 then Some (ERROR_INVALID_ADDRESS, None, st)
     else do { (x, st) \<leftarrow> take_ref p st; Some (NO_ERROR, Some x, st) } }"

definition ExcGetNamedSharedMem :: "string \<Rightarrow> shm_state \<Rightarrow> (u32 \<times> (u32 \<times> u32 \<times> u32) option \<times> shm_state) option" where
  "ExcGetNamedSharedMem name st = do {
     p \<leftarrow> get_mem_by_name name st;
     if p = 0 then Some (ERROR_INVALID_NAME, None, st)
     else do { (x, st) \<leftarrow> take_ref p st; Some (NO_ERROR, Some x, st) } }"

definition ExcIncrementSharedMemRefcnt :: "u32 \<Rightarrow> shm_state \<Rightarrow> (u32 \<times> shm_state) option" where
  "ExcIncrementSharedMemRefcnt addr st = do {
     p \<leftarrow> get_area addr st;
     if p = 0 then Some (ERROR_INVALID_NAME, st)
     else do { (_, st) \<leftarrow> take_ref p st; Some (NO_ERROR, st) } }"

text \<open>Taking a record out of the list and freeing it; \<open>areas_list\<close> is not touched.\<close>

definition unlink :: "u32 \<Rightarrow> vmdata \<Rightarrow> (u32 \<Rightarrow> vmdata option) \<Rightarrow> (u32 \<Rightarrow> vmdata option) option" where
  "unlink p v h = do {
     h \<leftarrow> (if vm_prev v \<noteq> 0 then do { w \<leftarrow> h (vm_prev v); Some (h(vm_prev v \<mapsto> w\<lparr>vm_next := vm_next v\<rparr>)) } else Some h);
     h \<leftarrow> (if vm_next v \<noteq> 0 then do { w \<leftarrow> h (vm_next v); Some (h(vm_next v \<mapsto> w\<lparr>vm_prev := vm_prev v\<rparr>)) } else Some h);
     Some (h(p := None)) }"

text \<open>The code, \<open>*count\<close> and the state.\<close>

definition ExcReleaseSharedMem :: "shm_host \<Rightarrow> u32 \<Rightarrow> shm_state \<Rightarrow> (u32 \<times> u32 option \<times> shm_state) option" where
  "ExcReleaseSharedMem host addr st = do {
     p \<leftarrow> get_area addr st;
     if p = 0 then Some (ERROR_INVALID_ADDRESS, None, st)
     else do {
       v \<leftarrow> vheap st p;
       let v = v\<lparr>refcnt := refcnt v - 1\<rparr>;
       let h = (vheap st)(p \<mapsto> v);
       if refcnt v \<noteq> 0 then Some (NO_ERROR, Some (refcnt v), st\<lparr>vheap := h\<rparr>)
       else do {
         h \<leftarrow> unlink p v h;
         Some (RegAreaRelease host (vm_area v), Some (refcnt v), st\<lparr>vheap := h\<rparr>) } } }"

section \<open>The list that the records form\<close>

definition shm_list :: "shm_state \<Rightarrow> u32 list \<Rightarrow> bool" where
  "shm_list st ps \<longleftrightarrow> path vm_next (vheap st) (areas_list st) ps \<and> backs vm_prev (vheap st) 0 ps \<and> distinct ps"

lemma shm_list_search:
  assumes "shm_list st ps"
  shows "search_from vm_next P (vheap st) (areas_list st)
    = Some (case find (\<lambda>a. P (the (vheap st a))) ps of None \<Rightarrow> 0 | Some a \<Rightarrow> a)"
  using assms by (simp add: shm_list_def search_from_path)

lemma shm_list_mem: "shm_list st ps \<Longrightarrow> a \<in> set ps \<Longrightarrow> a \<noteq> 0 \<and> (\<exists>v. vheap st a = Some v)"
  unfolding shm_list_def using path_mem by fast

text \<open>A search of a list finds no record, or a record of it.\<close>

lemma shm_list_found:
  assumes "shm_list st ps"
  obtains "search_from vm_next P (vheap st) (areas_list st) = Some 0" "find (\<lambda>a. P (the (vheap st a))) ps = None"
  | p v where "search_from vm_next P (vheap st) (areas_list st) = Some p" "p \<noteq> 0" "p \<in> set ps" "vheap st p = Some v" "P v"
      "find (\<lambda>a. P (the (vheap st a))) ps = Some p"
proof (cases "find (\<lambda>a. P (the (vheap st a))) ps")
  case None
  with assms that(1) show thesis by (simp add: shm_list_search)
next
  case (Some p)
  with find_mem [OF Some] assms shm_list_mem [OF assms, of p] that(2) [of p] show thesis
    by (auto simp: shm_list_search)
qed

text \<open>Stores to members other than the links keep the list.\<close>

lemma shm_list_update:
  assumes "shm_list st ps" and "vheap st p = Some v" and "vm_next v' = vm_next v" and "vm_prev v' = vm_prev v"
  shows "shm_list (st\<lparr>vheap := (vheap st)(p \<mapsto> v')\<rparr>) ps"
proof -
  have "map_option vm_next (((vheap st)(p \<mapsto> v')) a) = map_option vm_next (vheap st a)"
    "map_option vm_prev (((vheap st)(p \<mapsto> v')) a) = map_option vm_prev (vheap st a)" for a
    using assms(2-4) by simp_all
  then show ?thesis
    using assms(1) path_cong [of ps vm_next "(vheap st)(p \<mapsto> v')" "vheap st"]
      backs_cong [of ps vm_prev "(vheap st)(p \<mapsto> v')" "vheap st"]
    by (simp add: shm_list_def)
qed

lemma take_ref_list:
  assumes "shm_list st ps" and "take_ref p st = Some (x, st')"
  shows "shm_list st' ps \<and> vmallocs st' = vmallocs st \<and> areas_list st' = areas_list st \<and> dom (vheap st') = dom (vheap st)"
proof -
  obtain v where v: "vheap st p = Some v" and st': "st' = st\<lparr>vheap := (vheap st)(p \<mapsto> v\<lparr>refcnt := refcnt v + 1\<rparr>)\<rparr>"
    using assms(2) by (auto simp: take_ref_def bind_eq_Some_conv)
  then show ?thesis
    using shm_list_update [OF assms(1) v, of "v\<lparr>refcnt := refcnt v + 1\<rparr>"] by auto
qed

lemma new_area_links [simp]:
  "vm_next (new_area host sz name rights addr area2 next) = next" "vm_prev (new_area host sz name rights addr area2 next) = 0"
  by (simp_all add: new_area_def Let_def split: option.splits)

lemma push_front_list:
  assumes "shm_list st ps" and "p \<noteq> 0" and "p \<notin> set ps" and "vm_next v = areas_list st" and "vm_prev v = 0"
  obtains h where "set_first_prev p st = Some h" "dom h = dom (vheap st)"
    "shm_list (st\<lparr>vmallocs := as, vheap := h(p \<mapsto> v), areas_list := p\<rparr>) (p # ps)"
proof (cases ps)
  case Nil
  then have "areas_list st = 0" using assms(1) by (simp add: shm_list_def)
  with assms Nil that [of "vheap st"] show thesis by (simp add: set_first_prev_def shm_list_def)
next
  case (Cons a qs)
  then obtain w where a: "areas_list st = a" "a \<noteq> 0" "vheap st a = Some w" "a \<noteq> p" "a \<notin> set qs"
    using assms(1,3) by (auto simp: shm_list_def)
  let ?h = "(vheap st)(a \<mapsto> w\<lparr>vm_prev := p\<rparr>)"
  have "map_option vm_next ((?h(p \<mapsto> v)) b) = map_option vm_next (vheap st b)" if "b \<in> set ps" for b
    using that assms(3) a by auto
  then have "path vm_next (?h(p \<mapsto> v)) (areas_list st) ps"
    using assms(1) path_cong [of ps vm_next "?h(p \<mapsto> v)" "vheap st"] by (simp add: shm_list_def)
  moreover have "map_option vm_prev ((?h(p \<mapsto> v)) b) = map_option vm_prev (vheap st b)" if "b \<in> set qs" for b
    using that assms(3) a Cons by auto
  then have "backs vm_prev (?h(p \<mapsto> v)) a qs"
    using assms(1) Cons backs_cong [of qs vm_prev "?h(p \<mapsto> v)" "vheap st"] by (simp add: shm_list_def)
  ultimately have "shm_list (st\<lparr>vmallocs := as, vheap := ?h(p \<mapsto> v), areas_list := p\<rparr>) (p # ps)"
    using assms Cons a by (simp add: shm_list_def)
  moreover have "set_first_prev p st = Some ?h" "dom ?h = dom (vheap st)"
    using a by (auto simp: set_first_prev_def)
  ultimately show thesis using that by blast
qed

lemma alloc_list:
  assumes "shm_list st ps" and "ExcAllocSharedMem host sz name rights st = Some (0, a, st')"
    and "set (vmallocs st) \<inter> dom (vheap st) = {}"
  obtains p as where "vmallocs st = p # as" "shm_list st' (p # ps)" "vmallocs st' = as"
    "dom (vheap st') = insert p (dom (vheap st))" "areas_list st' = p"
proof -
  obtain ret area2 where r: "RegAreaReserveInArea host sz (shm_area host) = (ret, a, area2)" "\<not> ret < 0"
    using assms(2) by (auto simp: ExcAllocSharedMem_def Let_def bind_eq_Some_conv split: prod.splits if_splits)
  then obtain p as where m: "vmallocs st = p # as" "p \<noteq> 0"
    using assms(2) by (auto simp: ExcAllocSharedMem_def Let_def vmalloc_def split: prod.splits if_splits list.splits)
  have "p \<notin> set ps"
    using assms(1,3) m shm_list_mem by fastforce
  from push_front_list [OF assms(1) m(2) this, of "new_area host sz name rights a area2 (areas_list st)"]
  obtain h where h: "set_first_prev p st = Some h" "dom h = dom (vheap st)"
    "shm_list (st\<lparr>vmallocs := as, vheap := h(p \<mapsto> new_area host sz name rights a area2 (areas_list st)), areas_list := p\<rparr>) (p # ps)"
    by (metis new_area_links)
  have "set_first_prev p (st\<lparr>vmallocs := as\<rparr>) = Some h" using h(1) by (auto simp: set_first_prev_def)
  then have "st' = st\<lparr>vmallocs := as, vheap := h(p \<mapsto> new_area host sz name rights a area2 (areas_list st)), areas_list := p\<rparr>"
    using assms(2) r m by (simp add: ExcAllocSharedMem_def Let_def vmalloc_def split: if_splits)
  with h m that show thesis by simp
qed

lemma alloc_failed:
  assumes "ExcAllocSharedMem host sz name rights st = Some (rc, a, st')" and "rc \<noteq> 0"
  shows "vheap st' = vheap st \<and> areas_list st' = areas_list st \<and> set (vmallocs st') \<subseteq> set (vmallocs st)"
  using assms
  by (auto simp: ExcAllocSharedMem_def Let_def vmalloc_def bind_eq_Some_conv split: prod.splits if_splits list.splits)

section \<open>Releasing\<close>

interpretation vm: dlist vm_next vm_prev "\<lambda>x v. v\<lparr>vm_next := x\<rparr>" "\<lambda>x v. v\<lparr>vm_prev := x\<rparr>"
  by unfold_locales simp_all

lemma unlink_vm: "unlink p v h = unlink_rec vm_next vm_prev (\<lambda>x v. v\<lparr>vm_next := x\<rparr>) (\<lambda>x v. v\<lparr>vm_prev := x\<rparr>) p v h"
  by (simp add: unlink_def unlink_rec_def)

lemma unlink_vm_list:
  assumes "path vm_next h q (xs @ a # p # ys)" and "backs vm_prev h 0 (xs @ a # p # ys)"
    and "distinct (xs @ a # p # ys)" and "h p = Some v" and "unlink p v h = Some h'"
  shows "path vm_next h' q (xs @ a # ys) \<and> backs vm_prev h' 0 (xs @ a # ys)"
  using vm.unlink_list [OF assms(1-4)] assms(5) unfolding unlink_vm by (metis option.inject)

lemma release_list:
  assumes "shm_list st ps" and "ExcReleaseSharedMem host addr st = Some (rc, c, st')"
    and "areas_list st' \<noteq> 0 \<Longrightarrow> vheap st' (areas_list st') \<noteq> None"
  shows "\<exists>ps'. shm_list st' ps'"
  using assms(1)
proof (cases rule: shm_list_found [where P = "in_area addr"])
  case 1
  with assms(1,2) show ?thesis by (auto simp: ExcReleaseSharedMem_def get_area_def)
next
  case (2 p v)
  let ?v = "v\<lparr>refcnt := refcnt v - 1\<rparr>" and ?s = "st\<lparr>vheap := (vheap st)(p \<mapsto> v\<lparr>refcnt := refcnt v - 1\<rparr>)\<rparr>"
  have l: "shm_list ?s ps" by (rule shm_list_update [OF assms(1) 2(4)]) simp_all
  show ?thesis
  proof (cases "refcnt v = 1")
    case False
    with assms(2) 2 l show ?thesis by (auto simp: ExcReleaseSharedMem_def get_area_def Let_def)
  next
    case True
    then obtain h where h: "unlink p ?v (vheap ?s) = Some h" "st' = st\<lparr>vheap := h\<rparr>"
      using assms(2) 2 by (auto simp: ExcReleaseSharedMem_def get_area_def Let_def bind_eq_Some_conv)
    then have "h p = None" by (auto simp: unlink_def bind_eq_Some_conv)
    moreover have "areas_list st \<noteq> 0" using assms(1) 2(3) by (cases ps) (auto simp: shm_list_def)
    ultimately have "areas_list st \<noteq> p" using assms(3) h(2) by auto
    moreover obtain xs ys where ps: "ps = xs @ p # ys" using 2(3) by (meson split_list)
    ultimately obtain zs a where "xs = zs @ [a]"
      using assms(1) by (cases xs rule: rev_cases) (auto simp: shm_list_def)
    with ps have ps': "ps = zs @ a # p # ys" by simp
    from l have "path vm_next (vheap ?s) (areas_list st) ps" "backs vm_prev (vheap ?s) 0 ps" "distinct ps"
      by (simp_all add: shm_list_def)
    from unlink_vm_list [OF this [unfolded ps'] _ h(1)]
    have "path vm_next h (areas_list st) (zs @ a # ys) \<and> backs vm_prev h 0 (zs @ a # ys)" by simp
    with \<open>distinct ps\<close> h(2) have "shm_list st' (zs @ a # ys)" by (simp add: shm_list_def ps')
    then show ?thesis by blast
  qed
qed

section \<open>Runs of the server\<close>

text \<open>
  States reached from the start of the server by any sequence of operations, in which \<open>malloc\<close> does not return
  memory that is in use and no release frees the record that \<open>areas_list\<close> points to.
\<close>

inductive shm_reach :: "shm_host \<Rightarrow> shm_state \<Rightarrow> bool" for host where
  start: "areas_list st = 0 \<Longrightarrow> vheap st = (\<lambda>_. None) \<Longrightarrow> shm_reach host st"
| alloc: "shm_reach host st \<Longrightarrow> set (vmallocs st) \<inter> dom (vheap st) = {}
    \<Longrightarrow> ExcAllocSharedMem host sz name rights st = Some (rc, a, st') \<Longrightarrow> shm_reach host st'"
| get: "shm_reach host st \<Longrightarrow> ExcGetSharedMem pb st = Some (rc, x, st') \<Longrightarrow> shm_reach host st'"
| get_named: "shm_reach host st \<Longrightarrow> ExcGetNamedSharedMem n st = Some (rc, x, st') \<Longrightarrow> shm_reach host st'"
| incr: "shm_reach host st \<Longrightarrow> ExcIncrementSharedMemRefcnt pb st = Some (rc, st') \<Longrightarrow> shm_reach host st'"
| release: "shm_reach host st \<Longrightarrow> ExcReleaseSharedMem host pb st = Some (rc, c, st')
    \<Longrightarrow> (areas_list st' \<noteq> 0 \<longrightarrow> vheap st' (areas_list st') \<noteq> None) \<Longrightarrow> shm_reach host st'"

lemma shm_reach_list: "shm_reach host st \<Longrightarrow> \<exists>ps. shm_list st ps"
proof (induction rule: shm_reach.induct)
  case (start st)
  then have "shm_list st []" by (simp add: shm_list_def)
  then show ?case by blast
next
  case (alloc st sz name rights rc a st')
  then obtain ps where ps: "shm_list st ps" by blast
  show ?case
  proof (cases "rc = 0")
    case True
    with alloc(3) have "ExcAllocSharedMem host sz name rights st = Some (0, a, st')" by simp
    from alloc_list [OF ps this alloc(2)] show ?thesis by blast
  next
    case False
    with alloc_failed [OF alloc(3)] ps have "shm_list st' ps" by (simp add: shm_list_def)
    then show ?thesis by blast
  qed
next
  case (release st pb rc c st')
  then show ?case using release_list by blast
qed (auto simp: ExcGetSharedMem_def ExcGetNamedSharedMem_def ExcIncrementSharedMemRefcnt_def bind_eq_Some_conv
      split: if_splits dest: take_ref_list)


text \<open>Releasing the last reference to the newest area frees its record but leaves \<open>areas_list\<close> pointing to
  it: every later search reads freed memory.\<close>

theorem release_newest_dangles:
  assumes "shm_list st (p # ps)" and "get_area addr st = Some p" and "vheap st p = Some v" and "refcnt v = 1"
  shows "\<exists>rc st'. ExcReleaseSharedMem host addr st = Some (rc, Some 0, st') \<and> (\<forall>x. get_area x st' = None)"
proof -
  let ?v = "v\<lparr>refcnt := 0\<rparr>" and ?h = "(vheap st)(p \<mapsto> v\<lparr>refcnt := 0\<rparr>)"
  have p: "p \<noteq> 0" "areas_list st = p" "vm_prev v = 0" "vm_next v = (if ps = [] then 0 else hd ps)"
    using assms(1,3) vm.links_at(1) [of "vheap st" p "[]" p ps v] by (auto simp: shm_list_def)
  have "\<exists>h. unlink p ?v ?h = Some h"
    using p assms(1) path_mem [of vm_next "vheap st" p "p # ps" "hd ps"]
    by (cases ps) (auto simp: unlink_def shm_list_def)
  then obtain h where h: "unlink p ?v ?h = Some h" by blast
  then have "h p = None" by (auto simp: unlink_def bind_eq_Some_conv)
  then have "get_area x (st\<lparr>vheap := h\<rparr>) = None" for x
    using p by (simp add: get_area_def search_from.simps)
  moreover have "ExcReleaseSharedMem host addr st = Some (RegAreaRelease host (vm_area v), Some 0, st\<lparr>vheap := h\<rparr>)"
    using assms(2-4) p h by (simp add: ExcReleaseSharedMem_def Let_def)
  ultimately show ?thesis by blast
qed

text \<open>A new area can be found by every address from its first byte to the one behind its last, and taking a
  reference returns its address and size and raises the count, so that one release keeps it.\<close>

theorem alloc_then_get:
  assumes "shm_list st ps" and "set (vmallocs st) \<inter> dom (vheap st) = {}"
    and "ExcAllocSharedMem host sz name rights st = Some (0, a, st1)"
    and "a \<le> b" and "b \<le> a + sz"
  shows "\<exists>owner st2 st3. ExcGetSharedMem b st1 = Some (NO_ERROR, Some (a, sz, owner), st2)
    \<and> ExcReleaseSharedMem host b st2 = Some (NO_ERROR, Some 1, st3) \<and> (\<exists>ps'. shm_list st3 ps' \<and> length ps' = Suc (length ps))"
proof -
  obtain p as where l: "shm_list st1 (p # ps)" "areas_list st1 = p"
    using alloc_list [OF assms(1,3,2)] by blast
  obtain v where v: "vheap st1 p = Some v" "refcnt v = 1" "vm_addr v = a" "vm_size v = sz"
    using assms(3) l(2)
    by (auto simp: ExcAllocSharedMem_def Let_def vmalloc_def bind_eq_Some_conv new_area_def
        split: prod.splits if_splits list.splits option.splits)
  have in1: "in_area b v" using v assms(4,5) by (simp add: in_area_def)
  have p: "p \<noteq> 0" using l(1) by (simp add: shm_list_def)
  have get: "get_area b st1 = Some p"
    using v in1 p l(2) by (simp add: get_area_def search_from.simps)
  let ?v = "v\<lparr>refcnt := 2\<rparr>"
  let ?s2 = "st1\<lparr>vheap := (vheap st1)(p \<mapsto> ?v)\<rparr>"
  have g: "ExcGetSharedMem b st1 = Some (NO_ERROR, Some (a, sz, vm_owner v), ?s2)"
    using get p v by (simp add: ExcGetSharedMem_def take_ref_def)
  have "get_area b ?s2 = Some p"
    using in1 p l(2) by (simp add: get_area_def search_from.simps in_area_def)
  then have r: "ExcReleaseSharedMem host b ?s2 = Some (NO_ERROR, Some 1, ?s2\<lparr>vheap := (vheap ?s2)(p \<mapsto> ?v\<lparr>refcnt := 1\<rparr>)\<rparr>)"
    using p by (simp add: ExcReleaseSharedMem_def Let_def)
  have "shm_list ?s2 (p # ps)" by (rule shm_list_update [OF l(1) v(1)]) simp_all
  from shm_list_update [OF this, of p ?v "?v\<lparr>refcnt := 1\<rparr>"]
  have "shm_list (?s2\<lparr>vheap := (vheap ?s2)(p \<mapsto> ?v\<lparr>refcnt := 1\<rparr>)\<rparr>) (p # ps)" by simp
  with g r show ?thesis by (metis length_Cons)
qed

definition raw_area :: vmdata where
  "raw_area = \<lparr>vm_name = [], vm_owner = 0, refcnt = 0, vm_rights = 0, vm_area = 0, vm_addr = 0, vm_size = 0, vm_next = 0, vm_prev = 0\<rparr>"

definition shm_host0 :: shm_host where
  "shm_host0 = \<lparr>RegAreaReserveInArea = (\<lambda>sz a. (0, 0x60000000, 1)), RegAreaRelease = (\<lambda>a. 0),
     RegAttachDataspaceToArea = (\<lambda>a r x. 0), raw_vmdata = raw_area, shm_area = 0\<rparr>"

definition shm_state0 :: shm_state where
  "shm_state0 = \<lparr>vheap = (\<lambda>_. None), areas_list = 0, vmallocs = [0x10, 0x20]\<rparr>"

definition shm_state1 :: shm_state where
  "shm_state1 = \<lparr>vheap = [0x10 \<mapsto> raw_area\<lparr>refcnt := 1, vm_area := 1, vm_addr := 0x60000000, vm_size := 0x1000, vm_rights := 3\<rparr>],
     areas_list = 0x10, vmallocs = [0x20]\<rparr>"

lemma shm_alloc0: "ExcAllocSharedMem shm_host0 0x1000 None 3 shm_state0 = Some (0, 0x60000000, shm_state1)"
  by (simp add: ExcAllocSharedMem_def shm_host0_def shm_state0_def shm_state1_def vmalloc_def set_first_prev_def
      new_area_def raw_area_def)


theorem release_newest_dangles_witness:
  "\<exists>rc st'. ExcReleaseSharedMem shm_host0 0x60000000 shm_state1 = Some (rc, Some 0, st') \<and> get_area 0x60000000 st' = None"
proof -
  have "shm_list shm_state1 [0x10]" by (simp add: shm_list_def shm_state1_def raw_area_def)
  moreover have "get_area 0x60000000 shm_state1 = Some 0x10"
    by (simp add: get_area_def search_from.simps shm_state1_def in_area_def raw_area_def)
  ultimately show ?thesis
    using release_newest_dangles [of shm_state1 "0x10" "[]" "0x60000000" _ shm_host0]
    by (fastforce simp: shm_state1_def)
qed

theorem alloc_then_get_witness:
  "\<exists>owner st2 st3. ExcGetSharedMem 0x60001000 shm_state1 = Some (0, Some (0x60000000, 0x1000, owner), st2)
     \<and> ExcReleaseSharedMem shm_host0 0x60001000 st2 = Some (0, Some 1, st3)"
proof -
  have "shm_list shm_state0 []" by (simp add: shm_list_def shm_state0_def)
  from alloc_then_get [OF this _ shm_alloc0, of "0x60001000"] show ?thesis
    by (simp add: shm_state0_def) blast
qed

end
