(* ===== verification/HandleMgr.thy ===== *)
theory HandleMgr
  imports LxObjects SharedMem
begin

text \<open>
  Handle tables (\<^verbatim>\<open>lib/handle/handlemgr.c\<close>): handles are carved out of one block of memory, page by page,
  and free ones are linked through their first word. Memory is byte-addressed, the table a record; the
  address of the block is the answer of \<open>malloc\<close>, an argument.
\<close>

section \<open>Operations\<close>

record HANDLE_TABLE =
  ulMaxHandleCount :: u32
  ulHandleSize :: u32
  pNextFree :: u32
  pFirstHandle :: u32
  pMaxHandle :: u32
  pReservedMemory :: u32

abbreviation (input) ERROR_TOO_MANY_HANDLES :: u32 where "ERROR_TOO_MANY_HANDLES \<equiv> 112"

text \<open>The table before, if the pointer is not null; the code and the table after.\<close>

definition HndInitializeHandleTable :: "u32 \<Rightarrow> u32 \<Rightarrow> HANDLE_TABLE option \<Rightarrow> u32 \<times> HANDLE_TABLE option" where
  "HndInitializeHandleTable n sz ht =
     (if ht = None \<or> n = 0 \<or> sz = 0 then (ERROR_INVALID_PARAMETER, ht)
      else (NO_ERROR, Some \<lparr>ulMaxHandleCount = n, ulHandleSize = sz, pNextFree = 0, pFirstHandle = 0,
        pMaxHandle = 0, pReservedMemory = 0\<rparr>))"

text \<open>The code and the block that is freed; the table keeps its pointers.\<close>

definition HndDestroyHandleTable :: "HANDLE_TABLE option \<Rightarrow> u32 \<times> u32 option" where
  "HndDestroyHandleTable ht =
     (case ht of None \<Rightarrow> (ERROR_INVALID_PARAMETER, None) | Some t \<Rightarrow> (NO_ERROR, Some (pFirstHandle t)))"

text \<open>The loop that links the handles of a page: the last handle and the memory.\<close>

function carve :: "nat \<Rightarrow> u32 \<Rightarrow> u32 \<Rightarrow> nat \<Rightarrow> u32 option \<Rightarrow> memory \<Rightarrow> (u32 option \<times> memory) option" where
  "carve sz res mx off lst m =
     (if off < 4096 then
        if sz = 0 then None
        else if mx \<le> res + of_nat off then Some (lst, m)
        else carve sz res mx (off + sz) (Some (res + of_nat off))
          (mem_wr32 m (res + of_nat off) (res + of_nat off + of_nat sz))
      else Some (lst, m))"
  by auto
termination
  by (relation "measure (\<lambda>(sz, res, mx, off, lst, m). 4096 - off)") auto

declare carve.simps [simp del]

text \<open>\<open>HndpAllocateSomeHandles\<close>; linking handles in a block that was not allocated gives no value.\<close>

definition HndpAllocateSomeHandles ::
    "u32 \<Rightarrow> HANDLE_TABLE \<Rightarrow> memory \<Rightarrow> (u32 \<times> HANDLE_TABLE \<times> memory) option" where
  "HndpAllocateSomeHandles block ht m =
     (let ht = (if pFirstHandle ht = 0 then ht\<lparr>pFirstHandle := block, pReservedMemory := block,
          pMaxHandle := block + ulMaxHandleCount ht * ulHandleSize ht\<rparr> else ht)
      in if pNextFree ht \<noteq> 0 then Some (NO_ERROR, ht, m)
      else if pMaxHandle ht \<le> pReservedMemory ht then Some (ERROR_NOT_ENOUGH_MEMORY, ht, m)
      else if pFirstHandle ht = 0 then None
      else do {
        (lst, m) \<leftarrow> carve (unat (ulHandleSize ht)) (pReservedMemory ht) (pMaxHandle ht) 0 None m;
        case lst of
          None \<Rightarrow> Some (ERROR_NOT_ENOUGH_MEMORY, ht, m)
        | Some l \<Rightarrow> Some (NO_ERROR, ht\<lparr>pNextFree := pReservedMemory ht, pReservedMemory := pReservedMemory ht + 4096\<rparr>,
            mem_wr32 m l 0) })"

text \<open>
  \<open>HndAllocateHandle\<close>: the code, the handle, the index and the state. The index is computed from \<open>var\<close>, the
  address of the caller's variable, not from the handle stored there.
\<close>

definition HndAllocateHandle ::
    "u32 \<Rightarrow> u32 \<Rightarrow> HANDLE_TABLE \<Rightarrow> memory \<Rightarrow> (u32 \<times> (u32 \<times> u32) option \<times> HANDLE_TABLE \<times> memory) option" where
  "HndAllocateHandle block var ht m = do {
     (rc, ht, m) \<leftarrow> (if pNextFree ht = 0 then HndpAllocateSomeHandles block ht m else Some (NO_ERROR, ht, m));
     if rc \<noteq> NO_ERROR then Some (ERROR_TOO_MANY_HANDLES, None, ht, m)
     else let h = pNextFree ht in
       Some (NO_ERROR, Some (h, (var - pFirstHandle ht) div ulHandleSize ht), ht\<lparr>pNextFree := mem_rd32 m h\<rparr>, m) }"

definition HndFreeHandle :: "u32 \<Rightarrow> HANDLE_TABLE \<Rightarrow> memory \<Rightarrow> HANDLE_TABLE \<times> memory" where
  "HndFreeHandle h ht m =
     (let m = mem_wr m h (replicate (unat (ulHandleSize ht)) 0); m = mem_wr32 m h (pNextFree ht)
      in (ht\<lparr>pNextFree := h\<rparr>, m))"

definition HndIsValidHandle :: "HANDLE_TABLE \<Rightarrow> u32 \<Rightarrow> memory \<Rightarrow> bool" where
  "HndIsValidHandle ht h m \<longleftrightarrow> pFirstHandle ht \<le> h \<and> h < pReservedMemory ht
     \<and> h AND (ulHandleSize ht - 1) = 0 \<and> mem_rd32 m h AND 1 \<noteq> 0"

definition HndIsValidIndexHandle :: "HANDLE_TABLE \<Rightarrow> u32 \<Rightarrow> memory \<Rightarrow> u32 option" where
  "HndIsValidIndexHandle ht i m =
     (let h = pFirstHandle ht + i * ulHandleSize ht in if HndIsValidHandle ht h m then Some h else None)"

section \<open>Slots of a table\<close>

text \<open>
  A table of \<open>n\<close> handles of \<open>s\<close> bytes in a block at \<open>b\<close>, whose handles fill pages exactly, in a part of the
  address space that does not wrap around.
\<close>

definition geometry :: "u32 \<Rightarrow> nat \<Rightarrow> nat \<Rightarrow> bool" where
  "geometry b n s \<longleftrightarrow> b \<noteq> 0 \<and> 0 < n \<and> 4 \<le> s \<and> s dvd 4096 \<and> unat b + n * s + 4096 < 2 ^ 32"

definition slot :: "u32 \<Rightarrow> nat \<Rightarrow> nat \<Rightarrow> u32" where
  "slot b s k = b + of_nat (k * s)"

lemma unat_slot:
  assumes "geometry b n s" and "k * s \<le> n * s + 4096"
  shows "unat (slot b s k) = unat b + k * s"
proof -
  have "unat (of_nat (k * s) :: u32) = k * s"
    by (rule unat_of_nat32) (use assms in \<open>simp add: geometry_def\<close>)
  then show ?thesis
    using assms by (simp add: slot_def geometry_def unat_word_ariths)
qed

lemma slot_inj:
  assumes "geometry b n s" and "k * s \<le> n * s + 4096" and "j * s \<le> n * s + 4096"
  shows "slot b s k = slot b s j \<longleftrightarrow> k = j"
proof
  assume "slot b s k = slot b s j"
  then have "k * s = j * s" using unat_slot [OF assms(1,2)] unat_slot [OF assms(1,3)] by (metis add_left_imp_eq)
  then show "k = j" using assms(1) by (simp add: geometry_def)
qed simp

lemma slot_bound: "k \<le> n \<Longrightarrow> k * s \<le> n * s + 4096" for k n s :: nat
  by (meson mult_le_mono1 trans_le_add1)

lemma slot_nonzero: "geometry b n s \<Longrightarrow> k * s \<le> n * s + 4096 \<Longrightarrow> slot b s k \<noteq> 0"
  using unat_slot [of b n s k] unat_gt_0 [of b] unat_gt_0 [of "slot b s k"] by (simp add: geometry_def)

lemma span_unat:
  assumes "unat a + 4 < 2 ^ 32" and "x \<in> span a"
  shows "unat a \<le> unat x \<and> unat x < unat a + 4"
  using assms by (auto simp: span_def unat_word_ariths)

lemma slots_apart:
  assumes "geometry b n s" and "k * s \<le> n * s" and "j * s \<le> n * s" and "k \<noteq> j"
  shows "span (slot b s k) \<inter> span (slot b s j) = {}"
proof -
  have g: "unat (slot b s k) = unat b + k * s" "unat (slot b s j) = unat b + j * s" "4 \<le> s"
    using unat_slot [OF assms(1), of k] unat_slot [OF assms(1), of j] trans_le_add1 [OF assms(2)] trans_le_add1 [OF assms(3)] assms(1)
    by (simp_all add: geometry_def)
  have "unat b + n * s + 4 < 2 ^ 32" using assms(1) by (simp add: geometry_def)
  with g assms(2,3) have lt: "unat (slot b s k) + 4 < 2 ^ 32" "unat (slot b s j) + 4 < 2 ^ 32" by linarith+
  have "k * s + s \<le> j * s \<or> j * s + s \<le> k * s"
    using assms(4) mult_le_mono1 [of "Suc k" j s] mult_le_mono1 [of "Suc j" k s] by (auto simp: neq_iff)
  then show ?thesis
    using span_unat [OF lt(1)] span_unat [OF lt(2)] g by fastforce
qed

lemma mem_rd32_other: "span a \<inter> span a' = {} \<Longrightarrow> mem_rd32 (mem_wr32 m a' v) a = mem_rd32 m a"
  unfolding mem_rd32_def by (subst (1 2 3 4) mem_wr32_other) (auto simp: span_def)

lemma slot_le:
  assumes "geometry b n s" and "k * s \<le> n * s + 4096"
  shows "slot b s n \<le> slot b s k \<longleftrightarrow> n \<le> k"
  using unat_slot [OF assms] unat_slot [OF assms(1), of n] assms(1)
  by (auto simp: word_le_nat_alt geometry_def)

section \<open>Linking the handles of a page\<close>

definition links :: "u32 \<Rightarrow> nat \<Rightarrow> memory \<Rightarrow> nat \<Rightarrow> nat \<Rightarrow> bool" where
  "links b s m i e \<longleftrightarrow> (\<forall>k. i \<le> k \<and> k < e \<longrightarrow> mem_rd32 m (slot b s k) = slot b s (Suc k))"

lemma carve_links:
  assumes "geometry b n s" and "K * s \<le> n * s" and "i * s \<le> 4096" and "E = min (K + 4096 div s) n" and "K + i \<le> E"
    and "links b s m K (K + i)"
  shows "\<exists>m'. carve s (slot b s K) (slot b s n) (i * s) lst m = Some (if K + i < E then Some (slot b s (E - 1)) else lst, m')
    \<and> links b s m' K E \<and> (\<forall>x. x \<notin> (\<Union>k \<in> {K + i..<E}. span (slot b s k)) \<longrightarrow> m' x = m x)"
  using assms(3,5,6)
proof (induction "E - (K + i)" arbitrary: i lst m)
  case 0
  have "K + i = E" using 0 by simp
  moreover have s: "0 < s" "s * (4096 div s) = 4096" using assms(1) by (auto simp: geometry_def)
  have "carve s (slot b s K) (slot b s n) (i * s) lst m = Some (lst, m)"
  proof (cases "i * s < 4096")
    case True
    then have "i < 4096 div s" using s by (metis mult.commute nat_mult_less_cancel_disj)
    with \<open>K + i = E\<close> assms(4) have "n = K + i" by simp
    moreover have "slot b s K + of_nat (i * s) = slot b s (K + i)" by (simp add: slot_def distrib_right)
    ultimately show ?thesis using True s(1) by (simp add: carve.simps)
  qed (simp add: carve.simps)
  ultimately show ?case using 0 by auto
next
  case (Suc d)
  have s: "0 < s" "s * (4096 div s) = 4096" "4 \<le> s" using assms(1) by (auto simp: geometry_def)
  have lt: "K + i < E" using Suc(2) by simp
  then have i: "i < 4096 div s" "K + i < n" using assms(4) by simp_all
  then have off: "Suc i * s \<le> 4096" using s(2) mult_le_mono1 [of "Suc i" "4096 div s" s] by (simp add: mult.commute)
  have le: "(K + i) * s \<le> n * s" using i by simp
  have ad: "slot b s K + of_nat (i * s) = slot b s (K + i)" "slot b s (K + i) + of_nat s = slot b s (Suc (K + i))"
    by (simp_all add: slot_def distrib_right algebra_simps)
  let ?m = "mem_wr32 m (slot b s (K + i)) (slot b s (Suc (K + i)))"
  have "\<not> slot b s n \<le> slot b s (K + i)" using slot_le [OF assms(1), of "K + i"] le i(2) by simp
  then have step: "carve s (slot b s K) (slot b s n) (i * s) lst m
      = carve s (slot b s K) (slot b s n) (Suc i * s) (Some (slot b s (K + i))) ?m"
    using off s(1) ad by (subst carve.simps) (simp add: add.commute)
  have "links b s ?m K (K + Suc i)"
    unfolding links_def
  proof (intro allI impI)
    fix k assume k: "K \<le> k \<and> k < K + Suc i"
    show "mem_rd32 ?m (slot b s k) = slot b s (Suc k)"
    proof (cases "k = K + i")
      case True
      then show ?thesis by (simp add: mem_rd32_wr32)
    next
      case False
      then have "k * s \<le> n * s" using k i by simp
      from slots_apart [OF assms(1) this le] False k Suc.prems(3) show ?thesis
        by (simp add: mem_rd32_other links_def)
    qed
  qed
  moreover have "d = E - (K + Suc i)" "K + Suc i \<le> E" using Suc.hyps(2) lt by simp_all
  ultimately obtain m' where m': "carve s (slot b s K) (slot b s n) (Suc i * s) (Some (slot b s (K + i))) ?m
      = Some (if K + Suc i < E then Some (slot b s (E - 1)) else Some (slot b s (K + i)), m')"
    "links b s m' K E" "\<forall>x. x \<notin> (\<Union>k \<in> {K + Suc i..<E}. span (slot b s k)) \<longrightarrow> m' x = ?m x"
    using Suc.hyps(1) [of "Suc i" ?m "Some (slot b s (K + i))"] off by blast
  have "m' x = m x" if "x \<notin> (\<Union>k \<in> {K + i..<E}. span (slot b s k))" for x
  proof -
    have "x \<notin> span (slot b s (K + i))" using that lt by auto
    then have "?m x = m x" by (simp add: mem_wr32_other span_def)
    moreover have "x \<notin> (\<Union>k \<in> {K + Suc i..<E}. span (slot b s k))" using that by auto
    ultimately show ?thesis using m'(3) by simp
  qed
  moreover have "(if K + Suc i < E then Some (slot b s (E - 1)) else Some (slot b s (K + i))) = Some (slot b s (E - 1))"
    using lt by (auto simp: not_less intro!: arg_cong [where f = "slot b s"])
  ultimately show ?case using step m' lt by auto
qed

section \<open>The free list and the handles in use\<close>

definition free_list :: "memory \<Rightarrow> u32 \<Rightarrow> u32 list \<Rightarrow> bool" where
  "free_list m p F \<longleftrightarrow> path (\<lambda>x. x) (\<lambda>a. Some (mem_rd32 m a)) p F"

lemma free_list_simps [simp]:
  "free_list m p [] \<longleftrightarrow> p = 0" "free_list m p (a # F) \<longleftrightarrow> p = a \<and> a \<noteq> 0 \<and> free_list m (mem_rd32 m a) F"
  by (simp_all add: free_list_def)

lemma free_list_cong: "(\<And>a. a \<in> set F \<Longrightarrow> mem_rd32 m' a = mem_rd32 m a) \<Longrightarrow> free_list m' p F = free_list m p F"
  by (induction F arbitrary: p) auto

lemma free_list_links:
  assumes "geometry b n s" and "E \<le> n" and "links b s m K (E - 1)" and "mem_rd32 m (slot b s (E - 1)) = 0" and "K < E"
  shows "free_list m (slot b s K) (map (slot b s) [K..<E])"
  using assms(3,5)
proof (induction "E - K" arbitrary: K)
  case (Suc d)
  have nz: "slot b s K \<noteq> 0"
    by (rule slot_nonzero [OF assms(1)]) (use Suc.prems(2) assms(2) in \<open>simp add: trans_le_add1\<close>)
  show ?case
  proof (cases "Suc K < E")
    case True
    then have "mem_rd32 m (slot b s K) = slot b s (Suc K)" "links b s m (Suc K) (E - 1)"
      using Suc.prems(1) by (auto simp: links_def)
    with Suc.hyps(1) [of "Suc K"] Suc.hyps(2) True nz show ?thesis by (simp add: upt_conv_Cons)
  next
    case False
    then have "E = Suc K" using Suc.prems(2) by simp
    with assms(4) nz show ?thesis by simp
  qed
qed simp

definition region :: "u32 \<Rightarrow> nat \<Rightarrow> u32 set" where
  "region a s = {x. unat a \<le> unat x \<and> unat x < unat a + s}"

lemma region_apart:
  assumes "geometry b n s" and "k < n" and "j < n" and "k \<noteq> j"
  shows "span (slot b s k) \<inter> region (slot b s j) s = {}"
proof -
  have le: "Suc k * s \<le> n * s" "Suc j * s \<le> n * s" using assms(2,3) by (intro mult_le_mono1; simp)+
  have g: "unat (slot b s k) = unat b + k * s" "unat (slot b s j) = unat b + j * s"
    using unat_slot [OF assms(1), of k] unat_slot [OF assms(1), of j] le by simp_all
  have s4: "4 \<le> s" "unat b + n * s + 4096 < 2 ^ 32" using assms(1) by (simp_all add: geometry_def)
  then have lt: "unat (slot b s k) + 4 < 2 ^ 32" using g le by simp
  have "k * s + s \<le> j * s \<or> j * s + s \<le> k * s"
    using assms(4) mult_le_mono1 [of "Suc k" j s] mult_le_mono1 [of "Suc j" k s] by (auto simp: neq_iff)
  then show ?thesis
    using span_unat [OF lt] g s4 by (fastforce simp: region_def)
qed

lemma mem_rd32_cong: "(\<And>x. x \<in> span a \<Longrightarrow> m' x = m x) \<Longrightarrow> mem_rd32 m' a = mem_rd32 m a"
  by (simp add: mem_rd32_def span_def)

lemma mem_wr_region:
  assumes "unat a + length bs \<le> 2 ^ 32" and "x \<notin> region a (length bs)"
  shows "mem_wr m a bs x = m x"
proof (rule mem_wr_other)
  fix i assume i: "i < length bs"
  then have "unat (of_nat i :: u32) = i" using assms(1) by (intro unat_of_nat32) simp
  then have "unat (a + of_nat i) = unat a + i" using i assms(1) by (simp add: unat_word_ariths)
  then show "x \<noteq> a + of_nat i" using assms(2) i by (auto simp: region_def)
qed

text \<open>
  The invariant: every slot committed so far is in use (\<open>A\<close>) or on the free list (\<open>F\<close>), and none is both.
\<close>

definition hnd_inv :: "u32 \<Rightarrow> nat \<Rightarrow> nat \<Rightarrow> HANDLE_TABLE \<Rightarrow> memory \<Rightarrow> u32 set \<Rightarrow> bool" where
  "hnd_inv b n s ht m A \<longleftrightarrow> ulMaxHandleCount ht = of_nat n \<and> ulHandleSize ht = of_nat s \<and>
     (pFirstHandle ht = 0 \<and> pNextFree ht = 0 \<and> A = {} \<or>
      pFirstHandle ht = b \<and> pMaxHandle ht = slot b s n \<and>
      (\<exists>K F. pReservedMemory ht = slot b s K \<and> K * s \<le> n * s + 4096 \<and> A \<union> set F = slot b s ` {..<min K n}
        \<and> A \<inter> set F = {} \<and> distinct F \<and> free_list m (pNextFree ht) F))"

lemma hnd_invI:
  "ulMaxHandleCount ht = of_nat n \<Longrightarrow> ulHandleSize ht = of_nat s \<Longrightarrow> pFirstHandle ht = b \<Longrightarrow> pMaxHandle ht = slot b s n
   \<Longrightarrow> pReservedMemory ht = slot b s K \<Longrightarrow> K * s \<le> n * s + 4096 \<Longrightarrow> A \<union> set F = slot b s ` {..<min K n}
   \<Longrightarrow> A \<inter> set F = {} \<Longrightarrow> distinct F \<Longrightarrow> free_list m (pNextFree ht) F \<Longrightarrow> hnd_inv b n s ht m A"
  unfolding hnd_inv_def by blast

lemma slot_eq:
  "geometry b n s \<Longrightarrow> k < n \<Longrightarrow> j < n \<Longrightarrow> slot b s k = slot b s j \<longleftrightarrow> k = j"
  by (rule slot_inj) (auto intro: slot_bound)

lemma page_committed:
  assumes "geometry b n s" and "K < n" and "ulHandleSize ht = of_nat s" and "pFirstHandle ht = b"
    and "pMaxHandle ht = slot b s n" and "pReservedMemory ht = slot b s K" and "pNextFree ht = 0"
  shows "\<exists>m'. HndpAllocateSomeHandles blk ht m = Some (NO_ERROR,
      ht\<lparr>pNextFree := slot b s K, pReservedMemory := slot b s (K + 4096 div s)\<rparr>, m')
    \<and> free_list m' (slot b s K) (map (slot b s) [K..<min (K + 4096 div s) n])"
proof -
  let ?E = "min (K + 4096 div s) n"
  have g: "b \<noteq> 0" "4 \<le> s" "s * (4096 div s) = 4096" using assms(1) by (auto simp: geometry_def)
  then have "0 < 4096 div s" by (cases "4096 div s") auto
  with assms(2) have E: "K < ?E" "?E \<le> n" by simp_all
  have sz: "unat (of_nat s :: u32) = s"
    using dvd_imp_le [of s 4096] assms(1) by (intro unat_of_nat32) (simp add: geometry_def)
  obtain m' where m': "carve s (slot b s K) (slot b s n) 0 None m = Some (Some (slot b s (?E - 1)), m')" "links b s m' K ?E"
  proof -
    have "links b s m K (K + 0)" by (auto simp: links_def)
    from carve_links [OF assms(1) _ _ refl _ this, of None] assms(2) E that show thesis by auto
  qed
  have "links b s (mem_wr32 m' (slot b s (?E - 1)) 0) K (?E - 1)"
    unfolding links_def
  proof (intro allI impI)
    fix k assume k: "K \<le> k \<and> k < ?E - 1"
    with E have "span (slot b s k) \<inter> span (slot b s (?E - 1)) = {}"
      by (intro slots_apart [OF assms(1)] mult_le_mono1) auto
    moreover have "K \<le> k \<and> k < ?E" using k by linarith
    ultimately show "mem_rd32 (mem_wr32 m' (slot b s (?E - 1)) 0) (slot b s k) = slot b s (Suc k)"
      using m'(2) unfolding links_def by (metis mem_rd32_other)
  qed
  from free_list_links [OF assms(1) E(2) this _ E(1)]
  have "free_list (mem_wr32 m' (slot b s (?E - 1)) 0) (slot b s K) (map (slot b s) [K..<?E])"
    by (simp add: mem_rd32_wr32)
  moreover have "\<not> slot b s n \<le> slot b s K"
    using slot_le [OF assms(1), of K] assms(2) by (simp add: trans_le_add1)
  moreover have "slot b s K + 4096 = slot b s (K + 4096 div s)"
  proof -
    have "(K + 4096 div s) * s = K * s + 4096" using g(3) unfolding distrib_right by (simp only: mult.commute)
    then have "(of_nat ((K + 4096 div s) * s) :: u32) = of_nat (K * s + 4096)" by (simp only:)
    then show ?thesis by (simp add: slot_def add.assoc del: of_nat_mult)
  qed
  ultimately show ?thesis
    using assms(3-7) g(1) sz m'(1) by (simp add: HndpAllocateSomeHandles_def Let_def)
qed

lemma alloc_inv:
  assumes "geometry b n s" and "hnd_inv b n s ht m A"
  shows "(\<exists>h i ht' m'. HndAllocateHandle b var ht m = Some (NO_ERROR, Some (h, i), ht', m')
      \<and> h \<notin> A \<and> h \<in> slot b s ` {..<n} \<and> hnd_inv b n s ht' m' (insert h A))
    \<or> (\<exists>ht' m'. HndAllocateHandle b var ht m = Some (ERROR_TOO_MANY_HANDLES, None, ht', m')
      \<and> A = slot b s ` {..<n} \<and> hnd_inv b n s ht' m' A)"
proof -
  have new_page: ?thesis if ht: "ulMaxHandleCount ht1 = of_nat n" "ulHandleSize ht1 = of_nat s" "pFirstHandle ht1 = b"
      "pMaxHandle ht1 = slot b s n" "pReservedMemory ht1 = slot b s K" "pNextFree ht1 = 0" "K < n" "A = slot b s ` {..<K}"
      and eq: "HndpAllocateSomeHandles b ht m = HndpAllocateSomeHandles b ht1 m" "pNextFree ht = 0" for ht1 K
  proof -
    let ?E = "min (K + 4096 div s) n"
    obtain m' where m': "HndpAllocateSomeHandles b ht1 m = Some (NO_ERROR,
        ht1\<lparr>pNextFree := slot b s K, pReservedMemory := slot b s (K + 4096 div s)\<rparr>, m')"
      "free_list m' (slot b s K) (map (slot b s) [K..<?E])"
      using page_committed [OF assms(1) ht(7,2-6)] by blast
    have g: "s * (4096 div s) = 4096" "4 \<le> s" using assms(1) by (auto simp: geometry_def)
    then have "0 < 4096 div s" by (cases "4096 div s") auto
    then have E: "K < ?E" "[K..<?E] = K # [Suc K..<?E]" using ht(7) by (simp_all add: upt_conv_Cons)
    let ?F = "map (slot b s) [Suc K..<?E]"
    have notin: "slot b s K \<notin> A" "distinct (slot b s K # ?F)" "insert (slot b s K) A \<inter> set ?F = {}"
      using ht(7,8) slot_eq [OF assms(1)] by (fastforce simp: distinct_map inj_on_def)+
    have "insert (slot b s K) A \<union> set ?F = slot b s ` ({..<Suc K} \<union> {Suc K..<?E})"
      using ht(8) by (auto simp: lessThan_Suc)
    also have "{..<Suc K} \<union> {Suc K..<?E} = {..<?E}" using E(1) by auto
    finally have un: "insert (slot b s K) A \<union> set ?F = slot b s ` {..<?E}" .
    have "K * s \<le> n * s" using ht(7) by (intro mult_le_mono1) simp
    then have "(K + 4096 div s) * s \<le> n * s + 4096" using g(1) unfolding distrib_right by (simp only: mult.commute)
    then have "hnd_inv b n s (ht1\<lparr>pReservedMemory := slot b s (K + 4096 div s), pNextFree := mem_rd32 m' (slot b s K)\<rparr>) m'
        (insert (slot b s K) A)"
      by (intro hnd_invI [where K = "K + 4096 div s" and F = ?F]) (use m'(2) E(2) notin un ht in simp_all)
    with m'(1) eq notin(1) ht(3,7) show ?thesis by (simp add: HndAllocateHandle_def Let_def)
  qed
  show ?thesis
  proof (cases "pFirstHandle ht = 0")
    case True
    then have A: "A = {}" "pNextFree ht = 0" "ulMaxHandleCount ht = of_nat n" "ulHandleSize ht = of_nat s" "b \<noteq> 0" "0 < n"
      using assms by (auto simp: hnd_inv_def geometry_def)
    let ?ht = "ht\<lparr>pFirstHandle := b, pReservedMemory := b, pMaxHandle := b + ulMaxHandleCount ht * ulHandleSize ht\<rparr>"
    show ?thesis
      by (rule new_page [of ?ht 0]) (use A True in \<open>simp_all add: slot_def HndpAllocateSomeHandles_def\<close>)
  next
    case False
    then obtain K F where I: "ulMaxHandleCount ht = of_nat n" "ulHandleSize ht = of_nat s" "pFirstHandle ht = b"
        "pMaxHandle ht = slot b s n" "pReservedMemory ht = slot b s K" "K * s \<le> n * s + 4096"
        "A \<union> set F = slot b s ` {..<min K n}" "A \<inter> set F = {}" "distinct F" "free_list m (pNextFree ht) F"
      using assms(2) by (auto simp: hnd_inv_def)
    show ?thesis
    proof (cases F)
      case (Cons h F')
      with I have h: "pNextFree ht = h" "h \<noteq> 0" "h \<notin> A" by auto
      have "h \<in> slot b s ` {..<min K n}" using I(7) Cons by auto
      then have hn: "h \<in> slot b s ` {..<n}" by auto
      have "hnd_inv b n s (ht\<lparr>pNextFree := mem_rd32 m h\<rparr>) m (insert h A)"
        by (intro hnd_invI [where K = K and F = F']) (use I Cons in auto)
      with h hn show ?thesis by (simp add: HndAllocateHandle_def Let_def)
    next
      case Nil
      then have z: "pNextFree ht = 0" using I by simp
      show ?thesis
      proof (cases "K < n")
        case True
        then show ?thesis using new_page [of ht K] I Nil z by (simp add: min_def)
      next
        case False
        then have "A = slot b s ` {..<n}" using I(7) Nil by (simp add: min_def)
        moreover have "pMaxHandle ht \<le> pReservedMemory ht"
          using slot_le [OF assms(1) I(6)] False I by simp
        ultimately show ?thesis
          using assms z I(3) by (simp add: HndAllocateHandle_def HndpAllocateSomeHandles_def Let_def geometry_def)
      qed
    qed
  qed
qed

lemma alloc_result_inv:
  assumes "geometry b n s" and "hnd_inv b n s ht m A" and "HndAllocateHandle b var ht m = Some (rc, x, ht', m')"
  shows "hnd_inv b n s ht' m' (case x of None \<Rightarrow> A | Some (h, i) \<Rightarrow> insert h A)"
  using alloc_inv [OF assms(1,2), of var] unfolding assms(3) by auto

text \<open>Stores to handles in use, and those of \<open>HndFreeHandle\<close>, do not reach the free list.\<close>

lemma inv_mem_cong:
  assumes "geometry b n s" and "hnd_inv b n s ht m A" and "\<forall>x. (\<forall>a \<in> A. x \<notin> region a s) \<longrightarrow> m' x = m x"
  shows "hnd_inv b n s ht m' A"
proof -
  have "free_list m' p F" if F: "A \<union> set F = slot b s ` {..<min K n}" "A \<inter> set F = {}" "free_list m p F" for p F K
  proof -
    have "mem_rd32 m' f = mem_rd32 m f" if "f \<in> set F" for f
    proof (rule mem_rd32_cong)
      fix x assume x: "x \<in> span f"
      have "x \<notin> region a s" if "a \<in> A" for a
      proof -
        obtain k j where "f = slot b s k" "a = slot b s j" "k < n" "j < n"
          using F(1) \<open>f \<in> set F\<close> \<open>a \<in> A\<close> by (auto simp: set_eq_iff) (metis UnCI imageE lessThan_iff min_less_iff_conj)
        moreover have "f \<noteq> a" using F(2) \<open>f \<in> set F\<close> \<open>a \<in> A\<close> by auto
        ultimately show ?thesis using region_apart [OF assms(1), of k j] x by auto
      qed
      with assms(3) show "m' x = m x" by blast
    qed
    with F(3) free_list_cong show ?thesis by blast
  qed
  with assms(2) show ?thesis unfolding hnd_inv_def by blast
qed

lemma free_inv:
  assumes "geometry b n s" and "hnd_inv b n s ht m A" and "h \<in> A" and "HndFreeHandle h ht m = (ht', m')"
  shows "hnd_inv b n s ht' m' (A - {h})"
proof -
  have sz: "unat (of_nat s :: u32) = s" "0 < s" "4 \<le> s"
    using dvd_imp_le [of s 4096] assms(1) by (auto simp: geometry_def intro!: unat_of_nat32)
  obtain K F where I: "ulMaxHandleCount ht = of_nat n" "ulHandleSize ht = of_nat s" "pFirstHandle ht = b"
      "pMaxHandle ht = slot b s n" "pReservedMemory ht = slot b s K" "K * s \<le> n * s + 4096"
      "A \<union> set F = slot b s ` {..<min K n}" "A \<inter> set F = {}" "distinct F" "free_list m (pNextFree ht) F"
    using assms(2,3) by (auto simp: hnd_inv_def)
  have "h \<in> slot b s ` {..<min K n}" using I(7) assms(3) by blast
  then obtain k where k: "h = slot b s k" "k < n" by auto
  have le: "Suc k * s \<le> n * s" using k(2) by (intro mult_le_mono1) simp
  have uh: "unat h = unat b + k * s" using unat_slot [OF assms(1), of k] le k(1) by simp
  have lim: "unat b + n * s + 4096 < 2 ^ 32" using assms(1) by (simp add: geometry_def)
  let ?m1 = "mem_wr m h (replicate s 0)"
  have m': "m' = mem_wr32 ?m1 h (pNextFree ht)" "ht' = ht\<lparr>pNextFree := h\<rparr>"
    using assms(4) I(2) sz(1) by (auto simp: HndFreeHandle_def Let_def)
  have frame: "m' x = m x" if "x \<notin> region h s" for x
  proof -
    have "x \<notin> span h" using that span_unat [of h x] uh le lim sz(3) by (auto simp: region_def)
    then have "m' x = ?m1 x" using m'(1) by (simp add: mem_wr32_other span_def)
    also have "\<dots> = m x" by (rule mem_wr_region) (use that uh le lim in simp_all)
    finally show ?thesis .
  qed
  then have "hnd_inv b n s ht m' A"
    using inv_mem_cong [OF assms(1,2)] assms(3) by blast
  then obtain K' F' where J: "pReservedMemory ht = slot b s K'" "K' * s \<le> n * s + 4096"
      "A \<union> set F' = slot b s ` {..<min K' n}" "A \<inter> set F' = {}" "distinct F'" "free_list m' (pNextFree ht) F'"
    using assms(3) by (auto simp: hnd_inv_def)
  have "mem_rd32 m' h = pNextFree ht" using m'(1) by (simp add: mem_rd32_wr32)
  moreover have "h \<noteq> 0" using slot_nonzero [OF assms(1), of k] k slot_bound [of k n s] by simp
  ultimately have "free_list m' h (h # F')" using J(6) by simp
  moreover have "A - {h} \<union> set (h # F') = slot b s ` {..<min K' n}" "(A - {h}) \<inter> set (h # F') = {}" "distinct (h # F')"
    using J(3-5) assms(3) by auto
  ultimately show ?thesis
    unfolding m'(2) by (intro hnd_invI [where K = K' and F = "h # F'"]) (use I(1-4) J(1,2) in simp_all)
qed

section \<open>Runs\<close>

text \<open>
  A table and memory reached by allocating and freeing handles, with the set of handles in use; between the
  calls the owners of handles may store anything into them.
\<close>

inductive hnd_reach :: "u32 \<Rightarrow> nat \<Rightarrow> nat \<Rightarrow> HANDLE_TABLE \<Rightarrow> memory \<Rightarrow> u32 set \<Rightarrow> bool" for b n s where
  init: "HndInitializeHandleTable (of_nat n) (of_nat s) (Some ht0) = (NO_ERROR, Some ht) \<Longrightarrow> hnd_reach b n s ht m {}"
| alloc: "hnd_reach b n s ht m A \<Longrightarrow> HndAllocateHandle b var ht m = Some (rc, Some (h, i), ht', m')
    \<Longrightarrow> hnd_reach b n s ht' m' (insert h A)"
| full: "hnd_reach b n s ht m A \<Longrightarrow> HndAllocateHandle b var ht m = Some (rc, None, ht', m') \<Longrightarrow> hnd_reach b n s ht' m' A"
| free: "hnd_reach b n s ht m A \<Longrightarrow> h \<in> A \<Longrightarrow> HndFreeHandle h ht m = (ht', m') \<Longrightarrow> hnd_reach b n s ht' m' (A - {h})"
| client: "hnd_reach b n s ht m A \<Longrightarrow> \<forall>x. (\<forall>a \<in> A. x \<notin> region a s) \<longrightarrow> m' x = m x \<Longrightarrow> hnd_reach b n s ht m' A"

lemma hnd_reach_inv:
  assumes "geometry b n s" and "hnd_reach b n s ht m A"
  shows "hnd_inv b n s ht m A"
  using assms(2)
proof (induction rule: hnd_reach.induct)
  case (init ht0 ht m)
  then have "ht = \<lparr>ulMaxHandleCount = of_nat n, ulHandleSize = of_nat s, pNextFree = 0, pFirstHandle = 0,
      pMaxHandle = 0, pReservedMemory = 0\<rparr>"
    by (simp add: HndInitializeHandleTable_def split: if_splits)
  then show ?case by (simp add: hnd_inv_def)
next
  case (alloc ht m A var rc h i ht' m')
  from alloc_result_inv [OF assms(1) alloc.IH alloc.hyps(2)] show ?case by simp
next
  case (full ht m A var rc ht' m')
  from alloc_result_inv [OF assms(1) full.IH full.hyps(2)] show ?case by simp
next
  case (free ht m A h ht' m')
  then show ?case by (intro free_inv [OF assms(1)])
next
  case (client ht m A m')
  show ?case by (rule inv_mem_cong [OF assms(1) client.IH client.hyps(2)])
qed

text \<open>C10: Handles: after any sequence of allocations, frees and stores by the owners, allocating a handle returns
  a slot of the table that nobody holds, and it fails exactly when all slots are held.\<close>

theorem handles_never_shared:
  assumes "geometry b n s" and "hnd_reach b n s ht m A"
  shows "(\<exists>h i ht' m'. HndAllocateHandle b var ht m = Some (NO_ERROR, Some (h, i), ht', m') \<and> h \<notin> A \<and> h \<in> slot b s ` {..<n})
    \<or> (\<exists>ht' m'. HndAllocateHandle b var ht m = Some (ERROR_TOO_MANY_HANDLES, None, ht', m') \<and> A = slot b s ` {..<n})"
  using alloc_inv [OF assms(1) hnd_reach_inv [OF assms], of var] by blast

theorem handles_never_shared_witness:
  "\<exists>h i ht' m'. HndAllocateHandle 0x10000 0 \<lparr>ulMaxHandleCount = 16, ulHandleSize = 8, pNextFree = 0, pFirstHandle = 0,
      pMaxHandle = 0, pReservedMemory = 0\<rparr> (\<lambda>_. 0) = Some (0, Some (h, i), ht', m') \<and> h \<in> slot 0x10000 8 ` {..<16}"
proof -
  have g: "geometry 0x10000 16 8" by (simp add: geometry_def)
  let ?ht = "\<lparr>ulMaxHandleCount = 16, ulHandleSize = 8, pNextFree = 0, pFirstHandle = 0, pMaxHandle = 0, pReservedMemory = 0\<rparr>"
  have "hnd_reach 0x10000 16 8 ?ht (\<lambda>_. 0) {}"
    by (rule hnd_reach.init [of 16 8 ?ht]) (simp add: HndInitializeHandleTable_def)
  from handles_never_shared [OF g this, of 0] show ?thesis by (auto simp: lessThan_empty_iff bot_nat_def)
qed

text \<open>No handle is valid: right after its allocation every handle fails the validity test, because the
  bit that marks a handle as allocated is not set by the allocation, against the note in the code.\<close>

theorem fresh_handle_invalid:
  assumes "geometry b n s" and "hnd_reach b n s ht m A" and "even b"
    and "HndAllocateHandle b var ht m = Some (NO_ERROR, Some (h, i), ht', m')"
  shows "\<not> HndIsValidHandle ht' h m'"
proof -
  have rd: "mem_rd32 m' h = pNextFree ht'"
    using assms(4) by (auto simp: HndAllocateHandle_def Let_def bind_eq_Some_conv split: if_splits)
  have "hnd_inv b n s ht' m' (insert h A)"
    using alloc_result_inv [OF assms(1) hnd_reach_inv [OF assms(1,2)] assms(4)] by simp
  then obtain K F where F: "insert h A \<union> set F = slot b s ` {..<min K n}" "free_list m' (pNextFree ht') F"
    by (auto simp: hnd_inv_def)
  have "even s"
  proof (rule ccontr)
    assume "odd s"
    then have "coprime s (2 ^ 12)" by (simp only: coprime_power_right_iff coprime_right_2_iff_odd simp_thms)
    moreover have "s dvd 2 ^ 12" "4 \<le> s" using assms(1) by (simp_all add: geometry_def)
    ultimately show False using coprime_absorb_left [of s "2 ^ 12"] by simp
  qed
  then have "even (slot b s k)" for k
    using assms(3) by (simp add: slot_def)
  moreover have "pNextFree ht' = 0 \<or> (\<exists>k. pNextFree ht' = slot b s k)"
    using F by (cases F) auto
  ultimately have "even (pNextFree ht')" by auto
  then show ?thesis
    using rd by (simp add: HndIsValidHandle_def and_one_eq even_iff_mod_2_eq_zero)
qed

theorem fresh_handle_invalid_witness:
  "\<exists>h i ht' m'. HndAllocateHandle 0x10000 0 \<lparr>ulMaxHandleCount = 16, ulHandleSize = 8, pNextFree = 0, pFirstHandle = 0,
      pMaxHandle = 0, pReservedMemory = 0\<rparr> (\<lambda>_. 0) = Some (0, Some (h, i), ht', m') \<and> \<not> HndIsValidHandle ht' h m'"
proof -
  have g: "geometry 0x10000 16 8" by (simp add: geometry_def)
  let ?ht = "\<lparr>ulMaxHandleCount = 16, ulHandleSize = 8, pNextFree = 0, pFirstHandle = 0, pMaxHandle = 0, pReservedMemory = 0\<rparr>"
  have r: "hnd_reach 0x10000 16 8 ?ht (\<lambda>_. 0) {}"
    by (rule hnd_reach.init [of 16 8 ?ht]) (simp add: HndInitializeHandleTable_def)
  have "{} \<noteq> slot 0x10000 8 ` {..<16}" by (simp add: lessThan_empty_iff bot_nat_def)
  with alloc_inv [OF g hnd_reach_inv [OF g r], of 0]
  obtain h i ht' m' where a: "HndAllocateHandle 0x10000 0 ?ht (\<lambda>_. 0) = Some (0, Some (h, i), ht', m')" by blast
  from fresh_handle_invalid [OF g r _ a] have "\<not> HndIsValidHandle ht' h m'" by simp
  with a show ?thesis by blast
qed

end
