(* ===== verification/StrList.thy ===== *)
theory StrList
  imports HandleMgr
begin

text \<open>
  The memory of the OS/2 server that holds process information: byte-addressed memory of which only a part
  is mapped, so that an access outside the mapped part gives no value. On it the string routines that the
  process manager uses, in particular lists of strings (\<open>strlstlen\<close> of \<^verbatim>\<open>server/os2srv/processmgr.c\<close> and
  \<open>strlstcpy\<close> of \<^verbatim>\<open>server/os2srv/api/api.c\<close>), and the layout of the process information block that
  \<open>PrcCreatePIB\<close> writes.
\<close>

section \<open>Mapped memory\<close>

record pmem =
  mp :: "u32 \<Rightarrow> bool"
  mb :: memory
  mcalls :: nat

definition all_mapped :: "(u32 \<Rightarrow> bool) \<Rightarrow> u32 \<Rightarrow> nat \<Rightarrow> bool" where
  "all_mapped M a n \<longleftrightarrow> list_all (\<lambda>i. M (a + of_nat i)) [0..<n]"

definition ld8 :: "pmem \<Rightarrow> u32 \<Rightarrow> u8 option" where
  "ld8 m a = (if mp m a then Some (mb m a) else None)"

definition st8 :: "pmem \<Rightarrow> u32 \<Rightarrow> u8 \<Rightarrow> pmem option" where
  "st8 m a b = (if mp m a then Some (m\<lparr>mb := (mb m)(a := b)\<rparr>) else None)"

definition ld32 :: "pmem \<Rightarrow> u32 \<Rightarrow> u32 option" where
  "ld32 m a = (if all_mapped (mp m) a 4 then Some (mem_rd32 (mb m) a) else None)"

definition st32 :: "pmem \<Rightarrow> u32 \<Rightarrow> u32 \<Rightarrow> pmem option" where
  "st32 m a v = (if all_mapped (mp m) a 4 then Some (m\<lparr>mb := mem_wr32 (mb m) a v\<rparr>) else None)"

section \<open>String routines\<close>

partial_function (option) strlen_at :: "pmem \<Rightarrow> u32 \<Rightarrow> nat option" where
  "strlen_at m p = do {
     c \<leftarrow> ld8 m p;
     if c = 0 then Some 0 else do { n \<leftarrow> strlen_at m (p + 1); Some (Suc n) } }"

partial_function (option) strcpy_at :: "pmem \<Rightarrow> u32 \<Rightarrow> u32 \<Rightarrow> pmem option" where
  "strcpy_at m d s = do {
     c \<leftarrow> ld8 m s;
     m \<leftarrow> st8 m d c;
     if c = 0 then Some m else strcpy_at m (d + 1) (s + 1) }"

text \<open>The loop of \<open>strlstlen\<close>: the length of the strings left, without the final NUL.\<close>

partial_function (option) strlst_loop :: "pmem \<Rightarrow> u32 \<Rightarrow> nat option" where
  "strlst_loop m p = do {
     c \<leftarrow> ld8 m p;
     if c = 0 then Some 0
     else do {
       l \<leftarrow> strlen_at m p;
       len \<leftarrow> strlst_loop m (p + of_nat (l + 1));
       Some (l + 1 + len) } }"

definition strlstlen :: "pmem \<Rightarrow> u32 \<Rightarrow> nat option" where
  "strlstlen m p =
     (if p = 0 then Some 2
      else do {
        c \<leftarrow> ld8 m p;
        if c = 0 then Some 2 else do { len \<leftarrow> strlst_loop m p; Some (len + 1) } })"

text \<open>The result of \<open>strlstcpy\<close> is not used by its callers; the memory is what remains.\<close>

partial_function (option) strlstcpy :: "pmem \<Rightarrow> u32 \<Rightarrow> u32 \<Rightarrow> pmem option" where
  "strlstcpy m p q = do {
     c \<leftarrow> ld8 m q;
     if c = 0 then st8 m p 0
     else do {
       m \<leftarrow> strcpy_at m p q;
       l \<leftarrow> strlen_at m q;
       strlstcpy m (p + of_nat (l + 1)) (q + of_nat (l + 1)) } }"

section \<open>Strings in memory\<close>

fun bytes_at :: "pmem \<Rightarrow> u32 \<Rightarrow> u8 list \<Rightarrow> bool" where
  "bytes_at m p [] \<longleftrightarrow> True"
| "bytes_at m p (b # bs) \<longleftrightarrow> ld8 m p = Some b \<and> bytes_at m (p + 1) bs"

text \<open>A list of strings: each with its NUL, and one more NUL behind the last.\<close>

definition strlst :: "u8 list list \<Rightarrow> u8 list" where
  "strlst ss = concat (map (\<lambda>s. s @ [0]) ss) @ [0]"

abbreviation (input) plain :: "u8 list \<Rightarrow> bool" where "plain s \<equiv> 0 \<notin> set s"

definition str_list :: "u8 list list \<Rightarrow> bool" where
  "str_list ss \<longleftrightarrow> (\<forall>s \<in> set ss. plain s \<and> s \<noteq> [])"

text \<open>The addresses of \<open>n\<close> bytes from \<open>a\<close> on.\<close>

definition cells :: "u32 \<Rightarrow> nat \<Rightarrow> u32 set" where
  "cells a n = (\<lambda>i. a + of_nat i) ` {..<n}"

lemma cells_0 [simp]: "cells a 0 = {}" by (simp add: cells_def)

lemma cells_Suc: "cells a (Suc n) = insert a (cells (a + 1) n)"
proof -
  have "{..<Suc n} = insert 0 (Suc ` {..<n})" by (auto simp: image_iff less_Suc_eq_0_disj)
  then show ?thesis by (simp add: cells_def image_image algebra_simps)
qed

lemma cells_add: "cells a (m + n) = cells a m \<union> cells (a + of_nat m) n"
proof (induction m arbitrary: a)
  case (Suc m)
  then show ?case by (simp add: cells_Suc algebra_simps)
qed simp

lemma cells_mono: "n \<le> n' \<Longrightarrow> cells a n \<subseteq> cells a n'"
  by (auto simp: cells_def)

lemma all_mapped_cells: "all_mapped M a n \<longleftrightarrow> (\<forall>x \<in> cells a n. M x)"
  by (auto simp: all_mapped_def cells_def list_all_iff)

lemma span_cells: "span a = cells a 4"
  by (simp add: span_def cells_Suc numeral_eq_Suc algebra_simps)

lemma strlst_Nil [simp]: "strlst [] = [0]"
  and strlst_Cons [simp]: "strlst (s # ss) = s @ 0 # strlst ss"
  by (simp_all add: strlst_def)

lemma str_list_simps [simp]: "str_list []" "str_list (s # ss) \<longleftrightarrow> plain s \<and> s \<noteq> [] \<and> str_list ss"
  by (auto simp: str_list_def)

lemma bytes_at_append [simp]:
  "bytes_at m p (xs @ ys) \<longleftrightarrow> bytes_at m p xs \<and> bytes_at m (p + of_nat (length xs)) ys"
  by (induction xs arbitrary: p) (auto simp: algebra_simps)

lemma bytes_at_cong:
  "(\<And>x. x \<in> cells p (length bs) \<Longrightarrow> ld8 m' x = ld8 m x) \<Longrightarrow> bytes_at m' p bs = bytes_at m p bs"
  by (induction bs arbitrary: p) (auto simp: cells_Suc)

lemma strlen_at_bytes:
  "plain s \<Longrightarrow> bytes_at m p (s @ [0]) \<Longrightarrow> strlen_at m p = Some (length s)"
  by (induction s arbitrary: p) (auto simp: strlen_at.simps)

lemma strlst_loop_bytes:
  "str_list ss \<Longrightarrow> bytes_at m p (strlst ss) \<Longrightarrow> strlst_loop m p = Some (length (strlst ss) - 1)"
proof (induction ss arbitrary: p)
  case (Cons s ss)
  then obtain c cs where s: "s = c # cs" "c \<noteq> 0" by (cases s) auto
  have "strlen_at m p = Some (length s)" using Cons.prems by (intro strlen_at_bytes) auto
  moreover have "strlst_loop m (p + of_nat (length s + 1)) = Some (length (strlst ss) - 1)"
    using Cons.prems by (intro Cons.IH) (simp_all add: algebra_simps)
  moreover have "ld8 m p = Some c" using Cons.prems s by simp
  moreover have "length (strlst ss) \<ge> 1" by (simp add: strlst_def)
  ultimately show ?case using s(2) by (subst strlst_loop.simps) simp
qed (auto simp: strlst_loop.simps)

lemma strlstlen_bytes:
  assumes "str_list ss" and "bytes_at m p (strlst ss)" and "p \<noteq> 0"
  shows "strlstlen m p = Some (if ss = [] then 2 else length (strlst ss))"
proof (cases ss)
  case (Cons s r)
  then obtain c cs where s: "s = c # cs" "c \<noteq> 0" using assms(1) by (cases s) auto
  have "ld8 m p = Some c" using assms(2) Cons s by simp
  with strlst_loop_bytes [OF assms(1,2)] assms(3) Cons s(2) show ?thesis by (simp add: strlstlen_def)
qed (use assms in \<open>auto simp: strlstlen_def\<close>)

section \<open>Writes\<close>

definition wr :: "pmem \<Rightarrow> u32 \<Rightarrow> u8 list \<Rightarrow> pmem" where
  "wr m a bs = m\<lparr>mb := mem_wr (mb m) a bs\<rparr>"

lemma wr_simps [simp]:
  "mp (wr m a bs) = mp m" "mcalls (wr m a bs) = mcalls m" "wr m a [] = m"
  "wr m a (b # bs) = wr (m\<lparr>mb := (mb m)(a := b)\<rparr>) (a + 1) bs"
  by (simp_all add: wr_def)

lemma wr_append: "wr m a (xs @ ys) = wr (wr m a xs) (a + of_nat (length xs)) ys"
  by (simp add: wr_def mem_wr_append)

lemma ld8_wr_other: "x \<notin> cells a (length bs) \<Longrightarrow> ld8 (wr m a bs) x = ld8 m x"
  using mem_wr_other [of bs x a "mb m"] by (auto simp: ld8_def wr_def cells_def)

lemma bytes_at_wr:
  assumes "all_mapped (mp m) a (length bs)" and "length bs \<le> 2 ^ 32"
  shows "bytes_at (wr m a bs) a bs"
proof -
  have "bytes_at (wr m a bs) (a + of_nat (length xs)) ys" if "bs = xs @ ys" for xs ys
    using that
  proof (induction ys arbitrary: xs)
    case (Cons y ys)
    then have "length xs < length bs" "bs ! length xs = y" by simp_all
    with assms have "ld8 (wr m a bs) (a + of_nat (length xs)) = Some y"
      by (simp add: ld8_def wr_def mem_wr_at all_mapped_def list_all_iff)
    moreover have "bytes_at (wr m a bs) (a + of_nat (length (xs @ [y]))) ys" using Cons by (intro Cons.IH) simp
    ultimately show ?case by (simp add: algebra_simps)
  qed simp
  from this [of "[]" bs] show ?thesis by simp
qed

lemma bytes_at_wr_other:
  "cells p (length bs) \<inter> cells a (length cs) = {} \<Longrightarrow> bytes_at (wr m a cs) p bs = bytes_at m p bs"
  by (rule bytes_at_cong) (use ld8_wr_other in blast)

lemma strcpy_at_bytes:
  assumes "plain s" and "bytes_at m q (s @ [0])" and "all_mapped (mp m) d (length s + 1)"
    and "cells d (length s + 1) \<inter> cells q (length s + 1) = {}"
  shows "strcpy_at m d q = Some (wr m d (s @ [0]))"
  using assms
proof (induction s arbitrary: m d q)
  case Nil
  then show ?case by (simp add: strcpy_at.simps st8_def all_mapped_cells cells_Suc)
next
  case (Cons c s)
  let ?m = "m\<lparr>mb := (mb m)(d := c)\<rparr>"
  have ms: "?m = wr m d [c]" by simp
  have "bytes_at ?m (q + 1) (s @ [0]) = bytes_at m (q + 1) (s @ [0])"
    unfolding ms by (rule bytes_at_wr_other) (use Cons.prems(4) in \<open>simp add: cells_Suc\<close>)
  then have "strcpy_at ?m (d + 1) (q + 1) = Some (wr ?m (d + 1) (s @ [0]))"
    using Cons.prems by (intro Cons.IH) (auto simp: cells_Suc all_mapped_cells)
  moreover have "ld8 m q = Some c" "mp m d" using Cons.prems by (auto simp: all_mapped_cells cells_Suc)
  ultimately show ?case using Cons.prems(1) by (subst strcpy_at.simps) (auto simp: st8_def)
qed

lemma strlstcpy_step:
  assumes "plain s" and "s \<noteq> []" and "bytes_at m q (s @ [0])" and "all_mapped (mp m) d (length s + 1)"
    and "cells d (length s + 1) \<inter> cells q (length s + 1) = {}"
  shows "strlstcpy m d q = strlstcpy (wr m d (s @ [0])) (d + of_nat (length s + 1)) (q + of_nat (length s + 1))"
proof -
  have "bytes_at (wr m d (s @ [0])) q (s @ [0])"
    using assms(3,5) by (subst bytes_at_wr_other) auto
  then have "strlen_at (wr m d (s @ [0])) q = Some (length s)"
    using assms(1) by (intro strlen_at_bytes)
  moreover obtain c where "ld8 m q = Some c" "c \<noteq> 0" using assms(1-3) by (cases s) auto
  ultimately show ?thesis using strcpy_at_bytes [OF assms(1,3-5)] by (subst strlstcpy.simps) simp
qed

lemma strlstcpy_bytes:
  assumes "str_list ss" and "bytes_at m q (strlst ss)" and "all_mapped (mp m) d (length (strlst ss))"
    and "cells d (length (strlst ss)) \<inter> cells q (length (strlst ss)) = {}"
  shows "strlstcpy m d q = Some (wr m d (strlst ss))"
  using assms
proof (induction ss arbitrary: m d q)
  case Nil
  then show ?case by (simp add: strlstcpy.simps st8_def all_mapped_cells cells_Suc)
next
  case (Cons s ss)
  let ?n = "length s + 1" and ?k = "length (strlst ss)" and ?m = "wr m d (s @ [0])"
  have len: "length (strlst (s # ss)) = ?n + ?k" by simp
  have cd: "cells d (length (strlst (s # ss))) = cells d ?n \<union> cells (d + of_nat ?n) ?k"
    and cq: "cells q (length (strlst (s # ss))) = cells q ?n \<union> cells (q + of_nat ?n) ?k"
    unfolding len cells_add by simp_all
  have at: "bytes_at m q (s @ [0])" "bytes_at m (q + of_nat ?n) (strlst ss)"
    using Cons.prems(2) by (simp_all add: algebra_simps)
  have "strlstcpy m d q = strlstcpy ?m (d + of_nat ?n) (q + of_nat ?n)"
    using Cons.prems at cd cq by (intro strlstcpy_step) (auto simp: all_mapped_cells)
  also have "bytes_at ?m (q + of_nat ?n) (strlst ss) = bytes_at m (q + of_nat ?n) (strlst ss)"
    using Cons.prems(4) cd cq by (intro bytes_at_wr_other) auto
  then have "strlstcpy ?m (d + of_nat ?n) (q + of_nat ?n) = Some (wr ?m (d + of_nat ?n) (strlst ss))"
    using Cons.prems at(2) cd cq by (intro Cons.IH) (auto simp: all_mapped_cells)
  also have "strlst (s # ss) = (s @ [0]) @ strlst ss" by simp
  then have "wr ?m (d + of_nat ?n) (strlst ss) = wr m d (strlst (s # ss))"
    using wr_append [of m d "s @ [0]" "strlst ss"] by simp
  finally show ?case .
qed

lemma strlstcpy_fault:
  assumes "str_list ss" and "bytes_at m q (strlst ss)" and "all_mapped (mp m) d (length (strlst ss) - 1)"
    and "\<not> mp m (d + of_nat (length (strlst ss) - 1))"
    and "cells d (length (strlst ss) - 1) \<inter> cells q (length (strlst ss)) = {}"
  shows "strlstcpy m d q = None"
  using assms
proof (induction ss arbitrary: m d q)
  case Nil
  then show ?case by (simp add: strlstcpy.simps st8_def)
next
  case (Cons s ss)
  let ?n = "length s + 1" and ?k = "length (strlst ss) - 1" and ?m = "wr m d (s @ [0])"
  have k: "length (strlst ss) = Suc ?k" by (simp add: strlst_def)
  then have len: "length (strlst (s # ss)) - 1 = ?n + ?k" "length (strlst (s # ss)) = ?n + length (strlst ss)" by simp_all
  have cd: "cells d (length (strlst (s # ss)) - 1) = cells d ?n \<union> cells (d + of_nat ?n) ?k"
    and cq: "cells q (length (strlst (s # ss))) = cells q ?n \<union> cells (q + of_nat ?n) (length (strlst ss))"
    by (subst len(1), rule cells_add) (subst len(2), rule cells_add)
  have at: "bytes_at m q (s @ [0])" "bytes_at m (q + of_nat ?n) (strlst ss)"
    using Cons.prems(2) by (simp_all add: algebra_simps)
  have "strlstcpy m d q = strlstcpy ?m (d + of_nat ?n) (q + of_nat ?n)"
    using Cons.prems at cd cq by (intro strlstcpy_step) (auto simp: all_mapped_cells)
  also have "bytes_at ?m (q + of_nat ?n) (strlst ss) = bytes_at m (q + of_nat ?n) (strlst ss)"
    using Cons.prems(5) cd cq by (intro bytes_at_wr_other) auto
  then have "strlstcpy ?m (d + of_nat ?n) (q + of_nat ?n) = None"
    using Cons.prems at(2) cd cq k by (intro Cons.IH) (auto simp: all_mapped_cells algebra_simps)
  finally show ?case .
qed

end
