(* ===== verification/ProcInfo.thy ===== *)
theory ProcInfo
  imports StrList
begin

text \<open>
  Process and thread information blocks (\<open>alloc_mem\<close>, \<open>free_mem\<close>, \<open>PrcCreatePIB\<close> and \<open>PrcCreateTIB\<close> of
  \<^verbatim>\<open>server/os2srv/processmgr.c\<close>): blocks of mapped memory with the structures of \<^verbatim>\<open>os3/processmgr.h\<close> at their
  start. Dataspaces and the region mapper belong to the host and are arguments.
\<close>

section \<open>Blocks from the host\<close>

text \<open>
  What \<open>DataspaceAlloc\<close> and \<open>attach_ds\<close> answer to the \<open>n\<close>-th request for a number of bytes: an error of the
  one or the other, or the address and the bytes of the attached dataspace. \<open>RegLookupRegion\<close> gives base and
  size of the region around an address.
\<close>

datatype ds_answer = NoDataspace | NoAttach | Attached u32 "u8 list"

record prc_host =
  ds_open :: "nat \<Rightarrow> nat \<Rightarrow> ds_answer"
  RegLookupRegion :: "nat \<Rightarrow> u32 \<Rightarrow> (u32 \<times> nat) option"
  l4_task :: "64 word \<Rightarrow> u32"
  l4_thread_equal :: "64 word \<Rightarrow> 64 word \<Rightarrow> bool"
  NIL_THREAD :: "64 word"
  lit_empty :: u32

definition alloc_mem :: "'h prc_host_scheme \<Rightarrow> nat \<Rightarrow> pmem \<Rightarrow> u32 \<times> pmem" where
  "alloc_mem host sz m =
     (case ds_open host (mcalls m) sz of
        NoDataspace \<Rightarrow> (0, m\<lparr>mcalls := mcalls m + 1\<rparr>)
      | NoAttach \<Rightarrow> (0, m\<lparr>mcalls := mcalls m + 1\<rparr>)
      | Attached a bs \<Rightarrow> (a, m\<lparr>mp := (\<lambda>x. mp m x \<or> unat (x - a) < length bs), mb := mem_wr (mb m) a bs, mcalls := mcalls m + 1\<rparr>))"

definition free_mem :: "'h prc_host_scheme \<Rightarrow> u32 \<Rightarrow> pmem \<Rightarrow> pmem" where
  "free_mem host a m =
     (case RegLookupRegion host (mcalls m) a of
        None \<Rightarrow> m
      | Some (base, sz) \<Rightarrow> m\<lparr>mp := (\<lambda>x. mp m x \<and> \<not> unat (x - base) < sz)\<rparr>)"

section \<open>The information blocks\<close>

text \<open>Offsets of the members.\<close>

abbreviation (input) pib_ulpid :: u32 where "pib_ulpid \<equiv> 0"
abbreviation (input) pib_ulppid :: u32 where "pib_ulppid \<equiv> 4"
abbreviation (input) pib_hmte :: u32 where "pib_hmte \<equiv> 8"
abbreviation (input) pib_pchcmd :: u32 where "pib_pchcmd \<equiv> 12"
abbreviation (input) pib_pchenv :: u32 where "pib_pchenv \<equiv> 16"
abbreviation (input) sizeof_PIB :: nat where "sizeof_PIB \<equiv> 28"
abbreviation (input) tib_pstack :: u32 where "tib_pstack \<equiv> 4"
abbreviation (input) tib_pstacklimit :: u32 where "tib_pstacklimit \<equiv> 8"
abbreviation (input) tib_ptib2 :: u32 where "tib_ptib2 \<equiv> 12"
abbreviation (input) sizeof_TIB :: nat where "sizeof_TIB \<equiv> 32"
abbreviation (input) sizeof_TIB2 :: nat where "sizeof_TIB2 \<equiv> 16"
abbreviation (input) tib2_ultid :: u32 where "tib2_ultid \<equiv> 0"

text \<open>The address stored to \<open>*addr\<close> and the memory; the code is always \<open>NO_ERROR\<close>.\<close>

definition PrcCreatePIB :: "'h prc_host_scheme \<Rightarrow> u32 \<Rightarrow> u32 \<Rightarrow> u32 \<Rightarrow> pmem \<Rightarrow> (u32 \<times> pmem) option" where
  "PrcCreatePIB host prg arg env m = do {
     len1 \<leftarrow> strlstlen m env;
     l2 \<leftarrow> strlen_at m prg;
     l3 \<leftarrow> strlen_at m arg;
     l4 \<leftarrow> strlen_at m (arg + of_nat (l3 + 1));
     let (addr, m) = alloc_mem host (sizeof_PIB + len1 + (l2 + 1) + (l3 + 1) + (l4 + 1)) m;
     let s1 = addr + of_nat sizeof_PIB;
     m \<leftarrow> strlstcpy m s1 env;
     let s2 = s1 + of_nat len1;
     m \<leftarrow> strcpy_at m s2 prg;
     let s3 = s2 + of_nat (l2 + 1);
     m \<leftarrow> strlstcpy m s3 arg;
     m \<leftarrow> st32 m (addr + pib_pchenv) s1;
     m \<leftarrow> st32 m (addr + pib_pchcmd) s3;
     Some (addr, m) }"

definition PrcCreateTIB :: "'h prc_host_scheme \<Rightarrow> pmem \<Rightarrow> (u32 \<times> pmem) option" where
  "PrcCreateTIB host m = do {
     let (addr, m) = alloc_mem host (sizeof_TIB + sizeof_TIB2) m;
     m \<leftarrow> st32 m (addr + tib_ptib2) (addr + of_nat sizeof_TIB);
     Some (addr, m) }"

lemma all_mapped_4: "all_mapped M a 4 \<longleftrightarrow> M a \<and> M (a + 1) \<and> M (a + 2) \<and> M (a + 3)"
  unfolding all_mapped_cells span_cells [symmetric] by (simp add: span_def)

section \<open>Memory that is kept\<close>

text \<open>Everything mapped in \<open>m\<close> is mapped in \<open>m'\<close> with the same contents.\<close>

definition keeps :: "pmem \<Rightarrow> pmem \<Rightarrow> bool" where
  "keeps m m' \<longleftrightarrow> (\<forall>x. mp m x \<longrightarrow> ld8 m' x = ld8 m x)"

lemma keeps_refl [simp]: "keeps m m"
  by (simp add: keeps_def)

lemma ld8_mapped: "ld8 m x = Some b \<Longrightarrow> mp m x"
  by (simp add: ld8_def split: if_splits)

lemma keeps_trans: "keeps m m' \<Longrightarrow> keeps m' m'' \<Longrightarrow> keeps m m''"
  unfolding keeps_def by (metis ld8_def option.simps(3))

lemma keeps_bytes: "keeps m m' \<Longrightarrow> bytes_at m p bs \<Longrightarrow> bytes_at m' p bs"
  by (induction bs arbitrary: p) (auto simp: keeps_def dest: ld8_mapped)

lemma bytes_mapped: "bytes_at m p bs \<Longrightarrow> x \<in> cells p (length bs) \<Longrightarrow> mp m x"
  by (induction bs arbitrary: p) (auto simp: cells_Suc dest: ld8_mapped)

lemma cells_apart:
  assumes "i + k \<le> j" and "j + n \<le> 2 ^ 32"
  shows "cells (A + of_nat i) k \<inter> cells (A + of_nat j) n = {}"
proof -
  have "A + of_nat i + of_nat x \<noteq> A + of_nat j + of_nat y" if "x < k" "y < n" for x y
  proof
    assume "A + of_nat i + of_nat x = A + of_nat j + of_nat y"
    then have "(of_nat (i + x) :: u32) = of_nat (j + y)" by (simp add: algebra_simps)
    moreover have "i + x < 2 ^ 32" "j + y < 2 ^ 32" using that assms by simp_all
    ultimately have "i + x = j + y" by (metis unat_of_nat32)
    then show False using that assms(1) by simp
  qed
  then show ?thesis by (auto simp: cells_def)
qed

lemma cells_sub: "i + k \<le> n \<Longrightarrow> cells (A + of_nat i) k \<subseteq> cells A n"
  using cells_add [of A i k] cells_mono [of "i + k" n A] by auto

lemma cells_unat: "n \<le> 2 ^ 32 \<Longrightarrow> x \<in> cells a n \<longleftrightarrow> unat (x - a) < n"
proof
  assume n: "n \<le> 2 ^ 32"
  show "unat (x - a) < n" if "x \<in> cells a n"
    using that n by (auto simp: cells_def unat_of_nat32)
  show "x \<in> cells a n" if "unat (x - a) < n"
    using that by (auto simp: cells_def intro!: image_eqI [of _ _ "unat (x - a)"])
qed

lemma ld32_st32: "st32 m a v = Some m' \<Longrightarrow> ld32 m' a = Some v"
  by (auto simp: st32_def ld32_def mem_rd32_wr32 split: if_splits)

lemma st32_ld8_other: "st32 m a v = Some m' \<Longrightarrow> x \<notin> cells a 4 \<Longrightarrow> ld8 m' x = ld8 m x"
  unfolding span_cells [symmetric]
  by (auto simp: st32_def ld8_def span_def mem_wr32_other split: if_splits)

lemma st32_mp: "st32 m a v = Some m' \<Longrightarrow> mp m' = mp m \<and> mcalls m' = mcalls m"
  by (auto simp: st32_def split: if_splits)

lemma st32_ok: "all_mapped (mp m) a 4 \<Longrightarrow> \<exists>m'. st32 m a v = Some m'"
  by (simp add: st32_def)

lemma st32_ld32_other:
  assumes "st32 m a v = Some m'" and "cells a 4 \<inter> cells b 4 = {}"
  shows "ld32 m' b = ld32 m b"
  using assms by (auto simp: st32_def ld32_def mem_rd32_other span_cells Int_commute split: if_splits)

lemma st32_bytes_other:
  "st32 m a v = Some m' \<Longrightarrow> cells a 4 \<inter> cells p (length bs) = {} \<Longrightarrow> bytes_at m' p bs = bytes_at m p bs"
  by (rule bytes_at_cong) (use st32_ld8_other in blast)

text \<open>Stores inside the addresses of \<open>X\<close> only.\<close>

definition only :: "u32 set \<Rightarrow> pmem \<Rightarrow> pmem \<Rightarrow> bool" where
  "only X m m' \<longleftrightarrow> mp m' = mp m \<and> (\<forall>x. x \<notin> X \<longrightarrow> ld8 m' x = ld8 m x)"

lemma only_wr: "cells a (length bs) \<subseteq> X \<Longrightarrow> only X m (wr m a bs)"
  using ld8_wr_other unfolding only_def by fastforce

lemma only_st32: "st32 m a v = Some m' \<Longrightarrow> cells a 4 \<subseteq> X \<Longrightarrow> only X m m'"
  using st32_ld8_other st32_mp unfolding only_def by fastforce

lemma only_trans: "only X m m' \<Longrightarrow> only X m' m'' \<Longrightarrow> only X m m''"
  unfolding only_def by metis

lemma only_keeps: "keeps m m1 \<Longrightarrow> only X m1 m' \<Longrightarrow> (\<And>x. x \<in> X \<Longrightarrow> \<not> mp m x) \<Longrightarrow> keeps m m'"
  unfolding keeps_def only_def by metis

text \<open>A new block: old memory is kept, its cells are mapped.\<close>

lemma alloc_mem_block:
  assumes "ds_open host (mcalls m) sz = Attached A raw" and "length raw \<le> 2 ^ 32"
    and "\<forall>x \<in> cells A (length raw). \<not> mp m x"
  obtains m1 where "alloc_mem host sz m = (A, m1)" "keeps m m1" "\<forall>x. mp m1 x \<longleftrightarrow> mp m x \<or> x \<in> cells A (length raw)"
    "mcalls m1 = mcalls m + 1"
proof
  let ?m1 = "m\<lparr>mp := (\<lambda>x. mp m x \<or> unat (x - A) < length raw), mb := mem_wr (mb m) A raw, mcalls := mcalls m + 1\<rparr>"
  show "alloc_mem host sz m = (A, ?m1)" using assms(1) by (simp add: alloc_mem_def)
  have "mem_wr (mb m) A raw x = mb m x" if "mp m x" for x
    using that assms(3) by (intro mem_wr_other) (auto simp: cells_def)
  then show "keeps m ?m1" by (auto simp: keeps_def ld8_def)
  show "\<forall>x. mp ?m1 x \<longleftrightarrow> mp m x \<or> x \<in> cells A (length raw)" using assms(2) by (simp add: cells_unat)
qed simp

section \<open>The layout of a process information block\<close>

definition envlen :: "u8 list list \<Rightarrow> nat" where
  "envlen es = (if es = [] then 2 else length (strlst es))"

text \<open>The size \<open>PrcCreatePIB\<close> asks for: room for the first two argument strings, not for the final NUL.\<close>

definition pib_size :: "u8 list list \<Rightarrow> u8 list \<Rightarrow> u8 list list \<Rightarrow> nat" where
  "pib_size es prg as = sizeof_PIB + envlen es + (length prg + 1) + (length (as ! 0) + 1)
     + (if length as = 1 then 1 else length (as ! 1) + 1)"

text \<open>The offsets of program name and arguments behind the environment, and what the block holds.\<close>

definition pib_prg :: "u8 list list \<Rightarrow> nat" where
  "pib_prg es = sizeof_PIB + envlen es"

definition pib_args :: "u8 list list \<Rightarrow> u8 list \<Rightarrow> nat" where
  "pib_args es prg = pib_prg es + (length prg + 1)"

definition pib_layout :: "pmem \<Rightarrow> u32 \<Rightarrow> u8 list list \<Rightarrow> u8 list \<Rightarrow> u8 list list \<Rightarrow> bool" where
  "pib_layout m A es prg as \<longleftrightarrow>
     ld32 m (A + pib_pchenv) = Some (A + of_nat sizeof_PIB) \<and> bytes_at m (A + of_nat sizeof_PIB) (strlst es)
     \<and> bytes_at m (A + of_nat (pib_prg es)) (prg @ [0])
     \<and> ld32 m (A + pib_pchcmd) = Some (A + of_nat (pib_args es prg)) \<and> bytes_at m (A + of_nat (pib_args es prg)) (strlst as)"

lemma strlst_envlen: "length (strlst es) \<le> envlen es"
  by (simp add: envlen_def)

lemma arg_lengths:
  assumes "str_list as" and "length as = 1 \<or> length as = 2" and "bytes_at m p (strlst as)"
  shows "strlen_at m p = Some (length (as ! 0))"
    and "strlen_at m (p + of_nat (length (as ! 0) + 1)) = Some (if length as = 1 then 0 else length (as ! 1))"
proof -
  obtain a r where as: "as = a # r" using assms(2) by (cases as) auto
  show "strlen_at m p = Some (length (as ! 0))"
    using assms(1,3) as by (simp add: strlen_at_bytes)
  have r: "bytes_at m (p + of_nat (length a + 1)) (strlst r)" "str_list r"
    using assms(1,3) as by (simp_all add: algebra_simps)
  show "strlen_at m (p + of_nat (length (as ! 0) + 1)) = Some (if length as = 1 then 0 else length (as ! 1))"
  proof (cases r)
    case Nil
    then show ?thesis using r as strlen_at_bytes [of "[]" m "p + of_nat (length a + 1)"] by simp
  next
    case (Cons b r')
    then show ?thesis using r as strlen_at_bytes [of b m "p + of_nat (length a + 1)"] assms(2) by simp
  qed
qed

lemma PrcCreatePIB_start:
  assumes "str_list es" and "plain prg" and "str_list as" and "length as = 1 \<or> length as = 2"
    and "env \<noteq> 0" and "bytes_at m env (strlst es)" and "bytes_at m pPrg (prg @ [0])" and "bytes_at m pArg (strlst as)"
    and "alloc_mem host (pib_size es prg as) m = (A, m1)"
  shows "PrcCreatePIB host pPrg pArg env m = do {
     let s1 = A + of_nat sizeof_PIB;
     m \<leftarrow> strlstcpy m1 s1 env;
     let s2 = s1 + of_nat (envlen es);
     m \<leftarrow> strcpy_at m s2 pPrg;
     let s3 = s2 + of_nat (length prg + 1);
     m \<leftarrow> strlstcpy m s3 pArg;
     m \<leftarrow> st32 m (A + pib_pchenv) s1;
     m \<leftarrow> st32 m (A + pib_pchcmd) s3;
     Some (A, m) }"
proof -
  have "strlstlen m env = Some (envlen es)" "strlen_at m pPrg = Some (length prg)"
    using assms by (simp_all add: strlstlen_bytes envlen_def strlen_at_bytes)
  moreover have "sizeof_PIB + envlen es + (length prg + 1) + (length (as ! 0) + 1)
      + ((if length as = 1 then 0 else length (as ! 1)) + 1) = pib_size es prg as"
    by (simp add: pib_size_def)
  ultimately show ?thesis
    unfolding PrcCreatePIB_def using arg_lengths [OF assms(3,4,8)] assms(9)
    by (simp add: Let_def)
qed

text \<open>Copying old strings into new memory.\<close>

lemma copy_list_new:
  assumes "str_list ss" and "bytes_at m q (strlst ss)" and "keeps m m'" and "all_mapped (mp m') d (length (strlst ss))"
    and "\<forall>x \<in> cells d (length (strlst ss)). \<not> mp m x"
  shows "strlstcpy m' d q = Some (wr m' d (strlst ss))"
  using assms by (intro strlstcpy_bytes) (auto intro: keeps_bytes dest: bytes_mapped)

lemma copy_str_new:
  assumes "plain s" and "bytes_at m q (s @ [0])" and "keeps m m'" and "all_mapped (mp m') d (length s + 1)"
    and "\<forall>x \<in> cells d (length s + 1). \<not> mp m x"
  shows "strcpy_at m' d q = Some (wr m' d (s @ [0]))"
proof (rule strcpy_at_bytes)
  show "cells d (length s + 1) \<inter> cells q (length s + 1) = {}"
    using assms(5) bytes_mapped [OF assms(2)] by auto
  show "bytes_at m' q (s @ [0])" using keeps_bytes [OF assms(3,2)] .
qed (use assms in auto)

text \<open>A block of \<open>n\<close> new bytes at \<open>A\<close>.\<close>

definition new_block :: "pmem \<Rightarrow> pmem \<Rightarrow> u32 \<Rightarrow> nat \<Rightarrow> bool" where
  "new_block m m1 A n \<longleftrightarrow> keeps m m1 \<and> (\<forall>x. mp m1 x \<longleftrightarrow> mp m x \<or> x \<in> cells A n) \<and> (\<forall>x \<in> cells A n. \<not> mp m x)
     \<and> n \<le> 2 ^ 32"

lemma new_block_part:
  assumes "new_block m m1 A n" and "i + k \<le> n"
  shows "\<forall>x \<in> cells (A + of_nat i) k. \<not> mp m x" "all_mapped (mp m1) (A + of_nat i) k"
  using assms cells_sub [OF assms(2)] by (auto simp: new_block_def all_mapped_cells)

lemma new_block_only: "new_block m m1 A n \<Longrightarrow> only (cells A n) m1 m2 \<Longrightarrow> new_block m m2 A n"
  using only_keeps [of m m1 "cells A n" m2] unfolding new_block_def only_def by auto

lemma new_block_apart:
  "new_block m m1 A n \<Longrightarrow> i + k \<le> j \<Longrightarrow> j + l \<le> n \<Longrightarrow> cells (A + of_nat i) k \<inter> cells (A + of_nat j) l = {}"
  by (rule cells_apart) (simp_all add: new_block_def)

text \<open>Copying old strings to an offset of the block, and what such a copy keeps.\<close>

lemma new_block_wr:
  assumes "new_block m m1 A n" and "i + length bs \<le> n"
  shows "new_block m (wr m1 (A + of_nat i) bs) A n" and "bytes_at (wr m1 (A + of_nat i) bs) (A + of_nat i) bs"
proof -
  show "new_block m (wr m1 (A + of_nat i) bs) A n"
    using assms cells_sub [OF assms(2)] by (intro new_block_only [OF assms(1)] only_wr)
  show "bytes_at (wr m1 (A + of_nat i) bs) (A + of_nat i) bs"
    using new_block_part(2) [OF assms] assms by (intro bytes_at_wr) (simp_all add: new_block_def)
qed

lemma new_block_wr_other:
  assumes "new_block m m1 A n" and "bytes_at m1 (A + of_nat i) bs" and "i + length bs \<le> j" and "j + length cs \<le> n"
  shows "bytes_at (wr m1 (A + of_nat j) cs) (A + of_nat i) bs"
  using new_block_apart [OF assms(1,3,4)] assms(2) by (simp add: bytes_at_wr_other)

lemma new_block_copy_list:
  assumes "new_block m m1 A n" and "str_list ss" and "bytes_at m q (strlst ss)" and "i + length (strlst ss) \<le> n"
  shows "strlstcpy m1 (A + of_nat i) q = Some (wr m1 (A + of_nat i) (strlst ss))"
  using copy_list_new [OF assms(2,3)] new_block_part [OF assms(1,4)] assms(1) by (simp add: new_block_def)

lemma new_block_copy_str:
  assumes "new_block m m1 A n" and "plain s" and "bytes_at m q (s @ [0])" and "i + (length s + 1) \<le> n"
  shows "strcpy_at m1 (A + of_nat i) q = Some (wr m1 (A + of_nat i) (s @ [0]))"
  using copy_str_new [OF assms(2,3)] new_block_part [OF assms(1,4)] assms(1) by (simp add: new_block_def)

lemma new_block_st32:
  assumes "new_block m m1 A n" and "i + 4 \<le> n"
  obtains m2 where "st32 m1 (A + of_nat i) v = Some m2" "new_block m m2 A n" "ld32 m2 (A + of_nat i) = Some v"
    "mcalls m2 = mcalls m1"
    "\<forall>j bs. i + 4 \<le> j \<and> j + length bs \<le> n \<and> bytes_at m1 (A + of_nat j) bs \<longrightarrow> bytes_at m2 (A + of_nat j) bs"
    "\<forall>j. i + 4 \<le> j \<and> j + 4 \<le> n \<longrightarrow> ld32 m2 (A + of_nat j) = ld32 m1 (A + of_nat j)"
proof -
  obtain m2 where m2: "st32 m1 (A + of_nat i) v = Some m2"
    using st32_ok new_block_part(2) [OF assms] by blast
  show thesis
  proof (rule that [OF m2])
    show "new_block m m2 A n"
      using new_block_only [OF assms(1) only_st32 [OF m2]] cells_sub [OF assms(2)] by blast
    show "ld32 m2 (A + of_nat i) = Some v" "mcalls m2 = mcalls m1" using ld32_st32 [OF m2] st32_mp [OF m2] by auto
  qed (use st32_bytes_other [OF m2] st32_ld32_other [OF m2] new_block_apart [OF assms(1)] in simp_all)
qed

text \<open>The three copies of \<open>PrcCreatePIB\<close>.\<close>

lemma pib_copies:
  assumes "new_block m m1 A n" and "str_list es" and "plain prg" and "str_list as"
    and "bytes_at m env (strlst es)" and "bytes_at m pPrg (prg @ [0])" and "bytes_at m pArg (strlst as)"
    and "o1 + length (strlst es) \<le> o2" and "o2 + (length prg + 1) \<le> o3" and "o3 + length (strlst as) \<le> n"
  obtains m2 m3 m4 where "strlstcpy m1 (A + of_nat o1) env = Some m2" "strcpy_at m2 (A + of_nat o2) pPrg = Some m3"
    "strlstcpy m3 (A + of_nat o3) pArg = Some m4" "new_block m m4 A n" "mcalls m4 = mcalls m1"
    "bytes_at m4 (A + of_nat o1) (strlst es)" "bytes_at m4 (A + of_nat o2) (prg @ [0])"
    "bytes_at m4 (A + of_nat o3) (strlst as)"
proof -
  let ?m2 = "wr m1 (A + of_nat o1) (strlst es)"
  let ?m3 = "wr ?m2 (A + of_nat o2) (prg @ [0])"
  let ?m4 = "wr ?m3 (A + of_nat o3) (strlst as)"
  have len: "o1 + length (strlst es) \<le> n" "o2 + length (prg @ [0]) \<le> n" "o1 + length (strlst es) \<le> o3"
    "o2 + length (prg @ [0]) \<le> o3" using assms(8-10) by simp_all
  note b2 = new_block_wr [OF assms(1) len(1)]
  note b3 = new_block_wr [OF b2(1) len(2)]
  note b4 = new_block_wr [OF b3(1) assms(10)]
  show thesis
  proof (rule that [of ?m2 ?m3 ?m4])
    show "strlstcpy m1 (A + of_nat o1) env = Some ?m2"
      by (rule new_block_copy_list [OF assms(1,2,5) len(1)])
    show "strcpy_at ?m2 (A + of_nat o2) pPrg = Some ?m3"
      using len(2) by (intro new_block_copy_str [OF b2(1) assms(3,6)]) simp
    show "strlstcpy ?m3 (A + of_nat o3) pArg = Some ?m4"
      by (rule new_block_copy_list [OF b3(1) assms(4,7,10)])
    show "bytes_at ?m4 (A + of_nat o1) (strlst es)"
      by (intro new_block_wr_other [OF b3(1)] new_block_wr_other [OF b2(1)] b2(2) assms(8,10) len)
    show "bytes_at ?m4 (A + of_nat o2) (prg @ [0])"
      by (intro new_block_wr_other [OF b3(1)] b3(2) assms(10) len)
  qed (use b4 in simp_all)
qed

lemma alloc_mem_new_block:
  assumes "ds_open host (mcalls m) sz = Attached A raw" and "length raw \<le> 2 ^ 32"
    and "\<forall>x \<in> cells A (length raw). \<not> mp m x"
  obtains m1 where "alloc_mem host sz m = (A, m1)" "new_block m m1 A (length raw)" "mcalls m1 = mcalls m + 1"
  using alloc_mem_block [OF assms] assms(2,3) unfolding new_block_def by metis

lemma PrcCreatePIB_block:
  assumes "str_list es" and "plain prg" and "str_list as" and "length as = 1 \<or> length as = 2"
    and "env \<noteq> 0" and "bytes_at m env (strlst es)" and "bytes_at m pPrg (prg @ [0])" and "bytes_at m pArg (strlst as)"
    and "ds_open host (mcalls m) (pib_size es prg as) = Attached A raw"
    and "sizeof_PIB + envlen es + (length prg + 1) + length (strlst as) \<le> length raw" and "length raw \<le> 2 ^ 32"
    and "\<forall>x \<in> cells A (length raw). \<not> mp m x"
  obtains m' where "PrcCreatePIB host pPrg pArg env m = Some (A, m')" "new_block m m' A (length raw)"
    "mcalls m' = mcalls m + 1" "pib_layout m' A es prg as"
proof -
  obtain m1 where m1: "alloc_mem host (pib_size es prg as) m = (A, m1)" "new_block m m1 A (length raw)" "mcalls m1 = mcalls m + 1"
    using alloc_mem_new_block [OF assms(9,11,12)] .
  define o2 where "o2 = pib_prg es"
  define o3 where "o3 = pib_args es prg"
  have lens: "28 + length (strlst es) \<le> o2" "o2 + (length prg + 1) \<le> o3" "o3 + length (strlst as) \<le> length raw"
    using strlst_envlen [of es] assms(10) by (simp_all add: o2_def o3_def pib_prg_def pib_args_def)
  obtain m2 m3 m4 where c: "strlstcpy m1 (A + of_nat 28) env = Some m2" "strcpy_at m2 (A + of_nat o2) pPrg = Some m3"
    "strlstcpy m3 (A + of_nat o3) pArg = Some m4" "new_block m m4 A (length raw)" "mcalls m4 = mcalls m1"
    "bytes_at m4 (A + of_nat 28) (strlst es)" "bytes_at m4 (A + of_nat o2) (prg @ [0])"
    "bytes_at m4 (A + of_nat o3) (strlst as)"
    using pib_copies [OF m1(2) assms(1-3,6-8) lens] .
  have r: "16 + 4 \<le> length raw" "12 + 4 \<le> length raw" using lens by simp_all
  obtain m5 where m5: "st32 m4 (A + of_nat 16) (A + of_nat 28) = Some m5" "new_block m m5 A (length raw)"
    "ld32 m5 (A + of_nat 16) = Some (A + of_nat 28)" "mcalls m5 = mcalls m4"
    "\<forall>j bs. 16 + 4 \<le> j \<and> j + length bs \<le> length raw \<and> bytes_at m4 (A + of_nat j) bs \<longrightarrow> bytes_at m5 (A + of_nat j) bs"
    "\<forall>j. 16 + 4 \<le> j \<and> j + 4 \<le> length raw \<longrightarrow> ld32 m5 (A + of_nat j) = ld32 m4 (A + of_nat j)"
    using new_block_st32 [OF c(4) r(1), of "A + of_nat 28"] .
  obtain m6 where m6: "st32 m5 (A + of_nat 12) (A + of_nat o3) = Some m6" "new_block m m6 A (length raw)"
    "ld32 m6 (A + of_nat 12) = Some (A + of_nat o3)" "mcalls m6 = mcalls m5"
    "\<forall>j bs. 12 + 4 \<le> j \<and> j + length bs \<le> length raw \<and> bytes_at m5 (A + of_nat j) bs \<longrightarrow> bytes_at m6 (A + of_nat j) bs"
    "\<forall>j. 12 + 4 \<le> j \<and> j + 4 \<le> length raw \<longrightarrow> ld32 m6 (A + of_nat j) = ld32 m5 (A + of_nat j)"
    using new_block_st32 [OF m5(2) r(2), of "A + of_nat o3"] .
  have kept: "bytes_at m6 (A + of_nat j) bs" if "bytes_at m4 (A + of_nat j) bs" "20 \<le> j" "j + length bs \<le> length raw" for j bs
    using m6(5) m5(5) that by simp
  have b: "bytes_at m6 (A + of_nat 28) (strlst es)" "bytes_at m6 (A + of_nat o2) (prg @ [0])" "bytes_at m6 (A + of_nat o3) (strlst as)"
    using kept [OF c(6)] kept [OF c(7)] kept [OF c(8)] lens by simp_all
  have ad: "A + of_nat 28 + of_nat (envlen es) = A + of_nat o2"
    "A + of_nat o2 + of_nat (length prg + 1) = A + of_nat o3"
    by (simp_all add: o2_def o3_def pib_prg_def pib_args_def algebra_simps)
  have run: "PrcCreatePIB host pPrg pArg env m = Some (A, m6)"
    unfolding PrcCreatePIB_start [OF assms(1-8) m1(1)] Let_def ad using c(1-3) m5(1) m6(1) by simp
  have "pib_layout m6 A es prg as"
    unfolding pib_layout_def using m6(3) m6(6) [THEN spec, of 16] m5(3) b r by (simp add: o2_def o3_def)
  then show thesis using that [OF run m6(2)] m6(4) m5(4) c(5) m1(3) by simp
qed

lemma PrcCreateTIB_block:
  assumes "ds_open host (mcalls m) (sizeof_TIB + sizeof_TIB2) = Attached B raw" and "48 \<le> length raw" and "length raw \<le> 2 ^ 32"
    and "\<forall>x \<in> cells B (length raw). \<not> mp m x"
  obtains m' where "PrcCreateTIB host m = Some (B, m')" "new_block m m' B (length raw)" "mcalls m' = mcalls m + 1"
    "ld32 m' (B + tib_ptib2) = Some (B + 32)"
proof -
  obtain m1 where m1: "alloc_mem host (sizeof_TIB + sizeof_TIB2) m = (B, m1)" "new_block m m1 B (length raw)" "mcalls m1 = mcalls m + 1"
    using alloc_mem_new_block [OF assms(1,3,4)] .
  have "12 + 4 \<le> length raw" using assms(2) by simp
  then obtain m2 where "st32 m1 (B + of_nat 12) (B + 32) = Some m2" "new_block m m2 B (length raw)"
    "ld32 m2 (B + of_nat 12) = Some (B + 32)" "mcalls m2 = mcalls m1"
    using new_block_st32 [OF m1(2), of 12 "B + 32"] by metis
  with m1 that show thesis by (simp add: PrcCreateTIB_def)
qed

lemma keeps_ld32:
  assumes "keeps m m'" and "ld32 m a = Some v"
  shows "ld32 m' a = Some v"
proof -
  have am: "all_mapped (mp m) a 4" and v: "v = mem_rd32 (mb m) a" using assms(2) by (auto simp: ld32_def split: if_splits)
  then have "ld8 m' x = ld8 m x \<and> mp m x" if "x \<in> cells a 4" for x
    using that assms(1) by (simp add: keeps_def all_mapped_cells)
  then have k: "mp m' x \<and> mb m' x = mb m x" if "x \<in> cells a 4" for x
    using that by (metis ld8_def option.inject option.simps(3))
  then have "mem_rd32 (mb m') a = v" unfolding v by (intro mem_rd32_cong) (simp add: span_cells)
  with k show ?thesis by (simp add: ld32_def all_mapped_cells)
qed

lemma keeps_layout: "keeps m m' \<Longrightarrow> pib_layout m A es prg as \<Longrightarrow> pib_layout m' A es prg as"
  unfolding pib_layout_def by (intro conjI) (elim conjE, erule (1) keeps_ld32 keeps_bytes)+

text \<open>Stores to the first three members leave the layout alone.\<close>

lemma layout_st32:
  assumes "pib_layout m A es prg as" and "st32 m (A + of_nat i) v = Some m'" and "i + 4 \<le> 12"
    and "pib_args es prg + length (strlst as) \<le> 2 ^ 32"
  shows "pib_layout m' A es prg as"
proof -
  have o: "28 + length (strlst es) \<le> pib_prg es" "pib_prg es + length (prg @ [0]) = pib_args es prg"
    using strlst_envlen [of es] by (simp_all add: pib_prg_def pib_args_def)
  have ld: "ld32 m' (A + of_nat j) = ld32 m (A + of_nat j)" if "12 \<le> j" "j + 4 \<le> 2 ^ 32" for j
    using st32_ld32_other [OF assms(2)] cells_apart [of i 4 j 4 A] that assms(3) by simp
  have bt: "bytes_at m' (A + of_nat j) bs = bytes_at m (A + of_nat j) bs" if "12 \<le> j" "j + length bs \<le> 2 ^ 32" for j bs
    using st32_bytes_other [OF assms(2)] cells_apart [of i 4 j "length bs" A] that assms(3) by simp
  have "12 \<le> pib_prg es" "12 \<le> pib_args es prg" by (simp_all add: pib_prg_def pib_args_def)
  with assms(1,4) o bt [of "pib_prg es" "prg @ [0]"] bt [of 28 "strlst es"] bt [of "pib_args es prg" "strlst as"]
    ld [of 12] ld [of 16] show ?thesis
    unfolding pib_layout_def by simp
qed

text \<open>\<open>PrcCreatePIB\<close> puts the environment, the program name and the argument strings into the new block so that
  all three can be read back through the pointers of the information block and behind the environment, and
  leaves all other memory as it was. The block must have room for one byte more than the code asks for when
  there are two argument strings.\<close>

theorem pib_roundtrip:
  assumes "str_list es" and "plain prg" and "str_list as" and "length as = 1 \<or> length as = 2"
    and "env \<noteq> 0" and "bytes_at m env (strlst es)" and "bytes_at m pPrg (prg @ [0])" and "bytes_at m pArg (strlst as)"
    and "ds_open host (mcalls m) (pib_size es prg as) = Attached A raw"
    and "pib_size es prg as + (length as - 1) \<le> length raw" and "length raw \<le> 2 ^ 32"
    and "\<forall>x \<in> cells A (length raw). \<not> mp m x"
  shows "\<exists>m'. PrcCreatePIB host pPrg pArg env m = Some (A, m') \<and> keeps m m' \<and> pib_layout m' A es prg as"
proof -
  have "sizeof_PIB + envlen es + (length prg + 1) + length (strlst as) \<le> length raw"
    using assms(4,10) by (auto simp: pib_size_def length_Suc_conv numeral_2_eq_2)
  from PrcCreatePIB_block [OF assms(1-9) this assms(11,12)] show ?thesis
    unfolding new_block_def by metis
qed

text \<open>A server memory with strings at 4096 and a pointer to them at 4128, and a host that answers with 64 bytes at 8192.\<close>

definition demo_mem :: pmem where
  "demo_mem = \<lparr>mp = (\<lambda>x. unat (x - 4096) < 64),
     mb = mem_wr (mem_wr (\<lambda>_. 0) 4096 [65, 0, 0, 80, 0, 112, 0, 120, 0, 0]) 4128 [0, 16, 0, 0], mcalls = 0\<rparr>"

definition demo_prc_host :: "nat \<Rightarrow> prc_host" where
  "demo_prc_host n = \<lparr>ds_open = (\<lambda>k _. Attached (8192 + 4096 * of_nat k) (replicate n 0)), RegLookupRegion = (\<lambda>_ _. None),
     l4_task = ucast, l4_thread_equal = (=), NIL_THREAD = 0, lit_empty = 4098\<rparr>"

lemma demo_calls [simp]: "mcalls demo_mem = 0"
  by (simp add: demo_mem_def)

lemma demo_bytes:
  "bytes_at demo_mem 4096 (strlst [[65]])" "bytes_at demo_mem 4099 ([80] @ [0])"
  "bytes_at demo_mem 4101 (strlst [[112], [120]])"
  by (simp_all add: demo_mem_def ld8_def)

lemma demo_apart: "n \<le> 4096 \<Longrightarrow> \<forall>x \<in> cells 8192 n. \<not> mp demo_mem x"
proof (intro ballI)
  fix x assume n: "n \<le> 4096" and "x \<in> cells 8192 n"
  then obtain i where i: "x = 8192 + of_nat i" "i < n" by (auto simp: cells_def)
  then have "unat (x - 4096) = 4096 + i" using n by (simp add: unat_word_ariths unat_of_nat32)
  then show "\<not> mp demo_mem x" by (simp add: demo_mem_def)
qed

lemma demo_pib_size: "pib_size [[65]] [80] [[112], [120]] = 37"
  by (simp add: pib_size_def envlen_def)

theorem pib_roundtrip_witness:
  "\<exists>m'. PrcCreatePIB (demo_prc_host 38) 4099 4101 4096 demo_mem = Some (8192, m') \<and> keeps demo_mem m'
     \<and> pib_layout m' 8192 [[65]] [80] [[112], [120]]"
  by (rule pib_roundtrip [where raw = "replicate 38 0"])
    (use demo_bytes demo_apart [of 38] in \<open>simp_all add: demo_prc_host_def demo_pib_size\<close>)

text \<open>With two argument strings \<open>PrcCreatePIB\<close> asks for one byte less than it writes: when the block has
  exactly the size that was asked for and nothing is mapped behind it, the final NUL of the argument list
  faults.\<close>

theorem pib_overflow:
  assumes "str_list es" and "plain prg" and "str_list [a1, a2]"
    and "env \<noteq> 0" and "bytes_at m env (strlst es)" and "bytes_at m pPrg (prg @ [0])" and "bytes_at m pArg (strlst [a1, a2])"
    and "ds_open host (mcalls m) (pib_size es prg [a1, a2]) = Attached A raw"
    and "length raw = pib_size es prg [a1, a2]" and "length raw < 2 ^ 32"
    and "\<forall>x \<in> cells A (length raw). \<not> mp m x" and "\<not> mp m (A + of_nat (length raw))"
  shows "PrcCreatePIB host pPrg pArg env m = None"
proof -
  obtain m1 where m1: "alloc_mem host (pib_size es prg [a1, a2]) m = (A, m1)" "new_block m m1 A (length raw)"
    using alloc_mem_new_block [OF assms(8) _ assms(11)] assms(10) by auto
  define o2 where "o2 = 28 + envlen es"
  define o3 where "o3 = o2 + (length prg + 1)"
  let ?k = "length (strlst [a1, a2]) - 1"
  have lens: "28 + length (strlst es) \<le> length raw" "o2 + length (prg @ [0]) \<le> length raw" "o3 + ?k = length raw"
    using strlst_envlen [of es] assms(9) by (simp_all add: o2_def o3_def pib_size_def)
  let ?m2 = "wr m1 (A + of_nat 28) (strlst es)"
  let ?m3 = "wr ?m2 (A + of_nat o2) (prg @ [0])"
  have c2: "strlstcpy m1 (A + of_nat 28) env = Some ?m2"
    by (rule new_block_copy_list [OF m1(2) assms(1,5) lens(1)])
  note b2 = new_block_wr(1) [OF m1(2) lens(1)]
  have c3: "strcpy_at ?m2 (A + of_nat o2) pPrg = Some ?m3"
    using lens(2) by (intro new_block_copy_str [OF b2 assms(2,6)]) simp
  note b3 = new_block_wr(1) [OF b2 lens(2)]
  note part = new_block_part [OF b3, of o3 ?k]
  have "strlstcpy ?m3 (A + of_nat o3) pArg = None"
  proof (rule strlstcpy_fault [OF assms(3)])
    show "bytes_at ?m3 pArg (strlst [a1, a2])" 
      by (rule keeps_bytes [OF _ assms(7)]) (use b3 in \<open>simp only: new_block_def\<close>)
    show "all_mapped (mp ?m3) (A + of_nat o3) ?k" using part(2) lens(3) by simp
    have "A + of_nat (length raw) \<notin> cells A (length raw)" using assms(10) by (simp add: cells_unat unat_of_nat32)
    moreover have "A + of_nat o3 + of_nat ?k = A + of_nat (length raw)" unfolding lens(3) [symmetric] by simp
    ultimately show "\<not> mp ?m3 (A + of_nat o3 + of_nat ?k)" using assms(12) m1(2) by (simp only:) (simp add: new_block_def)
    show "cells (A + of_nat o3) ?k \<inter> cells pArg (length (strlst [a1, a2])) = {}"
      using part(1) lens(3) bytes_mapped [OF assms(7)] by auto
  qed
  moreover have "A + of_nat 28 + of_nat (envlen es) = A + of_nat o2" "A + of_nat o2 + of_nat (length prg + 1) = A + of_nat o3"
    by (simp_all add: o2_def o3_def algebra_simps)
  ultimately show ?thesis
    using c2 c3 PrcCreatePIB_start [OF assms(1-3) _ assms(4-7) m1(1)] by (simp only: Let_def) simp
qed

theorem pib_overflow_witness: "PrcCreatePIB (demo_prc_host 37) 4099 4101 4096 demo_mem = None"
  by (rule pib_overflow [where es = "[[65]]" and prg = "[80]" and ?a1.0 = "[112]" and ?a2.0 = "[120]" and raw = "replicate 37 0" and A = 8192])
    (use demo_bytes demo_apart [of 37] in \<open>simp_all add: demo_prc_host_def demo_pib_size, simp add: demo_mem_def\<close>)

end
