(* ===== verification/ProcMgr.thy ===== *)
theory ProcMgr
  imports ProcInfo
begin

text \<open>
  The process table of the OS/2 server (\<^verbatim>\<open>server/os2srv/processmgr.c\<close>): a doubly linked list of process
  structures that hangs from \<open>proc_root\<close>, in an explicit store, with their information blocks in mapped memory.
  The dataspace and region managers, thread identities and semaphores of the host are arguments; logging is
  left out.
\<close>

section \<open>State\<close>

text \<open>\<open>struct t_os2process\<close>; \<open>root_mem_area\<close>, which nothing uses, is left out.\<close>

record os2process =
  hmte :: u32
  p_pid :: u32
  exec_sync :: u8
  startup_sem :: int
  term_sem :: int
  p_task :: "64 word"
  term_code :: u32
  p_ip :: u32
  p_sp :: u32
  lx_pib :: u32
  tib_array :: "u32 list"
  tid_array :: "64 word list"
  curdisk :: u8
  curdir :: string
  p_next :: u32
  p_prev :: u32

abbreviation (input) MAX_TID :: nat where "MAX_TID \<equiv> 128"

text \<open>
  The answers of \<open>malloc\<close> come with the contents of the memory, which the code does not clear; an address of
  0, or no further answer, is a failure.
\<close>

record prc_state =
  pheap :: "u32 \<Rightarrow> os2process option"
  proc_root :: u32
  pid_ctr :: u32
  pmallocs :: "(u32 \<times> os2process) list"
  psp :: pmem

definition prc_state0 :: "(u32 \<times> os2process) list \<Rightarrow> pmem \<Rightarrow> prc_state" where
  "prc_state0 as m = \<lparr>pheap = (\<lambda>_. None), proc_root = 0, pid_ctr = -1, pmallocs = as, psp = m\<rparr>"

section \<open>Lookup\<close>

definition ThreadEqual :: "'h prc_host_scheme \<Rightarrow> 64 word \<Rightarrow> 64 word \<Rightarrow> bool" where
  "ThreadEqual host one two = l4_thread_equal host one two"

definition TaskEqual :: "'h prc_host_scheme \<Rightarrow> 64 word \<Rightarrow> 64 word \<Rightarrow> bool" where
  "TaskEqual host one two \<longleftrightarrow> l4_task host one = l4_task host two"

definition PrcGetProc :: "u32 \<Rightarrow> prc_state \<Rightarrow> u32 option" where
  "PrcGetProc pid st = search_from p_next (\<lambda>v. p_pid v = pid) (pheap st) (proc_root st)"

definition PrcGetProcNative :: "'h prc_host_scheme \<Rightarrow> 64 word \<Rightarrow> prc_state \<Rightarrow> u32 option" where
  "PrcGetProcNative host thread st =
     search_from p_next (\<lambda>v. TaskEqual host (p_task v) thread) (pheap st) (proc_root st)"

text \<open>The structure behind a pointer; the null pointer has none.\<close>

definition proc_at :: "prc_state \<Rightarrow> u32 \<Rightarrow> os2process option" where
  "proc_at st p = (if p = 0 then None else pheap st p)"

fun tid_scan :: "'h prc_host_scheme \<Rightarrow> 64 word \<Rightarrow> u32 \<Rightarrow> 64 word list \<Rightarrow> u32" where
  "tid_scan host thread i [] = 0"
| "tid_scan host thread i (t # ts) = (if ThreadEqual host t thread then i + 1 else tid_scan host thread (i + 1) ts)"

definition PrcGetTIDNative :: "'h prc_host_scheme \<Rightarrow> 64 word \<Rightarrow> prc_state \<Rightarrow> u32 option" where
  "PrcGetTIDNative host thread st = do {
     p \<leftarrow> PrcGetProcNative host thread st;
     v \<leftarrow> proc_at st p;
     Some (tid_scan host thread 0 (tid_array v)) }"

text \<open>An array element; \<open>tid\<close> 0 and numbers beyond the array are outside of it.\<close>

definition slot_of :: "u32 \<Rightarrow> nat option" where
  "slot_of tid = (let i = unat (tid - 1) in if i < MAX_TID then Some i else None)"

definition PrcGetNativeID :: "u32 \<Rightarrow> u32 \<Rightarrow> prc_state \<Rightarrow> 64 word option" where
  "PrcGetNativeID pid tid st = do {
     p \<leftarrow> PrcGetProc pid st;
     v \<leftarrow> proc_at st p;
     i \<leftarrow> slot_of tid;
     Some (tid_array v ! i) }"

section \<open>Threads of a process\<close>

definition PrcNewTIB :: "'h prc_host_scheme \<Rightarrow> u32 \<Rightarrow> u32 \<Rightarrow> 64 word \<Rightarrow> prc_state \<Rightarrow> (u32 \<times> prc_state) option" where
  "PrcNewTIB host pid tid thread st = do {
     p \<leftarrow> PrcGetProc pid st;
     (ptib, m) \<leftarrow> PrcCreateTIB host (psp st);
     v \<leftarrow> proc_at st p;
     i \<leftarrow> slot_of tid;
     let v = v\<lparr>tid_array := (tid_array v)[i := thread], tib_array := (tib_array v)[i := ptib]\<rparr>;
     ptib2 \<leftarrow> ld32 m (ptib + tib_ptib2);
     m \<leftarrow> st32 m (ptib2 + tib2_ultid) tid;
     Some (0, st\<lparr>pheap := (pheap st)(p \<mapsto> v), psp := m\<rparr>) }"

definition PrcDestroyTIB :: "'h prc_host_scheme \<Rightarrow> u32 \<Rightarrow> u32 \<Rightarrow> prc_state \<Rightarrow> (u32 \<times> prc_state) option" where
  "PrcDestroyTIB host pid tid st = do {
     p \<leftarrow> PrcGetProc pid st;
     v \<leftarrow> proc_at st p;
     i \<leftarrow> slot_of tid;
     let ptib = tib_array v ! i;
     let v = v\<lparr>tib_array := (tib_array v)[i := 0], tid_array := (tid_array v)[i := NIL_THREAD host]\<rparr>;
     Some (0, st\<lparr>pheap := (pheap st)(p \<mapsto> v), psp := free_mem host ptib (psp st)\<rparr>) }"

section \<open>Creation and destruction\<close>

text \<open>The loop to the last structure of the list.\<close>

partial_function (option) last_from :: "(u32 \<Rightarrow> os2process option) \<Rightarrow> u32 \<Rightarrow> u32 option" where
  "last_from h p = do { v \<leftarrow> h p; if p_next v = 0 then Some p else last_from h (p_next v) }"

text \<open>Appending the new structure at \<open>c\<close>: the root and the store.\<close>

definition link_proc :: "u32 \<Rightarrow> os2process \<Rightarrow> prc_state \<Rightarrow> (u32 \<times> (u32 \<Rightarrow> os2process option)) option" where
  "link_proc c raw st = do {
     let h = (pheap st)(c \<mapsto> raw\<lparr>term_sem := 0, p_next := 0, p_prev := 0\<rparr>);
     let root = (if proc_root st = 0 then c else proc_root st);
     p \<leftarrow> last_from h root;
     if p \<noteq> c then do {
       w \<leftarrow> h p;
       let h = h(p \<mapsto> w\<lparr>p_next := c\<rparr>);
       v \<leftarrow> h c;
       Some (root, h(c \<mapsto> v\<lparr>p_prev := p\<rparr>)) }
     else Some (root, h) }"

text \<open>Current disk and directory: those of the parent, or the root directory of drive C.\<close>

definition inherit_dir :: "u32 \<Rightarrow> u32 \<Rightarrow> u32 \<Rightarrow> (u32 \<Rightarrow> os2process option) \<Rightarrow> os2process \<Rightarrow> os2process option" where
  "inherit_dir parentproc ppid pid h v =
     (if parentproc \<noteq> 0 \<and> ppid \<noteq> 0 \<and> pid \<noteq> 0 then do {
        w \<leftarrow> h parentproc;
        Some (v\<lparr>curdisk := curdisk w, curdir := curdir w\<rparr>) }
      else Some (v\<lparr>curdisk := 3, curdir := []\<rparr>))"

text \<open>The environment: the one given, or the parent's when it is missing or empty.\<close>

definition choose_env :: "u32 \<Rightarrow> (u32 \<Rightarrow> os2process option) \<Rightarrow> pmem \<Rightarrow> u32 \<Rightarrow> u32 option" where
  "choose_env parentproc h m pEnv = do {
     missing \<leftarrow> (if pEnv = 0 then Some True else do { b \<leftarrow> ld8 m pEnv; Some (b = 0) });
     if missing then
       if parentproc = 0 then None
       else do { w \<leftarrow> h parentproc; ld32 m (lx_pib w + pib_pchenv) }
     else Some pEnv }"

definition PrcCreate ::
    "'h prc_host_scheme \<Rightarrow> u32 \<Rightarrow> u32 \<Rightarrow> u32 \<Rightarrow> u32 \<Rightarrow> prc_state \<Rightarrow> (u32 \<times> prc_state) option" where
  "PrcCreate host ppid pPrg pArg pEnv st =
     (case pmallocs st of
        [] \<Rightarrow> Some (0, st)
      | (c, raw) # as \<Rightarrow> if c = 0 then Some (0, st\<lparr>pmallocs := as\<rparr>) else do {
        (root, h) \<leftarrow> link_proc c raw st;
        let pid = pid_ctr st + 1;
        parentproc \<leftarrow> search_from p_next (\<lambda>v. p_pid v = ppid) h root;
        v \<leftarrow> h c;
        v \<leftarrow> inherit_dir parentproc ppid pid h v;
        pEnv \<leftarrow> choose_env parentproc h (psp st) pEnv;
        let pArg = (if pArg = 0 then lit_empty host else pArg);
        (pib, m) \<leftarrow> PrcCreatePIB host pPrg pArg pEnv (psp st);
        (tib, m) \<leftarrow> PrcCreateTIB host m;
        let v = v\<lparr>lx_pib := pib, tib_array := tib # replicate (MAX_TID - 1) 0, p_pid := pid, p_ip := 0, p_sp := 0,
          hmte := 0, exec_sync := 0\<rparr>;
        m \<leftarrow> st32 m (pib + pib_ulpid) pid;
        m \<leftarrow> st32 m (pib + pib_ulppid) ppid;
        m \<leftarrow> st32 m (pib + pib_hmte) 0;
        Some (c, st\<lparr>pheap := h(c \<mapsto> v), proc_root := root, pid_ctr := pid, pmallocs := as, psp := m\<rparr>) })"

definition PrcDestroy :: "'h prc_host_scheme \<Rightarrow> u32 \<Rightarrow> prc_state \<Rightarrow> prc_state option" where
  "PrcDestroy host proc st = do {
     v \<leftarrow> proc_at st proc;
     h \<leftarrow> unlink_rec p_next p_prev (\<lambda>x v. v\<lparr>p_next := x\<rparr>) (\<lambda>x v. v\<lparr>p_prev := x\<rparr>) proc v (pheap st);
     let m = free_mem host (lx_pib v) (psp st);
     let m = fold (free_mem host) (filter (\<lambda>t. t \<noteq> 0) (tib_array v)) m;
     Some (st\<lparr>pheap := h, psp := m\<rparr>) }"

section \<open>The table as a list\<close>

definition prc_list :: "prc_state \<Rightarrow> u32 list \<Rightarrow> bool" where
  "prc_list st ps \<longleftrightarrow> path p_next (pheap st) (proc_root st) ps \<and> backs p_prev (pheap st) 0 ps \<and> distinct ps"

text \<open>Process numbers count from \<open>-1 + 1 = 0\<close> on; shifted by one they are ordered as natural numbers.\<close>

definition pid_num :: "u32 \<Rightarrow> nat" where
  "pid_num pid = unat (pid + 1)"

definition proc_num :: "prc_state \<Rightarrow> u32 \<Rightarrow> nat" where
  "proc_num st p = pid_num (p_pid (the (pheap st p)))"

text \<open>
  The invariant: a well-linked list, numbers ascending and not above the counter, arrays of full size.
\<close>

definition proc_ok :: "os2process \<Rightarrow> bool" where
  "proc_ok v \<longleftrightarrow> length (tib_array v) = MAX_TID \<and> length (tid_array v) = MAX_TID"

definition prc_inv :: "prc_state \<Rightarrow> u32 list \<Rightarrow> bool" where
  "prc_inv st ps \<longleftrightarrow> prc_list st ps \<and> sorted_wrt (<) (map (proc_num st) ps)
     \<and> (\<forall>p \<in> set ps. proc_num st p \<le> pid_num (pid_ctr st) \<and> proc_ok (the (pheap st p)))"

interpretation prc: dlist p_next p_prev "\<lambda>x v. v\<lparr>p_next := x\<rparr>" "\<lambda>x v. v\<lparr>p_prev := x\<rparr>"
  by unfold_locales simp_all

lemma prc_list_mem: "prc_list st ps \<Longrightarrow> p \<in> set ps \<Longrightarrow> p \<noteq> 0 \<and> (\<exists>v. pheap st p = Some v)"
  unfolding prc_list_def using path_mem by fast

lemma prc_list_search:
  assumes "prc_list st ps"
  shows "search_from p_next P (pheap st) (proc_root st)
    = Some (case find (\<lambda>a. P (the (pheap st a))) ps of None \<Rightarrow> 0 | Some a \<Rightarrow> a)"
  using assms by (simp add: prc_list_def search_from_path)

lemma pid_num_inj: "pid_num a = pid_num b \<longleftrightarrow> a = b"
  unfolding pid_num_def by (metis add_right_cancel word_unat_eq_iff)

lemma prc_inv_list: "prc_inv st ps \<Longrightarrow> prc_list st ps"
  by (simp add: prc_inv_def)

text \<open>In the list, a number belongs to at most one process.\<close>

lemma prc_inv_unique:
  assumes "prc_inv st ps" and "p \<in> set ps" and "q \<in> set ps" and "p_pid (the (pheap st p)) = p_pid (the (pheap st q))"
  shows "p = q"
proof -
  have "distinct (map (proc_num st) ps)" using assms(1) by (simp add: prc_inv_def strict_sorted_iff)
  moreover have "proc_num st p = proc_num st q" using assms(4) by (simp add: proc_num_def)
  ultimately show ?thesis using assms(2,3) by (metis distinct_map inj_onD)
qed

lemma find_unique: "x \<in> set xs \<Longrightarrow> P x \<Longrightarrow> \<forall>y \<in> set xs. P y \<longrightarrow> y = x \<Longrightarrow> find P xs = Some x"
proof (induction xs)
  case (Cons a xs)
  show ?case
  proof (cases "P a")
    case True
    then have "a = x" using Cons.prems(3) by simp
    with True show ?thesis by simp
  next
    case False
    then have "x \<in> set xs" using Cons.prems(1,2) by auto
    with False Cons.IH [OF _ Cons.prems(2)] Cons.prems(3) show ?thesis by simp
  qed
qed simp

lemma PrcGetProc_found:
  assumes "prc_inv st ps" and "p \<in> set ps" and "pheap st p = Some v"
  shows "PrcGetProc (p_pid v) st = Some p"
proof -
  have "find (\<lambda>a. p_pid (the (pheap st a)) = p_pid v) ps = Some p"
  proof (rule find_unique [OF assms(2)])
    show "\<forall>a \<in> set ps. p_pid (the (pheap st a)) = p_pid v \<longrightarrow> a = p"
      using prc_inv_unique [OF assms(1) _ assms(2)] assms(3) by simp
  qed (use assms(3) in simp)
  then show ?thesis
    unfolding PrcGetProc_def prc_list_search [OF prc_inv_list [OF assms(1)]] by simp
qed

lemma PrcGetProc_none:
  assumes "prc_inv st ps" and "\<forall>p \<in> set ps. p_pid (the (pheap st p)) \<noteq> pid"
  shows "PrcGetProc pid st = Some 0"
proof -
  have "find (\<lambda>a. p_pid (the (pheap st a)) = pid) ps = None" using assms(2) by (simp add: find_None_iff)
  then show ?thesis unfolding PrcGetProc_def prc_list_search [OF prc_inv_list [OF assms(1)]] by simp
qed

text \<open>Stores to members other than the links and the number.\<close>

lemma prc_inv_update:
  assumes "prc_inv st ps" and "pheap st p = Some v" and "p_next v' = p_next v" and "p_prev v' = p_prev v"
    and "p_pid v' = p_pid v" and "proc_ok v \<Longrightarrow> proc_ok v'"
  shows "prc_inv (st\<lparr>pheap := (pheap st)(p \<mapsto> v'), psp := m\<rparr>) ps"
proof -
  let ?h = "(pheap st)(p \<mapsto> v')" and ?s = "st\<lparr>pheap := (pheap st)(p \<mapsto> v'), psp := m\<rparr>"
  have "map_option p_next (?h a) = map_option p_next (pheap st a)" "map_option p_prev (?h a) = map_option p_prev (pheap st a)" for a
    using assms(2-4) by simp_all
  then have "prc_list ?s ps"
    using assms(1) path_cong [of ps p_next ?h "pheap st"] backs_cong [of ps p_prev ?h "pheap st"]
    by (simp add: prc_inv_def prc_list_def)
  moreover have "proc_num ?s = proc_num st" using assms(2,5) by (auto simp: proc_num_def)
  ultimately show ?thesis using assms(1,2,6) by (auto simp: prc_inv_def)
qed

lemma last_from_path: "path p_next h p ps \<Longrightarrow> ps \<noteq> [] \<Longrightarrow> last_from h p = Some (last ps)"
proof (induction ps arbitrary: p)
  case (Cons a ps)
  then obtain v where v: "h a = Some v" "p = a" "path p_next h (p_next v) ps" by auto
  show ?case
  proof (cases ps)
    case Nil
    with v show ?thesis by (simp add: last_from.simps)
  next
    case (Cons b bs)
    then have "p_next v \<noteq> 0" using v(3) by simp
    with v Cons.IH [OF v(3)] Cons show ?thesis by (subst last_from.simps) simp
  qed
qed simp

text \<open>Appending a structure at an address that is not in use.\<close>

lemma link_proc_list:
  assumes "prc_list st ps" and "c \<noteq> 0" and "pheap st c = None"
  obtains h v where "link_proc c raw st = Some (hd (ps @ [c]), h)" "h c = Some v" "p_pid v = p_pid raw" "tid_array v = tid_array raw"
    "path p_next h (hd (ps @ [c])) (ps @ [c])" "backs p_prev h 0 (ps @ [c])"
    "\<And>x. x \<noteq> c \<Longrightarrow> map_option (\<lambda>w. w\<lparr>p_next := 0\<rparr>) (h x) = map_option (\<lambda>w. w\<lparr>p_next := 0\<rparr>) (pheap st x)"
    "p_next v = 0" "p_prev v = (if ps = [] then 0 else last ps)"
proof -
  let ?v = "raw\<lparr>term_sem := 0, p_next := 0, p_prev := 0\<rparr>"
  let ?h = "(pheap st)(c \<mapsto> ?v)"
  have c: "c \<notin> set ps" using prc_list_mem [OF assms(1)] assms(3) by fastforce
  show thesis
  proof (cases "ps = []")
    case True
    then have "proc_root st = 0" using assms(1) by (simp add: prc_list_def)
    then have "link_proc c raw st = Some (c, ?h)" by (simp add: link_proc_def last_from.simps)
    with True assms(2) show thesis by (intro that [of ?h ?v]) simp_all
  next
    case False
    then have root: "proc_root st = hd ps" "proc_root st \<noteq> 0" using assms(1) by (cases ps; auto simp: prc_list_def)+
    have "path p_next ?h (proc_root st) ps"
      using assms(1) c by (subst path_cong [where h = "pheap st"]) (auto simp: prc_list_def)
    then have l: "last_from ?h (proc_root st) = Some (last ps)" using False by (rule last_from_path)
    have lc: "last ps \<noteq> c" using False c last_in_set by metis
    obtain w where w: "pheap st (last ps) = Some w" using prc_list_mem [OF assms(1)] False by fastforce
    let ?h2 = "(pheap st)(last ps \<mapsto> w\<lparr>p_next := c\<rparr>, c \<mapsto> ?v\<lparr>p_prev := last ps\<rparr>)"
    have run: "link_proc c raw st = Some (hd (ps @ [c]), ?h2)"
      using l lc w root False by (simp add: link_proc_def fun_upd_twist)
    have "path p_next ?h2 (proc_root st) (ps @ [c])" "backs p_prev ?h2 0 (ps @ [c])"
      using assms c w False prc.append_list [of "pheap st" "proc_root st" ps c w "?v\<lparr>p_prev := last ps\<rparr>"]
      by (simp_all add: prc_list_def)
    then show thesis using False root w by (intro that [OF run, of "?v\<lparr>p_prev := last ps\<rparr>"]) simp_all
  qed
qed

section \<open>Creation keeps the table\<close>

lemma inherit_dir_members:
  "inherit_dir q ppid pid h v = Some v' \<Longrightarrow> p_next v' = p_next v \<and> p_prev v' = p_prev v \<and> tid_array v' = tid_array v"
  by (auto simp: inherit_dir_def bind_eq_Some_conv split: if_splits)

lemma PrcCreate_heap:
  assumes "PrcCreate host ppid pPrg pArg pEnv st = Some (r, st')" and "pmallocs st = (c, raw) # as" and "c \<noteq> 0"
  obtains root h v v' where "link_proc c raw st = Some (root, h)" "h c = Some v" "r = c"
    "pheap st' = h(c \<mapsto> v')" "proc_root st' = root" "pid_ctr st' = pid_ctr st + 1" "pmallocs st' = as"
    "p_next v' = p_next v" "p_prev v' = p_prev v" "p_pid v' = pid_ctr st + 1" "length (tib_array v') = MAX_TID"
    "tid_array v' = tid_array v"
proof -
  obtain root h where l: "link_proc c raw st = Some (root, h)"
    using assms by (auto simp: PrcCreate_def bind_eq_Some_conv)
  obtain v q where v: "h c = Some v" "search_from p_next (\<lambda>v. p_pid v = ppid) h root = Some q"
    using assms l by (auto simp: PrcCreate_def bind_eq_Some_conv Let_def)
  obtain v1 where v1: "inherit_dir q ppid (pid_ctr st + 1) h v = Some v1"
    using assms l v by (auto simp: PrcCreate_def bind_eq_Some_conv Let_def)
  note m = inherit_dir_members [OF v1]
  from assms l v v1 obtain pib tib m' where
    "r = c" "st' = st\<lparr>pheap := h(c \<mapsto> v1\<lparr>lx_pib := pib, tib_array := tib # replicate 127 0, p_pid := pid_ctr st + 1,
        p_ip := 0, p_sp := 0, hmte := 0, exec_sync := 0\<rparr>), proc_root := root, pid_ctr := pid_ctr st + 1, pmallocs := as, psp := m'\<rparr>"
    by (auto simp: PrcCreate_def bind_eq_Some_conv Let_def)
  with that [OF l v(1), of "v1\<lparr>lx_pib := pib, tib_array := tib # replicate 127 0, p_pid := pid_ctr st + 1,
        p_ip := 0, p_sp := 0, hmte := 0, exec_sync := 0\<rparr>"] m show thesis by simp
qed

text \<open>Structures that agree up to the forward link.\<close>

lemma same_but_next:
  fixes v w :: os2process
  assumes "v\<lparr>p_next := 0\<rparr> = w\<lparr>p_next := 0\<rparr>"
  shows "p_pid v = p_pid w \<and> proc_ok v = proc_ok w"
  using assms by (cases v; cases w) (simp add: proc_ok_def)

lemma pid_num_Suc: "p + 2 \<noteq> 0 \<Longrightarrow> pid_num (p + 1) = Suc (pid_num p)"
  using unatSuc [of "p + 1"] by (simp add: pid_num_def add.commute add.left_commute)

lemma PrcCreate_inv:
  assumes "prc_inv st ps" and "pmallocs st = (c, raw) # as" and "c \<noteq> 0" and "pheap st c = None"
    and "length (tid_array raw) = MAX_TID" and "pid_ctr st + 2 \<noteq> 0"
    and "PrcCreate host ppid pPrg pArg pEnv st = Some (r, st')"
  shows "r = c \<and> prc_inv st' (ps @ [c]) \<and> pid_ctr st' = pid_ctr st + 1 \<and> pmallocs st' = as
    \<and> dom (pheap st') = insert c (dom (pheap st)) \<and> p_pid (the (pheap st' c)) = pid_ctr st + 1
    \<and> (\<forall>x \<in> set ps. (the (pheap st' x))\<lparr>p_next := 0\<rparr> = (the (pheap st x))\<lparr>p_next := 0\<rparr>)"
proof -
  obtain root h v v' where p: "link_proc c raw st = Some (root, h)" "h c = Some v" "r = c"
    "pheap st' = h(c \<mapsto> v')" "proc_root st' = root" "pid_ctr st' = pid_ctr st + 1" "pmallocs st' = as"
    "p_next v' = p_next v" "p_prev v' = p_prev v" "p_pid v' = pid_ctr st + 1" "length (tib_array v') = MAX_TID"
    "tid_array v' = tid_array v"
    using PrcCreate_heap [OF assms(7,2,3)] .
  have pl: "prc_list st ps" using assms(1) by (rule prc_inv_list)
  have l: "root = hd (ps @ [c])" "tid_array v = tid_array raw"
    "path p_next h (hd (ps @ [c])) (ps @ [c])" "backs p_prev h 0 (ps @ [c])"
    "\<forall>x. x \<noteq> c \<longrightarrow> map_option (\<lambda>w. w\<lparr>p_next := 0\<rparr>) (h x) = map_option (\<lambda>w. w\<lparr>p_next := 0\<rparr>) (pheap st x)"
    using link_proc_list [OF pl assms(3,4), of raw] p(1,2) by auto
  have c: "c \<notin> set ps" using prc_list_mem [OF pl] assms(4) by fastforce
  have "prc_list st' (ps @ [c])"
    using l(3,4) p pl c path_cong [of "ps @ [c]" p_next "pheap st'" h] backs_cong [of "ps @ [c]" p_prev "pheap st'" h]
    by (simp add: prc_list_def l(1))
  moreover have old: "(the (pheap st' x))\<lparr>p_next := 0\<rparr> = (the (pheap st x))\<lparr>p_next := 0\<rparr>" if xp: "x \<in> set ps" for x
  proof -
    obtain w where "pheap st x = Some w" "x \<noteq> c" using prc_list_mem [OF pl xp] c xp by auto
    then show ?thesis using l(5) [rule_format, of x] p(4) by auto
  qed
  then have num: "proc_num st' x = proc_num st x" "proc_ok (the (pheap st' x)) = proc_ok (the (pheap st x))"
    if "x \<in> set ps" for x
    using same_but_next [OF old [OF that]] by (simp_all add: proc_num_def)
  have "proc_num st' c = Suc (pid_num (pid_ctr st))" "proc_ok (the (pheap st' c))"
    using p(4,10-12) l(2) assms(5) pid_num_Suc [OF assms(6)] by (simp_all add: proc_num_def proc_ok_def)
  moreover have mn: "map (proc_num st') ps = map (proc_num st) ps" using num(1) by (intro map_cong) simp_all
  have "sorted_wrt (<) (map (proc_num st') ps)" unfolding mn using assms(1) by (simp add: prc_inv_def)
  ultimately have "prc_inv st' (ps @ [c])"
    using assms(1) num pid_num_Suc [OF assms(6)] p(6) unfolding prc_inv_def by (auto simp: sorted_wrt_append le_Suc_eq)
  moreover have "dom (pheap st') = insert c (dom (pheap st))"
  proof -
    have "x \<in> dom h \<longleftrightarrow> x \<in> dom (pheap st)" if "x \<noteq> c" for x
      using l(5) that by (metis domIff map_option_is_None)
    then show ?thesis using p(4) by auto
  qed
  ultimately show ?thesis using p old by simp
qed

section \<open>Destruction\<close>

lemma PrcDestroy_heap:
  assumes "PrcDestroy host p st = Some st'" and "pheap st p = Some v"
  obtains h m where "unlink_rec p_next p_prev (\<lambda>x v. v\<lparr>p_next := x\<rparr>) (\<lambda>x v. v\<lparr>p_prev := x\<rparr>) p v (pheap st) = Some h"
    "st' = st\<lparr>pheap := h, psp := m\<rparr>"
  using assms that by (auto simp: PrcDestroy_def proc_at_def bind_eq_Some_conv Let_def split: if_splits)

lemma PrcDestroy_inv:
  assumes "prc_inv st (xs @ a # p # ys)"
  obtains st' where "PrcDestroy host p st = Some st'" "prc_inv st' (xs @ a # ys)" "pid_ctr st' = pid_ctr st"
    "pmallocs st' = pmallocs st" "dom (pheap st') = dom (pheap st) - {p}" "proc_root st' = proc_root st"
proof -
  let ?u = "unlink_rec p_next p_prev (\<lambda>x v. v\<lparr>p_next := x\<rparr>) (\<lambda>x v. v\<lparr>p_prev := x\<rparr>) p"
  have pl: "prc_list st (xs @ a # p # ys)" using assms by (rule prc_inv_list)
  obtain v where v: "pheap st p = Some v" "p \<noteq> 0" using prc_list_mem [OF pl, of p] by auto
  obtain h where h: "?u v (pheap st) = Some h" "path p_next h (proc_root st) (xs @ a # ys)" "backs p_prev h 0 (xs @ a # ys)"
    "dom h = dom (pheap st) - {p}"
    using prc.unlink_list [of "pheap st" "proc_root st" xs a p ys v] pl v by (auto simp: prc_list_def)
  define st' where "st' = st\<lparr>pheap := h, psp := fold (free_mem host) (filter (\<lambda>t. t \<noteq> 0) (tib_array v)) (free_mem host (lx_pib v) (psp st))\<rparr>"
  have run: "PrcDestroy host p st = Some st'" using h(1) v by (simp add: PrcDestroy_def proc_at_def st'_def Let_def)
  have d: "distinct (xs @ a # p # ys)" using pl by (simp add: prc_list_def)
  have f: "map_option f (h x) = map_option f (pheap st x)"
    if "x \<noteq> p" "\<And>y v. f (v\<lparr>p_next := y\<rparr>) = f v" "\<And>y v. f (v\<lparr>p_prev := y\<rparr>) = f v" for x and f :: "os2process \<Rightarrow> 'z"
    using prc.unlink_frame [OF h(1), of f x] that by blast
  have num: "proc_num st' x = proc_num st x" "proc_ok (the (h x)) = proc_ok (the (pheap st x))" if xm: "x \<in> set (xs @ a # ys)" for x
  proof -
    obtain w where w: "pheap st x = Some w" "x \<noteq> p" using prc_list_mem [OF pl, of x] xm d by auto
    show "proc_num st' x = proc_num st x" using f [of x p_pid] w by (auto simp: proc_num_def st'_def)
    show "proc_ok (the (h x)) = proc_ok (the (pheap st x))" using f [of x proc_ok] w by (auto simp: proc_ok_def)
  qed
  have mn: "map (proc_num st') (xs @ a # ys) = map (proc_num st) (xs @ a # ys)" by (rule map_cong) (use num in simp_all)
  have "sorted_wrt (<) (map (proc_num st) (xs @ a # ys))" using assms by (auto simp: prc_inv_def sorted_wrt_append)
  then have "prc_inv st' (xs @ a # ys)"
    unfolding prc_inv_def mn using assms num h d by (auto simp: prc_inv_def prc_list_def st'_def)
  with that [OF run] h(4) show thesis by (simp add: st'_def)
qed

text \<open>Destroying the first process of the table leaves \<open>proc_root\<close> at the freed structure: from then on every
  lookup of a process, and with it nearly every call to the server, reads freed memory.\<close>

theorem destroy_first_dangles:
  assumes "prc_list st (p # ps)"
  shows "\<exists>st'. PrcDestroy host p st = Some st' \<and> (\<forall>pid. PrcGetProc pid st' = None) \<and> (\<forall>t. PrcGetProcNative host t st' = None)"
proof -
  obtain v where v: "pheap st p = Some v" "p \<noteq> 0" "proc_root st = p" "p_prev v = 0"
    using assms by (auto simp: prc_list_def)
  have "p_next v = (if ps = [] then 0 else hd ps)"
    using prc.links_at(1) [of "pheap st" p "[]" p ps v] assms v by (simp add: prc_list_def)
  then obtain h where h: "unlink_rec p_next p_prev (\<lambda>x v. v\<lparr>p_next := x\<rparr>) (\<lambda>x v. v\<lparr>p_prev := x\<rparr>) p v (pheap st) = Some h"
    using v prc_list_mem [OF assms, of "hd ps"] by (cases ps) (auto simp: unlink_rec_def)
  then have "h p = None" by (auto simp: unlink_rec_def bind_eq_Some_conv)
  with h v show ?thesis
    by (auto simp: PrcDestroy_def proc_at_def Let_def PrcGetProc_def PrcGetProcNative_def search_from.simps)
qed

end
