(* ===== verification/CurDir.thy ===== *)
theory CurDir
  imports OsPrelude
begin

text \<open>
  The current directory of a process: \<open>cdir\<close> and the loop of \<open>CPSetCurrentDir\<close>
  (\<^verbatim>\<open>server/os2srv/api/api.c\<close>), on the 256 characters that hold it. The directory is kept without drive and
  without leading backslash; the specification is a list of components. The file server has the same code for
  another buffer, so the sizes of the buffer and of the array for one component are arguments.
\<close>

section \<open>Operations\<close>

abbreviation (input) DIRSIZE :: nat where "DIRSIZE \<equiv> 256"

text \<open>The backward loop of \<open>cdir\<close>: the position at which the string is cut.\<close>

fun last_bsl :: "string \<Rightarrow> nat \<Rightarrow> nat" where
  "last_bsl dir 0 = 0"
| "last_bsl dir (Suc p) = (if cs_at dir (Suc p) = BSL then Suc p else last_bsl dir p)"

text \<open>No value: the result does not fit into the array.\<close>

definition fits :: "nat \<Rightarrow> string \<Rightarrow> string option" where
  "fits cap s = (if length s < cap then Some s else None)"

definition cdir :: "nat \<Rightarrow> string \<Rightarrow> string \<Rightarrow> string option" where
  "cdir cap dir component =
     (if component = ''..'' then Some (if dir \<noteq> [] then take (last_bsl dir (length dir)) dir else dir)
      else if component = ''.'' then Some dir
      else if cs_at component 0 \<noteq> BSL then fits cap ((if dir \<noteq> [] then dir @ [BSL] else dir) @ component)
      else fits cap component)"

text \<open>
  The loop over the components of the name; each is copied to an array of \<open>n\<close> characters before it is used.
\<close>

function set_loop :: "nat \<Rightarrow> nat \<Rightarrow> string \<Rightarrow> string \<Rightarrow> string option" where
  "set_loop cap n dir q =
     (let str = takeWhile (\<lambda>c. c \<noteq> BSL) q in do {
        str \<leftarrow> fits n str;
        dir \<leftarrow> cdir cap dir str;
        if BSL \<in> set q then set_loop cap n dir (drop (length str + 1) q) else Some dir })"
  by auto
termination
proof (relation "measure (\<lambda>(cap, n, dir, q). length q)", goal_cases)
  case (2 cap n dir q x x' y)
  then have "q \<noteq> []" by auto
  then show ?case by simp
qed simp

declare set_loop.simps [simp del]

text \<open>The current directory after \<open>CPSetCurrentDir\<close> on a name, which may be null.\<close>

definition fold_slash :: "string \<Rightarrow> string" where
  "fold_slash s = map (\<lambda>c. if c = CHR ''/'' then BSL else c) s"

definition new_dir :: "string \<Rightarrow> string option \<Rightarrow> string option" where
  "new_dir dir pszDir =
     (case pszDir of
        None \<Rightarrow> Some []
      | Some s \<Rightarrow> let s = fold_slash s in if s = [BSL] then Some [] else set_loop DIRSIZE DIRSIZE dir s)"

section \<open>Directories as lists of components\<close>

fun join :: "string list \<Rightarrow> string" where
  "join [] = []"
| "join [c] = c"
| "join (c # d # cs) = c @ BSL # join (d # cs)"

definition comp_ok :: "string \<Rightarrow> bool" where
  "comp_ok c \<longleftrightarrow> c \<noteq> [] \<and> BSL \<notin> set c"

definition dir_step :: "string list \<Rightarrow> string \<Rightarrow> string list" where
  "dir_step cs c = (if c = ''..'' then butlast cs else if c = ''.'' then cs else cs @ [c])"

lemma join_snoc: "join (cs @ [c]) = (if cs = [] then c else join cs @ BSL # c)"
  by (induction cs rule: join.induct) auto

lemma join_append: "join (cs @ ds) = (if cs = [] then join ds else if ds = [] then join cs else join cs @ BSL # join ds)"
proof (induction ds arbitrary: cs)
  case (Cons d ds)
  then show ?case using Cons.IH [of "cs @ [d]"] Cons.IH [of "[d]"] by (auto simp: join_snoc)
qed simp

lemma join_Nil_iff: "list_all comp_ok cs \<Longrightarrow> join cs = [] \<longleftrightarrow> cs = []"
  by (induction cs rule: join.induct) (auto simp: comp_ok_def)

lemma cs_at_not_BSL: "BSL \<notin> set c \<Longrightarrow> cs_at c i \<noteq> BSL"
proof (cases "i < length c")
  case True
  assume "BSL \<notin> set c"
  moreover have "c ! i \<in> set c" using True by (rule nth_mem)
  ultimately show ?thesis using True by (metis cs_at_less)
qed (simp add: cs_at_def)

lemma cs_at_append: "cs_at (a @ b) (length a + i) = cs_at b i"
  by (simp add: cs_at_def nth_append)

lemma last_bsl_flat: "BSL \<notin> set c \<Longrightarrow> last_bsl c i = 0"
  by (induction i) (simp_all add: cs_at_not_BSL)

lemma last_bsl_found: "BSL \<notin> set c \<Longrightarrow> last_bsl (a @ BSL # c) (length a + i) = length a"
proof (induction i)
  case 0
  show ?case
  proof (cases "length a")
    case (Suc n)
    then show ?thesis using cs_at_append [of a "BSL # c" 0] by simp
  qed simp
next
  case (Suc i)
  have "cs_at (a @ BSL # c) (Suc (length a + i)) = cs_at c i"
    using cs_at_append [of a "BSL # c" "Suc i"] by (simp add: cs_at_def)
  with Suc show ?case by (simp add: cs_at_not_BSL)
qed

text \<open>One component: \<open>cdir\<close> implements the step on lists, as long as the array has room.\<close>

lemma cdir_step:
  assumes "list_all comp_ok cs" and "comp_ok c" and "length (join (dir_step cs c)) < cap"
  shows "cdir cap (join cs) c = Some (join (dir_step cs c)) \<and> list_all comp_ok (dir_step cs c)"
proof (cases "c = ''..''")
  case True
  have "take (last_bsl (join cs) (length (join cs))) (join cs) = join (butlast cs)"
  proof (cases cs rule: rev_cases)
    case (snoc bs b)
    then have "BSL \<notin> set b" using assms(1) by (simp add: comp_ok_def)
    with snoc show ?thesis
      using last_bsl_found [of b "join bs" "Suc (length b)"] by (simp add: join_snoc last_bsl_flat)
  qed simp
  moreover have "list_all comp_ok (butlast cs)" using assms(1) by (auto simp: list_all_iff dest: in_set_butlastD)
  ultimately show ?thesis using True assms(1) by (auto simp: cdir_def dir_step_def join_Nil_iff)
next
  case False
  have "cs_at c 0 \<noteq> BSL" using assms(2) cs_at_not_BSL [of c 0] by (auto simp: comp_ok_def)
  with False assms show ?thesis
    by (cases "c = ''.''") (auto simp: cdir_def dir_step_def join_snoc join_Nil_iff fits_def)
qed

text \<open>The whole name.\<close>

lemma join_first:
  "BSL \<notin> set c \<Longrightarrow> takeWhile (\<lambda>x. x \<noteq> BSL) (join (c # ds)) = c"
  by (cases ds) (auto simp: takeWhile_append takeWhile_eq_all_conv)

lemma set_loop_steps:
  assumes "list_all comp_ok cs" and "list_all comp_ok ds" and "ds \<noteq> []"
    and "length (join cs) + length (join ds) + 1 < cap" and "length (join ds) < n"
  shows "set_loop cap n (join cs) (join ds) = Some (join (foldl dir_step cs ds))"
  using assms
proof (induction ds arbitrary: cs)
  case (Cons c ds)
  let ?cs = "dir_step cs c"
  have c: "comp_ok c" "BSL \<notin> set c" using Cons.prems(2) by (simp_all add: comp_ok_def)
  have len: "length (join ?cs) \<le> length (join cs) + 1 + length c"
  proof -
    have "length (join (butlast cs)) \<le> length (join cs)" by (cases cs rule: rev_cases) (auto simp: join_snoc)
    then show ?thesis by (auto simp: dir_step_def join_snoc)
  qed
  have jl: "length (join (c # ds)) = length c + (if ds = [] then 0 else length (join ds) + 1)" by (cases ds) auto
  have tw: "takeWhile (\<lambda>x. x \<noteq> BSL) (join (c # ds)) = c" using c(2) by (rule join_first)
  have step: "fits n c = Some c" "cdir cap (join cs) c = Some (join ?cs)" "list_all comp_ok ?cs"
    using cdir_step [OF Cons.prems(1) c(1)] len jl Cons.prems(4,5) by (auto simp: fits_def split: if_splits)
  show ?case
  proof (cases "ds = []")
    case True
    then show ?thesis using step c(2) tw by (subst set_loop.simps, unfold Let_def tw) simp
  next
    case False
    then have j: "join (c # ds) = c @ BSL # join ds" by (cases ds) auto
    have "length (join ?cs) + length (join ds) + 1 < cap" "length (join ds) < n" using len jl Cons.prems(4,5) False by simp_all
    then have "set_loop cap n (join ?cs) (join ds) = Some (join (foldl dir_step ?cs ds))"
      using Cons.prems(2) False step(3) by (intro Cons.IH) simp_all
    with step tw j show ?thesis by (subst set_loop.simps) (simp add: Let_def)
  qed
qed simp

end
