(* ===== verification/ProcApi.thy ===== *)
theory ProcApi
  imports ProcMgr CurDir
begin

text \<open>
  Calls of applications to the OS/2 server (\<^verbatim>\<open>server/os2srv/api/api.c\<close>, and the two start-up notifications of
  \<^verbatim>\<open>server/os2srv/processmgr.c\<close>): process exit, information blocks, current disk and directory, thread and
  process numbers. A call finds the process of the calling thread first; a call that uses a null pointer or
  leaves an array has no value.
\<close>

section \<open>Operations\<close>

record api_host = prc_host +
  SemaphoreUp :: "int \<Rightarrow> int"
  sysinit_id :: "64 word"

abbreviation (input) ERROR_INVALID_DRIVE :: u32 where "ERROR_INVALID_DRIVE \<equiv> 15"
abbreviation (input) ERROR_CPLIST_TOO_SMALL :: u32 where "ERROR_CPLIST_TOO_SMALL \<equiv> 473"

text \<open>The process of a thread; the null pointer is not followed.\<close>

definition caller :: "'h prc_host_scheme \<Rightarrow> 64 word \<Rightarrow> prc_state \<Rightarrow> (u32 \<times> os2process) option" where
  "caller host thread st = do { p \<leftarrow> PrcGetProcNative host thread st; v \<leftarrow> proc_at st p; Some (p, v) }"

definition put_proc :: "u32 \<Rightarrow> os2process \<Rightarrow> prc_state \<Rightarrow> prc_state" where
  "put_proc p v st = st\<lparr>pheap := (pheap st)(p \<mapsto> v)\<rparr>"

definition CPExit :: "'h api_host_scheme \<Rightarrow> 64 word \<Rightarrow> u32 \<Rightarrow> prc_state \<Rightarrow> (u32 \<times> prc_state) option" where
  "CPExit host thread result st = do {
     (p, v) \<leftarrow> caller host thread st;
     ppid \<leftarrow> ld32 (psp st) (lx_pib v + pib_ulppid);
     q \<leftarrow> PrcGetProc ppid st;
     if q = 0 then Some (ERROR_FILE_NOT_FOUND, st)
     else do {
       w \<leftarrow> proc_at st q;
       let w = w\<lparr>term_code := result\<rparr>;
       let w = (if exec_sync w \<noteq> 0 \<and> (ppid \<noteq> 0 \<or> ThreadEqual host (p_task w) (sysinit_id host))
                then w\<lparr>term_sem := SemaphoreUp host (term_sem w)\<rparr> else w);
       st \<leftarrow> PrcDestroy host p (put_proc q w st);
       Some (NO_ERROR, st) } }"

text \<open>
  The blocks are handed out with pointers relative to their start. The results of the region manager and of
  sharing are stored in an unsigned variable, so the tests for negative values never hold.
\<close>

definition CPGetPIB :: "'h prc_host_scheme \<Rightarrow> 64 word \<Rightarrow> prc_state \<Rightarrow> (u32 \<times> prc_state) option" where
  "CPGetPIB host thread st = do {
     (p, v) \<leftarrow> caller host thread st;
     let base = lx_pib v;
     c \<leftarrow> ld32 (psp st) (base + pib_pchcmd);
     m \<leftarrow> st32 (psp st) (base + pib_pchcmd) (c - base);
     e \<leftarrow> ld32 m (base + pib_pchenv);
     m \<leftarrow> st32 m (base + pib_pchenv) (e - base);
     Some (NO_ERROR, st\<lparr>psp := m\<rparr>) }"

definition CPGetTIB :: "'h prc_host_scheme \<Rightarrow> 64 word \<Rightarrow> prc_state \<Rightarrow> (u32 \<times> prc_state) option" where
  "CPGetTIB host thread st = do {
     (p, v) \<leftarrow> caller host thread st;
     tid \<leftarrow> PrcGetTIDNative host thread st;
     i \<leftarrow> slot_of tid;
     let base = tib_array v ! i;
     t \<leftarrow> ld32 (psp st) (base + tib_ptib2);
     m \<leftarrow> st32 (psp st) (base + tib_ptib2) (t - base);
     Some (NO_ERROR, st\<lparr>psp := m\<rparr>) }"

text \<open>The bit of a drive in a drive map; shifts by 32 and more are undefined.\<close>

definition drive_bit :: "u32 \<Rightarrow> u32 option" where
  "drive_bit disk = (if disk - 1 < 32 then Some (push_bit (unat (disk - 1)) 1) else None)"

text \<open>\<open>curdisk\<close> is a signed character.\<close>

definition CPQueryCurrentDisk :: "'h prc_host_scheme \<Rightarrow> 64 word \<Rightarrow> prc_state \<Rightarrow> (u32 \<times> u32) option" where
  "CPQueryCurrentDisk host thread st = do { (p, v) \<leftarrow> caller host thread st; Some (NO_ERROR, scast (curdisk v)) }"

definition CPSetDefaultDisk :: "'h prc_host_scheme \<Rightarrow> 64 word \<Rightarrow> u32 \<Rightarrow> u32 \<Rightarrow> prc_state \<Rightarrow> (u32 \<times> prc_state) option" where
  "CPSetDefaultDisk host thread disknum logical st = do {
     p \<leftarrow> PrcGetProcNative host thread st;
     b \<leftarrow> drive_bit disknum;
     if b AND logical = 0 then Some (ERROR_INVALID_DRIVE, st)
     else do { v \<leftarrow> proc_at st p; Some (NO_ERROR, put_proc p (v\<lparr>curdisk := ucast disknum\<rparr>) st) } }"

definition CPSetCurrentDir :: "'h prc_host_scheme \<Rightarrow> 64 word \<Rightarrow> string option \<Rightarrow> prc_state \<Rightarrow> (u32 \<times> prc_state) option" where
  "CPSetCurrentDir host thread pszDir st = do {
     p \<leftarrow> PrcGetProcNative host thread st;
     if p = 0 then Some (ERROR_INVALID_PROCID, st)
     else do {
       v \<leftarrow> proc_at st p;
       d \<leftarrow> new_dir (curdir v) pszDir;
       Some (NO_ERROR, put_proc p (v\<lparr>curdir := d\<rparr>) st) } }"

text \<open>
  The buffer pointers are null or not (\<open>ptrs\<close>), \<open>cb\<close> is the size given; the string stored to the buffer and
  the size returned. A size of 0 is not a limit.
\<close>

definition CPQueryCurrentDir ::
    "'h prc_host_scheme \<Rightarrow> 64 word \<Rightarrow> u32 \<Rightarrow> u32 \<Rightarrow> bool \<Rightarrow> u32 \<Rightarrow> prc_state \<Rightarrow> (u32 \<times> (string \<times> u32) option) option" where
  "CPQueryCurrentDir host thread disknum logical ptrs cb st =
     (if \<not> ptrs then Some (ERROR_INVALID_PARAMETER, None)
      else do {
        (p, v) \<leftarrow> caller host thread st;
        b \<leftarrow> drive_bit (if disknum = 0 then scast (curdisk v) else disknum);
        if b AND logical = 0 then Some (ERROR_INVALID_DRIVE, None)
        else if cb \<noteq> 0 \<and> unat cb < length (curdir v) + 1 then Some (ERROR_BUFFER_OVERFLOW, None)
        else Some (NO_ERROR, Some (curdir v, of_nat (length (curdir v) + 1))) })"

text \<open>The code pages and the size returned; an empty list of lead bytes.\<close>

definition CPQueryCp :: "u32 \<Rightarrow> u32 \<times> (u32 list \<times> u32) option" where
  "CPQueryCp cb = (if cb < 12 then (ERROR_CPLIST_TOO_SMALL, None) else (NO_ERROR, Some ([437, 437, 850], 12)))"

definition CPQueryDBCSEnv :: "u32 option \<Rightarrow> u32 \<times> u8 list" where
  "CPQueryDBCSEnv cb = (NO_ERROR, case cb of None \<Rightarrow> [] | Some n \<Rightarrow> replicate (unat n) 0)"

definition CPGetTID :: "'h prc_host_scheme \<Rightarrow> 64 word \<Rightarrow> prc_state \<Rightarrow> (u32 \<times> u32) option" where
  "CPGetTID host thread st = do { t \<leftarrow> PrcGetTIDNative host thread st; Some (NO_ERROR, t) }"

definition CPGetPID :: "'h prc_host_scheme \<Rightarrow> 64 word \<Rightarrow> prc_state \<Rightarrow> (u32 \<times> u32) option" where
  "CPGetPID host thread st = do { (p, v) \<leftarrow> caller host thread st; Some (NO_ERROR, p_pid v) }"

definition CPGetNativeID :: "u32 \<Rightarrow> u32 \<Rightarrow> prc_state \<Rightarrow> (u32 \<times> 64 word) option" where
  "CPGetNativeID pid tid st = do { t \<leftarrow> PrcGetNativeID pid tid st; Some (NO_ERROR, t) }"

definition CPGetTIDNative :: "'h prc_host_scheme \<Rightarrow> 64 word \<Rightarrow> prc_state \<Rightarrow> (u32 \<times> u32) option" where
  "CPGetTIDNative host thread st = do { t \<leftarrow> PrcGetTIDNative host thread st; Some (NO_ERROR, t) }"

definition CPNewTIB :: "'h prc_host_scheme \<Rightarrow> u32 \<Rightarrow> u32 \<Rightarrow> 64 word \<Rightarrow> prc_state \<Rightarrow> (u32 \<times> prc_state) option" where
  "CPNewTIB host pid tid thread st = PrcNewTIB host pid tid thread st"

definition CPDestroyTIB :: "'h prc_host_scheme \<Rightarrow> u32 \<Rightarrow> u32 \<Rightarrow> prc_state \<Rightarrow> (u32 \<times> prc_state) option" where
  "CPDestroyTIB host pid tid st = PrcDestroyTIB host pid tid st"

definition CPError :: "u32 \<Rightarrow> u32" where
  "CPError err = NO_ERROR"

section \<open>Start of an application\<close>

text \<open>\<open>os2exec_module_t\<close>, as far as it is used; \<open>path\<close> is the address of the name.\<close>

record os2exec_module =
  x_ip :: u32
  x_sp :: u32
  x_sp_limit :: u32
  x_hmod :: u32
  x_path :: u32

definition CPAppNotify1 :: "'h api_host_scheme \<Rightarrow> 64 word \<Rightarrow> prc_state \<Rightarrow> prc_state option" where
  "CPAppNotify1 host thread st = do {
     (p, v) \<leftarrow> caller host thread st;
     ppid \<leftarrow> ld32 (psp st) (lx_pib v + pib_ulppid);
     q \<leftarrow> PrcGetProc ppid st;
     w \<leftarrow> proc_at st q;
     Some (put_proc q (w\<lparr>startup_sem := SemaphoreUp host (startup_sem w)\<rparr>) st) }"

text \<open>The process of the application; one that was not started by the server gets a new one.\<close>

definition notified_proc :: "'h prc_host_scheme \<Rightarrow> 64 word \<Rightarrow> u32 \<Rightarrow> prc_state \<Rightarrow> (u32 \<times> prc_state) option" where
  "notified_proc host task pszPath st = do {
     p \<leftarrow> PrcGetProcNative host task st;
     if p \<noteq> 0 then Some (p, st)
     else do {
       (p, st) \<leftarrow> PrcCreate host 0 pszPath (lit_empty host) (lit_empty host) st;
       v \<leftarrow> proc_at st p;
       Some (p, put_proc p (v\<lparr>p_task := task\<rparr>) st) } }"

definition CPAppNotify2 :: "'h prc_host_scheme \<Rightarrow> 64 word \<Rightarrow> os2exec_module \<Rightarrow> prc_state \<Rightarrow> prc_state option" where
  "CPAppNotify2 host task s st = do {
     (p, st) \<leftarrow> notified_proc host task (x_path s) st;
     v \<leftarrow> proc_at st p;
     m \<leftarrow> st32 (psp st) (lx_pib v + pib_hmte) (x_hmod s);
     let tib = tib_array v ! 0;
     m \<leftarrow> st32 m (tib + tib_pstack) (x_sp s);
     m \<leftarrow> st32 m (tib + tib_pstacklimit) (x_sp_limit s);
     tib2 \<leftarrow> ld32 m (tib + tib_ptib2);
     m \<leftarrow> st32 m (tib2 + tib2_ultid) 1;
     let v = v\<lparr>p_ip := x_ip s, p_sp := x_sp s, hmte := x_hmod s,
       tid_array := task # replicate (MAX_TID - 1) (NIL_THREAD host)\<rparr>;
     Some (put_proc p v st\<lparr>psp := m\<rparr>) }"

end
