(* ===== verification/ProcTable.thy ===== *)
theory ProcTable
  imports ProcApi
begin

text \<open>
  What the calls of \<^verbatim>\<open>server/os2srv\<close> keep and promise: the process table stays a list in which numbers are
  unique, a member that a call stores for its own process is what a later query of the process returns, and
  no other process sees it.
\<close>

section \<open>A member of the calling process\<close>

text \<open>
  The contract between the process table and calls that store and query one member of the calling process:
  \<open>lookup\<close> finds the process of a thread, \<open>getf\<close> and \<open>putf\<close> read and write the member.
\<close>

locale caller_field =
  fixes lookup :: "'t \<Rightarrow> 's \<Rightarrow> u32 option" and getf :: "u32 \<Rightarrow> 's \<Rightarrow> 'v option"
    and putf :: "u32 \<Rightarrow> 'v \<Rightarrow> 's \<Rightarrow> 's" and ok :: "'s \<Rightarrow> bool"
  assumes lookup_putf: "ok s \<Longrightarrow> getf p s \<noteq> None \<Longrightarrow> lookup t (putf p x s) = lookup t s"
    and getf_putf: "ok s \<Longrightarrow> getf p s \<noteq> None \<Longrightarrow> getf q (putf p x s) = (if q = p then Some x else getf q s)"
    and ok_putf: "ok s \<Longrightarrow> getf p s \<noteq> None \<Longrightarrow> ok (putf p x s)"
begin

lemma own_value:
  assumes "ok s" and "lookup t s = Some p" and "getf p s = Some y"
  shows "Option.bind (lookup t (putf p x s)) (\<lambda>q. getf q (putf p x s)) = Some x"
  using assms by (simp add: lookup_putf getf_putf)

lemma other_value:
  assumes "ok s" and "getf p s = Some y" and "lookup t s = Some q" and "q \<noteq> p"
  shows "Option.bind (lookup t (putf p x s)) (\<lambda>q. getf q (putf p x s)) = getf q s"
  using assms by (simp add: lookup_putf getf_putf)

end

definition table_ok :: "prc_state \<Rightarrow> bool" where
  "table_ok st \<longleftrightarrow> (\<exists>ps. prc_inv st ps \<and> set ps = dom (pheap st))"

definition dir_of :: "u32 \<Rightarrow> prc_state \<Rightarrow> string option" where
  "dir_of p st = map_option curdir (proc_at st p)"

definition set_dir :: "u32 \<Rightarrow> string \<Rightarrow> prc_state \<Rightarrow> prc_state" where
  "set_dir p d st = put_proc p ((the (pheap st p))\<lparr>curdir := d\<rparr>) st"

definition disk_of :: "u32 \<Rightarrow> prc_state \<Rightarrow> u8 option" where
  "disk_of p st = map_option curdisk (proc_at st p)"

definition set_disk :: "u32 \<Rightarrow> u8 \<Rightarrow> prc_state \<Rightarrow> prc_state" where
  "set_disk p d st = put_proc p ((the (pheap st p))\<lparr>curdisk := d\<rparr>) st"

text \<open>Stores to a process that leave links, number and arrays' sizes alone.\<close>

definition plain_store :: "os2process \<Rightarrow> os2process \<Rightarrow> bool" where
  "plain_store v v' \<longleftrightarrow> p_next v' = p_next v \<and> p_prev v' = p_prev v \<and> p_pid v' = p_pid v \<and> (proc_ok v \<longrightarrow> proc_ok v')"

lemma table_store:
  assumes "table_ok st" and "pheap st p = Some v" and "plain_store v v'"
  shows "table_ok (st\<lparr>pheap := (pheap st)(p \<mapsto> v'), psp := m\<rparr>)"
proof -
  obtain ps where ps: "prc_inv st ps" "set ps = dom (pheap st)" using assms(1) by (auto simp: table_ok_def)
  have "prc_inv (st\<lparr>pheap := (pheap st)(p \<mapsto> v'), psp := m\<rparr>) ps"
    using assms(3) by (intro prc_inv_update [OF ps(1) assms(2)]) (simp_all add: plain_store_def)
  moreover have "set ps = dom ((pheap st)(p \<mapsto> v'))" using ps(2) assms(2) by auto
  ultimately show ?thesis unfolding table_ok_def by (intro exI [of _ ps]) simp
qed

lemma proc_num_mem [simp]: "proc_num (st\<lparr>psp := m\<rparr>) = proc_num st"
  by (simp add: proc_num_def fun_eq_iff)

lemma table_mem: "table_ok st \<Longrightarrow> table_ok (st\<lparr>psp := m\<rparr>)"
  by (simp add: table_ok_def prc_inv_def prc_list_def)

lemma table_put: "table_ok st \<Longrightarrow> pheap st p = Some v \<Longrightarrow> plain_store v v' \<Longrightarrow> table_ok (put_proc p v' st)"
  using table_store [of st p v v' "psp st"] by (simp add: put_proc_def)

lemma native_put:
  assumes "table_ok st" and "pheap st p = Some v" and "plain_store v v'" and "p_task v' = p_task v"
  shows "PrcGetProcNative host t (put_proc p v' st) = PrcGetProcNative host t st"
proof -
  obtain ps where ps: "prc_inv st ps" using assms(1) by (auto simp: table_ok_def)
  have inv: "prc_inv (st\<lparr>pheap := (pheap st)(p \<mapsto> v'), psp := psp st\<rparr>) ps"
    using assms(3) by (intro prc_inv_update [OF ps(1) assms(2)]) (simp_all add: plain_store_def)
  then have l: "prc_list (put_proc p v' st) ps" by (simp add: prc_inv_list put_proc_def)
  have "(\<lambda>a. TaskEqual host (p_task (the (pheap (put_proc p v' st) a))) t) = (\<lambda>a. TaskEqual host (p_task (the (pheap st a))) t)"
    using assms(2,4) by (auto simp: put_proc_def)
  then show ?thesis
    unfolding PrcGetProcNative_def prc_list_search [OF l] prc_list_search [OF prc_inv_list [OF ps]] by simp
qed

interpretation dir: caller_field "PrcGetProcNative host" dir_of set_dir table_ok for host :: "'h prc_host_scheme"
proof (unfold_locales, goal_cases)
  case (1 s p t x)
  then obtain v where v: "pheap s p = Some v" by (auto simp: dir_of_def proc_at_def split: if_splits)
  show ?case
    unfolding set_dir_def by (rule native_put [OF 1(1) v]) (simp_all add: v plain_store_def proc_ok_def)
next
  case (2 s p q x)
  then show ?case by (auto simp: dir_of_def set_dir_def put_proc_def proc_at_def)
next
  case (3 s p x)
  then obtain v where v: "pheap s p = Some v" by (auto simp: dir_of_def proc_at_def split: if_splits)
  show ?case
    unfolding set_dir_def by (rule table_put [OF 3(1) v]) (simp add: v plain_store_def proc_ok_def)
qed

interpretation disk: caller_field "PrcGetProcNative host" disk_of set_disk table_ok for host :: "'h prc_host_scheme"
proof (unfold_locales, goal_cases)
  case (1 s p t x)
  then obtain v where v: "pheap s p = Some v" by (auto simp: disk_of_def proc_at_def split: if_splits)
  show ?case
    unfolding set_disk_def by (rule native_put [OF 1(1) v]) (simp_all add: v plain_store_def proc_ok_def)
next
  case (2 s p q x)
  then show ?case by (auto simp: disk_of_def set_disk_def put_proc_def proc_at_def)
next
  case (3 s p x)
  then obtain v where v: "pheap s p = Some v" by (auto simp: disk_of_def proc_at_def split: if_splits)
  show ?case
    unfolding set_disk_def by (rule table_put [OF 3(1) v]) (simp add: v plain_store_def proc_ok_def)
qed

section \<open>Current directory and current disk\<close>

lemma caller_Some: "caller host t st = Some (p, v) \<longleftrightarrow> PrcGetProcNative host t st = Some p \<and> p \<noteq> 0 \<and> pheap st p = Some v"
  by (auto simp: caller_def proc_at_def bind_eq_Some_conv split: if_splits)

lemma SetCurrentDir_set_dir:
  assumes "caller host t st = Some (p, v)" and "new_dir (curdir v) s = Some d"
  shows "CPSetCurrentDir host t s st = Some (NO_ERROR, set_dir p d st)"
  using assms by (auto simp: CPSetCurrentDir_def caller_Some set_dir_def proc_at_def)

lemma dir_query_other:
  assumes "table_ok st" and "caller host t st = Some (p, v)" and "PrcGetProcNative host t' st = Some q" and "q \<noteq> p"
  shows "CPQueryCurrentDir host t' n l b cb (set_dir p d st) = CPQueryCurrentDir host t' n l b cb st"
proof -
  have v: "pheap st p = Some v" "dir_of p st \<noteq> None" using assms(2) by (auto simp: caller_Some dir_of_def proc_at_def)
  have "PrcGetProcNative host t' (set_dir p d st) = Some q" using dir.lookup_putf [OF assms(1) v(2), where host = host] assms(3) by simp
  then have "caller host t' (set_dir p d st) = caller host t' st"
    using assms(3,4) by (simp add: caller_def proc_at_def set_dir_def put_proc_def)
  then show ?thesis by (simp add: CPQueryCurrentDir_def)
qed

text \<open>C28: A directory name given in relative form is followed component by component: after \<open>CPSetCurrentDir\<close>
  the query of the same process returns the components of the old directory extended by those of the name,
  with \<open>..\<close> removing one and \<open>.\<close> removing none, and the queries of all other processes return what they
  returned before. Slashes count as backslashes.\<close>

theorem current_dir_roundtrip:
  assumes "table_ok st" and "caller host t st = Some (p, v)" and "curdir v = join cs" and "list_all comp_ok cs"
    and "fold_slash s = join ds" and "list_all comp_ok ds" and "ds \<noteq> []" and "length (join cs) + length (join ds) + 1 < DIRSIZE"
    and "drive_bit (scast (curdisk v)) = Some b" and "b AND logical \<noteq> 0"
  shows "\<exists>st'. CPSetCurrentDir host t (Some s) st = Some (NO_ERROR, st') \<and> table_ok st'
    \<and> CPQueryCurrentDir host t 0 logical True 0 st'
        = Some (NO_ERROR, Some (join (foldl dir_step cs ds), of_nat (length (join (foldl dir_step cs ds)) + 1)))
    \<and> (\<forall>t' q n l b cb. PrcGetProcNative host t' st = Some q \<and> q \<noteq> p \<longrightarrow>
        CPQueryCurrentDir host t' n l b cb st' = CPQueryCurrentDir host t' n l b cb st)"
proof -
  let ?d = "join (foldl dir_step cs ds)"
  have "join ds \<noteq> [BSL]" using assms(6,7) by (cases ds rule: join.cases) (auto simp: comp_ok_def append_eq_Cons_conv)
  then have "new_dir (curdir v) (Some s) = Some ?d"
    using set_loop_steps [OF assms(4,6-8), of DIRSIZE] assms(3,5,8) by (simp add: new_dir_def Let_def)
  from SetCurrentDir_set_dir [OF assms(2) this] have run: "CPSetCurrentDir host t (Some s) st = Some (NO_ERROR, set_dir p ?d st)" .
  have v: "pheap st p = Some v" "p \<noteq> 0" "PrcGetProcNative host t st = Some p" "dir_of p st \<noteq> None"
    using assms(2) by (auto simp: caller_Some dir_of_def proc_at_def)
  have "PrcGetProcNative host t (set_dir p ?d st) = Some p" using dir.lookup_putf [OF assms(1) v(4), where host = host] v(3) by simp
  then have "caller host t (set_dir p ?d st) = Some (p, v\<lparr>curdir := ?d\<rparr>)"
    using v by (simp add: caller_Some set_dir_def put_proc_def)
  then have "CPQueryCurrentDir host t 0 logical True 0 (set_dir p ?d st) = Some (NO_ERROR, Some (?d, of_nat (length ?d + 1)))"
    using assms(9,10) by (simp add: CPQueryCurrentDir_def)
  moreover have "table_ok (set_dir p ?d st)" by (rule dir.ok_putf [OF assms(1) v(4)])
  ultimately show ?thesis using run dir_query_other [OF assms(1,2)] by blast
qed

text \<open>A name that starts with a backslash is not taken as a name from the root directory: unless the current
  directory is the root, it is appended to the current directory, with two backslashes between them.\<close>

theorem absolute_dir_appended:
  assumes "comp_ok c" and "fold_slash c = c" and "c \<noteq> ''.''" and "c \<noteq> ''..''" and "d \<noteq> []" and "length d + length c + 2 < DIRSIZE"
  shows "new_dir d (Some (BSL # c)) = Some (d @ BSL # BSL # c) \<and> new_dir [] (Some (BSL # c)) = Some c"
proof -
  have c: "c \<noteq> []" "BSL \<notin> set c" "cs_at c 0 \<noteq> BSL" "takeWhile (\<lambda>x. x \<noteq> BSL) c = c"
    using assms(1) cs_at_not_BSL [of c 0] by (auto simp: comp_ok_def takeWhile_eq_all_conv)
  have "fold_slash (BSL # c) = BSL # c" using assms(2) by (simp add: fold_slash_def)
  moreover have "set_loop DIRSIZE DIRSIZE (d @ [BSL]) c = Some (d @ BSL # BSL # c)"
    using c(1-3) assms(3-6) by (subst set_loop.simps, unfold Let_def c(4)) (simp add: fits_def cdir_def)
  moreover have "set_loop DIRSIZE DIRSIZE [] c = Some c"
    using c(1-3) assms(3-6) by (subst set_loop.simps, unfold Let_def c(4)) (simp add: fits_def cdir_def)
  moreover have "cs_at [] 0 \<noteq> BSL" by (simp add: cs_at_def)
  ultimately show ?thesis
    using c assms(5,6) set_loop.simps [of DIRSIZE DIRSIZE d "BSL # c"] set_loop.simps [of DIRSIZE DIRSIZE "[]" "BSL # c"]
    by (simp add: new_dir_def Let_def fits_def cdir_def)
qed

theorem absolute_dir_appended_witness:
  "new_dir ''OS2'' (Some (BSL # ''TMP'')) = Some (''OS2'' @ BSL # BSL # ''TMP'') \<and> new_dir [] (Some (BSL # ''TMP'')) = Some ''TMP''"
  by (rule absolute_dir_appended) (simp_all add: comp_ok_def fold_slash_def)

section \<open>An example\<close>

definition demo_proc :: "u32 \<Rightarrow> 64 word \<Rightarrow> string \<Rightarrow> u32 \<Rightarrow> u32 \<Rightarrow> os2process" where
  "demo_proc pid task dir nxt prv = \<lparr>hmte = 0, p_pid = pid, exec_sync = 0, startup_sem = 0, term_sem = 0, p_task = task,
     term_code = 0, p_ip = 0, p_sp = 0, lx_pib = 4112, tib_array = replicate 128 0, tid_array = replicate 128 0, curdisk = 3,
     curdir = dir, p_next = nxt, p_prev = prv\<rparr>"

definition demo_table :: prc_state where
  "demo_table = \<lparr>pheap = [16 \<mapsto> demo_proc 0 5 [] 32 0, 32 \<mapsto> demo_proc 1 6 ''OS2'' 0 16], proc_root = 16, pid_ctr = 1,
     pmallocs = [(48, demo_proc 99 0 [] 0 0)], psp = demo_mem\<rparr>"

lemma demo_table_inv: "prc_inv demo_table [16, 32]"
  by (simp add: prc_inv_def prc_list_def demo_table_def demo_proc_def proc_num_def pid_num_def proc_ok_def)

lemma demo_table_ok: "table_ok demo_table"
  unfolding table_ok_def
  by (rule exI [of _ "[16, 32]"], intro conjI, rule demo_table_inv) (auto simp: demo_table_def)

lemma demo_caller: "caller (demo_prc_host 64) 6 demo_table = Some (32, demo_proc 1 6 ''OS2'' 0 16)"
  unfolding caller_Some PrcGetProcNative_def prc_list_search [OF prc_inv_list [OF demo_table_inv]]
  by (simp add: demo_table_def demo_proc_def TaskEqual_def demo_prc_host_def)

theorem destroy_first_dangles_witness:
  "\<exists>st'. PrcDestroy (demo_prc_host 64) 16 demo_table = Some st' \<and> (\<forall>pid. PrcGetProc pid st' = None)
    \<and> (\<forall>t. PrcGetProcNative (demo_prc_host 64) t st' = None)"
  by (rule destroy_first_dangles [OF prc_inv_list [OF demo_table_inv]])

theorem current_dir_roundtrip_witness:
  "\<exists>st'. CPSetCurrentDir (demo_prc_host 64) 6 (Some ''../TMP'') demo_table = Some (NO_ERROR, st') \<and> table_ok st'
    \<and> CPQueryCurrentDir (demo_prc_host 64) 6 0 4 True 0 st'
        = Some (NO_ERROR, Some (join (foldl dir_step [''OS2''] [''..'', ''TMP'']), of_nat (length (join (foldl dir_step [''OS2''] [''..'', ''TMP''])) + 1)))
    \<and> (\<forall>t' q n l b cb. PrcGetProcNative (demo_prc_host 64) t' demo_table = Some q \<and> q \<noteq> 32 \<longrightarrow>
        CPQueryCurrentDir (demo_prc_host 64) t' n l b cb st' = CPQueryCurrentDir (demo_prc_host 64) t' n l b cb demo_table)"
  by (rule current_dir_roundtrip [OF demo_table_ok demo_caller, where b = 4])
    (simp_all add: demo_proc_def comp_ok_def fold_slash_def drive_bit_def)

section \<open>Runs of the server\<close>

text \<open>What \<open>malloc\<close> answers is not in use.\<close>

definition fresh_malloc :: "prc_state \<Rightarrow> bool" where
  "fresh_malloc st \<longleftrightarrow> (case pmallocs st of [] \<Rightarrow> True
     | (c, raw) # _ \<Rightarrow> c \<noteq> 0 \<longrightarrow> pheap st c = None \<and> length (tid_array raw) = MAX_TID)"

text \<open>
  States reached from the start of the server by any sequence of calls, in which \<open>malloc\<close> does not return
  memory in use, numbers do not wrap around, and the first process is not destroyed.
\<close>

inductive prc_reach :: "api_host \<Rightarrow> prc_state \<Rightarrow> bool" for host where
  start: "prc_reach host (prc_state0 as m)"
| create: "prc_reach host st \<Longrightarrow> fresh_malloc st \<Longrightarrow> pid_ctr st + 2 \<noteq> 0
    \<Longrightarrow> PrcCreate host ppid pPrg pArg pEnv st = Some (r, st') \<Longrightarrow> prc_reach host st'"
| set_task: "prc_reach host st \<Longrightarrow> pheap st p = Some v \<Longrightarrow> prc_reach host (put_proc p (v\<lparr>p_task := t\<rparr>) st)"
| destroy: "prc_reach host st \<Longrightarrow> p \<noteq> proc_root st \<Longrightarrow> PrcDestroy host p st = Some st' \<Longrightarrow> prc_reach host st'"
| new_tib: "prc_reach host st \<Longrightarrow> PrcNewTIB host pid tid t st = Some (rc, st') \<Longrightarrow> prc_reach host st'"
| destroy_tib: "prc_reach host st \<Longrightarrow> PrcDestroyTIB host pid tid st = Some (rc, st') \<Longrightarrow> prc_reach host st'"
| notify1: "prc_reach host st \<Longrightarrow> CPAppNotify1 host t st = Some st' \<Longrightarrow> prc_reach host st'"
| notify2: "prc_reach host st \<Longrightarrow> fresh_malloc st \<Longrightarrow> pid_ctr st + 2 \<noteq> 0
    \<Longrightarrow> CPAppNotify2 host t s st = Some st' \<Longrightarrow> prc_reach host st'"
| get_pib: "prc_reach host st \<Longrightarrow> CPGetPIB host t st = Some (rc, st') \<Longrightarrow> prc_reach host st'"
| get_tib: "prc_reach host st \<Longrightarrow> CPGetTIB host t st = Some (rc, st') \<Longrightarrow> prc_reach host st'"
| set_default_disk: "prc_reach host st \<Longrightarrow> CPSetDefaultDisk host t n l st = Some (rc, st') \<Longrightarrow> prc_reach host st'"
| set_current_dir: "prc_reach host st \<Longrightarrow> CPSetCurrentDir host t d st = Some (rc, st') \<Longrightarrow> prc_reach host st'"
| exit: "prc_reach host st \<Longrightarrow> caller host t st = Some (p, v) \<Longrightarrow> p \<noteq> proc_root st
    \<Longrightarrow> CPExit host t result st = Some (rc, st') \<Longrightarrow> prc_reach host st'"

lemma plain_storeI:
  "p_next v' = p_next v \<Longrightarrow> p_prev v' = p_prev v \<Longrightarrow> p_pid v' = p_pid v \<Longrightarrow> length (tib_array v') = length (tib_array v)
   \<Longrightarrow> length (tid_array v') = length (tid_array v) \<Longrightarrow> plain_store v v'"
  by (simp add: plain_store_def proc_ok_def)

lemma table_create:
  assumes "table_ok st" and "fresh_malloc st" and "pid_ctr st + 2 \<noteq> 0" and "PrcCreate host ppid pPrg pArg pEnv st = Some (r, st')"
  shows "table_ok st'"
proof -
  obtain ps where ps: "prc_inv st ps" "set ps = dom (pheap st)" using assms(1) by (auto simp: table_ok_def)
  consider "st' = st\<lparr>pmallocs := tl (pmallocs st)\<rparr>" | c raw as where "pmallocs st = (c, raw) # as" "c \<noteq> 0"
  proof (cases "pmallocs st")
    case Nil
    with assms(4) have "st' = st\<lparr>pmallocs := tl (pmallocs st)\<rparr>" by (simp add: PrcCreate_def)
    then show thesis using that(1) by blast
  next
    case (Cons a as)
    with assms(4) that show thesis by (cases a; cases "fst a = 0") (auto simp: PrcCreate_def)
  qed
  then show ?thesis
  proof cases
    case 1
    have "proc_num st' = proc_num st" using 1 by (simp add: proc_num_def fun_eq_iff)
    with ps 1 have "prc_inv st' ps" by (simp add: prc_inv_def prc_list_def)
    with ps 1 show ?thesis unfolding table_ok_def by (intro exI [of _ ps]) simp
  next
    case 2
    from assms(2) 2 have "pheap st c = None" "length (tid_array raw) = MAX_TID" by (simp_all add: fresh_malloc_def)
    from PrcCreate_inv [OF ps(1) 2 this assms(3,4)] ps(2) show ?thesis
      unfolding table_ok_def by (intro exI [of _ "ps @ [c]"]) auto
  qed
qed

lemma table_destroy:
  assumes "table_ok st" and "p \<noteq> proc_root st" and "PrcDestroy host p st = Some st'"
  shows "table_ok st'"
proof -
  obtain ps where ps: "prc_inv st ps" "set ps = dom (pheap st)" using assms(1) by (auto simp: table_ok_def)
  have "p \<in> set ps" using assms(3) ps(2) by (auto simp: PrcDestroy_def proc_at_def bind_eq_Some_conv split: if_splits)
  then obtain xs ys where s: "ps = xs @ p # ys" by (meson split_list)
  with assms(2) ps(1) obtain zs a where "xs = zs @ [a]"
    by (cases xs rule: rev_cases) (auto simp: prc_inv_def prc_list_def)
  with s have s': "ps = zs @ a # p # ys" by simp
  obtain st2 where st2: "PrcDestroy host p st = Some st2" "prc_inv st2 (zs @ a # ys)" "dom (pheap st2) = dom (pheap st) - {p}"
    using PrcDestroy_inv [OF ps(1) [unfolded s']] by metis
  moreover have "distinct ps" using ps(1) by (simp add: prc_inv_def prc_list_def)
  ultimately show ?thesis
    using assms(3) ps(2) s' unfolding table_ok_def by (intro exI [of _ "zs @ a # ys"]) auto
qed

lemma table_new_tib:
  assumes "table_ok st" and "PrcNewTIB host pid tid t st = Some (rc, st')"
  shows "table_ok st'"
  using assms(2)
  by (auto simp: PrcNewTIB_def proc_at_def bind_eq_Some_conv Let_def
    intro!: table_store [OF assms(1)] plain_storeI split: if_splits)

lemma table_destroy_tib:
  assumes "table_ok st" and "PrcDestroyTIB host pid tid st = Some (rc, st')"
  shows "table_ok st'"
  using assms(2)
  by (auto simp: PrcDestroyTIB_def proc_at_def bind_eq_Some_conv Let_def
    intro!: table_store [OF assms(1)] plain_storeI split: if_splits)

lemma table_notify1:
  assumes "table_ok st" and "CPAppNotify1 host t st = Some st'"
  shows "table_ok st'"
  using assms(2)
  by (auto simp: CPAppNotify1_def proc_at_def bind_eq_Some_conv intro!: table_put [OF assms(1)] plain_storeI split: if_splits)

lemma table_notified:
  assumes "table_ok st" and "fresh_malloc st" and "pid_ctr st + 2 \<noteq> 0" and "notified_proc host t n st = Some (p, st')"
  shows "table_ok st'"
proof -
  from assms(4) consider "st' = st"
    | st2 v where "PrcCreate host 0 n (lit_empty host) (lit_empty host) st = Some (p, st2)" "pheap st2 p = Some v"
      "st' = put_proc p (v\<lparr>p_task := t\<rparr>) st2"
    by (auto simp: notified_proc_def proc_at_def bind_eq_Some_conv split: if_splits)
  then show ?thesis
  proof cases
    case 2
    from table_create [OF assms(1-3) 2(1)] 2 show ?thesis
      by (simp add: table_put [OF _ 2(2)] plain_storeI)
  qed (use assms(1) in simp)
qed

lemma table_notify2:
  assumes "table_ok st" and "fresh_malloc st" and "pid_ctr st + 2 \<noteq> 0" and "CPAppNotify2 host t s st = Some st'"
  shows "table_ok st'"
proof -
  obtain p st2 where n: "notified_proc host t (x_path s) st = Some (p, st2)"
    using assms(4) by (auto simp: CPAppNotify2_def bind_eq_Some_conv)
  have ok: "table_ok st2" by (rule table_notified [OF assms(1-3) n])
  obtain v m where v: "pheap st2 p = Some v" "st' = st2\<lparr>pheap := (pheap st2)(p \<mapsto> v\<lparr>p_ip := x_ip s, p_sp := x_sp s,
      hmte := x_hmod s, tid_array := t # replicate 127 (NIL_THREAD host)\<rparr>), psp := m\<rparr>"
    using assms(4) n by (auto simp: CPAppNotify2_def put_proc_def proc_at_def bind_eq_Some_conv Let_def split: if_splits)
  show ?thesis
    unfolding v(2) by (rule table_store [OF ok v(1)]) (simp add: plain_store_def proc_ok_def)
qed

lemma table_exit:
  assumes "table_ok st" and "caller host t st = Some (p, v)" and "p \<noteq> proc_root st" and "CPExit host t result st = Some (rc, st')"
  shows "table_ok st'"
proof -
  consider "st' = st"
    | q w w' where "pheap st q = Some w" "plain_store w w'" "PrcDestroy host p (put_proc q w' st) = Some st'"
  proof (cases "st' = st")
    case False
    with assms(2,4) obtain q w f where w: "pheap st q = Some w" "PrcDestroy host p (put_proc q (f w) st) = Some st'"
      and f: "f = (\<lambda>w. w\<lparr>term_code := result\<rparr>) \<or> f = (\<lambda>w. w\<lparr>term_code := result, term_sem := SemaphoreUp host (term_sem w)\<rparr>)"
      by (fastforce simp: CPExit_def proc_at_def bind_eq_Some_conv Let_def split: if_splits)
    from f have "plain_store w (f w)" by (auto intro: plain_storeI)
    with w show thesis using that(2) by blast
  qed
  then show ?thesis
  proof cases
    case 2
    then have "table_ok (put_proc q w' st)" using table_put [OF assms(1)] by blast
    moreover have "p \<noteq> proc_root (put_proc q w' st)" using assms(3) by (simp add: put_proc_def)
    ultimately show ?thesis using table_destroy 2(3) by blast
  qed (use assms(1) in simp)
qed

lemma prc_reach_table: "prc_reach host st \<Longrightarrow> table_ok st"
proof (induction rule: prc_reach.induct)
  case (start as m)
  show ?case unfolding table_ok_def by (rule exI [of _ "[]"]) (simp add: prc_inv_def prc_list_def prc_state0_def)
next
  case (set_task st p v t)
  then show ?case by (simp add: table_put plain_storeI)
next
  case (get_pib st t rc st')
  then show ?case by (auto simp: CPGetPIB_def bind_eq_Some_conv Let_def table_mem)
next
  case (get_tib st t rc st')
  then show ?case by (auto simp: CPGetTIB_def bind_eq_Some_conv Let_def table_mem)
next
  case (set_default_disk st t n l rc st')
  then show ?case
    by (auto simp: CPSetDefaultDisk_def proc_at_def bind_eq_Some_conv table_put plain_storeI split: if_splits)
next
  case (set_current_dir st t d rc st')
  then show ?case
    by (auto simp: CPSetCurrentDir_def proc_at_def bind_eq_Some_conv table_put plain_storeI split: if_splits)
qed (auto intro: table_create table_destroy table_new_tib table_destroy_tib table_notify1 table_notify2 table_exit)

end
