(* ===== verification/ProcChild.thy ===== *)
theory ProcChild
  imports ProcTable
begin

text \<open>
  Creation of a child process, from the call with its strings in memory to the entry in the process table and the
  information block of the child, the threads of a process, and what handing out an information block does to
  it.
\<close>

section \<open>Creation of a child\<close>

lemma st32_inside:
  assumes "all_mapped (mp m) (A + of_nat i) 4" and "keeps m0 m" and "\<forall>x \<in> cells (A + of_nat i) 4. \<not> mp m0 x"
    and "pib_layout m A es prg as" and "i + 4 \<le> 12" and "pib_args es prg + length (strlst as) \<le> 2 ^ 32"
  obtains m' where "st32 m (A + of_nat i) v = Some m'" "keeps m0 m'" "pib_layout m' A es prg as" "mp m' = mp m"
    "ld32 m' (A + of_nat i) = Some v"
proof -
  obtain m' where m': "st32 m (A + of_nat i) v = Some m'" using st32_ok [OF assms(1)] by blast
  have "keeps m0 m'"
    by (rule only_keeps [OF assms(2) only_st32 [OF m' order_refl]]) (use assms(3) in blast)
  with that [OF m'] layout_st32 [OF assms(4) m' assms(5,6)] st32_mp [OF m'] ld32_st32 [OF m'] show thesis by blast
qed

text \<open>The memory operations of \<open>PrcCreate\<close>, with the host's answers apart from each other and from old memory.\<close>

definition host_blocks :: "'h prc_host_scheme \<Rightarrow> pmem \<Rightarrow> nat \<Rightarrow> u32 \<Rightarrow> u8 list \<Rightarrow> u32 \<Rightarrow> u8 list \<Rightarrow> bool" where
  "host_blocks host m sz A rawA B rawB \<longleftrightarrow>
     ds_open host (mcalls m) sz = Attached A rawA \<and> length rawA \<le> 2 ^ 32 \<and> (\<forall>x \<in> cells A (length rawA). \<not> mp m x)
     \<and> ds_open host (mcalls m + 1) 48 = Attached B rawB \<and> 48 \<le> length rawB \<and> length rawB \<le> 2 ^ 32
     \<and> (\<forall>x \<in> cells B (length rawB). \<not> mp m x \<and> x \<notin> cells A (length rawA))"

lemma create_blocks:
  assumes "str_list es" and "plain prg" and "str_list as" and "length as = 1 \<or> length as = 2"
    and "env \<noteq> 0" and "bytes_at m env (strlst es)" and "bytes_at m pPrg (prg @ [0])" and "bytes_at m pArg (strlst as)"
    and "host_blocks host m (pib_size es prg as) A rawA B rawB" and "pib_args es prg + length (strlst as) \<le> length rawA"
  obtains m1 m2 m3 m4 m5 where "PrcCreatePIB host pPrg pArg env m = Some (A, m1)" "PrcCreateTIB host m1 = Some (B, m2)"
    "st32 m2 (A + pib_ulpid) pid = Some m3" "st32 m3 (A + pib_ulppid) ppid = Some m4" "st32 m4 (A + pib_hmte) 0 = Some m5"
    "keeps m m5" "pib_layout m5 A es prg as" "ld32 m5 (A + pib_ulpid) = Some pid" "ld32 m5 (A + pib_ulppid) = Some ppid"
proof -
  have hb: "ds_open host (mcalls m) (pib_size es prg as) = Attached A rawA" "length rawA \<le> 2 ^ 32"
    "\<forall>x \<in> cells A (length rawA). \<not> mp m x" "ds_open host (mcalls m + 1) 48 = Attached B rawB" "48 \<le> length rawB"
    "length rawB \<le> 2 ^ 32" "\<forall>x \<in> cells B (length rawB). \<not> mp m x \<and> x \<notin> cells A (length rawA)"
    using assms(9) by (simp_all add: host_blocks_def)
  have room: "sizeof_PIB + envlen es + (length prg + 1) + length (strlst as) \<le> length rawA"
    using assms(10) by (simp add: pib_args_def pib_prg_def)
  obtain m1 where m1: "PrcCreatePIB host pPrg pArg env m = Some (A, m1)" "new_block m m1 A (length rawA)"
    "mcalls m1 = mcalls m + 1" "pib_layout m1 A es prg as"
    using PrcCreatePIB_block [OF assms(1-8) hb(1) room hb(2,3)] .
  have b: "ds_open host (mcalls m1) (sizeof_TIB + sizeof_TIB2) = Attached B rawB" "\<forall>x \<in> cells B (length rawB). \<not> mp m1 x"
    using hb m1(2,3) by (simp_all add: new_block_def)
  obtain m2 where m2: "PrcCreateTIB host m1 = Some (B, m2)" "new_block m1 m2 B (length rawB)"
    using PrcCreateTIB_block [OF b(1) hb(5,6) b(2)] by metis
  have k: "keeps m m1" "keeps m1 m2" using m1(2) m2(2) by (simp_all add: new_block_def)
  have k2: "keeps m m2" "pib_layout m2 A es prg as"
    by (rule keeps_trans [OF k], rule keeps_layout [OF k(2) m1(4)])
  have len: "pib_args es prg + length (strlst as) \<le> 2 ^ 32" using assms(10) hb(2) by linarith
  have part: "\<forall>x \<in> cells (A + of_nat i) 4. \<not> mp m x" "all_mapped (mp m2) (A + of_nat i) 4" if "i + 4 \<le> 12" for i
  proof -
    have "i + 4 \<le> length rawA" using room that by simp
    then have c: "cells (A + of_nat i) 4 \<subseteq> cells A (length rawA)" by (rule cells_sub)
    then show "\<forall>x \<in> cells (A + of_nat i) 4. \<not> mp m x" using hb by blast
    show "all_mapped (mp m2) (A + of_nat i) 4" using c m1(2) m2(2) by (auto simp: new_block_def all_mapped_cells)
  qed
  obtain m3 where m3: "st32 m2 (A + of_nat 0) pid = Some m3" "keeps m m3" "pib_layout m3 A es prg as" "mp m3 = mp m2"
    "ld32 m3 (A + of_nat 0) = Some pid"
    using st32_inside [OF part(2) k2(1) part(1) k2(2) _ len, of 0 pid] by auto
  obtain m4 where m4: "st32 m3 (A + of_nat 4) ppid = Some m4" "keeps m m4" "pib_layout m4 A es prg as" "mp m4 = mp m2"
    "ld32 m4 (A + of_nat 4) = Some ppid"
    using st32_inside [OF _ m3(2) part(1) m3(3) _ len, of 4 ppid] part(2) [of 4] m3(4) by auto
  obtain m5 where m5: "st32 m4 (A + of_nat 8) 0 = Some m5" "keeps m m5" "pib_layout m5 A es prg as" "mp m5 = mp m2"
    using st32_inside [OF _ m4(2) part(1) m4(3) _ len, of 8 0] part(2) [of 8] m4(4) by auto
  have "ld32 m5 (A + of_nat 0) = Some pid" "ld32 m5 (A + of_nat 4) = Some ppid"
    using m3(5) m4(5) st32_ld32_other [OF m4(1), of A] st32_ld32_other [OF m5(1), of "A + of_nat 4"] st32_ld32_other [OF m5(1), of A]
      cells_apart [of 0 4 4 4 A] cells_apart [of 0 4 8 4 A] cells_apart [of 4 4 8 4 A] by (simp_all add: Int_commute)
  with that [OF m1(1) m2(1)] m3(1) m4(1) m5 show thesis by simp
qed

text \<open>The list with a new last element, and the parent found in it.\<close>

lemma create_parent:
  assumes "prc_inv st ps" and "c \<noteq> 0" and "pheap st c = None" and "p \<in> set ps" and "pheap st p = Some w"
  obtains h v w' where "link_proc c raw st = Some (hd (ps @ [c]), h)" "h c = Some v"
    "search_from p_next (\<lambda>v. p_pid v = p_pid w) h (hd (ps @ [c])) = Some p" "h p = Some w'"
    "curdisk w' = curdisk w" "curdir w' = curdir w" "lx_pib w' = lx_pib w" "p \<noteq> 0"
proof -
  note pl = prc_inv_list [OF assms(1)]
  obtain h v where l: "link_proc c raw st = Some (hd (ps @ [c]), h)" "h c = Some v"
    "path p_next h (hd (ps @ [c])) (ps @ [c])"
    "\<forall>x. x \<noteq> c \<longrightarrow> map_option (\<lambda>w. w\<lparr>p_next := 0\<rparr>) (h x) = map_option (\<lambda>w. w\<lparr>p_next := 0\<rparr>) (pheap st x)"
    using link_proc_list [OF pl assms(2,3), of raw] by metis
  have same: "\<exists>u'. h x = Some u' \<and> u'\<lparr>p_next := 0\<rparr> = u\<lparr>p_next := 0\<rparr>" if "pheap st x = Some u" for x u
  proof -
    have "x \<noteq> c" using that assms(3) by auto
    with l(4) [rule_format, of x] that show ?thesis by auto
  qed
  have pid: "p_pid (the (h x)) = p_pid (the (pheap st x))" if x: "x \<in> set ps" for x
  proof -
    obtain u where u: "pheap st x = Some u" using prc_list_mem [OF pl x] by blast
    then obtain u' where "h x = Some u'" "u'\<lparr>p_next := 0\<rparr> = u\<lparr>p_next := 0\<rparr>" using same by blast
    with u same_but_next [of u' u] show ?thesis by simp
  qed
  have "find (\<lambda>a. p_pid (the (h a)) = p_pid w) (ps @ [c]) = Some p"
  proof -
    have "find (\<lambda>a. p_pid (the (h a)) = p_pid w) ps = Some p"
    proof (rule find_unique [OF assms(4)])
      show "\<forall>a \<in> set ps. p_pid (the (h a)) = p_pid w \<longrightarrow> a = p"
        using prc_inv_unique [OF assms(1) _ assms(4)] assms(5) pid by simp
    qed (use assms(4,5) pid in simp)
    then show ?thesis by (induction ps) (auto split: if_splits)
  qed
  then have s: "search_from p_next (\<lambda>v. p_pid v = p_pid w) h (hd (ps @ [c])) = Some p"
    unfolding search_from_path [OF l(3)] by simp
  obtain w' where w': "h p = Some w'" "w'\<lparr>p_next := 0\<rparr> = w\<lparr>p_next := 0\<rparr>" using same [OF assms(5)] by blast
  have "curdisk w' = curdisk w \<and> curdir w' = curdir w \<and> lx_pib w' = lx_pib w"
    using w'(2) by (cases w'; cases w) simp
  with that [OF l(1,2) s w'(1)] prc_list_mem [OF pl assms(4)] show thesis by blast
qed

text \<open>Creation with the environment that \<open>choose_env\<close> picks.\<close>

lemma PrcCreate_child:
  assumes "prc_inv st ps" and "pmallocs st = (c, raw) # mallocs" and "c \<noteq> 0" and "pheap st c = None"
    and "length (tid_array raw) = MAX_TID" and "pid_ctr st + 2 \<noteq> 0" and "pid_ctr st + 1 \<noteq> 0"
    and "p \<in> set ps" and "pheap st p = Some w" and "p_pid w \<noteq> 0"
    and "\<And>h w'. h p = Some w' \<Longrightarrow> lx_pib w' = lx_pib w \<Longrightarrow> choose_env p h (psp st) pEnv = Some env"
    and "env \<noteq> 0" and "bytes_at (psp st) env (strlst es)" and "str_list es"
    and "plain prg" and "bytes_at (psp st) pPrg (prg @ [0])"
    and "str_list as" and "length as = 1 \<or> length as = 2" and "pArg \<noteq> 0" and "bytes_at (psp st) pArg (strlst as)"
    and "host_blocks host (psp st) (pib_size es prg as) A rawA B rawB" and "pib_args es prg + length (strlst as) \<le> length rawA"
  shows "\<exists>st' v. PrcCreate host (p_pid w) pPrg pArg pEnv st = Some (c, st') \<and> prc_inv st' (ps @ [c])
    \<and> pheap st' c = Some v \<and> p_pid v = pid_ctr st + 1 \<and> curdisk v = curdisk w \<and> curdir v = curdir w \<and> lx_pib v = A
    \<and> pib_layout (psp st') A es prg as \<and> ld32 (psp st') (A + pib_ulpid) = Some (p_pid v)
    \<and> ld32 (psp st') (A + pib_ulppid) = Some (p_pid w) \<and> keeps (psp st) (psp st')"
proof -
  obtain h v w' where l: "link_proc c raw st = Some (hd (ps @ [c]), h)" "h c = Some v"
    "search_from p_next (\<lambda>v. p_pid v = p_pid w) h (hd (ps @ [c])) = Some p" "h p = Some w'"
    "curdisk w' = curdisk w" "curdir w' = curdir w" "lx_pib w' = lx_pib w" "p \<noteq> 0"
    using create_parent [OF assms(1,3,4,8,9)] .
  obtain m1 m2 m3 m4 m5 where m: "PrcCreatePIB host pPrg pArg env (psp st) = Some (A, m1)" "PrcCreateTIB host m1 = Some (B, m2)"
    "st32 m2 (A + pib_ulpid) (pid_ctr st + 1) = Some m3" "st32 m3 (A + pib_ulppid) (p_pid w) = Some m4"
    "st32 m4 (A + pib_hmte) 0 = Some m5" "keeps (psp st) m5" "pib_layout m5 A es prg as"
    "ld32 m5 (A + pib_ulpid) = Some (pid_ctr st + 1)" "ld32 m5 (A + pib_ulppid) = Some (p_pid w)"
    using create_blocks [OF assms(14,15,17,18,12,13,16,20-22), of "pid_ctr st + 1" "p_pid w"] .
  have "inherit_dir p (p_pid w) (pid_ctr st + 1) h v = Some (v\<lparr>curdisk := curdisk w, curdir := curdir w\<rparr>)"
    using l assms(7,10) by (simp add: inherit_dir_def)
  moreover have "choose_env p h (psp st) pEnv = Some env" using assms(11) l(4,7) by blast
  ultimately obtain st' v' where st': "PrcCreate host (p_pid w) pPrg pArg pEnv st = Some (c, st')" "pheap st' c = Some v'"
    "curdisk v' = curdisk w" "curdir v' = curdir w" "lx_pib v' = A" "psp st' = m5"
    using assms(2,3,19) l(1-3) m(1-5) by (simp add: PrcCreate_def Let_def)
  have "prc_inv st' (ps @ [c]) \<and> p_pid (the (pheap st' c)) = pid_ctr st + 1"
    using PrcCreate_inv [OF assms(1-6) st'(1)] by blast
  with st' m(6-9) show ?thesis by (intro exI [of _ st'] exI [of _ v']) simp
qed

text \<open>C4: A process created without an environment gets a copy of its parent's: \<open>PrcCreate\<close> returns a new structure with
  the next number, at the end of the table, with disk and directory of the parent, and an information block
  with its own number and the parent's, from which environment, program name and arguments can be read back;
  all memory in use before is unchanged.\<close>

theorem child_created:
  assumes "prc_inv st ps" and "pmallocs st = (c, raw) # mallocs" and "c \<noteq> 0" and "pheap st c = None"
    and "length (tid_array raw) = MAX_TID" and "pid_ctr st + 2 \<noteq> 0" and "pid_ctr st + 1 \<noteq> 0"
    and "p \<in> set ps" and "pheap st p = Some w" and "p_pid w \<noteq> 0"
    and "ld32 (psp st) (lx_pib w + pib_pchenv) = Some env" and "env \<noteq> 0" and "bytes_at (psp st) env (strlst es)" and "str_list es"
    and "plain prg" and "bytes_at (psp st) pPrg (prg @ [0])"
    and "str_list as" and "length as = 1 \<or> length as = 2" and "pArg \<noteq> 0" and "bytes_at (psp st) pArg (strlst as)"
    and "host_blocks host (psp st) (pib_size es prg as) A rawA B rawB" and "pib_args es prg + length (strlst as) \<le> length rawA"
  shows "\<exists>st' v. PrcCreate host (p_pid w) pPrg pArg 0 st = Some (c, st') \<and> prc_inv st' (ps @ [c])
    \<and> pheap st' c = Some v \<and> p_pid v = pid_ctr st + 1 \<and> curdisk v = curdisk w \<and> curdir v = curdir w \<and> lx_pib v = A
    \<and> pib_layout (psp st') A es prg as \<and> ld32 (psp st') (A + pib_ulpid) = Some (p_pid v)
    \<and> ld32 (psp st') (A + pib_ulppid) = Some (p_pid w) \<and> keeps (psp st) (psp st')"
proof (rule PrcCreate_child [OF assms(1-10) _ assms(12-22)])
  show "choose_env p h (psp st) 0 = Some env" if "h p = Some w'" "lx_pib w' = lx_pib w" for h w'
    using that assms(11) prc_list_mem [OF prc_inv_list [OF assms(1)] assms(8)] by (simp add: choose_env_def)
qed

text \<open>The example: a child of the process at 32.\<close>

lemma demo_blocks: "host_blocks (demo_prc_host 64) demo_mem 37 8192 (replicate 64 0) 12288 (replicate 64 0)"
proof -
  have "\<not> mp demo_mem x \<and> x \<notin> cells 8192 64" if xc: "x \<in> cells 12288 64" for x
  proof -
    obtain i where i: "x = 12288 + of_nat i" "i < 64" using xc by (auto simp: cells_def)
    then have "unat (x - 4096) = 8192 + i" "unat (x - 8192) = 4096 + i" by (simp_all add: unat_word_ariths unat_of_nat32)
    then show ?thesis by (simp add: demo_mem_def cells_unat)
  qed
  then show ?thesis using demo_apart [of 64] by (simp add: host_blocks_def demo_prc_host_def demo_mem_def)
qed

theorem child_created_witness:
  "\<exists>st' v. PrcCreate (demo_prc_host 64) 1 4099 4101 0 demo_table = Some (48, st') \<and> prc_inv st' [16, 32, 48]
    \<and> pheap st' 48 = Some v \<and> p_pid v = 2 \<and> curdisk v = 3 \<and> curdir v = ''OS2'' \<and> lx_pib v = 8192
    \<and> pib_layout (psp st') 8192 [[65]] [80] [[112], [120]] \<and> ld32 (psp st') 8192 = Some (p_pid v)
    \<and> ld32 (psp st') 8196 = Some 1 \<and> keeps demo_mem (psp st')"
proof -
  have "ld32 demo_mem 4128 = Some 4096"
    by (simp add: ld32_def all_mapped_4 demo_mem_def mem_rd32_def)
  then show ?thesis
    using child_created [OF demo_table_inv, of 48 "demo_proc 99 0 [] 0 0" "[]" 32 "demo_proc 1 6 ''OS2'' 0 16" 4096 "[[65]]" "[80]" 4099
        "[[112], [120]]" 4101 "demo_prc_host 64" 8192 "replicate 64 0" 12288 "replicate 64 0"] demo_blocks demo_bytes demo_pib_size
    by (simp add: demo_table_def demo_proc_def pib_args_def pib_prg_def envlen_def)
qed

section \<open>Lookups in every run\<close>


definition demo_api_host :: api_host where
  "demo_api_host = \<lparr>ds_open = (\<lambda>k _. Attached (8192 + 4096 * of_nat k) (replicate 64 0)), RegLookupRegion = (\<lambda>_ _. None),
     l4_task = ucast, l4_thread_equal = (=), NIL_THREAD = 0, lit_empty = 4098, SemaphoreUp = (\<lambda>n. n + 1), sysinit_id = 5\<rparr>"

text \<open>The first process, created with the strings of the example.\<close>

lemma demo_first: "\<exists>st' v. prc_reach demo_api_host st' \<and> pheap st' 48 = Some v \<and> p_pid v = 0"
proof -
  let ?st = "prc_state0 [(48, demo_proc 99 0 [] 0 0)] demo_mem"
  have hb: "host_blocks demo_api_host demo_mem 37 8192 (replicate 64 0) 12288 (replicate 64 0)"
    using demo_blocks by (simp add: host_blocks_def demo_prc_host_def demo_api_host_def)
  have "\<exists>m1 m2 m3 m4 m5. PrcCreatePIB demo_api_host 4099 4101 4096 demo_mem = Some (8192, m1)
    \<and> PrcCreateTIB demo_api_host m1 = Some (12288, m2) \<and> st32 m2 8192 0 = Some m3 \<and> st32 m3 8196 0 = Some m4 \<and> st32 m4 8200 0 = Some m5"
  proof (rule create_blocks [of "[[65]]" "[80]" "[[112], [120]]" 4096 demo_mem 4099 4101 demo_api_host 8192 "replicate 64 0" 12288 "replicate 64 0" 0 0],
      goal_cases)
    case (11 m1 m2 m3 m4 m5)
    then show ?case by auto
  qed (use hb demo_bytes demo_pib_size in \<open>simp_all add: pib_args_def pib_prg_def envlen_def\<close>)
  then obtain m1 m2 m3 m4 m5 where m: "PrcCreatePIB demo_api_host 4099 4101 4096 demo_mem = Some (8192, m1)"
    "PrcCreateTIB demo_api_host m1 = Some (12288, m2)" "st32 m2 8192 0 = Some m3" "st32 m3 8196 0 = Some m4" "st32 m4 8200 0 = Some m5"
    by blast
  have "ld8 demo_mem 4096 = Some 65" using demo_bytes(1) by simp
  with m obtain st' v where st': "PrcCreate demo_api_host 0 4099 4101 4096 ?st = Some (48, st')" "pheap st' 48 = Some v" "p_pid v = 0"
    by (simp add: PrcCreate_def link_proc_def prc_state0_def last_from.simps search_from.simps inherit_dir_def choose_env_def
        demo_proc_def Let_def)
  have "prc_reach demo_api_host st'"
    by (rule prc_reach.create [OF prc_reach.start _ _ st'(1)]) (simp_all add: fresh_malloc_def prc_state0_def demo_proc_def)
  with st' show ?thesis by blast
qed


section \<open>Threads\<close>

lemma tid_scan_first:
  assumes "i < length ts" and "ThreadEqual host (ts ! i) t" and "\<forall>j < i. \<not> ThreadEqual host (ts ! j) t"
  shows "tid_scan host t k ts = k + of_nat i + 1"
  using assms
proof (induction ts arbitrary: i k)
  case (Cons a ts)
  show ?case
  proof (cases i)
    case (Suc n)
    then have "\<not> ThreadEqual host a t" using Cons.prems(3) by auto
    with Cons.IH [of n "k + 1"] Cons.prems Suc show ?thesis by (simp add: algebra_simps) force
  qed (use Cons.prems(2) in simp)
qed simp

lemma slot_of_tid: "slot_of tid = Some i \<Longrightarrow> i < MAX_TID \<and> tid = of_nat i + 1"
  by (auto simp: slot_of_def Let_def split: if_splits)

text \<open>A thread that is added to a process is found again: its number gives the thread, the thread gives its number,
  and the number stands in the thread's information block. The other threads of the process keep theirs.\<close>

theorem new_thread_roundtrip:
  assumes "table_ok st" and "caller host t st = Some (p, v)" and "slot_of tid = Some i"
    and "\<forall>x. ThreadEqual host x t \<longleftrightarrow> x = t" and "t \<notin> set (tid_array v)"
    and "ds_open host (mcalls (psp st)) 48 = Attached B raw" and "48 \<le> length raw" and "length raw \<le> 2 ^ 32"
    and "\<forall>x \<in> cells B (length raw). \<not> mp (psp st) x"
  shows "\<exists>st'. PrcNewTIB host (p_pid v) tid t st = Some (0, st') \<and> PrcGetNativeID (p_pid v) tid st' = Some t
    \<and> PrcGetTIDNative host t st' = Some tid \<and> ld32 (psp st') (B + 32) = Some tid \<and> keeps (psp st) (psp st')
    \<and> (\<forall>tid'. tid' \<noteq> tid \<longrightarrow> PrcGetNativeID (p_pid v) tid' st' = PrcGetNativeID (p_pid v) tid' st)"
proof -
  obtain ps where ps: "prc_inv st ps" "set ps = dom (pheap st)" using assms(1) by (auto simp: table_ok_def)
  have v: "pheap st p = Some v" "p \<noteq> 0" "p \<in> set ps" using assms(2) ps(2) by (auto simp: caller_Some)
  have pid: "PrcGetProc (p_pid v) st = Some p" by (rule PrcGetProc_found [OF ps(1) v(3,1)])
  have len: "length (tid_array v) = MAX_TID" "length (tib_array v) = MAX_TID"
    using ps(1) v by (auto simp: prc_inv_def proc_ok_def)
  have i: "i < MAX_TID" "tid = of_nat i + 1" using slot_of_tid [OF assms(3)] by simp_all
  obtain m1 where m1: "PrcCreateTIB host (psp st) = Some (B, m1)" "new_block (psp st) m1 B (length raw)"
    "ld32 m1 (B + tib_ptib2) = Some (B + 32)"
    using PrcCreateTIB_block [OF _ assms(7-9)] assms(6) by auto
  have "32 + 4 \<le> length raw" using assms(7) by simp
  then obtain m2 where m2: "st32 m1 (B + of_nat 32) tid = Some m2" "new_block (psp st) m2 B (length raw)" "ld32 m2 (B + of_nat 32) = Some tid"
    using new_block_st32 [OF m1(2), of 32 tid] by metis
  let ?v = "v\<lparr>tid_array := (tid_array v)[i := t], tib_array := (tib_array v)[i := B]\<rparr>"
  let ?st = "st\<lparr>pheap := (pheap st)(p \<mapsto> ?v), psp := m2\<rparr>"
  have run: "PrcNewTIB host (p_pid v) tid t st = Some (0, ?st)"
    using pid m1 m2(1) v assms(3) by (simp add: PrcNewTIB_def proc_at_def Let_def)
  have inv: "prc_inv ?st ps" by (rule prc_inv_update [OF ps(1) v(1)]) (simp_all add: proc_ok_def)
  have pid': "PrcGetProc (p_pid v) ?st = Some p" using PrcGetProc_found [OF inv v(3), of ?v] by simp
  have "PrcGetProcNative host t (put_proc p ?v st) = Some p"
    using native_put [OF assms(1) v(1), of ?v host t] assms(2) by (simp add: caller_Some plain_storeI)
  then have nat: "PrcGetProcNative host t ?st = Some p" by (simp add: PrcGetProcNative_def put_proc_def)
  have "tid_scan host t 0 ((tid_array v)[i := t]) = 0 + of_nat i + 1"
  proof (rule tid_scan_first)
    show "\<forall>j < i. \<not> ThreadEqual host ((tid_array v)[i := t] ! j) t" using assms(4,5) len i by (auto dest: nth_mem)
  qed (use assms(4) len i in simp_all)
  then have "PrcGetTIDNative host t ?st = Some tid" using nat v i(2) by (simp add: PrcGetTIDNative_def proc_at_def)
  moreover have "PrcGetNativeID (p_pid v) tid ?st = Some t"
    using pid' v assms(3) len i by (simp add: PrcGetNativeID_def proc_at_def)
  moreover have "PrcGetNativeID (p_pid v) tid' ?st = PrcGetNativeID (p_pid v) tid' st" if "tid' \<noteq> tid" for tid'
  proof (cases "slot_of tid'")
    case (Some j)
    then have "j \<noteq> i" using that i(2) slot_of_tid by blast
    with Some pid pid' v show ?thesis by (simp add: PrcGetNativeID_def proc_at_def)
  qed (use pid pid' v in \<open>simp add: PrcGetNativeID_def proc_at_def\<close>)
  ultimately show ?thesis using run m2(2,3) by (intro exI [of _ ?st]) (simp add: new_block_def)
qed

theorem new_thread_roundtrip_witness:
  "\<exists>st'. PrcNewTIB (demo_prc_host 64) 1 2 6 demo_table = Some (0, st') \<and> PrcGetNativeID 1 2 st' = Some 6
    \<and> PrcGetTIDNative (demo_prc_host 64) 6 st' = Some 2 \<and> ld32 (psp st') 8224 = Some 2 \<and> keeps (psp demo_table) (psp st')
    \<and> (\<forall>tid'. tid' \<noteq> 2 \<longrightarrow> PrcGetNativeID 1 tid' st' = PrcGetNativeID 1 tid' demo_table)"
proof -
  have "ds_open (demo_prc_host 64) (mcalls (psp demo_table)) 48 = Attached 8192 (replicate 64 0)" "slot_of 2 = Some 1"
    "\<forall>x. ThreadEqual (demo_prc_host 64) x 6 \<longleftrightarrow> x = 6" "6 \<notin> set (tid_array (demo_proc 1 6 ''OS2'' 0 16))"
    "\<forall>x \<in> cells 8192 (length (replicate 64 (0 :: u8))). \<not> mp (psp demo_table) x"
    using demo_apart [of 64] by (simp_all add: demo_prc_host_def demo_table_def slot_of_def ThreadEqual_def demo_proc_def)
  from new_thread_roundtrip [OF demo_table_ok demo_caller this(2-4,1) _ _ this(5)] show ?thesis
    by (simp add: demo_proc_def)
qed

section \<open>Handing out an information block\<close>

text \<open>C39: \<open>CPGetPIB\<close> makes the pointers of the server's own block relative to its start and leaves them so. The next
  process created by the same parent without an environment takes the relative pointer for an address of the
  server: unless something is mapped there, creating it faults.\<close>

theorem pib_handed_out_breaks_children:
  assumes "prc_inv st ps" and "caller host t st = Some (p, w)" and "p \<in> set ps"
    and "pmallocs st = (c, raw) # mallocs" and "c \<noteq> 0" and "pheap st c = None"
    and "ld32 (psp st) (lx_pib w + pib_pchcmd) = Some cmd" and "ld32 (psp st) (lx_pib w + pib_pchenv) = Some env"
    and "env - lx_pib w \<noteq> 0" and "\<not> mp (psp st) (env - lx_pib w)"
  shows "\<exists>st'. CPGetPIB host t st = Some (NO_ERROR, st') \<and> (\<forall>pPrg pArg. PrcCreate host (p_pid w) pPrg pArg 0 st' = None)"
proof -
  let ?A = "lx_pib w"
  have w: "pheap st p = Some w" using assms(2) by (simp add: caller_Some)
  have am: "all_mapped (mp (psp st)) (?A + 12) 4" "all_mapped (mp (psp st)) (?A + 16) 4"
    using assms(7,8) by (auto simp: ld32_def split: if_splits)
  obtain m1 where m1: "st32 (psp st) (?A + 12) (cmd - ?A) = Some m1" using st32_ok [OF am(1)] by blast
  have mp1: "mp m1 = mp (psp st)" using st32_mp [OF m1] by simp
  have "ld32 m1 (?A + 16) = Some env"
    using st32_ld32_other [OF m1, of "?A + 16"] assms(8) cells_apart [of 12 4 16 4 ?A] by simp
  moreover obtain m2 where m2: "st32 m1 (?A + 16) (env - ?A) = Some m2" using st32_ok am(2) mp1 by metis
  ultimately have run: "CPGetPIB host t st = Some (NO_ERROR, st\<lparr>psp := m2\<rparr>)"
    using assms(2,7) m1 by (simp add: CPGetPIB_def Let_def)
  let ?st = "st\<lparr>psp := m2\<rparr>"
  have inv: "prc_inv ?st ps" using assms(1) by (simp add: prc_inv_def prc_list_def)
  obtain h v w' where l: "link_proc c raw ?st = Some (hd (ps @ [c]), h)" "h c = Some v"
    "search_from p_next (\<lambda>v. p_pid v = p_pid w) h (hd (ps @ [c])) = Some p" "h p = Some w'" "lx_pib w' = ?A" "p \<noteq> 0"
    using create_parent [OF inv assms(5) _ assms(3), of w raw] assms(6) w by simp metis
  have ch: "choose_env p h m2 0 = Some (env - ?A)" using l ld32_st32 [OF m2] by (simp add: choose_env_def)
  have "strlstlen m2 (env - ?A) = None"
    using assms(9,10) st32_mp [OF m2] mp1 by (simp add: strlstlen_def ld8_def)
  then have "PrcCreatePIB host pPrg a (env - ?A) m2 = None" for pPrg a by (simp add: PrcCreatePIB_def)
  then have "PrcCreate host (p_pid w) pPrg pArg 0 ?st = None" for pPrg pArg
    using assms(4,5) l ch by (auto simp: PrcCreate_def Let_def inherit_dir_def)
  with run show ?thesis by blast
qed

theorem pib_handed_out_breaks_children_witness:
  "\<exists>st'. CPGetPIB (demo_prc_host 64) 6 demo_table = Some (NO_ERROR, st')
    \<and> (\<forall>pPrg pArg. PrcCreate (demo_prc_host 64) 1 pPrg pArg 0 st' = None)"
proof -
  have "ld32 demo_mem 4128 = Some 4096" "ld32 demo_mem 4124 = Some 0"
    by (simp_all add: ld32_def all_mapped_4 demo_mem_def mem_rd32_def)
  then show ?thesis
    using pib_handed_out_breaks_children [OF demo_table_inv demo_caller, of 48 "demo_proc 99 0 [] 0 0" "[]" 0 4096]
    by (simp add: demo_table_def demo_proc_def) (simp add: demo_mem_def)
qed

section \<open>Exit of a process\<close>

lemma PrcDestroy_frame:
  assumes "PrcDestroy host p st = Some st'" and "\<And>x v. f (v\<lparr>p_next := x\<rparr>) = f v" and "\<And>x v. f (v\<lparr>p_prev := x\<rparr>) = f v" and "x \<noteq> p"
  shows "map_option f (pheap st' x) = map_option f (pheap st x)"
proof -
  obtain v where "pheap st p = Some v"
    using assms(1) by (auto simp: PrcDestroy_def proc_at_def bind_eq_Some_conv split: if_splits)
  from PrcDestroy_heap [OF assms(1) this] obtain h m where
    h: "unlink_rec p_next p_prev (\<lambda>x v. v\<lparr>p_next := x\<rparr>) (\<lambda>x v. v\<lparr>p_prev := x\<rparr>) p v (pheap st) = Some h" "st' = st\<lparr>pheap := h, psp := m\<rparr>"
    by metis
  from prc.unlink_frame [OF h(1), of f x] assms(2-4) h(2) show ?thesis by simp
qed

lemma CPExit_parent:
  assumes "prc_inv st (xs @ a # p # ys)" and "caller host t st = Some (p, v)"
    and "ld32 (psp st) (lx_pib v + pib_ulppid) = Some (p_pid w)" and "pheap st q = Some w" and "q \<in> set (xs @ a # ys)"
  shows "\<exists>st' w'. CPExit host t result st = Some (NO_ERROR, st') \<and> prc_inv st' (xs @ a # ys) \<and> PrcGetProc (p_pid v) st' = Some 0
    \<and> pheap st' q = Some w' \<and> term_code w' = result
    \<and> term_sem w' = (if exec_sync w \<noteq> 0 \<and> (p_pid w \<noteq> 0 \<or> ThreadEqual host (p_task w) (sysinit_id host))
        then SemaphoreUp host (term_sem w) else term_sem w)
    \<and> exec_sync w' = exec_sync w"
proof -
  let ?ps = "xs @ a # p # ys"
  let ?w1 = "w\<lparr>term_code := result\<rparr>"
  define w2 where "w2 = (if exec_sync w \<noteq> 0 \<and> (p_pid w \<noteq> 0 \<or> ThreadEqual host (p_task w) (sysinit_id host))
      then ?w1\<lparr>term_sem := SemaphoreUp host (term_sem w)\<rparr> else ?w1)"
  have w2: "p_next w2 = p_next w" "p_prev w2 = p_prev w" "p_pid w2 = p_pid w" "proc_ok w2 = proc_ok w"
    by (simp_all add: w2_def proc_ok_def)
  let ?st = "put_proc q w2 st"
  have v: "pheap st p = Some v" "p \<noteq> 0" using assms(2) by (simp_all add: caller_Some)
  have dist: "distinct ?ps" using assms(1) by (simp add: prc_inv_def prc_list_def)
  have q: "q \<noteq> p" "q \<in> set ?ps" "q \<noteq> 0"
    using assms(5) dist prc_list_mem [OF prc_inv_list [OF assms(1)], of q] by auto
  have inv: "prc_inv ?st ?ps"
    using prc_inv_update [OF assms(1,4), of w2 "psp st"] w2 by (simp add: put_proc_def)
  obtain st' where st': "PrcDestroy host p ?st = Some st'" "prc_inv st' (xs @ a # ys)" using PrcDestroy_inv [OF inv] by metis
  have "PrcGetProc (p_pid w) st = Some q" by (rule PrcGetProc_found [OF assms(1) q(2) assms(4)])
  then have run: "CPExit host t result st = Some (NO_ERROR, st')"
    using assms(2,3,4) q st'(1) by (auto simp: CPExit_def proc_at_def Let_def w2_def split: if_splits)
  have f: "map_option f (pheap st' x) = map_option f (pheap ?st x)"
    if "x \<noteq> p" "\<And>x v. f (v\<lparr>p_next := x\<rparr>) = f v" "\<And>x v. f (v\<lparr>p_prev := x\<rparr>) = f v" for x and f :: "os2process \<Rightarrow> 'z"
    using PrcDestroy_frame [OF st'(1) that(2,3,1)] .
  have "map_option (\<lambda>w. (term_code w, term_sem w, exec_sync w)) (pheap st' q) = Some (term_code w2, term_sem w2, exec_sync w2)"
    using f [of q "\<lambda>w. (term_code w, term_sem w, exec_sync w)"] q(1) by (simp add: put_proc_def)
  then obtain w' where "pheap st' q = Some w'" "term_code w' = term_code w2" "term_sem w' = term_sem w2" "exec_sync w' = exec_sync w2" by auto
  moreover have "PrcGetProc (p_pid v) st' = Some 0"
  proof (rule PrcGetProc_none [OF st'(2)], intro ballI notI)
    fix x assume x: "x \<in> set (xs @ a # ys)" and e: "p_pid (the (pheap st' x)) = p_pid v"
    then have "x \<noteq> p" "x \<in> set ?ps" using dist by auto
    moreover obtain u where u: "pheap ?st x = Some u" using prc_list_mem [OF prc_inv_list [OF inv] \<open>x \<in> set ?ps\<close>] by blast
    ultimately have "p_pid (the (pheap ?st x)) = p_pid (the (pheap ?st p))"
      using f [of x p_pid] e v q(1) by (auto simp: put_proc_def)
    from prc_inv_unique [OF inv _ _ this] x \<open>x \<noteq> p\<close> show False by auto
  qed
  ultimately show ?thesis using run st'(2) by (auto simp: w2_def)
qed

text \<open>A process that exits is taken out of the table, the others stay; its parent finds the result code, and is woken up
  exactly if it waits for the end of a child and has a number other than 0 or is the initial process.\<close>

theorem exit_notifies_parent:
  assumes "prc_inv st (xs @ a # p # ys)" and "caller host t st = Some (p, v)"
    and "ld32 (psp st) (lx_pib v + pib_ulppid) = Some (p_pid w)" and "pheap st q = Some w" and "q \<in> set (xs @ a # ys)"
  shows "\<exists>st' w'. CPExit host t result st = Some (NO_ERROR, st') \<and> prc_inv st' (xs @ a # ys) \<and> PrcGetProc (p_pid v) st' = Some 0
    \<and> pheap st' q = Some w' \<and> term_code w' = result
    \<and> term_sem w' = (if exec_sync w \<noteq> 0 \<and> (p_pid w \<noteq> 0 \<or> ThreadEqual host (p_task w) (sysinit_id host))
        then SemaphoreUp host (term_sem w) else term_sem w)"
  using CPExit_parent [OF assms, of result] by blast

text \<open>The example: the process at 32, whose block names process 0 as its parent, exits.\<close>

theorem exit_notifies_parent_witness:
  "\<exists>st' w'. CPExit demo_api_host 6 7 demo_table = Some (NO_ERROR, st') \<and> prc_inv st' [16] \<and> PrcGetProc 1 st' = Some 0
    \<and> pheap st' 16 = Some w' \<and> term_code w' = 7 \<and> term_sem w' = 0"
proof -
  have "caller demo_api_host 6 demo_table = Some (32, demo_proc 1 6 ''OS2'' 0 16)"
    using demo_caller by (simp add: caller_Some PrcGetProcNative_def TaskEqual_def demo_prc_host_def demo_api_host_def)
  moreover have "ld32 demo_mem 4116 = Some 0" by (simp add: ld32_def all_mapped_4 demo_mem_def mem_rd32_def)
  ultimately show ?thesis
    using exit_notifies_parent [of demo_table "[]" 16 32 "[]" demo_api_host 6 "demo_proc 1 6 ''OS2'' 0 16" "demo_proc 0 5 [] 32 0" 16 7]
      demo_table_inv by (simp add: demo_table_def demo_proc_def)
qed

end
