(* ===== verification/ExecPgm.thy ===== *)
theory ExecPgm
  imports ProcChild PathSearch
begin

text \<open>
  Starting programs: \<open>CPExecPgm\<close> and the thread it starts (\<open>CPExecPgmWorker\<close>, \<^verbatim>\<open>server/os2srv/api/api.c\<close>), and
  \<open>PrcExecuteModule\<close> (\<^verbatim>\<open>server/os2srv/processmgr.c\<close>). A worker thread runs concurrently with the calls of applications;
  it is a sequence of sections that end where it waits for a semaphore or uses a flag that other threads
  use too, and \<open>srv_events\<close> runs a given interleaving of sections and calls. The loader of the host, the load error
  of an application, file access and the semaphores are arguments. The buffer for the name of a module
  that could not be loaded is filled by the application server and is left out, and so is logging,
  apart from the bytes it reads.
\<close>

section \<open>State\<close>

record exec_host = api_host +
  SemaphoreDown :: "int \<Rightarrow> int option"
  p_malloc :: "nat \<Rightarrow> nat \<Rightarrow> u32 \<times> u8 list"
  stack_buf :: "nat \<Rightarrow> u32"
  LoaderExec :: "string \<Rightarrow> u32 \<Rightarrow> u32 \<times> 64 word"
  AppClientGetLoadError :: "64 word \<Rightarrow> u32"
  io_open :: "string \<Rightarrow> u32"

abbreviation (input) EXEC_SYNC :: u32 where "EXEC_SYNC \<equiv> 0"
abbreviation (input) EXEC_ASYNC :: u32 where "EXEC_ASYNC \<equiv> 1"
abbreviation (input) EXEC_ASYNCRESULT :: u32 where "EXEC_ASYNCRESULT \<equiv> 2"
abbreviation (input) EXEC_TRACE :: u32 where "EXEC_TRACE \<equiv> 3"
abbreviation (input) EXEC_BACKGROUND :: u32 where "EXEC_BACKGROUND \<equiv> 4"
abbreviation (input) EXEC_ASYNCRESULTDB :: u32 where "EXEC_ASYNCRESULTDB \<equiv> 6"

record RESULTCODES =
  codeTerminate :: u32
  codeResult :: u32

text \<open>Where a worker is; the number is its return code so far.\<close>

datatype worker_pc = Begin | StartupWait | Flag u32 | TermWait | Clear u32 | Result u32 | Ended

text \<open>\<open>struct DosExecPgm_params\<close> with the sizes of its blocks, the buffer on the stack and the position.\<close>

record DosExecPgm_params =
  x_proc :: u32
  x_thread :: "64 word"
  x_flag :: u32
  x_arg :: u32
  x_arglen :: nat
  x_env :: u32
  x_envlen :: nat
  x_name :: u32
  x_res :: RESULTCODES
  x_buf :: u32
  x_pc :: worker_pc

record srv_state =
  prc :: prc_state
  toks :: tok_state
  workers :: "DosExecPgm_params list"
  notices :: "(64 word \<times> RESULTCODES \<times> u32) list"

section \<open>Starting a module\<close>

definition upper8 :: "u8 \<Rightarrow> u8" where
  "upper8 b = u8_of_char (toupper (char_of_u8 b))"

partial_function (option) upper_at :: "pmem \<Rightarrow> u32 \<Rightarrow> pmem option" where
  "upper_at m s = do {
     c \<leftarrow> ld8 m s;
     if c = 0 then Some m else do { m \<leftarrow> st8 m s (upper8 c); upper_at m (s + 1) } }"

text \<open>The characters of a string, and the store of a string of at most \<open>cap\<close> characters with its NUL.\<close>

definition str_at :: "pmem \<Rightarrow> u32 \<Rightarrow> string option" where
  "str_at m p = do { n \<leftarrow> strlen_at m p; Some (map (\<lambda>i. char_of_u8 (mb m (p + of_nat i))) [0..<n]) }"

definition put_str :: "pmem \<Rightarrow> u32 \<Rightarrow> string \<Rightarrow> pmem option" where
  "put_str m p s = (let bs = map u8_of_char s @ [0] in if all_mapped (mp m) p (length bs) then Some (wr m p bs) else None)"

abbreviation (input) bsl8 :: u8 where "bsl8 \<equiv> 0x5C"
abbreviation (input) colon8 :: u8 where "colon8 \<equiv> 0x3A"

text \<open>The test for an absolute name, which reads behind the first character only where it has to.\<close>

definition relative_name :: "pmem \<Rightarrow> u32 \<Rightarrow> bool option" where
  "relative_name m pName = do {
     a \<leftarrow> ld8 m pName;
     if a = bsl8 then Some False
     else do {
       b \<leftarrow> ld8 m (pName + 1);
       if b \<noteq> colon8 then Some True
       else do { c \<leftarrow> ld8 m (pName + 2); Some (c \<noteq> bsl8) } } }"

text \<open>The name in the buffer of 4097 characters: found along \<open>PATH\<close>, or copied. A code other than 0 is an early return.\<close>

definition exec_name ::
    "'h exec_host_scheme \<Rightarrow> cfg_state \<Rightarrow> u32 \<Rightarrow> u32 \<Rightarrow> tok_state \<Rightarrow> pmem \<Rightarrow> (u32 \<times> tok_state \<times> pmem) option" where
  "exec_name host cfg buf pName tk m = do {
     r \<leftarrow> relative_name m pName;
     if r then do {
       name \<leftarrow> str_at m pName;
       (rc, full, tk) \<leftarrow> find_path (io_open host) 4097 cfg name tk [];
       m \<leftarrow> put_str m buf full;
       Some (rc, tk, m) }
     else do {
       n \<leftarrow> strlen_at m pName;
       if n < 4097 then do { m \<leftarrow> strcpy_at m buf pName; Some (NO_ERROR, tk, m) } else None } }"

definition exec_terminate :: "u32 \<Rightarrow> u32 \<Rightarrow> u32" where
  "exec_terminate execFlag pid =
     (if execFlag = EXEC_ASYNC \<or> execFlag = EXEC_ASYNCRESULT \<or> execFlag = EXEC_ASYNCRESULTDB \<or> execFlag = EXEC_TRACE
         \<or> execFlag = EXEC_BACKGROUND then pid else 0)"

text \<open>
  The process structure is used without a test for the null pointer; when the loader fails the process stays in the
  table.
\<close>

definition PrcExecuteModule ::
    "'h exec_host_scheme \<Rightarrow> cfg_state \<Rightarrow> u32 \<Rightarrow> u32 \<Rightarrow> u32 \<Rightarrow> u32 \<Rightarrow> RESULTCODES \<Rightarrow> u32 \<Rightarrow> u32 \<Rightarrow> tok_state \<Rightarrow> prc_state
     \<Rightarrow> (u32 \<times> RESULTCODES \<times> tok_state \<times> prc_state) option" where
  "PrcExecuteModule host cfg buf execFlag pArg pEnv pRes pName ppid tk st = do {
     (rc, tk, m) \<leftarrow> exec_name host cfg buf pName tk (psp st);
     let st = st\<lparr>psp := m\<rparr>;
     if rc \<noteq> NO_ERROR then Some (rc, pRes, tk, st)
     else do {
       m \<leftarrow> upper_at m buf;
       name \<leftarrow> str_at m buf;
       (p, st) \<leftarrow> PrcCreate host ppid buf pArg pEnv (st\<lparr>psp := m\<rparr>);
       v \<leftarrow> proc_at st p;
       let (rc, task) = LoaderExec host name (p_pid v);
       let st = put_proc p (v\<lparr>p_task := task\<rparr>) st;
       if rc \<noteq> 0 then Some (rc, pRes, tk, st)
       else Some (AppClientGetLoadError host task, pRes\<lparr>codeTerminate := exec_terminate execFlag (p_pid v)\<rparr>, tk, st) } }"

section \<open>The worker thread\<close>

text \<open>Changing a member of the caller's process.\<close>

definition upd_proc :: "u32 \<Rightarrow> (os2process \<Rightarrow> os2process) \<Rightarrow> prc_state \<Rightarrow> prc_state option" where
  "upd_proc p f st = do { v \<leftarrow> proc_at st p; Some (put_proc p (f v) st) }"

definition p_free :: "u32 \<Rightarrow> nat \<Rightarrow> pmem \<Rightarrow> pmem" where
  "p_free a n m = m\<lparr>mp := (\<lambda>x. mp m x \<and> \<not> unat (x - a) < n)\<rparr>"

text \<open>The first section, up to the return of \<open>PrcExecuteModule\<close>; both lists are read for the log with the first one's length.\<close>

definition worker_exec :: "'h exec_host_scheme \<Rightarrow> cfg_state \<Rightarrow> DosExecPgm_params \<Rightarrow> tok_state \<Rightarrow> prc_state
    \<Rightarrow> (DosExecPgm_params \<times> tok_state \<times> prc_state) option" where
  "worker_exec host cfg w tk st = do {
     l \<leftarrow> strlstlen (psp st) (x_arg w);
     _ \<leftarrow> strlstlen (psp st) (x_env w);
     if all_mapped (mp (psp st)) (x_arg w) l \<and> all_mapped (mp (psp st)) (x_env w) l then do {
       v \<leftarrow> proc_at st (x_proc w);
       (rc, res, tk, st) \<leftarrow> PrcExecuteModule host cfg (x_buf w) (x_flag w) (x_arg w) (x_env w) (x_res w) (x_name w) (p_pid v) tk st;
       Some (w\<lparr>x_res := res, x_pc := if rc = 0 then StartupWait else Flag rc\<rparr>, tk, st) }
     else None }"

text \<open>
  One section of a worker. The outer \<open>None\<close> is an access through a null pointer or outside mapped memory, the inner one
  a section that cannot start because the thread waits (or has ended).
\<close>

definition worker_step :: "'h exec_host_scheme \<Rightarrow> cfg_state \<Rightarrow> nat \<Rightarrow> srv_state \<Rightarrow> srv_state option option" where
  "worker_step host cfg i s =
     (let w = workers s ! i; st = prc s;
          next = (\<lambda>w st. Some (Some (s\<lparr>prc := st, workers := (workers s)[i := w]\<rparr>))) in
      case x_pc w of
        Begin \<Rightarrow> do {
          (w, tk, st) \<leftarrow> worker_exec host cfg w (toks s) st;
          Some (Some (s\<lparr>prc := st, toks := tk, workers := (workers s)[i := w]\<rparr>)) }
      | StartupWait \<Rightarrow> do {
          v \<leftarrow> proc_at st (x_proc w);
          (case SemaphoreDown host (startup_sem v) of
             None \<Rightarrow> Some None
           | Some n \<Rightarrow> next (w\<lparr>x_pc := Flag 0\<rparr>) (put_proc (x_proc w) (v\<lparr>startup_sem := n\<rparr>) st)) }
      | Flag rc \<Rightarrow>
          if x_flag w = EXEC_SYNC then do {
            st \<leftarrow> upd_proc (x_proc w) (\<lambda>v. v\<lparr>exec_sync := 1\<rparr>) st;
            next (w\<lparr>x_pc := if rc = 0 then TermWait else Clear rc\<rparr>) st }
          else next (w\<lparr>x_pc := Clear rc\<rparr>) st
      | TermWait \<Rightarrow> do {
          v \<leftarrow> proc_at st (x_proc w);
          (case SemaphoreDown host (term_sem v) of
             None \<Rightarrow> Some None
           | Some n \<Rightarrow> next (w\<lparr>x_pc := Clear 0\<rparr>) (put_proc (x_proc w) (v\<lparr>term_sem := n\<rparr>) st)) }
      | Clear rc \<Rightarrow> do {
          st \<leftarrow> upd_proc (x_proc w) (\<lambda>v. v\<lparr>exec_sync := 0\<rparr>) st;
          next (w\<lparr>x_pc := Result rc\<rparr>) st }
      | Result rc \<Rightarrow> do {
          v \<leftarrow> proc_at st (x_proc w);
          let res = (x_res w)\<lparr>codeResult := term_code v\<rparr>;
          let m = p_free (x_env w) (x_envlen w) (p_free (x_arg w) (x_arglen w) (psp st));
          Some (Some (s\<lparr>prc := st\<lparr>psp := m\<rparr>, workers := (workers s)[i := w\<lparr>x_res := res, x_pc := Ended\<rparr>],
            notices := notices s @ [(x_thread w, res, rc)]\<rparr>)) }
      | Ended \<Rightarrow> Some None)"

section \<open>The call\<close>

definition malloc_at :: "'h exec_host_scheme \<Rightarrow> nat \<Rightarrow> pmem \<Rightarrow> u32 \<times> pmem" where
  "malloc_at host n m =
     (let (a, bs) = p_malloc host (mcalls m) n; m' = m\<lparr>mcalls := mcalls m + 1\<rparr> in
      if a = 0 then (0, m')
      else (a, m'\<lparr>mp := (\<lambda>x. mp m x \<or> unat (x - a) < n), mb := mem_wr (mb m) a (take n bs)\<rparr>))"

text \<open>The blocks for the copies are not tested for null.\<close>

definition CPExecPgm ::
    "'h exec_host_scheme \<Rightarrow> 64 word \<Rightarrow> u32 \<Rightarrow> u32 \<Rightarrow> nat \<Rightarrow> u32 \<Rightarrow> nat \<Rightarrow> RESULTCODES \<Rightarrow> u32 \<Rightarrow> srv_state
     \<Rightarrow> (u32 \<times> srv_state) option" where
  "CPExecPgm host thread execFlag pArg alen pEnv elen pRes pName s = do {
     let st = prc s;
     p \<leftarrow> PrcGetProcNative host thread st;
     let (parm, m) = malloc_at host 40 (psp st);
     if parm = 0 then Some (ERROR_NOT_ENOUGH_MEMORY, s\<lparr>prc := st\<lparr>psp := m\<rparr>\<rparr>)
     else do {
       _ \<leftarrow> strlstlen m pArg;
       let (arg, m) = malloc_at host alen m;
       let (env, m) = malloc_at host elen m;
       m \<leftarrow> strlstcpy m arg pArg;
       m \<leftarrow> strlstcpy m env pEnv;
       Some (NO_ERROR, s\<lparr>prc := st\<lparr>psp := m\<rparr>, workers := workers s @
         [\<lparr>x_proc = p, x_thread = thread, x_flag = execFlag, x_arg = arg, x_arglen = alen, x_env = env, x_envlen = elen,
           x_name = pName, x_res = pRes, x_buf = stack_buf host (length (workers s)), x_pc = Begin\<rparr>]\<rparr>) } }"

section \<open>Interleavings\<close>

datatype srv_event = Work nat | Exit "64 word" u32 | Notify1 "64 word"

text \<open>One event; the inner \<open>None\<close> is a worker that cannot go on.\<close>

definition run_event :: "'h exec_host_scheme \<Rightarrow> cfg_state \<Rightarrow> srv_event \<Rightarrow> srv_state \<Rightarrow> srv_state option option" where
  "run_event host cfg e s =
     (case e of
        Work i \<Rightarrow> if i < length (workers s) then worker_step host cfg i s else Some None
      | Exit t result \<Rightarrow> do { (_, st) \<leftarrow> CPExit host t result (prc s); Some (Some (s\<lparr>prc := st\<rparr>)) }
      | Notify1 t \<Rightarrow> do { st \<leftarrow> CPAppNotify1 host t (prc s); Some (Some (s\<lparr>prc := st\<rparr>)) })"

fun srv_events :: "'h exec_host_scheme \<Rightarrow> cfg_state \<Rightarrow> srv_event list \<Rightarrow> srv_state \<Rightarrow> srv_state option option" where
  "srv_events host cfg [] s = Some (Some s)"
| "srv_events host cfg (e # es) s =
     (case run_event host cfg e s of
        None \<Rightarrow> None
      | Some None \<Rightarrow> Some None
      | Some (Some s) \<Rightarrow> srv_events host cfg es s)"

section \<open>A program is started\<close>

lemma upper8_zero: "upper8 c = 0 \<longleftrightarrow> c = 0"
proof -
  have "u8_of_char NUL = 0" "char_of_u8 0 = NUL" by (simp_all add: u8_of_char_def char_of_u8_def char_of_eq_iff)
  moreover have "u8_of_char (char_of_u8 c) = c"
  proof -
    have "(of_char (char_of (unat c)) :: nat) = unat c"
      using unsigned_less [where ?'a = nat and w = c] by (simp add: take_bit_nat_eq_self)
    then have "of_nat (of_char (char_of (unat c)) :: nat) = c" by (simp only: of_nat_unat ucast_id)
    then show ?thesis by (simp only: u8_of_char_def char_of_u8_def of_nat_of_char)
  qed
  ultimately show ?thesis unfolding upper8_def by (metis char_u8_inverse toupper_eq_NUL)
qed

lemma upper_at_bytes:
  assumes "plain s" and "bytes_at m p (s @ [0])" and "length s < 2 ^ 32"
  shows "upper_at m p = Some (wr m p (map upper8 s))"
  using assms
proof (induction s arbitrary: m p)
  case Nil
  then show ?case by (simp add: upper_at.simps)
next
  case (Cons c s)
  let ?m = "m\<lparr>mb := (mb m)(p := upper8 c)\<rparr>"
  have c: "ld8 m p = Some c" "c \<noteq> 0" "mp m p" using Cons.prems by (auto simp: ld8_def split: if_splits)
  have ms: "?m = wr m p [upper8 c]" by simp
  have "cells (p + 1) (length (s @ [0])) \<inter> cells p 1 = {}"
    using cells_apart [of 0 1 1 "length s + 1" p] Cons.prems(3) by (simp add: Int_commute)
  then have "bytes_at ?m (p + 1) (s @ [0]) = bytes_at m (p + 1) (s @ [0])"
    unfolding ms by (intro bytes_at_wr_other) simp
  then have "upper_at ?m (p + 1) = Some (wr ?m (p + 1) (map upper8 s))" using Cons.prems by (intro Cons.IH) auto
  with c show ?case by (subst upper_at.simps) (simp add: st8_def)
qed

lemma bytes_at_nth: "bytes_at m p bs \<Longrightarrow> i < length bs \<Longrightarrow> mb m (p + of_nat i) = bs ! i"
proof (induction bs arbitrary: p i)
  case (Cons b bs)
  show ?case
  proof (cases i)
    case 0
    with Cons.prems show ?thesis by (auto simp: ld8_def split: if_splits)
  next
    case (Suc j)
    with Cons.IH [of "p + 1" j] Cons.prems show ?thesis by (simp add: algebra_simps)
  qed
qed simp

lemma str_at_bytes:
  assumes "plain s" and "bytes_at m p (s @ [0])"
  shows "str_at m p = Some (map char_of_u8 s)"
proof -
  have "map (\<lambda>i. char_of_u8 (mb m (p + of_nat i))) [0..<length s] = map char_of_u8 s"
    by (rule nth_equalityI) (use bytes_at_nth [of m p s] assms(2) in simp_all)
  then show ?thesis using strlen_at_bytes [OF assms] by (simp add: str_at_def)
qed

text \<open>An absolute name: with a leading backslash, or with a drive, a colon and a backslash.\<close>

definition abs_name :: "u8 list \<Rightarrow> bool" where
  "abs_name n \<longleftrightarrow> n \<noteq> [] \<and> (n ! 0 = bsl8 \<or> 3 \<le> length n \<and> n ! 1 = colon8 \<and> n ! 2 = bsl8)"

lemma abs_name_not_relative:
  assumes "abs_name n" and "bytes_at m p (n @ [0])"
  shows "relative_name m p = Some False"
proof -
  obtain a n1 where n: "n = a # n1" using assms(1) by (cases n) (auto simp: abs_name_def)
  show ?thesis
  proof (cases "a = bsl8")
    case True
    with n assms(2) show ?thesis by (simp add: relative_name_def)
  next
    case False
    then have l: "3 \<le> length n" "n ! 1 = colon8" "n ! 2 = bsl8" using assms(1) n by (auto simp: abs_name_def)
    then obtain b c n3 where "n1 = b # c # n3" using n by (cases n1; cases "tl n1") auto
    with l n assms(2) False show ?thesis by (simp add: relative_name_def algebra_simps)
  qed
qed

text \<open>The name in the buffer, in upper case.\<close>

lemma exec_name_abs:
  assumes "abs_name n" and "plain n" and "length n < 4097" and "bytes_at m pName (n @ [0])"
    and "all_mapped (mp m) buf (length n + 1)" and "cells buf (length n + 1) \<inter> cells pName (length n + 1) = {}"
  obtains m1 m2 where "exec_name host cfg buf pName tk m = Some (NO_ERROR, tk, m1)" "upper_at m1 buf = Some m2"
    "bytes_at m2 buf (map upper8 n @ [0])" "mp m2 = mp m" "mcalls m2 = mcalls m"
    "\<And>q bs. cells q (length bs) \<inter> cells buf (length n + 1) = {} \<Longrightarrow> bytes_at m2 q bs = bytes_at m q bs"
proof -
  let ?m1 = "wr m buf (n @ [0])" and ?m2 = "wr (wr m buf (n @ [0])) buf (map upper8 n)"
  have nm: "exec_name host cfg buf pName tk m = Some (NO_ERROR, tk, ?m1)"
    using abs_name_not_relative [OF assms(1,4)] strlen_at_bytes [OF assms(2,4)] strcpy_at_bytes [OF assms(2,4-6)] assms(3)
    by (simp add: exec_name_def)
  have b1: "bytes_at ?m1 buf (n @ [0])" using assms(3,5) by (intro bytes_at_wr) simp_all
  have up: "upper_at ?m1 buf = Some ?m2" using assms(3) by (intro upper_at_bytes [OF assms(2) b1]) simp
  have "all_mapped (mp ?m1) buf (length (map upper8 n))" using assms(5) by (auto simp: all_mapped_def list_all_iff)
  then have "bytes_at ?m2 buf (map upper8 n)" using assms(3) by (intro bytes_at_wr) simp_all
  moreover have "bytes_at ?m2 (buf + of_nat (length n)) [0] = bytes_at ?m1 (buf + of_nat (length n)) [0]"
    using cells_apart [of 0 "length n" "length n" 1 buf] assms(3) by (intro bytes_at_wr_other) (simp add: Int_commute)
  ultimately have b2: "bytes_at ?m2 buf (map upper8 n @ [0])" using b1 by simp
  have "bytes_at ?m2 q bs = bytes_at m q bs" if "cells q (length bs) \<inter> cells buf (length n + 1) = {}" for q bs
  proof -
    have "cells q (length bs) \<inter> cells buf (length (map upper8 n)) = {}" using that cells_mono [of "length n" "length n + 1" buf] by auto
    then have "bytes_at ?m2 q bs = bytes_at ?m1 q bs" by (rule bytes_at_wr_other)
    also have "\<dots> = bytes_at m q bs" by (rule bytes_at_wr_other) (use that in simp)
    finally show ?thesis .
  qed
  with that [OF nm up b2] show thesis by simp
qed

text \<open>C12: A program with an absolute name: the name is converted to upper case, the child is entered into the table, as a
  child of the caller, with environment, name and arguments in its information block; the loader is
  called for that name, the child gets its task, and the code for the caller is the load error of the
  application. The termination code is the number of the child unless the program runs synchronously.\<close>

theorem program_started:
  assumes "abs_name n" and "plain n" and "length n < 4097" and "bytes_at (psp st) pName (n @ [0])"
    and "all_mapped (mp (psp st)) buf (length n + 1)" and "cells buf (length n + 1) \<inter> cells pName (length n + 1) = {}"
    and "str_list es" and "es \<noteq> []" and "pEnv \<noteq> 0" and "bytes_at (psp st) pEnv (strlst es)"
    and "cells pEnv (length (strlst es)) \<inter> cells buf (length n + 1) = {}"
    and "str_list as" and "length as = 1 \<or> length as = 2" and "pArg \<noteq> 0" and "bytes_at (psp st) pArg (strlst as)"
    and "cells pArg (length (strlst as)) \<inter> cells buf (length n + 1) = {}"
    and "prc_inv st ps" and "pmallocs st = (c, raw) # mallocs" and "c \<noteq> 0" and "pheap st c = None"
    and "length (tid_array raw) = MAX_TID" and "pid_ctr st + 2 \<noteq> 0" and "pid_ctr st + 1 \<noteq> 0"
    and "p \<in> set ps" and "pheap st p = Some w" and "p_pid w \<noteq> 0"
    and "host_blocks host (psp st) (pib_size es (map upper8 n) as) A rawA B rawB"
    and "pib_args es (map upper8 n) + length (strlst as) \<le> length rawA"
    and "LoaderExec host (map char_of_u8 (map upper8 n)) (pid_ctr st + 1) = (0, task)"
  shows "\<exists>st' v. PrcExecuteModule host cfg buf flag pArg pEnv res pName (p_pid w) tk st =
      Some (AppClientGetLoadError host task, res\<lparr>codeTerminate := exec_terminate flag (pid_ctr st + 1)\<rparr>, tk, st')
    \<and> prc_inv st' (ps @ [c]) \<and> pheap st' c = Some v \<and> p_pid v = pid_ctr st + 1 \<and> p_task v = task
    \<and> curdisk v = curdisk w \<and> curdir v = curdir w \<and> pib_layout (psp st') A es (map upper8 n) as
    \<and> ld32 (psp st') (A + pib_ulppid) = Some (p_pid w)"
proof -
  obtain m1 m2 where m: "exec_name host cfg buf pName tk (psp st) = Some (NO_ERROR, tk, m1)" "upper_at m1 buf = Some m2"
    "bytes_at m2 buf (map upper8 n @ [0])" "mp m2 = mp (psp st)" "mcalls m2 = mcalls (psp st)"
    "bytes_at m2 pEnv (strlst es)" "bytes_at m2 pArg (strlst as)"
    using exec_name_abs [OF assms(1-6), of host cfg tk] assms(10,11,15,16) by metis
  let ?st = "st\<lparr>psp := m2\<rparr>"
  have up: "plain (map upper8 n)" using assms(2) upper8_zero by (auto simp: image_iff)
  have inv: "prc_inv ?st ps" using assms(17) by (simp add: prc_inv_def prc_list_def)
  have env: "choose_env p h m2 pEnv = Some pEnv" for h
  proof -
    obtain s ss where "es = s # ss" "plain s" "s \<noteq> []" using assms(7,8) by (cases es) auto
    then obtain b where "ld8 m2 pEnv = Some b" "b \<noteq> 0" using m(6) by (cases s) auto
    with assms(9) show ?thesis by (simp add: choose_env_def)
  qed
  have hb: "host_blocks host m2 (pib_size es (map upper8 n) as) A rawA B rawB"
    using assms(27) m(4,5) by (simp add: host_blocks_def)
  obtain st1 v where c: "PrcCreate host (p_pid w) buf pArg pEnv ?st = Some (c, st1)" "prc_inv st1 (ps @ [c])" "pheap st1 c = Some v"
    "p_pid v = pid_ctr st + 1" "curdisk v = curdisk w" "curdir v = curdir w" "pib_layout (psp st1) A es (map upper8 n) as"
    "ld32 (psp st1) (A + pib_ulppid) = Some (p_pid w)"
    using PrcCreate_child [OF inv, of c raw mallocs p w pEnv pEnv es "map upper8 n" buf as pArg host A rawA B rawB]
      assms(18-26) env assms(9) m(3,6,7) assms(7) up assms(12-14) hb assms(28) by auto
  have inv2: "prc_inv (put_proc c (v\<lparr>p_task := task\<rparr>) st1) (ps @ [c])"
    using prc_inv_update [OF c(2,3), of "v\<lparr>p_task := task\<rparr>" "psp st1"] by (simp add: put_proc_def proc_ok_def)
  have nm: "str_at m2 buf = Some (map char_of_u8 (map upper8 n))" by (rule str_at_bytes [OF up m(3)])
  have "PrcExecuteModule host cfg buf flag pArg pEnv res pName (p_pid w) tk st =
      Some (AppClientGetLoadError host task, res\<lparr>codeTerminate := exec_terminate flag (pid_ctr st + 1)\<rparr>, tk, put_proc c (v\<lparr>p_task := task\<rparr>) st1)"
    using m(1,2) nm c(1,3,4) assms(19,29) by (simp add: PrcExecuteModule_def Let_def proc_at_def)
  with inv2 c show ?thesis by (intro exI [of _ "put_proc c (v\<lparr>p_task := task\<rparr>) st1"] exI [of _ "v\<lparr>p_task := task\<rparr>"]) (simp add: put_proc_def)
qed

text \<open>The example: a program is started by the process at 32.\<close>

definition start_host :: exec_host where
  "start_host = \<lparr>ds_open = ds_open (demo_prc_host 64), RegLookupRegion = RegLookupRegion (demo_prc_host 64), l4_task = ucast, l4_thread_equal = (=),
     NIL_THREAD = 0, lit_empty = 4098, SemaphoreUp = (\<lambda>n. n + 1), sysinit_id = 0, SemaphoreDown = (\<lambda>n. if 0 < n then Some (n - 1) else None),
     p_malloc = (\<lambda>_ _. (0, [])), stack_buf = (\<lambda>_. 4150), LoaderExec = (\<lambda>_ _. (0, 77)), AppClientGetLoadError = (\<lambda>_. 0), io_open = (\<lambda>_. 2)\<rparr>"

definition start_table :: prc_state where
  "start_table = demo_table\<lparr>psp := wr demo_mem 4140 [92, 97, 0]\<rparr>"

lemma start_blocks: "host_blocks start_host (psp start_table) n 8192 (replicate 64 0) 12288 (replicate 64 0)"
  using demo_blocks by (simp add: host_blocks_def start_host_def start_table_def demo_prc_host_def)

lemma start_simps:
  "pmallocs start_table = [(48, demo_proc 99 0 [] 0 0)]" "pheap start_table 48 = None" "pheap start_table 32 = Some (demo_proc 1 6 ''OS2'' 0 16)"
  "pid_ctr start_table = 1" "LoaderExec start_host f k = (0, 77)" "AppClientGetLoadError start_host t = 0"
  "p_pid (demo_proc pid task dir nxt prv) = pid" "curdisk (demo_proc pid task dir nxt prv) = 3" "curdir (demo_proc pid task dir nxt prv) = dir"
  "length (tid_array (demo_proc pid task dir nxt prv)) = 128"
  by (simp_all add: start_table_def demo_table_def start_host_def demo_proc_def)

lemma start_cells:
  "cells 4150 (Suc (Suc (Suc 0))) \<inter> cells 4140 (Suc (Suc (Suc 0))) = {}" "cells 4096 (Suc (Suc (Suc 0))) \<inter> cells 4150 (Suc (Suc (Suc 0))) = {}"
  "cells 4101 (Suc (Suc (Suc (Suc (Suc 0))))) \<inter> cells 4150 (Suc (Suc (Suc 0))) = {}"
  using cells_apart [of 44 "Suc (Suc (Suc 0))" 54 "Suc (Suc (Suc 0))" 4096] cells_apart [of 0 "Suc (Suc (Suc 0))" 54 "Suc (Suc (Suc 0))" 4096]
    cells_apart [of 5 "Suc (Suc (Suc (Suc (Suc 0))))" 54 "Suc (Suc (Suc 0))" 4096] by (simp_all add: Int_commute)

lemma upper8_a: "upper8 97 = 65" "upper8 92 = 92"
  by code_simp+

theorem program_started_witness:
  "\<exists>st' v. PrcExecuteModule start_host cfg_state0 4150 EXEC_ASYNC 4101 4096 \<lparr>codeTerminate = 0, codeResult = 0\<rparr> 4140 1 tok_state0 start_table =
      Some (0, \<lparr>codeTerminate = 2, codeResult = 0\<rparr>, tok_state0, st')
    \<and> prc_inv st' [16, 32, 48] \<and> pheap st' 48 = Some v \<and> p_pid v = 2 \<and> p_task v = 77
    \<and> curdisk v = 3 \<and> curdir v = ''OS2'' \<and> pib_layout (psp st') 8192 [[65]] [92, 65] [[112], [120]]
    \<and> ld32 (psp st') 8196 = Some 1"
proof -
  have inv: "prc_inv start_table [16, 32]" using demo_table_inv by (simp add: start_table_def prc_inv_def prc_list_def)
  have b: "bytes_at (psp start_table) 4140 ([92, 97] @ [0])" "bytes_at (psp start_table) 4096 (strlst [[65]])"
    "bytes_at (psp start_table) 4101 (strlst [[112], [120]])" "all_mapped (mp (psp start_table)) 4150 (Suc (Suc (Suc 0)))"
    by (simp_all add: start_table_def demo_mem_def ld8_def all_mapped_def upt_rec)
  show ?thesis
    using program_started [of "[92, 97]" start_table 4140 4150 "[[65]]" 4096 "[[112], [120]]" 4101 "[16, 32]" 48 "demo_proc 99 0 [] 0 0" "[]" 32
        "demo_proc 1 6 ''OS2'' 0 16" start_host 8192 "replicate 64 0" 12288 "replicate 64 0" 77 cfg_state0 EXEC_ASYNC
        "\<lparr>codeTerminate = 0, codeResult = 0\<rparr>" tok_state0] inv b start_cells start_blocks
    by (simp add: start_simps abs_name_def pib_args_def pib_prg_def envlen_def upper8_a exec_terminate_def)
qed

section \<open>The end of a child and the flag of its parent\<close>

text \<open>A worker that has started its program and is about to set the flag, and the child that runs.\<close>

definition sync_wait :: "'h exec_host_scheme \<Rightarrow> srv_state \<Rightarrow> nat \<Rightarrow> u32 \<Rightarrow> os2process \<Rightarrow> 64 word \<Rightarrow> u32 list \<Rightarrow> u32 list \<Rightarrow> bool" where
  "sync_wait host s i q w t xs ys \<longleftrightarrow>
     i < length (workers s) \<and> x_pc (workers s ! i) = Flag 0 \<and> x_flag (workers s ! i) = EXEC_SYNC \<and> x_proc (workers s ! i) = q
     \<and> pheap (prc s) q = Some w \<and> exec_sync w = 0 \<and> term_sem w = 0 \<and> p_pid w \<noteq> 0 \<and> xs \<noteq> []
     \<and> (\<exists>c v. caller host t (prc s) = Some (c, v) \<and> prc_inv (prc s) (xs @ c # ys) \<and> q \<in> set (xs @ ys)
          \<and> ld32 (psp (prc s)) (lx_pib v + pib_ulppid) = Some (p_pid w))"

lemma sync_wait_exit:
  assumes "prc_inv st (xs @ c # ys)" and "xs \<noteq> []" and "caller host t st = Some (c, v)" and "q \<in> set (xs @ ys)"
    and "ld32 (psp st) (lx_pib v + pib_ulppid) = Some (p_pid w)" and "pheap st q = Some w" and "p_pid w \<noteq> 0"
  shows "\<exists>st' w'. CPExit host t result st = Some (NO_ERROR, st') \<and> proc_at st' q = Some w' \<and> term_code w' = result
    \<and> term_sem w' = (if exec_sync w \<noteq> 0 then SemaphoreUp host (term_sem w) else term_sem w)"
proof -
  obtain zs a where z: "xs = zs @ [a]" using assms(2) by (meson rev_exhaust)
  have q: "q \<in> set (zs @ a # ys)" and inv: "prc_inv st (zs @ a # c # ys)" using assms(1,4) z by simp_all
  from CPExit_parent [OF inv assms(3,5,6) q, of result] obtain st' w' where
    "CPExit host t result st = Some (NO_ERROR, st')" "pheap st' q = Some w'" "term_code w' = result"
    "term_sem w' = (if exec_sync w \<noteq> 0 then SemaphoreUp host (term_sem w) else term_sem w)"
    using assms(7) by auto
  moreover have "q \<noteq> 0" using prc_list_mem [OF prc_inv_list [OF assms(1)], of q] assms(4) by auto
  ultimately show ?thesis by (auto simp: proc_at_def)
qed

lemma worker_flag:
  assumes "i < length (workers s)" and "x_pc (workers s ! i) = Flag 0" and "x_flag (workers s ! i) = EXEC_SYNC"
    and "proc_at (prc s) (x_proc (workers s ! i)) = Some v"
  shows "run_event host cfg (Work i) s = Some (Some (s\<lparr>prc := put_proc (x_proc (workers s ! i)) (v\<lparr>exec_sync := 1\<rparr>) (prc s),
    workers := (workers s)[i := (workers s ! i)\<lparr>x_pc := TermWait\<rparr>]\<rparr>))"
  using assms by (simp add: run_event_def worker_step_def upd_proc_def Let_def)

lemma worker_blocked:
  assumes "i < length (workers s)" and "x_pc (workers s ! i) = TermWait" and "proc_at (prc s) (x_proc (workers s ! i)) = Some v"
    and "SemaphoreDown host (term_sem v) = None"
  shows "run_event host cfg (Work i) s = Some None"
  using assms by (simp add: run_event_def worker_step_def)

text \<open>The last three sections of a worker whose child has ended.\<close>

lemma worker_finishes:
  assumes "i < length (workers s)" and "workers s ! i = w" and "x_pc w = TermWait" and "x_proc w = q"
    and "proc_at (prc s) q = Some v" and "SemaphoreDown host (term_sem v) = Some n"
  shows "\<exists>s'. srv_events host cfg [Work i, Work i, Work i] s = Some (Some s')
    \<and> notices s' = notices s @ [(x_thread w, (x_res w)\<lparr>codeResult := term_code v\<rparr>, 0)]
    \<and> x_pc (workers s' ! i) = Ended \<and> (\<exists>v'. proc_at (prc s') q = Some v' \<and> exec_sync v' = 0 \<and> term_sem v' = n)"
proof -
  have q: "q \<noteq> 0" using assms(5) by (auto simp: proc_at_def)
  define s1 where "s1 = s\<lparr>prc := put_proc q (v\<lparr>term_sem := n\<rparr>) (prc s), workers := (workers s)[i := w\<lparr>x_pc := Clear 0\<rparr>]\<rparr>"
  have 1: "run_event host cfg (Work i) s = Some (Some s1)"
    using assms by (simp add: run_event_def worker_step_def Let_def s1_def)
  have s1: "i < length (workers s1)" "workers s1 ! i = w\<lparr>x_pc := Clear 0\<rparr>" "proc_at (prc s1) q = Some (v\<lparr>term_sem := n\<rparr>)"
    "notices s1 = notices s" using assms(1) q by (simp_all add: s1_def put_proc_def proc_at_def)
  define s2 where "s2 = s1\<lparr>prc := put_proc q (v\<lparr>term_sem := n, exec_sync := 0\<rparr>) (prc s1), workers := (workers s1)[i := w\<lparr>x_pc := Result 0\<rparr>]\<rparr>"
  have 2: "run_event host cfg (Work i) s1 = Some (Some s2)"
    using s1(1-3) assms(4) by (simp add: run_event_def worker_step_def Let_def upd_proc_def s2_def)
  have s2: "i < length (workers s2)" "workers s2 ! i = w\<lparr>x_pc := Result 0\<rparr>" "proc_at (prc s2) q = Some (v\<lparr>term_sem := n, exec_sync := 0\<rparr>)"
    "notices s2 = notices s" using s1(1,4) q by (simp_all add: s2_def put_proc_def proc_at_def)
  show ?thesis using s2 1 2 assms(4) q by (simp add: run_event_def worker_step_def Let_def proc_at_def)
qed

text \<open>What \<open>sync_wait\<close> says.\<close>

lemma sync_waitD:
  assumes "sync_wait host s i q w t xs ys"
  obtains c v where "i < length (workers s)" "x_pc (workers s ! i) = Flag 0" "x_flag (workers s ! i) = EXEC_SYNC"
    "x_proc (workers s ! i) = q" "pheap (prc s) q = Some w" "exec_sync w = 0" "term_sem w = 0" "p_pid w \<noteq> 0" "xs \<noteq> []"
    "caller host t (prc s) = Some (c, v)" "prc_inv (prc s) (xs @ c # ys)" "q \<in> set (xs @ ys)"
    "ld32 (psp (prc s)) (lx_pib v + pib_ulppid) = Some (p_pid w)" "q \<noteq> 0" "q \<noteq> c" "proc_at (prc s) q = Some w"
proof -
  obtain c v where C: "caller host t (prc s) = Some (c, v)" "prc_inv (prc s) (xs @ c # ys)" "q \<in> set (xs @ ys)"
    "ld32 (psp (prc s)) (lx_pib v + pib_ulppid) = Some (p_pid w)" and w: "pheap (prc s) q = Some w"
    using assms unfolding sync_wait_def by blast
  have q: "q \<noteq> 0" "q \<noteq> c"
    using C(2,3) prc_list_mem [OF prc_inv_list [OF C(2)], of q] by (auto simp: prc_inv_def prc_list_def)
  then have "proc_at (prc s) q = Some w" using w by (simp add: proc_at_def)
  with that [OF _ _ _ _ w _ _ _ _ C q] assms show thesis by (simp add: sync_wait_def)
qed

text \<open>The flag of a process does not change whose threads are whose.\<close>

lemma caller_flag:
  assumes "prc_inv st ps" and "caller host t st = Some (c, v)" and "pheap st q = Some w" and "q \<noteq> c"
  shows "prc_inv (put_proc q (w\<lparr>exec_sync := b\<rparr>) st) ps" and "caller host t (put_proc q (w\<lparr>exec_sync := b\<rparr>) st) = Some (c, v)"
proof -
  let ?st = "put_proc q (w\<lparr>exec_sync := b\<rparr>) st"
  show inv: "prc_inv ?st ps"
    using prc_inv_update [OF assms(1,3), of "w\<lparr>exec_sync := b\<rparr>" "psp st"] by (simp add: put_proc_def proc_ok_def)
  have "find (\<lambda>a. TaskEqual host (p_task (the (pheap ?st a))) t) ps = find (\<lambda>a. TaskEqual host (p_task (the (pheap st a))) t) ps"
    using assms(3) by (intro find_cong) (auto simp: put_proc_def)
  with assms(2,4) prc_list_search [OF prc_inv_list [OF assms(1)]] prc_list_search [OF prc_inv_list [OF inv]]
  show "caller host t ?st = Some (c, v)" by (simp add: caller_Some PrcGetProcNative_def put_proc_def)
qed

lemma flag_first:
  assumes "sync_wait host s i q w t xs ys" and "SemaphoreDown host (SemaphoreUp host 0) = Some 0"
  shows "\<exists>s'. srv_events host cfg [Work i, Exit t result, Work i, Work i, Work i] s = Some (Some s')
    \<and> notices s' = notices s @ [(x_thread (workers s ! i), (x_res (workers s ! i))\<lparr>codeResult := result\<rparr>, 0)]"
proof -
  let ?w = "workers s ! i" and ?st = "prc s" and ?w1 = "w\<lparr>exec_sync := 1\<rparr>"
  from assms(1) obtain c v where W: "i < length (workers s)" "x_pc ?w = Flag 0" "x_flag ?w = EXEC_SYNC" "x_proc ?w = q"
    "pheap ?st q = Some w" "term_sem w = 0" "p_pid w \<noteq> 0" "xs \<noteq> []"
    and C: "caller host t ?st = Some (c, v)" "prc_inv ?st (xs @ c # ys)" "q \<in> set (xs @ ys)"
      "ld32 (psp ?st) (lx_pib v + pib_ulppid) = Some (p_pid w)" and q: "q \<noteq> c" "proc_at ?st q = Some w"
    by (rule sync_waitD)
  define s1 where "s1 = s\<lparr>prc := put_proc q ?w1 ?st, workers := (workers s)[i := ?w\<lparr>x_pc := TermWait\<rparr>]\<rparr>"
  have 1: "run_event host cfg (Work i) s = Some (Some s1)"
    using worker_flag [OF W(1-3), of w] W(4) q(2) by (simp add: s1_def)
  have p1: "prc s1 = put_proc q ?w1 ?st" by (simp add: s1_def)
  note ca = caller_flag [OF C(2,1) W(5) q(1), of 1, folded p1]
  have st1: "pheap (prc s1) q = Some ?w1" "ld32 (psp (prc s1)) (lx_pib v + pib_ulppid) = Some (p_pid ?w1)" "p_pid ?w1 \<noteq> 0"
    using C(4) W(7) by (simp_all add: p1 put_proc_def)
  obtain st2 w2 where x: "CPExit host t result (prc s1) = Some (NO_ERROR, st2)" "proc_at st2 q = Some w2" "term_code w2 = result"
    "term_sem w2 = SemaphoreUp host 0"
    using sync_wait_exit [OF ca(1) W(8) ca(2) C(3) st1(2,1,3), of result] W(6) by auto
  have 2: "run_event host cfg (Exit t result) s1 = Some (Some (s1\<lparr>prc := st2\<rparr>))" by (simp add: run_event_def x(1))
  have wk: "workers (s1\<lparr>prc := st2\<rparr>) ! i = ?w\<lparr>x_pc := TermWait\<rparr>" "i < length (workers (s1\<lparr>prc := st2\<rparr>))"
    using W(1) by (simp_all add: s1_def)
  obtain s' where "srv_events host cfg [Work i, Work i, Work i] (s1\<lparr>prc := st2\<rparr>) = Some (Some s')"
    "notices s' = notices s @ [(x_thread ?w, (x_res ?w)\<lparr>codeResult := result\<rparr>, 0)]"
    using worker_finishes [OF wk(2,1), where q = q and v = w2 and n = 0 and host = host and cfg = cfg] W(4) x(2-4) assms(2) by (auto simp: s1_def)
  then show ?thesis
    unfolding srv_events.simps(2) [of host cfg "Work i" "[Exit t result, Work i, Work i, Work i]"]
      srv_events.simps(2) [of host cfg "Exit t result"] 1 2 option.simps by blast
qed

lemma exit_first:
  assumes "sync_wait host s i q w t xs ys" and "SemaphoreDown host 0 = None"
  shows "srv_events host cfg [Exit t result, Work i, Work i] s = Some None"
proof -
  let ?w = "workers s ! i" and ?st = "prc s"
  from assms(1) obtain c v where W: "i < length (workers s)" "x_pc ?w = Flag 0" "x_flag ?w = EXEC_SYNC" "x_proc ?w = q"
    "pheap ?st q = Some w" "exec_sync w = 0" "term_sem w = 0" "p_pid w \<noteq> 0" "xs \<noteq> []"
    and C: "caller host t ?st = Some (c, v)" "prc_inv ?st (xs @ c # ys)" "q \<in> set (xs @ ys)"
      "ld32 (psp ?st) (lx_pib v + pib_ulppid) = Some (p_pid w)" and q: "q \<noteq> 0"
    by (rule sync_waitD)
  obtain st2 w2 where x: "CPExit host t result ?st = Some (NO_ERROR, st2)" "proc_at st2 q = Some w2" "term_sem w2 = 0"
    using sync_wait_exit [OF C(2) W(9) C(1,3,4) W(5,8), of result] W(6,7) by auto
  let ?s1 = "s\<lparr>prc := st2\<rparr>"
  let ?s2 = "s\<lparr>prc := put_proc q (w2\<lparr>exec_sync := 1\<rparr>) st2, workers := (workers s)[i := ?w\<lparr>x_pc := TermWait\<rparr>]\<rparr>"
  have 1: "run_event host cfg (Exit t result) s = Some (Some ?s1)" by (simp add: run_event_def x(1))
  have 2: "run_event host cfg (Work i) ?s1 = Some (Some ?s2)"
    using worker_flag [of i ?s1 w2 host cfg] W(1-4) x(2) by simp
  have 3: "run_event host cfg (Work i) ?s2 = Some None"
    using worker_blocked [of i ?s2 "w2\<lparr>exec_sync := 1\<rparr>" host cfg] W(1,4) x(3) q assms(2) by (simp add: put_proc_def proc_at_def)
  show ?thesis by (simp add: 1 2 3)
qed


text \<open>The example: a worker of process 1 at 16, whose child is process 2 at 32.\<close>

definition sync_host :: exec_host where
  "sync_host = \<lparr>ds_open = ds_open demo_api_host, RegLookupRegion = RegLookupRegion demo_api_host, l4_task = ucast, l4_thread_equal = (=),
     NIL_THREAD = 0, lit_empty = 0, SemaphoreUp = (\<lambda>n. n + 1), sysinit_id = 0, SemaphoreDown = (\<lambda>n. if 0 < n then Some (n - 1) else None),
     p_malloc = (\<lambda>_ _. (0, [])), stack_buf = (\<lambda>_. 0), LoaderExec = (\<lambda>_ _. (0, 0)), AppClientGetLoadError = (\<lambda>_. 0), io_open = (\<lambda>_. 0)\<rparr>"

definition sync_state :: srv_state where
  "sync_state = \<lparr>prc = demo_table\<lparr>pheap := [16 \<mapsto> demo_proc 1 5 [] 32 0, 32 \<mapsto> demo_proc 2 6 [] 0 16], pid_ctr := 2,
       psp := demo_mem\<lparr>mb := mem_wr32 (mb demo_mem) 4116 1\<rparr>\<rparr>,
     toks = tok_state0,
     workers = [\<lparr>x_proc = 16, x_thread = 5, x_flag = EXEC_SYNC, x_arg = 0, x_arglen = 0, x_env = 0, x_envlen = 0, x_name = 0,
       x_res = \<lparr>codeTerminate = 0, codeResult = 0\<rparr>, x_buf = 0, x_pc = Flag 0\<rparr>], notices = []\<rparr>"

lemma sync_state_wait: "sync_wait sync_host sync_state 0 16 (demo_proc 1 5 [] 32 0) 6 [16] []"
proof -
  have inv: "prc_inv (prc sync_state) [16, 32]"
    by (simp add: sync_state_def prc_inv_def prc_list_def demo_table_def demo_proc_def proc_num_def pid_num_def proc_ok_def)
  have "caller sync_host 6 (prc sync_state) = Some (32, demo_proc 2 6 [] 0 16)"
    unfolding caller_Some PrcGetProcNative_def prc_list_search [OF prc_inv_list [OF inv]]
    by (simp add: sync_state_def demo_table_def demo_proc_def TaskEqual_def sync_host_def)
  moreover have "ld32 (psp (prc sync_state)) 4116 = Some 1"
    by (simp add: sync_state_def ld32_def all_mapped_4 mem_rd32_wr32) (simp add: demo_mem_def)
  ultimately show ?thesis using inv by (simp add: sync_wait_def) (simp add: sync_state_def demo_proc_def)
qed


end
