(* ===== verification/FsRoute.thy ===== *)
theory FsRoute
  imports PathSearch
begin

text \<open>
  Drives and names of the file server: the table of drive servers (\<^verbatim>\<open>server/os2fs/mountreg.c\<close>), the
  drives it is filled with (\<^verbatim>\<open>globals.c\<close>), the drive map (\<^verbatim>\<open>api/misc.c\<close>), the conversion of separators
  and letter case (\<^verbatim>\<open>utility.c\<close>) and the translation of an OS/2 file name into a name of the host
  (\<open>pathconv\<close> of \<^verbatim>\<open>api/api.c\<close>). The table is reached through the locale \<open>drive_router\<close>. \<open>malloc\<close> is taken
  to succeed.
\<close>

section \<open>Table of drive servers\<close>

text \<open>A null pointer is \<open>None\<close>.\<close>

record I_Fs_srv =
  mountpoint :: "string option"
  drive :: "string option"

text \<open>A slot of the array: the outer \<open>None\<close> is memory that was never written.\<close>

record FSRouter =
  fs_srv_arr :: "I_Fs_srv option option list"
  max_drv :: int
  srv_num :: nat

definition I_Fs_srv_init :: "I_Fs_srv \<Rightarrow> I_Fs_srv" where
  "I_Fs_srv_init s = s\<lparr>mountpoint := None, drive := None\<rparr>"

definition I_Fs_srv_init2 :: "I_Fs_srv \<Rightarrow> string \<Rightarrow> string \<Rightarrow> I_Fs_srv" where
  "I_Fs_srv_init2 s strsrv drv = s\<lparr>mountpoint := Some strsrv, drive := Some drv\<rparr>"

text \<open>The array has 25 times the size of a structure of two pointers, which is room for 50 pointers.\<close>

definition FSRouter_init :: FSRouter where
  "FSRouter_init = \<lparr>fs_srv_arr = replicate 50 None, max_drv = 24, srv_num = 0\<rparr>"

definition FSRouter_add :: "FSRouter \<Rightarrow> I_Fs_srv option \<Rightarrow> FSRouter outcome" where
  "FSRouter_add s srv =
     (if srv_num s < length (fs_srv_arr s)
      then Ret (s\<lparr>fs_srv_arr := (fs_srv_arr s)[srv_num s := Some srv], srv_num := srv_num s + 1\<rparr>)
      else Undef)"

fun route_loop :: "I_Fs_srv option option list \<Rightarrow> char \<Rightarrow> I_Fs_srv option outcome" where
  "route_loop [] drv = Ret None"
| "route_loop (None # arr) drv = Undef"
| "route_loop (Some None # arr) drv = route_loop arr drv"
| "route_loop (Some (Some srv) # arr) drv =
     (case drive srv of
        None \<Rightarrow> Undef
      | Some d \<Rightarrow> if tolower (cs_at d 0) = tolower drv then Ret (Some srv) else route_loop arr drv)"

definition FSRouter_route :: "FSRouter \<Rightarrow> char \<Rightarrow> I_Fs_srv option outcome" where
  "FSRouter_route s drv =
     (if srv_num s \<le> length (fs_srv_arr s) then route_loop (take (srv_num s) (fs_srv_arr s)) drv else Undef)"

definition fresh_srv :: I_Fs_srv where
  "fresh_srv = \<lparr>mountpoint = None, drive = None\<rparr>"

definition init_globals :: "FSRouter outcome" where
  "init_globals =
     obind (FSRouter_add FSRouter_init (Some (I_Fs_srv_init2 fresh_srv ''/file/system'' ''c:''))) (\<lambda>r.
     obind (FSRouter_add r (Some (I_Fs_srv_init2 fresh_srv ''/'' ''d:''))) (\<lambda>r.
       FSRouter_add r (Some (I_Fs_srv_init2 fresh_srv ''/file'' ''f:''))))"

section \<open>Drive map\<close>

text \<open>\<open>1 << diskno\<close>, where a count that is negative or too large is undefined; plain \<open>char\<close> is signed.\<close>

definition map_bit :: "char \<Rightarrow> u32 outcome" where
  "map_bit drv =
     (let diskno = sint (u8_of_char drv) - 97 in
      if 0 \<le> diskno \<and> diskno < 32 then Ret (push_bit (nat diskno) 1) else Undef)"

fun map_loop :: "I_Fs_srv option option list \<Rightarrow> u32 \<Rightarrow> u32 outcome" where
  "map_loop [] m = Ret m"
| "map_loop (slot # arr) m =
     (case slot of
        Some (Some fsrv) \<Rightarrow>
          (case drive fsrv of
             Some d \<Rightarrow> obind (map_bit (tolower (cs_at d 0))) (\<lambda>b. map_loop arr (m OR b))
           | None \<Rightarrow> Undef)
      | _ \<Rightarrow> Undef)"

definition setdrivemap :: "FSRouter \<Rightarrow> u32 outcome" where
  "setdrivemap fsrouter =
     (if srv_num fsrouter \<le> length (fs_srv_arr fsrouter)
      then map_loop (take (srv_num fsrouter) (fs_srv_arr fsrouter)) 0 else Undef)"

text \<open>The cached map \<open>drivemap\<close> starts as -1; the call returns the map and the new cache.\<close>

abbreviation (input) drivemap0 :: u32 where "drivemap0 \<equiv> -1"

definition FSGetDriveMap :: "FSRouter \<Rightarrow> u32 \<Rightarrow> (u32 \<times> u32 \<times> u32) outcome" where
  "FSGetDriveMap fsrouter drivemap =
     obind (if drivemap = -1 then setdrivemap fsrouter else Ret drivemap) (\<lambda>drivemap.
       Ret (NO_ERROR, drivemap, drivemap))"

section \<open>Names\<close>

definition DosNameConversion :: "string option \<Rightarrow> string option" where
  "DosNameConversion pszName =
     map_option (\<lambda>s. map tolower (map (\<lambda>c. if c = BSL then CHR ''/'' else c) s)) pszName"

text \<open>\<open>pathconv\<close>: no name means the return code 1.\<close>

definition pathconv :: "FSRouter \<Rightarrow> string \<Rightarrow> string option outcome" where
  "pathconv fsrouter fname =
     (case get_drv fname of
        None \<Rightarrow> Undef
      | Some c \<Rightarrow>
        let drv = tolower c in
        if drv = NUL then Ret None
        else (case get_directory fname of
          None \<Rightarrow> Undef
        | Some None \<Rightarrow> Ret None
        | Some (Some directory) \<Rightarrow>
            let name = get_name fname;
                directory = the (DosNameConversion (Some directory));
                name = the (DosNameConversion (Some name)) in
            obind (if (99::int) \<le> sint (u8_of_char drv) \<and> sint (u8_of_char drv) \<le> 122
                   then obind (FSRouter_route fsrouter drv) (\<lambda>fsrv.
                     case fsrv of
                       None \<Rightarrow> Undef
                     | Some fsrv \<Rightarrow> (case mountpoint fsrv of None \<Rightarrow> Undef | Some m \<Rightarrow> Ret (m @ directory)))
                   else Ret directory) (\<lambda>newdirectory.
              Ret (Some (newdirectory @ name)))))"

section \<open>The table as a map from letters\<close>

definition letter :: "I_Fs_srv \<Rightarrow> char" where
  "letter s = tolower (cs_at (the (drive s)) 0)"

fun add_all :: "('t \<Rightarrow> I_Fs_srv option \<Rightarrow> 't outcome) \<Rightarrow> I_Fs_srv list \<Rightarrow> 't \<Rightarrow> 't outcome" where
  "add_all add [] t = Ret t"
| "add_all add (s # ss) t = obind (add t (Some s)) (add_all add ss)"

text \<open>
  What users of the table rely on: lookups return, compare letters without case, and the server
  that was added first wins.
\<close>

locale drive_router =
  fixes route :: "'t \<Rightarrow> char \<Rightarrow> I_Fs_srv option outcome"
    and add :: "'t \<Rightarrow> I_Fs_srv option \<Rightarrow> 't outcome"
    and ok :: "'t \<Rightarrow> bool"
    and good :: "I_Fs_srv \<Rightarrow> bool"
  assumes add_ok: "ok t \<Longrightarrow> good s \<Longrightarrow> add t (Some s) = Ret t' \<Longrightarrow> ok t'"
    and route_returns: "ok t \<Longrightarrow> \<exists>r. route t c = Ret r"
    and route_good: "ok t \<Longrightarrow> route t c = Ret (Some s) \<Longrightarrow> good s \<and> letter s = tolower c"
    and route_add: "ok t \<Longrightarrow> good s \<Longrightarrow> add t (Some s) = Ret t' \<Longrightarrow> route t c = Ret r
      \<Longrightarrow> route t' c = Ret (if r = None \<and> letter s = tolower c then Some s else r)"
begin

lemma route_add_all:
  assumes "ok t" and "list_all good ss" and "add_all add ss t = Ret t'" and "route t c = Ret r"
  shows "ok t' \<and> route t' c = Ret (case r of Some s \<Rightarrow> Some s | None \<Rightarrow> find (\<lambda>s. letter s = tolower c) ss)"
  using assms
proof (induction ss arbitrary: t r)
  case Nil
  then show ?case by (auto split: option.splits)
next
  case (Cons s ss)
  then obtain u where u: "add t (Some s) = Ret u" "add_all add ss u = Ret t'" by auto
  have s: "good s" using Cons.prems(2) by simp
  note au = add_ok [OF Cons.prems(1) s u(1)] and ru = route_add [OF Cons.prems(1) s u(1) Cons.prems(4)]
  show ?case using Cons.IH [OF au _ u(2) ru] Cons.prems(2) by (auto split: option.splits if_splits)
qed

end

definition srv_good :: "I_Fs_srv \<Rightarrow> bool" where
  "srv_good s \<longleftrightarrow> mountpoint s \<noteq> None \<and> drive s \<noteq> None"

definition servers :: "FSRouter \<Rightarrow> I_Fs_srv option option list" where
  "servers r = take (srv_num r) (fs_srv_arr r)"

definition router_ok :: "FSRouter \<Rightarrow> bool" where
  "router_ok r \<longleftrightarrow> srv_num r \<le> length (fs_srv_arr r) \<and>
     list_all (\<lambda>x. case x of Some (Some s) \<Rightarrow> srv_good s | _ \<Rightarrow> False) (servers r)"

lemma router_servers:
  assumes "router_ok r"
  obtains ss where "servers r = map (\<lambda>s. Some (Some s)) ss" "list_all srv_good ss"
proof -
  have "\<exists>ss. xs = map (\<lambda>s. Some (Some s)) ss \<and> list_all srv_good ss"
    if "list_all (\<lambda>x. case x of Some (Some s) \<Rightarrow> srv_good s | _ \<Rightarrow> False) xs" for xs
    using that
  proof (induction xs)
    case (Cons x xs)
    then obtain ss s where "xs = map (\<lambda>s. Some (Some s)) ss" "list_all srv_good ss" "x = Some (Some s)" "srv_good s"
      by (auto split: option.splits)
    then show ?case by (intro exI [of _ "s # ss"]) simp
  qed simp
  with assms that show ?thesis by (auto simp: router_ok_def)
qed

lemma route_loop_find:
  "list_all srv_good ss \<Longrightarrow>
   route_loop (map (\<lambda>s. Some (Some s)) ss) c = Ret (find (\<lambda>s. letter s = tolower c) ss)"
  by (induction ss) (auto simp: srv_good_def letter_def)

lemma FSRouter_route_find:
  "router_ok r \<Longrightarrow> servers r = map (\<lambda>s. Some (Some s)) ss \<Longrightarrow> list_all srv_good ss
   \<Longrightarrow> FSRouter_route r c = Ret (find (\<lambda>s. letter s = tolower c) ss)"
  by (simp add: FSRouter_route_def router_ok_def servers_def route_loop_find)

lemma FSRouter_add_servers:
  "router_ok r \<Longrightarrow> FSRouter_add r (Some s) = Ret r' \<Longrightarrow> servers r' = servers r @ [Some (Some s)]
     \<and> srv_num r' \<le> length (fs_srv_arr r')"
  by (auto simp: FSRouter_add_def servers_def take_Suc_conv_app_nth split: if_splits)

lemma find_snoc: "find P (xs @ [x]) = (case find P xs of Some y \<Rightarrow> Some y | None \<Rightarrow> if P x then Some x else None)"
  by (induction xs) auto

lemma find_good: "list_all P ss \<Longrightarrow> find Q ss = Some s \<Longrightarrow> P s \<and> Q s"
  by (induction ss) (auto split: if_splits)

interpretation router: drive_router FSRouter_route FSRouter_add router_ok srv_good
proof (unfold_locales, goal_cases)
  case (1 t s t')
  then show ?case using FSRouter_add_servers [of t s t'] by (simp add: router_ok_def)
next
  case (2 t c)
  then show ?case using FSRouter_route_find by (metis router_servers)
next
  case (3 t c s)
  obtain ss where "servers t = map (\<lambda>s. Some (Some s)) ss" "list_all srv_good ss" using 3(1) by (rule router_servers)
  with 3 show ?case using find_good [of srv_good ss "\<lambda>s. letter s = tolower c" s] by (simp add: FSRouter_route_find)
next
  case (4 t s t' c r)
  obtain ss where ss: "servers t = map (\<lambda>s. Some (Some s)) ss" "list_all srv_good ss" using 4(1) by (rule router_servers)
  have t': "servers t' = map (\<lambda>s. Some (Some s)) (ss @ [s])" "list_all srv_good (ss @ [s])" "router_ok t'"
    using FSRouter_add_servers [OF 4(1,3)] ss 4(2) by (simp_all add: router_ok_def list_all_iff)
  show ?case
    using FSRouter_route_find [OF t'(3,1,2), of c] FSRouter_route_find [OF 4(1) ss, of c] 4(4)
    by (auto simp: find_snoc split: option.splits)
qed

text \<open>The drives of the running server.\<close>

definition standard_drives :: "I_Fs_srv list" where
  "standard_drives = [I_Fs_srv_init2 fresh_srv ''/file/system'' ''c:'', I_Fs_srv_init2 fresh_srv ''/'' ''d:'',
     I_Fs_srv_init2 fresh_srv ''/file'' ''f:'']"

definition standard_route :: "char \<Rightarrow> I_Fs_srv option" where
  "standard_route c = find (\<lambda>s. letter s = tolower c) standard_drives"

lemma init_globals_ok:
  obtains r where "init_globals = Ret r" "router_ok r" "servers r = map (\<lambda>s. Some (Some s)) standard_drives"
  by (simp add: standard_drives_def init_globals_def FSRouter_init_def FSRouter_add_def router_ok_def servers_def
      numeral_eq_Suc srv_good_def I_Fs_srv_init2_def fresh_srv_def)

lemma init_globals_route:
  obtains r where "init_globals = Ret r" "router_ok r" "\<forall>c. FSRouter_route r c = Ret (standard_route c)"
proof -
  obtain r where r: "init_globals = Ret r" "router_ok r" "servers r = map (\<lambda>s. Some (Some s)) standard_drives"
    by (rule init_globals_ok)
  have "list_all srv_good standard_drives"
    by (simp add: standard_drives_def srv_good_def I_Fs_srv_init2_def)
  with r that show ?thesis by (simp add: FSRouter_route_find standard_route_def)
qed

section \<open>The drive map\<close>

definition drive_letter :: "nat \<Rightarrow> char" where
  "drive_letter i = char_of (97 + i)"

definition lettered :: "I_Fs_srv \<Rightarrow> bool" where
  "lettered s \<longleftrightarrow> (\<exists>i<26. letter s = drive_letter i)"

lemma of_drive_letter: "i < 26 \<Longrightarrow> (of_char (drive_letter i) :: nat) = 97 + i"
  unfolding drive_letter_def of_char_of by (simp add: take_bit_eq_mod)

lemma drive_letter_inj: "i < 26 \<Longrightarrow> j < 26 \<Longrightarrow> drive_letter i = drive_letter j \<longleftrightarrow> i = j"
  by (metis of_drive_letter add_left_cancel)

lemma tolower_drive_letter: "i < 26 \<Longrightarrow> tolower (drive_letter i) = drive_letter i"
  by (simp add: tolower_def of_drive_letter)

lemma sint_drive_letter:
  assumes "i < 26"
  shows "sint (u8_of_char (drive_letter i)) = 97 + int i"
proof -
  have "u8_of_char (drive_letter i) = of_nat (of_char (drive_letter i))"
    by (simp only: u8_of_char_def of_nat_of_char)
  also have "\<dots> = of_nat (97 + i)" unfolding of_drive_letter [OF assms] ..
  finally have *: "u8_of_char (drive_letter i) = of_nat (97 + i)" .
  show ?thesis unfolding * signed_of_nat using assms by (simp add: signed_take_bit_int_eq_self)
qed

lemma letteredI: "letter s = drive_letter i \<Longrightarrow> i < 26 \<Longrightarrow> lettered s"
  by (auto simp: lettered_def)

lemma map_bit_letter: "i < 26 \<Longrightarrow> map_bit (drive_letter i) = Ret (push_bit i 1)"
  by (simp add: map_bit_def sint_drive_letter)

lemma map_loop_bits:
  "list_all srv_good ss \<Longrightarrow> list_all lettered ss \<Longrightarrow>
   \<exists>m'. map_loop (map (\<lambda>s. Some (Some s)) ss) m = Ret m' \<and>
     (\<forall>i. bit m' i \<longleftrightarrow> bit m i \<or> (i < 26 \<and> find (\<lambda>s. letter s = drive_letter i) ss \<noteq> None))"
proof (induction ss arbitrary: m)
  case (Cons s ss)
  then obtain k where k: "k < 26" "letter s = drive_letter k" by (auto simp: lettered_def)
  obtain d where d: "drive s = Some d" using Cons.prems(1) by (auto simp: srv_good_def)
  with k have b: "map_bit (tolower (cs_at d 0)) = Ret (push_bit k 1)"
    by (simp add: letter_def map_bit_letter)
  obtain m' where "map_loop (map (\<lambda>s. Some (Some s)) ss) (m OR push_bit k 1) = Ret m'"
      "\<forall>i. bit m' i \<longleftrightarrow> bit (m OR push_bit k 1) i \<or> (i < 26 \<and> find (\<lambda>s. letter s = drive_letter i) ss \<noteq> None)"
    using Cons.IH [of "m OR push_bit k 1"] Cons.prems by auto
  with b d k show ?case
    by (intro exI [of _ m']) (auto simp: bit_simps drive_letter_inj)
qed simp

text \<open>The drive map of a new server has a bit for exactly the letters that are routed, and later calls
  return the same map, whatever happened to the table.\<close>

theorem drive_map_routed:
  assumes "router_ok r" and "\<forall>s. Some (Some s) \<in> set (servers r) \<longrightarrow> lettered s"
  shows "\<exists>m. FSGetDriveMap r drivemap0 = Ret (NO_ERROR, m, m) \<and> (\<forall>r'. FSGetDriveMap r' m = Ret (NO_ERROR, m, m)) \<and>
    (\<forall>i. bit m i \<longleftrightarrow> i < 26 \<and> FSRouter_route r (drive_letter i) \<noteq> Ret None)"
proof -
  obtain ss where ss: "servers r = map (\<lambda>s. Some (Some s)) ss" "list_all srv_good ss"
    using assms(1) by (rule router_servers)
  have "list_all lettered ss" using assms(2) ss(1) by (auto simp: list_all_iff)
  from map_loop_bits [OF ss(2) this, of 0] obtain m where m: "setdrivemap r = Ret m"
      "\<And>i. bit m i \<longleftrightarrow> i < 26 \<and> find (\<lambda>s. letter s = drive_letter i) ss \<noteq> None"
    using assms(1) ss(1) by (auto simp: setdrivemap_def router_ok_def servers_def)
  have "m \<noteq> -1" using m(2) [of 30] by auto
  moreover have "FSRouter_route r (drive_letter i) = Ret (find (\<lambda>s. letter s = drive_letter i) ss)" if "i < 26" for i
    using FSRouter_route_find [OF assms(1) ss] that by (simp add: tolower_drive_letter)
  ultimately show ?thesis using m by (intro exI [of _ m]) (auto simp: FSGetDriveMap_def)
qed

theorem drive_map_routed_witness:
  "\<exists>r m. init_globals = Ret r \<and> FSGetDriveMap r drivemap0 = Ret (NO_ERROR, m, m) \<and> bit m 2 \<and> \<not> bit m 4"
proof -
  obtain r where r: "init_globals = Ret r" "router_ok r" "servers r = map (\<lambda>s. Some (Some s)) standard_drives"
    by (rule init_globals_ok)
  have l: "letter (I_Fs_srv_init2 s m (drive_letter i # cs)) = drive_letter i" if "i < 26" for s m i cs
    using that by (simp add: letter_def I_Fs_srv_init2_def tolower_drive_letter)
  have n: "''c:'' = drive_letter 2 # '':''" "''d:'' = drive_letter 3 # '':''" "''f:'' = drive_letter 5 # '':''"
    by (simp_all add: drive_letter_def cstr_simps)
  have g: "list_all srv_good standard_drives"
    by (simp add: standard_drives_def srv_good_def I_Fs_srv_init2_def)
  have "\<forall>s. Some (Some s) \<in> set (servers r) \<longrightarrow> lettered s"
    unfolding r(3) standard_drives_def n by (auto simp: l intro!: letteredI)
  from drive_map_routed [OF r(2) this] r(1) FSRouter_route_find [OF r(2,3) g]
  show ?thesis unfolding standard_drives_def n by (auto simp: l tolower_drive_letter drive_letter_inj)
qed

section \<open>Names of the host\<close>

definition host_name :: "string \<Rightarrow> string" where
  "host_name s = map (\<lambda>c. tolower (if c = BSL then CHR ''/'' else c)) s"

lemma DosNameConversion_host: "DosNameConversion (Some s) = Some (host_name s)"
  by (simp add: DosNameConversion_def host_name_def)

lemma path_pieces:
  assumes "BSL \<notin> set name"
  shows "get_drv (d # CHR '':'' # dir @ BSL # name) = Some d"
    and "get_directory (d # CHR '':'' # dir @ BSL # name) = Some (Some (dir @ [BSL]))"
    and "get_name (d # CHR '':'' # dir @ BSL # name) = name"
  using last_index_last [OF assms, of dir 2 None] last_index_last [OF assms, of "d # CHR '':'' # dir" 0 None]
  by (simp_all add: get_drv_def get_directory_def get_name_def chr_at_def cs_at_def Let_def numeral_2_eq_2)

lemma pathconv_route:
  assumes "router_ok r" and "BSL \<notin> set name" and "tolower d = drive_letter i" and "2 \<le> i" and "i < 26"
  shows "pathconv r (d # CHR '':'' # dir @ BSL # name) =
    (case FSRouter_route r d of
       Ret (Some s) \<Rightarrow> Ret (Some (the (mountpoint s) @ host_name (dir @ BSL # name)))
     | _ \<Rightarrow> Undef)"
proof -
  obtain x where x: "FSRouter_route r d = Ret x" using router.route_returns [OF assms(1)] by blast
  have same: "FSRouter_route r (drive_letter i) = Ret x"
    using x assms(3) tolower_idem [of d] router_servers [OF assms(1)] FSRouter_route_find [OF assms(1)]
    by metis
  have "drive_letter i \<noteq> NUL" using of_drive_letter [OF assms(5)] by auto
  moreover have "mountpoint s \<noteq> None" if "x = Some s" for s
    using router.route_good [OF assms(1)] x that by (auto simp: srv_good_def)
  ultimately show ?thesis
    using assms(4,5)
    by (auto simp: pathconv_def path_pieces [OF assms(2)] assms(3) DosNameConversion_host Let_def same x
        sint_drive_letter host_name_def split: option.splits)
qed

text \<open>C25: A fully qualified name on one of the drives C to Z becomes the directory of the drive's server
  followed by the rest of the name, with slashes and in lower case; a drive that is not in the table
  is not handled.\<close>

theorem pathconv_mounted:
  assumes "router_ok r" and "BSL \<notin> set name" and "tolower d = drive_letter i" and "2 \<le> i" and "i < 26"
  shows "pathconv r (d # CHR '':'' # dir @ BSL # name) =
    (case FSRouter_route r d of
       Ret (Some s) \<Rightarrow> Ret (Some (the (mountpoint s) @ host_name (dir @ BSL # name)))
     | _ \<Rightarrow> Undef)"
  by (rule pathconv_route [OF assms])

theorem pathconv_mounted_witness:
  "\<exists>r. init_globals = Ret r \<and>
     pathconv r (''C:'' @ BSL # ''OS2'' @ BSL # ''KAL.DLL'') = Ret (Some ''/file/system/os2/kal.dll'') \<and>
     pathconv r (''E:'' @ BSL # ''KAL.DLL'') = Undef"
proof -
  obtain r where r: "init_globals = Ret r" "router_ok r" "\<forall>c. FSRouter_route r c = Ret (standard_route c)"
    by (rule init_globals_route)
  have "tolower (CHR ''C'') = drive_letter 2" "tolower (CHR ''E'') = drive_letter 4"
    by (simp_all add: drive_letter_def tolower_def cstr_simps)
  with pathconv_mounted [OF r(2), of "''KAL.DLL''" "CHR ''C''" 2 "BSL # ''OS2''"]
    pathconv_mounted [OF r(2), of "''KAL.DLL''" "CHR ''E''" 4 "[]"] r(1)
  show ?thesis
    by (intro exI [of _ r])
      (simp add: r(3) standard_route_def standard_drives_def letter_def I_Fs_srv_init2_def host_name_def tolower_def cstr_simps)
qed

end
