(* ===== verification/FsFile.thy ===== *)
theory FsFile
  imports FsRoute CurDir
begin

text \<open>
  The calls of the file server on open files and on names (\<^verbatim>\<open>server/os2fs/api/api.c\<close>): open, read, write,
  seek, close, handle type and state, duplicate, delete, directories. The list \<open>fileroot\<close> of open files
  is only ever appended to. The file system of the host is the argument \<open>'h posix\<close>: each of its calls
  returns the value of the C function or, for -1, the value of \<open>errno\<close>. Numbers of flags and errors are
  those of the host's C library (Linux on IA-32).
\<close>

section \<open>The host\<close>

type_synonym errno = int

record fstat =
  st_mode :: u32
  st_size :: int
  st_blksize :: int
  st_blocks :: int
  st_ctime :: int
  st_atime :: int
  st_mtime :: int

datatype whence = SEEK_CURRENT | SEEK_START

record 'h posix =
  p_read :: "u32 \<Rightarrow> nat \<Rightarrow> 'h \<Rightarrow> (errno + u8 list) \<times> 'h"
  p_write :: "u32 \<Rightarrow> u8 list \<Rightarrow> 'h \<Rightarrow> (errno + nat) \<times> 'h"
  p_lseek :: "u32 \<Rightarrow> int \<Rightarrow> whence \<Rightarrow> 'h \<Rightarrow> (errno + int) \<times> 'h"
  p_fstat :: "u32 \<Rightarrow> 'h \<Rightarrow> errno + fstat"
  p_isatty :: "u32 \<Rightarrow> 'h \<Rightarrow> bool"
  p_close :: "u32 \<Rightarrow> 'h \<Rightarrow> errno option \<times> 'h"
  p_dup :: "u32 \<Rightarrow> 'h \<Rightarrow> (errno + u32) \<times> 'h"
  p_fcntl :: "u32 \<Rightarrow> u32 \<Rightarrow> 'h \<Rightarrow> int \<times> 'h"
  p_stat :: "string \<Rightarrow> 'h \<Rightarrow> errno + fstat"
  p_open :: "string \<Rightarrow> u32 \<Rightarrow> 'h \<Rightarrow> (errno + u32) \<times> 'h"
  p_unlink :: "string \<Rightarrow> 'h \<Rightarrow> errno option \<times> 'h"
  p_rmdir :: "string \<Rightarrow> 'h \<Rightarrow> errno option \<times> 'h"
  p_mkdir :: "string \<Rightarrow> 'h \<Rightarrow> errno option \<times> 'h"

abbreviation (input) EPERM :: errno where "EPERM \<equiv> 1"
abbreviation (input) ENOENT :: errno where "ENOENT \<equiv> 2"
abbreviation (input) EBADF :: errno where "EBADF \<equiv> 9"
abbreviation (input) ENOMEM :: errno where "ENOMEM \<equiv> 12"
abbreviation (input) EACCES :: errno where "EACCES \<equiv> 13"
abbreviation (input) EBUSY :: errno where "EBUSY \<equiv> 16"
abbreviation (input) ENOTDIR :: errno where "ENOTDIR \<equiv> 20"
abbreviation (input) EISDIR :: errno where "EISDIR \<equiv> 21"
abbreviation (input) EMFILE :: errno where "EMFILE \<equiv> 24"
abbreviation (input) ENAMETOOLONG :: errno where "ENAMETOOLONG \<equiv> 36"

abbreviation (input) O_RDONLY :: u32 where "O_RDONLY \<equiv> 0"
abbreviation (input) O_WRONLY :: u32 where "O_WRONLY \<equiv> 1"
abbreviation (input) O_RDWR :: u32 where "O_RDWR \<equiv> 2"
abbreviation (input) O_CREAT :: u32 where "O_CREAT \<equiv> 0x40"
abbreviation (input) O_EXCL :: u32 where "O_EXCL \<equiv> 0x80"
abbreviation (input) O_TRUNC :: u32 where "O_TRUNC \<equiv> 0x200"
abbreviation (input) O_SYNC :: u32 where "O_SYNC \<equiv> 0x1000"

section \<open>Constants of the interface\<close>

abbreviation (input) ERROR_CURRENT_DIRECTORY :: u32 where "ERROR_CURRENT_DIRECTORY \<equiv> 16"
abbreviation (input) ERROR_SHARING_VIOLATION :: u32 where "ERROR_SHARING_VIOLATION \<equiv> 32"
abbreviation (input) ERROR_INVALID_TARGET_HANDLE :: u32 where "ERROR_INVALID_TARGET_HANDLE \<equiv> 114"
abbreviation (input) ERROR_NEGATIVE_SEEK :: u32 where "ERROR_NEGATIVE_SEEK \<equiv> 131"

abbreviation (input) CCHMAXPATH :: nat where "CCHMAXPATH \<equiv> 260"

abbreviation (input) OPEN_ACTION_FAIL_IF_EXISTS :: u32 where "OPEN_ACTION_FAIL_IF_EXISTS \<equiv> 0"
abbreviation (input) OPEN_ACTION_OPEN_IF_EXISTS :: u32 where "OPEN_ACTION_OPEN_IF_EXISTS \<equiv> 1"
abbreviation (input) OPEN_ACTION_REPLACE_IF_EXISTS :: u32 where "OPEN_ACTION_REPLACE_IF_EXISTS \<equiv> 0x10"
abbreviation (input) OPEN_ACTION_CREATE_IF_NEW :: u32 where "OPEN_ACTION_CREATE_IF_NEW \<equiv> 0x10000"
abbreviation (input) OPEN_ACCESS_READONLY :: u32 where "OPEN_ACCESS_READONLY \<equiv> 0"
abbreviation (input) OPEN_ACCESS_WRITEONLY :: u32 where "OPEN_ACCESS_WRITEONLY \<equiv> 1"
abbreviation (input) OPEN_ACCESS_READWRITE :: u32 where "OPEN_ACCESS_READWRITE \<equiv> 2"
abbreviation (input) OPEN_SHARE_DENYREADWRITE :: u32 where "OPEN_SHARE_DENYREADWRITE \<equiv> 0x10"
abbreviation (input) OPEN_SHARE_DENYWRITE :: u32 where "OPEN_SHARE_DENYWRITE \<equiv> 0x20"
abbreviation (input) OPEN_SHARE_DENYREAD :: u32 where "OPEN_SHARE_DENYREAD \<equiv> 0x30"
abbreviation (input) OPEN_SHARE_DENYNONE :: u32 where "OPEN_SHARE_DENYNONE \<equiv> 0x40"
abbreviation (input) OPEN_FLAGS_WRITE_THROUGH :: u32 where "OPEN_FLAGS_WRITE_THROUGH \<equiv> 0x4000"
abbreviation (input) OPEN_FLAGS_DASD :: u32 where "OPEN_FLAGS_DASD \<equiv> 0x8000"

abbreviation (input) FILE_BEGIN :: u32 where "FILE_BEGIN \<equiv> 0"
abbreviation (input) FILE_CURRENT :: u32 where "FILE_CURRENT \<equiv> 1"
abbreviation (input) FILE_END :: u32 where "FILE_END \<equiv> 2"
abbreviation (input) FILE_EXISTED :: u32 where "FILE_EXISTED \<equiv> 1"
abbreviation (input) FILE_CREATED :: u32 where "FILE_CREATED \<equiv> 2"
abbreviation (input) FILE_TRUNCATED :: u32 where "FILE_TRUNCATED \<equiv> 3"

section \<open>Reading, writing and positioning\<close>

text \<open>A read stores its bytes at the start of the caller's buffer; a buffer that is shorter than the
  bytes read is left.\<close>

definition FSRead :: "'h posix \<Rightarrow> u32 \<Rightarrow> u8 list \<Rightarrow> u32 \<Rightarrow> 'h \<Rightarrow> (u32 \<times> u8 list \<times> u32 \<times> 'h) outcome" where
  "FSRead host hFile pBuffer count h =
     (case p_read host hFile (unat count) h of
        (Inl e, h) \<Rightarrow> Ret (ERROR_NO_DATA, pBuffer, count, h)
      | (Inr bs, h) \<Rightarrow>
          if length bs \<le> length pBuffer
          then Ret (NO_ERROR, bs @ drop (length bs) pBuffer, of_nat (length bs), h) else Undef)"

definition FSWrite :: "'h posix \<Rightarrow> u32 \<Rightarrow> u8 list \<Rightarrow> u32 \<Rightarrow> 'h \<Rightarrow> (u32 \<times> u32 \<times> 'h) outcome" where
  "FSWrite host hFile pBuffer count h =
     (if unat count \<le> length pBuffer then
        (case p_write host hFile (take (unat count) pBuffer) h of
           (Inl e, h) \<Rightarrow> Ret (ERROR_NO_DATA, count, h)
         | (Inr n, h) \<Rightarrow> Ret (NO_ERROR, of_nat n, h))
      else Undef)"

text \<open>\<open>long long\<close>: the sum of two values, which must not overflow.\<close>

definition add64 :: "int \<Rightarrow> int \<Rightarrow> int outcome" where
  "add64 a b = (if - (2 ^ 63) \<le> a + b \<and> a + b < 2 ^ 63 then Ret (a + b) else Undef)"

text \<open>The value of \<open>lseek\<close> as a C value, and as the variable of type \<open>long\<close> it is kept in.\<close>

definition off_value :: "errno + int \<Rightarrow> int" where
  "off_value r = (case r of Inl e \<Rightarrow> -1 | Inr v \<Rightarrow> v)"

definition long_value :: "int \<Rightarrow> int" where
  "long_value v = signed_take_bit 31 v"

definition FSSetFilePtrL ::
    "'h posix \<Rightarrow> u32 \<Rightarrow> int \<Rightarrow> u32 \<Rightarrow> 64 word \<Rightarrow> 'h \<Rightarrow> (u32 \<times> 64 word \<times> 'h) outcome" where
  "FSSetFilePtrL host handle ib method ibActual h =
     (case p_fstat host handle h of
        Inl e \<Rightarrow> Ret (ERROR_INVALID_HANDLE, ibActual, h)
      | Inr st \<Rightarrow>
        let len = st_size st;
            (r, h) = p_lseek host handle 0 SEEK_CURRENT h;
            pos = off_value r;
            ibActual = of_int pos in
        if method = FILE_BEGIN \<or> method = FILE_CURRENT \<or> method = FILE_END then
          obind (if method = FILE_BEGIN then Ret ib else if method = FILE_CURRENT then add64 pos ib else add64 len ib) (\<lambda>pos.
            if pos < 0 then Ret (ERROR_NEGATIVE_SEEK, ibActual, h)
            else let (r, h) = p_lseek host handle pos SEEK_START h in
              if long_value (off_value r) = -1 then Ret (ERROR_SEEK_ON_DEVICE, ibActual, h)
              else Ret (NO_ERROR, of_int pos, h))
        else Ret (ERROR_INVALID_PARAMETER, ibActual, h))"

definition FSClose :: "'h posix \<Rightarrow> u32 \<Rightarrow> 'h \<Rightarrow> u32 \<times> 'h" where
  "FSClose host hFile h =
     (case p_close host hFile h of
        (Some e, h) \<Rightarrow> (if e = EBADF then ERROR_INVALID_HANDLE else ERROR_ACCESS_DENIED, h)
      | (None, h) \<Rightarrow> (NO_ERROR, h))"

text \<open>The type bits of a mode, kept in an \<open>unsigned short\<close>.\<close>

definition fmt_of :: "u32 \<Rightarrow> u32" where
  "fmt_of m = (ucast (ucast m :: u16) :: u32) AND 0xF000"

definition FSQueryHType :: "'h posix \<Rightarrow> u32 \<Rightarrow> u32 \<Rightarrow> u32 \<Rightarrow> 'h \<Rightarrow> u32 \<times> u32 \<times> u32" where
  "FSQueryHType host handle pType pAttr h =
     (if p_isatty host handle h then (NO_ERROR, 1, 0)
      else (case p_fstat host handle h of
        Inl e \<Rightarrow> (ERROR_INVALID_HANDLE, pType, pAttr)
      | Inr st \<Rightarrow>
          let m = st_mode st in
          if fmt_of m = 0x8000 then (NO_ERROR, 0, handle)
          else if fmt_of m = 0x2000 then (NO_ERROR, 1, 0)
          else if fmt_of m = 0x1000 then (NO_ERROR, 2, 0)
          else (NO_ERROR, pType, pAttr)))"

section \<open>Opening files\<close>

record filehandle =
  hfile :: u32
  openmode :: u32
  filename :: string

definition open_mode :: "u32 \<Rightarrow> u32 \<Rightarrow> u32" where
  "open_mode fsOpenMode fsOpenFlags =
     (let mode = 0;
          mode = (if fsOpenMode AND OPEN_ACCESS_READONLY \<noteq> 0 then mode OR O_RDONLY else mode);
          mode = (if fsOpenMode AND OPEN_ACCESS_WRITEONLY \<noteq> 0 then mode OR O_WRONLY else mode);
          mode = (if fsOpenMode AND OPEN_ACCESS_READWRITE \<noteq> 0 then mode OR O_RDWR else mode);
          mode = (if fsOpenMode AND OPEN_SHARE_DENYREAD \<noteq> 0 then mode OR (O_RDWR OR O_EXCL) else mode);
          mode = (if fsOpenMode AND OPEN_SHARE_DENYWRITE \<noteq> 0 then mode OR (O_WRONLY OR O_EXCL) else mode);
          mode = (if fsOpenMode AND OPEN_SHARE_DENYREADWRITE \<noteq> 0 then mode OR (O_RDONLY OR O_EXCL) else mode);
          mode = (if fsOpenMode AND OPEN_SHARE_DENYNONE \<noteq> 0 then mode AND NOT O_EXCL else mode);
          mode = (if fsOpenFlags AND OPEN_ACTION_CREATE_IF_NEW \<noteq> 0 then mode OR O_CREAT else mode)
      in if fsOpenFlags AND OPEN_ACTION_REPLACE_IF_EXISTS \<noteq> 0 then mode OR O_TRUNC else mode)"

definition open_error :: "errno \<Rightarrow> u32" where
  "open_error e = (if e = EMFILE then ERROR_TOO_MANY_OPEN_FILES
     else if e = ENOENT then ERROR_FILE_NOT_FOUND else ERROR_ACCESS_DENIED)"

definition open_action :: "u32 \<Rightarrow> bool \<Rightarrow> u32 \<Rightarrow> u32 \<Rightarrow> u32" where
  "open_action fsOpenFlags file_existed md pulAction =
     (if fsOpenFlags AND OPEN_ACTION_OPEN_IF_EXISTS \<noteq> 0 then
        if file_existed \<and> md AND NOT O_TRUNC \<noteq> 0 then FILE_EXISTED
        else if file_existed \<and> md AND O_TRUNC \<noteq> 0 then FILE_TRUNCATED
        else if \<not> file_existed then FILE_CREATED
        else pulAction
      else pulAction)"

text \<open>The copy of a name in an array of \<open>CCHMAXPATH\<close> characters, with backslashes.\<close>

definition name_copy :: "string \<Rightarrow> string outcome" where
  "name_copy s = (if length s < CCHMAXPATH then Ret (fold_slash s) else Undef)"

text \<open>
  \<open>FSOpenL\<close> returns the code, the handle and the action stored for the caller, the list of open files
  and the host; file size, attributes and extended attributes are ignored by the code.
\<close>

definition FSOpenL ::
    "'h posix \<Rightarrow> FSRouter \<Rightarrow> string \<Rightarrow> u32 \<Rightarrow> u32 \<Rightarrow> u32 \<Rightarrow> u32 \<Rightarrow> filehandle list \<Rightarrow> 'h
     \<Rightarrow> (u32 \<times> u32 \<times> u32 \<times> filehandle list \<times> 'h) outcome" where
  "FSOpenL host fsrouter pszFileName phFile pulAction fsOpenFlags fsOpenMode fileroot h =
     (if fsOpenMode AND OPEN_FLAGS_DASD \<noteq> 0 then Ret (ERROR_ACCESS_DENIED, phFile, pulAction, fileroot, h)
      else let mode = open_mode fsOpenMode fsOpenFlags in
        obind (name_copy pszFileName) (\<lambda>fn.
        obind (pathconv fsrouter fn) (\<lambda>c.
        case c of
          None \<Rightarrow> Ret (ERROR_PATH_NOT_FOUND, phFile, pulAction, fileroot, h)
        | Some newfilename \<Rightarrow>
          if length newfilename + 1 > 256 then Ret (ERROR_FILENAME_EXCED_RANGE, phFile, pulAction, fileroot, h)
          else let file_existed = (case p_stat host newfilename h of Inl e \<Rightarrow> False | Inr st \<Rightarrow> True) in
            (case p_open host newfilename mode h of
               (Inl e, h) \<Rightarrow> Ret (open_error e, phFile, pulAction, fileroot, h)
             | (Inr handle, h) \<Rightarrow>
                 if fsOpenFlags AND OPEN_ACTION_FAIL_IF_EXISTS \<noteq> 0 then
                   Ret (ERROR_OPEN_FAILED, phFile, pulAction, fileroot, snd (p_close host handle h))
                 else Ret (NO_ERROR, handle, open_action fsOpenFlags file_existed mode pulAction,
                   fileroot @ [\<lparr>hfile = handle, openmode = fsOpenMode, filename = newfilename\<rparr>], h)))))"

section \<open>State of handles\<close>

text \<open>
  \<open>for (h = fileroot; h->hfile != hFile; h = h->next) ;\<close> reads through the null pointer when the handle
  is not in the list; the test for it behind the loop is never true.
\<close>

fun find_handle :: "filehandle list \<Rightarrow> u32 \<Rightarrow> filehandle outcome" where
  "find_handle [] hFile = Undef"
| "find_handle (h # hs) hFile = (if hfile h \<noteq> hFile then find_handle hs hFile else Ret h)"

definition FSDupHandle ::
    "'h posix \<Rightarrow> u32 \<Rightarrow> u32 \<Rightarrow> filehandle list \<Rightarrow> 'h \<Rightarrow> (u32 \<times> u32 \<times> 'h) outcome" where
  "FSDupHandle host hFile phFile2 fileroot h =
     obind (find_handle fileroot hFile) (\<lambda>_.
       if phFile2 = -1 then
         (case p_dup host hFile h of
            (Inl e, h) \<Rightarrow>
              if e = EBADF then Ret (ERROR_INVALID_HANDLE, phFile2, h)
              else if e = EMFILE then Ret (ERROR_TOO_MANY_OPEN_FILES, phFile2, h)
              else Ret (ERROR_INVALID_TARGET_HANDLE, phFile2, h)
          | (Inr _, h) \<Rightarrow> Ret (ERROR_INVALID_TARGET_HANDLE, phFile2, h))
       else Ret (ERROR_INVALID_TARGET_HANDLE, phFile2, h))"

definition std_handle :: "u32 \<Rightarrow> bool" where
  "std_handle hFile \<longleftrightarrow> hFile = 0 \<or> hFile = 1 \<or> hFile = 2"

definition FSQueryFHState :: "u32 \<Rightarrow> filehandle list \<Rightarrow> (u32 \<times> u32) outcome" where
  "FSQueryFHState hFile fileroot =
     (if std_handle hFile then Ret (NO_ERROR, OPEN_ACCESS_READWRITE OR OPEN_SHARE_DENYNONE)
      else obind (find_handle fileroot hFile) (\<lambda>h. Ret (NO_ERROR, openmode h)))"

definition set_mode :: "u32 \<Rightarrow> u32 \<Rightarrow> u32" where
  "set_mode md ulMode =
     (let mode = (if ulMode AND OPEN_FLAGS_WRITE_THROUGH \<noteq> 0 then md OR O_SYNC else md);
          mode = (if ulMode AND OPEN_ACTION_REPLACE_IF_EXISTS \<noteq> 0 then mode OR O_TRUNC else mode)
      in if ulMode AND OPEN_ACCESS_READONLY \<noteq> 0 then mode OR O_RDONLY
         else if ulMode AND OPEN_ACCESS_WRITEONLY \<noteq> 0 then mode OR O_WRONLY
         else mode OR O_RDWR)"

text \<open>The assignment through the pointer changes the first structure with that handle.\<close>

fun put_mode :: "filehandle list \<Rightarrow> u32 \<Rightarrow> u32 \<Rightarrow> filehandle list" where
  "put_mode [] hFile m = []"
| "put_mode (h # hs) hFile m = (if hfile h \<noteq> hFile then h # put_mode hs hFile m else h\<lparr>openmode := m\<rparr> # hs)"

definition FSSetFHState ::
    "'h posix \<Rightarrow> u32 \<Rightarrow> u32 \<Rightarrow> filehandle list \<Rightarrow> 'h \<Rightarrow> (u32 \<times> filehandle list \<times> 'h) outcome" where
  "FSSetFHState host hFile ulMode fileroot h =
     (if \<not> std_handle hFile then
        obind (find_handle fileroot hFile) (\<lambda>fh.
          let mode = set_mode (openmode fh) ulMode;
              (rc, h) = p_fcntl host hFile mode h in
          if rc \<noteq> 0 then Ret (if rc = EBADF then ERROR_INVALID_HANDLE else ERROR_INVALID_PARAMETER, fileroot, h)
          else Ret (NO_ERROR, put_mode fileroot hFile mode, h))
      else Ret (NO_ERROR, fileroot, h))"

section \<open>Names of files and directories\<close>

definition unlink_error :: "errno \<Rightarrow> u32" where
  "unlink_error e =
     (if e = ENAMETOOLONG then ERROR_FILENAME_EXCED_RANGE
      else if e = ENOTDIR then ERROR_PATH_NOT_FOUND
      else if e = EISDIR then ERROR_INVALID_PARAMETER
      else if e = ENOENT then ERROR_FILE_NOT_FOUND
      else if e = EACCES then ERROR_ACCESS_DENIED
      else if e = EPERM then ERROR_SHARING_VIOLATION
      else NO_ERROR)"

definition rmdir_error :: "errno \<Rightarrow> u32" where
  "rmdir_error e =
     (if e = ENAMETOOLONG then ERROR_FILENAME_EXCED_RANGE
      else if e = ENOTDIR then ERROR_PATH_NOT_FOUND
      else if e = ENOENT then ERROR_FILE_NOT_FOUND
      else if e = EACCES then ERROR_ACCESS_DENIED
      else if e = EPERM then ERROR_SHARING_VIOLATION
      else if e = EBUSY then ERROR_CURRENT_DIRECTORY
      else if e \<noteq> 0 then ERROR_ACCESS_DENIED
      else NO_ERROR)"

definition mkdir_error :: "errno \<Rightarrow> u32" where
  "mkdir_error e =
     (if e = ENAMETOOLONG then ERROR_FILENAME_EXCED_RANGE
      else if e = ENOTDIR then ERROR_PATH_NOT_FOUND
      else if e = EACCES then ERROR_ACCESS_DENIED
      else if e = EPERM then ERROR_SHARING_VIOLATION
      else if e \<noteq> 0 then ERROR_ACCESS_DENIED
      else NO_ERROR)"

definition FSDelete :: "'h posix \<Rightarrow> string \<Rightarrow> 'h \<Rightarrow> (u32 \<times> 'h) outcome" where
  "FSDelete host pszFileName h =
     obind (name_copy pszFileName) (\<lambda>fn.
       case p_unlink host fn h of (Some e, h) \<Rightarrow> Ret (unlink_error e, h) | (None, h) \<Rightarrow> Ret (NO_ERROR, h))"

definition FSForceDelete :: "'h posix \<Rightarrow> string \<Rightarrow> 'h \<Rightarrow> (u32 \<times> 'h) outcome" where
  "FSForceDelete host pszFileName h =
     obind (name_copy pszFileName) (\<lambda>fn.
       case p_unlink host fn h of (Some e, h) \<Rightarrow> Ret (unlink_error e, h) | (None, h) \<Rightarrow> Ret (NO_ERROR, h))"

definition FSDeleteDir :: "'h posix \<Rightarrow> string \<Rightarrow> 'h \<Rightarrow> (u32 \<times> 'h) outcome" where
  "FSDeleteDir host pszDirName h =
     obind (name_copy pszDirName) (\<lambda>fn.
       case p_rmdir host fn h of (Some e, h) \<Rightarrow> Ret (rmdir_error e, h) | (None, h) \<Rightarrow> Ret (NO_ERROR, h))"

definition FSCreateDir :: "'h posix \<Rightarrow> string \<Rightarrow> 'h \<Rightarrow> (u32 \<times> 'h) outcome" where
  "FSCreateDir host pszDirName h =
     obind (name_copy pszDirName) (\<lambda>fn.
       case p_mkdir host fn h of (Some e, h) \<Rightarrow> Ret (mkdir_error e, h) | (None, h) \<Rightarrow> Ret (NO_ERROR, h))"

text \<open>Calls whose bodies are disabled.\<close>

definition FSResetBuffer :: "u32 \<Rightarrow> u32" where
  "FSResetBuffer hFile = NO_ERROR"

definition FSSetFileSizeL :: "u32 \<Rightarrow> int \<Rightarrow> u32" where
  "FSSetFileSizeL hFile cbSize = NO_ERROR"

definition FSSetFileInfo :: "u32 \<Rightarrow> u32 \<Rightarrow> u32" where
  "FSSetFileInfo hf ulInfoLevel = NO_ERROR"

definition FSSetPathInfo :: "string \<Rightarrow> u32 \<Rightarrow> u32 outcome" where
  "FSSetPathInfo pszPathName ulInfoLevel = obind (name_copy pszPathName) (\<lambda>_. Ret NO_ERROR)"

section \<open>Reading back what was written\<close>

text \<open>
  What POSIX says of regular files: contents and position of the open files, as \<open>view\<close> shows them, are
  changed by the calls as follows; positions below \<open>lim\<close> are accepted.
\<close>

definition overwrite :: "u8 list \<Rightarrow> nat \<Rightarrow> u8 list \<Rightarrow> u8 list" where
  "overwrite c p d = take p (c @ replicate (p - length c) 0) @ d @ drop (p + length d) c"

definition regular_files :: "'h posix \<Rightarrow> ('h \<Rightarrow> u32 \<Rightarrow> (u8 list \<times> nat) option) \<Rightarrow> nat \<Rightarrow> bool" where
  "regular_files host view lim \<longleftrightarrow> (\<forall>h fd c p. view h fd = Some (c, p) \<longrightarrow>
     (\<forall>d. \<exists>h'. p_write host fd d h = (Inr (length d), h') \<and> view h' = (view h)(fd \<mapsto> (overwrite c p d, p + length d))) \<and>
     (\<forall>n. \<exists>h'. p_read host fd n h = (Inr (take n (drop p c)), h') \<and>
        view h' = (view h)(fd \<mapsto> (c, p + length (take n (drop p c))))) \<and>
     (\<exists>h'. p_lseek host fd 0 SEEK_CURRENT h = (Inr (int p), h') \<and> view h' = view h) \<and>
     (\<forall>q<lim. \<exists>h'. p_lseek host fd (int q) SEEK_START h = (Inr (int q), h') \<and> view h' = (view h)(fd \<mapsto> (c, q))) \<and>
     (\<exists>st. p_fstat host fd h = Inr st \<and> st_size st = int (length c)))"

lemma regular_fileD:
  assumes "regular_files host view lim" and "view h fd = Some (c, p)"
  shows "\<exists>h'. p_write host fd d h = (Inr (length d), h') \<and> view h' = (view h)(fd \<mapsto> (overwrite c p d, p + length d))"
    and "\<exists>h'. p_read host fd n h = (Inr (take n (drop p c)), h') \<and>
      view h' = (view h)(fd \<mapsto> (c, p + length (take n (drop p c))))"
    and "\<exists>h'. p_lseek host fd 0 SEEK_CURRENT h = (Inr (int p), h') \<and> view h' = view h"
    and "q < lim \<Longrightarrow> \<exists>h'. p_lseek host fd (int q) SEEK_START h = (Inr (int q), h') \<and> view h' = (view h)(fd \<mapsto> (c, q))"
    and "\<exists>st. p_fstat host fd h = Inr st \<and> st_size st = int (length c)"
  using assms unfolding regular_files_def by blast+

definition seek_base :: "u32 \<Rightarrow> u8 list \<Rightarrow> nat \<Rightarrow> int" where
  "seek_base method c p = (if method = FILE_BEGIN then 0 else if method = FILE_CURRENT then int p else int (length c))"

lemma long_value_small: "0 \<le> v \<Longrightarrow> v < 2 ^ 31 \<Longrightarrow> long_value v = v"
  by (simp add: long_value_def signed_take_bit_int_eq_self)

lemma seek_moves:
  assumes "regular_files host view lim" and "view h fd = Some (c, p)" and "method < 3"
    and "seek_base method c p + ib = int t" and "t < lim" and "t < 2 ^ 63" and "long_value (int t) \<noteq> -1"
  shows "\<exists>h'. FSSetFilePtrL host fd ib method a h = Ret (NO_ERROR, of_nat t, h') \<and> view h' = (view h)(fd \<mapsto> (c, t))"
proof -
  obtain st where st: "p_fstat host fd h = Inr st" "st_size st = int (length c)"
    using regular_fileD(5) [OF assms(1,2)] by blast
  obtain h1 where h1: "p_lseek host fd 0 SEEK_CURRENT h = (Inr (int p), h1)" "view h1 = view h"
    using regular_fileD(3) [OF assms(1,2)] by blast
  obtain h2 where h2: "p_lseek host fd (int t) SEEK_START h1 = (Inr (int t), h2)" "view h2 = (view h1)(fd \<mapsto> (c, t))"
    using regular_fileD(4) [OF assms(1) _ assms(5), of h1 fd c p] h1(2) assms(2) by auto
  have "method = 0 \<or> method = 1 \<or> method = 2"
    using assms(3) by (auto simp: word_less_nat_alt word_unat_eq_iff)
  with assms(4,6,7) st h1 h2 show ?thesis
    by (elim disjE) (simp_all add: FSSetFilePtrL_def off_value_def add64_def seek_base_def)
qed

text \<open>Positioning a regular file: the new position is taken from the start, the current position or the
  end, positions before the start are refused, and only positions whose low 32 bits are all ones are
  reported as an error although the file was positioned.\<close>

theorem seek_positions:
  assumes "regular_files host view lim" and "view h fd = Some (c, p)" and "method < 3"
    and "seek_base method c p + ib = t" and "- (2 ^ 63) \<le> t" and "t < 2 ^ 63" and "t < int lim"
  shows "\<exists>h'. FSSetFilePtrL host fd ib method a h =
      Ret (if t < 0 then ERROR_NEGATIVE_SEEK else if t mod 2 ^ 32 = 2 ^ 32 - 1 then ERROR_SEEK_ON_DEVICE else NO_ERROR,
        if 0 \<le> t \<and> t mod 2 ^ 32 \<noteq> 2 ^ 32 - 1 then of_int t else of_nat p, h') \<and>
    view h' = (if t < 0 then view h else (view h)(fd \<mapsto> (c, nat t)))"
proof -
  obtain st where st: "p_fstat host fd h = Inr st" "st_size st = int (length c)"
    using regular_fileD(5) [OF assms(1,2)] by blast
  obtain h1 where h1: "p_lseek host fd 0 SEEK_CURRENT h = (Inr (int p), h1)" "view h1 = view h"
    using regular_fileD(3) [OF assms(1,2)] by blast
  have m: "method = 0 \<or> method = 1 \<or> method = 2"
    using assms(3) by (auto simp: word_less_nat_alt word_unat_eq_iff)
  show ?thesis
  proof (cases "t < 0")
    case True
    with m assms(4-6) st h1 show ?thesis
      by (elim disjE) (simp_all add: FSSetFilePtrL_def off_value_def add64_def seek_base_def)
  next
    case False
    then have "nat t < lim" using assms(7) by simp
    then obtain h2 where h2: "p_lseek host fd t SEEK_START h1 = (Inr t, h2)" "view h2 = (view h1)(fd \<mapsto> (c, nat t))"
      using regular_fileD(4) [OF assms(1), of h1 fd c p "nat t"] h1(2) assms(2,7) False by auto
    have "long_value t = -1 \<longleftrightarrow> t mod 2 ^ 32 = 2 ^ 32 - 1"
      using signed_take_bit_eq_iff_take_bit_eq [of 31 t "-1"]
      by (simp add: long_value_def take_bit_eq_mod)
    with m assms(4-6) st h1 h2 False show ?thesis
      by (elim disjE) (simp_all add: FSSetFilePtrL_def off_value_def add64_def seek_base_def)
  qed
qed

text \<open>C14: Writing, going back and reading returns the bytes written; the rest of the file and the other
  files are not changed.\<close>

theorem write_read_roundtrip:
  assumes "regular_files host view lim" and "view h fd = Some (c, p)" and "p < lim" and "p < 2 ^ 31"
    and "length d < 2 ^ 32" and "length buf = length d"
  shows "\<exists>h1 h2 h3. FSWrite host fd d (of_nat (length d)) h = Ret (NO_ERROR, of_nat (length d), h1) \<and>
    FSSetFilePtrL host fd (int p) FILE_BEGIN a h1 = Ret (NO_ERROR, of_nat p, h2) \<and>
    FSRead host fd buf (of_nat (length d)) h2 = Ret (NO_ERROR, d, of_nat (length d), h3) \<and>
    view h3 = (view h)(fd \<mapsto> (overwrite c p d, p + length d))"
proof -
  have len: "unat (of_nat (length d) :: u32) = length d" using assms(5) by (simp add: unat_of_nat32)
  obtain h1 where h1: "p_write host fd d h = (Inr (length d), h1)"
      "view h1 = (view h)(fd \<mapsto> (overwrite c p d, p + length d))"
    using regular_fileD(1) [OF assms(1,2)] by blast
  then have v1: "view h1 fd = Some (overwrite c p d, p + length d)" by simp
  obtain h2 where h2: "FSSetFilePtrL host fd (int p) FILE_BEGIN a h1 = Ret (NO_ERROR, of_nat p, h2)"
      "view h2 = (view h1)(fd \<mapsto> (overwrite c p d, p))"
    using seek_moves [OF assms(1) v1, of FILE_BEGIN "int p" p a] assms(3,4)
    by (auto simp: seek_base_def long_value_small)
  have d: "take (length d) (drop p (overwrite c p d)) = d" by (simp add: overwrite_def)
  obtain h3 where "p_read host fd (length d) h2 = (Inr d, h3)"
      "view h3 = (view h2)(fd \<mapsto> (overwrite c p d, p + length d))"
    using regular_fileD(2) [OF assms(1), of h2 fd "overwrite c p d" p "length d"] h2(2) d by auto
  then show ?thesis
    using h1 h2 assms(6) len by (intro exI [of _ h1] exI [of _ h2] exI [of _ h3]) (simp add: FSWrite_def FSRead_def)
qed

text \<open>A host with files in memory.\<close>

definition mem_file :: "(u32 \<Rightarrow> (u8 list \<times> nat) option) \<Rightarrow> u32 \<Rightarrow> (u8 list \<times> nat \<Rightarrow> 'a \<times> (u8 list \<times> nat)) \<Rightarrow>
    (errno + 'a) \<times> (u32 \<Rightarrow> (u8 list \<times> nat) option)" where
  "mem_file h fd f = (case h fd of None \<Rightarrow> (Inl EBADF, h) | Some x \<Rightarrow> let (v, x) = f x in (Inr v, h(fd \<mapsto> x)))"

definition plain_stat :: "int \<Rightarrow> fstat" where
  "plain_stat n = \<lparr>st_mode = 0x81A4, st_size = n, st_blksize = 512, st_blocks = 1, st_ctime = 0, st_atime = 0, st_mtime = 0\<rparr>"

definition mem_host :: "(u32 \<Rightarrow> (u8 list \<times> nat) option) posix" where
  "mem_host = \<lparr>
     p_read = (\<lambda>fd n h. mem_file h fd (\<lambda>(c, p). (take n (drop p c), (c, p + length (take n (drop p c)))))),
     p_write = (\<lambda>fd d h. mem_file h fd (\<lambda>(c, p). (length d, (overwrite c p d, p + length d)))),
     p_lseek = (\<lambda>fd q w h. mem_file h fd (\<lambda>(c, p). let q = (if w = SEEK_CURRENT then p + nat q else nat q) in (int q, (c, q)))),
     p_fstat = (\<lambda>fd h. case h fd of None \<Rightarrow> Inl EBADF | Some (c, p) \<Rightarrow> Inr (plain_stat (int (length c)))),
     p_isatty = (\<lambda>fd h. False),
     p_close = (\<lambda>fd h. (if h fd = None then Some EBADF else None, h(fd := None))),
     p_dup = (\<lambda>fd h. (Inl EMFILE, h)),
     p_fcntl = (\<lambda>fd m h. (0, h)),
     p_stat = (\<lambda>s h. Inr (plain_stat 0)),
     p_open = (\<lambda>s m h. (Inr (if h 3 = None then 3 else 4), h((if h 3 = None then 3 else 4) \<mapsto> ([], 0)))),
     p_unlink = (\<lambda>s h. (None, h)), p_rmdir = (\<lambda>s h. (None, h)), p_mkdir = (\<lambda>s h. (None, h))\<rparr>"

lemma mem_host_regular: "regular_files mem_host (\<lambda>h. h) lim"
  by (auto simp: regular_files_def mem_host_def mem_file_def plain_stat_def fun_upd_idem_iff)

theorem seek_positions_witness:
  "\<exists>h'. FSSetFilePtrL mem_host 3 5 FILE_CURRENT 0 [3 \<mapsto> ([1, 2], 1)] = Ret (NO_ERROR, 6, h') \<and> h' = [3 \<mapsto> ([1, 2], 6)]"
  using seek_positions [OF mem_host_regular, of "[3 \<mapsto> ([1, 2], 1)]" 3 "[1, 2]" 1 FILE_CURRENT 5 6 "2 ^ 63" 0]
  by (simp add: seek_base_def)

theorem write_read_roundtrip_witness:
  "\<exists>h1 h2 h3. FSWrite mem_host 3 [7, 8] 2 [3 \<mapsto> ([1, 2], 1)] = Ret (NO_ERROR, 2, h1) \<and>
    FSSetFilePtrL mem_host 3 1 FILE_BEGIN 0 h1 = Ret (NO_ERROR, 1, h2) \<and>
    FSRead mem_host 3 [0, 0] 2 h2 = Ret (NO_ERROR, [7, 8], 2, h3) \<and> h3 = [3 \<mapsto> ([1, 7, 8], 3)]"
  using write_read_roundtrip [OF mem_host_regular, of "[3 \<mapsto> ([1, 2], 1)]" 3 "[1, 2]" 1 2 "[7, 8]" "[0, 0]" 0]
  by (simp add: overwrite_def numeral_3_eq_3)

section \<open>Handles\<close>

lemma find_handle_append:
  "find_handle (hs @ [h]) x = (if x \<in> hfile ` set hs then find_handle hs x else if hfile h = x then Ret h else Undef)"
  by (induction hs) auto

lemma find_handle_Undef: "find_handle hs x = Undef \<longleftrightarrow> x \<notin> hfile ` set hs"
  by (induction hs) auto

lemma FSOpenL_success:
  assumes "FSOpenL host r name ph pa fl md fr h = Ret (rc, x, a, fr', h')"
  shows "rc = NO_ERROR \<and> (\<exists>f. length f < 256 \<and> fr' = fr @ [\<lparr>hfile = x, openmode = md, filename = f\<rparr>]) \<or> rc \<noteq> NO_ERROR \<and> fr' = fr"
proof (cases "md AND OPEN_FLAGS_DASD = 0")
  case True
  then obtain fn c where c: "name_copy name = Ret fn" "pathconv r fn = Ret c"
    using assms by (auto simp: FSOpenL_def Let_def)
  obtain q h1 where q: "p_open host (the c) (open_mode md fl) h = (q, h1)" by fastforce
  show ?thesis
  proof (cases "c = None \<or> length (the c) + 1 > 256")
    case True
    with assms c \<open>md AND OPEN_FLAGS_DASD = 0\<close> show ?thesis by (cases c) (auto simp: FSOpenL_def Let_def)
  next
    case False
    with assms c q \<open>md AND OPEN_FLAGS_DASD = 0\<close> show ?thesis
      by (cases c; cases q) (auto simp: FSOpenL_def Let_def open_error_def split: if_splits)
  qed
qed (use assms in \<open>auto simp: FSOpenL_def\<close>)

text \<open>After a successful open the state of the new handle is the mode it was opened with and that of every
  other handle is unchanged; but a handle number that was in use before keeps the mode of its first
  use, since closed files stay in the list.\<close>

theorem open_then_query:
  assumes "FSOpenL host r name ph pa fl md fr h = Ret (NO_ERROR, x, a, fr', h')"
  shows "FSQueryFHState y fr' =
    (if y = x \<and> \<not> std_handle y \<and> y \<notin> hfile ` set fr then Ret (NO_ERROR, md) else FSQueryFHState y fr)"
  using FSOpenL_success [OF assms] find_handle_Undef [of fr y]
  by (auto simp: FSQueryFHState_def find_handle_append)

definition demo_router :: FSRouter where
  "demo_router = (case init_globals of Ret r \<Rightarrow> r | _ \<Rightarrow> FSRouter_init)"

lemma demo_pathconv:
  "pathconv demo_router (''C:'' @ BSL # ''A'') = Ret (Some ''/file/system/a'')"
proof -
  obtain r where r: "init_globals = Ret r" "router_ok r" "\<forall>c. FSRouter_route r c = Ret (standard_route c)"
    by (rule init_globals_route)
  have "tolower (CHR ''C'') = drive_letter 2" by (simp add: drive_letter_def tolower_def cstr_simps)
  note pc = pathconv_route [OF r(2) _ this, of "''A''" "[]"]
  have d: "demo_router = r" by (simp only: demo_router_def r(1) outcome.case)
  show ?thesis
    using pc [simplified] unfolding d
    by (simp add: r(3) standard_route_def standard_drives_def letter_def I_Fs_srv_init2_def host_name_def tolower_def cstr_simps)
qed

text \<open>
  Runs of the server: opens and changes of state, and calls that only touch the host (reads, writes,
  closes, deletions, other users of the files). \<open>given\<close> collects the handles handed out.
\<close>

inductive fs_run :: "'h posix \<Rightarrow> FSRouter \<Rightarrow> filehandle list \<Rightarrow> 'h \<Rightarrow> u32 set \<Rightarrow> bool" for host r where
  run_start: "fs_run host r [] h {}"
| run_open: "fs_run host r fr h given \<Longrightarrow> FSOpenL host r name ph pa fl md fr h = Ret (rc, x, a, fr', h')
    \<Longrightarrow> fs_run host r fr' h' (if rc = NO_ERROR then insert x given else given)"
| run_state: "fs_run host r fr h given \<Longrightarrow> FSSetFHState host x md fr h = Ret (rc, fr', h') \<Longrightarrow> fs_run host r fr' h' given"
| run_host: "fs_run host r fr h given \<Longrightarrow> fs_run host r fr h' given"

lemma put_mode_keeps: "map hfile (put_mode fr x m) = map hfile fr" "map filename (put_mode fr x m) = map filename fr"
  by (induction fr) auto

lemma put_mode_sets: "hfile ` set (put_mode fr x m) = hfile ` set fr" "filename ` set (put_mode fr x m) = filename ` set fr"
  using put_mode_keeps [of fr x m] by (metis list.set_map)+

lemma FSSetFHState_list:
  "FSSetFHState host x md fr h = Ret (rc, fr', h') \<Longrightarrow> fr' = fr \<or> (\<exists>m. fr' = put_mode fr x m)"
  by (auto simp: FSSetFHState_def Let_def case_prod_unfold split: if_splits)

lemma fs_run_inv:
  "fs_run host r fr h given \<Longrightarrow> given = hfile ` set fr \<and> (\<forall>n \<in> filename ` set fr. length n < 256)"
proof (induction rule: fs_run.induct)
  case (run_open fr h given name ph pa fl md rc x a fr' h')
  then show ?case using FSOpenL_success [OF run_open(2)] by auto
next
  case (run_state fr h given x md rc fr' h')
  then show ?case using FSSetFHState_list [OF run_state(2)] put_mode_sets by metis
qed auto

text \<open>In every run the names kept for open files fit into their 256 characters, and the state of exactly the
  standard handles and the handles handed out can be queried and set: other numbers make the search
  run off the list.\<close>

theorem handle_states_known:
  assumes "fs_run host r fr h given"
  shows "(FSQueryFHState x fr = Undef \<longleftrightarrow> \<not> std_handle x \<and> x \<notin> given) \<and>
    (FSSetFHState host x md fr h = Undef \<longleftrightarrow> \<not> std_handle x \<and> x \<notin> given) \<and>
    (\<forall>f \<in> set fr. length (filename f) < 256)"
proof -
  have f: "\<exists>fh. find_handle fr x = Ret fh" if "x \<in> hfile ` set fr"
    using that by (induction fr) auto
  have g: "given = hfile ` set fr" "\<forall>n \<in> filename ` set fr. length n < 256"
    using fs_run_inv [OF assms] by auto
  show ?thesis
  proof (cases "x \<in> given")
    case True
    then obtain fh where "find_handle fr x = Ret fh" using f g(1) by auto
    with True g(2) show ?thesis
      by (auto simp: FSQueryFHState_def FSSetFHState_def Let_def split: prod.splits)
  next
    case False
    then have "find_handle fr x = Undef" using g(1) find_handle_Undef by blast
    with False g(2) show ?thesis by (auto simp: FSQueryFHState_def FSSetFHState_def)
  qed
qed

lemma demo_file_open:
  "FSOpenL mem_host demo_router (''C:'' @ BSL # ''A'') 0 0 1 0x42 [] (\<lambda>_. None) =
    Ret (NO_ERROR, 3, 1, [\<lparr>hfile = 3, openmode = 0x42, filename = ''/file/system/a''\<rparr>], [3 \<mapsto> ([], 0)])"
  by (simp add: FSOpenL_def name_copy_def fold_slash_def demo_pathconv [simplified] mem_host_def open_mode_def
      open_action_def Let_def)

theorem open_then_query_witness:
  "FSQueryFHState 3 [\<lparr>hfile = 3, openmode = 0x42, filename = ''/file/system/a''\<rparr>] = Ret (NO_ERROR, 0x42)"
  using open_then_query [OF demo_file_open, of 3] by (simp add: std_handle_def)

theorem handle_states_known_witness:
  "FSQueryFHState 3 [\<lparr>hfile = 3, openmode = 0x42, filename = ''/file/system/a''\<rparr>] \<noteq> Undef \<and>
   FSQueryFHState 5 [\<lparr>hfile = 3, openmode = 0x42, filename = ''/file/system/a''\<rparr>] = Undef"
proof -
  have "fs_run mem_host demo_router [\<lparr>hfile = 3, openmode = 0x42, filename = ''/file/system/a''\<rparr>] [3 \<mapsto> ([], 0)] {3}"
    using run_open [OF run_start demo_file_open] by simp
  from handle_states_known [OF this, of 3 0] handle_states_known [OF this, of 5 0]
  show ?thesis by (simp add: std_handle_def)
qed

section \<open>Open modes and names\<close>

text \<open>With sharing left open the host opens the file for the access that was asked for. The sharing mode
  ``deny write'' of a reader, whose bit also matches the mask of ``deny read'', turns the access into the
  invalid value 3, whatever the flags are.\<close>

theorem open_mode_access:
  "open_mode (OPEN_ACCESS_READONLY OR OPEN_SHARE_DENYNONE) fl AND 3 = O_RDONLY \<and>
   open_mode (OPEN_ACCESS_WRITEONLY OR OPEN_SHARE_DENYNONE) fl AND 3 = O_WRONLY \<and>
   open_mode (OPEN_ACCESS_READWRITE OR OPEN_SHARE_DENYNONE) fl AND 3 = O_RDWR \<and>
   open_mode (OPEN_ACCESS_READONLY OR OPEN_SHARE_DENYWRITE) fl AND 3 = 3"
  by (simp add: open_mode_def Let_def)

lemma pathconv_name:
  assumes "router_ok r" and "pathconv r fn = Ret (Some n)"
  obtains s d nm where "n = s @ host_name d @ host_name nm" "s = [] \<or> (\<exists>c fsrv. FSRouter_route r c = Ret (Some fsrv) \<and> mountpoint fsrv = Some s)"
    "get_directory fn = Some (Some d)"
proof -
  obtain c d where c: "get_drv fn = Some c" "tolower c \<noteq> NUL" "get_directory fn = Some (Some d)"
    using assms(2) by (auto simp: pathconv_def Let_def split: option.splits if_splits)
  show ?thesis
  proof (cases "99 \<le> sint (u8_of_char (tolower c)) \<and> sint (u8_of_char (tolower c)) \<le> 122")
    case True
    with assms(2) c obtain fsrv s where "FSRouter_route r (tolower c) = Ret (Some fsrv)" "mountpoint fsrv = Some s"
        "n = s @ host_name d @ host_name (get_name fn)"
      by (auto simp: pathconv_def Let_def DosNameConversion_host split: option.splits)
    with c(3) show ?thesis by (intro that) auto
  next
    case False
    with assms(2) c have "n = [] @ host_name d @ host_name (get_name fn)"
      by (auto simp: pathconv_def Let_def DosNameConversion_host split: if_splits)
    with c(3) show ?thesis by (intro that) auto
  qed
qed

lemma host_name_no_BSL: "BSL \<notin> set (host_name s)"
  by (auto simp: host_name_def char_eq_of_char of_char_tolower split: if_splits)

lemma get_directory_BSL: "get_directory fn = Some (Some d) \<Longrightarrow> BSL \<in> set fn"
proof (rule ccontr)
  assume a: "get_directory fn = Some (Some d)" and b: "BSL \<notin> set fn"
  then have "last_index BSL (drop k fn) k None = None" for k
    using last_index_none [of BSL "drop k fn" k None] by (meson in_set_dropD)
  with a show False by (auto simp: get_directory_def Let_def bind_eq_Some_conv split: if_splits)
qed

text \<open>Deleting a file uses the OS/2 name, opening it the name of the host: as long as the host's directories are
  named without backslashes, the name that is opened is never the name that is deleted.\<close>

theorem delete_other_name:
  assumes "router_ok r" and "\<forall>c s m. FSRouter_route r c = Ret (Some s) \<longrightarrow> mountpoint s = Some m \<longrightarrow> BSL \<notin> set m"
    and "name_copy name = Ret fn" and "pathconv r fn = Ret (Some n)"
  shows "FSDelete host name h =
      (case p_unlink host fn h of (Some e, h) \<Rightarrow> Ret (unlink_error e, h) | (None, h) \<Rightarrow> Ret (NO_ERROR, h)) \<and> fn \<noteq> n"
proof -
  obtain s d nm where p: "n = s @ host_name d @ host_name nm"
      "s = [] \<or> (\<exists>c fsrv. FSRouter_route r c = Ret (Some fsrv) \<and> mountpoint fsrv = Some s)" "get_directory fn = Some (Some d)"
    using pathconv_name [OF assms(1,4)] .
  then have "BSL \<notin> set n" using assms(2) host_name_no_BSL by auto
  moreover have "BSL \<in> set fn" using p(3) by (rule get_directory_BSL)
  ultimately show ?thesis using assms(3) by (auto simp: FSDelete_def)
qed

theorem delete_other_name_witness:
  "FSDelete mem_host (''C:'' @ BSL # ''A'') (\<lambda>_. None) = Ret (NO_ERROR, \<lambda>_. None) \<and> ''C:'' @ BSL # ''A'' \<noteq> ''/file/system/a''"
proof -
  obtain r where r: "init_globals = Ret r" "router_ok r" "\<forall>c. FSRouter_route r c = Ret (standard_route c)"
    by (rule init_globals_route)
  have d: "demo_router = r" by (simp only: demo_router_def r(1) outcome.case)
  have m: "mountpoint s = Some m \<Longrightarrow> BSL \<notin> set m" if "s \<in> set standard_drives" for s m
    using that by (auto simp: standard_drives_def I_Fs_srv_init2_def)
  have "\<forall>c s m. FSRouter_route r c = Ret (Some s) \<longrightarrow> mountpoint s = Some m \<longrightarrow> BSL \<notin> set m"
    using r(3) m by (auto simp: standard_route_def find_Some_iff dest: nth_mem)
  from delete_other_name [OF r(2) this, of "''C:'' @ BSL # ''A''" "''C:'' @ BSL # ''A''" "''/file/system/a''" mem_host "\<lambda>_. None"]
  show ?thesis using demo_pathconv by (simp add: name_copy_def fold_slash_def mem_host_def d)
qed

end
