(* ===== verification/FsFind.thy ===== *)
theory FsFind
  imports FsFile
begin

text \<open>
  Searching directories (\<open>FSFindFirst\<close>, \<open>FSFindNext\<close> and \<open>FSFindClose\<close> of \<^verbatim>\<open>server/os2fs/api/api.c\<close>). A search keeps
  the list of names that \<open>glob\<close> returned and a counter. The loops write every entry through a pointer that
  is not advanced, so the model has the one structure at the start of the caller's buffer, and how far
  the caller's pointer is moved from there. \<open>glob\<close> and \<open>localtime_r\<close> belong to the host; seconds are
  never negative. \<open>malloc\<close> takes the next address of a list and is taken to succeed while there is one.
\<close>

section \<open>Structures\<close>

record tm =
  tm_sec :: int
  tm_min :: int
  tm_hour :: int
  tm_mday :: int
  tm_mon :: int
  tm_year :: int

record 'h find_host = "'h posix" +
  p_glob :: "string \<Rightarrow> 'h \<Rightarrow> string list"
  p_localtime :: "int \<Rightarrow> tm"

text \<open>Bit fields hold values modulo a power of two.\<close>

record FTIME =
  twosecs :: "5 word"
  minutes :: "6 word"
  hours :: "5 word"

record FDATE =
  day :: "5 word"
  month :: "4 word"
  year :: "7 word"

text \<open>
  \<open>FILEFINDBUF3\<close> and, with wider file sizes, \<open>FILEFINDBUF3L\<close>.
\<close>

record FILEFINDBUF3 =
  oNextEntryOffset :: u32
  fdateCreation :: FDATE
  ftimeCreation :: FTIME
  fdateLastAccess :: FDATE
  ftimeLastAccess :: FTIME
  fdateLastWrite :: FDATE
  ftimeLastWrite :: FTIME
  cbFile :: "64 word"
  cbFileAlloc :: "64 word"
  attrFile :: u32
  cchName :: u8
  achName :: string

text \<open>Sizes of both structures: the first is packed, the second is rounded up to a multiple of four.\<close>

definition find_size :: "bool \<Rightarrow> u32" where
  "find_size large = (if large then 296 else 285)"

text \<open>The search structure; no list of names means that the memory was not written or was freed.\<close>

record filefindstruc =
  gl_paths :: "string list option"
  ctr :: nat
  find_attr :: u32
  ulInfoLevel :: u32

record find_state =
  thehdir :: filefindstruc
  find_heap :: "u32 \<rightharpoonup> filefindstruc"
  find_mallocs :: "u32 list"

abbreviation (input) FIL_STANDARD :: u32 where "FIL_STANDARD \<equiv> 1"
abbreviation (input) FIL_STANDARDL :: u32 where "FIL_STANDARDL \<equiv> 11"
abbreviation (input) HDIR_SYSTEM :: u32 where "HDIR_SYSTEM \<equiv> 1"
abbreviation (input) HDIR_CREATE :: u32 where "HDIR_CREATE \<equiv> -1"
abbreviation (input) FILE_READONLY :: u32 where "FILE_READONLY \<equiv> 0x1"
abbreviation (input) FILE_HIDDEN :: u32 where "FILE_HIDDEN \<equiv> 0x2"
abbreviation (input) FILE_SYSTEM :: u32 where "FILE_SYSTEM \<equiv> 0x4"
abbreviation (input) FILE_DIRECTORY :: u32 where "FILE_DIRECTORY \<equiv> 0x100"
abbreviation (input) FILE_ARCHIVED :: u32 where "FILE_ARCHIVED \<equiv> 0x200"
abbreviation (input) MUST_HAVE_READONLY :: u32 where "MUST_HAVE_READONLY \<equiv> 0x100"
abbreviation (input) MUST_HAVE_HIDDEN :: u32 where "MUST_HAVE_HIDDEN \<equiv> 0x200"
abbreviation (input) MUST_HAVE_SYSTEM :: u32 where "MUST_HAVE_SYSTEM \<equiv> 0x400"
abbreviation (input) MUST_HAVE_DIRECTORY :: u32 where "MUST_HAVE_DIRECTORY \<equiv> 0x1000"
abbreviation (input) MUST_HAVE_ARCHIVED :: u32 where "MUST_HAVE_ARCHIVED \<equiv> 0x2000"
abbreviation (input) S_IREADONLY :: u32 where "S_IREADONLY \<equiv> 0x100 AND NOT 0x80"
abbreviation (input) S_IHIDDEN :: u32 where "S_IHIDDEN \<equiv> 0x20000000"
abbreviation (input) S_ISYSTEM :: u32 where "S_ISYSTEM \<equiv> 0x40000000"
abbreviation (input) S_IDIRECTORY :: u32 where "S_IDIRECTORY \<equiv> 0x4000"
abbreviation (input) S_IARCHIVED :: u32 where "S_IARCHIVED \<equiv> 0x80000000"
abbreviation (input) ERROR_NO_MORE_FILES :: u32 where "ERROR_NO_MORE_FILES \<equiv> 18"
abbreviation (input) ERROR_INVALID_LEVEL :: u32 where "ERROR_INVALID_LEVEL \<equiv> 124"
abbreviation (input) ERROR_META_EXPANSION_TOO_LONG :: u32 where "ERROR_META_EXPANSION_TOO_LONG \<equiv> 208"

section \<open>One entry\<close>

text \<open>The switch over the result of \<open>stat\<close> (not over \<open>errno\<close>).\<close>

definition stat_error :: "int \<Rightarrow> u32" where
  "stat_error rc =
     (if rc = EACCES then ERROR_ACCESS_DENIED
      else if rc = ENAMETOOLONG then ERROR_FILENAME_EXCED_RANGE
      else if rc = ENOTDIR then ERROR_PATH_NOT_FOUND
      else if rc = ENOENT then ERROR_FILE_NOT_FOUND
      else if rc = ENOMEM then ERROR_NOT_ENOUGH_MEMORY
      else ERROR_INVALID_PARAMETER)"

definition must_skip :: "u32 \<Rightarrow> u32 \<Rightarrow> u32 \<Rightarrow> u32 \<Rightarrow> u32 \<Rightarrow> bool" where
  "must_skip at md must want has \<longleftrightarrow>
     at AND must \<noteq> 0 \<and> (\<not> at AND want \<noteq> 0 \<or> \<not> md AND has \<noteq> 0) \<and> (at AND want \<noteq> 0 \<or> md AND has \<noteq> 0)"

definition skip_entry :: "u32 \<Rightarrow> u32 \<Rightarrow> bool" where
  "skip_entry at md \<longleftrightarrow>
     must_skip at md MUST_HAVE_ARCHIVED FILE_ARCHIVED S_IARCHIVED \<or>
     must_skip at md MUST_HAVE_DIRECTORY FILE_DIRECTORY S_IDIRECTORY \<or>
     must_skip at md MUST_HAVE_SYSTEM FILE_SYSTEM S_ISYSTEM \<or>
     must_skip at md MUST_HAVE_HIDDEN FILE_HIDDEN S_IHIDDEN \<or>
     must_skip at md MUST_HAVE_READONLY FILE_READONLY S_IREADONLY"

definition find_date :: "tm \<Rightarrow> FDATE" where
  "find_date tt = \<lparr>day = of_int (tm_mday tt), month = of_int (tm_mon tt + 1), year = of_int (tm_year tt - 80)\<rparr>"

definition find_time :: "tm \<Rightarrow> FTIME" where
  "find_time tt = \<lparr>twosecs = of_int (tm_sec tt div 2), minutes = of_int (tm_min tt), hours = of_int (tm_hour tt)\<rparr>"

definition find_attrs :: "u32 \<Rightarrow> u32" where
  "find_attrs md =
     (let a = 0;
          a = (if md AND S_IREADONLY \<noteq> 0 then a OR FILE_READONLY else a);
          a = (if md AND S_IHIDDEN \<noteq> 0 then a OR FILE_HIDDEN else a);
          a = (if md AND S_ISYSTEM \<noteq> 0 then a OR FILE_SYSTEM else a);
          a = (if md AND S_IDIRECTORY \<noteq> 0 then a OR FILE_DIRECTORY else a)
      in if md AND S_IARCHIVED \<noteq> 0 then a OR FILE_ARCHIVED else a)"

text \<open>The backward loop over a name and the test behind it.\<close>

fun back_slash :: "string \<Rightarrow> nat \<Rightarrow> nat" where
  "back_slash fname 0 = 0"
| "back_slash fname (Suc p) = (if cs_at fname (Suc p) \<noteq> CHR ''/'' then back_slash fname p else Suc p)"

definition base_name :: "string \<Rightarrow> string" where
  "base_name fname =
     (let p = back_slash fname (length fname) in if cs_at fname p = CHR ''/'' then drop (p + 1) fname else drop p fname)"

definition size_field :: "bool \<Rightarrow> int \<Rightarrow> 64 word" where
  "size_field large v = (if large then of_int v else ucast (of_int v :: u32))"

definition fill_info :: "('h, 'm) find_host_scheme \<Rightarrow> bool \<Rightarrow> fstat \<Rightarrow> string \<Rightarrow> FILEFINDBUF3 \<Rightarrow> FILEFINDBUF3" where
  "fill_info host large st fname info = info\<lparr>
     fdateCreation := find_date (p_localtime host (st_ctime st)),
     ftimeCreation := find_time (p_localtime host (st_ctime st)),
     fdateLastAccess := find_date (p_localtime host (st_atime st)),
     ftimeLastAccess := find_time (p_localtime host (st_atime st)),
     fdateLastWrite := find_date (p_localtime host (st_mtime st)),
     ftimeLastWrite := find_time (p_localtime host (st_mtime st)),
     attrFile := find_attrs (st_mode st),
     cchName := of_nat (length (base_name fname) + 1),
     achName := base_name fname,
     cbFile := size_field large (st_size st),
     cbFileAlloc := size_field large (st_blksize st * st_blocks st)\<rparr>"

section \<open>The loops\<close>

text \<open>
  Over the names that are left: \<open>i\<close> counts the names looked at, \<open>j\<close> the entries stored. The result has the
  code of an early return, or \<open>NO_ERROR\<close> at the end of the loop.
\<close>

fun find_loop :: "('h, 'm) find_host_scheme \<Rightarrow> bool \<Rightarrow> u32 \<Rightarrow> u32 \<Rightarrow> 'h \<Rightarrow> string list \<Rightarrow> nat \<Rightarrow> nat \<Rightarrow> FILEFINDBUF3
    \<Rightarrow> u32 \<times> nat \<times> nat \<times> FILEFINDBUF3" where
  "find_loop host large at want h [] i j info = (NO_ERROR, i, j, info)"
| "find_loop host large at want h (fname # names) i j info =
     (if \<not> j < unat want then (NO_ERROR, i, j, info)
      else
        let info = info\<lparr>oNextEntryOffset := if j + 1 = unat want then 0 else find_size large\<rparr> in
        if length fname > 255 then (ERROR_META_EXPANSION_TOO_LONG, i, j, info)
        else (case p_stat host fname h of
          Inl e \<Rightarrow> (stat_error (-1), i, j, info)
        | Inr st \<Rightarrow>
            if skip_entry at (st_mode st) then find_loop host large at want h names (i + 1) j info
            else find_loop host large at want h names (i + 1) (j + 1) (fill_info host large st fname info)))"

definition buffer_bad :: "bool \<Rightarrow> u32 \<Rightarrow> u32 \<Rightarrow> bool" where
  "buffer_bad large cbBuf want \<longleftrightarrow> cbBuf = 0 \<or> cbBuf > 0x10000 \<or> want * find_size large > cbBuf"

text \<open>Access to a search structure by its handle.\<close>

definition get_hdir :: "u32 \<Rightarrow> find_state \<Rightarrow> filefindstruc option" where
  "get_hdir hDir s = (if hDir = HDIR_SYSTEM then Some (thehdir s) else find_heap s hDir)"

definition put_hdir :: "u32 \<Rightarrow> filefindstruc \<Rightarrow> find_state \<Rightarrow> find_state" where
  "put_hdir hDir d s = (if hDir = HDIR_SYSTEM then s\<lparr>thehdir := d\<rparr> else s\<lparr>find_heap := (find_heap s)(hDir \<mapsto> d)\<rparr>)"

text \<open>What the caller gets: code, handle, structure in the buffer, displacement of the buffer pointer (modulo the address space), size and count.\<close>

record find_reply =
  f_rc :: u32
  f_hdir :: u32
  f_info :: FILEFINDBUF3
  f_move :: u32
  f_cbBuf :: u32
  f_count :: u32

definition reply :: "u32 \<Rightarrow> u32 \<Rightarrow> FILEFINDBUF3 \<Rightarrow> u32 \<Rightarrow> u32 \<Rightarrow> u32 \<Rightarrow> find_reply" where
  "reply rc d info mv cb cnt = \<lparr>f_rc = rc, f_hdir = d, f_info = info, f_move = mv, f_cbBuf = cb, f_count = cnt\<rparr>"

text \<open>The switch over the information level with the code behind it.\<close>

definition first_entries ::
    "('h, 'm) find_host_scheme \<Rightarrow> u32 \<Rightarrow> u32 \<Rightarrow> filefindstruc \<Rightarrow> string list \<Rightarrow> FILEFINDBUF3 \<Rightarrow> u32 \<Rightarrow> u32 \<Rightarrow> 'h \<Rightarrow> find_state
     \<Rightarrow> find_reply \<times> find_state" where
  "first_entries host phDir addr hdir names info cbBuf want h s =
     (let level = ulInfoLevel hdir; large = (level = FIL_STANDARDL) in
      if level \<noteq> FIL_STANDARD \<and> level \<noteq> FIL_STANDARDL then (reply ERROR_INVALID_LEVEL phDir info 0 cbBuf want, s)
      else if buffer_bad large cbBuf want then (reply ERROR_BUFFER_OVERFLOW phDir info 0 cbBuf want, s)
      else
        let (rc, i, j, info) = find_loop host large (find_attr hdir) want h names 0 0 info in
        if rc \<noteq> NO_ERROR then (reply rc phDir info (of_nat j * find_size large) cbBuf want, s)
        else (reply NO_ERROR addr info 0 (of_nat j * find_size large) (of_nat j), put_hdir addr (hdir\<lparr>ctr := j\<rparr>) s))"

definition new_hdir :: "u32 \<Rightarrow> find_state \<Rightarrow> (u32 \<times> filefindstruc \<times> find_state) option" where
  "new_hdir phDir s =
     (if phDir = HDIR_SYSTEM then Some (HDIR_SYSTEM, thehdir s, s)
      else if phDir = HDIR_CREATE then
        (case find_mallocs s of
           [] \<Rightarrow> None
         | a # as \<Rightarrow> Some (a, \<lparr>gl_paths = None, ctr = 0, find_attr = 0, ulInfoLevel = 0\<rparr>, s\<lparr>find_mallocs := as\<rparr>))
      else None)"

definition FSFindFirst ::
    "('h, 'm) find_host_scheme \<Rightarrow> FSRouter \<Rightarrow> string \<Rightarrow> u32 \<Rightarrow> u32 \<Rightarrow> FILEFINDBUF3 \<Rightarrow> u32 \<Rightarrow> u32 \<Rightarrow> u32 \<Rightarrow> 'h \<Rightarrow> find_state
     \<Rightarrow> (find_reply \<times> find_state) outcome" where
  "FSFindFirst host fsrouter pszFileSpec phDir flAttribute info cbBuf want level h s =
     obind (name_copy pszFileSpec) (\<lambda>fn.
       if phDir \<noteq> HDIR_SYSTEM \<and> phDir \<noteq> HDIR_CREATE then Ret (reply ERROR_INVALID_HANDLE phDir info 0 cbBuf want, s)
       else (case new_hdir phDir s of
         None \<Rightarrow> Undef
       | Some (addr, hdir, s) \<Rightarrow>
           let hdir = hdir\<lparr>ulInfoLevel := level, find_attr := flAttribute, ctr := 0\<rparr>;
               s = put_hdir addr hdir s in
           if length fn > 255 then Ret (reply ERROR_FILENAME_EXCED_RANGE phDir info 0 cbBuf want, s)
           else obind (pathconv fsrouter fn) (\<lambda>t.
             case t of
               None \<Rightarrow> Ret (reply ERROR_PATH_NOT_FOUND phDir info 0 cbBuf want, s)
             | Some t \<Rightarrow>
                 if length t > 255 then Ret (reply ERROR_FILENAME_EXCED_RANGE phDir info 0 cbBuf want, s)
                 else
                   let names = p_glob host t h;
                       hdir = hdir\<lparr>gl_paths := Some names\<rparr> in
                   Ret (first_entries host phDir addr hdir names info cbBuf want h (put_hdir addr hdir s)))))"

text \<open>\<open>FSFindNext\<close>: the size stored at the end is that of the small structure for both levels.\<close>

definition FSFindNext ::
    "('h, 'm) find_host_scheme \<Rightarrow> u32 \<Rightarrow> FILEFINDBUF3 \<Rightarrow> u32 \<Rightarrow> u32 \<Rightarrow> 'h \<Rightarrow> find_state \<Rightarrow> (find_reply \<times> find_state) outcome" where
  "FSFindNext host hDir info cbBuf want h s =
     (case get_hdir hDir s of
        None \<Rightarrow> Undef
      | Some hdir \<Rightarrow>
        (case gl_paths hdir of
           None \<Rightarrow> Undef
         | Some names \<Rightarrow>
           let level = ulInfoLevel hdir; large = (level = FIL_STANDARDL) in
           if ctr hdir = length names then Ret (reply ERROR_NO_MORE_FILES hDir info 0 cbBuf want, s)
           else if level \<noteq> FIL_STANDARD \<and> level \<noteq> FIL_STANDARDL then Ret (reply ERROR_INVALID_LEVEL hDir info 0 cbBuf want, s)
           else if buffer_bad large cbBuf want then Ret (reply ERROR_BUFFER_OVERFLOW hDir info 0 cbBuf want, s)
           else
             let (rc, i, k, info) = find_loop host large (find_attr hdir) want h (drop (ctr hdir) names) (ctr hdir) 0 info in
             if rc \<noteq> NO_ERROR then Ret (reply rc hDir info (of_nat k * find_size large) cbBuf want, s)
             else
               let cb = of_nat k * find_size False in
               Ret (reply NO_ERROR hDir info (of_nat k * find_size large - cb) cb (of_nat k),
                 put_hdir hDir (hdir\<lparr>ctr := i\<rparr>) s)))"

definition FSFindClose :: "u32 \<Rightarrow> find_state \<Rightarrow> (u32 \<times> find_state) outcome" where
  "FSFindClose hDir s =
     (case get_hdir hDir s of
        None \<Rightarrow> Undef
      | Some hdir \<Rightarrow>
          if hDir = HDIR_SYSTEM then Ret (NO_ERROR, s\<lparr>thehdir := hdir\<lparr>gl_paths := None\<rparr>\<rparr>)
          else Ret (NO_ERROR, s\<lparr>find_heap := (find_heap s)(hDir := None)\<rparr>))"

section \<open>Enumeration of a directory\<close>

text \<open>The tests of the ``must have'' flags: an entry is skipped when one of the flags given has its attribute
  wanted but missing, or present but not wanted.\<close>

lemma must_skip_iff: "must_skip at md must want has \<longleftrightarrow> at AND must \<noteq> 0 \<and> (at AND want \<noteq> 0) \<noteq> (md AND has \<noteq> 0)"
  by (auto simp: must_skip_def)

definition findable :: "('h, 'm) find_host_scheme \<Rightarrow> u32 \<Rightarrow> 'h \<Rightarrow> string \<Rightarrow> bool" where
  "findable host at h n \<longleftrightarrow> length n \<le> 255 \<and> (\<exists>st. p_stat host n h = Inr st \<and> \<not> skip_entry at (st_mode st))"

definition blank_info :: FILEFINDBUF3 where
  "blank_info =
     (let d = \<lparr>day = 0, month = 0, year = 0\<rparr>; t = \<lparr>twosecs = 0, minutes = 0, hours = 0\<rparr> in
      \<lparr>oNextEntryOffset = 0, fdateCreation = d, ftimeCreation = t, fdateLastAccess = d, ftimeLastAccess = t,
       fdateLastWrite = d, ftimeLastWrite = t, cbFile = 0, cbFileAlloc = 0, attrFile = 0, cchName = 0, achName = []\<rparr>)"

text \<open>The structure that describes one file, as the only entry of a buffer.\<close>

definition found_entry :: "('h, 'm) find_host_scheme \<Rightarrow> bool \<Rightarrow> 'h \<Rightarrow> string \<Rightarrow> FILEFINDBUF3" where
  "found_entry host large h n = fill_info host large (projr (p_stat host n h)) n blank_info"

lemma entry_name: "achName (found_entry host large h n) = base_name n"
  by (simp add: found_entry_def fill_info_def)

lemma fill_info_blank:
  "fill_info host large st n (info\<lparr>oNextEntryOffset := 0\<rparr>) = fill_info host large st n blank_info"
  by (cases info) (simp add: fill_info_def blank_info_def Let_def)

lemma find_loop_one:
  assumes "findable host at h n"
  shows "find_loop host large at 1 h (n # ns) i 0 info = (NO_ERROR, i + 1, 1, found_entry host large h n)"
proof -
  have "find_loop host large at 1 h ns (i + 1) 1 x = (NO_ERROR, i + 1, 1, x)" for x by (cases ns) simp_all
  with assms show ?thesis by (auto simp: findable_def found_entry_def fill_info_blank)
qed

text \<open>Calls of \<open>FSFindNext\<close> for one entry each, until one fails: the entries and the code of the last call.\<close>

fun find_rest :: "('h, 'm) find_host_scheme \<Rightarrow> u32 \<Rightarrow> FILEFINDBUF3 \<Rightarrow> u32 \<Rightarrow> 'h \<Rightarrow> nat \<Rightarrow> find_state
    \<Rightarrow> FILEFINDBUF3 list \<times> u32" where
  "find_rest host hDir info cbBuf h 0 s = ([], NO_ERROR)"
| "find_rest host hDir info cbBuf h (Suc n) s =
     (case FSFindNext host hDir info cbBuf 1 h s of
        Ret (r, s') \<Rightarrow>
          if f_rc r = NO_ERROR then
            let (es, rc) = find_rest host hDir (f_info r) cbBuf h n s' in (f_info r # es, rc)
          else ([], f_rc r)
      | _ \<Rightarrow> ([], NO_ERROR))"

declare find_rest.simps [simp del]

lemma hdir_put [simp]: "get_hdir d (put_hdir d x s) = Some x"
  by (simp add: get_hdir_def put_hdir_def)

lemma put_put [simp]: "put_hdir d y (put_hdir d x s) = put_hdir d y s"
  by (cases s) (simp add: put_hdir_def)

definition search_at :: "string list \<Rightarrow> nat \<Rightarrow> u32 \<Rightarrow> u32 \<Rightarrow> filefindstruc" where
  "search_at names k at level = \<lparr>gl_paths = Some names, ctr = k, find_attr = at, ulInfoLevel = level\<rparr>"

lemma FSFindNext_one:
  assumes "get_hdir d s = Some (search_at names k at level)" and "k < length names" and "findable host at h (names ! k)"
    and "level = FIL_STANDARD \<or> level = FIL_STANDARDL" and "\<not> buffer_bad (level = FIL_STANDARDL) cb 1"
  shows "FSFindNext host d info cb 1 h s =
    Ret (reply NO_ERROR d (found_entry host (level = FIL_STANDARDL) h (names ! k))
      (find_size (level = FIL_STANDARDL) - find_size False) (find_size False) 1,
      put_hdir d (search_at names (k + 1) at level) s)"
  using assms find_loop_one [OF assms(3), of "level = FIL_STANDARDL" "drop (Suc k) names" k info]
  by (auto simp: FSFindNext_def search_at_def Let_def simp flip: Cons_nth_drop_Suc)

lemma find_rest_all:
  assumes "level = FIL_STANDARD \<or> level = FIL_STANDARDL" and "\<not> buffer_bad (level = FIL_STANDARDL) cb 1"
    and "\<forall>n \<in> set names. findable host at h n"
  shows "get_hdir d s = Some (search_at names k at level) \<Longrightarrow> k \<le> length names \<Longrightarrow>
    find_rest host d info cb h (Suc (length names - k)) s =
      (map (found_entry host (level = FIL_STANDARDL) h) (drop k names), ERROR_NO_MORE_FILES)"
proof (induction "length names - k" arbitrary: k s info)
  case 0
  then show ?case by (auto simp: find_rest.simps FSFindNext_def search_at_def reply_def)
next
  case (Suc m)
  then have k: "k < length names" by simp
  then have "findable host at h (names ! k)" using assms(3) by simp
  note next1 = FSFindNext_one [OF Suc.prems(1) k this assms(1,2)]
  have n: "length names - k = Suc (length names - (k + 1))" using k by simp
  show ?case
    unfolding n find_rest.simps(2) [of _ _ _ _ _ "Suc (length names - (k + 1))"] next1
    using Suc.hyps(1) [of "k + 1"] Suc.hyps(2) k
    by (simp add: reply_def flip: Cons_nth_drop_Suc)
qed


text \<open>A host with files to search.\<close>

definition search_host :: "string list \<Rightarrow> (u32 \<Rightarrow> (u8 list \<times> nat) option) find_host" where
  "search_host names = posix.extend mem_host
     (find_host.fields (\<lambda>t h. names) (\<lambda>t. \<lparr>tm_sec = 0, tm_min = 0, tm_hour = 0, tm_mday = 1, tm_mon = 0, tm_year = 120\<rparr>))"

definition find_state0 :: find_state where
  "find_state0 = \<lparr>thehdir = search_at [] 0 0 0, find_heap = (\<lambda>_. None), find_mallocs = [0x1000]\<rparr>"

lemma search_host_simps [simp]:
  "p_stat (search_host names) n h = Inr (plain_stat 0)" "p_glob (search_host names) t h = names"
  by (simp_all add: search_host_def mem_host_def posix.defs find_host.defs)

lemma search_findable: "length n \<le> 255 \<Longrightarrow> findable (search_host names) 0 h n"
  by (simp add: findable_def skip_entry_def must_skip_iff)


section \<open>Where the search goes wrong\<close>

lemma find_loop_many:
  assumes "\<forall>n \<in> set names. findable host at h n" and "j + length names \<le> unat want"
  shows "\<exists>info'. find_loop host large at want h names i j info = (NO_ERROR, i + length names, j + length names, info') \<and>
    (names \<noteq> [] \<longrightarrow> achName info' = base_name (last names))"
  using assms
proof (induction names arbitrary: i j info)
  case (Cons n ns)
  then obtain st where st: "length n \<le> 255" "p_stat host n h = Inr st" "\<not> skip_entry at (st_mode st)"
    by (auto simp: findable_def)
  let ?i = "fill_info host large st n (info\<lparr>oNextEntryOffset := if j + 1 = unat want then 0 else find_size large\<rparr>)"
  obtain info' where "find_loop host large at want h ns (i + 1) (j + 1) ?i =
      (NO_ERROR, i + 1 + length ns, j + 1 + length ns, info')" "ns \<noteq> [] \<longrightarrow> achName info' = base_name (last ns)"
    using Cons.IH [of "j + 1" "i + 1" ?i] Cons.prems by auto
  moreover have "achName ?i = base_name n" by (simp add: fill_info_def)
  ultimately show ?case using st Cons.prems(2) by (cases ns) auto
qed simp

text \<open>A search for several entries reports how many it found, but every entry is written over the one before
  it: the caller's buffer holds only the last.\<close>

theorem entries_overwritten:
  assumes "name_copy spec = Ret fn" and "length fn \<le> 255" and "pathconv r fn = Ret (Some t)" and "length t \<le> 255"
    and "\<forall>m \<in> set (p_glob host t h). findable host at h m" and "p_glob host t h \<noteq> []"
    and "length (p_glob host t h) \<le> unat want" and "\<not> buffer_bad False cb want"
  shows "\<exists>rp s'. FSFindFirst host r spec HDIR_SYSTEM at info cb want FIL_STANDARD h s = Ret (rp, s') \<and>
    f_rc rp = NO_ERROR \<and> f_count rp = of_nat (length (p_glob host t h)) \<and> f_move rp = 0 \<and>
    achName (f_info rp) = base_name (last (p_glob host t h))"
proof -
  obtain info' where "find_loop host False at want h (p_glob host t h) 0 0 info =
      (NO_ERROR, length (p_glob host t h), length (p_glob host t h), info')" "achName info' = base_name (last (p_glob host t h))"
    using find_loop_many [OF assms(5), of 0 want False 0 info] assms(6,7) by auto
  with assms(1-4,8) show ?thesis
    by (simp add: FSFindFirst_def new_hdir_def first_entries_def Let_def reply_def)
qed

lemma readable_skipped:
  assumes "at AND FILE_DIRECTORY \<noteq> 0" and "at AND FILE_READONLY = 0" and "bit md 8"
  shows "skip_entry at md"
proof -
  have "bit (md AND 0x100) 8" using assms(3) by (simp add: bit_simps)
  then have "md AND 0x100 \<noteq> 0" by auto
  then show ?thesis using assms(1,2) by (simp add: skip_entry_def must_skip_iff)
qed

text \<open>The flag that includes directories in a search is at the same time the flag for files that must be read-only,
  and a file counts as read-only when it can be read: a search with it, and without the flag
  for read-only files, succeeds without finding any readable file.\<close>

theorem directories_hide_files:
  assumes "name_copy spec = Ret fn" and "length fn \<le> 255" and "pathconv r fn = Ret (Some t)" and "length t \<le> 255"
    and "\<forall>m \<in> set (p_glob host t h). length m \<le> 255 \<and> (\<exists>st. p_stat host m h = Inr st \<and> bit (st_mode st) 8)"
    and "at AND FILE_DIRECTORY \<noteq> 0" and "at AND FILE_READONLY = 0" and "\<not> buffer_bad False cb want"
  shows "\<exists>rp s'. FSFindFirst host r spec HDIR_SYSTEM at info cb want FIL_STANDARD h s = Ret (rp, s') \<and>
    f_rc rp = NO_ERROR \<and> f_count rp = 0"
proof -
  have "\<exists>k info'. find_loop host False at want h names i 0 info = (NO_ERROR, k, 0, info')"
    if "\<forall>m \<in> set names. length m \<le> 255 \<and> (\<exists>st. p_stat host m h = Inr st \<and> bit (st_mode st) 8)" for names i info
    using that
  proof (induction names arbitrary: i info)
    case (Cons m ms)
    then show ?case using readable_skipped [OF assms(6,7)] by (auto simp: Let_def)
  qed simp
  from this [OF assms(5), of 0 info] assms(1-4,8) show ?thesis
    by (auto simp: FSFindFirst_def new_hdir_def first_entries_def Let_def reply_def)
qed

lemma demo_copy: "name_copy (''C:'' @ BSL # ''A'') = Ret (''C:'' @ BSL # ''A'')" "length (''C:'' @ BSL # ''A'') \<le> 255"
  by (simp_all add: name_copy_def fold_slash_def)

theorem entries_overwritten_witness:
  "\<exists>rp s'. FSFindFirst (search_host [''/file/system/a'', ''/file/system/b'']) demo_router (''C:'' @ BSL # ''A'') HDIR_SYSTEM 0
      blank_info 1000 2 FIL_STANDARD (\<lambda>_. None) find_state0 = Ret (rp, s') \<and> f_count rp = 2 \<and> achName (f_info rp) = ''b''"
proof -
  let ?h = "search_host [''/file/system/a'', ''/file/system/b'']"
  let ?o = "\<lambda>_. None :: (u8 list \<times> nat) option"
  have b: "base_name ''/file/system/b'' = ''b''" by (simp add: base_name_def cs_at_def)
  have "\<not> buffer_bad False 1000 2" by (simp add: buffer_bad_def find_size_def)
  moreover have "\<forall>m \<in> set (p_glob ?h ''/file/system/a'' ?o). findable ?h 0 ?o m" by (simp add: search_findable)
  moreover have "length (p_glob ?h ''/file/system/a'' ?o) \<le> unat (2 :: u32)" "p_glob ?h ''/file/system/a'' ?o \<noteq> []"
    "length ''/file/system/a'' \<le> 255" by simp_all
  ultimately obtain rp s' where "FSFindFirst ?h demo_router (''C:'' @ BSL # ''A'') HDIR_SYSTEM 0 blank_info 1000 2 FIL_STANDARD ?o find_state0
      = Ret (rp, s')" "f_count rp = of_nat (length (p_glob ?h ''/file/system/a'' ?o))"
      "achName (f_info rp) = base_name (last (p_glob ?h ''/file/system/a'' ?o))"
    using entries_overwritten [OF demo_copy demo_pathconv, of ?h ?o 0 2 1000 blank_info find_state0] by blast
  then show ?thesis using b by (intro exI [of _ rp] exI [of _ s']) simp
qed

theorem directories_hide_files_witness:
  "\<exists>rp s'. FSFindFirst (search_host [''/file/system/a'']) demo_router (''C:'' @ BSL # ''A'') HDIR_SYSTEM FILE_DIRECTORY
      blank_info 1000 1 FIL_STANDARD (\<lambda>_. None) find_state0 = Ret (rp, s') \<and> f_rc rp = NO_ERROR \<and> f_count rp = 0"
proof -
  let ?h = "search_host [''/file/system/a'']"
  let ?o = "\<lambda>_. None :: (u8 list \<times> nat) option"
  have "\<not> buffer_bad False 1000 1" by (simp add: buffer_bad_def find_size_def)
  moreover have "\<forall>m \<in> set (p_glob ?h ''/file/system/a'' ?o). length m \<le> 255 \<and> (\<exists>st. p_stat ?h m ?o = Inr st \<and> bit (st_mode st) 8)"
    by (simp add: plain_stat_def bit_iff_odd_drop_bit)
  moreover have "length ''/file/system/a'' \<le> 255" "(FILE_DIRECTORY :: u32) AND FILE_DIRECTORY \<noteq> 0"
    "(FILE_DIRECTORY :: u32) AND FILE_READONLY = 0" by simp_all
  ultimately show ?thesis
    using directories_hide_files [OF demo_copy demo_pathconv, of ?h ?o FILE_DIRECTORY 1000 1 blank_info find_state0] by blast
qed

text \<open>For the large structures the calls behind the first one move the caller's pointer by the difference of
  the two sizes.\<close>

lemma large_next_moves:
  assumes "get_hdir d s = Some (search_at names k at FIL_STANDARDL)" and "k < length names"
    and "findable host at h (names ! k)" and "\<not> buffer_bad True cb 1"
  shows "\<exists>rp s'. FSFindNext host d info cb 1 h s = Ret (rp, s') \<and> f_rc rp = NO_ERROR \<and> f_move rp = 11"
  using FSFindNext_one [OF assms(1-3)] assms(4) by (simp add: reply_def find_size_def)

end
