(* ===== verification/FsInfo.thy ===== *)
theory FsInfo
  imports FsFind
begin

text \<open>
  Queries for the properties of a file by handle and by name (\<open>FSQueryFileInfo\<close> and \<open>FSQueryPathInfo\<close> of
  \<^verbatim>\<open>server/os2fs/api/api.c\<close>). The caller's buffer has as many bytes as it says.
\<close>

section \<open>Operations\<close>

text \<open>\<open>FILESTATUS3\<close> and, with wider file sizes, \<open>FILESTATUS3L\<close>.\<close>

record FILESTATUS3 =
  s_fdateCreation :: FDATE
  s_ftimeCreation :: FTIME
  s_fdateLastAccess :: FDATE
  s_ftimeLastAccess :: FTIME
  s_fdateLastWrite :: FDATE
  s_ftimeLastWrite :: FTIME
  s_cbFile :: "64 word"
  s_cbFileAlloc :: "64 word"
  s_attrFile :: u32

definition status_size :: "bool \<Rightarrow> u32" where
  "status_size large = (if large then 32 else 24)"

abbreviation (input) FIL_QUERYFULLNAME :: u32 where "FIL_QUERYFULLNAME \<equiv> 5"

text \<open>Both calls store the same fields, but add different numbers to the year.\<close>

definition status_date :: "int \<Rightarrow> tm \<Rightarrow> FDATE" where
  "status_date base tt = \<lparr>day = of_int (tm_mday tt), month = of_int (tm_mon tt + 1), year = of_int (tm_year tt + base)\<rparr>"

definition fill_status :: "('h, 'm) find_host_scheme \<Rightarrow> int \<Rightarrow> bool \<Rightarrow> fstat \<Rightarrow> FILESTATUS3" where
  "fill_status host base large st =
     (let c = p_localtime host (st_ctime st); a = p_localtime host (st_atime st); m = p_localtime host (st_mtime st) in
      \<lparr>s_fdateCreation = status_date base c, s_ftimeCreation = find_time c,
       s_fdateLastAccess = status_date base a, s_ftimeLastAccess = find_time a,
       s_fdateLastWrite = status_date base m, s_ftimeLastWrite = find_time m,
       s_cbFile = size_field large (st_size st),
       s_cbFileAlloc = size_field large (st_blksize st * st_blocks st),
       s_attrFile = (if st_mode st AND 0xF000 = 0x4000 then FILE_DIRECTORY else 0)\<rparr>)"

definition status_error :: "errno \<Rightarrow> u32" where
  "status_error e = (if e = EBADF then ERROR_INVALID_HANDLE else ERROR_ACCESS_DENIED)"

definition FSQueryFileInfo ::
    "('h, 'm) find_host_scheme \<Rightarrow> u32 \<Rightarrow> u32 \<Rightarrow> u32 \<Rightarrow> FILESTATUS3 \<Rightarrow> 'h \<Rightarrow> u32 \<times> FILESTATUS3" where
  "FSQueryFileInfo host hf level cbInfoBuf info h =
     (if level = FIL_STANDARD \<or> level = FIL_STANDARDL then
        let large = (level = FIL_STANDARDL) in
        if cbInfoBuf < status_size large then (ERROR_BUFFER_OVERFLOW, info)
        else (case p_fstat host hf h of
          Inl e \<Rightarrow> (status_error e, info)
        | Inr st \<Rightarrow> (NO_ERROR, fill_status host (-80) large st))
      else (ERROR_INVALID_LEVEL, info))"

text \<open>Both branches of \<open>FSQueryPathInfo\<close> compare the size of the buffer with that of the small structure.\<close>

definition path_status ::
    "('h, 'm) find_host_scheme \<Rightarrow> FSRouter \<Rightarrow> bool \<Rightarrow> string \<Rightarrow> u32 \<Rightarrow> FILESTATUS3 \<Rightarrow> 'h \<Rightarrow> (u32 \<times> FILESTATUS3) outcome" where
  "path_status host fsrouter large fn cbInfoBuf info h =
     (if cbInfoBuf < status_size False then Ret (ERROR_BUFFER_OVERFLOW, info)
      else obind (pathconv fsrouter fn) (\<lambda>c.
        case c of
          None \<Rightarrow> Ret (ERROR_PATH_NOT_FOUND, info)
        | Some pszNewName \<Rightarrow>
          (case p_stat host pszNewName h of
             Inl e \<Rightarrow> Ret (status_error e, info)
           | Inr st \<Rightarrow>
               if cbInfoBuf < status_size large then Undef
               else Ret (NO_ERROR, fill_status host 1900 large st))))"

text \<open>
  The full name. For a name without drive the code stores behind its array and appends to
  memory that was never written. Otherwise the components of the name are applied, one by
  one, to the copy of the whole name in the caller's buffer.
\<close>

definition full_name :: "string \<Rightarrow> u32 \<Rightarrow> string \<Rightarrow> (u32 \<times> string) outcome" where
  "full_name fn cbInfoBuf info =
     (case chr_at fn 1 of
        None \<Rightarrow> Undef
      | Some c \<Rightarrow>
        if c \<noteq> CHR '':'' then Undef
        else if cbInfoBuf \<le> of_nat (length fn) then Ret (ERROR_BUFFER_OVERFLOW, info)
        else let fname = fold_slash fn in
          if fname = [BSL] then Ret (NO_ERROR, [])
          else (case set_loop (unat cbInfoBuf) CCHMAXPATH fn fname of
            None \<Rightarrow> Undef
          | Some s \<Rightarrow> Ret (NO_ERROR, s)))"

text \<open>What the caller's buffer holds after the call: a structure or a name.\<close>

datatype path_info = Status FILESTATUS3 | FullName string

definition FSQueryPathInfo ::
    "('h, 'm) find_host_scheme \<Rightarrow> FSRouter \<Rightarrow> string \<Rightarrow> u32 \<Rightarrow> u32 \<Rightarrow> FILESTATUS3 \<Rightarrow> 'h \<Rightarrow> (u32 \<times> path_info) outcome" where
  "FSQueryPathInfo host fsrouter pszPathName level cbInfoBuf info h =
     obind (name_copy pszPathName) (\<lambda>fn.
       if level = FIL_STANDARD \<or> level = FIL_STANDARDL then
         obind (path_status host fsrouter (level = FIL_STANDARDL) fn cbInfoBuf info h) (\<lambda>(rc, i). Ret (rc, Status i))
       else if level = FIL_QUERYFULLNAME then
         obind (full_name fn cbInfoBuf []) (\<lambda>(rc, s). Ret (rc, FullName s))
       else Ret (ERROR_INVALID_LEVEL, Status info))"

section \<open>Properties of open files\<close>

text \<open>The time a structure shows, read back as the C library counts it.\<close>

definition shown_time :: "FDATE \<Rightarrow> FTIME \<Rightarrow> tm" where
  "shown_time d t = \<lparr>tm_sec = 2 * uint (twosecs t), tm_min = uint (minutes t), tm_hour = uint (hours t),
     tm_mday = uint (day d), tm_mon = uint (month d) - 1, tm_year = uint (year d) + 80\<rparr>"

definition tm_ok :: "tm \<Rightarrow> bool" where
  "tm_ok t \<longleftrightarrow> 0 \<le> tm_sec t \<and> tm_sec t \<le> 60 \<and> 0 \<le> tm_min t \<and> tm_min t \<le> 59 \<and> 0 \<le> tm_hour t \<and> tm_hour t \<le> 23 \<and>
     1 \<le> tm_mday t \<and> tm_mday t \<le> 31 \<and> 0 \<le> tm_mon t \<and> tm_mon t \<le> 11 \<and> 80 \<le> tm_year t \<and> tm_year t < 208"

definition even_seconds :: "tm \<Rightarrow> tm" where
  "even_seconds t = t\<lparr>tm_sec := 2 * (tm_sec t div 2)\<rparr>"

lemma uint_of_int_small: "0 \<le> v \<Longrightarrow> v < 2 ^ LENGTH('a) \<Longrightarrow> uint (of_int v :: 'a::len word) = v"
  by (simp add: uint_word_of_int)

lemma shown_status:
  assumes "tm_ok t"
  shows "shown_time (status_date (-80) t) (find_time t) = even_seconds t"
proof -
  have "0 \<le> tm_sec t" "tm_sec t \<le> 60" using assms by (simp_all add: tm_ok_def)
  then have "0 \<le> tm_sec t div 2" "tm_sec t div 2 < 32" by arith+
  then have "uint (of_int (tm_sec t div 2) :: 5 word) = tm_sec t div 2" by (simp add: uint_of_int_small)
  moreover have "uint (of_int (tm_mon t + 1) :: 4 word) = tm_mon t + 1"
    by (rule uint_of_int_small) (use assms in \<open>simp_all add: tm_ok_def\<close>)
  moreover have "uint (of_int (tm_year t + -80) :: 7 word) = tm_year t + -80"
    by (rule uint_of_int_small) (use assms in \<open>simp_all add: tm_ok_def\<close>)
  moreover have "uint (of_int (tm_min t) :: 6 word) = tm_min t" "uint (of_int (tm_hour t) :: 5 word) = tm_hour t"
    "uint (of_int (tm_mday t) :: 5 word) = tm_mday t"
    using assms by (simp_all add: tm_ok_def uint_of_int_small)
  ultimately show ?thesis
    unfolding shown_time_def status_date_def find_time_def even_seconds_def
    by (simp only: FDATE.simps FTIME.simps) simp
qed

text \<open>A query by handle shows the size of the file, whether it is a directory, and its three times to two
  seconds, for all dates from 1980 to 2107.\<close>

theorem file_info_shown:
  assumes "p_fstat host hf h = Inr st" and "level = FIL_STANDARD \<or> level = FIL_STANDARDL"
    and "status_size (level = FIL_STANDARDL) \<le> cb" and "0 \<le> st_size st" and "st_size st < 2 ^ 32"
    and "tm_ok (p_localtime host (st_ctime st))" and "tm_ok (p_localtime host (st_atime st))" and "tm_ok (p_localtime host (st_mtime st))"
  shows "\<exists>i. FSQueryFileInfo host hf level cb info h = (NO_ERROR, i) \<and> uint (s_cbFile i) = st_size st \<and>
    (s_attrFile i = FILE_DIRECTORY \<longleftrightarrow> st_mode st AND 0xF000 = 0x4000) \<and>
    shown_time (s_fdateCreation i) (s_ftimeCreation i) = even_seconds (p_localtime host (st_ctime st)) \<and>
    shown_time (s_fdateLastAccess i) (s_ftimeLastAccess i) = even_seconds (p_localtime host (st_atime st)) \<and>
    shown_time (s_fdateLastWrite i) (s_ftimeLastWrite i) = even_seconds (p_localtime host (st_mtime st))"
proof -
  have "uint (size_field large (st_size st)) = st_size st" for large
    using assms(4,5) by (simp add: size_field_def uint_of_int_small unsigned_ucast_eq take_bit_int_eq_self)
  then show ?thesis
    using assms(1-3) shown_status [OF assms(6)] shown_status [OF assms(7)] shown_status [OF assms(8)]
    by (auto simp: FSQueryFileInfo_def fill_status_def Let_def)
qed

definition demo_status :: FILESTATUS3 where
  "demo_status = fill_status (search_host []) 0 False (plain_stat 0)"

theorem file_info_shown_witness:
  "\<exists>i. FSQueryFileInfo (search_host []) 3 FIL_STANDARD 24 demo_status [3 \<mapsto> ([1, 2], 0)] = (NO_ERROR, i) \<and> s_cbFile i = 2 \<and>
     tm_year (shown_time (s_fdateCreation i) (s_ftimeCreation i)) = 120"
proof -
  let ?h = "search_host []"
  have st: "p_fstat ?h 3 [3 \<mapsto> ([1, 2], 0)] = Inr (plain_stat 2)"
    by (simp add: search_host_def mem_host_def posix.defs find_host.defs)
  have t: "tm_year (p_localtime ?h x) = 120" "tm_ok (p_localtime ?h x)" for x
    by (simp_all add: search_host_def mem_host_def posix.defs find_host.defs tm_ok_def)
  obtain i where "FSQueryFileInfo ?h 3 FIL_STANDARD 24 demo_status [3 \<mapsto> ([1, 2], 0)] = (NO_ERROR, i)" "uint (s_cbFile i) = 2"
      "shown_time (s_fdateCreation i) (s_ftimeCreation i) = even_seconds (p_localtime ?h (st_ctime (plain_stat 2)))"
    using file_info_shown [OF st, of FIL_STANDARD 24 demo_status] t(2) by (auto simp: status_size_def plain_stat_def)
  moreover from this have "s_cbFile i = 2" by (simp add: word_uint_eq_iff)
  ultimately show ?thesis using t(1) by (auto simp: even_seconds_def)
qed

section \<open>Properties by name\<close>

text \<open>A query by name returns the same structure as a query by handle for the same file, except that all years are 60
  too high, modulo 128.\<close>

theorem path_info_year:
  assumes "name_copy name = Ret fn" and "pathconv r fn = Ret (Some n)" and "p_stat host n h = Inr st"
    and "p_fstat host hf h = Inr st" and "level = FIL_STANDARD \<or> level = FIL_STANDARDL" and "status_size (level = FIL_STANDARDL) \<le> cb"
  shows "\<exists>i. FSQueryFileInfo host hf level cb info h = (NO_ERROR, i) \<and>
    FSQueryPathInfo host r name level cb info h = Ret (NO_ERROR, Status (i\<lparr>
      s_fdateCreation := (s_fdateCreation i)\<lparr>year := year (s_fdateCreation i) + 60\<rparr>,
      s_fdateLastAccess := (s_fdateLastAccess i)\<lparr>year := year (s_fdateLastAccess i) + 60\<rparr>,
      s_fdateLastWrite := (s_fdateLastWrite i)\<lparr>year := year (s_fdateLastWrite i) + 60\<rparr>\<rparr>))"
proof -
  have y: "of_int (t + 1900) = (of_int (t + -80) + 60 :: 7 word)" for t
    by simp
  have "\<not> cb < status_size False"
    using assms(5,6) order_trans [of "24 :: u32" 32 cb] by (auto simp: status_size_def not_less)
  moreover have "\<not> cb < status_size (level = FIL_STANDARDL)" using assms(6) by simp
  ultimately show ?thesis
    using assms(1-5)
    by (auto simp: FSQueryFileInfo_def FSQueryPathInfo_def path_status_def fill_status_def status_date_def Let_def y)
qed

theorem path_info_year_witness:
  "\<exists>i. FSQueryPathInfo (search_host []) demo_router (''C:'' @ BSL # ''A'') FIL_STANDARD 24 demo_status [3 \<mapsto> ([], 0)] = Ret (NO_ERROR, Status i) \<and>
     year (s_fdateCreation i) = 100"
proof -
  let ?h = "search_host []" and ?o = "[3 \<mapsto> ([] :: u8 list, 0 :: nat)]"
  have st: "p_fstat ?h 3 ?o = Inr (plain_stat 0)" "p_stat ?h ''/file/system/a'' ?o = Inr (plain_stat 0)"
    by (simp_all add: search_host_def mem_host_def posix.defs find_host.defs)
  have y: "tm_year (p_localtime ?h x) = 120" for x
    by (simp add: search_host_def mem_host_def posix.defs find_host.defs)
  obtain i where i: "FSQueryFileInfo ?h 3 FIL_STANDARD 24 demo_status ?o = (NO_ERROR, i)"
      "FSQueryPathInfo ?h demo_router (''C:'' @ BSL # ''A'') FIL_STANDARD 24 demo_status ?o = Ret (NO_ERROR, Status (i\<lparr>
      s_fdateCreation := (s_fdateCreation i)\<lparr>year := year (s_fdateCreation i) + 60\<rparr>,
      s_fdateLastAccess := (s_fdateLastAccess i)\<lparr>year := year (s_fdateLastAccess i) + 60\<rparr>,
      s_fdateLastWrite := (s_fdateLastWrite i)\<lparr>year := year (s_fdateLastWrite i) + 60\<rparr>\<rparr>))"
    using path_info_year [OF demo_copy(1) demo_pathconv st(2,1), of FIL_STANDARD 24 demo_status] by (auto simp: status_size_def)
  have "year (s_fdateCreation i) = 40"
    using i(1) y st(1) by (auto simp: FSQueryFileInfo_def fill_status_def status_date_def status_size_def Let_def)
  then show ?thesis using i(2) by auto
qed

lemma foldl_dir_step: "''..'' \<notin> set ds \<Longrightarrow> ''.'' \<notin> set ds \<Longrightarrow> foldl dir_step cs ds = cs @ ds"
  by (induction ds arbitrary: cs) (auto simp: dir_step_def)

text \<open>The full name of a file is not what the query for it returns: the components of the name are appended to the name
  itself.\<close>

theorem full_name_doubled:
  assumes "fold_slash name = join (d # ds)" and "length d = 2" and "cs_at d 1 = CHR '':''" and "list_all comp_ok (d # ds)"
    and "''..'' \<notin> set ds" and "''.'' \<notin> set ds"
    and "2 * length name + 1 < unat cb" and "length name < CCHMAXPATH"
  shows "FSQueryPathInfo host r name FIL_QUERYFULLNAME cb info h = Ret (NO_ERROR, FullName (fold_slash name @ BSL # fold_slash name))"
proof -
  let ?c = "d # ds"
  have len: "length (join ?c) = length name"
    using assms(1) by (metis fold_slash_def length_map)
  have idem: "fold_slash (fold_slash name) = fold_slash name" by (simp add: fold_slash_def)
  obtain x where d: "d = [x, CHR '':'']"
    using assms(2,3) by (cases d; cases "tl d") (auto simp: cs_at_def)
  have nodots: "''..'' \<notin> set ?c" "''.'' \<notin> set ?c" using d assms(5,6) by auto
  obtain r' where head: "join ?c = x # CHR '':'' # r'" using d by (cases ds) auto
  have "set_loop (unat cb) CCHMAXPATH (join ?c) (join ?c) = Some (join (foldl dir_step ?c ?c))"
    by (rule set_loop_steps) (use assms(4,7,8) len in simp_all)
  moreover have "foldl dir_step ?c ?c = ?c @ ?c" by (rule foldl_dir_step [OF nodots])
  moreover have "join (?c @ ?c) = join ?c @ BSL # join ?c"
    using join_append [of ?c ?c] by simp
  moreover have "chr_at (join ?c) 1 = Some (CHR '':'')" "join ?c \<noteq> [BSL]"
    unfolding head by (simp_all add: chr_at_def cs_at_def)
  moreover have "\<not> cb \<le> of_nat (length name)"
    using assms(7,8) by (auto simp: word_le_nat_alt unat_of_nat32)
  ultimately show ?thesis
    using assms(1,8) len idem by (simp add: FSQueryPathInfo_def name_copy_def full_name_def Let_def)
qed

theorem full_name_doubled_witness:
  "FSQueryPathInfo (search_host []) demo_router (''C:/A'') FIL_QUERYFULLNAME 100 demo_status (\<lambda>_. None) =
     Ret (NO_ERROR, FullName (''C:'' @ BSL # ''A'' @ BSL # ''C:'' @ BSL # ''A''))"
proof -
  have f: "fold_slash ''C:/A'' = join [''C:'', ''A'']" by (simp add: fold_slash_def)
  show ?thesis
    using full_name_doubled [OF f, of 100 "search_host []" demo_router demo_status "\<lambda>_. None"] f
    by (simp add: cs_at_def comp_ok_def)
qed

end
