(* ===== verification/LxEntry.thy ===== *)
theory LxEntry
  imports LxEntries
begin

text \<open>
  The search for one entry of the entry table (\<open>get_entry\<close> of \<^verbatim>\<open>lib/ixf/lx/mod.c\<close>). A position is the list of bytes
  from there to the end of the loader section; a read behind it gives no value. The results are the
  position returned (\<open>None\<close> is the null pointer) and the values stored through the five \<open>ret_\<close> pointers.
\<close>

section \<open>Operations\<close>

record entry_ret =
  ret_flags :: u32
  ret_offset :: u32
  ret_obj :: u32
  ret_modord :: u32
  ret_type :: u32

definition no_entry :: "entry_ret \<Rightarrow> entry_ret" where
  "no_entry r = r\<lparr>ret_flags := 0, ret_offset := 0, ret_obj := 0, ret_type := 0\<rparr>"

lemma rd8_1_Some: "rd8 tbl 1 = Some b \<Longrightarrow> 1 < length tbl"
  by (auto simp: rd8_def split: if_splits)

text \<open>The inner loop over unused bundles: position, \<open>entry_ord_index\<close> and \<open>prev_ord_index\<close>.\<close>

function skip_unused :: "u8 list \<Rightarrow> u32 \<Rightarrow> u32 \<Rightarrow> (u8 list \<times> u32 \<times> u32) option" where
  "skip_unused tbl idx prev = do {
     ty \<leftarrow> rd8 tbl 1;
     if ty = EMPTY then do {
       cnt \<leftarrow> rd8 tbl 0;
       skip_unused (drop UNUSED_ENTRY_SIZE tbl) (idx + ucast cnt) idx }
     else Some (tbl, idx, prev) }"
  by auto
termination
  by (relation "measure (\<lambda>(tbl, idx, prev). length tbl)") (auto dest!: rd8_0_Some)

declare skip_unused.simps [simp del]

text \<open>The loops inside a bundle, with entries of \<open>sz\<close> bytes.\<close>

function seek_entry :: "nat \<Rightarrow> u32 \<Rightarrow> u32 \<Rightarrow> u32 \<Rightarrow> u8 list \<Rightarrow> u8 list" where
  "seek_entry sz search idx elements p =
     (if idx < elements \<and> search \<noteq> idx then seek_entry sz search (idx + 1) elements (drop sz p) else p)"
  by auto
termination
proof (relation "measure (\<lambda>(sz, search, idx, elements, p). unat elements - unat idx)", goal_cases)
  case (2 sz search idx elements p)
  then have l: "unat idx < unat elements" by (simp add: word_less_nat_alt)
  then have "unat (idx + 1) = unat idx + 1"
    using unsigned_less [where ?'a = nat and w = elements] by (simp add: unat_word_ariths)
  with l show ?case by simp
qed simp

declare seek_entry.simps [simp del]

definition entry_32 :: "u8 list \<Rightarrow> u32 \<Rightarrow> u32 \<Rightarrow> entry_ret \<Rightarrow> entry_ret option" where
  "entry_32 tbl idx search r = do {
     cnt \<leftarrow> rd8 tbl 0;
     let p = seek_entry ENTRY_SIZE_32BIT search idx (ucast cnt + idx) (drop ENTRY_HEADER_SIZE tbl);
     fl \<leftarrow> rd8 p 0;
     off \<leftarrow> rd32 p 1;
     obj \<leftarrow> rd16 tbl 2;
     Some (r\<lparr>ret_flags := ucast fl, ret_offset := off, ret_obj := ucast obj, ret_type := 3\<rparr>) }"

definition entry_fwd_at :: "u8 list \<Rightarrow> u32 \<Rightarrow> u32 \<Rightarrow> entry_ret \<Rightarrow> entry_ret option" where
  "entry_fwd_at tbl idx search r = do {
     cnt \<leftarrow> rd8 tbl 0;
     let p = seek_entry FORWARD_ENTRY_SIZE search idx (ucast cnt + idx) (drop ENTRY_HEADER_SIZE tbl);
     fl \<leftarrow> rd8 p 0;
     val \<leftarrow> rd32 p 3;
     modord \<leftarrow> rd16 p 1;
     obj \<leftarrow> rd16 tbl 2;
     Some (r\<lparr>ret_flags := ucast fl, ret_offset := val, ret_modord := ucast modord, ret_obj := ucast obj, ret_type := 4\<rparr>) }"

text \<open>
  The test for a forwarder in the second half of an iteration: \<open>Inl\<close> is the return, \<open>Inr\<close> the position and index for
  the next iteration.
\<close>

definition fwd_part :: "u8 list \<Rightarrow> u32 \<Rightarrow> u32 \<Rightarrow> entry_ret \<Rightarrow> ((u8 list option \<times> entry_ret) + (u8 list \<times> u32)) option" where
  "fwd_part tbl idx search r = do {
     ty \<leftarrow> rd8 tbl 1;
     cnt \<leftarrow> rd8 tbl 0;
     if search \<ge> idx \<and> search < ucast cnt + idx \<and> ty = ENTRYFWD then do {
       r \<leftarrow> entry_fwd_at tbl idx search r;
       Some (Inl (Some tbl, r)) }
     else if ty = ENTRYFWD then Some (Inr (drop (ENTRY_HEADER_SIZE + FORWARD_ENTRY_SIZE * unat cnt) tbl, idx + ucast cnt))
     else Some (Inr (tbl, idx)) }"

text \<open>
  The index used after the unused bundles, or the return with no entry. The pointer \<open>prev_entry_table\<close> is the position
  behind the last unused bundle, which is the current one here.
\<close>

definition bundle_index :: "u8 list \<Rightarrow> u32 \<Rightarrow> u32 \<Rightarrow> u32 \<Rightarrow> u32 option option" where
  "bundle_index tbl idx prev search =
     (if search < idx then Some (if prev \<le> search then Some prev else None)
      else do { cnt \<leftarrow> rd8 tbl 0; Some (if cnt = 0 then None else Some idx) })"

text \<open>From the label \<open>sw\<close> to the end of an iteration.\<close>

definition bundle_part ::
    "u8 list \<Rightarrow> u32 \<Rightarrow> u32 \<Rightarrow> entry_ret \<Rightarrow> ((u8 list option \<times> entry_ret) + (u8 list \<times> u32)) option" where
  "bundle_part tbl idx search r = do {
     ty \<leftarrow> rd8 tbl 1;
     cnt \<leftarrow> rd8 tbl 0;
     if ty \<noteq> EMPTY \<and> ty \<noteq> ENTRYFWD \<and> ty \<noteq> ENTRY32 then Some (Inl (None, no_entry r))
     else if ty = ENTRY32 \<and> search \<le> idx \<and> idx - search \<le> ucast cnt then do {
       r \<leftarrow> entry_32 tbl idx search r;
       Some (Inl (Some tbl, r)) }
     else do {
       let (tbl, idx) = (if ty = ENTRY32
         then (drop (ENTRY_HEADER_SIZE + ENTRY_SIZE_32BIT * unat cnt) tbl, idx + ucast cnt) else (tbl, idx));
       fwd_part tbl idx search r } }"

lemma skip_unused_result:
  "skip_unused tbl idx prev = Some (t, i, p) \<Longrightarrow> length t \<le> length tbl \<and> (\<exists>ty. rd8 t 1 = Some ty \<and> ty \<noteq> EMPTY)"
proof (induction tbl idx prev rule: skip_unused.induct)
  case (1 tbl idx prev)
  from 1(2) obtain ty where ty: "rd8 tbl 1 = Some ty" by (subst (asm) skip_unused.simps) (auto simp: bind_eq_Some_conv)
  show ?case
  proof (cases "ty = EMPTY")
    case True
    with 1(2) ty obtain cnt where "rd8 tbl 0 = Some cnt" "skip_unused (drop 2 tbl) (idx + ucast cnt) idx = Some (t, i, p)"
      by (subst (asm) skip_unused.simps) (auto simp: bind_eq_Some_conv)
    with 1(1) [OF ty True] show ?thesis by fastforce
  next
    case False
    with 1(2) ty have "t = tbl" by (subst (asm) skip_unused.simps) simp
    with ty False show ?thesis by simp
  qed
qed

lemma fwd_part_shrinks:
  assumes "fwd_part tbl idx search r = Some (Inr (t, i))"
  shows "length t \<le> length tbl" and "rd8 tbl 1 = Some ENTRYFWD \<Longrightarrow> length t < length tbl"
  using assms by (auto simp: fwd_part_def bind_eq_Some_conv split: if_splits dest: rd8_0_Some)

lemma bundle_part_shrinks:
  assumes "bundle_part tbl idx search r = Some (Inr (t, i))" and "rd8 tbl 1 = Some ty" and "ty \<noteq> EMPTY"
  shows "length t < length tbl"
proof -
  obtain cnt where cnt: "rd8 tbl 0 = Some cnt" using assms(1) by (auto simp: bundle_part_def bind_eq_Some_conv)
  from assms consider "ty = ENTRY32" "fwd_part (drop (4 + 5 * unat cnt) tbl) (idx + ucast cnt) search r = Some (Inr (t, i))"
    | "ty = ENTRYFWD" "fwd_part tbl idx search r = Some (Inr (t, i))"
    using cnt by (auto simp: bundle_part_def bind_eq_Some_conv split: if_splits sum.splits prod.splits)
  then show ?thesis
  proof cases
    case 1
    have "length t \<le> length tbl - (4 + 5 * unat cnt)" using fwd_part_shrinks(1) [OF 1(2)] by simp
    with rd8_0_Some [OF cnt] show ?thesis by linarith
  next
    case 2
    from fwd_part_shrinks(2) [OF 2(2)] 2(1) assms(2) show ?thesis by simp
  qed
qed

function entry_loop :: "u8 list \<Rightarrow> u32 \<Rightarrow> u32 \<Rightarrow> u32 \<Rightarrow> entry_ret \<Rightarrow> (u8 list option \<times> entry_ret) option" where
  "entry_loop tbl idx prev search r =
     (if idx \<le> search then do {
        (tbl, idx, prev) \<leftarrow> skip_unused tbl idx prev;
        b \<leftarrow> bundle_index tbl idx prev search;
        (case b of
           None \<Rightarrow> Some (None, no_entry r)
         | Some idx \<Rightarrow> do {
             x \<leftarrow> bundle_part tbl idx search r;
             (case x of Inl y \<Rightarrow> Some y | Inr (tbl, idx) \<Rightarrow> entry_loop tbl idx prev search r) }) }
      else Some (Some tbl, r))"
  by auto
termination
proof (relation "measure (\<lambda>(tbl, idx, prev, search, r). length tbl)", simp, goal_cases)
  case (1 tbl idx prev search r x t y i p b i' z u v i'')
  then show ?case using skip_unused_result [of tbl idx prev t i p] bundle_part_shrinks [of t i' search r] by fastforce
qed

declare entry_loop.simps [simp del]

text \<open>Without a module the table is at the address in \<open>*ret_type\<close>, for which \<open>mem\<close> gives the bytes.\<close>

definition get_entry :: "(u32 \<Rightarrow> u8 list) \<Rightarrow> LX_module option \<Rightarrow> u32 \<Rightarrow> entry_ret \<Rightarrow> (u8 list option \<times> entry_ret) option" where
  "get_entry mem lx_mod search r =
     (case lx_mod of
        Some lx \<Rightarrow>
          if fst (get_magic lx) \<noteq> 0x4C \<and> snd (get_magic lx) \<noteq> 0x58 then Some (None, r\<lparr>ret_type := -1\<rparr>)
          else do { tbl \<leftarrow> entry_table lx; entry_loop tbl 1 0 search r }
      | None \<Rightarrow> entry_loop (mem (ret_type r)) 1 0 search r)"

section \<open>Walking over bundles\<close>

definition enc_table :: "ebundle list \<Rightarrow> u8 list" where
  "enc_table bs = concat (map enc_bundle bs)"

definition ordinals :: "ebundle list \<Rightarrow> nat" where
  "ordinals bs = sum_list (map bundle_count bs)"

lemma enc_table_simps [simp]:
  "enc_table [] = []" "enc_table (b # bs) = enc_bundle b @ enc_table bs" "enc_table (bs @ cs) = enc_table bs @ enc_table cs"
  by (simp_all add: enc_table_def)

lemma ordinals_simps [simp]:
  "ordinals [] = 0" "ordinals (b # bs) = bundle_count b + ordinals bs" "ordinals (bs @ cs) = ordinals bs + ordinals cs"
  by (simp_all add: ordinals_def)

lemma head_bytes:
  assumes "bundle_ok b"
  shows "rd8 (enc_bundle b @ r) 0 = Some (of_nat (bundle_count b))" and "(of_nat (bundle_count b) :: u8) \<noteq> 0"
    and "unat (of_nat (bundle_count b) :: u8) = bundle_count b" and "(ucast (of_nat (bundle_count b) :: u8) :: u32) = of_nat (bundle_count b)"
  using enc_bundle_head(1) [OF refl, of b r] count_byte [of "bundle_count b"] assms by (simp_all add: bundle_ok_def)

lemma head_type:
  "rd8 (enc_bundle b @ r) 1 = Some (case b of BEmpty n \<Rightarrow> EMPTY | B32 ob es \<Rightarrow> ENTRY32 | BFwd rs es \<Rightarrow> ENTRYFWD)"
  by (rule enc_bundle_head(2) [OF refl])

lemma index_sum: "i + k < 2 ^ 32 \<Longrightarrow> unat (of_nat i + of_nat k :: u32) = i + k"
  by (metis of_nat_add unat_of_nat32)

lemma idx_le: "i < 2 ^ 32 \<Longrightarrow> k < 2 ^ 32 \<Longrightarrow> (of_nat i :: u32) \<le> of_nat k \<longleftrightarrow> i \<le> k"
  by (simp add: word_le_nat_alt unat_of_nat32)

lemma idx_less: "i < 2 ^ 32 \<Longrightarrow> k < 2 ^ 32 \<Longrightarrow> (of_nat i :: u32) < of_nat k \<longleftrightarrow> i < k"
  by (simp add: word_less_nat_alt unat_of_nat32)

lemma skip_used: "b \<noteq> BEmpty (bundle_count b) \<Longrightarrow> skip_unused (enc_bundle b @ r) idx prev = Some (enc_bundle b @ r, idx, prev)"
  by (subst skip_unused.simps) (simp only: head_type, cases b, simp_all)

lemma skip_unused_bundle:
  assumes "bundle_ok (BEmpty n)"
  shows "skip_unused (enc_bundle (BEmpty n) @ r) idx prev = skip_unused r (idx + of_nat n) idx"
  using head_bytes(1) [OF assms, of r] head_bytes(2-4) [OF assms] by (subst skip_unused.simps) (simp add: head_type [of "BEmpty n", simplified])

text \<open>One iteration at a bundle that is in use.\<close>

lemma loop_at:
  assumes "bundle_ok b" and "b \<noteq> BEmpty (bundle_count b)" and "idx \<le> search"
  shows "entry_loop (enc_bundle b @ r) idx prev search ret =
    (case bundle_part (enc_bundle b @ r) idx search ret of
       None \<Rightarrow> None | Some (Inl y) \<Rightarrow> Some y | Some (Inr (t, i)) \<Rightarrow> entry_loop t i prev search ret)"
proof -
  have "bundle_index (enc_bundle b @ r) idx prev search = Some (Some idx)"
    using assms(3) head_bytes(1,2) [OF assms(1)] by (simp add: bundle_index_def linorder_not_less [symmetric])
  with assms(3) skip_used [OF assms(2)] show ?thesis
    by (subst entry_loop.simps) (simp split: option.split sum.split)
qed

lemma passed_fwd:
  assumes "bundle_ok (BFwd rs es)" and "i + length es \<le> s" and "s < 2 ^ 32"
  shows "fwd_part (enc_bundle (BFwd rs es) @ r) (of_nat i) (of_nat s) ret = Some (Inr (r, of_nat (i + length es)))"
proof -
  note h = head_bytes [OF assms(1)]
  have "\<not> (of_nat s :: u32) < of_nat (i + length es)"
    using assms(2,3) idx_le [of "i + length es" s] by (simp add: linorder_not_less)
  then show ?thesis
    using h(1) [of r] h(2-4) head_type [of "BFwd rs es" r] drop_bundle(2) [of es "of_nat (length es)" ENTRYFWD rs r]
    by (simp add: fwd_part_def add.commute)
qed

text \<open>Passing over a bundle: the one after it is looked at in the same or in the next iteration.\<close>

lemma loop_passes:
  assumes "bundle_ok b" and "bundle_ok b'" and "i + bundle_count b \<le> s" and "s < 2 ^ 32"
  shows "\<exists>prev'. entry_loop (enc_bundle b @ enc_bundle b' @ r) (of_nat i) prev (of_nat s) ret =
    entry_loop (enc_bundle b' @ r) (of_nat (i + bundle_count b)) prev' (of_nat s) ret"
proof (cases b)
  case (BEmpty n)
  have le: "(of_nat i :: u32) \<le> of_nat s" "(of_nat i + of_nat n :: u32) \<le> of_nat s"
    using assms(3,4) idx_le [of i s] idx_le [of "i + n" s] BEmpty by simp_all
  have "entry_loop (enc_bundle b @ enc_bundle b' @ r) (of_nat i) prev (of_nat s) ret =
      entry_loop (enc_bundle b' @ r) (of_nat i + of_nat n) (of_nat i) (of_nat s) ret"
    using le skip_unused_bundle [of n] assms(1) BEmpty
    by (subst (1 2) entry_loop.simps) simp
  with BEmpty show ?thesis by auto
next
  case (B32 ob es)
  let ?t = "enc_bundle b' @ r" and ?i = "of_nat (i + length es) :: u32"
  note h = head_bytes [OF assms(1)]
  have n: "1 \<le> length es" using assms(1) B32 by (simp add: bundle_ok_def)
  have le: "(of_nat i :: u32) \<le> of_nat s" "\<not> (of_nat s :: u32) \<le> of_nat i" "?i \<le> of_nat s"
    using assms(3,4) n B32 idx_le [of i s] idx_le [of s i] idx_le [of "i + length es" s] by simp_all
  have p: "bundle_part (enc_bundle b @ ?t) (of_nat i) (of_nat s) ret = fwd_part ?t ?i (of_nat s) ret"
    using h(1) [of ?t] h(2-4) head_type [of b ?t] drop_bundle(1) [of es "of_nat (length es)" ENTRY32 ob ?t] le(2) B32
    by (simp add: bundle_part_def)
  have l: "entry_loop (enc_bundle b @ ?t) (of_nat i) prev (of_nat s) ret =
      (case fwd_part ?t ?i (of_nat s) ret of
         None \<Rightarrow> None | Some (Inl y) \<Rightarrow> Some y | Some (Inr (t, i)) \<Rightarrow> entry_loop t i prev (of_nat s) ret)"
    using loop_at [OF assms(1) _ le(1)] B32 p by simp
  have "entry_loop (enc_bundle b @ ?t) (of_nat i) prev (of_nat s) ret = entry_loop ?t ?i prev (of_nat s) ret"
  proof (cases "\<exists>rs fs. b' = BFwd rs fs")
    case True
    then have "bundle_part ?t ?i (of_nat s) ret = fwd_part ?t ?i (of_nat s) ret"
      using head_bytes(1) [OF assms(2), of r] head_type [of b' r] by (auto simp: bundle_part_def)
    with loop_at [OF assms(2) _ le(3)] True l show ?thesis by auto
  next
    case False
    then have "fwd_part ?t ?i (of_nat s) ret = Some (Inr (?t, ?i))"
      using head_bytes(1) [OF assms(2), of r] head_type [of b' r] by (cases b') (simp_all add: fwd_part_def)
    with l show ?thesis by simp
  qed
  with B32 show ?thesis by auto
next
  case (BFwd rs es)
  let ?t = "enc_bundle b' @ r"
  note h = head_bytes [OF assms(1)]
  have le: "(of_nat i :: u32) \<le> of_nat s" using assms(3,4) idx_le [of i s] by simp
  have "bundle_part (enc_bundle b @ ?t) (of_nat i) (of_nat s) ret = Some (Inr (?t, of_nat (i + length es)))"
    using h(1) [of ?t] head_type [of b ?t] passed_fwd [of rs es i s ?t ret] assms(1,3,4) BFwd by (simp add: bundle_part_def)
  with loop_at [OF assms(1) _ le] BFwd show ?thesis by auto
qed

lemma loop_walk:
  assumes "list_all bundle_ok bs" and "bundle_ok b" and "i + ordinals bs \<le> s" and "s < 2 ^ 32"
  shows "\<exists>prev'. entry_loop (enc_table bs @ enc_bundle b @ r) (of_nat i) prev (of_nat s) ret =
    entry_loop (enc_bundle b @ r) (of_nat (i + ordinals bs)) prev' (of_nat s) ret"
  using assms(1,3)
proof (induction bs arbitrary: i prev)
  case (Cons c cs)
  have c: "bundle_ok c" "i + bundle_count c \<le> s" "list_all bundle_ok cs" "(i + bundle_count c) + ordinals cs \<le> s"
    using Cons.prems by simp_all
  obtain d t where d: "enc_table cs @ enc_bundle b @ r = enc_bundle d @ t" "bundle_ok d"
    using c(3) assms(2) by (cases cs) auto
  from loop_passes [OF c(1) d(2) c(2) assms(4), of t prev ret] Cons.IH [OF c(3,4)] d(1)
  show ?case by (metis append_assoc enc_table_simps(2) ordinals_simps(2) add.assoc)
qed auto

section \<open>Entries found\<close>

lemma seek_entry_at:
  assumes "i \<le> s" and "s < i + n" and "i + n < 2 ^ 32"
  shows "seek_entry sz (of_nat s) (of_nat i) (of_nat (i + n)) p = drop (sz * (s - i)) p"
  using assms
proof (induction "s - i" arbitrary: i n p)
  case 0
  then show ?case by (subst seek_entry.simps) simp
next
  case (Suc k)
  have l: "i < i + n" "i < s" "i < 2 ^ 32" "s < 2 ^ 32" using Suc.hyps(2) Suc.prems by linarith+
  have "(of_nat i :: u32) < of_nat (i + n)" "(of_nat i :: u32) < of_nat s"
    using idx_less [OF l(3) Suc.prems(3)] idx_less [OF l(3,4)] l(1,2) by blast+
  moreover have "k = s - (i + 1)" "i + 1 \<le> s" "s < (i + 1) + (n - 1)" "(i + 1) + (n - 1) < 2 ^ 32" "(i + 1) + (n - 1) = i + n"
    using Suc.hyps(2) Suc.prems by simp_all
  from Suc.hyps(1) [OF this(1-4), of "drop sz p"] this(5)
  have "seek_entry sz (of_nat s) (of_nat i + 1) (of_nat (i + n)) (drop sz p) = drop (sz * (s - (i + 1))) (drop sz p)"
    by (simp add: add.commute)
  moreover have "s - i = Suc (s - (i + 1))" using Suc.hyps(2) by simp
  then have "drop (sz * (s - (i + 1))) (drop sz p) = drop (sz * (s - i)) p" by (simp only: mult_Suc_right drop_drop add.commute)
  ultimately show ?case by (subst seek_entry.simps) auto
qed

lemma drop_enc_fwd: "k \<le> length es \<Longrightarrow> drop (7 * k) (enc_fwd es @ r) = enc_fwd (drop k es) @ r"
proof (induction k arbitrary: es)
  case (Suc k)
  then obtain e fs where e: "es = e # fs" by (cases es) auto
  have "drop (7 * Suc k) (enc_fwd es @ r) = drop (7 * k) (drop 7 (enc_fwd es @ r))"
    by (simp only: drop_drop mult_Suc_right add.commute)
  also have "drop 7 (enc_fwd es @ r) = enc_fwd fs @ r" by (cases e) (simp add: e enc_fwd_def)
  finally show ?case using Suc e by simp
qed simp

lemma found_fwd:
  assumes "bundle_ok (BFwd rs es)" and "i \<le> s" and "s < i + length es" and "i + length es < 2 ^ 32" and "es ! (s - i) = (fl, m, v)"
  shows "bundle_part (enc_bundle (BFwd rs es) @ r) (of_nat i) (of_nat s) ret = Some (Inl (Some (enc_bundle (BFwd rs es) @ r),
    ret\<lparr>ret_flags := ucast fl, ret_offset := v, ret_modord := ucast m, ret_obj := ucast rs, ret_type := 4\<rparr>))"
proof -
  let ?t = "enc_bundle (BFwd rs es) @ r"
  note h = head_bytes [OF assms(1)]
  have sum: "(ucast (of_nat (length es) :: u8) :: u32) + of_nat i = of_nat (i + length es)" using h(4) by (simp add: add.commute)
  have "drop (s - i) es = (fl, m, v) # drop (Suc (s - i)) es" using assms(2,3,5) by (metis Cons_nth_drop_Suc less_diff_conv2 add.commute)
  then have p: "seek_entry 7 (of_nat s) (of_nat i) (of_nat (i + length es)) (enc_fwd es @ r) =
      fl # le16 m @ le32 v @ enc_fwd (drop (Suc (s - i)) es) @ r"
    using seek_entry_at [OF assms(2-4)] drop_enc_fwd [of "s - i" es r] assms(3) by (simp add: enc_fwd_def)
  have d4: "drop 4 ?t = enc_fwd es @ r" by simp
  have rd: "rd8 (fl # le16 m @ le32 v @ y) 0 = Some fl" "rd16 (fl # le16 m @ le32 v @ y) 1 = Some m" "rd32 (fl # le16 m @ le32 v @ y) 3 = Some v" for y
    using rd32_skip [of "fl # le16 m" "le32 v @ y" 0] by (simp_all add: rd16_Suc rd16_le16 rd32_le32 rd8_def)
  have obj: "rd16 ?t 2 = Some rs"
    using rd16_skip [of "[of_nat (length es), ENTRYFWD]" "le16 rs @ enc_fwd es @ r" 0] by (simp add: rd16_le16 numeral_2_eq_2)
  have "(of_nat s :: u32) < of_nat (i + length es)" "(of_nat i :: u32) \<le> of_nat s"
    using assms(2-4) idx_less [of s "i + length es"] idx_le [of i s] by (simp_all del: of_nat_add)
  then have "fwd_part ?t (of_nat i) (of_nat s) ret = Some (Inl (Some ?t,
      ret\<lparr>ret_flags := ucast fl, ret_offset := v, ret_modord := ucast m, ret_obj := ucast rs, ret_type := 4\<rparr>))"
    using h(1) [of r] head_type [of "BFwd rs es" r] rd obj
    by (simp add: fwd_part_def entry_fwd_at_def sum d4 p Let_def del: enc_bundle.simps of_nat_add drop_append)
  then show ?thesis using h(1) [of r] head_type [of "BFwd rs es" r] by (simp add: bundle_part_def del: enc_bundle.simps)
qed

lemma found_32:
  assumes "bundle_ok (B32 ob ((fl, off) # es))" and "i + length es + 1 < 2 ^ 32"
  shows "bundle_part (enc_bundle (B32 ob ((fl, off) # es)) @ r) (of_nat i) (of_nat i) ret =
    Some (Inl (Some (enc_bundle (B32 ob ((fl, off) # es)) @ r),
      ret\<lparr>ret_flags := ucast fl, ret_offset := off, ret_obj := ucast ob, ret_type := 3\<rparr>))"
proof -
  let ?t = "enc_bundle (B32 ob ((fl, off) # es)) @ r" and ?n = "length ((fl, off) # es)"
  note h = head_bytes [OF assms(1)]
  have sum: "(ucast (of_nat ?n :: u8) :: u32) + of_nat i = of_nat (i + ?n)" using h(4) by (simp add: add.commute)
  have d4: "drop 4 ?t = fl # le32 off @ enc_32 es @ r" by (simp add: enc_32_def)
  have p: "seek_entry 5 (of_nat i) (of_nat i) e q = q" for e q by (subst seek_entry.simps) simp
  have rd: "rd8 (fl # le32 off @ y) 0 = Some fl" "rd32 (fl # le32 off @ y) 1 = Some off" for y
    by (simp_all add: rd32_Suc rd32_le32 rd8_def)
  have "rd16 ?t 2 = Some ob"
    using rd16_skip [of "[of_nat ?n, ENTRY32]" "le16 ob @ enc_32 ((fl, off) # es) @ r" 0] by (simp add: rd16_le16 numeral_2_eq_2)
  then show ?thesis
    using h(1) [of r] head_type [of "B32 ob ((fl, off) # es)" r] rd
    by (simp add: bundle_part_def entry_32_def sum d4 p Let_def del: enc_bundle.simps of_nat_add drop_append)
qed

text \<open>The entry table of a module and its terminator.\<close>

definition has_table :: "LX_module \<Rightarrow> ebundle list \<Rightarrow> u8 list \<Rightarrow> bool" where
  "has_table lx bs rest \<longleftrightarrow> fst (get_magic lx) = 0x4C \<and> entry_table lx = Some (enc_table bs @ rest)
     \<and> list_all bundle_ok bs \<and> ordinals bs + 256 < 2 ^ 32"

lemma get_entry_at:
  assumes "has_table lx (bs @ b # cs) rest" and "ordinals bs + 1 \<le> s" and "s < 2 ^ 32"
  obtains prev where "get_entry mem (Some lx) (of_nat s) ret =
    entry_loop (enc_bundle b @ enc_table cs @ rest) (of_nat (ordinals bs + 1)) prev (of_nat s) ret"
proof -
  have t: "entry_table lx = Some (enc_table bs @ enc_bundle b @ enc_table cs @ rest)" "list_all bundle_ok bs" "bundle_ok b"
    "fst (get_magic lx) = 0x4C" using assms(1) by (simp_all add: has_table_def)
  obtain prev where "entry_loop (enc_table bs @ enc_bundle b @ enc_table cs @ rest) (of_nat 1) 0 (of_nat s) ret =
      entry_loop (enc_bundle b @ enc_table cs @ rest) (of_nat (1 + ordinals bs)) prev (of_nat s) ret"
    using loop_walk [OF t(2,3), of 1 s "enc_table cs @ rest" 0 ret] assms(2,3) by auto
  with t(1,4) show thesis by (intro that) (simp add: get_entry_def add.commute)
qed

text \<open>The search finds every forwarder by its ordinal, and the first entry of every bundle of 32-bit entries, with their flags,
  values and objects, whatever bundles come before.\<close>

theorem get_entry_found:
  assumes "has_table lx (bs @ b # cs) rest"
  shows "(b = BFwd rs es \<longrightarrow> k < length es \<longrightarrow> es ! k = (fl, m, v) \<longrightarrow>
      (\<exists>t. get_entry mem (Some lx) (of_nat (ordinals bs + k + 1)) ret = Some (Some t, ret\<lparr>ret_flags := ucast fl,
         ret_offset := v, ret_modord := ucast m, ret_obj := ucast rs, ret_type := 4\<rparr>)))
    \<and> (b = B32 ob ((fl', off) # fs) \<longrightarrow>
      (\<exists>t. get_entry mem (Some lx) (of_nat (ordinals bs + 1)) ret = Some (Some t, ret\<lparr>ret_flags := ucast fl',
         ret_offset := off, ret_obj := ucast ob, ret_type := 3\<rparr>)))"
proof (intro conjI impI)
  have ok: "bundle_ok b" and lim: "ordinals bs + bundle_count b + 256 < 2 ^ 32" using assms by (simp_all add: has_table_def)
  { assume b: "b = BFwd rs es" and k: "k < length es" "es ! k = (fl, m, v)"
    let ?s = "ordinals bs + k + 1"
    have s: "ordinals bs + 1 \<le> ?s" "?s < ordinals bs + 1 + length es" "ordinals bs + 1 + length es < 2 ^ 32" "?s < 2 ^ 32"
      "es ! (?s - (ordinals bs + 1)) = (fl, m, v)" using lim b k by simp_all
    obtain prev where g: "get_entry mem (Some lx) (of_nat ?s) ret =
        entry_loop (enc_bundle b @ enc_table cs @ rest) (of_nat (ordinals bs + 1)) prev (of_nat ?s) ret"
      using get_entry_at [OF assms s(1,4)] .
    have "(of_nat (ordinals bs + 1) :: u32) \<le> of_nat ?s" using s by (subst idx_le) simp_all
    from loop_at [OF ok _ this] found_fwd [OF ok [unfolded b] s(1-3,5), of "enc_table cs @ rest" ret] b g
    show "\<exists>t. get_entry mem (Some lx) (of_nat ?s) ret = Some (Some t, ret\<lparr>ret_flags := ucast fl,
         ret_offset := v, ret_modord := ucast m, ret_obj := ucast rs, ret_type := 4\<rparr>)"
      by (simp del: enc_bundle.simps of_nat_add) }
  { assume b: "b = B32 ob ((fl', off) # fs)"
    let ?s = "ordinals bs + 1"
    have s: "?s < 2 ^ 32" "?s + length fs + 1 < 2 ^ 32" using lim b by simp_all
    obtain prev where g: "get_entry mem (Some lx) (of_nat ?s) ret =
        entry_loop (enc_bundle b @ enc_table cs @ rest) (of_nat ?s) prev (of_nat ?s) ret"
      using get_entry_at [OF assms _ s(1)] by blast
    from loop_at [OF ok _ order_refl] found_32 [OF ok [unfolded b] s(2), of "enc_table cs @ rest" ret] b g
    show "\<exists>t. get_entry mem (Some lx) (of_nat ?s) ret = Some (Some t, ret\<lparr>ret_flags := ucast fl',
         ret_offset := off, ret_obj := ucast ob, ret_type := 3\<rparr>)"
      by (simp del: enc_bundle.simps of_nat_add) }
qed

text \<open>The other entries of a bundle of 32-bit entries are never found: the search returns a position, which its callers take
  for success, without storing any value.\<close>

theorem get_entry_misses:
  assumes "has_table lx (bs @ B32 ob es # cs) rest" and "0 < k" and "k < length es" and "2 \<le> length rest"
  shows "\<exists>t. get_entry mem (Some lx) (of_nat (ordinals bs + k + 1)) ret = Some (Some t, ret)"
proof -
  let ?b = "B32 ob es" and ?s = "ordinals bs + k + 1" and ?i = "ordinals bs + 1" and ?r = "enc_table cs @ rest"
  have ok: "bundle_ok ?b" and lim: "ordinals bs + length es + 256 < 2 ^ 32" using assms(1) by (simp_all add: has_table_def)
  note h = head_bytes [OF ok]
  obtain prev where g: "get_entry mem (Some lx) (of_nat ?s) ret =
      entry_loop (enc_bundle ?b @ ?r) (of_nat ?i) prev (of_nat ?s) ret"
    using get_entry_at [OF assms(1), of ?s] lim assms(2,3) by auto
  have le: "(of_nat ?i :: u32) \<le> of_nat ?s" "\<not> (of_nat ?s :: u32) \<le> of_nat ?i"
    using lim assms(2,3) by (subst idx_le; simp)+
  obtain ty where ty: "rd8 ?r 1 = Some ty" using assms(4) by (auto simp: rd8_def)
  obtain cnt where cnt: "rd8 ?r 0 = Some cnt" using assms(4) by (cases ?r) (auto simp: rd8_def)
  have bp: "bundle_part (enc_bundle ?b @ ?r) (of_nat ?i) (of_nat ?s) ret = fwd_part ?r (of_nat (?i + length es)) (of_nat ?s) ret"
    using h(1) [of ?r] h(2-4) head_type [of ?b ?r] drop_bundle(1) [of es "of_nat (length es)" ENTRY32 ob ?r] le(2)
    by (simp add: bundle_part_def add.assoc)
  have c: "unat cnt < 256" using unsigned_less [where ?'a = nat and w = cnt] by simp
  have "unat (of_nat (?i + length es) + ucast cnt :: u32) = ?i + length es + unat cnt"
    using index_sum [of "?i + length es" "unat cnt"] c lim by (simp add: unsigned_ucast_eq take_bit_nat_eq_self)
  moreover have "unat (of_nat ?s :: u32) = ?s" using lim assms(3) by (intro unat_of_nat32) simp
  moreover have "unat (of_nat (?i + length es) :: u32) = ?i + length es" using lim by (intro unat_of_nat32) simp
  ultimately have past: "\<not> (of_nat (?i + length es) :: u32) \<le> of_nat ?s" "\<not> (of_nat (?i + length es) + ucast cnt :: u32) \<le> of_nat ?s"
    using assms(3) unfolding word_le_nat_alt by linarith+
  then obtain t j where f: "fwd_part ?r (of_nat (?i + length es)) (of_nat ?s) ret = Some (Inr (t, j))" "\<not> j \<le> of_nat ?s"
    using ty cnt by (cases "ty = ENTRYFWD") (auto simp: fwd_part_def simp del: of_nat_add of_nat_Suc)
  have "entry_loop (enc_bundle ?b @ ?r) (of_nat ?i) prev (of_nat ?s) ret = entry_loop t j prev (of_nat ?s) ret"
    using loop_at [OF ok _ le(1)] bp f(1) by (simp del: enc_bundle.simps of_nat_add)
  also have "\<dots> = Some (Some t, ret)" using f(2) by (subst entry_loop.simps) simp
  finally show ?thesis using g by auto
qed

definition get_entry_module :: LX_module where
  "get_entry_module = lx0\<lparr>lx_head_e32_exe := e32_exe0\<lparr>e32_magic0 := 0x4C, e32_magic1 := 0x58\<rparr>,
     loader_section := enc_table [BEmpty 2, BFwd 0 [(1, 2, 3), (1, 2, 9)], B32 1 [(3, 0x100), (3, 0x200)]] @ [0, 0]\<rparr>"

definition entry_ret0 :: entry_ret where
  "entry_ret0 = \<lparr>ret_flags = 7, ret_offset = 7, ret_obj = 7, ret_modord = 7, ret_type = 7\<rparr>"

lemma get_entry_module_table:
  "has_table get_entry_module [BEmpty 2, BFwd 0 [(1, 2, 3), (1, 2, 9)], B32 1 [(3, 0x100), (3, 0x200)]] [0, 0]"
  by (simp add: has_table_def get_entry_module_def entry_table_def e32_exe0_def get_magic_def bundle_ok_def)

theorem get_entry_found_witness:
  "(\<exists>t. get_entry (\<lambda>_. []) (Some get_entry_module) 4 entry_ret0 = Some (Some t, \<lparr>ret_flags = 1, ret_offset = 9, ret_obj = 0, ret_modord = 2, ret_type = 4\<rparr>))
   \<and> (\<exists>t. get_entry (\<lambda>_. []) (Some get_entry_module) 5 entry_ret0 = Some (Some t, \<lparr>ret_flags = 3, ret_offset = 0x100, ret_obj = 1, ret_modord = 7, ret_type = 3\<rparr>))"
  using get_entry_found [of get_entry_module "[BEmpty 2]" "BFwd 0 [(1, 2, 3), (1, 2, 9)]" "[B32 1 [(3, 0x100), (3, 0x200)]]" "[0, 0]"
      0 "[(1, 2, 3), (1, 2, 9)]" 1 1 2 9 "\<lambda>_. []" entry_ret0]
    get_entry_found [of get_entry_module "[BEmpty 2, BFwd 0 [(1, 2, 3), (1, 2, 9)]]" "B32 1 [(3, 0x100), (3, 0x200)]" "[]" "[0, 0]"
      0 "[]" 0 0 0 0 "\<lambda>_. []" entry_ret0 1 3 "0x100" "[(3, 0x200)]"]
    get_entry_module_table
  by (simp add: entry_ret0_def)

theorem get_entry_misses_witness:
  "\<exists>t. get_entry (\<lambda>_. []) (Some get_entry_module) 6 entry_ret0 = Some (Some t, entry_ret0)"
  using get_entry_misses [of get_entry_module "[BEmpty 2, BFwd 0 [(1, 2, 3), (1, 2, 9)]]" 1 "[(3, 0x100), (3, 0x200)]" "[]" "[0, 0]" 1 "\<lambda>_. []" entry_ret0]
    get_entry_module_table by simp

end
