(* ===== verification/SemApi.thy ===== *)
theory SemApi
  imports HandleMgr LxObjects
begin

text \<open>
  Event semaphores of the OS/2 server (\<open>CPCreateEventSem\<close>, \<open>CPOpenEventSem\<close> and \<open>CPCloseEventSem\<close> of
  \<^verbatim>\<open>server/os2srv/api/api.c\<close>) on top of the handle tables. A semaphore is a structure in the memory of the table;
  the table hangs from the pointer \<open>htSem\<close>, and a call that uses a null pointer or an uninitialised one has no
  value. The host's call that opens a semaphore through the server and the initial contents of a host
  semaphore are arguments.
\<close>

section \<open>State\<close>

abbreviation (input) ERROR_DUPLICATE_NAME :: u32 where "ERROR_DUPLICATE_NAME \<equiv> 285"
abbreviation (input) ERROR_TOO_MANY_OPENS :: u32 where "ERROR_TOO_MANY_OPENS \<equiv> 291"
abbreviation (input) ERROR_SEM_NOT_FOUND :: u32 where "ERROR_SEM_NOT_FOUND \<equiv> 187"
abbreviation (input) DC_SEM_SHARED :: u32 where "DC_SEM_SHARED \<equiv> 1"
abbreviation (input) SEMTYPE_EVENT :: u8 where "SEMTYPE_EVENT \<equiv> 0"
abbreviation (input) NAMESIZE :: nat where "NAMESIZE \<equiv> 260"

text \<open>Offsets of the members of \<open>struct _SEM\<close>; the first one is the link.\<close>

abbreviation (input) sem_szName :: u32 where "sem_szName \<equiv> 4"
abbreviation (input) sem_cShared :: u32 where "sem_cShared \<equiv> 264"
abbreviation (input) sem_cType :: u32 where "sem_cType \<equiv> 265"
abbreviation (input) sem_ulRefCnt :: u32 where "sem_ulRefCnt \<equiv> 268"
abbreviation (input) sem_uSem :: u32 where "sem_uSem \<equiv> 272"

record sem_host =
  CPClientOpenEventSem :: "string option \<Rightarrow> u32"
  L4SEMAPHORE_INIT :: "u32 \<Rightarrow> u8 list"
  sem_var :: u32
  malloc_block :: u32

record sem_state =
  htSem :: "HANDLE_TABLE option"
  smem :: memory

definition sem_state0 :: "memory \<Rightarrow> sem_state" where
  "sem_state0 m = \<lparr>htSem = None, smem = m\<rparr>"

definition SEM32 :: string where
  "SEM32 = BSL # ''SEM32'' @ [BSL]"

definition sem_name :: "memory \<Rightarrow> u32 \<Rightarrow> string" where
  "sem_name m sem = cstr (map (\<lambda>i. char_of_u8 (m (sem + sem_szName + of_nat i))) [0..<NAMESIZE])"

section \<open>Operations\<close>

text \<open>\<open>strncpy\<close> to the array of the name, and the NUL in its last element.\<close>

definition name_bytes :: "string \<Rightarrow> u8 list" where
  "name_bytes s = take (NAMESIZE - 1) (map u8_of_char s @ replicate NAMESIZE 0) @ [0]"

definition sem_named :: "string option \<Rightarrow> bool" where
  "sem_named pszName \<longleftrightarrow> (case pszName of None \<Rightarrow> False | Some s \<Rightarrow> s \<noteq> [])"

text \<open>The members of a new semaphore.\<close>

definition init_sem :: "sem_host \<Rightarrow> string option \<Rightarrow> u32 \<Rightarrow> u32 \<Rightarrow> u32 \<Rightarrow> memory \<Rightarrow> memory" where
  "init_sem host pszName flAttr fState sem m =
     (let m = (if \<not> sem_named pszName then m(sem + sem_cShared := ucast flAttr)
               else (mem_wr m (sem + sem_szName) (name_bytes (the pszName)))(sem + sem_cShared := 1));
          m = m(sem + sem_cType := SEMTYPE_EVENT);
          m = mem_wr m (sem + sem_uSem) (L4SEMAPHORE_INIT host fState) in
      mem_wr32 m (sem + sem_ulRefCnt) 1)"

text \<open>The code, the handle stored to \<open>*phev\<close> and the state.\<close>

definition CPCreateEventSem ::
    "sem_host \<Rightarrow> string option \<Rightarrow> u32 \<Rightarrow> u32 \<Rightarrow> sem_state \<Rightarrow> (u32 \<times> u32 option \<times> sem_state) option" where
  "CPCreateEventSem host pszName flAttr fState st =
     (if fState > 1 \<or> flAttr > DC_SEM_SHARED then Some (ERROR_INVALID_PARAMETER, None, st)
      else if sem_named pszName \<and> take (length SEM32) (the pszName) \<noteq> SEM32 then Some (ERROR_INVALID_NAME, None, st)
      else if CPClientOpenEventSem host pszName = 0 then Some (ERROR_DUPLICATE_NAME, None, st)
      else do {
        ht \<leftarrow> htSem st;
        (rc, h, ht, m) \<leftarrow> HndAllocateHandle (malloc_block host) (sem_var host) ht (smem st);
        (case h of
           None \<Rightarrow> Some (rc, None, st\<lparr>htSem := Some ht, smem := m\<rparr>)
         | Some (sem, hev) \<Rightarrow>
             Some (NO_ERROR, Some hev, st\<lparr>htSem := Some ht, smem := init_sem host pszName flAttr fState sem m\<rparr>)) })"

text \<open>The search by name along the links.\<close>

partial_function (option) sem_search :: "memory \<Rightarrow> string \<Rightarrow> u32 \<Rightarrow> u32 option" where
  "sem_search m name sem =
     (if sem = 0 then Some 0
      else if sem_name m sem = name then Some sem
      else sem_search m name (mem_rd32 m sem))"

text \<open>
  The pointers are null or not; \<open>phev\<close> points to a number. In the branch for handles the pointer \<open>sem\<close> is only set when
  the index is valid.
\<close>

definition CPOpenEventSem :: "string option \<Rightarrow> u32 option \<Rightarrow> sem_state \<Rightarrow> (u32 \<times> u32 option \<times> sem_state) option" where
  "CPOpenEventSem pszName phev st = do {
     bad \<leftarrow> (if phev \<noteq> None then (case pszName of Some _ \<Rightarrow> Some True | None \<Rightarrow> None) else Some False);
     if bad then Some (ERROR_INVALID_PARAMETER, phev, st)
     else do {
       hev \<leftarrow> phev;
       ht \<leftarrow> htSem st;
       if hev \<noteq> 0 then
         (case HndIsValidIndexHandle ht hev (smem st) of
            None \<Rightarrow> None
          | Some _ \<Rightarrow> Some (ERROR_INVALID_HANDLE, phev, st))
       else do {
         name \<leftarrow> pszName;
         if take (length SEM32) name \<noteq> SEM32 then Some (ERROR_INVALID_NAME, phev, st)
         else do {
           sem \<leftarrow> sem_search (smem st) name (pFirstHandle ht);
           if sem = 0 then Some (ERROR_SEM_NOT_FOUND, phev, st)
           else
             let n = mem_rd32 (smem st) (sem + sem_ulRefCnt) in
             if n = 0 then Some (ERROR_TOO_MANY_OPENS, phev, st)
             else Some (NO_ERROR, Some ((sem - pFirstHandle ht) div ulHandleSize ht),
               st\<lparr>smem := mem_wr32 (smem st) (sem + sem_ulRefCnt) (n + 1)\<rparr>) } } } }"

definition CPCloseEventSem :: "u32 \<Rightarrow> u32" where
  "CPCloseEventSem hev = NO_ERROR"

section \<open>A new semaphore\<close>

lemma offset_eq: "j < 2 ^ 32 \<Longrightarrow> k < 2 ^ 32 \<Longrightarrow> (sem :: u32) + of_nat j = sem + of_nat k \<longleftrightarrow> j = k"
  using unat_of_nat32 [of j] unat_of_nat32 [of k] by (metis add_left_cancel)

text \<open>A write to other members of the structure at \<open>sem\<close>.\<close>

lemma member_wr_other:
  assumes "length bs + k \<le> 2 ^ 32" and "j < k \<or> k + length bs \<le> j" and "j < 2 ^ 32"
  shows "mem_wr m (sem + of_nat k) bs (sem + of_nat j) = m (sem + of_nat j)"
proof (rule mem_wr_other)
  fix i assume i: "i < length bs"
  with assms have "j \<noteq> k + i" "k + i < 2 ^ 32" by auto
  with offset_eq [OF assms(3), of "k + i" sem] show "sem + of_nat j \<noteq> sem + of_nat k + of_nat i" by (simp add: add.assoc)
qed

lemma name_bytes_nth:
  assumes "length s < NAMESIZE" and "i < NAMESIZE"
  shows "name_bytes s ! i = (if i < length s then u8_of_char (s ! i) else 0)"
  using assms by (auto simp: name_bytes_def nth_append)

lemma sem_name_written:
  assumes "length s < NAMESIZE" and "NUL \<notin> set s" and "\<And>i. i < NAMESIZE \<Longrightarrow> m (sem + of_nat (4 + i)) = name_bytes s ! i"
  shows "sem_name m sem = s"
proof -
  have "map (\<lambda>i. char_of_u8 (m (sem + sem_szName + of_nat i))) [0..<NAMESIZE] = s @ replicate (NAMESIZE - length s) NUL"
  proof (rule nth_equalityI)
    fix i assume i: "i < length (map (\<lambda>i. char_of_u8 (m (sem + sem_szName + of_nat i))) [0..<NAMESIZE])"
    have "char_of_u8 0 = NUL" by (simp add: char_of_u8_def char_of_eq_iff)
    with assms(1) assms(3) [of i] name_bytes_nth [OF assms(1), of i] i
    show "map (\<lambda>i. char_of_u8 (m (sem + sem_szName + of_nat i))) [0..<NAMESIZE] ! i = (s @ replicate (NAMESIZE - length s) NUL) ! i"
      by (simp add: nth_append add.assoc)
  qed (use assms(1) in simp)
  moreover have "takeWhile (\<lambda>c. c \<noteq> NUL) (s @ replicate (NAMESIZE - length s) NUL) = s"
    using assms(1,2) by (auto simp: takeWhile_append takeWhile_replicate)
  ultimately show ?thesis by (simp add: sem_name_def cstr_def)
qed

text \<open>On a table that has been set up: a semaphore with a name that starts with \<open>SEM32\<close> gets a slot of the table, and its
  structure holds the name, the type, one reference and the mark for shared semaphores.\<close>

theorem event_sem_created:
  assumes "htSem st = Some ht" and "HndAllocateHandle (malloc_block host) (sem_var host) ht (smem st) = Some (NO_ERROR, Some (sem, hev), ht', m)"
    and "fState \<le> 1" and "flAttr \<le> DC_SEM_SHARED" and "take (length SEM32) s = SEM32" and "length s < NAMESIZE" and "NUL \<notin> set s"
    and "CPClientOpenEventSem host (Some s) \<noteq> 0" and "length (L4SEMAPHORE_INIT host fState) < 256"
  shows "\<exists>m'. CPCreateEventSem host (Some s) flAttr fState st = Some (NO_ERROR, Some hev, st\<lparr>htSem := Some ht', smem := m'\<rparr>)
    \<and> sem_name m' sem = s \<and> m' (sem + sem_cShared) = 1 \<and> m' (sem + sem_cType) = SEMTYPE_EVENT \<and> mem_rd32 m' (sem + sem_ulRefCnt) = 1
    \<and> (\<forall>j < length (L4SEMAPHORE_INIT host fState). m' (sem + sem_uSem + of_nat j) = L4SEMAPHORE_INIT host fState ! j)"
proof -
  let ?I = "L4SEMAPHORE_INIT host fState"
  let ?m1 = "mem_wr m (sem + of_nat 4) (name_bytes s)"
  let ?m2 = "mem_wr (mem_wr ?m1 (sem + of_nat 264) [1]) (sem + of_nat 265) [0]"
  let ?m3 = "mem_wr ?m2 (sem + of_nat 272) ?I"
  let ?m' = "mem_wr ?m3 (sem + of_nat 268) (le32 1)"
  have ln: "length (name_bytes s) = NAMESIZE" by (simp add: name_bytes_def)
  have nm: "sem_named (Some s)" using assms(5) by (auto simp: sem_named_def SEM32_def)
  have init: "init_sem host (Some s) flAttr fState sem m = ?m'"
    using nm by (simp add: init_sem_def Let_def mem_wr32_def le32_def add.assoc)
  have run: "CPCreateEventSem host (Some s) flAttr fState st = Some (NO_ERROR, Some hev, st\<lparr>htSem := Some ht', smem := ?m'\<rparr>)"
    using assms(1-5,8) unfolding init [symmetric] by (simp add: CPCreateEventSem_def linorder_not_less)
  have other: "?m' (sem + of_nat j) = ?m2 (sem + of_nat j)" if "j < 268" for j
    using member_wr_other [of "le32 1" 268 j ?m3 sem] member_wr_other [of ?I 272 j ?m2 sem] that assms(9) by simp
  have "?m' (sem + of_nat (4 + i)) = name_bytes s ! i" if "i < NAMESIZE" for i
  proof -
    have "?m2 (sem + of_nat (4 + i)) = ?m1 (sem + of_nat (4 + i))"
      using member_wr_other [of "[0]" 265 "4 + i" "mem_wr ?m1 (sem + of_nat 264) [1]" sem] member_wr_other [of "[1]" 264 "4 + i" ?m1 sem] that
      by simp
    also have "\<dots> = name_bytes s ! i" using mem_wr_at [of i "name_bytes s" m "sem + of_nat 4"] that ln by (simp add: add.assoc)
    finally show ?thesis using other [of "4 + i"] that by simp
  qed
  from sem_name_written [OF assms(6,7) this] have name: "sem_name ?m' sem = s" .
  have sh: "?m' (sem + of_nat 264) = 1" "?m' (sem + of_nat 265) = 0"
    using other [of 264] other [of 265] offset_eq [of 264 265 sem] by simp_all
  have ref: "mem_rd32 ?m' (sem + of_nat 268) = 1" using mem_rd32_wr32 [of ?m3 "sem + of_nat 268" 1] by (simp add: mem_wr32_def le32_def add.assoc)
  have "?m' (sem + of_nat (272 + j)) = ?I ! j" if "j < length ?I" for j
    using member_wr_other [of "le32 1" 268 "272 + j" ?m3 sem] mem_wr_at [of j ?I ?m2 "sem + of_nat 272"] that assms(9)
    by (simp add: add.assoc)
  with run name sh ref show ?thesis by (intro exI [of _ ?m']) (simp add: add.assoc)
qed

definition no_sem_host :: sem_host where
  "no_sem_host = \<lparr>CPClientOpenEventSem = (\<lambda>_. ERROR_INVALID_PARAMETER), L4SEMAPHORE_INIT = (\<lambda>v. le32 v), sem_var = 0x100, malloc_block = 0x1000\<rparr>"

definition sem_table :: HANDLE_TABLE where
  "sem_table = \<lparr>ulMaxHandleCount = 8, ulHandleSize = 512, pNextFree = 0x1000, pFirstHandle = 0x1000, pMaxHandle = 0x2000, pReservedMemory = 0x2000\<rparr>"

theorem event_sem_created_witness:
  "\<exists>m'. CPCreateEventSem no_sem_host (Some (SEM32 @ ''A'')) 0 1 \<lparr>htSem = Some sem_table, smem = \<lambda>_. 0\<rparr>
      = Some (NO_ERROR, Some 0x7FFFF8, \<lparr>htSem = Some (sem_table\<lparr>pNextFree := 0\<rparr>), smem = m'\<rparr>)
    \<and> sem_name m' 0x1000 = SEM32 @ ''A'' \<and> m' 0x1108 = 1 \<and> m' 0x1109 = SEMTYPE_EVENT \<and> mem_rd32 m' 0x110C = 1"
proof -
  have a: "HndAllocateHandle (malloc_block no_sem_host) (sem_var no_sem_host) sem_table (\<lambda>_. 0)
      = Some (NO_ERROR, Some (0x1000, 0x7FFFF8), sem_table\<lparr>pNextFree := 0\<rparr>, \<lambda>_. 0)"
    by (simp add: HndAllocateHandle_def sem_table_def no_sem_host_def mem_rd32_def)
  have n: "length (SEM32 @ ''A'') < NAMESIZE" "NUL \<notin> set (SEM32 @ ''A'')" by (simp_all add: SEM32_def)
  from event_sem_created [of "\<lparr>htSem = Some sem_table, smem = \<lambda>_. 0\<rparr>" sem_table no_sem_host "0x1000" "0x7FFFF8" "sem_table\<lparr>pNextFree := 0\<rparr>" "\<lambda>_. 0"
      1 0 "SEM32 @ ''A''", OF _ _ _ _ _ n]
  show ?thesis using a by (simp add: no_sem_host_def) blast
qed

section \<open>No semaphore can be used\<close>

text \<open>The condition at the start of \<open>CPOpenEventSem\<close> covers every call that has a place for the handle: no semaphore is
  ever opened. The pointer to the table is never set, so creating a semaphore with correct parameters uses
  the null pointer.\<close>

theorem event_semaphores_unusable:
  "fst ` set_option (CPOpenEventSem pszName phev st) \<subseteq> {ERROR_INVALID_PARAMETER}
   \<and> (fState \<le> 1 \<longrightarrow> flAttr \<le> DC_SEM_SHARED \<longrightarrow> (sem_named (Some s) \<longrightarrow> take (length SEM32) s = SEM32)
      \<longrightarrow> CPClientOpenEventSem host (Some s) \<noteq> 0 \<longrightarrow> CPCreateEventSem host (Some s) flAttr fState (sem_state0 m) = None)"
  by (cases phev; cases pszName) (auto simp: CPOpenEventSem_def CPCreateEventSem_def sem_state0_def)

theorem event_semaphores_unusable_witness:
  "fst ` set_option (CPOpenEventSem (Some (SEM32 @ ''A'')) (Some 0) (sem_state0 (\<lambda>_. 0))) \<subseteq> {ERROR_INVALID_PARAMETER}
   \<and> CPCreateEventSem no_sem_host (Some (SEM32 @ ''A'')) 0 1 (sem_state0 (\<lambda>_. 0)) = None"
  using event_semaphores_unusable [of "Some (SEM32 @ ''A'')" "Some 0" "sem_state0 (\<lambda>_. 0)" 1 0 "SEM32 @ ''A''" no_sem_host "\<lambda>_. 0"]
  by (simp add: no_sem_host_def)

end
