(* ===== verification/DosName.thy ===== *)
theory DosName
  imports OsPrelude
begin

text \<open>
  The string routines of the control program library (\<^verbatim>\<open>strnlen.c\<close>, \<^verbatim>\<open>strlcpy.c\<close>, \<^verbatim>\<open>strlcat.c\<close> and \<^verbatim>\<open>strncmp.c\<close> of
  \<^verbatim>\<open>src/OS2/CPI/doscalls\<close>) and \<open>DosEditName\<close> (\<^verbatim>\<open>doseditname.c\<close>). A string that is read is the rest of its array from the
  pointer on, an array that is written is a list of characters with an index; an access outside an
  array gives no value.
\<close>

section \<open>String routines\<close>

definition put_chr :: "char list \<Rightarrow> nat \<Rightarrow> char \<Rightarrow> char list option" where
  "put_chr ar i c = (if i < length ar then Some (ar[i := c]) else None)"

text \<open>The character is read before the counter is tested.\<close>

fun strnlen :: "char list \<Rightarrow> nat \<Rightarrow> nat option" where
  "strnlen [] n = None"
| "strnlen (c # cs) n = (if c = NUL \<or> n = 0 then Some 0 else map_option Suc (strnlen cs (n - 1)))"

text \<open>The loop that finds the end of a string, for \<open>while (*s++)\<close>.\<close>

fun str_end :: "char list \<Rightarrow> nat option" where
  "str_end [] = None"
| "str_end (c # cs) = (if c = NUL then Some 0 else map_option Suc (str_end cs))"

text \<open>
  The copying loop of \<open>strlcpy\<close> with the size still left; it tells whether the terminator was copied, and
  returns the position and the rest of the source.
\<close>

fun lcpy_loop :: "nat \<Rightarrow> char list \<Rightarrow> nat \<Rightarrow> char list \<Rightarrow> (bool \<times> char list \<times> nat \<times> char list) option" where
  "lcpy_loop 0 ar d src = Some (False, ar, d, src)"
| "lcpy_loop (Suc n) ar d [] = None"
| "lcpy_loop (Suc n) ar d (c # src) = do {
     ar \<leftarrow> put_chr ar d c;
     if c = NUL then Some (True, ar, d + 1, src) else lcpy_loop n ar (d + 1) src }"

definition strlcpy :: "char list \<Rightarrow> nat \<Rightarrow> char list \<Rightarrow> nat \<Rightarrow> (char list \<times> nat) option" where
  "strlcpy ar d0 src siz =
     (if siz = 0 then do { n \<leftarrow> str_end src; Some (ar, n) }
      else do {
        (nul, ar, d, s) \<leftarrow> lcpy_loop (siz - 1) ar d0 src;
        if nul then Some (ar, length src - length s - 1)
        else do {
          ar \<leftarrow> put_chr ar d NUL;
          n \<leftarrow> str_end s;
          Some (ar, length src - length s + n) } })"

text \<open>The two loops of \<open>strlcat\<close>: the end of the string in the buffer, and the appending.\<close>

fun lcat_end :: "char list \<Rightarrow> nat \<Rightarrow> nat \<Rightarrow> nat option" where
  "lcat_end ar d 0 = Some d"
| "lcat_end ar d (Suc n) =
     (if length ar \<le> d then None else if ar ! d = NUL then Some d else lcat_end ar (d + 1) n)"

fun lcat_loop :: "nat \<Rightarrow> char list \<Rightarrow> nat \<Rightarrow> char list \<Rightarrow> (char list \<times> nat) option" where
  "lcat_loop n ar d [] = None"
| "lcat_loop n ar d (c # src) =
     (if c = NUL then Some (ar, d)
      else if n = 1 then lcat_loop n ar d src
      else do { ar \<leftarrow> put_chr ar d c; lcat_loop (n - 1) ar (d + 1) src })"

definition strlcat :: "char list \<Rightarrow> nat \<Rightarrow> char list \<Rightarrow> nat \<Rightarrow> (char list \<times> nat) option" where
  "strlcat ar d0 src siz = do {
     d \<leftarrow> lcat_end ar d0 siz;
     if d - d0 = siz then do { n \<leftarrow> strnlen src siz; Some (ar, d - d0 + n) }
     else do {
       (ar, d') \<leftarrow> lcat_loop (siz - (d - d0)) ar d src;
       ar \<leftarrow> put_chr ar d' NUL;
       n \<leftarrow> str_end src;
       Some (ar, d - d0 + n) } }"

text \<open>The difference of the first two bytes that differ.\<close>

fun strncmp :: "char list \<Rightarrow> char list \<Rightarrow> nat \<Rightarrow> int option" where
  "strncmp s1 s2 0 = Some 0"
| "strncmp (a # s1) (b # s2) (Suc n) =
     (if a \<noteq> b then Some (int (of_char a) - int (of_char b)) else if a = NUL then Some 0 else strncmp s1 s2 n)"
| "strncmp s1 s2 (Suc n) = None"

section \<open>Editing names\<close>

abbreviation (input) QM :: char where "QM \<equiv> CHR ''?''"
abbreviation (input) STAR :: char where "STAR \<equiv> CHR ''*''"
abbreviation (input) DOT :: char where "DOT \<equiv> CHR ''.''"

text \<open>
  The inner loop for an asterisk: \<open>e\<close> is the character of the pattern behind it, \<open>cb\<close> the unsigned counter of the
  outer loop.
\<close>

fun star_loop :: "char \<Rightarrow> char list \<Rightarrow> nat \<Rightarrow> u32 \<Rightarrow> string \<Rightarrow> (char list \<times> nat \<times> u32 \<times> string) option" where
  "star_loop e ar s cb [] = do { ar \<leftarrow> put_chr ar s NUL; Some (ar, s, cb - 1, []) }"
| "star_loop e ar s cb (c # src) = do {
     ar \<leftarrow> put_chr ar s c;
     if c = e \<or> c = NUL then Some (ar, s, cb - 1, src) else star_loop e ar (s + 1) (cb - 1) src }"

text \<open>The outer loop over the pattern; it returns the target and the position of its terminator.\<close>

fun edit_loop :: "char list \<Rightarrow> nat \<Rightarrow> u32 \<Rightarrow> string \<Rightarrow> string \<Rightarrow> (char list \<times> nat) option" where
  "edit_loop ar s cb [] src =
     (if cb - 1 = 0 then Some (ar, s) else do { ar \<leftarrow> put_chr ar s NUL; Some (ar, s) })"
| "edit_loop ar s cb (e # ed) src =
     (if cb - 1 = 0 then Some (ar, s)
      else do {
        ar \<leftarrow> put_chr ar s e;
        if e = QM then
          (case src of
             [] \<Rightarrow> edit_loop ar s (cb - 1) ed src
           | c # src' \<Rightarrow>
               if c = DOT then edit_loop ar s (cb - 1) ed src
               else do { ar \<leftarrow> put_chr ar s c; edit_loop ar (s + 1) (cb - 1) ed src' })
        else if e = STAR then do {
          (ar, s, cb, src) \<leftarrow> star_loop (cs_at ed 0) ar s (cb - 1) src;
          ar \<leftarrow> put_chr ar s (cs_at ed 0);
          edit_loop ar s (cb + 1) ed src }
        else if e = NUL then Some (ar, s)
        else if e = DOT then edit_loop ar (s + 1) (cb - 1) ed src
        else edit_loop ar (s + 1) (cb - 1) ed (tl src) })"

definition DosEditName ::
    "u32 \<Rightarrow> string option \<Rightarrow> string option \<Rightarrow> char list option \<Rightarrow> u32 \<Rightarrow> (u32 \<times> char list option) option" where
  "DosEditName metalevel pszSource pszEdit pszTarget cbTarget =
     (if metalevel \<noteq> 1 \<or> cbTarget = 0 then Some (ERROR_INVALID_PARAMETER, pszTarget)
      else case pszTarget of
        None \<Rightarrow> Some (ERROR_INVALID_PARAMETER, None)
      | Some ar \<Rightarrow> do {
          (ar, s) \<leftarrow> edit_loop ar 0 cbTarget (case pszEdit of None \<Rightarrow> [] | Some e \<Rightarrow> e) (case pszSource of None \<Rightarrow> [] | Some x \<Rightarrow> x);
          ar \<leftarrow> put_chr ar s NUL;
          if QM \<notin> set (cstr ar) then Some (ERROR_INVALID_NAME, Some ar)
          else if STAR \<notin> set (cstr ar) then Some (ERROR_INVALID_NAME, Some ar)
          else Some (NO_ERROR, Some ar) })"

section \<open>What the string routines compute\<close>

text \<open>An array after a string has been stored at an index.\<close>

definition stored :: "char list \<Rightarrow> nat \<Rightarrow> string \<Rightarrow> char list" where
  "stored ar d s = take d ar @ s @ drop (d + length s) ar"

lemma stored_Nil [simp]: "stored ar d [] = ar"
  by (simp add: stored_def)

lemma length_stored [simp]: "d + length s \<le> length ar \<Longrightarrow> length (stored ar d s) = length ar"
  by (simp add: stored_def)

lemma put_chr_stored:
  "d + length s < length ar \<Longrightarrow> put_chr (stored ar d s) (d + length s) c = Some (stored ar d (s @ [c]))"
  by (simp add: put_chr_def stored_def list_update_append Cons_nth_drop_Suc [symmetric])

lemma put_chr_first: "d < length ar \<Longrightarrow> put_chr ar d c = Some (stored ar d [c])"
  using put_chr_stored [of d "[]" ar c] by simp

lemma stored_stored:
  "d + length s + length t \<le> length ar \<Longrightarrow> stored (stored ar d s) (d + length s) t = stored ar d (s @ t)"
  by (simp add: stored_def ac_simps)

lemma cstr_stored: "NUL \<notin> set s \<Longrightarrow> NUL \<notin> set (take d ar) \<Longrightarrow> d \<le> length ar \<Longrightarrow> cstr (stored ar d (s @ [NUL])) = take d ar @ s"
  using cstr_append_NUL [of "take d ar @ s" "drop (Suc (d + length s)) ar"] by (simp add: stored_def)

lemma strnlen_str: "NUL \<notin> set s \<Longrightarrow> strnlen (s @ NUL # r) n = Some (min (length s) n)"
  by (induction s arbitrary: n) auto

lemma str_end_str: "NUL \<notin> set s \<Longrightarrow> str_end (s @ NUL # r) = Some (length s)"
  by (induction s) auto

lemma lcpy_loop_str:
  assumes "NUL \<notin> set s" and "d + min (length s + 1) n \<le> length ar"
  shows "lcpy_loop n ar d (s @ NUL # r) =
    (if length s < n then Some (True, stored ar d (s @ [NUL]), d + length s + 1, r)
     else Some (False, stored ar d (take n s), d + n, drop n s @ NUL # r))"
  using assms
proof (induction s arbitrary: n ar d)
  case Nil
  then show ?case by (cases n) (simp_all add: put_chr_first)
next
  case (Cons c s)
  show ?case
  proof (cases n)
    case (Suc k)
    have "lcpy_loop k (stored ar d [c]) (d + 1) (s @ NUL # r) =
      (if length s < k then Some (True, stored (stored ar d [c]) (d + 1) (s @ [NUL]), d + 1 + length s + 1, r)
       else Some (False, stored (stored ar d [c]) (d + 1) (take k s), d + 1 + k, drop k s @ NUL # r))"
      using Cons.prems Suc by (intro Cons.IH) auto
    with Cons.prems Suc show ?thesis
      using stored_stored [of d "[c]" "s @ [NUL]" ar] stored_stored [of d "[c]" "take k s" ar]
      by (auto simp: put_chr_first)
  qed simp
qed

lemma strlcpy_str:
  assumes "NUL \<notin> set s" and "0 < siz" and "d + min (length s + 1) siz \<le> length ar"
  shows "strlcpy ar d (s @ NUL # r) siz = Some (stored ar d (take (siz - 1) s @ [NUL]), length s)"
proof -
  obtain k where k: "siz = Suc k" using assms(2) by (cases siz) auto
  have "put_chr (stored ar d (take k s)) (d + k) NUL = Some (stored ar d (take k s @ [NUL]))" if "k \<le> length s"
    using put_chr_stored [of d "take k s" ar NUL] that assms(3) k by (simp add: min_absorb2)
  moreover have "str_end (drop k s @ NUL # r) = Some (length s - k)"
    using str_end_str [of "drop k s" r] assms(1) by (auto dest: in_set_dropD)
  ultimately show ?thesis using assms k lcpy_loop_str [of s d k ar r] by (auto simp: strlcpy_def)
qed

lemma lcat_end_str: "NUL \<notin> set t \<Longrightarrow> length t < n \<Longrightarrow> lcat_end (p @ t @ NUL # x) (length p) n = Some (length p + length t)"
proof (induction t arbitrary: p n)
  case Nil
  then show ?case by (cases n) auto
next
  case (Cons c t)
  then obtain k where k: "n = Suc k" by (cases n) auto
  have "lcat_end ((p @ [c]) @ t @ NUL # x) (length (p @ [c])) k = Some (length (p @ [c]) + length t)"
    using Cons k by (intro Cons.IH) auto
  with k Cons.prems show ?case by auto
qed

lemma lcat_loop_str:
  assumes "NUL \<notin> set s" and "0 < n" and "d + min (length s + 1) n \<le> length ar"
  shows "lcat_loop n ar d (s @ NUL # r) = Some (stored ar d (take (n - 1) s), d + min (length s) (n - 1))"
  using assms
proof (induction s arbitrary: n ar d)
  case (Cons c s)
  show ?case
  proof (cases "n = 1")
    case True
    then have "lcat_loop n ar d (s @ NUL # r) = Some (stored ar d (take (n - 1) s), d + min (length s) (n - 1))"
      using Cons.prems by (intro Cons.IH) auto
    with True Cons.prems show ?thesis by simp
  next
    case False
    then obtain k where k: "n = Suc (Suc k)" using Cons.prems(2) by (cases n rule: nat.exhaust; cases "n - 1") auto
    have "lcat_loop (n - 1) (stored ar d [c]) (d + 1) (s @ NUL # r)
        = Some (stored (stored ar d [c]) (d + 1) (take (n - 1 - 1) s), d + 1 + min (length s) (n - 1 - 1))"
      using Cons.prems k by (intro Cons.IH) auto
    moreover have "stored (stored ar d [c]) (d + 1) (take k s) = stored ar d (c # take k s)"
      using stored_stored [of d "[c]" "take k s" ar] Cons.prems(3) k by (simp add: min_def split: if_splits)
    ultimately show ?thesis using Cons.prems k by (auto simp: put_chr_first)
  qed
qed simp

lemma strlcat_str:
  assumes "NUL \<notin> set t" and "NUL \<notin> set s" and "length t < siz" and "ar = t @ NUL # x"
    and "length t + min (length s + 1) (siz - length t) \<le> length ar"
  shows "strlcat ar 0 (s @ NUL # r) siz = Some (stored ar (length t) (take (siz - length t - 1) s @ [NUL]), length t + length s)"
proof -
  let ?n = "siz - length t"
  have n: "0 < ?n" using assms(3) by simp
  have "lcat_end ar 0 siz = Some (length t)" using lcat_end_str [of t siz "[]" x] assms by simp
  moreover have "put_chr (stored ar (length t) (take (?n - 1) s)) (length t + min (length s) (?n - 1)) NUL
      = Some (stored ar (length t) (take (?n - 1) s @ [NUL]))"
    using put_chr_stored [of "length t" "take (?n - 1) s" ar NUL] assms(5) n by simp
  ultimately show ?thesis
    using lcat_loop_str [OF assms(2) n assms(5), of r] str_end_str [OF assms(2), of r] n by (simp add: strlcat_def)
qed

lemma stored_string: "stored (t @ NUL # x) (length t) (s @ [NUL]) = (t @ s) @ NUL # drop (length s) x"
  by (simp add: stored_def)

lemma strncmp_same: "n \<le> length s \<Longrightarrow> n \<le> length t \<Longrightarrow> strncmp s t n = Some k \<Longrightarrow> NUL \<notin> set (take (n - 1) t) \<Longrightarrow>
  k = 0 \<longleftrightarrow> take n s = take n t"
proof (induction s t n arbitrary: k rule: strncmp.induct)
  case (2 a s1 b s2 n)
  show ?case
  proof (cases "a = b \<and> a \<noteq> NUL")
    case True
    with "2.prems" have "n \<le> length s1" "n \<le> length s2" "strncmp s1 s2 n = Some k" "NUL \<notin> set (take (n - 1) s2)"
      by (auto simp: take_Cons' split: if_splits)
    from "2.IH" [OF _ _ this] True show ?thesis by auto
  next
    case False
    then show ?thesis
    proof (cases "a = b")
      case True
      with False "2.prems" have "n = 0 \<and> k = 0" by (cases n) auto
      with True show ?thesis by simp
    next
      case False
      then have "(of_char a :: nat) \<noteq> of_char b" using char_eq_of_char [of a b] by blast
      with False "2.prems"(3) show ?thesis by auto
    qed
  qed
qed auto

section \<open>What editing a name gives\<close>

text \<open>
  The reference: a question mark takes a character of the name unless the name or its extension is at its end, an
  asterisk takes all characters up to the one that follows it in the pattern, which it skips, a dot stands for
  itself and any other character of the pattern replaces one of the name.
\<close>

fun edit_name :: "string \<Rightarrow> string \<Rightarrow> string" where
  "edit_name [] src = []"
| "edit_name (e # ed) src =
     (if e = QM then (if src = [] \<or> hd src = DOT then edit_name ed src else hd src # edit_name ed (tl src))
      else if e = STAR then
        takeWhile (\<lambda>c. c \<noteq> cs_at ed 0) src @ edit_name ed (tl (dropWhile (\<lambda>c. c \<noteq> cs_at ed 0) src))
      else if e = DOT then DOT # edit_name ed src
      else e # edit_name ed (tl src))"

lemma set_tl_subset: "set (tl xs) \<subseteq> set xs"
  by (cases xs) auto

lemma edit_name_set: "set (edit_name ed src) \<subseteq> (set ed - {QM, STAR}) \<union> set src"
proof (induction ed src rule: edit_name.induct)
  case (2 e ed src)
  let ?P = "\<lambda>c. c \<noteq> cs_at ed 0"
  consider "e = QM" "src = [] \<or> hd src = DOT" | "e = QM" "src \<noteq> []" "hd src \<noteq> DOT" | "e = STAR" | "e = DOT"
    | "e \<noteq> QM" "e \<noteq> STAR" "e \<noteq> DOT" by blast
  then show ?case
  proof cases
    case 3
    have "set (tl (dropWhile ?P src)) \<subseteq> set src"
      using set_tl_subset [of "dropWhile ?P src"] by (auto dest: set_dropWhileD)
    moreover have "set (takeWhile ?P src) \<subseteq> set src" by (auto dest: set_takeWhileD)
    ultimately show ?thesis using "2.IH"(3) 3 by auto
  qed (use "2.IH" set_tl_subset [of src] in auto)
qed simp

lemma edit_name_length: "length (edit_name ed src) \<le> length ed + length src"
proof (induction ed src rule: edit_name.induct)
  case (2 e ed src)
  let ?P = "\<lambda>c. c \<noteq> cs_at ed 0"
  have "length (takeWhile ?P src) + length (tl (dropWhile ?P src)) \<le> length src"
    by (metis add_left_mono diff_le_self length_append length_tl takeWhile_dropWhile_id)
  then show ?case
  proof (cases "e = QM \<and> src \<noteq> [] \<and> hd src \<noteq> DOT")
    case True
    then show ?thesis using "2.IH"(2) by (cases src) auto
  qed (use "2.IH" le_trans [OF "2.IH"(5), of "length ed + length src"] in auto)
qed simp

lemma star_loop_str:
  assumes "NUL \<notin> set src" and "s + length (takeWhile (\<lambda>c. c \<noteq> e) src) < length ar"
  shows "\<exists>ar'. star_loop e ar s cb src = Some (ar', s + length (takeWhile (\<lambda>c. c \<noteq> e) src),
      cb - of_nat (length (takeWhile (\<lambda>c. c \<noteq> e) src)) - 1, tl (dropWhile (\<lambda>c. c \<noteq> e) src))
    \<and> length ar' = length ar \<and> take (s + length (takeWhile (\<lambda>c. c \<noteq> e) src)) ar' = take s ar @ takeWhile (\<lambda>c. c \<noteq> e) src"
  using assms
proof (induction src arbitrary: ar s cb)
  case Nil
  then show ?case by (simp add: put_chr_def)
next
  case (Cons c src)
  have p: "put_chr ar s c = Some (ar[s := c])" using Cons.prems(2) by (simp add: put_chr_def)
  show ?case
  proof (cases "c = e")
    case False
    with Cons.prems obtain ar' where "star_loop e (ar[s := c]) (s + 1) (cb - 1) src = Some (ar', s + 1 + length (takeWhile (\<lambda>c. c \<noteq> e) src),
        cb - 1 - of_nat (length (takeWhile (\<lambda>c. c \<noteq> e) src)) - 1, tl (dropWhile (\<lambda>c. c \<noteq> e) src))"
      "length ar' = length ar"
      "take (s + 1 + length (takeWhile (\<lambda>c. c \<noteq> e) src)) ar' = take (s + 1) (ar[s := c]) @ takeWhile (\<lambda>c. c \<noteq> e) src"
      using Cons.IH [of "s + 1" "ar[s := c]" "cb - 1"] by auto
    with False p Cons.prems show ?thesis by (auto simp: take_Suc_conv_app_nth algebra_simps)
  qed (use p Cons.prems in simp)
qed

lemma edit_loop_name:
  assumes "NUL \<notin> set ed" and "NUL \<notin> set src" and "length ed + length src < unat cb"
    and "s + length ed + length src < length ar"
  shows "\<exists>ar'. edit_loop ar s cb ed src = Some (ar', s + length (edit_name ed src)) \<and> length ar' = length ar
    \<and> take (s + length (edit_name ed src)) ar' = take s ar @ edit_name ed src"
  using assms
proof (induction ed arbitrary: ar s cb src)
  case Nil
  then have "put_chr ar s NUL = Some (ar[s := NUL])" by (simp add: put_chr_def)
  then show ?case by simp
next
  case (Cons e ed)
  let ?cb = "cb - 1" and ?ar = "ar[s := e]" and ?P = "\<lambda>c. c \<noteq> cs_at ed 0"
  have cb: "unat ?cb = unat cb - 1" using Cons.prems(3) by (simp add: unat_sub word_le_nat_alt)
  have n0: "?cb \<noteq> 0"
  proof
    assume "?cb = 0"
    then have "unat ?cb = 0" by simp
    with cb Cons.prems(3) show False by simp
  qed
  have p: "put_chr ar s e = Some ?ar" using Cons.prems(4) by (simp add: put_chr_def)
  have IH: "\<exists>ar'. edit_loop (ar1 :: char list) s' cb' ed src' = Some (ar', s' + length (edit_name ed src')) \<and> length ar' = length ar
      \<and> take (s' + length (edit_name ed src')) ar' = take s' ar1 @ edit_name ed src'"
    if "length ar1 = length ar" "NUL \<notin> set src'" "length ed + length src' < unat cb'" "s' + length ed + length src' < length ar" for ar1 s' cb' src'
    using Cons.IH [of src' cb' s' ar1] Cons.prems(1) that by auto
  have sub: "NUL \<notin> set (tl src)" "length (tl src) \<le> length src" using Cons.prems(2) set_tl_subset [of src] by auto
  consider (stop) "e = QM" "src = []" | (dot) c src' where "e = QM" "src = c # src'" "c = DOT"
    | (one) c src' where "e = QM" "src = c # src'" "c \<noteq> DOT" | (star) "e = STAR" | (sep) "e = DOT" | (lit) "e \<noteq> QM" "e \<noteq> STAR" "e \<noteq> DOT"
    by (cases src) auto
  then show ?case
  proof cases
    case stop
    then show ?thesis using IH [of ?ar src ?cb s] Cons.prems cb n0 p by auto
  next
    case dot
    then show ?thesis using IH [of ?ar src ?cb s] Cons.prems cb n0 p by auto
  next
    case (one c src')
    have "put_chr ?ar s c = Some (ar[s := c])" using Cons.prems(4) by (simp add: put_chr_def)
    then show ?thesis using one IH [of "ar[s := c]" src' ?cb "s + 1"] Cons.prems cb n0 p
      by (auto simp: take_Suc_conv_app_nth)
  next
    case sep
    then show ?thesis using IH [of ?ar src ?cb "s + 1"] Cons.prems cb n0 p by (auto simp: take_Suc_conv_app_nth)
  next
    case lit
    then show ?thesis using IH [of ?ar "tl src" ?cb "s + 1"] Cons.prems cb n0 p sub
      by (auto simp: take_Suc_conv_app_nth)
  next
    case star
    let ?k = "length (takeWhile ?P src)" and ?src = "tl (dropWhile ?P src)"
    have k: "?k + length ?src \<le> length src"
      by (metis add_left_mono diff_le_self length_append length_tl takeWhile_dropWhile_id)
    obtain ar1 where ar1: "star_loop (cs_at ed 0) ?ar s ?cb src = Some (ar1, s + ?k, ?cb - of_nat ?k - 1, ?src)"
      "length ar1 = length ar" "take (s + ?k) ar1 = take s ?ar @ takeWhile ?P src"
      using star_loop_str [OF Cons.prems(2), of s "cs_at ed 0" ?ar ?cb] Cons.prems(4) k by auto
    have nul: "NUL \<notin> set ?src" using Cons.prems(2) set_tl_subset by (metis set_dropWhileD subsetD)
    define cb2 where "cb2 = cb - of_nat ?k - 1"
    have "unat (of_nat ?k :: u32) = ?k"
      by (rule unat_of_nat32) (use Cons.prems(3) k unsigned_less [where ?'a = nat and w = cb] in simp)
    then have u: "unat (?cb - of_nat ?k) = unat ?cb - ?k"
      using Cons.prems(3) k cb by (simp add: unat_sub word_le_nat_alt)
    moreover have "?cb - of_nat ?k = cb2" by (simp add: cb2_def)
    ultimately have "unat cb2 = unat ?cb - ?k" by simp
    then have l: "length ed + length ?src < unat cb2" "s + ?k + length ed + length ?src < length ar"
      using Cons.prems(3,4) k cb by (simp_all del: length_tl)
    obtain ar' where "edit_loop (ar1[s + ?k := cs_at ed 0]) (s + ?k) cb2 ed ?src
        = Some (ar', s + ?k + length (edit_name ed ?src))" "length ar' = length ar"
      "take (s + ?k + length (edit_name ed ?src)) ar' = take (s + ?k) (ar1[s + ?k := cs_at ed 0]) @ edit_name ed ?src"
      using IH [of "ar1[s + ?k := cs_at ed 0]" ?src cb2 "s + ?k"] nul ar1(2) l by auto
    moreover have "put_chr ar1 (s + ?k) (cs_at ed 0) = Some (ar1[s + ?k := cs_at ed 0])"
      using ar1(2) Cons.prems(4) k by (simp add: put_chr_def)
    ultimately show ?thesis using star ar1 n0 p by (simp add: cb2_def [symmetric] add.assoc)
  qed
qed


text \<open>C32: With room for the name and the pattern, the target is the edited name. The last tests of the function
  reject a target unless it contains both wildcards: a name without wildcards, which is what the call is for, is built and
  reported as invalid.\<close>

theorem DosEditName_edits:
  assumes "NUL \<notin> set ed" and "NUL \<notin> set src" and "length ed + length src < unat cb" and "unat cb \<le> length ar"
  shows "\<exists>ar'. DosEditName 1 (Some src) (Some ed) (Some ar) cb =
      Some (if {QM, STAR} \<subseteq> set (edit_name ed src) then NO_ERROR else ERROR_INVALID_NAME, Some ar')
    \<and> cstr ar' = edit_name ed src \<and> length ar' = length ar
    \<and> ({QM, STAR} \<inter> set src = {} \<longrightarrow> {QM, STAR} \<inter> set (edit_name ed src) = {})"
proof -
  let ?r = "edit_name ed src"
  obtain ar1 where e: "edit_loop ar 0 cb ed src = Some (ar1, length ?r)" "length ar1 = length ar" "take (length ?r) ar1 = ?r"
    using edit_loop_name [OF assms(1-3), of 0 ar] assms(3,4) by auto
  have len: "length ?r < length ar" using edit_name_length [of ed src] assms(3,4) by simp
  have "NUL \<notin> set ?r" using edit_name_set [of ed src] assms(1,2) by auto
  then have c: "cstr (ar1[length ?r := NUL]) = ?r"
    using cstr_append_NUL [of ?r "drop (Suc (length ?r)) ar1"] e(2,3) len by (simp add: upd_conv_take_nth_drop)
  have "put_chr ar1 (length ?r) NUL = Some (ar1[length ?r := NUL])" using e(2) len by (simp add: put_chr_def)
  moreover have "cb \<noteq> 0" using assms(3) by auto
  moreover have "{QM, STAR} \<inter> set src = {} \<longrightarrow> {QM, STAR} \<inter> set ?r = {}" using edit_name_set [of ed src] by auto
  ultimately show ?thesis using e(1,2) c by (auto simp: DosEditName_def)
qed

theorem DosEditName_edits_witness:
  "\<exists>ar'. DosEditName 1 (Some ''AUTO.SYS'') (Some ''*.B?K'') (Some (replicate 20 NUL)) 20 = Some (ERROR_INVALID_NAME, Some ar')
    \<and> cstr ar' = ''AUTO.BYK''"
  using DosEditName_edits [of "''*.B?K''" "''AUTO.SYS''" 20 "replicate 20 NUL"] by (auto simp: cs_at_def)

text \<open>The asterisk copies without a look at the counter: a name that is as long as the target overruns it.\<close>

lemma star_loop_overrun: "s \<le> length ar \<Longrightarrow> length ar \<le> s + length src \<Longrightarrow> NUL \<notin> set src \<Longrightarrow> e \<notin> set src \<Longrightarrow> star_loop e ar s cb src = None"
proof (induction src arbitrary: ar s cb)
  case (Cons c src)
  show ?case
  proof (cases "s < length ar")
    case True
    with Cons.prems have "star_loop e (ar[s := c]) (s + 1) (cb - 1) src = None" by (intro Cons.IH) auto
    with Cons.prems True show ?thesis by (auto simp: put_chr_def)
  qed (simp add: put_chr_def)
qed (simp add: put_chr_def)

theorem DosEditName_overruns:
  assumes "NUL \<notin> set src" and "length ar \<le> length src" and "1 < cb" and "ar \<noteq> []"
  shows "DosEditName 1 (Some src) (Some ''*'') (Some ar) cb = None"
proof -
  have "cb \<noteq> 0" "cb - 1 \<noteq> 0" using assms(3) by auto
  moreover have "put_chr ar 0 STAR = Some (ar[0 := STAR])" using assms(4) by (simp add: put_chr_def)
  moreover have "star_loop NUL (ar[0 := STAR]) 0 (cb - 1) src = None"
    by (rule star_loop_overrun) (use assms in auto)
  ultimately show ?thesis by (simp add: DosEditName_def cs_at_def)
qed

theorem DosEditName_overruns_witness:
  "DosEditName 1 (Some ''CONFIG.SYS'') (Some ''*'') (Some (replicate 8 NUL)) 8 = None"
  using DosEditName_overruns [of "''CONFIG.SYS''" "replicate 8 NUL" 8] by simp

end
