(* ===== verification/DosMsg.thy ===== *)
theory DosMsg
  imports DosName
begin

text \<open>
  Messages of the control program library (\<^verbatim>\<open>src/OS2/CPI/doscalls/msg.c\<close> and \<^verbatim>\<open>msg.h\<close>): the insertion of strings into a
  message (\<open>DosInsertMessage\<close>). The message and the buffer are arrays; reads and writes outside them give no value.
\<close>

abbreviation (input) ERROR_MR_MSG_TOO_LONG :: u32 where "ERROR_MR_MSG_TOO_LONG \<equiv> 316"
abbreviation (input) ERROR_MR_MID_NOT_FOUND :: u32 where "ERROR_MR_MID_NOT_FOUND \<equiv> 317"
abbreviation (input) ERROR_MR_UN_ACC_MSGF :: u32 where "ERROR_MR_UN_ACC_MSGF \<equiv> 318"
abbreviation (input) ERROR_MR_INV_MSGF_FORMAT :: u32 where "ERROR_MR_INV_MSGF_FORMAT \<equiv> 319"
abbreviation (input) ERROR_MR_INV_IVCOUNT :: u32 where "ERROR_MR_INV_IVCOUNT \<equiv> 320"
abbreviation (input) ERROR_MR_UN_PERFORM :: u32 where "ERROR_MR_UN_PERFORM \<equiv> 321"

section \<open>Inserting strings\<close>

definition get_chr :: "char list \<Rightarrow> nat \<Rightarrow> char option" where
  "get_chr ar i = (if i < length ar then Some (ar ! i) else None)"

text \<open>\<open>strncpy\<close> of the C library: behind the end of the source it stores zeros.\<close>

fun strncpy :: "char list \<Rightarrow> nat \<Rightarrow> char list \<Rightarrow> nat \<Rightarrow> char list option" where
  "strncpy ar d src 0 = Some ar"
| "strncpy ar d [] (Suc n) = None"
| "strncpy ar d (c # src) (Suc n) = do {
     ar \<leftarrow> put_chr ar d c;
     strncpy ar (d + 1) (if c = NUL then [NUL] else src) n }"

text \<open>The lengths of the strings, added up with unsigned arithmetic; each is counted one too short.\<close>

fun ins_maxlen :: "char list list \<Rightarrow> nat \<Rightarrow> u32 \<Rightarrow> u32 \<Rightarrow> u32 option" where
  "ins_maxlen tab 0 cbBuf maxlen = Some maxlen"
| "ins_maxlen [] (Suc n) cbBuf maxlen = None"
| "ins_maxlen (s # tab) (Suc n) cbBuf maxlen = do {
     l \<leftarrow> strnlen s (unat cbBuf);
     ins_maxlen tab n cbBuf (maxlen + of_nat l - 1) }"

text \<open>
  The loop over the message. \<open>dst\<close> is \<open>pBuf + dstlen\<close> at all times. It ends with a return code (and the value
  stored to \<open>*pcbMsg\<close>, if any) or with the length of what was built.
\<close>

abbreviation (input) PCT :: char where "PCT \<equiv> CHR ''%''"

definition arg_index :: "char \<Rightarrow> nat option" where
  "arg_index c = (if 49 \<le> (of_char c :: nat) \<and> (of_char c :: nat) \<le> 57 then Some (of_char c - 49) else None)"

function ins_loop ::
    "char list list \<Rightarrow> u32 \<Rightarrow> int \<Rightarrow> char list \<Rightarrow> nat \<Rightarrow> int \<Rightarrow> nat \<Rightarrow> nat \<Rightarrow> char list
     \<Rightarrow> (((u32 \<times> u32 option) + nat) \<times> char list) option" where
  "ins_loop tab cbBuf maxlen msg src srclen dstlen ivcount buf =
     (if length msg \<le> src then None
      else if msg ! src = PCT then
        (if 9 < ivcount + 1 then Some (Inl (ERROR_MR_INV_IVCOUNT, None), buf)
         else if length msg \<le> src + 1 then None
         else do {
           step \<leftarrow> (let c = msg ! (src + 1); srclen = srclen - 1 in
             if c = PCT then do { buf \<leftarrow> put_chr buf dstlen c; Some (Some (srclen - 1, dstlen + 1, buf)) }
             else if c = CHR ''0'' then Some (Some (srclen - 1, dstlen, buf))
             else case arg_index c of
               Some i \<Rightarrow>
                 (if length tab \<le> i then None
                  else do {
                    len \<leftarrow> strnlen (tab ! i) (unat cbBuf);
                    buf \<leftarrow> strncpy buf dstlen (tab ! i) len;
                    Some (Some (srclen, dstlen + len, buf)) })
             | None \<Rightarrow> Some (if srclen \<le> 0 then Some (srclen, dstlen, buf) else None));
           case step of
             None \<Rightarrow> Some (Inl (ERROR_MR_UN_PERFORM, None), buf)
           | Some (srclen, dstlen, buf) \<Rightarrow>
               if srclen \<le> 0 then Some (Inr dstlen, buf)
               else if maxlen < int dstlen then do {
                 buf \<leftarrow> put_chr buf (unat (cbBuf - 1)) NUL;
                 Some (Inl (ERROR_MR_MSG_TOO_LONG, Some cbBuf), buf) }
               else ins_loop tab cbBuf maxlen msg (src + 2) srclen dstlen (ivcount + 1) buf })
      else do {
        buf \<leftarrow> put_chr buf dstlen (msg ! src);
        if srclen - 1 \<le> 0 then Some (Inr (dstlen + 1), buf)
        else if maxlen < int (dstlen + 1) then do {
          buf \<leftarrow> put_chr buf (unat (cbBuf - 1)) NUL;
          Some (Inl (ERROR_MR_MSG_TOO_LONG, Some cbBuf), buf) }
        else ins_loop tab cbBuf maxlen msg (src + 1) (srclen - 1) (dstlen + 1) ivcount buf })"
  by pat_completeness auto
termination
  by (relation "measure (\<lambda>(tab, cbBuf, maxlen, msg, src, srclen, dstlen, ivcount, buf). length msg - src)") auto

declare ins_loop.simps [simp del]

text \<open>The return code, the value stored to \<open>*pcbMsg\<close>, if any, and the buffer.\<close>

definition DosInsertMessage ::
    "char list list option \<Rightarrow> u32 \<Rightarrow> char list option \<Rightarrow> u32 \<Rightarrow> char list option \<Rightarrow> u32
     \<Rightarrow> (u32 \<times> u32 option \<times> char list option) option" where
  "DosInsertMessage pTable cTable pszMsg cbMsg pBuf cbBuf =
     (case (pszMsg, pBuf) of
        (Some msg, Some buf) \<Rightarrow>
          if cTable \<noteq> 0 \<and> pTable = None then Some (ERROR_INVALID_PARAMETER, None, pBuf)
          else if cbBuf < cbMsg then Some (ERROR_MR_MSG_TOO_LONG, None, pBuf)
          else if cTable = 0 then do {
            (buf, _) \<leftarrow> strlcpy buf 0 msg (unat cbMsg);
            Some (NO_ERROR, None, Some buf) }
          else do {
            maxlen \<leftarrow> ins_maxlen (the pTable) (unat cTable) cbBuf cbMsg;
            (r, buf) \<leftarrow> ins_loop (the pTable) cbBuf (sint maxlen) msg 0 (sint cbMsg) 0 0 buf;
            case r of
              Inl (rc, pcb) \<Rightarrow> Some (rc, pcb, Some buf)
            | Inr dstlen \<Rightarrow> do {
                buf \<leftarrow> put_chr buf dstlen NUL;
                Some (NO_ERROR, Some (of_nat (dstlen + 1)), Some buf) } }
      | _ \<Rightarrow> Some (ERROR_INVALID_PARAMETER, None, pBuf))"

section \<open>What is inserted\<close>

text \<open>
  A message is a sequence of characters, percent signs, \<open>%0\<close>, which stands for nothing, and places for strings.
  Each of the last three counts as an insertion.
\<close>

datatype msg_item = Lit char | Percent | Nothing | Place nat

fun enc_item :: "msg_item \<Rightarrow> string" where
  "enc_item (Lit c) = [c]"
| "enc_item Percent = ''%%''"
| "enc_item Nothing = ''%0''"
| "enc_item (Place i) = [PCT, char_of (49 + i)]"

definition enc_msg :: "msg_item list \<Rightarrow> string" where
  "enc_msg its = concat (map enc_item its)"

fun expand :: "string list \<Rightarrow> msg_item \<Rightarrow> string" where
  "expand ss (Lit c) = [c]"
| "expand ss Percent = [PCT]"
| "expand ss Nothing = []"
| "expand ss (Place i) = ss ! i"

definition expand_msg :: "string list \<Rightarrow> msg_item list \<Rightarrow> string" where
  "expand_msg ss its = concat (map (expand ss) its)"

fun item_ok :: "nat \<Rightarrow> msg_item \<Rightarrow> bool" where
  "item_ok n (Lit c) \<longleftrightarrow> c \<noteq> PCT"
| "item_ok n (Place i) \<longleftrightarrow> i < n \<and> i < 9"
| "item_ok n _ \<longleftrightarrow> True"

text \<open>The number of insertions, and of places for strings.\<close>

definition insertions :: "msg_item list \<Rightarrow> nat" where
  "insertions its = length (filter (\<lambda>it. \<forall>c. it \<noteq> Lit c) its)"

definition places :: "msg_item list \<Rightarrow> nat" where
  "places its = length (filter (\<lambda>it. \<exists>i. it = Place i) its)"

text \<open>The strings as they lie in memory, each with its terminator.\<close>

definition c_strings :: "string list \<Rightarrow> char list list" where
  "c_strings ss = map (\<lambda>s. s @ [NUL]) ss"

lemma msg_simps [simp]:
  "enc_msg [] = []" "enc_msg (it # its) = enc_item it @ enc_msg its"
  "expand_msg ss [] = []" "expand_msg ss (it # its) = expand ss it @ expand_msg ss its"
  "insertions [] = 0" "insertions (Lit c # its) = insertions its" "insertions (Percent # its) = Suc (insertions its)"
  "insertions (Nothing # its) = Suc (insertions its)" "insertions (Place i # its) = Suc (insertions its)"
  "places [] = 0" "places (Lit c # its) = places its" "places (Percent # its) = places its"
  "places (Nothing # its) = places its" "places (Place i # its) = Suc (places its)"
  by (simp_all add: enc_msg_def expand_msg_def insertions_def places_def)

lemma strncpy_str: "d + length s \<le> length ar \<Longrightarrow> strncpy ar d (s @ r) (length s) = Some (stored ar d s)" if "NUL \<notin> set s"
  using that
proof (induction s arbitrary: ar d)
  case (Cons c s)
  then have "strncpy (stored ar d [c]) (d + 1) (s @ r) (length s) = Some (stored (stored ar d [c]) (d + 1) s)"
    by (intro Cons.IH) auto
  with Cons.prems stored_stored [of d "[c]" s ar] show ?case by (auto simp: put_chr_first)
qed simp

lemma arg_index_digit: "i < 9 \<Longrightarrow> arg_index (char_of (49 + i)) = Some i"
  by (auto simp: arg_index_def take_bit_eq_mod)

lemma digit_chars: "(i::nat) < 9 \<Longrightarrow> char_of (49 + i) \<noteq> PCT \<and> char_of (49 + i) \<noteq> CHR ''0''"
  by (auto simp: char_of_eq_iff take_bit_eq_mod)

text \<open>What an item takes off \<open>srclen\<close>: the digit behind a percent sign is not counted.\<close>

fun weight :: "msg_item \<Rightarrow> nat" where
  "weight (Lit c) = 1"
| "weight (Place i) = 1"
| "weight it = 2"

definition weights :: "msg_item list \<Rightarrow> nat" where
  "weights its = sum_list (map weight its)"

lemma weights_simps [simp]: "weights [] = 0" "weights (it # its) = weight it + weights its"
  and weights_pos: "0 < weight it" and weights_append [simp]: "weights (xs @ ys) = weights xs + weights ys"
  by (simp_all add: weights_def, cases it) auto

lemma weights_enc: "weights its + places its = length (enc_msg its)"
proof (induction its)
  case (Cons it its)
  then show ?case by (cases it) auto
qed simp

lemma ins_loop_item:
  assumes "item_ok (length ss) it" and "iv + insertions [it] \<le> 9" and "\<forall>s \<in> set ss. NUL \<notin> set s \<and> length s \<le> unat cb"
    and "d + length (expand ss it) \<le> length buf"
  shows "ins_loop (c_strings ss) cb maxlen (pre @ enc_item it @ r) (length pre) srclen d iv buf =
    (let srclen' = srclen - int (weight it); d' = d + length (expand ss it); buf' = stored buf d (expand ss it) in
     if srclen' \<le> 0 then Some (Inr d', buf')
     else if maxlen < int d' then do {
       b \<leftarrow> put_chr buf' (unat (cb - 1)) NUL; Some (Inl (ERROR_MR_MSG_TOO_LONG, Some cb), b) }
     else ins_loop (c_strings ss) cb maxlen (pre @ enc_item it @ r) (length pre + length (enc_item it)) srclen' d'
       (iv + insertions [it]) buf')"
proof (cases it)
  case (Lit c)
  with assms show ?thesis by (subst ins_loop.simps) (auto simp: put_chr_first Let_def nth_append)
next
  case Percent
  with assms show ?thesis by (subst ins_loop.simps) (auto simp: put_chr_first Let_def nth_append)
next
  case Nothing
  with assms show ?thesis by (subst ins_loop.simps) (auto simp: Let_def nth_append)
next
  case (Place i)
  with assms have i: "i < length ss" "i < 9" and s: "NUL \<notin> set (ss ! i)" "length (ss ! i) \<le> unat cb" by auto
  have t: "c_strings ss ! i = ss ! i @ [NUL]" "length (c_strings ss) = length ss" using i by (simp_all add: c_strings_def)
  have "strnlen (c_strings ss ! i) (unat cb) = Some (length (ss ! i))"
    using strnlen_str [of "ss ! i" "[]" "unat cb"] s t by simp
  moreover have "strncpy buf d (c_strings ss ! i) (length (ss ! i)) = Some (stored buf d (ss ! i))"
    using strncpy_str [of "ss ! i" d buf "[NUL]"] s assms(4) Place t by simp
  ultimately show ?thesis using Place i assms(2) t(2) digit_chars [OF i(2)] arg_index_digit [OF i(2)]
    by (subst ins_loop.simps) (auto simp: Let_def nth_append)
qed

lemma ins_loop_items:
  assumes "list_all (item_ok (length ss)) its" and "its \<noteq> []" and "iv + insertions its \<le> 9"
    and "\<forall>s \<in> set ss. NUL \<notin> set s \<and> length s \<le> unat cb"
    and "d + length (expand_msg ss its) \<le> length buf" and "int (d + length (expand_msg ss its)) \<le> maxlen"
  shows "ins_loop (c_strings ss) cb maxlen (pre @ enc_msg its @ r) (length pre) (int (weights its)) d iv buf =
    Some (Inr (d + length (expand_msg ss its)), stored buf d (expand_msg ss its))"
  using assms
proof (induction its arbitrary: pre d iv buf)
  case (Cons it its)
  let ?e = "expand ss it"
  have ins: "insertions (it # its) = insertions [it] + insertions its" by (cases it) auto
  have "d + length ?e \<le> length buf" using Cons.prems(5) by simp
  then have step: "ins_loop (c_strings ss) cb maxlen (pre @ enc_item it @ (enc_msg its @ r)) (length pre) (int (weights (it # its))) d iv buf =
    (let srclen' = int (weights its); d' = d + length ?e; buf' = stored buf d ?e in
     if srclen' \<le> 0 then Some (Inr d', buf')
     else if maxlen < int d' then do {
       b \<leftarrow> put_chr buf' (unat (cb - 1)) NUL; Some (Inl (ERROR_MR_MSG_TOO_LONG, Some cb), b) }
     else ins_loop (c_strings ss) cb maxlen (pre @ enc_item it @ (enc_msg its @ r)) (length pre + length (enc_item it)) srclen' d'
       (iv + insertions [it]) buf')"
    using ins_loop_item [of ss it iv cb d buf maxlen pre "enc_msg its @ r" "int (weights (it # its))"] Cons.prems ins
    by (simp del: msg_simps)
  show ?case
  proof (cases "its = []")
    case True
    with step show ?thesis by (simp add: Let_def)
  next
    case False
    then have w: "0 < weights its" using weights_pos by (cases its) auto
    have "ins_loop (c_strings ss) cb maxlen ((pre @ enc_item it) @ enc_msg its @ r) (length (pre @ enc_item it)) (int (weights its))
        (d + length ?e) (iv + insertions [it]) (stored buf d ?e) =
      Some (Inr (d + length ?e + length (expand_msg ss its)), stored (stored buf d ?e) (d + length ?e) (expand_msg ss its))"
      using Cons.prems ins False by (intro Cons.IH) auto
    with step w Cons.prems False show ?thesis
      by (simp add: Let_def stored_stored add.assoc)
  qed
qed simp

lemma ins_maxlen_str:
  assumes "n \<le> length ss" and "\<forall>s \<in> set ss. NUL \<notin> set s \<and> length s \<le> unat cb"
  shows "ins_maxlen (c_strings ss) n cb m = Some (m + of_nat (sum_list (map length (take n ss))) - of_nat n)"
  using assms
proof (induction n arbitrary: ss m)
  case (Suc n)
  then obtain s ss' where ss: "ss = s # ss'" by (cases ss) auto
  with Suc.prems have "strnlen (s @ [NUL]) (unat cb) = Some (length s)" using strnlen_str [of s "[]"] by simp
  with Suc ss show ?case by (simp add: c_strings_def algebra_simps)
qed simp

lemma enc_msg_append [simp]: "enc_msg (xs @ ys) = enc_msg xs @ enc_msg ys"
  and expand_msg_append [simp]: "expand_msg ss (xs @ ys) = expand_msg ss xs @ expand_msg ss ys"
  and insertions_append [simp]: "insertions (xs @ ys) = insertions xs + insertions ys"
  and places_append [simp]: "places (xs @ ys) = places xs + places ys"
  by (simp_all add: enc_msg_def expand_msg_def insertions_def places_def)

lemma Lits [simp]:
  "enc_msg (map Lit t) = t" "expand_msg ss (map Lit t) = t" "insertions (map Lit t) = 0" "places (map Lit t) = 0"
  "weights (map Lit t) = length t" "list_all (item_ok n) (map Lit t) \<longleftrightarrow> PCT \<notin> set t"
  by (induction t) auto

lemma insert_message:
  assumes "list_all (item_ok (length ss)) its" and "its \<noteq> []" and "insertions its \<le> 9"
    and "\<forall>s \<in> set ss. NUL \<notin> set s \<and> length s \<le> unat cbBuf"
    and "ss \<noteq> []" and "length ss < 2 ^ 31" and "length tail = places its" and "PCT \<notin> set tail"
    and "unat cbMsg = length (enc_msg its)" and "cbMsg \<le> cbBuf"
    and "length (expand_msg ss its @ tail) + length ss \<le> length (enc_msg its) + sum_list (map length ss)"
    and "length (enc_msg its) + sum_list (map length ss) < 2 ^ 31"
    and "length (expand_msg ss its @ tail) < length buf"
  shows "DosInsertMessage (Some (c_strings ss)) (of_nat (length ss)) (Some (enc_msg its @ tail @ r)) cbMsg (Some buf) cbBuf =
    Some (NO_ERROR, Some (of_nat (length (expand_msg ss its @ tail) + 1)), Some (stored buf 0 (expand_msg ss its @ tail @ [NUL])))"
proof -
  let ?js = "its @ map Lit tail" and ?out = "expand_msg ss its @ tail"
  have n: "unat (of_nat (length ss) :: u32) = length ss" using assms(6) by (intro unat_of_nat32) simp
  then have c0: "(of_nat (length ss) :: u32) \<noteq> 0" using assms(5) by (metis length_0_conv unat_0)
  let ?m = "cbMsg + of_nat (sum_list (map length ss)) - of_nat (length ss) :: u32"
  let ?k = "length (enc_msg its) + sum_list (map length ss) - length ss"
  have cb: "cbMsg = of_nat (length (enc_msg its))" using assms(9) by (metis of_nat_unat ucast_id)
  have "?m = of_nat ?k" using assms(11) by (simp add: cb of_nat_diff)
  then have sm: "sint ?m = int ?k" using sint_of_nat32 [of ?k] assms(12) by simp
  have sc: "sint cbMsg = int (weights ?js)"
    using sint_of_nat32 [of "length (enc_msg its)"] weights_enc [of its] assms(7,12) by (simp add: cb)
  have "ins_loop (c_strings ss) cbBuf (sint ?m) ([] @ enc_msg ?js @ r) (length ([] :: string)) (int (weights ?js)) 0 0 buf =
      Some (Inr (0 + length (expand_msg ss ?js)), stored buf 0 (expand_msg ss ?js))"
    by (rule ins_loop_items) (use assms sm in auto)
  moreover have "put_chr (stored buf 0 ?out) (length ?out) NUL = Some (stored buf 0 (?out @ [NUL]))"
    using put_chr_stored [of 0 ?out buf NUL] assms(13) by simp
  ultimately show ?thesis
    using n c0 assms(4,10) sc ins_maxlen_str [of "length ss" ss cbBuf cbMsg]
    by (simp add: DosInsertMessage_def)
qed

text \<open>A message with places for strings, in a buffer that has room and with strings long enough for the check: the
  result is the message with its items expanded, followed by as many of the bytes that lie behind the message in memory
  as it has places, since the digits are not counted. A message without places (percent signs and \<open>%0\<close> only) is
  exact.
\<close>

theorem message_inserted:
  assumes "list_all (item_ok (length ss)) its" and "its \<noteq> []" and "insertions its \<le> 9"
    and "\<forall>s \<in> set ss. NUL \<notin> set s \<and> length s \<le> unat cbBuf"
    and "ss \<noteq> []" and "length ss < 2 ^ 31" and "length tail = places its" and "PCT \<notin> set tail"
    and "unat cbMsg = length (enc_msg its)" and "cbMsg \<le> cbBuf"
    and "length (expand_msg ss its @ tail) + length ss \<le> length (enc_msg its) + sum_list (map length ss)"
    and "length (enc_msg its) + sum_list (map length ss) < 2 ^ 31"
    and "length (expand_msg ss its @ tail) < length buf"
  shows "DosInsertMessage (Some (c_strings ss)) (of_nat (length ss)) (Some (enc_msg its @ tail @ r)) cbMsg (Some buf) cbBuf =
    Some (NO_ERROR, Some (of_nat (length (expand_msg ss its @ tail) + 1)), Some (stored buf 0 (expand_msg ss its @ tail @ [NUL])))"
  using assms by (rule insert_message)

theorem message_inserted_witness:
  "DosInsertMessage (Some (c_strings [''A.TXT''])) 1 (Some (''No %1.'' @ ''E'' @ ''next'')) 6 (Some (replicate 20 CR)) 20 =
    Some (NO_ERROR, Some 11, Some (''No A.TXT.E'' @ NUL # replicate 9 CR))"
proof -
  have "char_of (49 :: nat) = CHR ''1''" by (simp add: char_of_eq_iff)
  then have e: "enc_msg [Lit (CHR ''N''), Lit (CHR ''o''), Lit (CHR '' ''), Place 0, Lit (CHR ''.'')] = ''No %1.''" by simp
  show ?thesis
    using message_inserted [of "[''A.TXT'']" "[Lit (CHR ''N''), Lit (CHR ''o''), Lit (CHR '' ''), Place 0, Lit (CHR ''.'')]" 20 "''E''" 6
        "replicate 20 CR" "''next''", unfolded e]
    by (simp add: stored_def)
qed

lemma strncpy_overrun: "length ar < d + n \<Longrightarrow> d \<le> length ar \<Longrightarrow> n \<le> length s \<Longrightarrow> NUL \<notin> set s \<Longrightarrow> strncpy ar d (s @ r) n = None"
proof (induction s arbitrary: ar d n)
  case (Cons c s)
  then obtain k where k: "n = Suc k" by (cases n) auto
  show ?case
  proof (cases "d < length ar")
    case True
    with Cons.prems k have "strncpy (ar[d := c]) (Suc d) (s @ r) k = None" by (intro Cons.IH) auto
    with k Cons.prems show ?thesis by (auto simp: put_chr_def)
  qed (simp add: put_chr_def k)
qed simp

text \<open>A string as long as the buffer, inserted behind another character, overruns the buffer: the size of the
  buffer limits the string, not the place where it goes.\<close>

theorem DosInsertMessage_overruns:
  assumes "c \<noteq> PCT" and "NUL \<notin> set s" and "length buf = unat cbBuf" and "length buf \<le> length s" and "length s < 2 ^ 30"
    and "3 \<le> cbMsg" and "cbMsg \<le> cbBuf"
  shows "DosInsertMessage (Some (c_strings [s])) 1 (Some (c # ''%1'' @ r)) cbMsg (Some buf) cbBuf = None"
proof -
  let ?l = "unat cbBuf" and ?m = "cbMsg + of_nat (unat cbBuf) - 1 :: u32"
  have l: "strnlen (s @ [NUL]) ?l = Some ?l" using strnlen_str [OF assms(2), of "[]" ?l] assms(3,4) by simp
  have cb: "3 \<le> unat cbMsg" "unat cbMsg \<le> ?l" using assms(6,7) by (simp_all add: word_le_nat_alt)
  have "cbMsg = of_nat (unat cbMsg)" by simp
  then have sc: "sint cbMsg = int (unat cbMsg)" using sint_of_nat32 [of "unat cbMsg"] cb assms(3-5) by simp
  have "?m = of_nat (unat cbMsg + ?l - 1)" using cb by (simp add: of_nat_diff)
  then have sm: "sint ?m = int (unat cbMsg + ?l - 1)" using sint_of_nat32 [of "unat cbMsg + ?l - 1"] cb assms(3-5) by simp
  have d1: "CHR ''1'' \<noteq> PCT" "CHR ''1'' \<noteq> CHR ''0''" "arg_index (CHR ''1'') = Some 0" by (simp_all add: arg_index_def)
  have "strncpy (buf[0 := c]) (Suc 0) (s @ [NUL]) ?l = None" by (rule strncpy_overrun) (use assms cb in auto)
  then have inner: "ins_loop (c_strings [s]) cbBuf mx (c # ''%1'' @ r) 1 k 1 0 (buf[0 := c]) = None" for mx k
    using l d1 by (subst ins_loop.simps) (simp add: c_strings_def)
  have b: "0 < length buf" using assms(3) cb by simp
  have outer: "ins_loop (c_strings [s]) cbBuf mx (c # ''%1'' @ r) 0 k 0 0 buf = None" if "2 \<le> k" "1 \<le> mx" for mx k
    using inner [of mx "k - 1"] that assms(1) b by (subst ins_loop.simps) (simp add: put_chr_def)
  have "ins_loop (c_strings [s]) cbBuf (sint ?m) (c # ''%1'' @ r) 0 (sint cbMsg) 0 0 buf = None"
    by (rule outer) (use cb sc sm in linarith)+
  moreover have "ins_maxlen (c_strings [s]) (unat (1 :: u32)) cbBuf cbMsg = Some ?m" using l by (simp add: c_strings_def)
  moreover have "\<not> cbBuf < cbMsg" using assms(7) by simp
  ultimately show ?thesis by (simp add: DosInsertMessage_def)
qed

theorem DosInsertMessage_overruns_witness:
  "DosInsertMessage (Some (c_strings [''C:README''])) 1 (Some (''X%1'' @ '' not found'')) 3 (Some (replicate 8 NUL)) 8 = None"
  using DosInsertMessage_overruns [of "CHR ''X''" "''C:README''" "replicate 8 NUL" 8 3 "'' not found''"] by simp

end
