(* ===== verification/KalFile.thy ===== *)
theory KalFile
  imports FsFile ProcTable DosName
begin

text \<open>
  The host side of an application: the part of \<^verbatim>\<open>KAL.DLL\<close> that turns the names an application uses into full names before
  it calls the file server and the OS/2 server (\<^verbatim>\<open>src/OS2/Server/platform/l4env/src/server/os2app/server/src/kal/kal.c\<close> and
  \<^verbatim>\<open>util.c\<close>). The calls to the servers go through stubs generated from their interfaces; they are the fields of a record,
  with the state of everything behind them as an argument, and give no value when the server does not answer. Local arrays are not initialised, so their
  contents are arguments.
\<close>

section \<open>The servers as an application sees them\<close>

record 's kal_host =
  FSClientGetDriveMap :: "'s \<Rightarrow> (u32 \<times> u32 \<times> 's) option"
  CPClientQueryCurrentDisk :: "'s \<Rightarrow> (u32 \<times> u32) option"
  CPClientQueryCurrentDir :: "u32 \<Rightarrow> u32 \<Rightarrow> u32 \<Rightarrow> 's \<Rightarrow> (u32 \<times> (string \<times> u32) option) option"
  CPClientSetDefaultDisk :: "u32 \<Rightarrow> u32 \<Rightarrow> 's \<Rightarrow> (u32 \<times> 's) option"
  FSClientOpenL :: "string \<Rightarrow> u32 \<Rightarrow> u32 \<Rightarrow> u32 \<Rightarrow> u32 \<Rightarrow> 's \<Rightarrow> (u32 \<times> u32 \<times> u32 \<times> 's) option"
  FSClientFindFirst :: "string \<Rightarrow> u32 \<Rightarrow> 's \<Rightarrow> (u32 \<times> 's) option"
  FSClientQueryPathInfo :: "string \<Rightarrow> u32 \<Rightarrow> 's \<Rightarrow> (u32 \<times> u8 list) option"
  CPClientExecPgm :: "u32 \<Rightarrow> u32 \<Rightarrow> nat \<Rightarrow> u32 \<Rightarrow> nat \<Rightarrow> string \<Rightarrow> 's \<Rightarrow> (u32 \<times> 's) option"
  posix_read :: "u32 \<Rightarrow> u32 \<Rightarrow> 's \<Rightarrow> u8 list option \<times> 's"
  posix_write :: "u32 \<Rightarrow> u8 list \<Rightarrow> 's \<Rightarrow> u32 option \<times> 's"

section \<open>Drives and parts of names\<close>

definition toupper_int :: "int \<Rightarrow> int" where
  "toupper_int i = (if 97 \<le> i \<and> i \<le> 122 then i - 32 else i)"

definition char_to_disknum :: "char \<Rightarrow> int" where
  "char_to_disknum chr_dsk = int (of_char (toupper chr_dsk)) - 65 + 1"

definition disknum_to_char :: "int \<Rightarrow> char" where
  "disknum_to_char i_dsk = char_of (nat ((65 + toupper_int i_dsk - 1) mod 256))"

definition isRelativePath :: "string \<Rightarrow> bool" where
  "isRelativePath pth \<longleftrightarrow> cs_at pth 0 \<noteq> BSL \<and> cs_at pth 0 \<noteq> CHR ''/''"

definition parse_drv :: "string \<Rightarrow> char" where
  "parse_drv pth = (if 2 \<le> length pth \<and> pth ! 1 = CHR '':'' then pth ! 0 else NUL)"

text \<open>The copy ends without a terminator at \<open>buf_len\<close>; its caller's buffer is filled with zeros and one longer.\<close>

definition parse_path :: "string \<Rightarrow> nat \<Rightarrow> string" where
  "parse_path pth buf_len = take buf_len (if parse_drv pth \<noteq> NUL then drop 2 pth else pth)"

section \<open>Current disk and directory\<close>

definition KalQueryCurrentDisk :: "'s kal_host \<Rightarrow> 's \<Rightarrow> (u32 \<times> (u32 \<times> u32) option \<times> 's) option" where
  "KalQueryCurrentDisk host s = do {
     (rc, logical, s) \<leftarrow> FSClientGetDriveMap host s;
     if rc \<noteq> 0 then Some (rc, None, s)
     else do {
       (rc, disk) \<leftarrow> CPClientQueryCurrentDisk host s;
       Some (rc, if rc = 0 then Some (disk, logical) else None, s) } }"

definition KalSetDefaultDisk :: "'s kal_host \<Rightarrow> u32 \<Rightarrow> 's \<Rightarrow> (u32 \<times> 's) option" where
  "KalSetDefaultDisk host disknum s = do {
     (rc, m, s) \<leftarrow> FSClientGetDriveMap host s;
     if rc \<noteq> 0 then Some (rc, s) else CPClientSetDefaultDisk host disknum m s }"

text \<open>A string stored to an array.\<close>

definition store_str :: "char list \<Rightarrow> nat \<Rightarrow> string \<Rightarrow> char list option" where
  "store_str ar d s = (if d + length s \<le> length ar then Some (stored ar d s) else None)"

text \<open>The buffer and its size are in and out parameters; a buffer or a size that is not given is the null pointer.\<close>

definition KalQueryCurrentDir ::
    "'s kal_host \<Rightarrow> u32 \<Rightarrow> char list option \<Rightarrow> u32 option \<Rightarrow> 's \<Rightarrow> (u32 \<times> char list option \<times> u32 option \<times> 's) option" where
  "KalQueryCurrentDir host disknum pBuf pcbBuf s =
     (case (pBuf, pcbBuf) of
        (Some buf, Some cb) \<Rightarrow> do {
          (rc, m, s) \<leftarrow> FSClientGetDriveMap host s;
          if rc \<noteq> 0 then Some (rc, pBuf, pcbBuf, s)
          else do {
            (rc, r) \<leftarrow> CPClientQueryCurrentDir host disknum m cb s;
            if rc \<noteq> 0 then Some (rc, pBuf, pcbBuf, s)
            else do {
              (buf, cb) \<leftarrow> (case r of None \<Rightarrow> Some (buf, cb) | Some (d, n) \<Rightarrow> do { buf \<leftarrow> store_str buf 0 (d @ [NUL]); Some (buf, n) });
              buf \<leftarrow> put_chr buf (unat (cb - 1)) NUL;
              Some (NO_ERROR, Some buf, Some cb, s) } } }
      | _ \<Rightarrow> Some (ERROR_INVALID_PARAMETER, pBuf, pcbBuf, s))"

section \<open>Opening files\<close>

text \<open>\<open>strncat\<close> on an array that holds a string: at most \<open>n\<close> characters and a terminator.\<close>

definition strncat :: "char list \<Rightarrow> string \<Rightarrow> nat \<Rightarrow> char list option" where
  "strncat ar src n = do { d \<leftarrow> str_end ar; store_str ar d (take n src @ [NUL]) }"

text \<open>
  The full name that \<open>KalOpenL\<close> builds in an array of 100 zeros: drive letter, colon, and for a relative name the
  directory (of which \<open>len\<close> was returned as its size). The part for relative names inside the branch for absolute
  ones is never used.
\<close>

definition open_name :: "int \<Rightarrow> string \<Rightarrow> nat \<Rightarrow> string \<Rightarrow> char list option" where
  "open_name drv dir len pth = do {
     out \<leftarrow> strncat (replicate 100 NUL) [disknum_to_char drv] 1;
     if isRelativePath pth then do {
       out \<leftarrow> strncat out ('':'' @ [BSL]) 2;
       out \<leftarrow> strncat out dir len;
       out \<leftarrow> (if dir \<noteq> [] \<and> isRelativePath dir then strncat out [BSL] 1 else Some out);
       strncat out pth (length pth) }
     else do {
       out \<leftarrow> strncat out '':'' 2;
       strncat out pth (length pth) } }"

text \<open>The results stored for the caller are the handle and the action.\<close>

definition KalOpenL ::
    "'s kal_host \<Rightarrow> string \<Rightarrow> u32 \<Rightarrow> u32 \<Rightarrow> u32 \<Rightarrow> u32 \<Rightarrow> 's \<Rightarrow> (u32 \<times> u32 \<times> u32 \<times> 's) option" where
  "KalOpenL host pszFileName phFile pulAction fsOpenFlags fsOpenMode s = do {
     (rc, disk, s) \<leftarrow> KalQueryCurrentDisk host s;
     case disk of
       None \<Rightarrow> Some (rc, phFile, pulAction, s)
     | Some (dsknum, plog) \<Rightarrow> do {
         (rc, _, _, s) \<leftarrow> KalQueryCurrentDir host dsknum (Some (replicate 100 NUL)) (Some 100) s;
         if rc \<noteq> 0 then Some (rc, phFile, pulAction, s)
         else do {
           let drive = parse_drv pszFileName;
           let drive2 = (if drive = NUL then disknum_to_char (sint dsknum) else NUL);
           let pth = parse_path pszFileName 99;
           let drv = char_to_disknum (if drive = NUL then drive2 else drive) mod 256;
           (rc, buf, cb, s) \<leftarrow> KalQueryCurrentDir host (of_int drv) (Some (replicate 100 NUL)) (Some 100) s;
           if rc \<noteq> 0 then Some (rc, phFile, pulAction, s)
           else do {
             out \<leftarrow> open_name drv (cstr (the buf)) (unat (the cb)) pth;
             FSClientOpenL host (cstr out) phFile pulAction fsOpenFlags fsOpenMode s } } } }"

section \<open>Names for searching, for queries and for programs\<close>

text \<open>
  The same code stands in \<open>KalFindFirst\<close>, \<open>KalQueryPathInfo\<close> and \<open>KalExecPgm\<close>: \<open>str\<close> is the array in which the name is built,
  \<open>buf\<close> the directory and \<open>len\<close> the size returned for it.
\<close>

definition strcat :: "char list \<Rightarrow> string \<Rightarrow> char list option" where
  "strcat ar src = do { d \<leftarrow> str_end ar; store_str ar d (src @ [NUL]) }"

definition full_spec :: "char \<Rightarrow> char list \<Rightarrow> nat \<Rightarrow> string \<Rightarrow> char list \<Rightarrow> char list option" where
  "full_spec drv buf len spec str = do {
     str \<leftarrow> store_str str 0 [drv, CHR '':'', NUL];
     str \<leftarrow> (if cs_at spec 0 \<noteq> BSL then do {
         str \<leftarrow> store_str str 2 [BSL, NUL];
         str \<leftarrow> strcat str (cstr buf);
         c \<leftarrow> (if len + 1 < length str then Some (str ! (len + 1)) else None);
         (str, len) \<leftarrow> (if c \<noteq> BSL then do { str \<leftarrow> put_chr str (len + 2) BSL; Some (str, len + 1) } else Some (str, len));
         put_chr str (len + 2) NUL }
       else Some str);
     strcat str spec }"

text \<open>The directory, asked for twice with a size of 0 and with the size that was returned.\<close>

definition spec_dir :: "'s kal_host \<Rightarrow> char list \<Rightarrow> 's \<Rightarrow> (u32 \<times> char list \<times> u32 \<times> 's) option" where
  "spec_dir host buf s = do {
     (rc, b, cb, s) \<leftarrow> KalQueryCurrentDir host 0 (Some buf) (Some 0) s;
     if rc \<noteq> 0 then Some (rc, the b, the cb, s)
     else do {
       (rc, b, cb, s) \<leftarrow> KalQueryCurrentDir host 0 b cb s;
       Some (rc, the b, the cb, s) } }"

text \<open>
  The name of \<open>KalFindFirst\<close> and \<open>KalQueryPathInfo\<close>, or the code with which they return; the code of the query for the disk
  is not looked at. \<open>buf\<close> and \<open>str\<close> are the local arrays.
\<close>

definition spec_name ::
    "'s kal_host \<Rightarrow> char list \<Rightarrow> char list \<Rightarrow> string \<Rightarrow> 's \<Rightarrow> ((u32 + string) \<times> 's) option" where
  "spec_name host buf str spec s = do {
     c \<leftarrow> chr_at spec 1;
     if c = CHR '':'' then Some (Inr spec, s)
     else do {
       (rc, disk, s) \<leftarrow> KalQueryCurrentDisk host s;
       drv \<leftarrow> map_option (\<lambda>(d, _). char_of (unat (d - 1 + 65) mod 256)) disk;
       buf \<leftarrow> put_chr buf 0 NUL;
       (rc, buf, len, s) \<leftarrow> (if cs_at spec 0 \<noteq> BSL then spec_dir host buf s else Some (0, buf, 0, s));
       if rc \<noteq> 0 then Some (Inl rc, s)
       else if 256 < unat len + length spec + 3 then Some (Inl ERROR_FILENAME_EXCED_RANGE, s)
       else do {
         str \<leftarrow> full_spec drv buf (unat len) spec str;
         Some (Inr (cstr str), s) } } }"

definition KalFindFirst :: "'s kal_host \<Rightarrow> char list \<Rightarrow> char list \<Rightarrow> string \<Rightarrow> u32 \<Rightarrow> 's \<Rightarrow> (u32 \<times> 's) option" where
  "KalFindFirst host buf0 str0 pszFileSpec flAttribute s = do {
     (r, s) \<leftarrow> spec_name host (take 256 buf0) (take 256 str0) pszFileSpec s;
     case r of Inl rc \<Rightarrow> Some (rc, s) | Inr f \<Rightarrow> FSClientFindFirst host f flAttribute s }"

definition KalQueryPathInfo :: "'s kal_host \<Rightarrow> char list \<Rightarrow> char list \<Rightarrow> string \<Rightarrow> u32 \<Rightarrow> 's \<Rightarrow> (u32 \<times> u8 list option \<times> 's) option" where
  "KalQueryPathInfo host buf0 str0 pszPathName ulInfoLevel s = do {
     (r, s) \<leftarrow> spec_name host (take CCHMAXPATH buf0) (take CCHMAXPATH str0) pszPathName s;
     case r of
       Inl rc \<Rightarrow> Some (rc, None, s)
     | Inr f \<Rightarrow> do { (rc, info) \<leftarrow> FSClientQueryPathInfo host f ulInfoLevel s; Some (rc, Some info, s) } }"

text \<open>\<open>strstr\<close> tells whether a string occurs in another.\<close>

fun strstr :: "string \<Rightarrow> string \<Rightarrow> bool" where
  "strstr [] t \<longleftrightarrow> t = []"
| "strstr (c # s) t \<longleftrightarrow> take (length t) (c # s) = t \<or> strstr s t"

text \<open>
  The arguments and the environment are pointers to memory \<open>m\<close>; without an environment the one of the information
  block at \<open>ppib\<close> is used.
\<close>

definition KalExecPgm ::
    "'s kal_host \<Rightarrow> char list \<Rightarrow> char list \<Rightarrow> pmem \<Rightarrow> u32 \<Rightarrow> u32 \<Rightarrow> u32 \<Rightarrow> u32 \<Rightarrow> string \<Rightarrow> 's \<Rightarrow> (u32 \<times> 's) option" where
  "KalExecPgm host buf0 str0 m ppib execFlag pArg pEnv pName s =
     (if 6 < execFlag then Some (ERROR_INVALID_FUNCTION, s)
      else do {
        c \<leftarrow> chr_at pName 1;
        (rc, pName, s) \<leftarrow> (if c \<noteq> CHR '':'' then do {
            (rc, disk, s) \<leftarrow> KalQueryCurrentDisk host s;
            case disk of
              None \<Rightarrow> Some (rc, pName, s)
            | Some (d, _) \<Rightarrow> do {
                let drv = char_of (unat (d - 1 + 65) mod 256);
                buf \<leftarrow> put_chr (take 260 buf0) 0 NUL;
                (rc, buf, len, s) \<leftarrow> (if cs_at pName 0 \<noteq> BSL then spec_dir host buf s else Some (0, buf, 0, s));
                if rc \<noteq> 0 then Some (rc, pName, s)
                else if 256 < unat len + length pName + 3 then Some (ERROR_FILENAME_EXCED_RANGE, pName, s)
                else do {
                  str \<leftarrow> full_spec drv buf (unat len) pName (take 260 str0);
                  str \<leftarrow> (if strstr (cstr str) ''.exe'' then Some str else strcat str ''.exe'');
                  Some (0, cstr str, s) } } }
          else Some (0, pName, s));
        if rc \<noteq> 0 then Some (rc, s)
        else do {
          i \<leftarrow> (if pArg = 0 then Some 2 else strlstlen m pArg);
          env \<leftarrow> (if pEnv = 0 then ld32 m (ppib + pib_pchenv) else Some pEnv);
          j \<leftarrow> strlstlen m env;
          CPClientExecPgm host execFlag pArg i env j pName s } })"

section \<open>Reading and writing\<close>

text \<open>What is stored to \<open>*pcbActual\<close>, if anything. A size of 0 leaves it as it is.\<close>

definition KalRead :: "'s kal_host \<Rightarrow> u32 \<Rightarrow> u32 \<Rightarrow> 's \<Rightarrow> u32 \<times> u8 list \<times> u32 option \<times> 's" where
  "KalRead host hFile cbRead s =
     (if cbRead = 0 then (NO_ERROR, [], None, s)
      else case posix_read host hFile cbRead s of
        (None, s) \<Rightarrow> (ERROR_NO_DATA, [], None, s)
      | (Some bs, s) \<Rightarrow> (NO_ERROR, bs, Some (of_nat (length bs)), s))"

definition KalWrite :: "'s kal_host \<Rightarrow> u32 \<Rightarrow> u8 list \<Rightarrow> 's \<Rightarrow> u32 \<times> u32 option \<times> 's" where
  "KalWrite host hFile bs s =
     (if bs = [] then (NO_ERROR, None, s)
      else case posix_write host hFile bs s of
        (None, s) \<Rightarrow> (ERROR_NO_DATA, None, s)
      | (Some n, s) \<Rightarrow> (NO_ERROR, Some n, s))"

section \<open>Full names\<close>

text \<open>The name that is meant: a name from the root of the current disk, or one in the current directory \<open>d\<close>.\<close>

definition join_name :: "char \<Rightarrow> string \<Rightarrow> string \<Rightarrow> string" where
  "join_name drv d spec = drv # CHR '':'' #
     (if cs_at spec 0 = BSL then spec else BSL # d @ (if d = [] \<or> last d = BSL then [] else [BSL]) @ spec)"

text \<open>The servers answer with disk \<open>k\<close> and directory \<open>d\<close>, and their state stays as it is.\<close>

definition at_dir :: "'s kal_host \<Rightarrow> 's \<Rightarrow> u32 \<Rightarrow> string \<Rightarrow> bool" where
  "at_dir host s k d \<longleftrightarrow> (\<exists>lg. FSClientGetDriveMap host s = Some (0, lg, s) \<and> CPClientQueryCurrentDisk host s = Some (0, k)
     \<and> (\<forall>disk cb. (disk = 0 \<or> disk = k) \<and> (cb = 0 \<or> length d < unat cb) \<longrightarrow>
          CPClientQueryCurrentDir host disk lg cb s = Some (0, Some (d, of_nat (length d + 1)))))"

lemma store_str_string: "length (t @ u) < length ar \<Longrightarrow> ar = t @ NUL # x \<Longrightarrow>
  store_str ar (length t) (u @ [NUL]) = Some ((t @ u) @ NUL # drop (length u) x)"
  using stored_string [of t x u] by (simp add: store_str_def)

lemma strcat_string: "NUL \<notin> set t \<Longrightarrow> length (t @ u) < length (t @ NUL # x) \<Longrightarrow>
  strcat (t @ NUL # x) u = Some ((t @ u) @ NUL # drop (length u) x)"
  using store_str_string [of t u "t @ NUL # x" x] by (simp add: strcat_def str_end_str)

lemma strncat_string: "NUL \<notin> set t \<Longrightarrow> length (t @ u) < length (t @ NUL # x) \<Longrightarrow> length u \<le> n \<Longrightarrow>
  strncat (t @ NUL # x) u n = Some ((t @ u) @ NUL # drop (length u) x)"
  using store_str_string [of t u "t @ NUL # x" x] by (simp add: strncat_def str_end_str)

lemma cs_at_0: "cs_at s 0 = (if s = [] then NUL else hd s)"
  by (cases s) (simp_all add: cs_at_def)

lemma nth_append_last: "d \<noteq> [] \<Longrightarrow> (d @ r) ! (length d - 1) = last d"
  by (simp add: nth_append last_conv_nth)

lemma full_spec_rel:
  assumes "cs_at spec 0 \<noteq> BSL" and "cstr buf = d" and "len = length d + 1" and "drv \<noteq> NUL" and "NUL \<notin> set d"
    and "length d + (if d = [] \<or> last d = BSL then 3 else 4) < length str"
  shows "\<exists>x. full_spec drv buf len spec str = strcat (([drv, CHR '':'', BSL] @ d @ (if d = [] \<or> last d = BSL then [] else [BSL])) @ NUL # x) spec
    \<and> length str = length d + (if d = [] \<or> last d = BSL then 4 else 5) + length x"
proof -
  let ?h = "[drv, CHR '':'']" and ?h3 = "[drv, CHR '':'', BSL]"
  have l4: "3 < length str" using assms(6) by (simp split: if_splits)
  then obtain a b c c' x' where str: "str = a # b # c # c' # x'" by (auto simp: numeral_eq_Suc less_Suc_eq_le Suc_le_length_iff Suc_le_eq [symmetric])
  have s1: "store_str str 0 [drv, CHR '':'', NUL] = Some (?h @ NUL # c' # x')" by (simp add: store_str_def stored_def str)
  have s2: "store_str (?h @ NUL # c' # x') 2 [BSL, NUL] = Some (?h3 @ NUL # x')"
    using store_str_string [of ?h "[BSL]" "?h @ NUL # c' # x'" "c' # x'"] by (simp add: numeral_2_eq_2)
  have s3: "strcat (?h3 @ NUL # x') d = Some ((?h3 @ d) @ NUL # drop (length d) x')"
    using assms(4-6) str by (intro strcat_string) (auto split: if_splits)
  let ?y = "drop (length d) x'"
  have at: "((?h3 @ d) @ NUL # ?y) ! (len + 1) = (if d = [] then BSL else last d)"
    using nth_append_last [of d "NUL # ?y"] assms(3) by (cases d) auto
  show ?thesis
  proof (cases "d = [] \<or> last d = BSL")
    case True
    have "put_chr ((?h3 @ d) @ NUL # ?y) (len + 2) NUL = Some ((?h3 @ d) @ NUL # ?y)"
      using assms(3) by (simp add: put_chr_def nth_append list_update_append)
    then show ?thesis using True assms(1-3,6) s1 s2 s3 at str by (intro exI [of _ ?y]) (auto simp: full_spec_def)
  next
    case False
    then obtain y ys where y: "?y = y # ys" using assms(6) str by (cases ?y) auto
    have "length ?y = length x' - length d" by (rule length_drop)
    then have ly: "length x' = length d + 1 + length ys" using y by simp
    have p1: "put_chr ((?h3 @ d) @ NUL # ?y) (len + 2) BSL = Some ((?h3 @ d @ [BSL]) @ y # ys)"
      using assms(3) y by (simp add: put_chr_def list_update_append)
    have p2: "put_chr ((?h3 @ d @ [BSL]) @ y # ys) (len + 1 + 2) NUL = Some ((?h3 @ d @ [BSL]) @ NUL # ys)"
      using assms(3) by (simp add: put_chr_def list_update_append)
    show ?thesis using False assms(1-3) s1 s2 s3 at p1 p2 str ly y by (intro exI [of _ ys]) (simp add: full_spec_def)
  qed
qed

lemma full_spec_root:
  assumes "cs_at spec 0 = BSL" and "2 < length str"
  shows "\<exists>x. full_spec drv buf len spec str = strcat ([drv, CHR '':''] @ NUL # x) spec \<and> length str = 3 + length x"
proof -
  obtain a b c x where str: "str = a # b # c # x" using assms(2) by (auto simp: numeral_eq_Suc less_Suc_eq_le Suc_le_length_iff Suc_le_eq [symmetric])
  then show ?thesis using assms(1) by (intro exI [of _ x]) (simp add: full_spec_def store_str_def stored_def)
qed

lemma full_spec_name:
  assumes "cs_at spec 0 = BSL \<or> (cstr buf = d \<and> len = length d + 1)" and "drv \<noteq> NUL" and "NUL \<notin> set spec" and "NUL \<notin> set d"
    and "length (join_name drv d spec) < length str"
  shows "\<exists>x. full_spec drv buf len spec str = Some (join_name drv d spec @ NUL # x)"
proof (cases "cs_at spec 0 = BSL")
  case True
  moreover from this obtain x where "full_spec drv buf len spec str = strcat ([drv, CHR '':''] @ NUL # x) spec" "length str = 3 + length x"
    using full_spec_root [of spec str drv buf len] assms(5) by (auto simp: join_name_def)
  ultimately show ?thesis
    using strcat_string [of "[drv, CHR '':'']" spec x] assms(2,5) by (simp add: join_name_def)
next
  case False
  let ?t = "[drv, CHR '':'', BSL] @ d @ (if d = [] \<or> last d = BSL then [] else [BSL])"
  have j: "join_name drv d spec = ?t @ spec" using False by (simp add: join_name_def)
  obtain x where "full_spec drv buf len spec str = strcat (?t @ NUL # x) spec" "length str = length ?t + 1 + length x"
    using full_spec_rel [of spec buf d len drv str] False assms unfolding j by (auto split: if_splits)
  then show ?thesis using strcat_string [of ?t spec x] assms(2,4,5) unfolding j by auto
qed

lemma current_dir_read:
  assumes "at_dir host s k d" and "disk = 0 \<or> disk = k" and "cb = 0 \<or> length d < unat cb" and "length d < length buf" and "length d < 2 ^ 31"
  shows "KalQueryCurrentDir host disk (Some buf) (Some cb) s =
    Some (NO_ERROR, Some (stored buf 0 (d @ [NUL])), Some (of_nat (length d + 1)), s)"
proof -
  obtain lg where "FSClientGetDriveMap host s = Some (0, lg, s)"
    "CPClientQueryCurrentDir host disk lg cb s = Some (0, Some (d, of_nat (length d + 1)))"
    using assms(1-3) by (auto simp: at_dir_def)
  moreover have "unat (of_nat (length d) :: u32) = length d" by (rule unat_of_nat32) (use assms(5) in simp)
  moreover have "put_chr (stored buf 0 (d @ [NUL])) (length d) NUL = Some (stored buf 0 (d @ [NUL]))"
    using assms(4) by (simp add: put_chr_def stored_def list_update_append)
  ultimately show ?thesis using assms(4) by (simp add: KalQueryCurrentDir_def store_str_def)
qed

lemma cstr_stored_0: "NUL \<notin> set d \<Longrightarrow> cstr (stored buf 0 (d @ [NUL])) = d"
  using cstr_append_NUL [of d "drop (Suc (length d)) buf"] by (simp add: stored_def)

lemma current_disk_read: "at_dir host s k d \<Longrightarrow> \<exists>lg. KalQueryCurrentDisk host s = Some (0, Some (k, lg), s)"
  by (auto simp: at_dir_def KalQueryCurrentDisk_def)

text \<open>The letter of a disk.\<close>

definition disk_letter :: "u32 \<Rightarrow> char" where
  "disk_letter k = char_of (unat (k - 1 + 65) mod 256)"

text \<open>
  A name without a drive is searched for in the current directory of the current disk, and a name from the root in the root of
  that disk, as long as the name fits into the array and the code's own bound, which counts one more character.
\<close>

lemma searched_name:
  assumes "at_dir host s k d" and "spec \<noteq> []" and "cs_at spec 1 \<noteq> CHR '':''" and "NUL \<notin> set spec" and "NUL \<notin> set d"
    and "disk_letter k \<noteq> NUL" and "length (join_name (disk_letter k) d spec) < 256" and "length buf = 256" and "length str = 256"
  shows "spec_name host buf str spec s = Some (Inr (join_name (disk_letter k) d spec), s)"
proof -
  let ?n = "join_name (disk_letter k) d spec"
  obtain lg where disk: "KalQueryCurrentDisk host s = Some (0, Some (k, lg), s)" using current_disk_read [OF assms(1)] by blast
  have c1: "chr_at spec 1 = Some (cs_at spec 1)" using assms(2) by (cases spec) (simp_all add: chr_at_def)
  have b0: "put_chr buf 0 NUL = Some (buf[0 := NUL])" using assms(8) by (simp add: put_chr_def)
  show ?thesis
  proof (cases "cs_at spec 0 = BSL")
    case True
    then obtain x where "full_spec (disk_letter k) (buf[0 := NUL]) 0 spec str = Some (?n @ NUL # x)"
      using full_spec_name [of spec "buf[0 := NUL]" d 0 "disk_letter k" str] assms by auto
    moreover have "length spec + 3 \<le> 256" using assms(7) True by (simp add: join_name_def)
    moreover have "NUL \<notin> set ?n" using assms(4,6) True by (simp add: join_name_def)
    ultimately show ?thesis using True disk c1 b0 assms(3) by (simp add: spec_name_def disk_letter_def)
  next
    case False
    then have ld: "length d + length spec + 3 < 256" "d \<noteq> [] \<and> last d \<noteq> BSL \<Longrightarrow> length d + length spec + 4 < 256"
      using assms(7) by (auto simp: join_name_def split: if_splits)
    let ?b = "stored (buf[0 := NUL]) 0 (d @ [NUL])"
    have u: "unat (of_nat (length d + 1) :: u32) = length d + 1" by (rule unat_of_nat32) (use ld in simp)
    have sd: "spec_dir host (buf[0 := NUL]) s = Some (NO_ERROR, stored ?b 0 (d @ [NUL]), of_nat (length d + 1), s)"
      using current_dir_read [OF assms(1), of 0 0 "buf[0 := NUL]"] current_dir_read [OF assms(1), of 0 "of_nat (length d + 1)" ?b] ld assms(8) u
      by (simp add: spec_dir_def)
    from full_spec_name [of spec "stored ?b 0 (d @ [NUL])" d "length d + 1" "disk_letter k" str] assms False
    obtain x where "full_spec (disk_letter k) (stored ?b 0 (d @ [NUL])) (length d + 1) spec str = Some (?n @ NUL # x)"
      by (auto simp: cstr_stored_0)
    moreover have "NUL \<notin> set ?n" using assms(4-6) by (auto simp: join_name_def)
    moreover have "length d + 1 + length spec + 3 \<le> 256" using ld by simp
    ultimately show ?thesis using False disk c1 b0 assms(3) sd u by (simp add: spec_name_def disk_letter_def)
  qed
qed

lemma disk_numbers:
  assumes "1 \<le> k" and "k \<le> 26"
  shows "disknum_to_char (sint k) = disk_letter k" and "char_to_disknum (disk_letter k) mod 256 = int (unat k)"
    and "disk_letter k \<noteq> NUL" and "(of_int (int (unat k)) :: u32) = k" and "disknum_to_char (int (unat k)) = disk_letter k"
proof -
  have k: "1 \<le> unat k" "unat k \<le> 26" using assms by (simp_all add: word_le_nat_alt)
  have si: "sint k = int (unat k)" using sint_of_nat32 [of "unat k"] k by simp
  have u: "unat (k - 1 + 65) = unat k + 64"
  proof -
    have "k - 1 + 65 = of_nat (unat k + 64)" by simp
    moreover have "unat (of_nat (unat k + 64) :: u32) = unat k + 64" by (rule unat_of_nat32) (use k in simp)
    ultimately show ?thesis by (simp only:)
  qed
  then have u': "unat (64 + k) = unat k + 64" by simp
  have "int (unat k) \<le> 26" using k(2) by linarith
  then have ui: "uint k \<le> 26" by simp
  show "disknum_to_char (sint k) = disk_letter k"
    using k ui by (simp add: si u' disknum_to_char_def disk_letter_def toupper_int_def nat_mod_distrib nat_add_distrib)
  then show "disknum_to_char (int (unat k)) = disk_letter k" by (simp only: si)
  show "char_to_disknum (disk_letter k) mod 256 = int (unat k)"
    using k ui by (simp add: u' disk_letter_def char_to_disknum_def toupper_def take_bit_eq_mod)
  show "disk_letter k \<noteq> NUL"
    using k by (simp add: u' disk_letter_def char_of_eq_iff take_bit_eq_mod)
  show "(of_int (int (unat k)) :: u32) = k" by simp
qed

text \<open>The two ways to say that a directory name is kept without separators at its ends.\<close>

definition dir_ok :: "string \<Rightarrow> bool" where
  "dir_ok d \<longleftrightarrow> NUL \<notin> set d \<and> (d \<noteq> [] \<longrightarrow> isRelativePath d \<and> last d \<noteq> BSL)"

lemma open_name_joined:
  assumes "dir_ok d" and "spec \<noteq> []" and "hd spec \<noteq> CHR ''/''" and "NUL \<notin> set spec" and "disknum_to_char n \<noteq> NUL"
    and "length (join_name (disknum_to_char n) d spec) < 100" and "length d < len"
  shows "\<exists>x. open_name n d len spec = Some (join_name (disknum_to_char n) d spec @ NUL # x)"
proof -
  let ?c = "disknum_to_char n"
  have r: "replicate 100 NUL = [] @ NUL # replicate 99 NUL" by (simp add: numeral_eq_Suc)
  have s1: "strncat (replicate 100 NUL) [?c] 1 = Some ([?c] @ NUL # replicate 98 NUL)"
    using strncat_string [of "[]" "[?c]" "replicate 99 NUL" 1] unfolding r by (simp add: numeral_eq_Suc)
  show ?thesis
  proof (cases "hd spec = BSL")
    case True
    then have rel: "\<not> isRelativePath spec" "cs_at spec 0 = BSL" using assms(2) by (simp_all add: isRelativePath_def cs_at_0)
    have "strncat ([?c] @ NUL # replicate 98 NUL) '':'' 2 = Some (([?c] @ '':'') @ NUL # replicate 97 NUL)"
      using strncat_string [of "[?c]" "'':''" "replicate 98 NUL" 2] assms(5) by simp
    moreover have "strncat (([?c] @ '':'') @ NUL # replicate 97 NUL) spec (length spec)
        = Some ((([?c] @ '':'') @ spec) @ NUL # drop (length spec) (replicate 97 NUL))"
      using assms(4-6) rel by (intro strncat_string) (auto simp: join_name_def)
    ultimately show ?thesis using s1 rel by (simp add: open_name_def join_name_def)
  next
    case False
    then have rel: "isRelativePath spec" "cs_at spec 0 \<noteq> BSL" using assms(2,3) by (simp_all add: isRelativePath_def cs_at_0)
    let ?h = "[?c] @ '':'' @ [BSL]" and ?s = "if d = [] then [] else [BSL]"
    have l: "length d + length ?s + length spec < 97"
      using assms(1,6) rel by (auto simp: join_name_def dir_ok_def split: if_splits)
    have s2: "strncat ([?c] @ NUL # replicate 98 NUL) ('':'' @ [BSL]) 2 = Some (?h @ NUL # replicate 96 NUL)"
      using strncat_string [of "[?c]" "'':'' @ [BSL]" "replicate 98 NUL" 2] assms(5) by simp
    have s3: "strncat (?h @ NUL # replicate 96 NUL) d len = Some ((?h @ d) @ NUL # replicate (96 - length d) NUL)"
      using strncat_string [of ?h d "replicate 96 NUL" len] assms(5,7) l by simp
    have s4: "(if d \<noteq> [] \<and> isRelativePath d then strncat ((?h @ d) @ NUL # replicate (96 - length d) NUL) [BSL] 1
        else Some ((?h @ d) @ NUL # replicate (96 - length d) NUL)) = Some ((?h @ d @ ?s) @ NUL # replicate (96 - length d - length ?s) NUL)"
      using strncat_string [of "?h @ d" "[BSL]" "replicate (96 - length d) NUL" 1] assms(1,5) l by (auto simp: dir_ok_def)
    have s5: "strncat ((?h @ d @ ?s) @ NUL # replicate (96 - length d - length ?s) NUL) spec (length spec)
        = Some (((?h @ d @ ?s) @ spec) @ NUL # drop (length spec) (replicate (96 - length d - length ?s) NUL))"
      using assms(1,5) l by (intro strncat_string) (auto simp: dir_ok_def)
    have j: "join_name ?c d spec = (?h @ d @ ?s) @ spec" using rel assms(1) by (auto simp: join_name_def dir_ok_def)
    show ?thesis unfolding j open_name_def using s1 s2 s3 s4 s5 rel by (simp del: append_assoc append.simps)
  qed
qed

lemma parse_name:
  assumes "cs_at spec 1 \<noteq> CHR '':''" and "length spec \<le> 99"
  shows "parse_drv spec = NUL" and "parse_path spec 99 = spec"
proof -
  show d: "parse_drv spec = NUL" using assms(1) by (auto simp: parse_drv_def cs_at_def split: if_splits)
  show "parse_path spec 99 = spec" using assms(2) by (simp add: parse_path_def d)
qed

lemma join_name_no_NUL: "drv \<noteq> NUL \<Longrightarrow> NUL \<notin> set d \<Longrightarrow> NUL \<notin> set spec \<Longrightarrow> NUL \<notin> set (join_name drv d spec)"
  by (auto simp: join_name_def)

text \<open>C31: 
  Opening a file and searching for it agree on its full name: a name without a drive is taken from the current
  directory of the current disk by both (for a name in fewer than 100 characters altogether, the size of the array in
  \<open>KalOpenL\<close>).
\<close>

theorem opened_as_searched:
  assumes "at_dir host s k d" and "1 \<le> k" and "k \<le> 26" and "dir_ok d"
    and "spec \<noteq> []" and "cs_at spec 1 \<noteq> CHR '':''" and "hd spec \<noteq> CHR ''/''" and "NUL \<notin> set spec"
    and "length (join_name (disk_letter k) d spec) < 100" and "length buf = 256" and "length str = 256" and "length d < 100"
  shows "KalOpenL host spec ph pa fl md s = FSClientOpenL host (join_name (disk_letter k) d spec) ph pa fl md s
    \<and> KalFindFirst host buf str spec attr s = FSClientFindFirst host (join_name (disk_letter k) d spec) attr s"
proof
  let ?n = "join_name (disk_letter k) d spec"
  note num = disk_numbers [OF assms(2,3)]
  have NUL: "NUL \<notin> set d" using assms(4) by (simp add: dir_ok_def)
  have l: "length d < 100" "length spec \<le> 99"
    using assms(9,12) by (auto simp: join_name_def split: if_splits)
  show "KalFindFirst host buf str spec attr s = FSClientFindFirst host ?n attr s"
    using searched_name [OF assms(1,5,6,8) NUL num(3), of buf str] assms(9-11) by (simp add: KalFindFirst_def)
  obtain lg where disk: "KalQueryCurrentDisk host s = Some (0, Some (k, lg), s)" using current_disk_read [OF assms(1)] by blast
  have dir: "KalQueryCurrentDir host k (Some (replicate 100 NUL)) (Some 100) s =
      Some (NO_ERROR, Some (stored (replicate 100 NUL) 0 (d @ [NUL])), Some (of_nat (length d + 1)), s)"
    using current_dir_read [OF assms(1), of k 100 "replicate 100 NUL"] l by simp
  have u: "unat (of_nat (length d + 1) :: u32) = length d + 1" by (rule unat_of_nat32) (use l in simp)
  obtain x where o: "open_name (int (unat k)) d (length d + 1) spec = Some (?n @ NUL # x)"
    using open_name_joined [OF assms(4,5,7,8), of "int (unat k)" "length d + 1"] assms(9) num by auto
  have "cstr (stored (replicate 100 NUL) 0 (d @ [NUL])) = d" "cstr (?n @ NUL # x) = ?n"
    using NUL join_name_no_NUL [OF num(3) NUL assms(8)] by (simp_all add: cstr_stored_0)
  then show "KalOpenL host spec ph pa fl md s = FSClientOpenL host ?n ph pa fl md s"
    using disk dir u o parse_name [OF assms(6) l(2)] num by (simp add: KalOpenL_def Let_def)
qed

section \<open>Names at the bound\<close>

lemma strcat_overrun:
  "NUL \<notin> set t \<Longrightarrow> length (t @ NUL # x) \<le> length (t @ u) \<Longrightarrow> strcat (t @ NUL # x) u = None"
  by (simp add: strcat_def str_end_str store_str_def)

text \<open>The bound forgets the separator that is added behind the directory: a name of 256 characters passes it and is written
  into an array of 256, where its terminator does not fit.\<close>

theorem searched_name_overruns:
  assumes "at_dir host s k d" and "spec \<noteq> []" and "cs_at spec 1 \<noteq> CHR '':''" and "hd spec \<noteq> BSL" and "NUL \<notin> set spec"
    and "NUL \<notin> set d" and "d \<noteq> []" and "last d \<noteq> BSL" and "disk_letter k \<noteq> NUL"
    and "length d + length spec + 4 = 256" and "length buf = 256" and "length str = 256"
  shows "KalFindFirst host buf str spec attr s = None"
proof -
  obtain lg where disk: "KalQueryCurrentDisk host s = Some (0, Some (k, lg), s)" using current_disk_read [OF assms(1)] by blast
  have c1: "chr_at spec 1 = Some (cs_at spec 1)" using assms(2) by (cases spec) (simp_all add: chr_at_def)
  have b0: "put_chr buf 0 NUL = Some (buf[0 := NUL])" using assms(11) by (simp add: put_chr_def)
  let ?b = "stored (buf[0 := NUL]) 0 (d @ [NUL])"
  have ld: "length d < 256" "0 < length spec" using assms(2,10) by auto
  have u: "unat (of_nat (length d + 1) :: u32) = length d + 1" by (rule unat_of_nat32) (use ld in simp)
  have sd: "spec_dir host (buf[0 := NUL]) s = Some (NO_ERROR, stored ?b 0 (d @ [NUL]), of_nat (length d + 1), s)"
    using current_dir_read [OF assms(1), of 0 0 "buf[0 := NUL]"] current_dir_read [OF assms(1), of 0 "of_nat (length d + 1)" ?b] ld assms(10,11) u
    by (simp add: spec_dir_def)
  have rel: "cs_at spec 0 \<noteq> BSL" using assms(2,4) by (simp add: cs_at_0)
  let ?d = "disk_letter k" and ?w = "stored ?b 0 (d @ [NUL])"
  have "length d + 4 < length str" using assms(10,12) ld(2) by linarith
  then obtain x where "full_spec ?d ?w (length d + 1) spec str = strcat (([?d, CHR '':'', BSL] @ d @ [BSL]) @ NUL # x) spec"
      "length str = length d + 5 + length x"
    using full_spec_rel [OF rel cstr_stored_0 [OF assms(6)] refl assms(9,6), of str] assms(7,8) by auto
  moreover from this have "strcat (([?d, CHR '':'', BSL] @ d @ [BSL]) @ NUL # x) spec = None"
    using assms(6,9,10,12) by (intro strcat_overrun) auto
  ultimately have "full_spec ?d ?w (length d + 1) spec str = None" by simp
  then show ?thesis using disk c1 b0 sd u rel assms(3,10,11,12) by (simp add: KalFindFirst_def spec_name_def disk_letter_def)
qed

section \<open>Examples\<close>

definition demo_rest :: "'s kal_host" where
  "demo_rest = \<lparr>FSClientGetDriveMap = \<lambda>_. None, CPClientQueryCurrentDisk = \<lambda>_. None, CPClientQueryCurrentDir = \<lambda>_ _ _ _. None,
     CPClientSetDefaultDisk = \<lambda>_ _ _. None, FSClientOpenL = \<lambda>_ _ _ _ _ _. None, FSClientFindFirst = \<lambda>_ _ _. None,
     FSClientQueryPathInfo = \<lambda>_ _ _. None, CPClientExecPgm = \<lambda>_ _ _ _ _ _ _. None, posix_read = \<lambda>_ _ s. (None, s),
     posix_write = \<lambda>_ _ s. (None, s)\<rparr>"

text \<open>Servers whose state is the last name they were asked for.\<close>

definition demo_names :: "string kal_host" where
  "demo_names = demo_rest\<lparr>FSClientGetDriveMap := \<lambda>s. Some (0, 4, s), CPClientQueryCurrentDisk := \<lambda>_. Some (0, 3),
     CPClientQueryCurrentDir := \<lambda>_ _ _ _. Some (0, Some (''OS2'', 4)), FSClientOpenL := \<lambda>f _ _ _ _ _. Some (0, 3, 1, f),
     FSClientFindFirst := \<lambda>f _ _. Some (0, f)\<rparr>"

lemma demo_names_at: "at_dir demo_names [] 3 ''OS2''"
  by (simp add: at_dir_def demo_names_def)

lemma disk_letter_3: "disk_letter 3 = CHR ''C''"
  by (simp add: disk_letter_def char_of_eq_iff)

theorem opened_as_searched_witness:
  "KalOpenL demo_names ''README'' 0 0 1 0x42 [] = Some (0, 3, 1, ''C:'' @ [BSL] @ ''OS2'' @ [BSL] @ ''README'')
    \<and> KalFindFirst demo_names (replicate 256 NUL) (replicate 256 NUL) ''README'' 0 [] = Some (0, ''C:'' @ [BSL] @ ''OS2'' @ [BSL] @ ''README'')"
  using opened_as_searched [OF demo_names_at, of "''README''" "replicate 256 NUL" "replicate 256 NUL" 0 0 1 "0x42" 0]
  by (simp add: dir_ok_def isRelativePath_def cs_at_def join_name_def disk_letter_3) (simp add: demo_names_def)

theorem searched_name_overruns_witness:
  "KalFindFirst demo_names (replicate 256 NUL) (replicate 256 NUL) (replicate 249 (CHR ''A'')) 0 [] = None"
  using searched_name_overruns [OF demo_names_at, of "replicate 249 (CHR ''A'')" "replicate 256 NUL" "replicate 256 NUL" 0]
  by (simp add: cs_at_def disk_letter_3)

end
