(* ===== verification/KalServe.thy ===== *)
theory KalServe
  imports KalFile
begin

text \<open>
  An application in front of the models of the servers: the calls of \<open>KalFile\<close> answered by the file server's and the OS/2
  server's operations. The requests travel through generated stubs, which are taken to hand the parameters over as they are.
\<close>

section \<open>The servers behind the stubs\<close>

record 'h sys =
  sys_prc :: prc_state
  sys_router :: FSRouter
  sys_map :: u32
  sys_files :: "filehandle list"
  sys_host :: 'h

text \<open>The calls of thread \<open>t\<close>; \<open>rest\<close> are the calls that are not answered here.\<close>

definition serve :: "'p prc_host_scheme \<Rightarrow> 'h posix \<Rightarrow> 64 word \<Rightarrow> 'h sys kal_host \<Rightarrow> 'h sys kal_host" where
  "serve ph px t rest = rest\<lparr>
     FSClientGetDriveMap := \<lambda>s. (case FSGetDriveMap (sys_router s) (sys_map s) of
         Ret (rc, m, drivemap) \<Rightarrow> Some (rc, m, s\<lparr>sys_map := drivemap\<rparr>) | _ \<Rightarrow> None),
     CPClientQueryCurrentDisk := \<lambda>s. CPQueryCurrentDisk ph t (sys_prc s),
     CPClientQueryCurrentDir := \<lambda>n lg cb s. CPQueryCurrentDir ph t n lg True cb (sys_prc s),
     CPClientSetDefaultDisk := \<lambda>n lg s. map_option (\<lambda>(rc, p). (rc, s\<lparr>sys_prc := p\<rparr>)) (CPSetDefaultDisk ph t n lg (sys_prc s)),
     FSClientOpenL := \<lambda>f h a fl md s. (case FSOpenL px (sys_router s) f h a fl md (sys_files s) (sys_host s) of
         Ret (rc, h, a, files, w) \<Rightarrow> Some (rc, h, a, s\<lparr>sys_files := files, sys_host := w\<rparr>) | _ \<Rightarrow> None)\<rparr>"

section \<open>Opening a file in the current directory\<close>

text \<open>The process of the caller has current disk \<open>k\<close> and directory \<open>d\<close>, and the drive map, once asked for, has the disk.\<close>

definition settled :: "'p prc_host_scheme \<Rightarrow> 64 word \<Rightarrow> 'h sys \<Rightarrow> u32 \<Rightarrow> string \<Rightarrow> bool" where
  "settled ph t s k d \<longleftrightarrow> (\<exists>p v. caller ph t (sys_prc s) = Some (p, v) \<and> curdir v = d \<and> scast (curdisk v) = k)
     \<and> FSGetDriveMap (sys_router s) (sys_map s) = Ret (NO_ERROR, sys_map s, sys_map s)
     \<and> 1 \<le> k \<and> k \<le> 26 \<and> bit (sys_map s) (unat (k - 1))"

lemma drive_bit_on: "1 \<le> k \<Longrightarrow> k \<le> 26 \<Longrightarrow> bit m (unat (k - 1)) \<Longrightarrow> \<exists>b. drive_bit k = Some b \<and> b AND m \<noteq> 0"
proof -
  assume k: "1 \<le> k" "k \<le> 26" "bit m (unat (k - 1))"
  then have "k - 1 < 32" by unat_arith
  moreover have "bit (push_bit (unat (k - 1)) 1 AND m) (unat (k - 1))"
    using k(3) bit_imp_le_length [OF k(3)] by (simp add: bit_simps)
  then have "push_bit (unat (k - 1)) 1 AND m \<noteq> 0" by (metis bit_0_eq bot_apply bot_bool_def)
  ultimately show ?thesis by (simp add: drive_bit_def)
qed

lemma settled_at_dir:
  assumes "settled ph t s k d"
  shows "at_dir (serve ph px t rest) s k d"
proof -
  obtain p v where v: "caller ph t (sys_prc s) = Some (p, v)" "curdir v = d" "scast (curdisk v) = k"
    and m: "FSGetDriveMap (sys_router s) (sys_map s) = Ret (NO_ERROR, sys_map s, sys_map s)"
    and b: "1 \<le> k" "k \<le> 26" "bit (sys_map s) (unat (k - 1))"
    using assms by (auto simp: settled_def)
  obtain w where "drive_bit k = Some w" "w AND sys_map s \<noteq> 0" using drive_bit_on [OF b] by blast
  then show ?thesis using v m
    by (auto simp: at_dir_def serve_def CPQueryCurrentDisk_def CPQueryCurrentDir_def)
qed

lemma tolower_disk_letter:
  assumes "1 \<le> k" and "k \<le> 26"
  shows "tolower (disk_letter k) = drive_letter (unat k - 1)"
proof -
  have k: "1 \<le> unat k" "unat k \<le> 26" using assms by (simp_all add: word_le_nat_alt)
  have "k - 1 + 65 = of_nat (unat k + 64)" by simp
  moreover have "unat (of_nat (unat k + 64) :: u32) = unat k + 64" by (rule unat_of_nat32) (use k in simp)
  ultimately have "unat (k - 1 + 65) = unat k + 64" by (simp only:)
  then have "unat (64 + k) = unat k + 64" by simp
  then show ?thesis
    using k by (simp add: disk_letter_def tolower_def drive_letter_def take_bit_eq_mod char_of_eq_iff)
qed

text \<open>C16: 
  A relative name, from the application to the host: the file that is opened lies in the caller's current directory, in the
  directory of the host that the file server has for the caller's current disk, in lower case. The handle is that of the host, and the file server
  keeps it with the mode and the host's name.
\<close>

theorem relative_file_opened:
  assumes "settled ph t s k d" and "2 < k" and "router_ok (sys_router s)"
    and "dir_ok d" and "CHR ''/'' \<notin> set d" and "nm \<noteq> []" and "{NUL, BSL, CHR ''/'', CHR '':''} \<inter> set nm = {}"
    and "FSRouter_route (sys_router s) (disk_letter k) = Ret (Some srv)" and "mountpoint srv = Some m"
    and "length (join_name (disk_letter k) d nm) < 100" and "length d < 100"
    and "f = m @ host_name (BSL # d @ (if d = [] then [] else [BSL]) @ nm)" and "length f < 256"
    and "md AND OPEN_FLAGS_DASD = 0" and "fl AND OPEN_ACTION_FAIL_IF_EXISTS = 0"
    and "p_open px f (open_mode md fl) (sys_host s) = (Inr h, w)"
  shows "KalOpenL (serve ph px t rest) nm h0 a0 fl md s =
    Some (NO_ERROR, h, open_action fl (case p_stat px f (sys_host s) of Inl e \<Rightarrow> False | Inr st \<Rightarrow> True) (open_mode md fl) a0,
      s\<lparr>sys_files := sys_files s @ [\<lparr>hfile = h, openmode = md, filename = f\<rparr>], sys_host := w\<rparr>)"
proof -
  let ?n = "join_name (disk_letter k) d nm" and ?K = "serve ph px t rest"
  have k: "1 \<le> k" "k \<le> 26" using assms(1) by (simp_all add: settled_def)
  note num = disk_numbers [OF k]
  have nm: "cs_at nm 1 \<noteq> CHR '':''" "hd nm \<noteq> CHR ''/''" "NUL \<notin> set nm" "BSL \<notin> set nm" "cs_at nm 0 \<noteq> BSL"
    using assms(6,7) by (cases nm; cases "tl nm"; auto simp: cs_at_def)+
  have "KalOpenL ?K nm h0 a0 fl md s = FSClientOpenL ?K ?n h0 a0 fl md s"
    using opened_as_searched [OF settled_at_dir [OF assms(1)] k assms(4,6) nm(1-3) assms(10) _ _ assms(11),
        of "replicate 256 NUL" "replicate 256 NUL" px rest h0 a0 fl md 0] by simp
  moreover have j: "?n = disk_letter k # CHR '':'' # (if d = [] then [] else BSL # d) @ BSL # nm"
    using assms(4) nm(5) by (auto simp: join_name_def dir_ok_def)
  have i: "unat k - 1 < 26" "2 \<le> unat k - 1" using k assms(2) by unat_arith+
  have "(of_char (tolower (disk_letter k)) :: nat) = 97 + (unat k - 1)"
    unfolding tolower_disk_letter [OF k] by (rule of_drive_letter [OF i(1)])
  then have "disk_letter k \<noteq> CHR ''/''" by (intro notI) (simp add: tolower_def)
  then have "CHR ''/'' \<notin> set ?n" unfolding j using assms(5,7) by auto
  then have "fold_slash ?n = ?n" unfolding fold_slash_def by (intro map_idI) auto
  then have "name_copy ?n = Ret ?n" using assms(10) by (simp add: name_copy_def)
  moreover have "pathconv (sys_router s) ?n = Ret (Some f)"
    unfolding j using pathconv_route [OF assms(3) nm(4) tolower_disk_letter [OF k], of "if d = [] then [] else BSL # d"] i assms(8,9,12) by simp
  ultimately show ?thesis
    using assms(13-16) by (simp add: serve_def FSOpenL_def Let_def)
qed

text \<open>The example: a process in the directory \<open>OS2\<close> of drive C opens \<open>A\<close> for reading and writing, creating it.\<close>

definition demo_sys :: "(u32 \<Rightarrow> (u8 list \<times> nat) option) sys" where
  "demo_sys = \<lparr>sys_prc = demo_table, sys_router = demo_router, sys_map = 4, sys_files = [], sys_host = \<lambda>_. None\<rparr>"

lemma demo_settled: "settled (demo_prc_host 64) 6 demo_sys 3 ''OS2''"
  using demo_caller
  by (simp add: settled_def demo_sys_def demo_proc_def FSGetDriveMap_def bit_iff_odd)

theorem relative_file_opened_witness:
  "KalOpenL (serve (demo_prc_host 64) mem_host 6 demo_rest) ''A'' 0 0 1 0x42 demo_sys =
    Some (NO_ERROR, 3, 1, demo_sys\<lparr>sys_files := [\<lparr>hfile = 3, openmode = 0x42, filename = ''/file/system/os2/a''\<rparr>],
      sys_host := [3 \<mapsto> ([], 0)]\<rparr>)"
proof -
  obtain r where r: "init_globals = Ret r" "router_ok r" "\<forall>c. FSRouter_route r c = Ret (standard_route c)"
    by (rule init_globals_route)
  have d: "demo_router = r" by (simp only: demo_router_def r(1) outcome.case)
  obtain srv where srv: "standard_route (CHR ''C'') = Some srv" "mountpoint srv = Some ''/file/system''"
    by (simp add: standard_route_def standard_drives_def letter_def I_Fs_srv_init2_def tolower_def cstr_simps)
  then have route: "FSRouter_route (sys_router demo_sys) (disk_letter 3) = Ret (Some srv)" using r(3) by (simp add: disk_letter_3 demo_sys_def d)
  have f: "''/file/system/os2/a'' = ''/file/system'' @ host_name (BSL # ''OS2'' @ (if ''OS2'' = [] then [] else [BSL]) @ ''A'')"
    by (simp add: host_name_def tolower_def cstr_simps)
  have "open_mode 0x42 1 = 2" "open_action 1 True 2 0 = 1" by (simp_all add: open_mode_def open_action_def Let_def)
  with relative_file_opened [OF demo_settled _ _ _ _ _ _ route srv(2) _ _ f, where md = "0x42" and fl = 1 and px = mem_host and h = 3
      and w = "[3 \<mapsto> ([], 0)]" and rest = demo_rest and ?h0.0 = 0 and ?a0.0 = 0]
  show ?thesis using r(2)
    by (simp add: demo_sys_def d dir_ok_def isRelativePath_def cs_at_def join_name_def disk_letter_3 mem_host_def)
qed

end
