(* ===== verification/KalMem.thy ===== *)
theory KalMem
  imports Linked
begin

text \<open>
  Memory of an application (\<open>KalAllocMem\<close>, \<open>KalFreeMem\<close>, \<open>KalSetMem\<close>, \<open>KalQueryMem\<close> and the functions below them in
  \<^verbatim>\<open>kal.c\<close>, and \<open>attach_ds_area\<close> of \<^verbatim>\<open>platform/l4env/src/lib/compat/dataspace.c\<close>). The records of areas form a doubly linked
  list in an explicit store. The region mapper and the dataspace manager of the host and the stubs of the servers are the
  fields of a record that act on a state of their own; \<open>KalLaws\<close> states what is relied on of them.
\<close>

section \<open>State\<close>

record karea =
  ka_name :: string
  ka_shared :: bool
  ka_owner :: "64 word"
  ka_rights :: u32
  ka_area :: u32
  ka_addr :: u32
  ka_size :: u32
  ka_next :: u32
  ka_prev :: u32

text \<open>The answers of the host that the code tells apart; a dataspace has type \<open>'d\<close>.\<close>

datatype reserved = RsvAt u32 u32 | RsvNoRoom | RsvError

datatype 'd region = RegFree | RegReserved | RegDataspace 'd | RegOther | RegError

record ('s, 'd) rm_host =
  l4rm_area_reserve :: "u32 \<Rightarrow> 's \<Rightarrow> reserved \<times> 's"
  l4rm_lookup_region :: "u32 \<Rightarrow> 's \<Rightarrow> 'd region \<times> u32 \<times> u32"
  l4rm_area_attach_to_region :: "'d \<Rightarrow> u32 \<Rightarrow> u32 \<Rightarrow> u32 \<Rightarrow> u32 \<Rightarrow> 's \<Rightarrow> bool \<times> 's"
  l4rm_detach :: "u32 \<Rightarrow> 's \<Rightarrow> 's"
  l4rm_area_release_addr :: "u32 \<Rightarrow> 's \<Rightarrow> bool \<times> 's"
  l4dm_mem_open :: "u32 \<Rightarrow> u32 \<Rightarrow> 's \<Rightarrow> 'd option \<times> 's"
  l4dm_mem_size :: "'d \<Rightarrow> 's \<Rightarrow> u32 option"
  l4dm_memphys_copy :: "'d \<Rightarrow> u32 \<Rightarrow> u32 \<Rightarrow> 's \<Rightarrow> 'd option \<times> 's"
  l4dm_close :: "'d \<Rightarrow> 's \<Rightarrow> 's"
  ExcClientReleaseSharedMem :: "u32 \<Rightarrow> 's \<Rightarrow> u32 \<times> 's"
  ExcClientUnmapDataspace :: "u32 \<Rightarrow> 'd \<Rightarrow> 's \<Rightarrow> 's"
  ExcClientMapDataspace :: "u32 \<Rightarrow> u32 \<Rightarrow> 'd \<Rightarrow> 's \<Rightarrow> u32 \<times> 's"
  AppClientDataspaceRelease :: "64 word \<Rightarrow> 'd \<Rightarrow> 's \<Rightarrow> 's"
  l4_myself :: "64 word"

record 's kmem =
  kheap :: "u32 \<Rightarrow> karea option"
  kareas :: u32
  kmallocs :: "(u32 \<times> karea) list"
  krm :: 's

section \<open>Rights and records\<close>

abbreviation (input) PAG_READ :: u32 where "PAG_READ \<equiv> 0x1"
abbreviation (input) PAG_WRITE :: u32 where "PAG_WRITE \<equiv> 0x2"
abbreviation (input) PAG_EXECUTE :: u32 where "PAG_EXECUTE \<equiv> 0x4"
abbreviation (input) PAG_COMMIT :: u32 where "PAG_COMMIT \<equiv> 0x10"
abbreviation (input) PAG_DECOMMIT :: u32 where "PAG_DECOMMIT \<equiv> 0x20"
abbreviation (input) PAG_DEFAULT :: u32 where "PAG_DEFAULT \<equiv> 0x400"
abbreviation (input) PAG_FREE :: u32 where "PAG_FREE \<equiv> 0x4000"
abbreviation (input) PAG_BASE :: u32 where "PAG_BASE \<equiv> 0x10000"

definition dm_rights :: "u32 \<Rightarrow> u32" where
  "dm_rights flags = (if flags AND PAG_READ \<noteq> 0 then 1 else 0) OR (if flags AND PAG_WRITE \<noteq> 0 then 2 else 0)
     OR (if flags AND PAG_EXECUTE \<noteq> 0 then 1 else 0)"

text \<open>The test of \<open>get_area\<close>, which takes the address behind the last byte for one of the area.\<close>

definition in_karea :: "u32 \<Rightarrow> karea \<Rightarrow> bool" where
  "in_karea addr v \<longleftrightarrow> ka_addr v \<le> addr \<and> addr \<le> ka_addr v + ka_size v"

definition kal_get_area :: "u32 \<Rightarrow> 's kmem \<Rightarrow> u32 option" where
  "kal_get_area addr st = search_from ka_next (in_karea addr) (kheap st) (kareas st)"

definition kal_mem_by_name :: "string \<Rightarrow> 's kmem \<Rightarrow> u32 option" where
  "kal_mem_by_name pszName st = search_from ka_next (\<lambda>v. ka_name v \<noteq> [] \<and> ka_name v = pszName) (kheap st) (kareas st)"

text \<open>
  \<open>attach_ds_area\<close>: the result of attaching is stored in an unsigned variable and compared with 0, so it is never seen.
\<close>

definition attach_ds_area :: "('s, 'd) rm_host \<Rightarrow> 'd \<Rightarrow> u32 \<Rightarrow> u32 \<Rightarrow> u32 \<Rightarrow> 's \<Rightarrow> u32 \<times> 's" where
  "attach_ds_area host ds area flags addr s =
     (case l4dm_mem_size host ds s of
        None \<Rightarrow> (ERROR_INVALID_PARAMETER, s)
      | Some sz \<Rightarrow> (let (_, s) = l4rm_area_attach_to_region host ds area addr sz flags s in (0, s)))"

text \<open>A new record in front of the list. The memory from \<open>malloc\<close> keeps its contents in members that are not set.\<close>

definition kal_push :: "(u32 \<Rightarrow> karea \<Rightarrow> karea) \<Rightarrow> 's kmem \<Rightarrow> 's kmem option" where
  "kal_push mk st =
     (case kmallocs st of
        [] \<Rightarrow> None
      | (p, raw) # ms \<Rightarrow>
          if p = 0 then None
          else do {
            h \<leftarrow> (if kareas st \<noteq> 0 then do { w \<leftarrow> kheap st (kareas st); Some ((kheap st)(kareas st \<mapsto> w\<lparr>ka_prev := p\<rparr>)) }
                 else Some (kheap st));
            Some (st\<lparr>kheap := h(p \<mapsto> mk (kareas st) raw), kareas := p, kmallocs := ms\<rparr>) })"

section \<open>Allocation\<close>

text \<open>The code, the address if it is stored, and the state. The result of \<open>malloc\<close> is not looked at.\<close>

definition KalAllocMem :: "('s, 'd) rm_host \<Rightarrow> u32 \<Rightarrow> u32 \<Rightarrow> 's kmem \<Rightarrow> (u32 \<times> u32 option \<times> 's kmem) option" where
  "KalAllocMem host cb flags st =
     (let rights = dm_rights flags; (r, s) = l4rm_area_reserve host cb (krm st); st = st\<lparr>krm := s\<rparr> in
      case r of
        RsvNoRoom \<Rightarrow> Some (ERROR_NOT_ENOUGH_MEMORY, None, st)
      | RsvError \<Rightarrow> Some (ERROR_ACCESS_DENIED, None, st)
      | RsvAt addr area \<Rightarrow> do {
          st \<leftarrow> kal_push (\<lambda>next raw. raw\<lparr>ka_shared := False, ka_owner := l4_myself host, ka_rights := flags, ka_area := area,
                  ka_name := [], ka_addr := addr, ka_size := cb, ka_next := next, ka_prev := 0\<rparr>) st;
          if flags AND PAG_COMMIT = 0 then Some (NO_ERROR, Some addr, st)
          else case l4dm_mem_open host cb rights (krm st) of
            (None, s) \<Rightarrow> Some (ERROR_NOT_ENOUGH_MEMORY, None, st\<lparr>krm := s\<rparr>)
          | (Some ds, s) \<Rightarrow>
              (let (rc, s) = attach_ds_area host ds area rights addr s in
               Some (if rc \<noteq> 0 then (ERROR_NOT_ENOUGH_MEMORY, None, st\<lparr>krm := s\<rparr>) else (NO_ERROR, Some addr, st\<lparr>krm := s\<rparr>))) })"

section \<open>Freeing\<close>

text \<open>
  The loop over the regions of an area. Its condition also holds for the address behind the area. No value: it does not end.
  The result is the code with which the function returns inside the loop, if it does.
\<close>

partial_function (option) free_regions :: "('s, 'd) rm_host \<Rightarrow> karea \<Rightarrow> u32 \<Rightarrow> u32 \<Rightarrow> 's \<Rightarrow> (u32 \<times> 's) option" where
  "free_regions host v refcnt addr s =
     (if \<not> in_karea addr v then Some (0, s)
      else case l4rm_lookup_region host addr s of
        (RegDataspace ds, addr, sz) \<Rightarrow>
          (let s = (if ka_shared v then ExcClientUnmapDataspace host addr ds s else s);
               s = l4rm_detach host addr s;
               s = (if ka_shared v then
                      if refcnt = 0 then
                        if ka_owner v \<noteq> l4_myself host then AppClientDataspaceRelease host (ka_owner v) ds s else l4dm_close host ds s
                      else s
                    else l4dm_close host ds s)
           in free_regions host v refcnt (addr + sz) s)
      | (RegReserved, addr, sz) \<Rightarrow> free_regions host v refcnt (addr + sz) s
      | (RegFree, addr, sz) \<Rightarrow> free_regions host v refcnt (addr + sz) s
      | _ \<Rightarrow> Some (ERROR_INVALID_ADDRESS, s))"

definition KalFreeMem :: "('s, 'd) rm_host \<Rightarrow> u32 \<Rightarrow> 's kmem \<Rightarrow> (u32 \<times> 's kmem) option" where
  "KalFreeMem host pb st = do {
     p \<leftarrow> kal_get_area pb st;
     if p = 0 then Some (ERROR_INVALID_ADDRESS, st)
     else do {
       v \<leftarrow> kheap st p;
       let (refcnt, s) = (if ka_shared v then ExcClientReleaseSharedMem host (ka_addr v) (krm st) else (0, krm st));
       (rc, s) \<leftarrow> free_regions host v refcnt (ka_addr v) s;
       if rc \<noteq> 0 then Some (rc, st\<lparr>krm := s\<rparr>)
       else if refcnt \<noteq> 0 then Some (NO_ERROR, st\<lparr>krm := s\<rparr>)
       else case l4rm_area_release_addr host (ka_addr v) s of
         (False, s) \<Rightarrow> Some (ERROR_ACCESS_DENIED, st\<lparr>krm := s\<rparr>)
       | (True, s) \<Rightarrow> do {
           h \<leftarrow> unlink_rec ka_next ka_prev (\<lambda>x v. v\<lparr>ka_next := x\<rparr>) (\<lambda>x v. v\<lparr>ka_prev := x\<rparr>) p v (kheap st);
           Some (NO_ERROR, st\<lparr>kheap := h, krm := s\<rparr>) } } }"

section \<open>Committing and decommitting\<close>

text \<open>The loop of \<open>commit_pages\<close>: a dataspace for all of the rest is made for the first reserved region.\<close>

partial_function (option) commit_loop :: "('s, 'd) rm_host \<Rightarrow> karea \<Rightarrow> u32 \<Rightarrow> u32 \<Rightarrow> u32 \<Rightarrow> 's \<Rightarrow> (u32 \<times> 's) option" where
  "commit_loop host v rights pb cb s =
     (case l4rm_lookup_region host pb s of
        (RegError, _, _) \<Rightarrow> Some (ERROR_INVALID_ADDRESS, s)
      | (k, addr, sz) \<Rightarrow>
          (let (rc, s) = (if k = RegReserved then
               (case l4dm_mem_open host cb rights s of
                  (None, s) \<Rightarrow> (ERROR_NOT_ENOUGH_MEMORY, s)
                | (Some ds, s) \<Rightarrow>
                    (let (_, s) = attach_ds_area host ds (ka_area v) rights pb s in
                     (0, if ka_shared v then snd (ExcClientMapDataspace host pb rights ds s) else s)))
             else (0, s))
           in if rc \<noteq> 0 then Some (rc, s)
              else if pb + cb \<le> addr + sz then Some (NO_ERROR, s)
              else commit_loop host v rights (addr + sz) (cb - (addr + sz - pb)) s))"

definition commit_pages :: "('s, 'd) rm_host \<Rightarrow> u32 \<Rightarrow> u32 \<Rightarrow> u32 \<Rightarrow> 's kmem \<Rightarrow> (u32 \<times> 's kmem) option" where
  "commit_pages host pb cb rights st = do {
     p \<leftarrow> kal_get_area pb st;
     if p = 0 then Some (ERROR_INVALID_ADDRESS, st)
     else do {
       v \<leftarrow> kheap st p;
       (rc, s) \<leftarrow> commit_loop host v rights pb cb (krm st);
       Some (rc, st\<lparr>krm := s\<rparr>) } }"

text \<open>A copy of a part of a dataspace, attached at \<open>a\<close>: the code and the state.\<close>

definition keep_part :: "('s, 'd) rm_host \<Rightarrow> karea \<Rightarrow> u32 \<Rightarrow> 'd \<Rightarrow> u32 \<Rightarrow> u32 \<Rightarrow> u32 \<Rightarrow> 's \<Rightarrow> u32 \<times> 's" where
  "keep_part host v rights ds offs a n s =
     (case l4dm_memphys_copy host ds offs n s of
        (None, s) \<Rightarrow> (ERROR_NOT_ENOUGH_MEMORY, s)
      | (Some ds', s) \<Rightarrow>
          (case l4rm_area_attach_to_region host ds' (ka_area v) a n rights s of
             (False, s) \<Rightarrow> (ERROR_NOT_ENOUGH_MEMORY, s)
           | (True, s) \<Rightarrow> (0, if ka_shared v then snd (ExcClientMapDataspace host a rights ds' s) else s)))"

text \<open>What \<open>decommit_pages\<close> does with a region that has a dataspace.\<close>

definition decommit_region :: "('s, 'd) rm_host \<Rightarrow> karea \<Rightarrow> u32 \<Rightarrow> u32 \<Rightarrow> u32 \<Rightarrow> 'd \<Rightarrow> u32 \<Rightarrow> u32 \<Rightarrow> 's \<Rightarrow> u32 \<times> 's" where
  "decommit_region host v rights pb cb ds addr sz s =
     (let s = l4rm_detach host addr s;
          s = (if ka_shared v then ExcClientUnmapDataspace host addr ds s else s);
          (rc, s) = (if addr < pb then keep_part host v rights ds 0 addr (pb - addr) s else (0, s))
      in if rc \<noteq> 0 then (rc, s)
         else let (rc, s) = (if pb + cb < addr + sz
                  then keep_part host v rights ds (pb + cb - addr) (pb + cb) (addr + sz - pb - cb) s else (0, s))
           in if rc \<noteq> 0 then (rc, s) else (0, l4dm_close host ds s))"

partial_function (option) decommit_loop :: "('s, 'd) rm_host \<Rightarrow> karea \<Rightarrow> u32 \<Rightarrow> u32 \<Rightarrow> u32 \<Rightarrow> 's \<Rightarrow> (u32 \<times> 's) option" where
  "decommit_loop host v rights pb cb s =
     (case l4rm_lookup_region host pb s of
        (RegError, _, _) \<Rightarrow> Some (ERROR_INVALID_ADDRESS, s)
      | (k, addr, sz) \<Rightarrow>
          (let (rc, s) = (case k of RegDataspace ds \<Rightarrow> decommit_region host v rights pb cb ds addr sz s | _ \<Rightarrow> (0, s))
           in if rc \<noteq> 0 then Some (rc, s)
              else if pb + cb \<le> addr + sz then Some (NO_ERROR, s)
              else decommit_loop host v rights (addr + sz) (cb - (addr + sz - pb)) s))"

definition decommit_pages :: "('s, 'd) rm_host \<Rightarrow> u32 \<Rightarrow> u32 \<Rightarrow> u32 \<Rightarrow> 's kmem \<Rightarrow> (u32 \<times> 's kmem) option" where
  "decommit_pages host pb cb rights st = do {
     p \<leftarrow> kal_get_area pb st;
     if p = 0 then Some (ERROR_INVALID_ADDRESS, st)
     else do {
       v \<leftarrow> kheap st p;
       (rc, s) \<leftarrow> decommit_loop host v rights pb cb (krm st);
       Some (rc, st\<lparr>krm := s\<rparr>) } }"

text \<open>Nothing is done when neither committing nor decommitting is asked for, whatever the rights.\<close>

definition KalSetMem :: "('s, 'd) rm_host \<Rightarrow> u32 \<Rightarrow> u32 \<Rightarrow> u32 \<Rightarrow> 's kmem \<Rightarrow> (u32 \<times> 's kmem) option" where
  "KalSetMem host pb cb flags st = do {
     p \<leftarrow> kal_get_area pb st;
     if p = 0 then Some (ERROR_INVALID_ADDRESS, st)
     else do {
       v \<leftarrow> kheap st p;
       let flags = (if flags AND PAG_DEFAULT \<noteq> 0 then flags OR ka_rights v else flags);
       let rights = dm_rights flags;
       if flags AND (PAG_DECOMMIT OR PAG_DEFAULT OR PAG_READ OR PAG_WRITE OR PAG_EXECUTE) = 0 then Some (ERROR_INVALID_PARAMETER, st)
       else if flags AND PAG_COMMIT \<noteq> 0 \<and> flags AND PAG_DECOMMIT \<noteq> 0 then Some (ERROR_INVALID_PARAMETER, st)
       else if flags AND PAG_COMMIT \<noteq> 0 then
         commit_pages host pb cb rights (st\<lparr>kheap := (kheap st)(p \<mapsto> v\<lparr>ka_rights := ka_rights v OR PAG_COMMIT\<rparr>)\<rparr>)
       else if flags AND PAG_DECOMMIT \<noteq> 0 then
         decommit_pages host pb cb rights (st\<lparr>kheap := (kheap st)(p \<mapsto> v\<lparr>ka_rights := ka_rights v AND NOT PAG_COMMIT\<rparr>)\<rparr>)
       else Some (NO_ERROR, st) } }"

section \<open>Queries\<close>

text \<open>The loop over the regions from \<open>base\<close> on: the flags and the size, or nothing for an address that cannot be looked up.\<close>

partial_function (option) query_loop :: "('s, 'd) rm_host \<Rightarrow> karea \<Rightarrow> u32 \<Rightarrow> u32 \<Rightarrow> u32 \<Rightarrow> u32 \<Rightarrow> 's \<Rightarrow> (u32 \<times> u32) option option" where
  "query_loop host v lim base rights totsize s =
     (case l4rm_lookup_region host base s of
        (RegError, _, _) \<Rightarrow> Some None
      | (RegOther, _, _) \<Rightarrow> Some None
      | (k, addr, sz) \<Rightarrow>
          (let (rights, totsize) = (case k of
               RegDataspace ds \<Rightarrow> (ka_rights v, if addr + sz \<le> lim then totsize + sz else totsize)
             | RegFree \<Rightarrow> (PAG_FREE, totsize)
             | _ \<Rightarrow> (rights, totsize))
           in if addr + sz < lim then query_loop host v lim (addr + sz) rights totsize s else Some (Some (rights, totsize))))"

text \<open>The code and what is stored to \<open>*pcb\<close> and \<open>*pflags\<close>; the null pointer is \<open>None\<close> and \<open>False\<close>.\<close>

definition KalQueryMem :: "('s, 'd) rm_host \<Rightarrow> u32 \<Rightarrow> u32 option \<Rightarrow> bool \<Rightarrow> 's kmem \<Rightarrow> (u32 \<times> (u32 \<times> u32) option) option" where
  "KalQueryMem host pb pcb pflags st =
     (case pcb of
        None \<Rightarrow> Some (ERROR_INVALID_PARAMETER, None)
      | Some cb \<Rightarrow>
          if \<not> pflags then Some (ERROR_INVALID_PARAMETER, None)
          else do {
            p \<leftarrow> kal_get_area pb st;
            if p = 0 then Some (ERROR_INVALID_ADDRESS, None)
            else do {
              v \<leftarrow> kheap st p;
              r \<leftarrow> query_loop host v (pb + cb) pb 0 0 (krm st);
              case r of
                None \<Rightarrow> Some (ERROR_INVALID_ADDRESS, None)
              | Some (rights, totsize) \<Rightarrow>
                  Some (NO_ERROR, Some (totsize, if sint (pb - ka_addr v) \<le> 4096 then rights OR PAG_BASE else rights)) } })"

end
