(* ===== verification/KalLaws.thy ===== *)
theory KalLaws
  imports KalMem
begin

text \<open>
  What is relied on of the host's region mapper and dataspace manager, as L4Env documents them: every address is free, reserved for an area, or
  shows a byte of a dataspace attached at the start of its region. On top of it, what the functions of \<open>KalMem\<close> do to
  the memory of an application.
\<close>

section \<open>The region mapper\<close>

datatype 'd cell = CFree | CReserved u32 | CMapped u32 'd u32 u32

text \<open>The addresses of a range.\<close>

definition within :: "u32 \<Rightarrow> u32 \<Rightarrow> u32 \<Rightarrow> bool" where
  "within a n x \<longleftrightarrow> x - a < n"

text \<open>A range of whole pages that does not reach the end of the address space.\<close>

definition pages :: "u32 \<Rightarrow> u32 \<Rightarrow> bool" where
  "pages a n \<longleftrightarrow> 4096 dvd unat a \<and> 4096 dvd unat n \<and> unat a + unat n < 2 ^ 32"

text \<open>
  The laws. \<open>ok\<close> holds of the states of the host, \<open>cell\<close> tells what is at an address and \<open>dsb\<close> the contents of dataspaces.
  Looking up an address finds its region; for a reserved address this is some part of the reserved range around it.
\<close>

definition lookup_law :: "('s, 'd) rm_host \<Rightarrow> ('s \<Rightarrow> bool) \<Rightarrow> ('s \<Rightarrow> u32 \<Rightarrow> 'd cell) \<Rightarrow> bool" where
  "lookup_law host ok cell \<longleftrightarrow> (\<forall>s a. ok s \<longrightarrow> (case cell s a of
     CFree \<Rightarrow> \<exists>k b n. l4rm_lookup_region host a s = (k, b, n) \<and> (\<forall>d. k \<noteq> RegDataspace d) \<and> k \<noteq> RegReserved
       \<and> (k = RegFree \<longrightarrow> pages b n \<and> within b n a \<and> (\<forall>x. within b n x \<longrightarrow> cell s x = CFree))
   | CReserved ar \<Rightarrow> \<exists>b n. l4rm_lookup_region host a s = (RegReserved, b, n) \<and> pages b n \<and> within b n a
       \<and> (\<forall>x. within b n x \<longrightarrow> cell s x = CReserved ar)
   | CMapped ar d b r \<Rightarrow> \<exists>n. l4rm_lookup_region host a s = (RegDataspace d, b, n) \<and> pages b n
       \<and> (\<forall>x. within b n x \<longleftrightarrow> cell s x = CMapped ar d b r)))"

text \<open>Detaching a region reserves it for its area again.\<close>

definition detach_law :: "('s, 'd) rm_host \<Rightarrow> ('s \<Rightarrow> bool) \<Rightarrow> ('s \<Rightarrow> u32 \<Rightarrow> 'd cell) \<Rightarrow> ('s \<Rightarrow> 'd \<Rightarrow> nat \<Rightarrow> u8) \<Rightarrow> bool" where
  "detach_law host ok cell dsb \<longleftrightarrow> (\<forall>s a ar d b r. ok s \<and> cell s a = CMapped ar d b r \<longrightarrow>
     ok (l4rm_detach host a s) \<and> dsb (l4rm_detach host a s) = dsb s
     \<and> cell (l4rm_detach host a s) = (\<lambda>x. if cell s x = CMapped ar d b r then CReserved ar else cell s x))"

text \<open>Attaching succeeds exactly when the dataspace is large enough and the whole range is reserved for the area; it is known not to be attached.\<close>

definition attach_law :: "('s, 'd) rm_host \<Rightarrow> ('s \<Rightarrow> bool) \<Rightarrow> ('s \<Rightarrow> u32 \<Rightarrow> 'd cell) \<Rightarrow> ('s \<Rightarrow> 'd \<Rightarrow> nat \<Rightarrow> u8) \<Rightarrow> bool" where
  "attach_law host ok cell dsb \<longleftrightarrow> (\<forall>s d ar a n r m. ok s \<and> l4dm_mem_size host d s = Some m \<and> n \<le> m \<and> 0 < n \<and> pages a n
       \<and> (\<forall>x ar b r. cell s x \<noteq> CMapped ar d b r) \<longrightarrow>
     (case l4rm_area_attach_to_region host d ar a n r s of (done, s') \<Rightarrow>
        ok s' \<and> dsb s' = dsb s \<and> done = (\<forall>x. within a n x \<longrightarrow> cell s x = CReserved ar)
        \<and> cell s' = (if done then (\<lambda>x. if within a n x then CMapped ar d a r else cell s x) else cell s)))"

text \<open>New dataspaces are attached nowhere and do not change others.\<close>

definition fresh_ds :: "('s, 'd) rm_host \<Rightarrow> ('s \<Rightarrow> bool) \<Rightarrow> ('s \<Rightarrow> u32 \<Rightarrow> 'd cell) \<Rightarrow> ('s \<Rightarrow> 'd \<Rightarrow> nat \<Rightarrow> u8) \<Rightarrow> u32 \<Rightarrow> 's \<Rightarrow> 'd option \<Rightarrow> 's \<Rightarrow> bool" where
  "fresh_ds host ok cell dsb n s r s' \<longleftrightarrow> ok s' \<and> cell s' = cell s \<and>
     (case r of None \<Rightarrow> dsb s' = dsb s
      | Some d \<Rightarrow> (\<forall>x ar b r. cell s x \<noteq> CMapped ar d b r) \<and> (\<forall>d'. d' \<noteq> d \<longrightarrow> dsb s' d' = dsb s d')
          \<and> (4096 dvd unat n \<longrightarrow> l4dm_mem_size host d s' = Some n))"

definition open_law :: "('s, 'd) rm_host \<Rightarrow> ('s \<Rightarrow> bool) \<Rightarrow> ('s \<Rightarrow> u32 \<Rightarrow> 'd cell) \<Rightarrow> ('s \<Rightarrow> 'd \<Rightarrow> nat \<Rightarrow> u8) \<Rightarrow> bool" where
  "open_law host ok cell dsb \<longleftrightarrow> (\<forall>s n r. ok s \<longrightarrow>
     fresh_ds host ok cell dsb n s (fst (l4dm_mem_open host n r s)) (snd (l4dm_mem_open host n r s)))"

definition copy_law :: "('s, 'd) rm_host \<Rightarrow> ('s \<Rightarrow> bool) \<Rightarrow> ('s \<Rightarrow> u32 \<Rightarrow> 'd cell) \<Rightarrow> ('s \<Rightarrow> 'd \<Rightarrow> nat \<Rightarrow> u8) \<Rightarrow> bool" where
  "copy_law host ok cell dsb \<longleftrightarrow> (\<forall>s d offs n. ok s \<longrightarrow>
     fresh_ds host ok cell dsb n s (fst (l4dm_memphys_copy host d offs n s)) (snd (l4dm_memphys_copy host d offs n s))
     \<and> (\<forall>d' s'. l4dm_memphys_copy host d offs n s = (Some d', s') \<longrightarrow>
          d' \<noteq> d \<and> (\<forall>i. i < unat n \<longrightarrow> dsb s' d' i = dsb s d (unat offs + i))))"

definition close_law :: "('s, 'd) rm_host \<Rightarrow> ('s \<Rightarrow> bool) \<Rightarrow> ('s \<Rightarrow> u32 \<Rightarrow> 'd cell) \<Rightarrow> ('s \<Rightarrow> 'd \<Rightarrow> nat \<Rightarrow> u8) \<Rightarrow> bool" where
  "close_law host ok cell dsb \<longleftrightarrow> (\<forall>s d. ok s \<and> (\<forall>x ar b r. cell s x \<noteq> CMapped ar d b r) \<longrightarrow>
     ok (l4dm_close host d s) \<and> cell (l4dm_close host d s) = cell s \<and> (\<forall>d'. d' \<noteq> d \<longrightarrow> dsb (l4dm_close host d s) d' = dsb s d'))"

text \<open>Reserving takes free pages for an area that is not in use; releasing an area frees what it has reserved.\<close>

definition reserve_law :: "('s, 'd) rm_host \<Rightarrow> ('s \<Rightarrow> bool) \<Rightarrow> ('s \<Rightarrow> u32 \<Rightarrow> 'd cell) \<Rightarrow> ('s \<Rightarrow> 'd \<Rightarrow> nat \<Rightarrow> u8) \<Rightarrow> bool" where
  "reserve_law host ok cell dsb \<longleftrightarrow> (\<forall>s n a ar s'. ok s \<and> 0 < n \<and> 4096 dvd unat n \<and> l4rm_area_reserve host n s = (RsvAt a ar, s') \<longrightarrow>
     ok s' \<and> dsb s' = dsb s \<and> pages a n \<and> (\<forall>x. within a n x \<longrightarrow> cell s x = CFree)
     \<and> (\<forall>x. cell s x \<noteq> CReserved ar \<and> (\<forall>d b r. cell s x \<noteq> CMapped ar d b r))
     \<and> cell s' = (\<lambda>x. if within a n x then CReserved ar else cell s x))"

definition release_law :: "('s, 'd) rm_host \<Rightarrow> ('s \<Rightarrow> bool) \<Rightarrow> ('s \<Rightarrow> u32 \<Rightarrow> 'd cell) \<Rightarrow> ('s \<Rightarrow> 'd \<Rightarrow> nat \<Rightarrow> u8) \<Rightarrow> bool" where
  "release_law host ok cell dsb \<longleftrightarrow> (\<forall>s a ar. ok s \<and> cell s a = CReserved ar \<and> (\<forall>x d b r. cell s x \<noteq> CMapped ar d b r) \<longrightarrow>
     (\<exists>s'. l4rm_area_release_addr host a s = (True, s') \<and> ok s' \<and> dsb s' = dsb s
        \<and> cell s' = (\<lambda>x. if cell s x = CReserved ar then CFree else cell s x)))"

definition region_mapper :: "('s, 'd) rm_host \<Rightarrow> ('s \<Rightarrow> bool) \<Rightarrow> ('s \<Rightarrow> u32 \<Rightarrow> 'd cell) \<Rightarrow> ('s \<Rightarrow> 'd \<Rightarrow> nat \<Rightarrow> u8) \<Rightarrow> bool" where
  "region_mapper host ok cell dsb \<longleftrightarrow> lookup_law host ok cell \<and> detach_law host ok cell dsb \<and> attach_law host ok cell dsb
     \<and> open_law host ok cell dsb \<and> copy_law host ok cell dsb \<and> close_law host ok cell dsb
     \<and> reserve_law host ok cell dsb \<and> release_law host ok cell dsb"

text \<open>What an application sees at an address.\<close>

datatype view = VFree | VReserved u32 | VByte u32 u8

definition view :: "('s \<Rightarrow> u32 \<Rightarrow> 'd cell) \<Rightarrow> ('s \<Rightarrow> 'd \<Rightarrow> nat \<Rightarrow> u8) \<Rightarrow> 's \<Rightarrow> u32 \<Rightarrow> view" where
  "view cell dsb s x = (case cell s x of CFree \<Rightarrow> VFree | CReserved ar \<Rightarrow> VReserved ar | CMapped ar d b r \<Rightarrow> VByte ar (dsb s d (unat (x - b))))"

text \<open>Each dataspace is attached at one place.\<close>

definition once :: "('s \<Rightarrow> u32 \<Rightarrow> 'd cell) \<Rightarrow> 's \<Rightarrow> bool" where
  "once cell s \<longleftrightarrow> (\<forall>x y ar d b r ar' b' r'. cell s x = CMapped ar d b r \<and> cell s y = CMapped ar' d b' r' \<longrightarrow> ar' = ar \<and> b' = b \<and> r' = r)"

section \<open>Ranges\<close>

lemma within_unat: "unat a + unat n < 2 ^ 32 \<Longrightarrow> within a n x \<longleftrightarrow> unat a \<le> unat x \<and> unat x < unat a + unat n"
  using unsigned_less [where ?'a = nat and w = x] by (auto simp: within_def word_less_nat_alt unat_sub_if_size word_size)

lemma pages_within: "pages a n \<Longrightarrow> within a n x \<longleftrightarrow> unat a \<le> unat x \<and> unat x < unat a + unat n"
  by (simp add: pages_def within_unat)

lemma pages_end: "pages a n \<Longrightarrow> unat (a + n) = unat a + unat n"
  by (simp add: pages_def unat_word_ariths)

lemma within_start: "0 < n \<Longrightarrow> within a n a"
  by (simp add: within_def)

section \<open>Keeping a part of a region\<close>

lemma keep_part_run:
  assumes "region_mapper host ok cell dsb" and "ok s" and "\<not> ka_shared v" and "pages a n" and "0 < n"
    and "\<forall>x. within a n x \<longrightarrow> cell s x = CReserved (ka_area v)" and "fst (l4dm_memphys_copy host ds offs n s) \<noteq> None"
  obtains s' d' where "keep_part host v rights ds offs a n s = (0, s')" "ok s'" "d' \<noteq> ds" "\<forall>x ar b r. cell s x \<noteq> CMapped ar d' b r"
    "cell s' = (\<lambda>x. if within a n x then CMapped (ka_area v) d' a rights else cell s x)"
    "\<forall>d. d \<noteq> d' \<longrightarrow> dsb s' d = dsb s d" "\<forall>i. i < unat n \<longrightarrow> dsb s' d' i = dsb s ds (unat offs + i)"
proof -
  obtain d' s1 where c: "l4dm_memphys_copy host ds offs n s = (Some d', s1)" using assms(7) by (cases "l4dm_memphys_copy host ds offs n s") auto
  have "copy_law host ok cell dsb" "attach_law host ok cell dsb" using assms(1) by (simp_all add: region_mapper_def)
  note cl = this(1) [unfolded copy_law_def, rule_format, OF assms(2), of n ds offs] and al = this(2) [unfolded attach_law_def, rule_format]
  have f: "ok s1" "cell s1 = cell s" "\<forall>x ar b r. cell s x \<noteq> CMapped ar d' b r" "\<forall>d. d \<noteq> d' \<longrightarrow> dsb s1 d = dsb s d"
    "l4dm_mem_size host d' s1 = Some n" "d' \<noteq> ds" "\<forall>i. i < unat n \<longrightarrow> dsb s1 d' i = dsb s ds (unat offs + i)"
    using cl c assms(4) by (auto simp: fresh_ds_def pages_def)
  obtain dn s2 where t: "l4rm_area_attach_to_region host d' (ka_area v) a n rights s1 = (dn, s2)" by fastforce
  have al: "ok s2 \<and> dsb s2 = dsb s1 \<and> dn = (\<forall>x. within a n x \<longrightarrow> cell s1 x = CReserved (ka_area v))
        \<and> cell s2 = (if dn then (\<lambda>x. if within a n x then CMapped (ka_area v) d' a rights else cell s1 x) else cell s1)"
    using al [of s1 d' n n a "ka_area v" rights] f assms(4,5) t by simp
  then have dn: "dn" using f(2) assms(6) by simp
  with al have "cell s2 = (\<lambda>x. if within a n x then CMapped (ka_area v) d' a rights else cell s1 x)" by simp
  then have c2: "cell s2 = (\<lambda>x. if within a n x then CMapped (ka_area v) d' a rights else cell s x)" unfolding f(2) .
  show thesis
    by (rule that [of s2 d', OF _ _ f(6,3) c2]) (use c t dn al f(4,7) assms(3) in \<open>simp_all add: keep_part_def\<close>)
qed

end
