(* ===== verification/KalPages.thy ===== *)
theory KalPages
  imports KalLaws
begin

text \<open>
  Committing and decommitting pages of an application: \<open>decommit_pages\<close> takes exactly the pages of its range away and keeps
  the contents of all others, and \<open>commit_pages\<close> commits a range that is reserved as a whole, but nothing when a part of
  it has memory already.
\<close>

section \<open>Decommitting\<close>

lemma once_cong: "once cell s \<Longrightarrow> cell s' = cell s \<Longrightarrow> once cell s'"
  by (simp add: once_def)

lemma view_cong:
  "cell s' x = cell s x \<Longrightarrow> (\<And>ar d b r. cell s x = CMapped ar d b r \<Longrightarrow> dsb s' d = dsb s d) \<Longrightarrow> view cell dsb s' x = view cell dsb s x"
  by (cases "cell s x") (simp_all add: view_def)

lemma view_reserved: "view cell dsb s x = VReserved ar \<longleftrightarrow> cell s x = CReserved ar"
  by (cases "cell s x") (simp_all add: view_def)

lemma keep_opt:
  assumes rm: "region_mapper host ok cell dsb" and "ok s" and "\<not> ka_shared v" and "once cell s"
    and "n \<noteq> 0 \<Longrightarrow> pages a n \<and> (\<forall>x. within a n x \<longrightarrow> cell s x = CReserved (ka_area v))"
    and cp: "\<forall>s ds offs n. ok s \<longrightarrow> fst (l4dm_memphys_copy host ds offs n s) \<noteq> None"
  obtains s' where "(if n \<noteq> 0 then keep_part host v rights ds offs a n s else (0, s)) = (0, s')" "ok s'" "once cell s'"
    "\<forall>x. within a n x \<longrightarrow> (\<exists>d'. cell s' x = CMapped (ka_area v) d' a rights \<and> d' \<noteq> ds)
       \<and> view cell dsb s' x = VByte (ka_area v) (dsb s ds (unat offs + unat (x - a)))"
    "\<forall>x. \<not> within a n x \<longrightarrow> cell s' x = cell s x \<and> view cell dsb s' x = view cell dsb s x" "dsb s' ds = dsb s ds"
proof (cases "n = 0")
  case True
  with assms(2,4) that [of s] show thesis by (simp add: within_def)
next
  case False
  then have n: "0 < n" "pages a n" "\<forall>x. within a n x \<longrightarrow> cell s x = CReserved (ka_area v)"
    using assms(5) by (simp_all add: word_neq_0_conv)
  obtain s' d' where k: "keep_part host v rights ds offs a n s = (0, s')" "ok s'" "d' \<noteq> ds" "\<forall>x ar b r. cell s x \<noteq> CMapped ar d' b r"
    "cell s' = (\<lambda>x. if within a n x then CMapped (ka_area v) d' a rights else cell s x)"
    "\<forall>d. d \<noteq> d' \<longrightarrow> dsb s' d = dsb s d" "\<forall>i. i < unat n \<longrightarrow> dsb s' d' i = dsb s ds (unat offs + i)"
    using keep_part_run [OF rm assms(2,3) n(2,1,3), of ds offs] cp assms(2) by blast
  have v: "view cell dsb s' x = view cell dsb s x" if "\<not> within a n x" for x
    by (rule view_cong) (use that k(4,5,6) in \<open>simp, metis\<close>)
  have o: "once cell s'" using assms(4) k(4) unfolding once_def k(5) by (auto split: if_splits)
  show thesis
    by (rule that [of s', OF _ k(2) o])
      (use False k v in \<open>auto simp: view_def within_def word_less_nat_alt\<close>)
qed

text \<open>Looking up an address of a mapped region, and what detaching it does.\<close>

lemma lookup_mapped:
  assumes "region_mapper host ok cell dsb" and "ok s" and "cell s a = CMapped ar d b r"
  obtains n where "l4rm_lookup_region host a s = (RegDataspace d, b, n)" "pages b n"
    "\<forall>x. within b n x \<longleftrightarrow> cell s x = CMapped ar d b r"
proof -
  have "lookup_law host ok cell" using assms(1) by (simp add: region_mapper_def)
  from this [unfolded lookup_law_def, rule_format, OF assms(2), of a] assms(3) that show thesis by auto
qed

lemma lookup_reserved:
  assumes "region_mapper host ok cell dsb" and "ok s" and "cell s a = CReserved ar"
  obtains b n where "l4rm_lookup_region host a s = (RegReserved, b, n)" "pages b n" "within b n a"
    "\<forall>x. within b n x \<longrightarrow> cell s x = CReserved ar"
proof -
  have "lookup_law host ok cell" using assms(1) by (simp add: region_mapper_def)
  from this [unfolded lookup_law_def, rule_format, OF assms(2), of a] assms(3) that show thesis by auto
qed

lemma detached:
  assumes "region_mapper host ok cell dsb" and "ok s" and "cell s a = CMapped ar d b r"
    and "\<forall>x. within b n x \<longleftrightarrow> cell s x = CMapped ar d b r"
  shows "ok (l4rm_detach host a s)" and "dsb (l4rm_detach host a s) = dsb s"
    and "cell (l4rm_detach host a s) x = (if within b n x then CReserved ar else cell s x)"
proof -
  have l: "detach_law host ok cell dsb" using assms(1) by (simp add: region_mapper_def)
  note l = l [unfolded detach_law_def, rule_format, OF conjI, OF assms(2,3)]
  show "ok (l4rm_detach host a s)" "dsb (l4rm_detach host a s) = dsb s" using l by blast+
  have "cell (l4rm_detach host a s) = (\<lambda>x. if cell s x = CMapped ar d b r then CReserved ar else cell s x)" using l by blast
  then show "cell (l4rm_detach host a s) x = (if within b n x then CReserved ar else cell s x)" using assms(4) by simp
qed

text \<open>The parts of a region before and behind a hole.\<close>

lemma hole_parts:
  assumes "pages b n" and "pages pb cb" and "within b n pb"
  shows "unat (pb - b) = unat pb - unat b" and "pages b (pb - b)" and "unat (pb + cb) = unat pb + unat cb"
    and "(pb + cb < b + n) = (unat pb + unat cb < unat b + unat n)"
    and "pb + cb < b + n \<Longrightarrow> unat (b + n - pb - cb) = unat b + unat n - unat pb - unat cb \<and> pages (pb + cb) (b + n - pb - cb)"
    and "b < pb \<longleftrightarrow> pb - b \<noteq> 0" and "unat b \<le> unat pb"
proof -
  have p: "unat b \<le> unat pb" "unat pb < unat b + unat n" using assms by (simp_all add: pages_within)
  note e = pages_end [OF assms(1)] pages_end [OF assms(2)]
  have d: "unat (pb - b) = unat pb - unat b" using p by (simp add: unat_sub_if_size)
  then show "unat (pb - b) = unat pb - unat b" .
  show "pages b (pb - b)" using assms(1,2) p d by (auto simp: pages_def)
  show "unat (pb + cb) = unat pb + unat cb" using e by simp
  show "(pb + cb < b + n) = (unat pb + unat cb < unat b + unat n)" using e by (simp add: word_less_nat_alt)
  have "b \<le> pb" using p by (simp add: word_le_nat_alt)
  then show "b < pb \<longleftrightarrow> pb - b \<noteq> 0" by auto
  show "unat b \<le> unat pb" by (rule p)
  assume l: "pb + cb < b + n"
  have "unat (b + n - (pb + cb)) = unat b + unat n - (unat pb + unat cb)"
    using l e by (simp add: unat_sub_if_size word_less_nat_alt)
  then have u: "unat (b + n - pb - cb) = unat b + unat n - unat pb - unat cb" by (simp add: diff_diff_eq)
  moreover have "4096 dvd unat b + unat n - unat pb - unat cb" "4096 dvd unat pb + unat cb"
    using assms(1,2) by (simp_all add: pages_def)
  ultimately show "unat (b + n - pb - cb) = unat b + unat n - unat pb - unat cb \<and> pages (pb + cb) (b + n - pb - cb)"
    using assms(1) e l by (simp add: pages_def word_less_nat_alt)
qed

lemma decommit_region_run:
  assumes rm: "region_mapper host ok cell dsb" and "ok s" and ns: "\<not> ka_shared v" and "once cell s"
    and cp: "\<forall>s ds offs n. ok s \<longrightarrow> fst (l4dm_memphys_copy host ds offs n s) \<noteq> None"
    and pg: "pages b n" "pages pb cb" and wp: "within b n pb"
    and reg: "\<forall>x. within b n x \<longleftrightarrow> cell s x = CMapped (ka_area v) d b q"
  obtains s' where "decommit_region host v rights pb cb d b n s = (0, s')" "ok s'" "once cell s'"
    "\<forall>x. within b n x \<and> within pb cb x \<longrightarrow> cell s' x = CReserved (ka_area v)"
    "\<forall>x. within b n x \<and> \<not> within pb cb x \<longrightarrow> (\<exists>d' b'. cell s' x = CMapped (ka_area v) d' b' rights) \<and> view cell dsb s' x = view cell dsb s x"
    "\<forall>x. \<not> within b n x \<longrightarrow> cell s' x = cell s x \<and> view cell dsb s' x = view cell dsb s x"
proof -
  let ?ar = "ka_area v" and ?n1 = "pb - b" and ?n2 = "if pb + cb < b + n then b + n - pb - cb else 0"
  note h = hole_parts [OF pg wp]
  note w = pages_within [OF pg(1)] pages_within [OF pg(2)]
  have w1: "within b ?n1 x \<longleftrightarrow> unat b \<le> unat x \<and> unat x < unat pb" for x using pages_within [OF h(2)] h(1,7) by simp
  have w2: "within (pb + cb) ?n2 x \<longleftrightarrow> unat pb + unat cb \<le> unat x \<and> unat x < unat b + unat n" for x
  proof (cases "pb + cb < b + n")
    case True
    then show ?thesis using h(3,4) h(5) [OF True] pages_within [of "pb + cb" "b + n - pb - cb" x] by auto
  next
    case False
    then show ?thesis using h(4) by (auto simp: within_def)
  qed
  have "n \<noteq> 0" using wp unfolding within_def by (metis word_not_simps(1))
  then have m: "cell s b = CMapped ?ar d b q" using reg within_start [of n b] unfolding word_gt_0 by blast
  define s1 where "s1 = l4rm_detach host b s"
  have s1: "ok s1" "dsb s1 = dsb s" "cell s1 x = (if within b n x then CReserved ?ar else cell s x)" for x
    using detached [OF rm assms(2) m reg] by (simp_all add: s1_def)
  have o1: "once cell s1" using assms(4) by (auto simp: once_def s1(3) split: if_splits)
  have free: "cell s1 x \<noteq> CMapped ar d b' r" for x ar b' r
  proof
    assume c: "cell s1 x = CMapped ar d b' r"
    then have nw: "\<not> within b n x" and cx: "cell s x = CMapped ar d b' r" unfolding s1(3) by (simp_all split: if_splits)
    with assms(4) m have "ar = ?ar \<and> b' = b \<and> r = q" unfolding once_def by blast
    with nw cx reg show False by blast
  qed
  have p1: "?n1 \<noteq> 0 \<Longrightarrow> pages b ?n1 \<and> (\<forall>x. within b ?n1 x \<longrightarrow> cell s1 x = CReserved ?ar)"
    using h(2) w w1 s1(3) wp by auto
  obtain s2 where s2: "(if ?n1 \<noteq> 0 then keep_part host v rights d 0 b ?n1 s1 else (0, s1)) = (0, s2)" "ok s2" "once cell s2"
    "\<forall>x. within b ?n1 x \<longrightarrow> (\<exists>d'. cell s2 x = CMapped ?ar d' b rights \<and> d' \<noteq> d)
       \<and> view cell dsb s2 x = VByte ?ar (dsb s1 d (unat (0::u32) + unat (x - b)))"
    "\<forall>x. \<not> within b ?n1 x \<longrightarrow> cell s2 x = cell s1 x \<and> view cell dsb s2 x = view cell dsb s1 x" "dsb s2 d = dsb s1 d"
    by (rule keep_opt [OF rm s1(1) ns o1 p1 cp, of rights d 0])
  have r2: "cell s2 x = CReserved ?ar" if "within (pb + cb) ?n2 x" for x
    using that s2(5) w w1 s1(3) w2 h(7) by auto
  have p2: "?n2 \<noteq> 0 \<Longrightarrow> pages (pb + cb) ?n2 \<and> (\<forall>x. within (pb + cb) ?n2 x \<longrightarrow> cell s2 x = CReserved ?ar)"
    using h(5) r2 by (auto split: if_splits)
  obtain s3 where s3: "(if ?n2 \<noteq> 0 then keep_part host v rights d (pb + cb - b) (pb + cb) ?n2 s2 else (0, s2)) = (0, s3)" "ok s3" "once cell s3"
    "\<forall>x. within (pb + cb) ?n2 x \<longrightarrow> (\<exists>d'. cell s3 x = CMapped ?ar d' (pb + cb) rights \<and> d' \<noteq> d)
       \<and> view cell dsb s3 x = VByte ?ar (dsb s2 d (unat (pb + cb - b) + unat (x - (pb + cb))))"
    "\<forall>x. \<not> within (pb + cb) ?n2 x \<longrightarrow> cell s3 x = cell s2 x \<and> view cell dsb s3 x = view cell dsb s2 x" "dsb s3 d = dsb s2 d"
    by (rule keep_opt [OF rm s2(2) ns s2(3) p2 cp, of rights d "pb + cb - b"])
  have free3: "cell s3 x \<noteq> CMapped ar d b' r" for x ar b' r
  proof (cases "within (pb + cb) ?n2 x")
    case False
    show ?thesis
    proof (cases "within b ?n1 x")
      case False
      with \<open>\<not> within (pb + cb) ?n2 x\<close> s2(5) s3(5) free show ?thesis by simp
    qed (use False s2(4) s3(5) in auto)
  qed (use s3(4) in auto)
  have close: "close_law host ok cell dsb" using rm by (simp add: region_mapper_def)
  define s4 where "s4 = l4dm_close host d s3"
  have s4: "ok s4" "cell s4 = cell s3" "\<forall>d'. d' \<noteq> d \<longrightarrow> dsb s4 d' = dsb s3 d'"
    using close [unfolded close_law_def, rule_format, of s3 d] s3(2) free3 by (simp_all add: s4_def)
  have v4: "view cell dsb s4 x = view cell dsb s3 x" for x
    by (rule view_cong) (use s4(2,3) free3 in \<open>simp, metis\<close>)
  have vs: "view cell dsb s x = VByte ?ar (dsb s d (unat (x - b)))" if "within b n x" for x
    using that reg by (simp add: view_def)
  have run: "decommit_region host v rights pb cb d b n s = (0, s4)"
    using s2(1) s3(1) h(6) ns by (auto simp: decommit_region_def Let_def s1_def [symmetric] s4_def split: if_splits)
  have o4: "once cell s4" by (rule once_cong [OF s3(3) s4(2)])
  have hole: "cell s4 x = CReserved ?ar" if "within b n x" "within pb cb x" for x
  proof -
    have "\<not> within b ?n1 x" "\<not> within (pb + cb) ?n2 x" using that(2) w w1 w2 by auto
    then show ?thesis using s2(5) s3(5) s4(2) s1(3) that(1) by simp
  qed
  have out: "cell s4 x = cell s x \<and> view cell dsb s4 x = view cell dsb s x" if "\<not> within b n x" for x
  proof -
    have "\<not> within b ?n1 x" "\<not> within (pb + cb) ?n2 x" using that w w1 w2 h(7) wp by auto
    then have c: "cell s4 x = cell s1 x" "view cell dsb s4 x = view cell dsb s1 x" using s2(5) s3(5) s4(2) v4 by simp_all
    have "cell s1 x = cell s x" using that s1(3) by simp
    moreover from this have "view cell dsb s1 x = view cell dsb s x" by (rule view_cong) (simp add: s1(2))
    ultimately show ?thesis using c by simp
  qed
  have kept: "(\<exists>d' b'. cell s4 x = CMapped ?ar d' b' rights) \<and> view cell dsb s4 x = view cell dsb s x"
    if "within b n x" "\<not> within pb cb x" for x
  proof (cases "within b ?n1 x")
    case True
    then have "\<not> within (pb + cb) ?n2 x" using w1 w2 by auto
    with True s2(4) s3(5) s4(2) v4 s1(2) vs that(1) show ?thesis by auto
  next
    case False
    then have i: "within (pb + cb) ?n2 x" using that w w1 w2 by auto
    then have "unat (pb + cb - b) + unat (x - (pb + cb)) = unat (x - b)"
      using w2 h(3,7) by (simp add: unat_sub_if_size)
    with i s3(4) s4(2) v4 s1(2) s2(6) vs that(1) show ?thesis by auto
  qed
  show thesis by (rule that [OF run s4(1) o4]) (use hole kept out in blast)+
qed

text \<open>What is left of a range behind the region of its first address.\<close>

lemma range_rest:
  assumes "pages b n" and "pages pb cb" and "within b n pb" and "\<not> pb + cb \<le> b + n"
  defines "cb' \<equiv> cb - (b + n - pb)"
  shows "pages (b + n) cb'" and "0 < cb'" and "unat cb' < unat cb" and "within (b + n) cb' x \<longleftrightarrow> within pb cb x \<and> \<not> within b n x"
proof -
  note h = hole_parts [OF assms(1-3)]
  have p: "unat b \<le> unat pb" "unat pb < unat b + unat n" using assms(1,3) by (simp_all add: pages_within)
  note e = pages_end [OF assms(1)] pages_end [OF assms(2)]
  have g: "unat b + unat n < unat pb + unat cb" using assms(4) e by (simp add: word_le_nat_alt)
  have d: "unat (b + n - pb) = unat b + unat n - unat pb" using p e by (simp add: unat_sub_if_size)
  have "b + n - pb \<le> cb" using g p d by (simp add: word_le_nat_alt)
  then have "unat cb' = unat cb - unat (b + n - pb)" unfolding cb'_def by (rule unat_sub)
  with g p d have u: "unat cb' = unat pb + unat cb - (unat b + unat n)" by linarith
  have "4096 dvd unat pb + unat cb - (unat b + unat n)" "4096 dvd unat b + unat n" using assms(1,2) by (simp_all add: pages_def)
  then show pg: "pages (b + n) cb'" using u e g assms(2) by (simp add: pages_def)
  show "0 < cb'" "unat cb' < unat cb" using u g p by (simp_all add: word_less_nat_alt)
  show "within (b + n) cb' x \<longleftrightarrow> within pb cb x \<and> \<not> within b n x"
    using pages_within [OF pg] pages_within [OF assms(1)] pages_within [OF assms(2)] u e g p by auto
qed

lemma range_inside: "pages b n \<Longrightarrow> pages pb cb \<Longrightarrow> within b n pb \<Longrightarrow> pb + cb \<le> b + n \<Longrightarrow> within pb cb x \<Longrightarrow> within b n x"
  using pages_end [of b n] pages_end [of pb cb] by (auto simp: pages_within word_le_nat_alt)

text \<open>The addresses that share a region with one of the range.\<close>

definition touched :: "('s \<Rightarrow> u32 \<Rightarrow> 'd cell) \<Rightarrow> 's \<Rightarrow> u32 \<Rightarrow> u32 \<Rightarrow> u32 \<Rightarrow> bool" where
  "touched cell s pb cb x \<longleftrightarrow> (\<exists>y ar d b q. within pb cb y \<and> cell s y = CMapped ar d b q \<and> cell s x = CMapped ar d b q)"

lemma decommit_loop_run:
  assumes rm: "region_mapper host ok cell dsb" and ns: "\<not> ka_shared v"
    and cp: "\<forall>s ds offs n. ok s \<longrightarrow> fst (l4dm_memphys_copy host ds offs n s) \<noteq> None"
  shows "ok s \<Longrightarrow> once cell s \<Longrightarrow> pages pb cb \<Longrightarrow> 0 < cb
    \<Longrightarrow> \<forall>x. within pb cb x \<longrightarrow> cell s x = CReserved (ka_area v) \<or> (\<exists>d b q. cell s x = CMapped (ka_area v) d b q)
    \<Longrightarrow> \<exists>s'. decommit_loop host v rights pb cb s = Some (NO_ERROR, s') \<and> ok s' \<and> once cell s' \<and>
      (\<forall>x. if within pb cb x then cell s' x = CReserved (ka_area v)
           else view cell dsb s' x = view cell dsb s x
             \<and> (if touched cell s pb cb x then \<exists>d b. cell s' x = CMapped (ka_area v) d b rights else cell s' x = cell s x))"
proof (induction "unat cb" arbitrary: cb pb s rule: less_induct)
  case less
  let ?ar = "ka_area v"
  have wp: "within pb cb pb" using less.prems(4) by (simp add: within_start)
  obtain k b n s1 where st: "decommit_loop host v rights pb cb s = (if pb + cb \<le> b + n then Some (NO_ERROR, s1) else decommit_loop host v rights (b + n) (cb - (b + n - pb)) s1)"
    and pg: "pages b n" and wb: "within b n pb" and s1: "ok s1" "once cell s1"
    "\<forall>x. within b n x \<and> within pb cb x \<longrightarrow> cell s1 x = CReserved ?ar"
    "\<forall>x. within b n x \<and> \<not> within pb cb x \<longrightarrow> view cell dsb s1 x = view cell dsb s x
       \<and> (if touched cell s pb cb x then \<exists>d b. cell s1 x = CMapped ?ar d b rights else cell s1 x = cell s x)"
    "\<forall>x. \<not> within b n x \<longrightarrow> cell s1 x = cell s x \<and> view cell dsb s1 x = view cell dsb s x"
    and whole: "\<forall>x y ar d b' q. within b n y \<and> cell s y = CMapped ar d b' q \<and> cell s x = CMapped ar d b' q \<longrightarrow> within b n x"
  proof -
    consider "cell s pb = CReserved ?ar" | d b q where "cell s pb = CMapped ?ar d b q" using less.prems(5) wp by blast
    then show thesis
    proof cases
      case 1
      from lookup_reserved [OF rm less.prems(1) 1] obtain b n where l: "l4rm_lookup_region host pb s = (RegReserved, b, n)"
        "pages b n" "within b n pb" "\<forall>x. within b n x \<longrightarrow> cell s x = CReserved ?ar" by metis
      show thesis
      proof (rule that [of b n s, OF _ l(2,3) less.prems(1,2)])
        show "decommit_loop host v rights pb cb s = (if pb + cb \<le> b + n then Some (NO_ERROR, s) else decommit_loop host v rights (b + n) (cb - (b + n - pb)) s)"
          by (subst decommit_loop.simps) (simp add: l(1))
      qed (use l(4) in \<open>auto simp: touched_def\<close>)
    next
      case (2 d b q)
      from lookup_mapped [OF rm less.prems(1) 2] obtain n where l: "l4rm_lookup_region host pb s = (RegDataspace d, b, n)" "pages b n"
        "\<forall>x. within b n x \<longleftrightarrow> cell s x = CMapped ?ar d b q" by metis
      have wb: "within b n pb" using l(3) 2 by blast
      obtain s1 where s1: "decommit_region host v rights pb cb d b n s = (0, s1)" "ok s1" "once cell s1"
        "\<forall>x. within b n x \<and> within pb cb x \<longrightarrow> cell s1 x = CReserved ?ar"
        "\<forall>x. within b n x \<and> \<not> within pb cb x \<longrightarrow> (\<exists>d' b'. cell s1 x = CMapped ?ar d' b' rights) \<and> view cell dsb s1 x = view cell dsb s x"
        "\<forall>x. \<not> within b n x \<longrightarrow> cell s1 x = cell s x \<and> view cell dsb s1 x = view cell dsb s x"
        using decommit_region_run [OF rm less.prems(1) ns less.prems(2) cp l(2) less.prems(3) wb l(3)] by metis
      have pbc: "cell s x = cell s pb" if "within b n x" for x using that l(3) 2 by simp
      show thesis
      proof (rule that [of b n s1, OF _ l(2) wb s1(2,3,4) _ s1(6)])
        show "decommit_loop host v rights pb cb s = (if pb + cb \<le> b + n then Some (NO_ERROR, s1) else decommit_loop host v rights (b + n) (cb - (b + n - pb)) s1)"
          by (subst decommit_loop.simps) (simp add: l(1) s1(1))
        have "touched cell s pb cb x" if "within b n x" for x
          using wp 2 pbc [OF that] unfolding touched_def by metis
        then show "\<forall>x. within b n x \<and> \<not> within pb cb x \<longrightarrow> view cell dsb s1 x = view cell dsb s x
           \<and> (if touched cell s pb cb x then \<exists>d b. cell s1 x = CMapped ?ar d b rights else cell s1 x = cell s x)"
          using s1(5) by simp
        show "\<forall>x y ar d b' q. within b n y \<and> cell s y = CMapped ar d b' q \<and> cell s x = CMapped ar d b' q \<longrightarrow> within b n x"
          using l(3) by metis
      qed
    qed
  qed
  show ?case
  proof (cases "pb + cb \<le> b + n")
    case True
    have i: "within b n x" if "within pb cb x" for x using range_inside [OF pg less.prems(3) wb True that] .
    have "\<not> touched cell s pb cb x" if "\<not> within b n x" for x using that whole i unfolding touched_def by blast
    with i s1 have "if within pb cb x then cell s1 x = CReserved ?ar
        else view cell dsb s1 x = view cell dsb s x \<and> (if touched cell s pb cb x then \<exists>d b. cell s1 x = CMapped ?ar d b rights else cell s1 x = cell s x)" for x
      by (cases "within b n x") auto
    then show ?thesis using st True s1(1,2) by auto
  next
    case False
    note r = range_rest [OF pg less.prems(3) wb False]
    have "\<forall>x. within (b + n) (cb - (b + n - pb)) x \<longrightarrow> cell s1 x = CReserved ?ar \<or> (\<exists>d b q. cell s1 x = CMapped ?ar d b q)"
      using r(4) s1(5) less.prems(5) by simp
    from less.hyps [OF r(3) s1(1,2) r(1,2) this] obtain s' where
      s': "decommit_loop host v rights (b + n) (cb - (b + n - pb)) s1 = Some (NO_ERROR, s')" "ok s'" "once cell s'"
      "\<forall>x. if within (b + n) (cb - (b + n - pb)) x then cell s' x = CReserved ?ar
           else view cell dsb s' x = view cell dsb s1 x
             \<and> (if touched cell s1 (b + n) (cb - (b + n - pb)) x then \<exists>d b. cell s' x = CMapped ?ar d b rights else cell s' x = cell s1 x)"
      by blast
    show ?thesis
    proof (intro exI [of _ s'] conjI allI)
      show "decommit_loop host v rights pb cb s = Some (NO_ERROR, s')" using st False s'(1) by simp
      show "ok s'" "once cell s'" by (rule s'(2,3))+
      fix x
      let ?t = "touched cell s pb cb x" and ?t1 = "touched cell s1 (b + n) (cb - (b + n - pb)) x"
      have up: "?t" if "?t1" "cell s1 x = cell s x"
        using that r(4) s1(5) unfolding touched_def by metis
      show "if within pb cb x then cell s' x = CReserved ?ar
         else view cell dsb s' x = view cell dsb s x \<and> (if ?t then \<exists>d b. cell s' x = CMapped ?ar d b rights else cell s' x = cell s x)"
      proof (cases "within (b + n) (cb - (b + n - pb)) x")
        case True
        with s'(4) r(4) show ?thesis by simp
      next
        case F: False
        then have a: "view cell dsb s' x = view cell dsb s1 x" "if ?t1 then \<exists>d b. cell s' x = CMapped ?ar d b rights else cell s' x = cell s1 x"
          using s'(4) by auto
        show ?thesis
        proof (cases "within pb cb x")
          case True
          then have "cell s1 x = CReserved ?ar" using F r(4) s1(3) by blast
          with a(1) True show ?thesis by (metis view_reserved)
        next
          case False
          show ?thesis
          proof (cases "within b n x")
            case True
            then have b: "view cell dsb s1 x = view cell dsb s x" "if ?t then \<exists>d b. cell s1 x = CMapped ?ar d b rights else cell s1 x = cell s x"
              using False s1(4) by blast+
            show ?thesis
            proof (cases ?t)
              case T: True
              then have "\<exists>d b. cell s1 x = CMapped ?ar d b rights" using b(2) by simp
              with T a b(1) False show ?thesis by (simp split: if_splits)
            next
              case T: False
              then have "cell s1 x = cell s x" using b(2) by simp
              moreover from this T up have "\<not> ?t1" by blast
              ultimately show ?thesis using T a b(1) False by simp
            qed
          next
            case out: False
            then have b: "cell s1 x = cell s x" "view cell dsb s1 x = view cell dsb s x" using s1(5) by blast+
            have "?t1" if "?t"
              using that out whole r(4) s1(5) b(1) unfolding touched_def by metis
            with up b(1) have "?t1 = ?t" by blast
            with a b False show ?thesis by (simp split: if_splits)
          qed
        qed
      qed
    qed
  qed
qed

section \<open>Committing\<close>

text \<open>A new dataspace attached to a range: all of it is mapped if all of it was reserved, and nothing changes otherwise.\<close>

lemma attach_new:
  assumes rm: "region_mapper host ok cell dsb" and "ok s" and "pages pb cb" and "0 < cb" and "fst (l4dm_mem_open host cb r s) \<noteq> None"
  obtains d s1 s2 where "l4dm_mem_open host cb r s = (Some d, s1)" "attach_ds_area host d ar r pb s1 = (0, s2)" "ok s2"
    "\<forall>x ar b q. cell s x \<noteq> CMapped ar d b q"
    "\<forall>x. cell s2 x = (if (\<forall>y. within pb cb y \<longrightarrow> cell s y = CReserved ar) \<and> within pb cb x then CMapped ar d pb r else cell s x)"
    "\<forall>d'. d' \<noteq> d \<longrightarrow> dsb s2 d' = dsb s d'"
proof -
  obtain d s1 where o: "l4dm_mem_open host cb r s = (Some d, s1)" using assms(5) by (cases "l4dm_mem_open host cb r s") auto
  have "open_law host ok cell dsb" "attach_law host ok cell dsb" using rm by (simp_all add: region_mapper_def)
  note ol = this(1) [unfolded open_law_def, rule_format, OF assms(2), of cb r] and al = this(2) [unfolded attach_law_def, rule_format]
  have f: "ok s1" "cell s1 = cell s" "\<forall>x ar b r. cell s x \<noteq> CMapped ar d b r" "\<forall>d'. d' \<noteq> d \<longrightarrow> dsb s1 d' = dsb s d'"
    "l4dm_mem_size host d s1 = Some cb"
    using ol o assms(3) by (auto simp: fresh_ds_def pages_def)
  obtain dn s2 where t: "l4rm_area_attach_to_region host d ar pb cb r s1 = (dn, s2)" by fastforce
  have a: "ok s2 \<and> dsb s2 = dsb s1 \<and> dn = (\<forall>x. within pb cb x \<longrightarrow> cell s1 x = CReserved ar)
        \<and> cell s2 = (if dn then (\<lambda>x. if within pb cb x then CMapped ar d pb r else cell s1 x) else cell s1)"
    using al [of s1 d cb cb pb ar r] f assms(3,4) t by simp
  have r: "attach_ds_area host d ar r pb s1 = (0, s2)" using t f(5) by (simp add: attach_ds_area_def)
  have c: "cell s2 x = (if (\<forall>y. within pb cb y \<longrightarrow> cell s y = CReserved ar) \<and> within pb cb x then CMapped ar d pb r else cell s x)" for x
    using a unfolding f(2) by auto
  show thesis by (rule that [OF o r _ f(3)]) (use a c f(4) in simp_all)
qed

definition reserved_from :: "('s \<Rightarrow> u32 \<Rightarrow> 'd cell) \<Rightarrow> u32 \<Rightarrow> 's \<Rightarrow> u32 \<Rightarrow> u32 \<Rightarrow> u32 \<Rightarrow> bool" where
  "reserved_from cell ar s pb cb x \<longleftrightarrow> within pb cb x \<and> (\<forall>y. within pb cb y \<and> x \<le> y \<longrightarrow> cell s y = CReserved ar)"

text \<open>The loop commits the addresses from which on everything is reserved, and only these.\<close>

lemma commit_loop_run:
  assumes rm: "region_mapper host ok cell dsb" and ns: "\<not> ka_shared v"
    and op: "\<forall>s n r. ok s \<longrightarrow> fst (l4dm_mem_open host n r s) \<noteq> None"
  shows "ok s \<Longrightarrow> pages pb cb \<Longrightarrow> 0 < cb
    \<Longrightarrow> \<forall>x. within pb cb x \<longrightarrow> cell s x = CReserved (ka_area v) \<or> (\<exists>ar d b q. cell s x = CMapped ar d b q)
    \<Longrightarrow> \<exists>s'. commit_loop host v rights pb cb s = Some (NO_ERROR, s') \<and> ok s' \<and>
      (\<forall>x. if reserved_from cell (ka_area v) s pb cb x then \<exists>d b. cell s' x = CMapped (ka_area v) d b rights
           else cell s' x = cell s x \<and> view cell dsb s' x = view cell dsb s x)"
proof (induction "unat cb" arbitrary: cb pb s rule: less_induct)
  case less
  let ?ar = "ka_area v" and ?all = "\<forall>y. within pb cb y \<longrightarrow> cell s y = CReserved (ka_area v)"
  have wp: "within pb cb pb" using less.prems(3) by (simp add: within_start)
  have pbx: "pb \<le> x" if "within pb cb x" for x using that less.prems(2) by (simp add: pages_within word_le_nat_alt)
  obtain b n s1 where st: "commit_loop host v rights pb cb s = (if pb + cb \<le> b + n then Some (NO_ERROR, s1) else commit_loop host v rights (b + n) (cb - (b + n - pb)) s1)"
    and pg: "pages b n" and wb: "within b n pb" and s1: "ok s1"
    "?all \<longrightarrow> (\<forall>x. within pb cb x \<longrightarrow> (\<exists>d b. cell s1 x = CMapped ?ar d b rights))"
    "\<forall>x. \<not> (?all \<and> within pb cb x) \<longrightarrow> cell s1 x = cell s x \<and> view cell dsb s1 x = view cell dsb s x"
    and cs: "\<not> ?all \<longrightarrow> (\<forall>x. within b n x \<longrightarrow> cell s x = CReserved ?ar) \<or> (\<forall>x. within b n x \<longrightarrow> cell s x \<noteq> CReserved ?ar)"
  proof -
    consider "cell s pb = CReserved ?ar" | ar d b q where "cell s pb = CMapped ar d b q" using less.prems(4) wp by blast
    then show thesis
    proof cases
      case 1
      from lookup_reserved [OF rm less.prems(1) 1] obtain b n where l: "l4rm_lookup_region host pb s = (RegReserved, b, n)"
        "pages b n" "within b n pb" "\<forall>x. within b n x \<longrightarrow> cell s x = CReserved ?ar" by metis
      obtain d s1 s2 where a: "l4dm_mem_open host cb rights s = (Some d, s1)" "attach_ds_area host d ?ar rights pb s1 = (0, s2)" "ok s2"
        "\<forall>x ar b q. cell s x \<noteq> CMapped ar d b q"
        "\<forall>x. cell s2 x = (if ?all \<and> within pb cb x then CMapped ?ar d pb rights else cell s x)"
        "\<forall>d'. d' \<noteq> d \<longrightarrow> dsb s2 d' = dsb s d'"
        by (rule attach_new [OF rm less.prems(1-3) op [rule_format, OF less.prems(1)], of rights ?ar])
      have v: "view cell dsb s2 x = view cell dsb s x" if "cell s2 x = cell s x" for x
        by (rule view_cong, rule that) (use a(4,6) in metis)
      show thesis
      proof (rule that [of b n s2, OF _ l(2,3) a(3)])
        show "commit_loop host v rights pb cb s = (if pb + cb \<le> b + n then Some (NO_ERROR, s2) else commit_loop host v rights (b + n) (cb - (b + n - pb)) s2)"
          by (subst commit_loop.simps) (simp add: l(1) a(1,2) ns)
        show "?all \<longrightarrow> (\<forall>x. within pb cb x \<longrightarrow> (\<exists>d b. cell s2 x = CMapped ?ar d b rights))" using a(5) by simp
        show "\<forall>x. \<not> (?all \<and> within pb cb x) \<longrightarrow> cell s2 x = cell s x \<and> view cell dsb s2 x = view cell dsb s x"
          using a(5) v by metis
      qed (use l(4) in blast)
    next
      case (2 ar d b q)
      from lookup_mapped [OF rm less.prems(1) 2] obtain n where l: "l4rm_lookup_region host pb s = (RegDataspace d, b, n)" "pages b n"
        "\<forall>x. within b n x \<longleftrightarrow> cell s x = CMapped ar d b q" by metis
      have wb: "within b n pb" using l(3) 2 by blast
      have na: "\<not> ?all" using 2 wp by (metis cell.distinct(5))
      show thesis
      proof (rule that [of b n s, OF _ l(2) wb less.prems(1)])
        show "commit_loop host v rights pb cb s = (if pb + cb \<le> b + n then Some (NO_ERROR, s) else commit_loop host v rights (b + n) (cb - (b + n - pb)) s)"
          by (subst commit_loop.simps) (simp add: l(1))
        show "?all \<longrightarrow> (\<forall>x. within pb cb x \<longrightarrow> (\<exists>d b. cell s x = CMapped ?ar d b rights))" using na by blast
        show "\<not> ?all \<longrightarrow> (\<forall>x. within b n x \<longrightarrow> cell s x = CReserved ?ar) \<or> (\<forall>x. within b n x \<longrightarrow> cell s x \<noteq> CReserved ?ar)"
          using l(3) by (metis cell.distinct(5))
      qed simp
    qed
  qed
  let ?R = "reserved_from cell ?ar s pb cb"
  have rall: "?R x \<longleftrightarrow> within pb cb x" if ?all for x using that by (auto simp: reserved_from_def)
  show ?case
  proof (cases "pb + cb \<le> b + n")
    case True
    have i: "within b n x" if "within pb cb x" for x using range_inside [OF pg less.prems(2) wb True that] .
    have "if ?R x then \<exists>d b. cell s1 x = CMapped ?ar d b rights else cell s1 x = cell s x \<and> view cell dsb s1 x = view cell dsb s x" for x
    proof (cases ?all)
      case True
      with rall s1(2,3) show ?thesis by auto
    next
      case na: False
      have "\<not> ?R x"
      proof
        assume "?R x"
        then have "within b n x" "cell s x = CReserved ?ar" using i unfolding reserved_from_def by blast+
        with cs na have "\<forall>x. within b n x \<longrightarrow> cell s x = CReserved ?ar" by blast
        with i na show False by blast
      qed
      with na s1(3) show ?thesis by auto
    qed
    then show ?thesis using st True s1(1) by auto
  next
    case False
    note r = range_rest [OF pg less.prems(2) wb False]
    let ?p = "b + n" and ?c = "cb - (b + n - pb)"
    have "\<forall>x. within ?p ?c x \<longrightarrow> cell s1 x = CReserved ?ar \<or> (\<exists>ar d b q. cell s1 x = CMapped ar d b q)"
      using r(4) s1(2,3) less.prems(4) by metis
    from less.hyps [OF r(3) s1(1) r(1,2) this] obtain s' where
      s': "commit_loop host v rights ?p ?c s1 = Some (NO_ERROR, s')" "ok s'"
      "\<forall>x. if reserved_from cell ?ar s1 ?p ?c x then \<exists>d b. cell s' x = CMapped ?ar d b rights
           else cell s' x = cell s1 x \<and> view cell dsb s' x = view cell dsb s1 x"
      by blast
    have "if ?R x then \<exists>d b. cell s' x = CMapped ?ar d b rights else cell s' x = cell s x \<and> view cell dsb s' x = view cell dsb s x" for x
    proof (cases ?all)
      case True
      then have "\<not> reserved_from cell ?ar s1 ?p ?c x"
        using s1(2) r(4) unfolding reserved_from_def by (metis cell.distinct(5) order_refl)
      with s'(3) True rall s1(2,3) show ?thesis by auto
    next
      case na: False
      then have same: "cell s1 y = cell s y \<and> view cell dsb s1 y = view cell dsb s y" for y using s1(3) by blast
      have "?R x \<longleftrightarrow> reserved_from cell ?ar s1 ?p ?c x"
      proof
        assume R: "?R x"
        have "\<not> within b n x"
        proof
          assume "within b n x"
          have rx: "cell s x = CReserved ?ar" using R unfolding reserved_from_def by blast
          with \<open>within b n x\<close> cs na have br: "\<forall>y. within b n y \<longrightarrow> cell s y = CReserved ?ar" by blast
          have "cell s y = CReserved ?ar" if y: "within pb cb y" for y
          proof (cases "x \<le> y")
            case False
            then have "within b n y" using y \<open>within b n x\<close> wb pages_within [OF pg] pages_within [OF less.prems(2)]
              by (simp add: word_le_nat_alt)
            with br show ?thesis by blast
          qed (use R y in \<open>auto simp: reserved_from_def\<close>)
          with na show False by blast
        qed
        with R r(4) same show "reserved_from cell ?ar s1 ?p ?c x" unfolding reserved_from_def by metis
      next
        assume R: "reserved_from cell ?ar s1 ?p ?c x"
        then have x: "within pb cb x" "\<not> within b n x" using r(4) by (simp_all add: reserved_from_def)
        have "\<not> within b n y" if "x \<le> y" for y
          using that x wb pages_within [OF pg] pages_within [OF less.prems(2)] by (auto simp: word_le_nat_alt)
        with R r(4) same x show "?R x" unfolding reserved_from_def by metis
      qed
      with s'(3) same show ?thesis by metis
    qed
    then show ?thesis using st False s'(1,2) by auto
  qed
qed

end
