(* ===== verification/KalArea.thy ===== *)
theory KalArea
  imports KalPages
begin

text \<open>
  The calls of an application on its memory: what \<open>KalSetMem\<close> does to a range, that \<open>KalQueryMem\<close> shows what \<open>KalAllocMem\<close> has
  allocated, and what \<open>KalFreeMem\<close> frees.
\<close>

section \<open>The list of areas\<close>

interpretation kv: dlist ka_next ka_prev "\<lambda>x v. v\<lparr>ka_next := x\<rparr>" "\<lambda>x v. v\<lparr>ka_prev := x\<rparr>"
  by unfold_locales simp_all

definition klist :: "'s kmem \<Rightarrow> u32 list \<Rightarrow> bool" where
  "klist st ps \<longleftrightarrow> path ka_next (kheap st) (kareas st) ps \<and> backs ka_prev (kheap st) 0 ps \<and> distinct ps"

lemma klist_get:
  "klist st ps \<Longrightarrow> kal_get_area a st = Some (case find (\<lambda>p. in_karea a (the (kheap st p))) ps of None \<Rightarrow> 0 | Some p \<Rightarrow> p)"
  by (simp add: klist_def kal_get_area_def search_from_path)

lemma klist_store:
  assumes "klist st ps" and "kheap st p = Some v" and "ka_next v' = ka_next v" and "ka_prev v' = ka_prev v"
  shows "klist (st\<lparr>kheap := (kheap st)(p \<mapsto> v')\<rparr>) ps"
proof -
  have "map_option ka_next (((kheap st)(p \<mapsto> v')) a) = map_option ka_next (kheap st a)"
    "map_option ka_prev (((kheap st)(p \<mapsto> v')) a) = map_option ka_prev (kheap st a)" for a
    using assms(2-4) by simp_all
  then show ?thesis
    using assms(1) path_cong [of ps ka_next "(kheap st)(p \<mapsto> v')" "kheap st"]
      backs_cong [of ps ka_prev "(kheap st)(p \<mapsto> v')" "kheap st"]
    by (simp add: klist_def)
qed

text \<open>Changed rights do not change which area is found.\<close>

lemma get_area_rights:
  assumes "klist st ps" and "kheap st p = Some v"
  shows "kal_get_area a (st\<lparr>kheap := (kheap st)(p \<mapsto> v\<lparr>ka_rights := r\<rparr>)\<rparr>) = kal_get_area a st"
proof -
  have "in_karea a (the (((kheap st)(p \<mapsto> v\<lparr>ka_rights := r\<rparr>)) q)) = in_karea a (the (kheap st q))" for q
    using assms(2) by (simp add: in_karea_def)
  then show ?thesis
    using klist_get [OF klist_store [OF assms, of "v\<lparr>ka_rights := r\<rparr>"], of a] klist_get [OF assms(1), of a] by simp
qed

lemma and_or_nonzero: "(a :: u32) AND b \<noteq> 0 \<Longrightarrow> a AND (b OR c) \<noteq> 0"
  by (simp add: bit.conj_disj_distrib or_eq_0_iff)

section \<open>Changing the state of pages\<close>

text \<open>C17: Decommitting makes exactly the pages of the range reserved. All other memory keeps its contents; what shares a region with
  the range gets the rights of the call, which are none when only decommitting was asked for.\<close>

theorem pages_decommitted:
  assumes "region_mapper host ok cell dsb" and "ok (krm st)" and "once cell (krm st)" and "klist st ps"
    and "kal_get_area pb st = Some p" and "p \<noteq> 0" and "kheap st p = Some v" and "\<not> ka_shared v"
    and "flags AND PAG_DECOMMIT \<noteq> 0" and "flags AND PAG_COMMIT = 0" and "flags AND PAG_DEFAULT = 0"
    and "pages pb cb" and "0 < cb"
    and "\<forall>x. within pb cb x \<longrightarrow> cell (krm st) x = CReserved (ka_area v) \<or> (\<exists>d b q. cell (krm st) x = CMapped (ka_area v) d b q)"
    and "\<forall>s ds offs n. ok s \<longrightarrow> fst (l4dm_memphys_copy host ds offs n s) \<noteq> None"
  shows "\<exists>st'. KalSetMem host pb cb flags st = Some (NO_ERROR, st') \<and> ok (krm st') \<and> once cell (krm st') \<and> klist st' ps
    \<and> (\<forall>x. if within pb cb x then cell (krm st') x = CReserved (ka_area v)
         else view cell dsb (krm st') x = view cell dsb (krm st) x
           \<and> (if touched cell (krm st) pb cb x then \<exists>d b. cell (krm st') x = CMapped (ka_area v) d b (dm_rights flags)
              else cell (krm st') x = cell (krm st) x))"
proof -
  let ?v = "v\<lparr>ka_rights := ka_rights v AND NOT PAG_COMMIT\<rparr>"
  let ?st = "st\<lparr>kheap := (kheap st)(p \<mapsto> ?v)\<rparr>"
  have f3: "flags AND (0x20 OR 0x407) \<noteq> 0" by (rule and_or_nonzero [OF assms(9)])
  have e: "\<not> ka_shared ?v" "ka_area ?v = ka_area v" using assms(8) by simp_all
  obtain s' where s': "decommit_loop host ?v (dm_rights flags) pb cb (krm st) = Some (NO_ERROR, s')" "ok s'" "once cell s'"
    "\<forall>x. if within pb cb x then cell s' x = CReserved (ka_area v)
       else view cell dsb s' x = view cell dsb (krm st) x
         \<and> (if touched cell (krm st) pb cb x then \<exists>d b. cell s' x = CMapped (ka_area v) d b (dm_rights flags) else cell s' x = cell (krm st) x)"
    using decommit_loop_run [OF assms(1) e(1) assms(15,2,3,12,13), unfolded e(2), OF assms(14)] by metis
  have l: "klist (?st\<lparr>krm := s'\<rparr>) ps" using klist_store [OF assms(4,7), of ?v] by (simp add: klist_def)
  have "decommit_pages host pb cb (dm_rights flags) ?st = Some (NO_ERROR, ?st\<lparr>krm := s'\<rparr>)"
    using get_area_rights [OF assms(4,7)] assms(5,6) s'(1) by (simp add: decommit_pages_def)
  then have run: "KalSetMem host pb cb flags st = Some (NO_ERROR, ?st\<lparr>krm := s'\<rparr>)"
    using assms(5-7,9-11) f3 by (simp add: KalSetMem_def Let_def)
  show ?thesis
    by (rule exI [of _ "?st\<lparr>krm := s'\<rparr>"], intro conjI, rule run) (use s'(2-4) l in simp_all)
qed


section \<open>Allocation\<close>

lemma kal_push_run:
  assumes "klist st ps" and "kmallocs st = (p, raw) # ms" and "p \<noteq> 0" and "p \<notin> set ps"
    and "\<And>nx. ka_next (mk nx raw) = nx" and "\<And>nx. ka_prev (mk nx raw) = 0"
  obtains h where "kal_push mk st = Some (st\<lparr>kheap := h, kareas := p, kmallocs := ms\<rparr>)" "h p = Some (mk (kareas st) raw)"
    "klist (st\<lparr>kheap := h, kareas := p, kmallocs := ms\<rparr>) (p # ps)"
proof (cases ps)
  case Nil
  then have "kareas st = 0" using assms(1) by (simp add: klist_def)
  with assms Nil that [of "(kheap st)(p \<mapsto> mk 0 raw)"] show thesis by (simp add: kal_push_def klist_def)
next
  case (Cons a qs)
  then obtain w where a: "kareas st = a" "a \<noteq> 0" "kheap st a = Some w" "a \<noteq> p" "a \<notin> set qs"
    using assms(1,4) by (auto simp: klist_def)
  let ?h = "(kheap st)(a \<mapsto> w\<lparr>ka_prev := p\<rparr>)" and ?v = "mk a raw"
  have "map_option ka_next ((?h(p \<mapsto> ?v)) b) = map_option ka_next (kheap st b)" if "b \<in> set ps" for b
    using that assms(4) a by auto
  then have "path ka_next (?h(p \<mapsto> ?v)) (kareas st) ps"
    using assms(1) path_cong [of ps ka_next "?h(p \<mapsto> ?v)" "kheap st"] by (simp add: klist_def)
  moreover have "map_option ka_prev ((?h(p \<mapsto> ?v)) b) = map_option ka_prev (kheap st b)" if "b \<in> set qs" for b
    using that assms(4) a Cons by auto
  then have "backs ka_prev (?h(p \<mapsto> ?v)) a qs"
    using assms(1) Cons backs_cong [of qs ka_prev "?h(p \<mapsto> ?v)" "kheap st"] by (simp add: klist_def)
  ultimately have "klist (st\<lparr>kheap := ?h(p \<mapsto> ?v), kareas := p, kmallocs := ms\<rparr>) (p # ps)"
    using assms Cons a by (simp add: klist_def)
  moreover have "kal_push mk st = Some (st\<lparr>kheap := ?h(p \<mapsto> ?v), kareas := p, kmallocs := ms\<rparr>)"
    using a assms(2,3) by (simp add: kal_push_def)
  ultimately show thesis using that [of "?h(p \<mapsto> ?v)"] a(1) by simp
qed

lemma within_inj: "0 < n \<Longrightarrow> (\<forall>x. within a m x \<longleftrightarrow> within a n x) \<Longrightarrow> m = n"
proof -
  assume "0 < n" and w: "\<forall>x. within a m x \<longleftrightarrow> within a n x"
  have "y < m \<longleftrightarrow> y < n" for y using w [rule_format, of "a + y"] by (simp add: within_def)
  then show "m = n" by (metis less_irrefl linorder_less_linear)
qed

text \<open>The allocation: the new area heads the list, the free pages it takes are mapped from a dataspace nothing else is mapped from.\<close>

lemma committed_memory_run:
  assumes "region_mapper host ok cell dsb" and "ok (krm st)" and "klist st ps"
    and "kmallocs st = (p, raw) # ms" and "p \<noteq> 0" and "p \<notin> set ps" and "0 < cb" and "4096 dvd unat cb"
    and "flags AND PAG_COMMIT \<noteq> 0" and "l4rm_area_reserve host cb (krm st) = (RsvAt a ar, s1)"
    and "\<forall>s n r. ok s \<longrightarrow> fst (l4dm_mem_open host n r s) \<noteq> None"
  obtains st' d v where "KalAllocMem host cb flags st = Some (NO_ERROR, Some a, st')" "klist st' (p # ps)" "ok (krm st')" "pages a cb"
    "kheap st' p = Some v" "ka_addr v = a" "ka_size v = cb" "\<not> ka_shared v" "ka_rights v = flags"
    "\<forall>x. within a cb x \<longrightarrow> cell (krm st) x = CFree" "\<forall>x b q ar'. cell (krm st) x \<noteq> CMapped ar' d b q"
    "\<forall>x. cell (krm st') x = (if within a cb x then CMapped ar d a (dm_rights flags) else cell (krm st) x)"
    "\<forall>d'. d' \<noteq> d \<longrightarrow> dsb (krm st') d' = dsb (krm st) d'"
proof -
  have "reserve_law host ok cell dsb" using assms(1) by (simp add: region_mapper_def)
  from this [unfolded reserve_law_def, rule_format, OF conjI, OF assms(2) conjI, OF assms(7) conjI, OF assms(8,10)]
  have r: "ok s1" "dsb s1 = dsb (krm st)" "pages a cb" "\<forall>x. within a cb x \<longrightarrow> cell (krm st) x = CFree"
    "cell s1 = (\<lambda>x. if within a cb x then CReserved ar else cell (krm st) x)"
    by simp_all
  define mk :: "u32 \<Rightarrow> karea \<Rightarrow> karea" where "mk = (\<lambda>next raw. raw\<lparr>ka_shared := False, ka_owner := l4_myself host, ka_rights := flags, ka_area := ar,
                  ka_name := [], ka_addr := a, ka_size := cb, ka_next := next, ka_prev := 0\<rparr>)"
  have "klist (st\<lparr>krm := s1\<rparr>) ps" using assms(3) by (simp add: klist_def)
  from kal_push_run [OF this, of p raw ms mk] assms(4-6) obtain h where
    h: "kal_push mk (st\<lparr>krm := s1\<rparr>) = Some (st\<lparr>krm := s1, kheap := h, kareas := p, kmallocs := ms\<rparr>)" "h p = Some (mk (kareas st) raw)"
    "klist (st\<lparr>krm := s1, kheap := h, kareas := p, kmallocs := ms\<rparr>) (p # ps)"
    by (auto simp: mk_def)
  obtain d s2 s3 where o: "l4dm_mem_open host cb (dm_rights flags) s1 = (Some d, s2)" "attach_ds_area host d ar (dm_rights flags) a s2 = (0, s3)" "ok s3"
    "\<forall>x ar b q. cell s1 x \<noteq> CMapped ar d b q"
    "\<forall>x. cell s3 x = (if (\<forall>y. within a cb y \<longrightarrow> cell s1 y = CReserved ar) \<and> within a cb x then CMapped ar d a (dm_rights flags) else cell s1 x)"
    "\<forall>d'. d' \<noteq> d \<longrightarrow> dsb s3 d' = dsb s1 d'"
    by (rule attach_new [OF assms(1) r(1,3) assms(7) assms(11) [rule_format, OF r(1)], of "dm_rights flags" ar])
  define st' where "st' = st\<lparr>krm := s3, kheap := h, kareas := p, kmallocs := ms\<rparr>"
  have k: "krm st' = s3" "kheap st' = h" by (simp_all add: st'_def)
  have l: "klist st' (p # ps)" using h(3) by (simp add: klist_def st'_def)
  have run: "KalAllocMem host cb flags st = Some (NO_ERROR, Some a, st')"
    using h(1) o(1,2) assms(9,10) by (simp add: KalAllocMem_def Let_def mk_def st'_def)
  have "\<forall>x b q ar'. cell (krm st) x \<noteq> CMapped ar' d b q" using o(4) r(4,5) by (metis cell.distinct(3))
  moreover have "\<forall>x. cell s3 x = (if within a cb x then CMapped ar d a (dm_rights flags) else cell (krm st) x)"
    using o(5) r(5) by simp
  ultimately show thesis
    by (intro that [OF run l, of "mk (kareas st) raw" d]) (use o(3,6) h(2) r(2,3,4) k in \<open>simp_all add: mk_def\<close>)
qed

text \<open>A query of an area that is one region of one dataspace answers the size and the rights of the area.\<close>

lemma whole_area_queried:
  assumes "region_mapper host ok cell dsb" and "ok (krm st)" and "klist st (p # ps)" and "p \<noteq> 0"
    and "kheap st p = Some v" and "ka_addr v = a" and "ka_size v = cb" and "\<not> ka_shared v" and "0 < cb" and "pages a cb"
    and "\<forall>x. cell (krm st) x = CMapped ar d a q \<longleftrightarrow> within a cb x"
  shows "KalQueryMem host a (Some cb) True st = Some (NO_ERROR, Some (cb, ka_rights v OR PAG_BASE))"
proof -
  have "cell (krm st) a = CMapped ar d a q" using assms(11) within_start [OF assms(9)] by blast
  then obtain n where n: "l4rm_lookup_region host a (krm st) = (RegDataspace d, a, n)" "\<forall>x. within a n x \<longleftrightarrow> cell (krm st) x = CMapped ar d a q"
    using lookup_mapped [OF assms(1,2)] by metis
  have "n = cb" using within_inj [OF assms(9), of a n] n(2) assms(11) by simp
  have le: "a \<le> a + cb" using pages_end [OF assms(10)] by (simp add: word_le_nat_alt)
  then have get: "kal_get_area a st = Some p"
    using klist_get [OF assms(3), of a] assms(5-7) by (simp add: in_karea_def)
  have "query_loop host v (a + cb) a 0 0 (krm st) = Some (Some (ka_rights v, cb))"
    by (subst query_loop.simps) (use n(1) \<open>n = cb\<close> assms(6-8) in simp)
  then show ?thesis using get assms(4-7) by (simp add: KalQueryMem_def)
qed


section \<open>Freeing\<close>

text \<open>The addresses that share a region with one between \<open>a\<close> and \<open>e\<close>.\<close>

definition hit :: "('s \<Rightarrow> u32 \<Rightarrow> 'd cell) \<Rightarrow> 's \<Rightarrow> u32 \<Rightarrow> u32 \<Rightarrow> u32 \<Rightarrow> bool" where
  "hit cell s a e x \<longleftrightarrow> (\<exists>y ar d b q. a \<le> y \<and> y \<le> e \<and> cell s y = CMapped ar d b q \<and> cell s x = CMapped ar d b q)"

definition mapped :: "('s \<Rightarrow> u32 \<Rightarrow> 'd cell) \<Rightarrow> 's \<Rightarrow> u32 \<Rightarrow> bool" where
  "mapped cell s x \<longleftrightarrow> (\<exists>ar d b q. cell s x = CMapped ar d b q)"

text \<open>One step of the loop: the region of \<open>a\<close> is detached, if it has a dataspace.\<close>

lemma free_step:
  assumes rm: "region_mapper host ok cell dsb" and ns: "\<not> ka_shared v" and "ok s" and "once cell s" and "in_karea a v"
    and "cell s a = CFree \<Longrightarrow> fst (l4rm_lookup_region host a s) = RegFree"
  obtains b n s1 where "free_regions host v 0 a s = free_regions host v 0 (b + n) s1" "pages b n" "within b n a" "ok s1" "once cell s1"
    "\<forall>x. within b n x \<and> mapped cell s x \<longrightarrow> cell s x = cell s a \<and> (\<exists>ar d b q. cell s x = CMapped ar d b q \<and> cell s1 x = CReserved ar)"
    "\<forall>x. \<not> (within b n x \<and> mapped cell s x) \<longrightarrow> cell s1 x = cell s x \<and> view cell dsb s1 x = view cell dsb s x"
    "\<forall>x. cell s x = cell s a \<and> mapped cell s x \<longrightarrow> within b n x"
proof (cases "cell s a")
  case CFree
  have "lookup_law host ok cell" using rm by (simp add: region_mapper_def)
  from this [unfolded lookup_law_def, rule_format, OF assms(3), of a] CFree assms(6) obtain b n where
    l: "l4rm_lookup_region host a s = (RegFree, b, n)" "pages b n" "within b n a" "\<forall>x. within b n x \<longrightarrow> cell s x = CFree"
    by auto
  show thesis
    by (rule that [of b n s, OF _ l(2,3) assms(3,4)], subst free_regions.simps)
      (use CFree l(4) assms(5) in \<open>auto simp: l(1) mapped_def\<close>)
next
  case (CReserved ar)
  from lookup_reserved [OF rm assms(3) CReserved] obtain b n where l: "l4rm_lookup_region host a s = (RegReserved, b, n)"
    "pages b n" "within b n a" "\<forall>x. within b n x \<longrightarrow> cell s x = CReserved ar" by metis
  show thesis
    by (rule that [of b n s, OF _ l(2,3) assms(3,4)], subst free_regions.simps)
      (use CReserved l(4) assms(5) in \<open>auto simp: l(1) mapped_def\<close>)
next
  case (CMapped ar d b q)
  from lookup_mapped [OF rm assms(3) CMapped] obtain n where l: "l4rm_lookup_region host a s = (RegDataspace d, b, n)" "pages b n"
    "\<forall>x. within b n x \<longleftrightarrow> cell s x = CMapped ar d b q" by metis
  have wa: "within b n a" using l(3) CMapped by blast
  then have "n \<noteq> 0" unfolding within_def by (metis word_not_simps(1))
  then have mb: "cell s b = CMapped ar d b q" using l(3) within_start [of n b] unfolding word_gt_0 by blast
  define s1 where "s1 = l4rm_detach host b s"
  have s1: "ok s1" "dsb s1 = dsb s" "cell s1 x = (if within b n x then CReserved ar else cell s x)" for x
    using detached [OF rm assms(3) mb l(3)] by (simp_all add: s1_def)
  have free: "cell s1 x \<noteq> CMapped ar' d b' r" for x ar' b' r
  proof
    assume c: "cell s1 x = CMapped ar' d b' r"
    then have nw: "\<not> within b n x" and cx: "cell s x = CMapped ar' d b' r" unfolding s1(3) by (simp_all split: if_splits)
    with assms(4) CMapped have "ar' = ar \<and> b' = b \<and> r = q" unfolding once_def by blast
    with nw cx l(3) show False by blast
  qed
  have close: "close_law host ok cell dsb" using rm by (simp add: region_mapper_def)
  define s2 where "s2 = l4dm_close host d s1"
  have s2: "ok s2" "cell s2 = cell s1" "\<forall>d'. d' \<noteq> d \<longrightarrow> dsb s2 d' = dsb s1 d'"
    using close [unfolded close_law_def, rule_format, of s1 d] s1(1) free by (simp_all add: s2_def)
  have o2: "once cell s2" using assms(4) unfolding once_def s2(2) s1(3) by (auto split: if_splits)
  have v2: "view cell dsb s2 x = view cell dsb s x" if "\<not> within b n x" for x
  proof (rule view_cong)
    show c: "cell s2 x = cell s x" using that s2(2) s1(3) by simp
    show "dsb s2 d' = dsb s d'" if "cell s x = CMapped ar' d' b' r" for ar' d' b' r
      using that c s2(2,3) s1(2) free by metis
  qed
  have m: "mapped cell s x" if "within b n x" for x using that l(3) by (auto simp: mapped_def)
  show thesis
  proof (rule that [of b n s2, OF _ l(2) wa s2(1) o2])
    show "free_regions host v 0 a s = free_regions host v 0 (b + n) s2"
      using ns assms(5) by (subst free_regions.simps) (simp add: l(1) s2_def s1_def Let_def)
    show "\<forall>x. within b n x \<and> mapped cell s x \<longrightarrow> cell s x = cell s a \<and> (\<exists>ar d b q. cell s x = CMapped ar d b q \<and> cell s2 x = CReserved ar)"
      using l(3) CMapped s2(2) s1(3) by simp
    show "\<forall>x. \<not> (within b n x \<and> mapped cell s x) \<longrightarrow> cell s2 x = cell s x \<and> view cell dsb s2 x = view cell dsb s x"
      using m v2 s2(2) s1(3) by simp
    show "\<forall>x. cell s x = cell s a \<and> mapped cell s x \<longrightarrow> within b n x" using l(3) CMapped by simp
  qed
qed

lemma free_regions_run:
  assumes rm: "region_mapper host ok cell dsb" and ns: "\<not> ka_shared v"
    and fr: "\<forall>s y. ok s \<and> in_karea y v \<and> cell s y = CFree \<longrightarrow> fst (l4rm_lookup_region host y s) = RegFree"
  defines "e \<equiv> ka_addr v + ka_size v"
  shows "ok s \<Longrightarrow> once cell s \<Longrightarrow> in_karea a v \<Longrightarrow>
    \<exists>s'. free_regions host v 0 a s = Some (0, s') \<and> ok s' \<and> once cell s' \<and>
      (\<forall>x. if hit cell s a e x then \<exists>ar d b q. cell s x = CMapped ar d b q \<and> cell s' x = CReserved ar
           else cell s' x = cell s x \<and> view cell dsb s' x = view cell dsb s x)"
proof (induction "unat e - unat a" arbitrary: a s rule: less_induct)
  case less
  have fa: "cell s a = CFree \<Longrightarrow> fst (l4rm_lookup_region host a s) = RegFree" using fr less.prems(1,3) by blast
  obtain b n s1 where st: "free_regions host v 0 a s = free_regions host v 0 (b + n) s1" and pg: "pages b n" and wa: "within b n a"
    and s1: "ok s1" "once cell s1"
    "\<forall>x. within b n x \<and> mapped cell s x \<longrightarrow> cell s x = cell s a \<and> (\<exists>ar d b q. cell s x = CMapped ar d b q \<and> cell s1 x = CReserved ar)"
    "\<forall>x. \<not> (within b n x \<and> mapped cell s x) \<longrightarrow> cell s1 x = cell s x \<and> view cell dsb s1 x = view cell dsb s x"
    and whole: "\<forall>x. cell s x = cell s a \<and> mapped cell s x \<longrightarrow> within b n x"
    by (rule free_step [OF rm ns less.prems(1-3) fa])
  have a: "ka_addr v \<le> a" "a \<le> e" using less.prems(3) by (simp_all add: in_karea_def e_def)
  have w: "within b n x \<longleftrightarrow> unat b \<le> unat x \<and> unat x < unat (b + n)" for x using pages_within [OF pg] pages_end [OF pg] by simp
  have ab: "a < b + n" using wa w by (simp add: word_less_nat_alt)
  have region: "hit cell s a e x" if "within b n x" "mapped cell s x" for x
  proof -
    have "cell s x = cell s a" using that s1(3) by blast
    with that(2) a(2) show ?thesis unfolding hit_def mapped_def by (metis order_refl)
  qed
  show ?case
  proof (cases "b + n \<le> e")
    case False
    have h: "hit cell s a e x \<longleftrightarrow> within b n x \<and> mapped cell s x" for x
    proof
      assume "hit cell s a e x"
      then obtain y where y: "a \<le> y" "y \<le> e" "cell s y = cell s x" and m: "mapped cell s x"
        unfolding hit_def mapped_def by metis
      have "y < b + n" using y(2) False by simp
      moreover have "unat b \<le> unat y" using wa w y(1) by (simp add: word_le_nat_alt)
      ultimately have "within b n y" using w by (simp add: word_less_nat_alt)
      moreover have "mapped cell s y" using y(3) m by (simp add: mapped_def)
      ultimately have "cell s x = cell s a" using s1(3) y(3) by metis
      with m whole show "within b n x \<and> mapped cell s x" by blast
    next
      assume "within b n x \<and> mapped cell s x"
      with region show "hit cell s a e x" by blast
    qed
    have "if hit cell s a e x then \<exists>ar d b q. cell s x = CMapped ar d b q \<and> cell s1 x = CReserved ar
           else cell s1 x = cell s x \<and> view cell dsb s1 x = view cell dsb s x" for x
    proof (cases "within b n x \<and> mapped cell s x")
      case True
      with s1(3) have "\<exists>ar d b q. cell s x = CMapped ar d b q \<and> cell s1 x = CReserved ar" by blast
      with True h show ?thesis by simp
    next
      case no: False
      with s1(4) h show ?thesis by (simp only: if_False) blast
    qed
    moreover have "free_regions host v 0 (b + n) s1 = Some (0, s1)"
      using False by (subst free_regions.simps) (simp add: in_karea_def e_def)
    ultimately show ?thesis using s1(1,2) unfolding st by (intro exI [of _ s1] conjI allI)
  next
    case True
    have dec: "unat e - unat (b + n) < unat e - unat a" using True ab by (simp add: word_le_nat_alt word_less_nat_alt)
    have "in_karea (b + n) v" using True a(1) ab unfolding in_karea_def e_def by simp
    from less.hyps [OF dec s1(1,2) this] obtain s' where
      s': "free_regions host v 0 (b + n) s1 = Some (0, s')" "ok s'" "once cell s'"
      "\<forall>x. if hit cell s1 (b + n) e x then \<exists>ar d b q. cell s1 x = CMapped ar d b q \<and> cell s' x = CReserved ar
           else cell s' x = cell s1 x \<and> view cell dsb s' x = view cell dsb s1 x"
      by blast
    have "if hit cell s a e x then \<exists>ar d b q. cell s x = CMapped ar d b q \<and> cell s' x = CReserved ar
           else cell s' x = cell s x \<and> view cell dsb s' x = view cell dsb s x" for x
    proof (cases "within b n x \<and> mapped cell s x")
      case True
      then have h: "hit cell s a e x" using region by blast
      obtain ar d b' q where c: "cell s x = CMapped ar d b' q" "cell s1 x = CReserved ar" using True s1(3) by blast
      then have "\<not> hit cell s1 (b + n) e x" by (auto simp: hit_def)
      with s'(4) c h show ?thesis by auto
    next
      case no: False
      then have same: "cell s1 x = cell s x" "view cell dsb s1 x = view cell dsb s x" using s1(4) by blast+
      have later: "cell s1 y = cell s y" if "b + n \<le> y" for y
        using s1(4) w that by (simp add: word_le_nat_alt)
      have "hit cell s1 (b + n) e x \<longleftrightarrow> hit cell s a e x"
      proof
        assume "hit cell s1 (b + n) e x"
        then obtain y ar d b' q where "b + n \<le> y" "y \<le> e" "cell s1 y = CMapped ar d b' q" "cell s1 x = CMapped ar d b' q"
          unfolding hit_def by blast
        with later same(1) ab show "hit cell s a e x" unfolding hit_def by (metis less_imp_le order_trans)
      next
        assume "hit cell s a e x"
        then obtain y ar d b' q where y: "a \<le> y" "y \<le> e" "cell s y = CMapped ar d b' q" "cell s x = CMapped ar d b' q"
          unfolding hit_def by blast
        have "b + n \<le> y"
        proof (rule ccontr)
          assume "\<not> b + n \<le> y"
          then have "within b n y" using wa w y(1) by (simp add: word_le_nat_alt)
          then have "cell s x = cell s a" using s1(3) y(3,4) by (metis mapped_def)
          with whole y(4) no show False by (metis mapped_def)
        qed
        with y later same(1) show "hit cell s1 (b + n) e x" unfolding hit_def by metis
      qed
      with s'(4) same show ?thesis by metis
    qed
    with s'(1-3) show ?thesis unfolding st by (intro exI [of _ s'] conjI allI)
  qed
qed

text \<open>The memory side of freeing: the area's addresses become free, and the region of the address behind it is detached with them.\<close>

lemma free_area_mem:
  assumes rm: "region_mapper host ok cell dsb" and "ok s" and "once cell s" and ns: "\<not> ka_shared v"
    and pg: "pages (ka_addr v) (ka_size v)" and "0 < ka_size v"
    and own: "\<forall>x. within (ka_addr v) (ka_size v) x \<longleftrightarrow> cell s x = CReserved (ka_area v) \<or> (\<exists>d b q. cell s x = CMapped (ka_area v) d b q)"
    and fr: "\<forall>s y. ok s \<and> in_karea y v \<and> cell s y = CFree \<longrightarrow> fst (l4rm_lookup_region host y s) = RegFree"
  obtains s1 s2 where "free_regions host v 0 (ka_addr v) s = Some (0, s1)" "l4rm_area_release_addr host (ka_addr v) s1 = (True, s2)" "ok s2"
    "\<forall>x. within (ka_addr v) (ka_size v) x \<longrightarrow> cell s2 x = CFree"
    "\<forall>x. \<not> within (ka_addr v) (ka_size v) x \<longrightarrow>
       (if mapped cell s x \<and> cell s x = cell s (ka_addr v + ka_size v) then \<exists>ar d b q. cell s x = CMapped ar d b q \<and> cell s2 x = CReserved ar
        else cell s2 x = cell s x \<and> view cell dsb s2 x = view cell dsb s x)"
proof -
  let ?A = "ka_addr v" and ?n = "ka_size v" and ?e = "ka_addr v + ka_size v" and ?ar = "ka_area v"
  have e: "unat ?e = unat ?A + unat ?n" by (rule pages_end [OF pg])
  have inA: "in_karea ?A v" using e by (simp add: in_karea_def word_le_nat_alt)
  have w: "within ?A ?n x \<longleftrightarrow> ?A \<le> x \<and> x < ?e" for x using pages_within [OF pg] e by (simp add: word_le_nat_alt word_less_nat_alt)
  obtain s1 where s1: "free_regions host v 0 ?A s = Some (0, s1)" "ok s1"
    "\<forall>x. if hit cell s ?A ?e x then \<exists>ar d b q. cell s x = CMapped ar d b q \<and> cell s1 x = CReserved ar
         else cell s1 x = cell s x \<and> view cell dsb s1 x = view cell dsb s x"
    using free_regions_run [OF rm ns fr assms(2,3) inA] by blast
  have hin: "hit cell s ?A ?e x \<longleftrightarrow> mapped cell s x" if "within ?A ?n x" for x
    using that w unfolding hit_def mapped_def by (metis less_imp_le)
  have hout: "hit cell s ?A ?e x \<longleftrightarrow> mapped cell s x \<and> cell s x = cell s ?e" if "\<not> within ?A ?n x" for x
  proof
    assume "hit cell s ?A ?e x"
    then obtain y ar d b q where y: "?A \<le> y" "y \<le> ?e" "cell s y = CMapped ar d b q" "cell s x = CMapped ar d b q"
      unfolding hit_def by blast
    have "\<not> within ?A ?n y"
    proof
      assume "within ?A ?n y"
      with own y(3) have "ar = ?ar" by auto
      with own y(4) that show False by blast
    qed
    with y w have "y = ?e" by auto
    with y show "mapped cell s x \<and> cell s x = cell s ?e" unfolding mapped_def by metis
  next
    assume "mapped cell s x \<and> cell s x = cell s ?e"
    moreover have "?A \<le> ?e" using e by (simp add: word_le_nat_alt)
    ultimately show "hit cell s ?A ?e x" unfolding hit_def mapped_def by (metis order_refl)
  qed
  have r1: "cell s1 x = CReserved ?ar \<longleftrightarrow> within ?A ?n x" for x
  proof (cases "within ?A ?n x")
    case True
    show ?thesis
    proof (cases "mapped cell s x")
      case m: True
      then obtain ar d b q where "cell s x = CMapped ar d b q" "cell s1 x = CReserved ar" using s1(3) hin True by metis
      with own True show ?thesis by auto
    next
      case False
      then have "cell s1 x = cell s x" "cell s x = CReserved ?ar" using s1(3) hin own True unfolding mapped_def by metis+
      with True show ?thesis by simp
    qed
  next
    case False
    show ?thesis
    proof
      assume c: "cell s1 x = CReserved ?ar"
      show "within ?A ?n x"
      proof (cases "hit cell s ?A ?e x")
        case True
        then obtain ar d b q where "cell s x = CMapped ar d b q" "cell s1 x = CReserved ar" using s1(3) by metis
        with c own show ?thesis by auto
      next
        case h: False
        then have "cell s x = CReserved ?ar" using s1(3) c by metis
        with own show ?thesis by blast
      qed
    qed (use False in simp)
  qed
  have nm: "cell s1 x \<noteq> CMapped ?ar d b q" for x d b q
  proof
    assume c: "cell s1 x = CMapped ?ar d b q"
    then have "\<not> hit cell s ?A ?e x" using s1(3) by (metis cell.distinct(5))
    moreover from this have "cell s x = CMapped ?ar d b q" using s1(3) c by metis
    ultimately show False using own hin unfolding mapped_def by metis
  qed
  have "cell s1 ?A = CReserved ?ar" using r1 within_start [OF assms(6)] by blast
  moreover have "release_law host ok cell dsb" using rm by (simp add: region_mapper_def)
  ultimately obtain s2 where s2: "l4rm_area_release_addr host ?A s1 = (True, s2)" "ok s2" "dsb s2 = dsb s1"
    "cell s2 = (\<lambda>x. if cell s1 x = CReserved ?ar then CFree else cell s1 x)"
    unfolding release_law_def using s1(2) nm by blast
  have c2: "cell s2 x = (if within ?A ?n x then CFree else cell s1 x)" for x using s2(4) r1 by simp
  have v2: "view cell dsb s2 x = view cell dsb s1 x" if "\<not> within ?A ?n x" for x
    by (rule view_cong) (use c2 that s2(3) in simp_all)
  show thesis
  proof (rule that [OF s1(1) s2(1,2)])
    show "\<forall>x. within ?A ?n x \<longrightarrow> cell s2 x = CFree" using c2 by simp
    show "\<forall>x. \<not> within ?A ?n x \<longrightarrow>
       (if mapped cell s x \<and> cell s x = cell s ?e then \<exists>ar d b q. cell s x = CMapped ar d b q \<and> cell s2 x = CReserved ar
        else cell s2 x = cell s x \<and> view cell dsb s2 x = view cell dsb s x)"
      using s1(3) hout c2 v2 by metis
  qed
qed


text \<open>The newest area is freed in the same way, but the list still begins with its record: after that every search for an
  area reads freed memory.\<close>

theorem newest_area_dangles:
  assumes "region_mapper host ok cell dsb" and "ok (krm st)" and "once cell (krm st)" and "klist st (p # ys)"
    and "kal_get_area pb st = Some p" and "kheap st p = Some v" and "\<not> ka_shared v"
    and "pages (ka_addr v) (ka_size v)" and "0 < ka_size v"
    and "\<forall>x. within (ka_addr v) (ka_size v) x \<longleftrightarrow> cell (krm st) x = CReserved (ka_area v) \<or> (\<exists>d b q. cell (krm st) x = CMapped (ka_area v) d b q)"
    and "\<forall>s y. ok s \<and> in_karea y v \<and> cell s y = CFree \<longrightarrow> fst (l4rm_lookup_region host y s) = RegFree"
  shows "\<exists>st'. KalFreeMem host pb st = Some (NO_ERROR, st') \<and> (\<forall>a. kal_get_area a st' = None)"
proof -
  obtain s1 s2 where m: "free_regions host v 0 (ka_addr v) (krm st) = Some (0, s1)" "l4rm_area_release_addr host (ka_addr v) s1 = (True, s2)"
    by (rule free_area_mem [OF assms(1-3,7-11)])
  have p: "kareas st = p" "p \<noteq> 0" "ka_prev v = 0" "path ka_next (kheap st) (ka_next v) ys"
    using assms(4,6) by (auto simp: klist_def)
  obtain h where h: "unlink_rec ka_next ka_prev (\<lambda>x v. v\<lparr>ka_next := x\<rparr>) (\<lambda>x v. v\<lparr>ka_prev := x\<rparr>) p v (kheap st) = Some h" "h p = None"
    using p by (cases ys) (auto simp: unlink_rec_def)
  then have "KalFreeMem host pb st = Some (NO_ERROR, st\<lparr>kheap := h, krm := s2\<rparr>)"
    using assms(5-7) m(1,2) p(2) by (simp add: KalFreeMem_def)
  moreover have "kal_get_area a (st\<lparr>kheap := h, krm := s2\<rparr>) = None" for a
    using p h(2) by (simp add: kal_get_area_def search_from.simps)
  ultimately show ?thesis by blast
qed

end
