(* ===== verification/KalExample.thy ===== *)
theory KalExample
  imports KalArea
begin

text \<open>
  A region mapper that satisfies the laws of \<open>KalLaws\<close>, page by page, and the theorems of \<open>KalArea\<close> at concrete areas: an
  allocation, a hole in an area of four pages, committing a range of which the last page is committed, and freeing.
\<close>

section \<open>The region mapper\<close>

definition pg :: "u32 \<Rightarrow> u32" where
  "pg x = of_nat (unat x div 4096 * 4096)"

record demo_rm =
  dr_page :: "u32 \<Rightarrow> nat cell"
  dr_len :: "u32 \<Rightarrow> u32"
  dr_dsb :: "nat \<Rightarrow> nat \<Rightarrow> u8"
  dr_size :: "nat \<Rightarrow> u32 option"
  dr_next :: nat

definition dr_cell :: "demo_rm \<Rightarrow> u32 \<Rightarrow> nat cell" where
  "dr_cell s x = dr_page s (pg x)"

text \<open>Regions are the ranges recorded for their start, the last page is free, dataspaces in use are old.\<close>

definition dr_ok :: "demo_rm \<Rightarrow> bool" where
  "dr_ok s \<longleftrightarrow> (\<forall>x ar d b r. dr_cell s x = CMapped ar d b r \<longrightarrow>
       pages b (dr_len s b) \<and> (\<forall>y. within b (dr_len s b) y \<longleftrightarrow> dr_cell s y = CMapped ar d b r) \<and> d < dr_next s)
     \<and> (\<forall>x. 2 ^ 32 - 4096 \<le> unat x \<longrightarrow> dr_cell s x = CFree)"

definition dr_host :: "(demo_rm, nat) rm_host" where
  "dr_host = \<lparr>
     l4rm_area_reserve = \<lambda>n s.
       (if pages 0x10000 n \<and> (\<forall>x. within 0x10000 n x \<longrightarrow> dr_cell s x = CFree)
           \<and> (\<forall>x. dr_cell s x \<noteq> CReserved 7 \<and> (\<forall>d b r. dr_cell s x \<noteq> CMapped 7 d b r))
        then (RsvAt 0x10000 7, s\<lparr>dr_page := \<lambda>p. if within 0x10000 n p then CReserved 7 else dr_page s p\<rparr>) else (RsvNoRoom, s)),
     l4rm_lookup_region = \<lambda>a s. (case dr_cell s a of
         CFree \<Rightarrow> if 2 ^ 32 - 4096 \<le> unat a then (RegOther, 0, 0) else (RegFree, pg a, 4096)
       | CReserved ar \<Rightarrow> (RegReserved, pg a, 4096)
       | CMapped ar d b r \<Rightarrow> (RegDataspace d, b, dr_len s b)),
     l4rm_area_attach_to_region = \<lambda>d ar a n r s.
       (if 0 < n \<and> pages a n \<and> (\<forall>x. within a n x \<longrightarrow> dr_cell s x = CReserved ar)
        then (True, s\<lparr>dr_page := \<lambda>p. if within a n p then CMapped ar d a r else dr_page s p, dr_len := (dr_len s)(a := n), dr_next := max (dr_next s) (Suc d)\<rparr>)
        else (False, s)),
     l4rm_detach = \<lambda>a s. (case dr_cell s a of
         CMapped ar d b r \<Rightarrow> s\<lparr>dr_page := \<lambda>p. if dr_page s p = CMapped ar d b r then CReserved ar else dr_page s p\<rparr>
       | _ \<Rightarrow> s),
     l4rm_area_release_addr = \<lambda>a s. (case dr_cell s a of
         CReserved ar \<Rightarrow> (True, s\<lparr>dr_page := \<lambda>p. if dr_page s p = CReserved ar then CFree else dr_page s p\<rparr>)
       | _ \<Rightarrow> (False, s)),
     l4dm_mem_open = \<lambda>n r s. (Some (dr_next s), s\<lparr>dr_size := (dr_size s)(dr_next s := Some n), dr_next := Suc (dr_next s)\<rparr>),
     l4dm_mem_size = \<lambda>d s. dr_size s d,
     l4dm_memphys_copy = \<lambda>d offs n s. (let d' = dr_next s + Suc d in
         (Some d', s\<lparr>dr_dsb := (dr_dsb s)(d' := \<lambda>i. dr_dsb s d (unat offs + i)), dr_size := (dr_size s)(d' := Some n), dr_next := Suc d'\<rparr>)),
     l4dm_close = \<lambda>d s. s,
     ExcClientReleaseSharedMem = \<lambda>a s. (0, s), ExcClientUnmapDataspace = \<lambda>a d s. s, ExcClientMapDataspace = \<lambda>a r d s. (0, s),
     AppClientDataspaceRelease = \<lambda>t d s. s, l4_myself = 5\<rparr>"

section \<open>Pages\<close>

lemma unat_pg: "unat (pg x) = unat x div 4096 * 4096"
proof -
  have "unat x div 4096 * 4096 \<le> unat x" by simp
  also have "\<dots> < 2 ^ 32" using unsigned_less [where ?'a = nat and w = x] by simp
  finally show ?thesis unfolding pg_def by (intro unat_of_nat32)
qed

lemma within_pg: "pages a n \<Longrightarrow> within a n (pg x) \<longleftrightarrow> within a n x"
proof -
  assume p: "pages a n"
  then obtain i j where i: "unat a = 4096 * i" "unat n = 4096 * j" by (auto simp: pages_def elim!: dvdE)
  have "i \<le> k div 4096 \<longleftrightarrow> 4096 * i \<le> k" for k :: nat by (simp add: less_eq_div_iff_mult_less_eq mult.commute)
  moreover have "k div 4096 < i + j \<longleftrightarrow> k < 4096 * (i + j)" for k :: nat by (simp add: div_less_iff_less_mult mult.commute)
  moreover have "4096 * (k div 4096) < i * 4096 + j * 4096 \<longleftrightarrow> k div 4096 < i + j" for k :: nat by auto
  ultimately show ?thesis using i by (simp add: pages_within [OF p] unat_pg algebra_simps)
qed

lemma pages_pg: "\<not> 2 ^ 32 - 4096 \<le> unat x \<Longrightarrow> pages (pg x) 4096 \<and> within (pg x) 4096 x"
proof -
  assume "\<not> 2 ^ 32 - 4096 \<le> unat x"
  then have "unat x < 1048575 * 4096" by simp
  then have "unat x div 4096 < 1048575" by (simp add: div_less_iff_less_mult)
  then have p: "pages (pg x) 4096" by (simp add: pages_def unat_pg)
  have "unat x div 4096 * 4096 \<le> unat x" "unat x < unat x div 4096 * 4096 + 4096"
    using div_mult_mod_eq [of "unat x" 4096] mod_less_divisor [of 4096 "unat x"] by linarith+
  with p show ?thesis by (simp add: pages_within unat_pg)
qed

lemma pg_pg: "pg (pg x) = pg x"
  unfolding pg_def [of "pg x"] unat_pg by (simp add: pg_def)

lemma within_pg_eq: "pages (pg a) 4096 \<Longrightarrow> within (pg a) 4096 y \<Longrightarrow> pg y = pg a"
proof -
  assume "pages (pg a) 4096" and "within (pg a) 4096 y"
  then have "unat a div 4096 * 4096 \<le> unat y" "unat y < unat a div 4096 * 4096 + 4096"
    by (simp_all add: pages_within unat_pg)
  then have "unat y div 4096 = unat a div 4096" by (simp add: div_nat_eqI)
  then show "pg y = pg a" by (simp add: pg_def)
qed

lemma not_last: "pages a n \<Longrightarrow> within a n x \<Longrightarrow> \<not> 2 ^ 32 - 4096 \<le> unat x"
proof -
  assume p: "pages a n" and w: "within a n x"
  then obtain i j where i: "unat a = 4096 * i" "unat n = 4096 * j" by (auto simp: pages_def elim!: dvdE)
  with p have "4096 * (i + j) < 4096 * 1048576" by (simp add: pages_def)
  then have "i + j \<le> 1048575" by simp
  moreover have "unat x < 4096 * (i + j)" using w i by (simp add: pages_within [OF p])
  ultimately show ?thesis by simp
qed

section \<open>The laws hold\<close>

lemma dr_uniform: "pages (pg a) 4096 \<Longrightarrow> within (pg a) 4096 y \<Longrightarrow> dr_cell s y = dr_cell s a"
  using within_pg_eq [of a y] by (simp add: dr_cell_def)

lemma dr_lookup: "lookup_law dr_host dr_ok dr_cell"
  unfolding lookup_law_def
proof (intro allI impI)
  fix s a assume ok: "dr_ok s"
  have last: "\<not> 2 ^ 32 - 4096 \<le> unat a" if "dr_cell s a \<noteq> CFree" using ok that unfolding dr_ok_def by blast
  show "case dr_cell s a of
     CFree \<Rightarrow> \<exists>k b n. l4rm_lookup_region dr_host a s = (k, b, n) \<and> (\<forall>d. k \<noteq> RegDataspace d) \<and> k \<noteq> RegReserved
       \<and> (k = RegFree \<longrightarrow> pages b n \<and> within b n a \<and> (\<forall>x. within b n x \<longrightarrow> dr_cell s x = CFree))
   | CReserved ar \<Rightarrow> \<exists>b n. l4rm_lookup_region dr_host a s = (RegReserved, b, n) \<and> pages b n \<and> within b n a
       \<and> (\<forall>x. within b n x \<longrightarrow> dr_cell s x = CReserved ar)
   | CMapped ar d b r \<Rightarrow> \<exists>n. l4rm_lookup_region dr_host a s = (RegDataspace d, b, n) \<and> pages b n
       \<and> (\<forall>x. within b n x \<longleftrightarrow> dr_cell s x = CMapped ar d b r)"
  proof (cases "dr_cell s a")
    case CFree
    show ?thesis
    proof (cases "2 ^ 32 - 4096 \<le> unat a")
      case False
      with pages_pg [OF False] dr_uniform [of a _ s] CFree show ?thesis by (simp add: dr_host_def)
    qed (simp add: CFree dr_host_def)
  next
    case (CReserved ar)
    with pages_pg [of a] last dr_uniform [of a _ s] show ?thesis by (simp add: dr_host_def)
  next
    case (CMapped ar d b r)
    with ok have "pages b (dr_len s b)" "\<forall>y. within b (dr_len s b) y \<longleftrightarrow> dr_cell s y = CMapped ar d b r" unfolding dr_ok_def by blast+
    with CMapped show ?thesis by (simp add: dr_host_def)
  qed
qed

text \<open>States that are \<open>dr_ok\<close> for another state: unmapping keeps what it does not touch.\<close>

lemma dr_ok_shrink:
  assumes "dr_ok s" and "dr_len s' = dr_len s" and "dr_next s \<le> dr_next s'"
    and "\<And>x ar d b r y. dr_cell s' x = CMapped ar d b r \<Longrightarrow> dr_cell s x = CMapped ar d b r \<and> (dr_cell s y = CMapped ar d b r \<longrightarrow> dr_cell s' y = CMapped ar d b r)"
    and "\<And>x. dr_cell s x = CFree \<Longrightarrow> 2 ^ 32 - 4096 \<le> unat x \<Longrightarrow> dr_cell s' x = CFree"
  shows "dr_ok s'"
proof -
  have "pages b (dr_len s' b) \<and> (\<forall>y. within b (dr_len s' b) y \<longleftrightarrow> dr_cell s' y = CMapped ar d b r) \<and> d < dr_next s'"
    if m: "dr_cell s' x = CMapped ar d b r" for x ar d b r
  proof -
    from assms(4) [OF m] have c: "dr_cell s x = CMapped ar d b r" by blast
    then have "pages b (dr_len s b)" "\<forall>y. within b (dr_len s b) y \<longleftrightarrow> dr_cell s y = CMapped ar d b r" "d < dr_next s"
      using assms(1) unfolding dr_ok_def by blast+
    with assms(2,3) assms(4) [OF m] assms(4) show ?thesis by (metis order_less_le_trans)
  qed
  moreover have "dr_cell s' x = CFree" if "2 ^ 32 - 4096 \<le> unat x" for x
    using assms(1) assms(5) [of x] that unfolding dr_ok_def by blast
  ultimately show ?thesis unfolding dr_ok_def by blast
qed

lemma dr_detach: "detach_law dr_host dr_ok dr_cell dr_dsb"
  unfolding detach_law_def
proof (intro allI impI, elim conjE)
  fix s a ar d b r assume ok: "dr_ok s" and m: "dr_cell s a = CMapped ar d b r"
  let ?s = "l4rm_detach dr_host a s"
  have s: "?s = s\<lparr>dr_page := \<lambda>p. if dr_page s p = CMapped ar d b r then CReserved ar else dr_page s p\<rparr>"
    using m by (simp add: dr_host_def)
  have c: "dr_cell ?s = (\<lambda>x. if dr_cell s x = CMapped ar d b r then CReserved ar else dr_cell s x)"
    by (rule ext) (simp add: s dr_cell_def)
  have "dr_ok ?s"
    by (rule dr_ok_shrink [OF ok]) (unfold c, auto simp: s split: if_splits)
  with c show "dr_ok ?s \<and> dr_dsb ?s = dr_dsb s \<and> dr_cell ?s = (\<lambda>x. if dr_cell s x = CMapped ar d b r then CReserved ar else dr_cell s x)"
    by (simp add: s)
qed

lemma dr_release: "release_law dr_host dr_ok dr_cell dr_dsb"
  unfolding release_law_def
proof (intro allI impI, elim conjE)
  fix s a ar assume ok: "dr_ok s" and r: "dr_cell s a = CReserved ar"
  let ?s = "s\<lparr>dr_page := \<lambda>p. if dr_page s p = CReserved ar then CFree else dr_page s p\<rparr>"
  have c: "dr_cell ?s = (\<lambda>x. if dr_cell s x = CReserved ar then CFree else dr_cell s x)"
    by (rule ext) (simp add: dr_cell_def)
  have "dr_ok ?s" by (rule dr_ok_shrink [OF ok]) (unfold c, simp_all split: if_splits)
  with c r show "\<exists>s'. l4rm_area_release_addr dr_host a s = (True, s') \<and> dr_ok s' \<and> dr_dsb s' = dr_dsb s
      \<and> dr_cell s' = (\<lambda>x. if dr_cell s x = CReserved ar then CFree else dr_cell s x)"
    by (intro exI [of _ ?s]) (simp add: dr_host_def)
qed

text \<open>Reserving and attaching.\<close>

lemma dr_reserve: "reserve_law dr_host dr_ok dr_cell dr_dsb"
  unfolding reserve_law_def
proof (intro allI impI, elim conjE)
  fix s n a ar s' assume ok: "dr_ok s" and r: "l4rm_area_reserve dr_host n s = (RsvAt a ar, s')"
  have g: "a = 0x10000" "ar = 7" "pages a n" "\<forall>x. within a n x \<longrightarrow> dr_cell s x = CFree"
    "\<forall>x. dr_cell s x \<noteq> CReserved ar \<and> (\<forall>d b r. dr_cell s x \<noteq> CMapped ar d b r)"
    "s' = s\<lparr>dr_page := \<lambda>p. if within a n p then CReserved ar else dr_page s p\<rparr>"
    using r by (auto simp: dr_host_def split: if_splits)
  have c: "dr_cell s' = (\<lambda>x. if within a n x then CReserved ar else dr_cell s x)"
    by (rule ext) (simp add: g(6) dr_cell_def within_pg [OF g(3)])
  have "dr_ok s'"
    by (rule dr_ok_shrink [OF ok]) (unfold c, use g(4) not_last [OF g(3)] in \<open>auto simp: g(6) split: if_splits\<close>)
  with c g show "dr_ok s' \<and> dr_dsb s' = dr_dsb s \<and> pages a n \<and> (\<forall>x. within a n x \<longrightarrow> dr_cell s x = CFree)
     \<and> (\<forall>x. dr_cell s x \<noteq> CReserved ar \<and> (\<forall>d b r. dr_cell s x \<noteq> CMapped ar d b r))
     \<and> dr_cell s' = (\<lambda>x. if within a n x then CReserved ar else dr_cell s x)"
    by simp
qed

lemma dr_attach: "attach_law dr_host dr_ok dr_cell dr_dsb"
  unfolding attach_law_def
proof (intro allI impI, elim conjE)
  fix s d ar a n r m
  assume ok: "dr_ok s" and n: "0 < n" "pages a n" and fresh: "\<forall>x ar b r. dr_cell s x \<noteq> CMapped ar d b r"
  let ?P = "\<forall>x. within a n x \<longrightarrow> dr_cell s x = CReserved ar"
  let ?s = "s\<lparr>dr_page := \<lambda>p. if within a n p then CMapped ar d a r else dr_page s p, dr_len := (dr_len s)(a := n), dr_next := max (dr_next s) (Suc d)\<rparr>"
  have run: "l4rm_area_attach_to_region dr_host d ar a n r s = (if ?P then (True, ?s) else (False, s))"
    using n by (simp add: dr_host_def)
  have c: "dr_cell ?s = (\<lambda>x. if within a n x then CMapped ar d a r else dr_cell s x)"
    by (rule ext) (simp add: dr_cell_def within_pg [OF n(2)])
  have "dr_ok ?s" if P: ?P
  proof -
    have "pages b (dr_len ?s b) \<and> (\<forall>y. within b (dr_len ?s b) y \<longleftrightarrow> dr_cell ?s y = CMapped ar' d' b r') \<and> d' < dr_next ?s"
      if m: "dr_cell ?s x = CMapped ar' d' b r'" for x ar' d' b r'
    proof (cases "within a n x")
      case True
      with m c have e: "ar' = ar" "d' = d" "b = a" "r' = r" by simp_all
      have w: "within a n y \<longleftrightarrow> dr_cell ?s y = CMapped ar d a r" for y using fresh by (simp add: c)
      have l: "dr_len ?s a = n" "d < dr_next ?s" by simp_all
      show ?thesis unfolding e l(1) using n(2) w l(2) by blast
    next
      case False
      then have x: "dr_cell s x = CMapped ar' d' b r'" using m by (simp add: c)
      then have l: "pages b (dr_len s b)" "\<forall>y. within b (dr_len s b) y \<longleftrightarrow> dr_cell s y = CMapped ar' d' b r'" "d' < dr_next s"
        using ok unfolding dr_ok_def by blast+
      have wx: "within b (dr_len s b) x" using l(2) x by blast
      then have "dr_len s b \<noteq> 0" unfolding within_def by (metis word_not_simps(1))
      then have "within b (dr_len s b) b" by (simp add: within_start word_gt_0)
      then have "dr_cell s b = CMapped ar' d' b r'" using l(2) by blast
      moreover have "dr_cell s a = CReserved ar" using P within_start [OF n(1)] by blast
      ultimately have "b \<noteq> a" by (metis cell.distinct(5))
      moreover have "dr_cell ?s y = CMapped ar' d' b r' \<longleftrightarrow> dr_cell s y = CMapped ar' d' b r'" for y
        using P fresh x by (auto simp: c)
      ultimately show ?thesis using l by auto
    qed
    moreover have "dr_cell ?s x = CFree" if "2 ^ 32 - 4096 \<le> unat x" for x
      using ok that not_last [OF n(2), of x] unfolding dr_ok_def c by auto
    ultimately show ?thesis unfolding dr_ok_def by blast
  qed
  with run ok c show "case l4rm_area_attach_to_region dr_host d ar a n r s of (done, s') \<Rightarrow>
        dr_ok s' \<and> dr_dsb s' = dr_dsb s \<and> done = ?P
        \<and> dr_cell s' = (if done then (\<lambda>x. if within a n x then CMapped ar d a r else dr_cell s x) else dr_cell s)"
    by auto
qed

lemma dr_new:
  assumes "dr_ok s" and "dr_next s \<le> d" and "dr_page s' = dr_page s" and "dr_len s' = dr_len s" and "dr_next s' = Suc d"
    and "\<forall>d'. d' \<noteq> d \<longrightarrow> dr_dsb s' d' = dr_dsb s d'" and "dr_size s' d = Some n"
  shows "fresh_ds dr_host dr_ok dr_cell dr_dsb n s (Some d) s'"
proof -
  have c: "dr_cell s' = dr_cell s" by (rule ext) (simp add: dr_cell_def assms(3))
  have "dr_ok s'" by (rule dr_ok_shrink [OF assms(1)]) (use assms(2,4,5) in \<open>simp_all add: c\<close>)
  moreover have "dr_cell s x \<noteq> CMapped ar d b r" for x ar b r
    using assms(1,2) unfolding dr_ok_def by (metis leD)
  ultimately show ?thesis using c assms(6,7) by (simp add: fresh_ds_def) (simp add: dr_host_def)
qed

lemma dr_mapper: "region_mapper dr_host dr_ok dr_cell dr_dsb"
proof -
  have o: "l4dm_mem_open dr_host n r s = (Some (dr_next s), s\<lparr>dr_size := (dr_size s)(dr_next s := Some n), dr_next := Suc (dr_next s)\<rparr>)" for n r s
    by (simp add: dr_host_def)
  have c: "l4dm_memphys_copy dr_host d offs n s = (Some (Suc (dr_next s + d)),
      s\<lparr>dr_dsb := (dr_dsb s)(Suc (dr_next s + d) := \<lambda>i. dr_dsb s d (unat offs + i)), dr_size := (dr_size s)(Suc (dr_next s + d) := Some n),
        dr_next := Suc (Suc (dr_next s + d))\<rparr>)" for d offs n s
    by (simp add: dr_host_def Let_def)
  have "open_law dr_host dr_ok dr_cell dr_dsb" unfolding open_law_def o fst_conv snd_conv by (intro allI impI dr_new) simp_all
  moreover have "copy_law dr_host dr_ok dr_cell dr_dsb"
    unfolding copy_law_def c fst_conv snd_conv by (intro allI impI conjI dr_new) auto
  moreover have "close_law dr_host dr_ok dr_cell dr_dsb" by (simp add: close_law_def dr_host_def)
  ultimately show ?thesis
    by (simp add: region_mapper_def dr_lookup dr_detach dr_attach dr_reserve dr_release)
qed

section \<open>Two areas\<close>

text \<open>
  Area 3 has four pages, of which \<open>k\<close> bytes at \<open>m\<close> are committed, and area 4 has one page directly behind it.
\<close>

definition demo_s :: "u32 \<Rightarrow> u32 \<Rightarrow> demo_rm" where
  "demo_s m k = \<lparr>
     dr_page = \<lambda>p. if within 0x20000 0x4000 p then (if within m k p then CMapped 3 0 m 3 else CReserved 3)
       else if within 0x24000 0x1000 p then CMapped 4 1 0x24000 3 else CFree,
     dr_len = \<lambda>b. if b = m then k else 0x1000, dr_dsb = \<lambda>d i. of_nat (d + i), dr_size = \<lambda>_. None, dr_next = 2\<rparr>"

definition demo_karea :: "u32 \<Rightarrow> u32 \<Rightarrow> u32 \<Rightarrow> u32 \<Rightarrow> u32 \<Rightarrow> karea" where
  "demo_karea ar a n nx pv = \<lparr>ka_name = [], ka_shared = False, ka_owner = 5, ka_rights = 0x13, ka_area = ar, ka_addr = a, ka_size = n,
     ka_next = nx, ka_prev = pv\<rparr>"

definition demo_kmem :: "u32 \<Rightarrow> u32 \<Rightarrow> demo_rm kmem" where
  "demo_kmem m k = \<lparr>kheap = [64 \<mapsto> demo_karea 3 0x20000 0x4000 0 80, 80 \<mapsto> demo_karea 4 0x24000 0x1000 64 0], kareas = 80,
     kmallocs = [(96, demo_karea 0 0 0 0 0)], krm = demo_s m k\<rparr>"

definition inside :: "u32 \<Rightarrow> u32 \<Rightarrow> bool" where
  "inside m k \<longleftrightarrow> pages m k \<and> 0 < k \<and> unat (0x20000 :: u32) \<le> unat m \<and> unat m + unat k \<le> unat (0x24000 :: u32)"

lemma demo_ranges:
  "within 0x20000 0x4000 x \<longleftrightarrow> 0x20000 \<le> unat x \<and> unat x < 0x24000" "within 0x24000 0x1000 x \<longleftrightarrow> 0x24000 \<le> unat x \<and> unat x < 0x25000"
  "pages 0x20000 0x4000" "pages 0x24000 0x1000"
  by (simp_all add: within_unat pages_def)

lemma demo_cell:
  "pages m k \<Longrightarrow> dr_cell (demo_s m k) x = (if within 0x20000 0x4000 x then (if within m k x then CMapped 3 0 m 3 else CReserved 3)
       else if within 0x24000 0x1000 x then CMapped 4 1 0x24000 3 else CFree)"
  by (simp add: dr_cell_def demo_s_def within_pg demo_ranges(3,4))

lemma demo_ok:
  assumes "inside m k"
  shows "dr_ok (demo_s m k)" and "once dr_cell (demo_s m k)"
proof -
  have p: "pages m k" and w: "within m k x \<Longrightarrow> 0x20000 \<le> unat x \<and> unat x < 0x24000" for x
    using assms by (auto simp: inside_def pages_within)
  note c = demo_cell [OF p]
  have "unat m < 0x24000" using assms by (simp add: inside_def word_less_nat_alt)
  then have m: "m \<noteq> 0x24000" by auto
  have l: "dr_len (demo_s m k) m = k" "dr_len (demo_s m k) 0x24000 = 0x1000" "dr_next (demo_s m k) = 2" using m by (simp_all add: demo_s_def)
  have r3: "within m k y \<longleftrightarrow> dr_cell (demo_s m k) y = CMapped 3 0 m 3" for y
    using w [of y] by (cases "within m k y") (auto simp: c demo_ranges(1,2))
  have r4: "within 0x24000 0x1000 y \<longleftrightarrow> dr_cell (demo_s m k) y = CMapped 4 1 0x24000 3" for y by (simp add: c demo_ranges(1,2))
  have which: "ar = 3 \<and> d = 0 \<and> b = m \<and> r = 3 \<or> ar = 4 \<and> d = 1 \<and> b = 0x24000 \<and> r = 3" if "dr_cell (demo_s m k) x = CMapped ar d b r" for x ar d b r
    using that by (auto simp: c split: if_splits)
  have "pages b (dr_len (demo_s m k) b) \<and> (\<forall>y. within b (dr_len (demo_s m k) b) y \<longleftrightarrow> dr_cell (demo_s m k) y = CMapped ar d b r) \<and> d < dr_next (demo_s m k)"
    if "dr_cell (demo_s m k) x = CMapped ar d b r" for x ar d b r
    using which [OF that] r3 r4 l p demo_ranges(4) by auto
  moreover have "dr_cell (demo_s m k) x = CFree" if "2 ^ 32 - 4096 \<le> unat x" for x using that by (simp add: c demo_ranges(1,2))
  ultimately show "dr_ok (demo_s m k)" unfolding dr_ok_def by blast
  show "once dr_cell (demo_s m k)" unfolding once_def using which by (metis one_neq_zero zero_neq_one)
qed

lemma demo_klist: "klist (demo_kmem m k) ([] @ 80 # 64 # [])"
  by (simp add: klist_def demo_kmem_def demo_karea_def)

lemma demo_area: "0x20000 \<le> unat pb \<Longrightarrow> unat pb < 0x24000 \<Longrightarrow> kal_get_area pb (demo_kmem m k) = Some 64"
  using klist_get [OF demo_klist, of pb m k] by (simp add: demo_kmem_def demo_karea_def in_karea_def word_le_nat_alt)

lemma demo_free: "unat (ka_addr v + ka_size v) < 2 ^ 32 - 4096 \<Longrightarrow>
    \<forall>s y. dr_ok s \<and> in_karea y v \<and> dr_cell s y = CFree \<longrightarrow> fst (l4rm_lookup_region dr_host y s) = RegFree"
  by (auto simp: dr_host_def in_karea_def word_le_nat_alt)

lemma demo_inside: "inside 0x20000 0x4000" "inside 0x23000 0x1000"
  by (simp_all add: inside_def pages_def)

lemma demo_facts:
  "kheap (demo_kmem m k) 64 = Some (demo_karea 3 0x20000 0x4000 0 80)" "kheap (demo_kmem m k) 80 = Some (demo_karea 4 0x24000 0x1000 64 0)"
  "krm (demo_kmem m k) = demo_s m k" "\<not> ka_shared (demo_karea ar a n nx pv)" "ka_area (demo_karea ar a n nx pv) = ar"
  "ka_addr (demo_karea ar a n nx pv) = a" "ka_size (demo_karea ar a n nx pv) = n" "(64 :: u32) \<noteq> 0"
  by (simp_all add: demo_kmem_def demo_karea_def)

lemma demo_host_succeeds:
  "\<forall>s ds offs n. dr_ok s \<longrightarrow> fst (l4dm_memphys_copy dr_host ds offs n s) \<noteq> None"
  "\<forall>s n r. dr_ok s \<longrightarrow> fst (l4dm_mem_open dr_host n r s) \<noteq> None"
  by (simp_all add: dr_host_def Let_def)

lemma demo_flags: "(0x20 :: u32) AND PAG_DECOMMIT \<noteq> 0" "(0x20 :: u32) AND PAG_COMMIT = 0" "(0x20 :: u32) AND PAG_DEFAULT = 0"
  "(0x13 :: u32) AND PAG_COMMIT \<noteq> 0" "(0x13 :: u32) AND PAG_DECOMMIT = 0" "(0x13 :: u32) AND PAG_DEFAULT = 0"
  "(0x13 :: u32) AND (PAG_READ OR PAG_WRITE OR PAG_EXECUTE) \<noteq> 0" "(0 :: u32) < 0x1000" "(0 :: u32) < 0x4000" "pages 0x21000 0x1000"
  by (simp_all add: pages_def)

section \<open>The theorems there\<close>

text \<open>A hole of one page in four committed ones: the three others keep their contents and lose all rights.\<close>

theorem pages_decommitted_witness:
  "\<exists>st'. KalSetMem dr_host 0x21000 0x1000 0x20 (demo_kmem 0x20000 0x4000) = Some (NO_ERROR, st')
    \<and> dr_cell (krm st') 0x21800 = CReserved 3 \<and> (\<exists>d b. dr_cell (krm st') 0x22000 = CMapped 3 d b 0)
    \<and> view dr_cell dr_dsb (krm st') 0x22000 = VByte 3 0"
proof -
  let ?s = "demo_s 0x20000 0x4000"
  note c = demo_cell [of "0x20000" "0x4000", OF demo_ranges(3)]
  have "\<forall>x. within 0x21000 0x1000 x \<longrightarrow> dr_cell ?s x = CReserved 3 \<or> (\<exists>d b q. dr_cell ?s x = CMapped 3 d b q)"
    by (simp add: c demo_ranges(1) within_unat)
  from pages_decommitted [OF dr_mapper _ _ demo_klist demo_area demo_facts(8,1,4) demo_flags(1-3,10,8) _ demo_host_succeeds(1),
      unfolded demo_facts, OF demo_ok [OF demo_inside(1)] _ _ this]
  obtain st' where st': "KalSetMem dr_host 0x21000 0x1000 0x20 (demo_kmem 0x20000 0x4000) = Some (NO_ERROR, st')"
    "\<And>x. if within 0x21000 0x1000 x then dr_cell (krm st') x = CReserved 3
         else view dr_cell dr_dsb (krm st') x = view dr_cell dr_dsb ?s x
           \<and> (if touched dr_cell ?s 0x21000 0x1000 x then \<exists>d b. dr_cell (krm st') x = CMapped 3 d b (dm_rights 0x20)
              else dr_cell (krm st') x = dr_cell ?s x)"
    by auto
  have "touched dr_cell ?s 0x21000 0x1000 0x22000"
    unfolding touched_def by (intro exI [of _ "0x21000"] exI) (simp add: c within_def)
  moreover have "view dr_cell dr_dsb ?s 0x22000 = VByte 3 0"
    by (simp add: view_def c within_def) (simp add: demo_s_def)
  moreover have "\<not> within 0x21000 0x1000 0x22000" "within 0x21000 0x1000 0x21800" by (simp_all add: within_def)
  moreover have "dm_rights 0x20 = 0" by (simp add: dm_rights_def)
  ultimately show ?thesis using st'(1) st'(2) [of "0x21800"] st'(2) [of "0x22000"] by auto
qed




theorem newest_area_dangles_witness:
  "\<exists>st'. KalFreeMem dr_host 0x24800 (demo_kmem 0x20000 0x4000) = Some (NO_ERROR, st') \<and> (\<forall>a. kal_get_area a st' = None)"
proof -
  let ?s = "demo_s 0x20000 0x4000" and ?v = "demo_karea 4 0x24000 0x1000 64 0"
  note c = demo_cell [of "0x20000" "0x4000", OF demo_ranges(3)]
  have own: "\<forall>x. within 0x24000 0x1000 x \<longleftrightarrow> dr_cell ?s x = CReserved 4 \<or> (\<exists>d b q. dr_cell ?s x = CMapped 4 d b q)"
    by (simp add: c demo_ranges(1,2))
  have fr: "\<forall>s y. dr_ok s \<and> in_karea y ?v \<and> dr_cell s y = CFree \<longrightarrow> fst (l4rm_lookup_region dr_host y s) = RegFree"
    by (rule demo_free) (simp add: demo_facts)
  have l: "klist (demo_kmem 0x20000 0x4000) (80 # [64])" using demo_klist by simp
  have g: "kal_get_area 0x24800 (demo_kmem 0x20000 0x4000) = Some 80"
    using klist_get [OF l, of "0x24800"] by (simp add: demo_facts in_karea_def)
  show ?thesis
    by (rule newest_area_dangles [OF dr_mapper _ _ l g demo_facts(2,4), unfolded demo_facts, OF demo_ok [OF demo_inside(1)]
      demo_ranges(4) demo_flags(8) own fr])
qed

end
