(* ===== verification/DosEnv.thy ===== *)
theory DosEnv
  imports KalFile
begin

text \<open>
  The environment of an application: \<open>DosScanEnv\<close> (\<^verbatim>\<open>src/OS2/CPI/doscalls/env.c\<close>) and the mapping of the information
  blocks that the OS/2 server made (\<open>KalGetPIB\<close>, \<open>KalGetTIB\<close>, \<open>KalMapInfoBlocks\<close> and \<open>KalGetInfoBlocks\<close> of
  \<^verbatim>\<open>kal.c\<close>). The memory of the application is the same kind of partly mapped memory as the server's.
\<close>

section \<open>Information blocks\<close>

text \<open>
  \<open>got\<close> is the answer of the server (a code and a dataspace), \<open>att\<close> attaches a dataspace to the memory at an address of the host's choice.
  The pointers in the block are relative to its start. The result is the code, the address stored for the caller, if any, and the memory.
\<close>

definition rebase :: "u32 \<Rightarrow> u32 \<Rightarrow> pmem \<Rightarrow> pmem option" where
  "rebase base off m = do { c \<leftarrow> ld32 m (base + off); st32 m (base + off) (c + base) }"

definition KalGetPIB :: "u32 \<times> 'd \<Rightarrow> ('d \<Rightarrow> pmem \<Rightarrow> int \<times> u32 \<times> pmem) \<Rightarrow> pmem \<Rightarrow> (u32 \<times> u32 option \<times> pmem) option" where
  "KalGetPIB got att m =
     (if fst got \<noteq> 0 then Some (fst got, None, m)
      else let (rc, addr, m) = att (snd got) m in
        if rc \<noteq> 0 then Some (of_int rc, None, m)
        else do {
          m \<leftarrow> rebase addr pib_pchcmd m;
          m \<leftarrow> rebase addr pib_pchenv m;
          Some (NO_ERROR, Some addr, m) })"

definition KalGetTIB :: "u32 \<times> 'd \<Rightarrow> ('d \<Rightarrow> pmem \<Rightarrow> int \<times> u32 \<times> pmem) \<Rightarrow> pmem \<Rightarrow> (u32 \<times> u32 option \<times> pmem) option" where
  "KalGetTIB got att m =
     (if fst got \<noteq> 0 then Some (fst got, None, m)
      else let (rc, addr, m) = att (snd got) m in
        if rc \<noteq> 0 then Some (of_int rc, None, m)
        else do {
          m \<leftarrow> rebase addr tib_ptib2 m;
          Some (NO_ERROR, Some addr, m) })"

text \<open>The codes of the two calls are dropped; a pointer that was not stored keeps its value.\<close>

definition KalMapInfoBlocks ::
    "u32 \<times> 'd \<Rightarrow> u32 \<times> 'd \<Rightarrow> ('d \<Rightarrow> pmem \<Rightarrow> int \<times> u32 \<times> pmem) \<Rightarrow> u32 \<Rightarrow> u32 \<Rightarrow> pmem \<Rightarrow> (u32 \<times> u32 \<times> u32 \<times> pmem) option" where
  "KalMapInfoBlocks gottib gotpib att ptib ppib m = do {
     (_, t, m) \<leftarrow> KalGetTIB gottib att m;
     (_, p, m) \<leftarrow> KalGetPIB gotpib att m;
     Some (NO_ERROR, case t of None \<Rightarrow> ptib | Some t \<Rightarrow> t, case p of None \<Rightarrow> ppib | Some p \<Rightarrow> p, m) }"

text \<open>The blocks of the running thread, from the array of thread blocks and the one process block.\<close>

definition KalGetInfoBlocks :: "u32 \<Rightarrow> u32 list \<Rightarrow> u32 \<Rightarrow> (u32 \<times> u32 \<times> u32) option" where
  "KalGetInfoBlocks tid ptib ppib =
     (if unat (tid - 1) < length ptib then Some (NO_ERROR, ptib ! unat (tid - 1), ppib) else None)"

section \<open>Environment variables\<close>

text \<open>The name of a string: up to the equals sign, the end of the string or the size of the array.\<close>

fun env_name :: "pmem \<Rightarrow> u32 \<Rightarrow> nat \<Rightarrow> (u8 list \<times> u32) option" where
  "env_name m q 0 = do { c \<leftarrow> ld8 m q; Some ([], q) }"
| "env_name m q (Suc n) = do {
     c \<leftarrow> ld8 m q;
     if c = 0 \<or> c = 61 then Some ([], q)
     else do { (s, q) \<leftarrow> env_name m (q + 1) n; Some (c # s, q) } }"

definition lower8 :: "u8 \<Rightarrow> u8" where
  "lower8 b = u8_of_char (tolower (char_of_u8 b))"

text \<open>The loop over the strings, with \<open>strcasecmp\<close> as the comparison.\<close>

partial_function (option) scan_env :: "pmem \<Rightarrow> u8 list \<Rightarrow> u32 \<Rightarrow> (u32 \<times> u32 option) option" where
  "scan_env m name p = do {
     c \<leftarrow> ld8 m p;
     if c = 0 then Some (ERROR_ENVVAR_NOT_FOUND, None)
     else do {
       (s, q) \<leftarrow> env_name m p (CCHMAXPATH - 1);
       if map lower8 s = map lower8 name then Some (NO_ERROR, Some (q + 1))
       else do { l \<leftarrow> strlen_at m p; scan_env m name (p + of_nat (l + 1)) } } }"

definition DosScanEnv :: "pmem \<Rightarrow> u32 \<Rightarrow> u8 list \<Rightarrow> (u32 \<times> u32 option) option" where
  "DosScanEnv m pib pszName = do { env \<leftarrow> ld32 m (pib + pib_pchenv); scan_env m pszName env }"

section \<open>Lookup\<close>

text \<open>An environment: names without an equals sign and their values, as strings.\<close>

definition var_ok :: "u8 list \<times> u8 list \<Rightarrow> bool" where
  "var_ok = (\<lambda>(n, v). n \<noteq> [] \<and> length n < CCHMAXPATH \<and> 0 \<notin> set n \<and> 61 \<notin> set n \<and> 0 \<notin> set v)"

definition env_block :: "(u8 list \<times> u8 list) list \<Rightarrow> u8 list list" where
  "env_block vs = map (\<lambda>(n, v). n @ 61 # v) vs"

definition same_var :: "u8 list \<Rightarrow> u8 list \<times> u8 list \<Rightarrow> bool" where
  "same_var name = (\<lambda>(n, v). map lower8 n = map lower8 name)"

lemma env_name_bytes:
  "length n \<le> k \<Longrightarrow> 0 \<notin> set n \<Longrightarrow> 61 \<notin> set n \<Longrightarrow> bytes_at m p (n @ 61 # r) \<Longrightarrow> env_name m p k = Some (n, p + of_nat (length n))"
proof (induction n arbitrary: p k)
  case Nil
  then show ?case by (cases k) auto
next
  case (Cons c n)
  then obtain k' where k: "k = Suc k'" by (cases k) auto
  have "env_name m (p + 1) k' = Some (n, p + 1 + of_nat (length n))" using Cons k by (intro Cons.IH) auto
  with Cons.prems k show ?case by (auto simp: algebra_simps)
qed

lemma scan_env_bytes:
  assumes "list_all var_ok vs" and "bytes_at m p (strlst (env_block vs))"
  shows "\<exists>a. scan_env m name p = Some (case find (same_var name) vs of None \<Rightarrow> (ERROR_ENVVAR_NOT_FOUND, None) | Some _ \<Rightarrow> (NO_ERROR, Some a))
    \<and> (\<forall>n v. find (same_var name) vs = Some (n, v) \<longrightarrow> bytes_at m a (v @ [0]))"
  using assms
proof (induction vs arbitrary: p)
  case Nil
  then show ?case by (auto simp: env_block_def scan_env.simps)
next
  case (Cons x vs)
  obtain n v where x: "x = (n, v)" by (cases x)
  have ok: "n \<noteq> []" "length n \<le> CCHMAXPATH - 1" "0 \<notin> set n" "61 \<notin> set n" "0 \<notin> set v"
    using Cons.prems(1) by (auto simp: x var_ok_def)
  have at: "bytes_at m p (n @ 61 # v @ 0 # strlst (env_block vs))"
    using Cons.prems(2) by (simp add: env_block_def x)
  obtain c cs where n: "n = c # cs" "c \<noteq> 0" using ok by (cases n) auto
  have c: "ld8 m p = Some c" using at n by simp
  have nm: "env_name m p (CCHMAXPATH - 1) = Some (n, p + of_nat (length n))" by (rule env_name_bytes [OF ok(2-4) at])
  have val: "bytes_at m (p + of_nat (length n) + 1) (v @ [0])" using at by simp
  define k where "k = length (n @ 61 # v)"
  have "strlen_at m p = Some k" unfolding k_def using at ok by (intro strlen_at_bytes) auto
  then have step: "scan_env m name p = (if same_var name x then Some (NO_ERROR, Some (p + of_nat (length n) + 1)) else scan_env m name (p + of_nat (k + 1)))"
    using c n(2) nm by (subst scan_env.simps) (simp add: x same_var_def)
  have "bytes_at m (p + of_nat (k + 1)) (strlst (env_block vs))" using at by (simp add: k_def algebra_simps)
  then obtain a where a: "scan_env m name (p + of_nat (k + 1)) = Some (case find (same_var name) vs of None \<Rightarrow> (ERROR_ENVVAR_NOT_FOUND, None) | Some _ \<Rightarrow> (NO_ERROR, Some a))"
      "\<forall>n v. find (same_var name) vs = Some (n, v) \<longrightarrow> bytes_at m a (v @ [0])"
    using Cons.IH [of "p + of_nat (k + 1)"] Cons.prems(1) by auto
  show ?case
  proof (cases "same_var name x")
    case True
    with step val show ?thesis by (intro exI [of _ "p + of_nat (length n) + 1"]) (simp add: x)
  next
    case False
    with step a show ?thesis by (intro exI [of _ a]) simp
  qed
qed

section \<open>The environment of a child\<close>

text \<open>The application sees the \<open>n\<close> bytes at \<open>A\<close> of the server's memory at \<open>C\<close>.\<close>

definition shows_block :: "pmem \<Rightarrow> u32 \<Rightarrow> nat \<Rightarrow> pmem \<Rightarrow> u32 \<Rightarrow> bool" where
  "shows_block m A n cl C \<longleftrightarrow> n \<le> 2 ^ 32 \<and> (\<forall>i<n. ld8 cl (C + of_nat i) = ld8 m (A + of_nat i) \<and> mp cl (C + of_nat i))"

lemma shows_bytes:
  assumes "shows_block m A n cl C" and "i + length bs \<le> n" and "bytes_at m (A + of_nat i) bs"
  shows "bytes_at cl (C + of_nat i) bs"
  using assms(2,3)
proof (induction bs arbitrary: i)
  case (Cons b bs)
  have "bytes_at cl (C + of_nat (i + 1)) bs" using Cons by (intro Cons.IH) (simp_all add: algebra_simps)
  moreover have "ld8 cl (C + of_nat i) = Some b" using assms(1) Cons.prems by (simp add: shows_block_def)
  ultimately show ?case by (simp add: algebra_simps)
qed simp

lemma shows_ld32:
  assumes "shows_block m A n cl C" and "i + 4 \<le> n" and "ld32 m (A + of_nat i) = Some w"
  shows "ld32 cl (C + of_nat i) = Some w"
proof -
  have k: "\<exists>b. ld8 cl (C + of_nat i + of_nat j) = Some b \<and> mp cl (C + of_nat i + of_nat j)
      \<and> mb cl (C + of_nat i + of_nat j) = mb m (A + of_nat i + of_nat j)" if "j < 4" for j
  proof -
    have "mp m (A + of_nat i + of_nat j)"
      using assms(3) that by (auto simp: ld32_def all_mapped_cells cells_def split: if_splits)
    moreover have "ld8 cl (C + of_nat (i + j)) = ld8 m (A + of_nat (i + j))" "mp cl (C + of_nat (i + j))"
      using assms(1,2) that unfolding shows_block_def by (meson add_strict_left_mono less_le_trans)+
    ultimately show ?thesis by (simp add: ld8_def add.assoc)
  qed
  have b: "mb cl (C + of_nat i) = mb m (A + of_nat i)" "mb cl (C + of_nat i + 1) = mb m (A + of_nat i + 1)"
      "mb cl (C + of_nat i + 2) = mb m (A + of_nat i + 2)" "mb cl (C + of_nat i + 3) = mb m (A + of_nat i + 3)"
      "all_mapped (mp cl) (C + of_nat i) 4"
    using k [of 0] k [of 1] k [of 2] k [of 3] by (auto simp: all_mapped_4)
  then show ?thesis using assms(3) by (auto simp: ld32_def mem_rd32_def split: if_splits)
qed

lemma ld32_mapped: "ld32 m a = Some w \<Longrightarrow> all_mapped (mp m) a 4"
  by (simp add: ld32_def split: if_splits)

text \<open>What both sides do to a block: two pointers are moved, everything behind the header is kept.\<close>

lemma move_pointers:
  assumes "ld32 m (A + 12) = Some c" and "ld32 m (A + 16) = Some e"
  obtains m1 m2 where "st32 m (A + 12) c' = Some m1" "ld32 m1 (A + 16) = Some e" "st32 m1 (A + 16) e' = Some m2"
    "ld32 m2 (A + 12) = Some c'" "ld32 m2 (A + 16) = Some e'" "\<forall>j bs. 20 \<le> j \<and> j + length bs \<le> 2 ^ 32 \<longrightarrow> bytes_at m2 (A + of_nat j) bs = bytes_at m (A + of_nat j) bs"
proof -
  obtain m1 where m1: "st32 m (A + 12) c' = Some m1" using st32_ok ld32_mapped [OF assms(1)] by blast
  have e: "ld32 m1 (A + 16) = Some e" using st32_ld32_other [OF m1, of "A + 16"] assms(2) cells_apart [of 12 4 16 4 A] by simp
  obtain m2 where m2: "st32 m1 (A + 16) e' = Some m2" using st32_ok ld32_mapped [OF e] by blast
  have c: "ld32 m2 (A + 12) = Some c'"
    using st32_ld32_other [OF m2, of "A + 12"] ld32_st32 [OF m1] cells_apart [of 12 4 16 4 A] by (simp add: Int_commute)
  have bt: "bytes_at m2 (A + of_nat j) bs = bytes_at m (A + of_nat j) bs" if "20 \<le> j" "j + length bs \<le> 2 ^ 32" for j bs
    using st32_bytes_other [OF m1, of "A + of_nat j" bs] st32_bytes_other [OF m2, of "A + of_nat j" bs]
      cells_apart [of 12 4 j "length bs" A] cells_apart [of 16 4 j "length bs" A] that by simp
  show thesis using that [OF m1 e m2 c ld32_st32 [OF m2]] bt by blast
qed

lemma KalGetPIB_run:
  assumes "ld32 cl (C + 12) = Some c" and "ld32 cl (C + 16) = Some e" and "att ds cm = (0, C, cl)"
  obtains cl' where "KalGetPIB (NO_ERROR, ds) att cm = Some (NO_ERROR, Some C, cl')" "ld32 cl' (C + 16) = Some (e + C)"
    "\<forall>j bs. 20 \<le> j \<and> j + length bs \<le> 2 ^ 32 \<longrightarrow> bytes_at cl' (C + of_nat j) bs = bytes_at cl (C + of_nat j) bs"
proof -
  obtain m1 m2 where "st32 cl (C + 12) (c + C) = Some m1" "ld32 m1 (C + 16) = Some e" "st32 m1 (C + 16) (e + C) = Some m2"
    "ld32 m2 (C + 16) = Some (e + C)" "\<forall>j bs. 20 \<le> j \<and> j + length bs \<le> 2 ^ 32 \<longrightarrow> bytes_at m2 (C + of_nat j) bs = bytes_at cl (C + of_nat j) bs"
    using move_pointers [OF assms(1,2), of "c + C" "e + C"] by metis
  with assms show thesis by (intro that [of m2]) (simp_all add: KalGetPIB_def rebase_def)
qed

lemma CPGetPIB_run:
  assumes "caller host t st = Some (p, w)" and "ld32 (psp st) (lx_pib w + 12) = Some c" and "ld32 (psp st) (lx_pib w + 16) = Some e"
  obtains m where "CPGetPIB host t st = Some (NO_ERROR, st\<lparr>psp := m\<rparr>)" "ld32 m (lx_pib w + 12) = Some (c - lx_pib w)"
    "ld32 m (lx_pib w + 16) = Some (e - lx_pib w)"
    "\<forall>j bs. 20 \<le> j \<and> j + length bs \<le> 2 ^ 32 \<longrightarrow> bytes_at m (lx_pib w + of_nat j) bs = bytes_at (psp st) (lx_pib w + of_nat j) bs"
proof -
  let ?A = "lx_pib w"
  obtain m1 m2 where "st32 (psp st) (?A + 12) (c - ?A) = Some m1" "ld32 m1 (?A + 16) = Some e" "st32 m1 (?A + 16) (e - ?A) = Some m2"
    "ld32 m2 (?A + 12) = Some (c - ?A)" "ld32 m2 (?A + 16) = Some (e - ?A)"
    "\<forall>j bs. 20 \<le> j \<and> j + length bs \<le> 2 ^ 32 \<longrightarrow> bytes_at m2 (?A + of_nat j) bs = bytes_at (psp st) (?A + of_nat j) bs"
    using move_pointers [OF assms(2,3), of "c - ?A" "e - ?A"] by metis
  with assms show thesis by (intro that [of m2]) (simp_all add: CPGetPIB_def Let_def)
qed

text \<open>C5: From the environment that the server put into the process information block to the variable that the application asks
  for: \<open>CPGetPIB\<close> makes the pointers relative, \<open>KalGetPIB\<close> makes them point into the attached block, wherever it is
  attached, and \<open>DosScanEnv\<close> finds the first variable of that name, in any case of letters, and no other.\<close>

theorem environment_scanned:
  assumes "caller host t st = Some (p, w)" and "pib_layout (psp st) (lx_pib w) (env_block vs) prg as" and "list_all var_ok vs"
    and "n = pib_args (env_block vs) prg + length (strlst as)" and "n \<le> 2 ^ 32"
  shows "\<exists>st'. CPGetPIB host t st = Some (NO_ERROR, st')
    \<and> (\<forall>(att :: 'd \<Rightarrow> pmem \<Rightarrow> int \<times> u32 \<times> pmem) ds cm C cl. att ds cm = (0, C, cl) \<and> shows_block (psp st') (lx_pib w) n cl C \<longrightarrow>
        (\<exists>cl'. KalGetPIB (NO_ERROR, ds) att cm = Some (NO_ERROR, Some C, cl')
          \<and> (\<forall>name. \<exists>a. DosScanEnv cl' C name =
                Some (case find (same_var name) vs of None \<Rightarrow> (ERROR_ENVVAR_NOT_FOUND, None) | Some _ \<Rightarrow> (NO_ERROR, Some a))
              \<and> (\<forall>k v. find (same_var name) vs = Some (k, v) \<longrightarrow> bytes_at cl' a (v @ [0])))))"
proof -
  let ?A = "lx_pib w" and ?es = "env_block vs"
  have lay: "ld32 (psp st) (?A + 12) = Some (?A + of_nat (pib_args ?es prg))" "ld32 (psp st) (?A + 16) = Some (?A + 28)"
      "bytes_at (psp st) (?A + of_nat 28) (strlst ?es)"
    using assms(2) by (simp_all add: pib_layout_def)
  have len: "28 + length (strlst ?es) \<le> n"
    using strlst_envlen [of ?es] assms(4) by (simp add: pib_args_def pib_prg_def)
  obtain m where m: "CPGetPIB host t st = Some (NO_ERROR, st\<lparr>psp := m\<rparr>)" "ld32 m (?A + 12) = Some (of_nat (pib_args ?es prg))"
      "ld32 m (?A + 16) = Some 28" "bytes_at m (?A + of_nat 28) (strlst ?es)"
  proof (rule CPGetPIB_run [OF assms(1) lay(1,2)])
    fix m
    assume m: "CPGetPIB host t st = Some (NO_ERROR, st\<lparr>psp := m\<rparr>)" "ld32 m (?A + 12) = Some (?A + of_nat (pib_args ?es prg) - ?A)"
      "ld32 m (?A + 16) = Some (?A + 28 - ?A)"
      "\<forall>j bs. 20 \<le> j \<and> j + length bs \<le> 2 ^ 32 \<longrightarrow> bytes_at m (?A + of_nat j) bs = bytes_at (psp st) (?A + of_nat j) bs"
    from m(4) [rule_format, of 28 "strlst ?es"] lay(3) len assms(5) have "bytes_at m (?A + of_nat 28) (strlst ?es)" by simp
    with m(1-3) show thesis by (intro that) simp_all
  qed
  show ?thesis
  proof (rule exI [of _ "st\<lparr>psp := m\<rparr>"], rule conjI, rule m(1), intro allI impI)
    fix att :: "'d \<Rightarrow> pmem \<Rightarrow> int \<times> u32 \<times> pmem" and ds cm C cl
    assume a: "att ds cm = (0, C, cl) \<and> shows_block (psp (st\<lparr>psp := m\<rparr>)) ?A n cl C"
    then have sh: "shows_block m ?A n cl C" by simp
    have "ld32 cl (C + 12) = Some (of_nat (pib_args ?es prg))" "ld32 cl (C + 16) = Some 28"
      using shows_ld32 [OF sh, of 12] shows_ld32 [OF sh, of 16] m(2,3) len by simp_all
    then obtain cl' where cl': "KalGetPIB (NO_ERROR, ds) att cm = Some (NO_ERROR, Some C, cl')" "ld32 cl' (C + 16) = Some (28 + C)"
        "\<forall>j bs. 20 \<le> j \<and> j + length bs \<le> 2 ^ 32 \<longrightarrow> bytes_at cl' (C + of_nat j) bs = bytes_at cl (C + of_nat j) bs"
      using KalGetPIB_run a by metis
    have "bytes_at cl (C + of_nat 28) (strlst ?es)" using shows_bytes [OF sh len m(4)] .
    then have bt: "bytes_at cl' (28 + C) (strlst ?es)" using cl'(3) [rule_format, of 28 "strlst ?es"] len assms(5) by (simp add: add.commute)
    show "\<exists>cl'. KalGetPIB (NO_ERROR, ds) att cm = Some (NO_ERROR, Some C, cl')
      \<and> (\<forall>name. \<exists>a. DosScanEnv cl' C name =
            Some (case find (same_var name) vs of None \<Rightarrow> (ERROR_ENVVAR_NOT_FOUND, None) | Some _ \<Rightarrow> (NO_ERROR, Some a))
          \<and> (\<forall>k v. find (same_var name) vs = Some (k, v) \<longrightarrow> bytes_at cl' a (v @ [0])))"
      using cl'(1,2) scan_env_bytes [OF assms(3) bt] by (simp add: DosScanEnv_def)
  qed
qed

definition demo_block :: pmem where
  "demo_block = demo_mem\<lparr>mb := mem_wr (\<lambda>_. 0) 4112
     [0, 0, 0, 0, 0, 0, 0, 0, 0, 0, 0, 0, 51, 16, 0, 0, 44, 16, 0, 0, 0, 0, 0, 0, 0, 0, 0, 0, 65, 61, 49, 0, 0, 80, 0, 112, 0, 0]\<rparr>"

lemma demo_block_layout: "pib_layout demo_block 4112 (env_block [([65], [49])]) [80] [[112]]"
  by (simp add: pib_layout_def env_block_def pib_args_def pib_prg_def envlen_def)
    (simp add: demo_block_def demo_mem_def ld32_def ld8_def all_mapped_4 mem_rd32_def)

theorem environment_scanned_witness:
  "\<exists>st'. CPGetPIB (demo_prc_host 64) 6 (demo_table\<lparr>psp := demo_block\<rparr>) = Some (NO_ERROR, st')
    \<and> (\<forall>(att :: u32 \<Rightarrow> pmem \<Rightarrow> int \<times> u32 \<times> pmem) ds cm C cl. att ds cm = (0, C, cl) \<and> shows_block (psp st') 4112 38 cl C \<longrightarrow>
        (\<exists>cl'. KalGetPIB (NO_ERROR, ds) att cm = Some (NO_ERROR, Some C, cl')
          \<and> (\<forall>name. \<exists>a. DosScanEnv cl' C name =
                Some (case find (same_var name) [([65], [49])] of None \<Rightarrow> (ERROR_ENVVAR_NOT_FOUND, None) | Some _ \<Rightarrow> (NO_ERROR, Some a))
              \<and> (\<forall>k v. find (same_var name) [([65], [49])] = Some (k, v) \<longrightarrow> bytes_at cl' a (v @ [0])))))"
proof -
  have "PrcGetProcNative (demo_prc_host 64) 6 (demo_table\<lparr>psp := demo_block\<rparr>) = PrcGetProcNative (demo_prc_host 64) 6 demo_table"
    by (simp add: PrcGetProcNative_def)
  then have c: "caller (demo_prc_host 64) 6 (demo_table\<lparr>psp := demo_block\<rparr>) = Some (32, demo_proc 1 6 ''OS2'' 0 16)"
    using demo_caller by (simp add: caller_Some)
  show ?thesis
    using environment_scanned [OF c, of "[([65], [49])]" "[80]" "[[112]]" 38] demo_block_layout
    by (simp add: demo_proc_def var_ok_def pib_args_def pib_prg_def envlen_def env_block_def)
qed

end
