(* ===== verification/KalThread.thy ===== *)
theory KalThread
  imports DosEnv
begin

text \<open>
  Threads of an application (\<open>KalCreateThread\<close>, \<open>KalSuspendThread\<close>, \<open>KalResumeThread\<close>, \<open>KalWaitThread\<close>, \<open>KalKillThread\<close> and \<open>KalExit\<close> in
  \<^verbatim>\<open>kal.c\<close>). A thread is suspended by making the host exchange its instruction and stack pointer for those of a loop that only
  waits; the exchanged values are kept in its information block. The calls of the OS/2 server on behalf of the running
  thread and the threads of the host are the fields of a record.
\<close>

section \<open>State\<close>

datatype create_error = NoThread | NoMemory | OtherError

record ('s, 'd) kt_host =
  kt_pid :: "'s \<Rightarrow> u32"
  kt_tid :: "'s \<Rightarrow> u32"
  kt_native :: "u32 \<Rightarrow> u32 \<Rightarrow> 's \<Rightarrow> 64 word"
  kt_tid_native :: "64 word \<Rightarrow> 's \<Rightarrow> u32"
  kt_new_tib :: "u32 \<Rightarrow> u32 \<Rightarrow> 64 word \<Rightarrow> 's \<Rightarrow> 's"
  kt_destroy_tib :: "u32 \<Rightarrow> u32 \<Rightarrow> 's \<Rightarrow> 's"
  kt_get_tib :: "'s \<Rightarrow> (u32 \<times> 'd) \<times> 's"
  kt_exit :: "u32 \<Rightarrow> u32 \<Rightarrow> 's \<Rightarrow> 's"
  kt_attach :: "'d \<Rightarrow> pmem \<Rightarrow> int \<times> u32 \<times> pmem"
  l4thread_create_long :: "u32 \<Rightarrow> u32 \<Rightarrow> u32 \<Rightarrow> bool \<Rightarrow> 's \<Rightarrow> (64 word + create_error) \<times> 's"
  l4_thread_ex_regs :: "64 word \<Rightarrow> u32 \<Rightarrow> u32 \<Rightarrow> 's \<Rightarrow> (u32 \<times> u32) \<times> 's"
  l4thread_shutdown :: "64 word \<Rightarrow> 's \<Rightarrow> int \<times> 's"
  kt_wait_func :: u32
  kt_invalid :: "64 word"

text \<open>\<open>ptib\<close> and \<open>ulThread\<close> are variables of the library, \<open>kt_mem\<close> is the memory of the application.\<close>

record 's kthreads =
  kt_ptib :: "u32 list"
  ulThread :: u32
  kt_mem :: pmem
  kt_sys :: 's

abbreviation (input) tib_eip_saved :: u32 where "tib_eip_saved \<equiv> 24"
abbreviation (input) tib_esp_saved :: u32 where "tib_esp_saved \<equiv> 28"

definition ptib_at :: "'s kthreads \<Rightarrow> u32 \<Rightarrow> u32 option" where
  "ptib_at st tid = (if unat (tid - 1) < length (kt_ptib st) then Some (kt_ptib st ! unat (tid - 1)) else None)"

definition save_regs :: "u32 \<Rightarrow> u32 \<Rightarrow> u32 \<Rightarrow> pmem \<Rightarrow> pmem option" where
  "save_regs tib eip esp m = do { m \<leftarrow> st32 m (tib + tib_eip_saved) eip; st32 m (tib + tib_esp_saved) esp }"

section \<open>Suspending and resuming\<close>

definition KalSuspendThread :: "('s, 'd) kt_host \<Rightarrow> u32 \<Rightarrow> 's kthreads \<Rightarrow> (u32 \<times> 's kthreads) option" where
  "KalSuspendThread host tid st =
     (let th = kt_native host (kt_pid host (kt_sys st)) tid (kt_sys st) in
      if th = kt_invalid host then Some (ERROR_INVALID_THREADID, st)
      else let ((eip, esp), s) = l4_thread_ex_regs host th (kt_wait_func host) (- 1) (kt_sys st) in do {
        tib \<leftarrow> ptib_at st tid;
        m \<leftarrow> save_regs tib eip esp (kt_mem st);
        Some (NO_ERROR, st\<lparr>kt_mem := m, kt_sys := s\<rparr>) })"

definition KalResumeThread :: "('s, 'd) kt_host \<Rightarrow> u32 \<Rightarrow> 's kthreads \<Rightarrow> (u32 \<times> 's kthreads) option" where
  "KalResumeThread host tid st =
     (let th = kt_native host (kt_pid host (kt_sys st)) tid (kt_sys st) in
      if th = kt_invalid host then Some (ERROR_INVALID_THREADID, st)
      else do {
        tib \<leftarrow> ptib_at st tid;
        eip \<leftarrow> ld32 (kt_mem st) (tib + tib_eip_saved);
        if eip = 0 then Some (ERROR_NOT_FROZEN, st)
        else do {
          esp \<leftarrow> ld32 (kt_mem st) (tib + tib_esp_saved);
          let (_, s) = l4_thread_ex_regs host th eip esp (kt_sys st);
          m \<leftarrow> save_regs tib 0 0 (kt_mem st);
          Some (NO_ERROR, st\<lparr>kt_mem := m, kt_sys := s\<rparr>) } })"

section \<open>Creation, waiting and end\<close>

abbreviation (input) CREATE_SUSPENDED :: u32 where "CREATE_SUSPENDED \<equiv> 1"
abbreviation (input) STACK_COMMITED :: u32 where "STACK_COMMITED \<equiv> 2"

text \<open>
  The information block that is stored for the new thread is the one of the running thread. The code and \<open>*ptid\<close>; the
  codes of the calls to the server are dropped.
\<close>

definition KalCreateThread ::
    "('s, 'd) kt_host \<Rightarrow> u32 \<Rightarrow> u32 \<Rightarrow> u32 \<Rightarrow> u32 \<Rightarrow> 's kthreads \<Rightarrow> (u32 \<times> u32 option \<times> 's kthreads) option" where
  "KalCreateThread host pfn param flag cbStack st =
     (case l4thread_create_long host pfn param cbStack (flag AND STACK_COMMITED \<noteq> 0) (kt_sys st) of
        (Inr e, s) \<Rightarrow> Some (case e of NoThread \<Rightarrow> ERROR_MAX_THRDS_REACHED | NoMemory \<Rightarrow> ERROR_NOT_ENOUGH_MEMORY | OtherError \<Rightarrow> ERROR_INVALID_PARAMETER,
            None, st\<lparr>kt_sys := s\<rparr>)
      | (Inl thread, s) \<Rightarrow>
          (let tid = ulThread st + 1;
               s = kt_new_tib host (kt_pid host s) tid thread s;
               (got, s) = kt_get_tib host s in do {
             (_, p, m) \<leftarrow> KalGetTIB got (kt_attach host) (kt_mem st);
             let i = unat (tid - 1);
             if length (kt_ptib st) \<le> i then None
             else do {
               let ptib = (case p of None \<Rightarrow> kt_ptib st | Some p \<Rightarrow> (kt_ptib st)[i := p]);
               m \<leftarrow> save_regs (ptib ! i) 0 0 m;
               let st = st\<lparr>kt_ptib := ptib, ulThread := tid, kt_mem := m, kt_sys := s\<rparr>;
               if flag AND CREATE_SUSPENDED \<noteq> 0 then do { (_, st) \<leftarrow> KalSuspendThread host tid st; Some (NO_ERROR, Some tid, st) }
               else Some (NO_ERROR, Some tid, st) } }))"

abbreviation (input) DCWW_WAIT :: u32 where "DCWW_WAIT \<equiv> 0"
abbreviation (input) DCWW_NOWAIT :: u32 where "DCWW_NOWAIT \<equiv> 1"

text \<open>
  The messages that arrive while waiting: the sender of each, and whether the call of the host succeeded and the sender
  belongs to this task. No value: none of them ends the loop. The result is the code and the number stored.
\<close>

fun wait_loop :: "('s, 'd) kt_host \<Rightarrow> u32 \<Rightarrow> 64 word \<Rightarrow> 's \<Rightarrow> (bool \<times> 64 word) list \<Rightarrow> (u32 \<times> u32) option" where
  "wait_loop host tid th s [] = None"
| "wait_loop host tid th s ((mine, src) # msgs) =
     (if mine then
        if tid \<noteq> 0 then
          if th = kt_invalid host then Some (ERROR_INVALID_THREADID, tid)
          else if src = th then Some (NO_ERROR, tid)
          else wait_loop host tid th s msgs
        else Some (NO_ERROR, kt_tid_native host src s)
      else wait_loop host tid th s msgs)"

definition KalWaitThread :: "('s, 'd) kt_host \<Rightarrow> u32 option \<Rightarrow> u32 \<Rightarrow> (bool \<times> 64 word) list \<Rightarrow> 's kthreads \<Rightarrow> (u32 \<times> u32) option" where
  "KalWaitThread host ptid option msgs st =
     (let tid = (case ptid of None \<Rightarrow> 0 | Some t \<Rightarrow> t);
          th = kt_native host (kt_pid host (kt_sys st)) tid (kt_sys st) in
      if option = DCWW_WAIT then wait_loop host tid th (kt_sys st) msgs
      else if option = DCWW_NOWAIT then Some (if th = kt_invalid host then ERROR_INVALID_THREADID else ERROR_THREAD_NOT_TERMINATED, tid)
      else Some (ERROR_INVALID_PARAMETER, tid))"

definition KalKillThread :: "('s, 'd) kt_host \<Rightarrow> u32 \<Rightarrow> 's kthreads \<Rightarrow> u32 \<times> 's kthreads" where
  "KalKillThread host tid st =
     (let pid = kt_pid host (kt_sys st); th = kt_native host pid tid (kt_sys st) in
      if th = kt_invalid host then (ERROR_INVALID_THREADID, st)
      else let (rc, s) = l4thread_shutdown host th (kt_sys st) in (of_int rc, st\<lparr>kt_sys := kt_destroy_tib host pid tid s\<rparr>))"

text \<open>What is left of the task when a thread ends: nothing, or the other threads.\<close>

datatype 's ending = TaskExit 's | ThreadExit 's

abbreviation (input) EXIT_PROCESS :: u32 where "EXIT_PROCESS \<equiv> 1"

definition KalExit :: "('s, 'd) kt_host \<Rightarrow> u32 \<Rightarrow> u32 \<Rightarrow> 's \<Rightarrow> 's ending" where
  "KalExit host action result s =
     (if action = EXIT_PROCESS \<or> kt_tid host s = 1 then TaskExit (kt_exit host action result s)
      else ThreadExit (kt_destroy_tib host (kt_pid host s) (kt_tid host s) s))"

section \<open>The host\<close>

text \<open>
  What the library relies on of the host: exchanging the registers of a thread returns the old ones and stores the new ones,
  where \<open>- 1\<close> keeps the old value, and touches neither another thread nor the numbering of processes and threads.
\<close>

definition keep_reg :: "u32 \<Rightarrow> u32 \<Rightarrow> u32" where
  "keep_reg old new = (if new = - 1 then old else new)"

definition exchanger :: "('s, 'd) kt_host \<Rightarrow> ('s \<Rightarrow> 64 word \<Rightarrow> u32 \<times> u32) \<Rightarrow> bool" where
  "exchanger host regs \<longleftrightarrow> (\<forall>th eip esp s r s'. l4_thread_ex_regs host th eip esp s = (r, s') \<longrightarrow>
     r = regs s th \<and> regs s' = (regs s)(th := (keep_reg (fst r) eip, keep_reg (snd r) esp)) \<and>
     kt_pid host s' = kt_pid host s \<and> (\<forall>p t. kt_native host p t s' = kt_native host p t s))"

text \<open>The thread \<open>tid\<close> is the native thread \<open>th\<close>, with its information block at \<open>tib\<close>.\<close>

definition thread_is :: "('s, 'd) kt_host \<Rightarrow> 's kthreads \<Rightarrow> u32 \<Rightarrow> 64 word \<Rightarrow> u32 \<Rightarrow> bool" where
  "thread_is host st tid th tib \<longleftrightarrow>
     kt_native host (kt_pid host (kt_sys st)) tid (kt_sys st) = th \<and> th \<noteq> kt_invalid host \<and> ptib_at st tid = Some tib \<and>
     all_mapped (mp (kt_mem st)) (tib + tib_eip_saved) 4 \<and> all_mapped (mp (kt_mem st)) (tib + tib_esp_saved) 4"

definition saved_regs :: "'s kthreads \<Rightarrow> u32 \<Rightarrow> (u32 \<times> u32) option" where
  "saved_regs st tib = do { eip \<leftarrow> ld32 (kt_mem st) (tib + tib_eip_saved); esp \<leftarrow> ld32 (kt_mem st) (tib + tib_esp_saved); Some (eip, esp) }"

lemma saved_apart: "cells (tib + tib_esp_saved) 4 \<inter> cells (tib + tib_eip_saved) 4 = {}"
  using cells_apart [of 24 4 28 4 tib] by auto

lemma save_regs_run:
  assumes "thread_is host st tid th tib"
  obtains m where "save_regs tib eip esp (kt_mem st) = Some m" and "mp m = mp (kt_mem st)"
    and "ld32 m (tib + tib_eip_saved) = Some eip" and "ld32 m (tib + tib_esp_saved) = Some esp"
proof -
  obtain m1 where m1: "st32 (kt_mem st) (tib + tib_eip_saved) eip = Some m1"
    using assms st32_ok unfolding thread_is_def by blast
  then have mp1: "mp m1 = mp (kt_mem st)" by (simp add: st32_mp)
  then obtain m2 where m2: "st32 m1 (tib + tib_esp_saved) esp = Some m2"
    using assms st32_ok unfolding thread_is_def by metis
  have "ld32 m2 (tib + tib_eip_saved) = Some eip"
    using st32_ld32_other [OF m2 saved_apart] ld32_st32 [OF m1] by simp
  then show thesis
    using that [of m2] m1 m2 mp1 by (simp add: save_regs_def st32_mp ld32_st32)
qed

section \<open>What suspending and resuming do\<close>

lemma suspend_run:
  assumes "exchanger host regs" and "thread_is host st tid th tib"
  obtains st' where "KalSuspendThread host tid st = Some (NO_ERROR, st')"
    and "regs (kt_sys st') = (regs (kt_sys st))(th := (keep_reg (fst (regs (kt_sys st) th)) (kt_wait_func host), snd (regs (kt_sys st) th)))"
    and "thread_is host st' tid th tib" and "saved_regs st' tib = Some (regs (kt_sys st) th)"
proof -
  obtain eip esp s where x: "l4_thread_ex_regs host th (kt_wait_func host) (- 1) (kt_sys st) = ((eip, esp), s)"
    by (metis prod.exhaust)
  note laws = assms(1) [unfolded exchanger_def, rule_format, OF x]
  have es: "regs (kt_sys st) th = (eip, esp)" using laws by simp
  obtain m where m: "save_regs tib eip esp (kt_mem st) = Some m" "mp m = mp (kt_mem st)"
      "ld32 m (tib + tib_eip_saved) = Some eip" "ld32 m (tib + tib_esp_saved) = Some esp"
    using save_regs_run [OF assms(2)] by metis
  let ?st = "st\<lparr>kt_mem := m, kt_sys := s\<rparr>"
  have "KalSuspendThread host tid st = Some (NO_ERROR, ?st)"
    using assms(2) x m(1) by (simp add: KalSuspendThread_def thread_is_def Let_def)
  moreover have "thread_is host ?st tid th tib"
    using assms(2) laws m(2) by (auto simp: thread_is_def ptib_at_def split: if_splits)
  moreover have "saved_regs ?st tib = Some (regs (kt_sys st) th)"
    using laws m(3,4) by (simp add: saved_regs_def flip: laws)
  moreover have "regs (kt_sys ?st) = (regs (kt_sys st))(th := (keep_reg (fst (regs (kt_sys st) th)) (kt_wait_func host), snd (regs (kt_sys st) th)))"
    using laws es by (simp add: keep_reg_def)
  ultimately show thesis using that by blast
qed

lemma resume_run:
  assumes "exchanger host regs" and "thread_is host st tid th tib" and "saved_regs st tib = Some (eip, esp)" and "eip \<noteq> 0"
  obtains st' where "KalResumeThread host tid st = Some (NO_ERROR, st')"
    and "regs (kt_sys st') = (regs (kt_sys st))(th := (keep_reg (fst (regs (kt_sys st) th)) eip, keep_reg (snd (regs (kt_sys st) th)) esp))"
    and "thread_is host st' tid th tib" and "saved_regs st' tib = Some (0, 0)"
proof -
  obtain r s where x: "l4_thread_ex_regs host th eip esp (kt_sys st) = (r, s)"
    by (metis prod.exhaust)
  note laws = assms(1) [unfolded exchanger_def, rule_format, OF x]
  have ld: "ld32 (kt_mem st) (tib + tib_eip_saved) = Some eip" "ld32 (kt_mem st) (tib + tib_esp_saved) = Some esp"
    using assms(3) by (auto simp: saved_regs_def split: Option.bind_splits)
  obtain m where m: "save_regs tib 0 0 (kt_mem st) = Some m" "mp m = mp (kt_mem st)"
      "ld32 m (tib + tib_eip_saved) = Some 0" "ld32 m (tib + tib_esp_saved) = Some 0"
    using save_regs_run [OF assms(2)] by metis
  let ?st = "st\<lparr>kt_mem := m, kt_sys := s\<rparr>"
  have "KalResumeThread host tid st = Some (NO_ERROR, ?st)"
    using assms(2,4) x m(1) ld by (simp add: KalResumeThread_def thread_is_def Let_def)
  moreover have "thread_is host ?st tid th tib"
    using assms(2) laws m(2) by (auto simp: thread_is_def ptib_at_def split: if_splits)
  moreover have "saved_regs ?st tib = Some (0, 0)"
    using m(3,4) by (simp add: saved_regs_def)
  ultimately show thesis using that laws by fastforce
qed

lemma resume_not_frozen:
  "thread_is host st tid th tib \<Longrightarrow> saved_regs st tib = Some (0, esp) \<Longrightarrow> KalResumeThread host tid st = Some (ERROR_NOT_FROZEN, st)"
  by (auto simp: KalResumeThread_def thread_is_def saved_regs_def Let_def split: Option.bind_splits)


text \<open>
  A thread that is suspended twice has lost where it was: the second call stores the registers of the waiting loop over
  the saved ones, every call reports success, and the resumed thread waits for ever.
\<close>

theorem suspended_twice_lost:
  assumes "exchanger host regs" and "thread_is host st tid th tib" and "kt_wait_func host \<notin> {0, - 1}"
  shows "\<exists>st1 st2 st3. KalSuspendThread host tid st = Some (NO_ERROR, st1) \<and> KalSuspendThread host tid st1 = Some (NO_ERROR, st2) \<and>
    KalResumeThread host tid st2 = Some (NO_ERROR, st3) \<and>
    fst (regs (kt_sys st3) th) = kt_wait_func host \<and> KalResumeThread host tid st3 = Some (ERROR_NOT_FROZEN, st3)"
proof -
  obtain st1 where s: "KalSuspendThread host tid st = Some (NO_ERROR, st1)"
      "regs (kt_sys st1) = (regs (kt_sys st))(th := (keep_reg (fst (regs (kt_sys st) th)) (kt_wait_func host), snd (regs (kt_sys st) th)))"
      "thread_is host st1 tid th tib"
    by (rule suspend_run [OF assms(1,2)])
  then have w1: "fst (regs (kt_sys st1) th) = kt_wait_func host"
    using assms(3) by (simp add: keep_reg_def)
  obtain st2 where s2: "KalSuspendThread host tid st1 = Some (NO_ERROR, st2)"
      "thread_is host st2 tid th tib" "saved_regs st2 tib = Some (regs (kt_sys st1) th)"
    by (rule suspend_run [OF assms(1) s(3)])
  have "saved_regs st2 tib = Some (kt_wait_func host, snd (regs (kt_sys st1) th))" "kt_wait_func host \<noteq> 0"
    using s2(3) w1 assms(3) by (simp_all flip: w1)
  then obtain st3 where r: "KalResumeThread host tid st2 = Some (NO_ERROR, st3)"
      "regs (kt_sys st3) = (regs (kt_sys st2))(th := (keep_reg (fst (regs (kt_sys st2) th)) (kt_wait_func host),
         keep_reg (snd (regs (kt_sys st2) th)) (snd (regs (kt_sys st1) th))))"
      "thread_is host st3 tid th tib" "saved_regs st3 tib = Some (0, 0)"
    by (rule resume_run [OF assms(1) s2(2)])
  then have "fst (regs (kt_sys st3) th) = kt_wait_func host"
    using assms(3) by (simp add: keep_reg_def)
  then show ?thesis using s(1) s2(1) r(1) resume_not_frozen [OF r(3,4)] by blast
qed

section \<open>A concrete host\<close>

text \<open>The state of the host is the registers of its threads; thread 2 is the native thread 7.\<close>

definition demo_exchange :: "64 word \<Rightarrow> u32 \<Rightarrow> u32 \<Rightarrow> (64 word \<Rightarrow> u32 \<times> u32) \<Rightarrow> (u32 \<times> u32) \<times> (64 word \<Rightarrow> u32 \<times> u32)" where
  "demo_exchange th eip esp s = (s th, s(th := (keep_reg (fst (s th)) eip, keep_reg (snd (s th)) esp)))"

definition demo_kt_host :: "(64 word \<Rightarrow> u32 \<times> u32, unit) kt_host" where
  "demo_kt_host = \<lparr>kt_pid = \<lambda>_. 1, kt_tid = \<lambda>_. 1, kt_native = \<lambda>_ t _. if t = 2 then 7 else 0, kt_tid_native = \<lambda>_ _. 2,
     kt_new_tib = \<lambda>_ _ _ s. s, kt_destroy_tib = \<lambda>_ _ s. s, kt_get_tib = \<lambda>s. ((0, ()), s), kt_exit = \<lambda>_ _ s. s,
     kt_attach = \<lambda>_ m. (0, 0x1000, m), l4thread_create_long = \<lambda>_ _ _ _ s. (Inl 7, s), l4_thread_ex_regs = demo_exchange,
     l4thread_shutdown = \<lambda>_ s. (0, s), kt_wait_func = 0x500, kt_invalid = 0\<rparr>"

definition demo_threads :: "(64 word \<Rightarrow> u32 \<times> u32) kthreads" where
  "demo_threads = \<lparr>kt_ptib = [0x1000, 0x1020], ulThread = 2, kt_mem = demo_mem, kt_sys = \<lambda>_. (0x8000, 0x9000)\<rparr>"

lemma demo_exchanger: "exchanger demo_kt_host (\<lambda>s. s)"
  by (auto simp: exchanger_def demo_kt_host_def demo_exchange_def)

lemma demo_thread_is: "thread_is demo_kt_host demo_threads 2 7 0x1020"
proof -
  have "all_mapped (mp demo_mem) (0x1020 + 24) 4" "all_mapped (mp demo_mem) (0x1020 + 28) 4" by code_simp+
  then show ?thesis by (simp add: thread_is_def demo_kt_host_def demo_threads_def ptib_at_def)
qed


theorem suspended_twice_lost_witness:
  "\<exists>st1 st2 st3. KalSuspendThread demo_kt_host 2 demo_threads = Some (NO_ERROR, st1) \<and>
    KalSuspendThread demo_kt_host 2 st1 = Some (NO_ERROR, st2) \<and>
    KalResumeThread demo_kt_host 2 st2 = Some (NO_ERROR, st3) \<and>
    fst (kt_sys st3 7) = 0x500 \<and> KalResumeThread demo_kt_host 2 st3 = Some (ERROR_NOT_FROZEN, st3)"
  using suspended_twice_lost [OF demo_exchanger demo_thread_is]
  by (simp add: demo_kt_host_def demo_threads_def)

end
