(* ===== verification/MsgFile.thy ===== *)
theory MsgFile
  imports DosMsg
begin

text \<open>
  Message files of the control program library (\<^verbatim>\<open>src/OS2/CPI/doscalls/msg.c\<close> and \<^verbatim>\<open>msg.h\<close>): loading
  (\<open>PvtLoadMsgFile\<close>), the test of the format (\<open>PvtChkMsgFileFmt\<close>), the code pages of a file (\<open>DosIQueryMessageCP\<close>) and the
  search for a message by its number (\<open>DosTrueGetMessage\<close>). A file or bound segment is a list of bytes; a read outside it
  gives no value. Local variables that the code reads before it sets them are arguments.
\<close>

section \<open>Format\<close>

record msghdr_t =
  mh_magic :: "u8 list"
  mh_id :: "u8 list"
  msgs_no :: u16
  firstmsgno :: u16
  is_offs_16bits :: u8
  mh_version :: u16
  idx_ofs :: u16
  ctry_info_ofs :: u16
  next_ctry_info :: u16

definition HDR_MAGIC :: "u8 list" where
  "HDR_MAGIC = [0xFF, 0x4D, 0x4B, 0x4D, 0x53, 0x47, 0x46, 0]"

definition sizeof_msghdr :: nat where
  "sizeof_msghdr = 31"

definition read_msghdr :: "u8 list \<Rightarrow> msghdr_t option" where
  "read_msghdr bs =
     (if length bs < sizeof_msghdr then None
      else do {
        no \<leftarrow> rd16 bs 11;
        first \<leftarrow> rd16 bs 13;
        wide \<leftarrow> rd8 bs 15;
        ver \<leftarrow> rd16 bs 16;
        idx \<leftarrow> rd16 bs 18;
        ctry \<leftarrow> rd16 bs 20;
        nxt \<leftarrow> rd16 bs 22;
        Some \<lparr>mh_magic = take 8 bs, mh_id = take 3 (drop 8 bs), msgs_no = no, firstmsgno = first, is_offs_16bits = wide,
          mh_version = ver, idx_ofs = idx, ctry_info_ofs = ctry, next_ctry_info = nxt\<rparr> })"

text \<open>The members of the country block that are read, by their offsets.\<close>

abbreviation (input) ctry_family :: nat where "ctry_family \<equiv> 3"
abbreviation (input) ctry_dialect :: nat where "ctry_dialect \<equiv> 5"
abbreviation (input) ctry_codepages_no :: nat where "ctry_codepages_no \<equiv> 7"
abbreviation (input) ctry_codepages :: nat where "ctry_codepages \<equiv> 9"

definition PvtChkMsgFileFmt :: "u8 list \<Rightarrow> u32 option" where
  "PvtChkMsgFileFmt seg = do {
     r \<leftarrow> strncmp (map char_of_u8 seg) (map char_of_u8 HDR_MAGIC) 8;
     Some (if r \<noteq> 0 then ERROR_MR_INV_MSGF_FORMAT else NO_ERROR) }"

section \<open>Loading\<close>

text \<open>
  The calls of the control program that are used, on a state of the host: opening for reading, the search along \<open>DPATH\<close>,
  the size of a file, memory (the contents of the pages that hold the bytes asked for), reading, closing and writing to
  standard output.
\<close>

record 'h msg_host =
  mh_open :: "string \<Rightarrow> 'h \<Rightarrow> (u32 + u32) \<times> 'h"
  mh_search :: "string \<Rightarrow> 'h \<Rightarrow> (u32 + string) \<times> 'h"
  mh_size :: "string \<Rightarrow> 'h \<Rightarrow> (u32 + u32) \<times> 'h"
  mh_alloc :: "u32 \<Rightarrow> 'h \<Rightarrow> (u32 + u8 list) \<times> 'h"
  mh_read :: "u32 \<Rightarrow> u32 \<Rightarrow> 'h \<Rightarrow> (u32 + u8 list) \<times> 'h"
  mh_close :: "u32 \<Rightarrow> 'h \<Rightarrow> 'h"
  mh_free :: "'h \<Rightarrow> 'h"
  mh_write :: "u32 \<Rightarrow> string \<Rightarrow> 'h \<Rightarrow> 'h"

abbreviation (input) not_found_codes :: "u32 set" where
  "not_found_codes \<equiv> {ERROR_FILE_NOT_FOUND, ERROR_OPEN_FAILED, ERROR_PATH_NOT_FOUND}"

text \<open>The file as it is, and else along the path: an error, or the handle and the name under which it was found.\<close>

definition open_msg_file :: "'h msg_host \<Rightarrow> string \<Rightarrow> 'h \<Rightarrow> (u32 + u32 \<times> string) \<times> 'h" where
  "open_msg_file host pszFile s =
     (case mh_open host pszFile s of
        (Inr hf, s) \<Rightarrow> (Inr (hf, pszFile), s)
      | (Inl rc, s) \<Rightarrow>
          if rc \<notin> not_found_codes then (Inl rc, s)
          else case mh_search host pszFile s of
            (Inl rc, s) \<Rightarrow> (Inl rc, s)
          | (Inr fn, s) \<Rightarrow> (case mh_open host fn s of (Inl rc, s) \<Rightarrow> (Inl rc, s) | (Inr hf, s) \<Rightarrow> (Inr (hf, if fn = [] then pszFile else fn), s)))"

text \<open>An error, or the buffer with the size of the file.\<close>

definition PvtLoadMsgFile :: "'h msg_host \<Rightarrow> string option \<Rightarrow> 'h \<Rightarrow> (u32 + u8 list \<times> u32) \<times> 'h" where
  "PvtLoadMsgFile host pszFile s =
     (case pszFile of
        None \<Rightarrow> (Inl ERROR_INVALID_PARAMETER, s)
      | Some f \<Rightarrow>
          if f = [] then (Inl ERROR_INVALID_PARAMETER, s)
          else if 260 \<le> length f then (Inl ERROR_FILENAME_EXCED_RANGE, s)
          else case open_msg_file host f s of
            (Inl rc, s) \<Rightarrow> (Inl rc, s)
          | (Inr (hf, fn), s) \<Rightarrow>
              (case mh_size host fn s of
                 (Inl rc, s) \<Rightarrow> (Inl rc, s)
               | (Inr cb, s) \<Rightarrow>
                   if cb = 0 then (Inl ERROR_INVALID_PARAMETER, s)
                   else case mh_alloc host cb s of
                     (Inl rc, s) \<Rightarrow> (Inl rc, s)
                   | (Inr buf, s) \<Rightarrow>
                       (case mh_read host hf cb s of
                          (Inl rc, s) \<Rightarrow> (Inl rc, s)
                        | (Inr bs, s) \<Rightarrow> (Inr (bs @ drop (length bs) buf, cb), mh_close host hf s))))"

text \<open>
  The segment that is used: the bound one if its format is right, and else the file. With a bound segment
  the code of the load and the size of the file (\<open>rc0\<close> and \<open>cbFile0\<close>) have not been set.
\<close>

definition msg_segment ::
    "'h msg_host \<Rightarrow> u32 \<Rightarrow> u32 \<Rightarrow> u8 list option \<Rightarrow> string option \<Rightarrow> 'h \<Rightarrow> ((u32 + u8 list \<times> u32) \<times> 'h) option" where
  "msg_segment host rc0 cbFile0 msgSeg pszFile s = do {
     bound \<leftarrow> (case msgSeg of
        None \<Rightarrow> Some None
      | Some seg \<Rightarrow> do { rc \<leftarrow> PvtChkMsgFileFmt seg; Some (if rc \<noteq> 0 then None else Some seg) });
     let (r, s) = (case bound of
        Some seg \<Rightarrow> (if rc0 \<noteq> 0 then Inl rc0 else Inr (seg, cbFile0), s)
      | None \<Rightarrow> PvtLoadMsgFile host pszFile s);
     case r of
       Inl _ \<Rightarrow> Some (Inl ERROR_MR_UN_ACC_MSGF, s)
     | Inr (seg, cb) \<Rightarrow> do {
         rc \<leftarrow> PvtChkMsgFileFmt seg;
         Some (if rc \<noteq> 0 then Inl ERROR_MR_INV_MSGF_FORMAT else Inr (seg, cb), s) } }"

section \<open>Code pages\<close>

definition put16 :: "u8 list \<Rightarrow> nat \<Rightarrow> u16 \<Rightarrow> u8 list option" where
  "put16 ar i v = (if i + 2 \<le> length ar then Some (take i ar @ le16 v @ drop (i + 2) ar) else None)"

fun cp_loop :: "u8 list \<Rightarrow> nat \<Rightarrow> nat \<Rightarrow> u8 list \<Rightarrow> nat \<Rightarrow> (u8 list \<times> nat) option" where
  "cp_loop seg pos 0 ar p = Some (ar, p)"
| "cp_loop seg pos (Suc n) ar p = do {
     v \<leftarrow> rd16 seg pos;
     ar \<leftarrow> put16 ar p v;
     cp_loop seg (pos + 2) n ar (p + 2) }"

text \<open>
  The code, the buffer, the size stored to \<open>*cbBuf\<close>, if any, and the state. A null pointer as the name of the file
  is followed by the code that prints it.
\<close>

definition DosIQueryMessageCP ::
    "'h msg_host \<Rightarrow> u32 \<Rightarrow> u8 list option \<Rightarrow> u32 \<Rightarrow> string option \<Rightarrow> u8 list option \<Rightarrow> 'h
     \<Rightarrow> (u32 \<times> u8 list option \<times> u32 option \<times> 'h) option" where
  "DosIQueryMessageCP host rc0 pb cb pszFile msgSeg s =
     (case pszFile of
        None \<Rightarrow> None
      | Some f \<Rightarrow>
          (case pb of
             None \<Rightarrow> Some (ERROR_INVALID_PARAMETER, pb, None, s)
           | Some ar \<Rightarrow>
               if cb = 0 \<or> f = [] then Some (ERROR_INVALID_PARAMETER, pb, None, s)
               else do {
                 (r, s) \<leftarrow> msg_segment host rc0 0 msgSeg pszFile s;
                 case r of
                   Inl rc \<Rightarrow> Some (rc, pb, None, s)
                 | Inr (seg, _) \<Rightarrow> do {
                     hdr \<leftarrow> read_msghdr seg;
                     let ctry = unat (ctry_info_ofs hdr);
                     cnt \<leftarrow> rd16 seg (ctry + ctry_codepages_no);
                     if cnt = 0 then Some (ERROR_MR_UN_PERFORM, pb, None, s)
                     else if 16 < cnt then Some (ERROR_INVALID_PARAMETER, pb, None, s)
                     else if cb < 6 + 2 * ucast cnt then Some (ERROR_BUFFER_OVERFLOW, pb, None, s)
                     else do {
                       ar \<leftarrow> put16 ar 0 cnt;
                       (ar, p) \<leftarrow> cp_loop seg (ctry + ctry_codepages) (unat cnt) ar 2;
                       family \<leftarrow> rd16 seg (ctry + ctry_family);
                       ar \<leftarrow> put16 ar p family;
                       dialect \<leftarrow> rd16 seg (ctry + ctry_dialect);
                       ar \<leftarrow> put16 ar (p + 2) dialect;
                       Some (NO_ERROR, Some ar, Some (of_nat (p + 4)), mh_free host s) } } }))"

section \<open>Messages by number\<close>

text \<open>\<open>%04u\<close> of \<open>sprintf\<close>.\<close>

fun dec_digits :: "nat \<Rightarrow> string" where
  "dec_digits n = (if n < 10 then [char_of (48 + n)] else dec_digits (n div 10) @ [char_of (48 + n mod 10)])"

declare dec_digits.simps [simp del]

definition fmt_04u :: "u32 \<Rightarrow> string" where
  "fmt_04u w = (let ds = dec_digits (unat w) in replicate (4 - length ds) (CHR ''0'') @ ds)"

text \<open>The offset of a message, as an \<open>int\<close>.\<close>

definition msg_offset :: "msghdr_t \<Rightarrow> u8 list \<Rightarrow> u32 \<Rightarrow> int option" where
  "msg_offset hdr seg n =
     (if is_offs_16bits hdr \<noteq> 0 then do { v \<leftarrow> rd16 seg (unat (idx_ofs hdr) + 2 * unat n); Some (uint v) }
      else do { v \<leftarrow> rd32 seg (unat (idx_ofs hdr) + 4 * unat n); Some (sint v) })"

text \<open>Where a message begins and where the next one does, which for the last one is the end of the file.\<close>

definition msg_bounds :: "msghdr_t \<Rightarrow> u8 list \<Rightarrow> u32 \<Rightarrow> u32 \<Rightarrow> (int \<times> int) option" where
  "msg_bounds hdr seg cbFile n = do {
     msgoff \<leftarrow> msg_offset hdr seg n;
     msgend \<leftarrow> (if n + 1 = ucast (msgs_no hdr)
       then Some (if next_ctry_info hdr \<noteq> 0 then uint (next_ctry_info hdr) else sint cbFile)
       else msg_offset hdr seg (n + 1));
     Some (msgoff, msgend) }"

text \<open>The number and name of the file in front of a message that is an error, a warning or an information.\<close>

definition msg_prefix :: "msghdr_t \<Rightarrow> u32 \<Rightarrow> char \<Rightarrow> string option" where
  "msg_prefix hdr n c =
     (if c \<in> {CHR ''E'', CHR ''W'', CHR ''I''} then Some (cstr (map char_of_u8 (mh_id hdr)) @ fmt_04u n @ '': '') else None)"

text \<open>The code, the value stored to \<open>*pcbMsg\<close>, if any, the buffer and the state.\<close>

definition DosTrueGetMessage ::
    "'h msg_host \<Rightarrow> u32 \<Rightarrow> u32 \<Rightarrow> u8 list option \<Rightarrow> char list list option \<Rightarrow> u32 \<Rightarrow> char list option \<Rightarrow> u32 \<Rightarrow> u32
     \<Rightarrow> string option \<Rightarrow> 'h \<Rightarrow> (u32 \<times> u32 option \<times> char list option \<times> 'h) option" where
  "DosTrueGetMessage host rc0 cbFile0 msgSeg pTable cTable pBuf cbBuf msgnumber pszFile s =
     (if 9 < cTable then Some (ERROR_MR_INV_IVCOUNT, None, pBuf, s)
      else if pBuf = None \<or> cbBuf = 0 then Some (ERROR_INVALID_PARAMETER, None, pBuf, s)
      else do {
        (r, s) \<leftarrow> msg_segment host rc0 cbFile0 msgSeg pszFile s;
        case r of
          Inl rc \<Rightarrow> Some (rc, None, pBuf, s)
        | Inr (seg, cbFile) \<Rightarrow> do {
            hdr \<leftarrow> read_msghdr seg;
            let n = msgnumber - ucast (firstmsgno hdr);
            if ucast (msgs_no hdr) < n then Some (ERROR_MR_MID_NOT_FOUND, None, pBuf, s)
            else do {
              (msgoff, msgend) \<leftarrow> msg_bounds hdr seg cbFile n;
              if cbFile < of_int msgoff \<or> cbFile < of_int msgend then Some (ERROR_MR_MSG_TOO_LONG, None, pBuf, s)
              else do {
                c \<leftarrow> rd8 seg (unat (of_int msgoff :: u32));
                let s = (case msg_prefix hdr n (char_of_u8 c) of None \<Rightarrow> s | Some str \<Rightarrow> mh_write host 1 str s);
                (rc, pcb, buf) \<leftarrow> DosInsertMessage pTable cTable
                  (Some (map char_of_u8 (drop (unat (of_int msgoff :: u32) + 1) seg))) (of_int (msgend - msgoff - 1)) pBuf cbBuf;
                Some (rc, pcb, buf, mh_free host s) } } } })"

section \<open>An encoder of message files\<close>

text \<open>A message is a letter and a text. The offsets of the messages, from the end of the index and the country block on.\<close>

definition chrs :: "string \<Rightarrow> u8 list" where
  "chrs = map u8_of_char"

definition msg_body :: "char \<times> string \<Rightarrow> u8 list" where
  "msg_body = (\<lambda>(c, t). u8_of_char c # chrs t)"

definition bodies :: "(char \<times> string) list \<Rightarrow> u8 list" where
  "bodies ms = concat (map msg_body ms)"

definition offs :: "nat \<Rightarrow> (char \<times> string) list \<Rightarrow> nat list" where
  "offs b ms = map (\<lambda>i. b + length (bodies (take i ms))) [0..<length ms]"

definition msg_index :: "bool \<Rightarrow> nat list \<Rightarrow> u8 list" where
  "msg_index short os = (if short then concat (map le16 (map of_nat os)) else concat (map le32 (map of_nat os)))"

definition enc_msghdr :: "msghdr_t \<Rightarrow> u8 list" where
  "enc_msghdr h = mh_magic h @ mh_id h @ le16 (msgs_no h) @ le16 (firstmsgno h) @ is_offs_16bits h # le16 (mh_version h)
     @ le16 (idx_ofs h) @ le16 (ctry_info_ofs h) @ le16 (next_ctry_info h) @ replicate 7 0"

definition idx_size :: "bool \<Rightarrow> nat \<Rightarrow> nat" where
  "idx_size short n = (if short then 2 * n else 4 * n)"

definition first_body :: "bool \<Rightarrow> nat \<Rightarrow> u8 list \<Rightarrow> nat" where
  "first_body short n ctry = sizeof_msghdr + idx_size short n + length ctry"

definition file_hdr :: "string \<Rightarrow> nat \<Rightarrow> bool \<Rightarrow> nat \<Rightarrow> msghdr_t" where
  "file_hdr fid first short n = \<lparr>mh_magic = HDR_MAGIC, mh_id = chrs fid, msgs_no = of_nat n, firstmsgno = of_nat first,
     is_offs_16bits = (if short then 1 else 0), mh_version = 2, idx_ofs = of_nat sizeof_msghdr,
     ctry_info_ofs = of_nat (sizeof_msghdr + idx_size short n), next_ctry_info = 0\<rparr>"

definition msg_file :: "string \<Rightarrow> nat \<Rightarrow> bool \<Rightarrow> u8 list \<Rightarrow> (char \<times> string) list \<Rightarrow> u8 list" where
  "msg_file fid first short ctry ms = enc_msghdr (file_hdr fid first short (length ms))
     @ msg_index short (offs (first_body short (length ms) ctry) ms) @ ctry @ bodies ms"

text \<open>What fits into the members of the header and into the offsets.\<close>

definition msg_file_ok :: "string \<Rightarrow> nat \<Rightarrow> bool \<Rightarrow> u8 list \<Rightarrow> (char \<times> string) list \<Rightarrow> bool" where
  "msg_file_ok fid first short ctry ms \<longleftrightarrow> length fid = 3 \<and> NUL \<notin> set fid \<and> first < 2 ^ 16 \<and>
     sizeof_msghdr + idx_size short (length ms) < 2 ^ 16 \<and>
     length (msg_file fid first short ctry ms) < (if short then 2 ^ 16 else 2 ^ 31)"

section \<open>Reading what the encoder wrote\<close>

lemma chrs_back [simp]: "map char_of_u8 (chrs t) = t" and length_chrs [simp]: "length (chrs t) = length t"
  by (simp_all add: chrs_def o_def)

lemma of_nat16:
  assumes "n < 2 ^ 16"
  shows "uint (of_nat n :: u16) = int n" and "ucast (of_nat n :: u16) = (of_nat n :: u32)"
proof -
  have u: "unat (of_nat n :: u16) = n" using assms by (simp add: unat_of_nat)
  then show "uint (of_nat n :: u16) = int n" by (metis uint_nat)
  show "ucast (of_nat n :: u16) = (of_nat n :: u32)" by (metis u of_nat_unat)
qed

lemma bodies_take_le: "length (bodies (take i ms)) \<le> length (bodies ms)"
proof -
  have "bodies ms = bodies (take i ms) @ bodies (drop i ms)" by (simp add: bodies_def flip: concat_append map_append)
  then show ?thesis by (metis length_append le_add1)
qed

lemma length_concat_le: "length (concat (map le16 vs)) = 2 * length vs" "length (concat (map le32 ws)) = 4 * length ws"
  by (induction vs, simp_all) (induction ws, simp_all)

lemma rd16_table:
  assumes "i < length vs"
  shows "rd16 (pre @ concat (map le16 vs) @ r) (length pre + 2 * i) = Some (vs ! i)"
proof -
  have "concat (map le16 vs) = concat (map le16 (take i vs)) @ le16 (vs ! i) @ concat (map le16 (drop (Suc i) vs))"
    using id_take_nth_drop [OF assms] by (metis concat.simps(2) concat_append list.simps(9) map_append)
  then have "rd16 (pre @ concat (map le16 vs) @ r) (length pre + 2 * i)
      = rd16 ((pre @ concat (map le16 (take i vs))) @ le16 (vs ! i) @ concat (map le16 (drop (Suc i) vs)) @ r)
          (length (pre @ concat (map le16 (take i vs))) + 0)"
    using assms by (simp add: length_concat_le min_absorb2)
  then show ?thesis by (simp only: rd16_skip rd16_le16)
qed

lemma rd32_table:
  assumes "i < length vs"
  shows "rd32 (pre @ concat (map le32 vs) @ r) (length pre + 4 * i) = Some (vs ! i)"
proof -
  have "concat (map le32 vs) = concat (map le32 (take i vs)) @ le32 (vs ! i) @ concat (map le32 (drop (Suc i) vs))"
    using id_take_nth_drop [OF assms] by (metis concat.simps(2) concat_append list.simps(9) map_append)
  then have "rd32 (pre @ concat (map le32 vs) @ r) (length pre + 4 * i)
      = rd32 ((pre @ concat (map le32 (take i vs))) @ le32 (vs ! i) @ concat (map le32 (drop (Suc i) vs)) @ r)
          (length (pre @ concat (map le32 (take i vs))) + 0)"
    using assms by (simp add: length_concat_le min_absorb2)
  then show ?thesis by (simp only: rd32_skip rd32_le32)
qed

lemma rd_behind_le16 [rd_simps]:
  "rd16 (le16 w @ r) (Suc (Suc i)) = rd16 r i" "rd8 (le16 w @ r) (Suc (Suc i)) = rd8 r i"
  using rd16_skip [of "le16 w" r i] by (simp_all add: rd8_append)

lemma read_enc_msghdr:
  assumes "length (mh_magic h) = 8" and "length (mh_id h) = 3"
  shows "read_msghdr (enc_msghdr h @ r) = Some h" and "length (enc_msghdr h) = sizeof_msghdr"
proof -
  obtain m where m: "mh_magic h = m" "length m = 8" using assms by simp
  then obtain a b c d e f g k where m8: "m = [a, b, c, d, e, f, g, k]"
    by (auto simp: length_Suc_conv numeral_eq_Suc)
  obtain x y z where i: "mh_id h = [x, y, z]" using assms(2) by (auto simp: length_Suc_conv numeral_eq_Suc)
  show "length (enc_msghdr h) = sizeof_msghdr" by (simp add: enc_msghdr_def sizeof_msghdr_def assms)
  show "read_msghdr (enc_msghdr h @ r) = Some h"
    by (cases h) (use m(1) m8 i in \<open>simp add: read_msghdr_def enc_msghdr_def sizeof_msghdr_def rd_simps numeral_eq_Suc\<close>)
qed

section \<open>The layout of a file\<close>

lemma bodies_simps [simp]: "bodies [] = []" "bodies (m # ms) = msg_body m @ bodies ms" "bodies (xs @ ys) = bodies xs @ bodies ys"
  by (simp_all add: bodies_def)

lemma length_msg_body [simp]: "length (msg_body (c, t)) = Suc (length t)"
  by (simp add: msg_body_def)

lemma length_offs [simp]: "length (offs b ms) = length ms" and nth_offs: "i < length ms \<Longrightarrow> offs b ms ! i = b + length (bodies (take i ms))"
  by (simp_all add: offs_def)

lemma length_msg_index: "length (msg_index short os) = idx_size short (length os)"
  using length_concat_le(1) [of "map of_nat os"] length_concat_le(2) [of "map of_nat os"] by (simp add: msg_index_def idx_size_def)

lemma file_hdr_sizes: "length (mh_magic (file_hdr fid first short n)) = 8" "length fid = 3 \<Longrightarrow> length (mh_id (file_hdr fid first short n)) = 3"
  by (simp_all add: file_hdr_def HDR_MAGIC_def)

lemma read_file_hdr:
  "length fid = 3 \<Longrightarrow> read_msghdr (msg_file fid first short ctry ms @ r) = Some (file_hdr fid first short (length ms))"
  using read_enc_msghdr(1) [OF file_hdr_sizes] by (simp add: msg_file_def)

lemma length_enc_hdr: "length fid = 3 \<Longrightarrow> length (enc_msghdr (file_hdr fid first short n)) = sizeof_msghdr"
  using read_enc_msghdr(2) [OF file_hdr_sizes] by simp

lemma strncmp_refl: "length s = n \<Longrightarrow> strncmp (s @ r) s n = Some 0"
  by (induction s arbitrary: n) auto

lemma file_fmt: "PvtChkMsgFileFmt (msg_file fid first short ctry ms @ r) = Some NO_ERROR"
proof -
  have "map char_of_u8 (msg_file fid first short ctry ms @ r) = map char_of_u8 HDR_MAGIC @
      map char_of_u8 (drop 8 (msg_file fid first short ctry ms @ r))"
    by (simp add: msg_file_def enc_msghdr_def file_hdr_def HDR_MAGIC_def)
  then show ?thesis
    using strncmp_refl [of "map char_of_u8 HDR_MAGIC" 8] by (simp add: PvtChkMsgFileFmt_def HDR_MAGIC_def)
qed

lemma file_length:
  "length fid = 3 \<Longrightarrow> length (msg_file fid first short ctry ms) = first_body short (length ms) ctry + length (bodies ms)"
  by (simp add: msg_file_def length_enc_hdr length_msg_index first_body_def)

text \<open>The offset read from the index is where the message begins.\<close>

lemma file_offset:
  assumes "msg_file_ok fid first short ctry ms" and "i < length ms"
  shows "msg_offset (file_hdr fid first short (length ms)) (msg_file fid first short ctry ms @ r) (of_nat i) =
    Some (int (first_body short (length ms) ctry + length (bodies (take i ms))))"
proof -
  let ?b = "first_body short (length ms) ctry" and ?h = "enc_msghdr (file_hdr fid first short (length ms))"
  let ?o = "?b + length (bodies (take i ms))"
  have ok: "length fid = 3" "length ms < 2 ^ 15" "length (msg_file fid first short ctry ms) < (if short then 2 ^ 16 else 2 ^ 31)"
    using assms(1) by (auto simp: msg_file_ok_def idx_size_def split: if_splits)
  have h: "length ?h = sizeof_msghdr" by (rule length_enc_hdr [OF ok(1)])
  have n: "unat (of_nat i :: u32) = i" using assms(2) ok(2) by (intro unat_of_nat32) simp
  have x: "unat (idx_ofs (file_hdr fid first short (length ms))) = length ?h" unfolding h by (simp add: file_hdr_def sizeof_msghdr_def)
  have w: "is_offs_16bits (file_hdr fid first short (length ms)) \<noteq> 0 \<longleftrightarrow> short" by (simp add: file_hdr_def)
  have o: "offs ?b ms ! i = ?o" by (rule nth_offs [OF assms(2)])
  have lim: "?o < (if short then 2 ^ 16 else 2 ^ 31)" using ok(3) bodies_take_le [of i ms] file_length [OF ok(1), of first short ctry ms] by simp
  show ?thesis
  proof (cases short)
    case True
    have "rd16 (?h @ concat (map le16 (map of_nat (offs ?b ms))) @ ctry @ bodies ms @ r) (length ?h + 2 * i) = Some (of_nat ?o)"
      using rd16_table [of i "map of_nat (offs ?b ms)" ?h "ctry @ bodies ms @ r"] assms(2) o by simp
    moreover have "uint (of_nat ?o :: u16) = int ?o" using lim True by (intro of_nat16(1)) simp
    ultimately show ?thesis using True x n w by (simp add: msg_offset_def msg_file_def msg_index_def)
  next
    case False
    have "rd32 (?h @ concat (map le32 (map of_nat (offs ?b ms))) @ ctry @ bodies ms @ r) (length ?h + 4 * i) = Some (of_nat ?o)"
      using rd32_table [of i "map of_nat (offs ?b ms)" ?h "ctry @ bodies ms @ r"] assms(2) o by simp
    moreover have "sint (of_nat ?o :: u32) = int ?o" using lim False by (intro sint_of_nat32) simp
    ultimately show ?thesis using False x n w by (simp add: msg_offset_def msg_file_def msg_index_def)
  qed
qed

lemma file_drop:
  assumes "length fid = 3" and "i < length ms"
  shows "drop (first_body short (length ms) ctry + length (bodies (take i ms))) (msg_file fid first short ctry ms @ r) =
    msg_body (ms ! i) @ bodies (drop (Suc i) ms) @ r"
proof -
  have "bodies ms = bodies (take i ms) @ msg_body (ms ! i) @ bodies (drop (Suc i) ms)"
    using id_take_nth_drop [OF assms(2)] by (metis bodies_simps(2,3))
  then show ?thesis
    using length_enc_hdr [OF assms(1), of first short "length ms"]
    by (simp add: msg_file_def length_msg_index first_body_def)
qed

section \<open>Messages\<close>

text \<open>The host opens the file and gives its size, memory for it and its contents; behind them the memory has other bytes.\<close>

definition file_read :: "'h msg_host \<Rightarrow> string \<Rightarrow> u8 list \<Rightarrow> u8 list \<Rightarrow> 'h \<Rightarrow> 'h \<Rightarrow> bool" where
  "file_read host name bs slack s s' \<longleftrightarrow> name \<noteq> [] \<and> length name < 260 \<and> bs \<noteq> [] \<and> length bs < 2 ^ 31 \<and>
     (\<exists>hf s1 s2 raw s3 s4. mh_open host name s = (Inr hf, s1) \<and> mh_size host name s1 = (Inr (of_nat (length bs)), s2) \<and>
        mh_alloc host (of_nat (length bs)) s2 = (Inr raw, s3) \<and> slack = drop (length bs) raw \<and>
        mh_read host hf (of_nat (length bs)) s3 = (Inr bs, s4) \<and> s' = mh_close host hf s4)"

lemma file_loaded:
  assumes "file_read host name bs slack s s'"
  shows "PvtLoadMsgFile host (Some name) s = (Inr (bs @ slack, of_nat (length bs)), s')"
proof -
  have "unat (of_nat (length bs) :: u32) \<noteq> 0"
    using assms unat_of_nat32 [of "length bs"] by (simp add: file_read_def)
  then have n: "(of_nat (length bs) :: u32) \<noteq> 0" by (metis unat_0)
  have "name \<noteq> []" "\<not> 260 \<le> length name" using assms by (simp_all add: file_read_def)
  moreover obtain hf s1 s2 raw s3 s4 where "mh_open host name s = (Inr hf, s1)" "mh_size host name s1 = (Inr (of_nat (length bs)), s2)"
      "mh_alloc host (of_nat (length bs)) s2 = (Inr raw, s3)" "slack = drop (length bs) raw"
      "mh_read host hf (of_nat (length bs)) s3 = (Inr bs, s4)" "s' = mh_close host hf s4"
    using assms unfolding file_read_def by blast
  ultimately show ?thesis using n by (simp add: PvtLoadMsgFile_def open_msg_file_def)
qed

lemma segment_loaded:
  assumes "file_read host name (msg_file fid first short ctry ms) slack s s'"
  shows "msg_segment host rc0 cb0 None (Some name) s =
    Some (Inr (msg_file fid first short ctry ms @ slack, of_nat (length (msg_file fid first short ctry ms))), s')"
  using file_loaded [OF assms] file_fmt by (simp add: msg_segment_def)

text \<open>What is written to standard output in front of a message.\<close>

definition shown :: "'h msg_host \<Rightarrow> string \<Rightarrow> nat \<Rightarrow> char \<Rightarrow> 'h \<Rightarrow> 'h" where
  "shown host fid i c s = (if c \<in> {CHR ''E'', CHR ''W'', CHR ''I''} then mh_write host 1 (fid @ fmt_04u (of_nat i) @ '': '') s else s)"

lemma message_located:
  assumes "msg_file_ok fid first short ctry ms" and "file_read host name (msg_file fid first short ctry ms) slack s s'"
    and "i < length ms" and "ms ! i = (c, t)" and "cTable \<le> 9" and "0 < cbBuf"
  shows "DosTrueGetMessage host rc0 cb0 None pTable cTable (Some buf) cbBuf (of_nat (first + i)) (Some name) s =
    do { (rc, pcb, b) \<leftarrow> DosInsertMessage pTable cTable (Some (t @ map char_of_u8 (bodies (drop (Suc i) ms) @ slack)))
           (of_nat (length t)) (Some buf) cbBuf;
         Some (rc, pcb, b, mh_free host (shown host fid i c s')) }"
proof -
  let ?h = "file_hdr fid first short (length ms)" and ?f = "msg_file fid first short ctry ms"
  let ?o = "\<lambda>i. first_body short (length ms) ctry + length (bodies (take i ms))"
  have ok: "length fid = 3" "NUL \<notin> set fid" "first < 2 ^ 16" "length ms < 2 ^ 15" "length ?f < 2 ^ 31"
    using assms(1) by (auto simp: msg_file_ok_def idx_size_def split: if_splits)
  have n: "of_nat (first + i) - ucast (firstmsgno ?h) = (of_nat i :: u32)"
    using ok(3) by (simp add: file_hdr_def of_nat16(2))
  have no: "ucast (msgs_no ?h) = (of_nat (length ms) :: u32)" using ok(4) by (simp add: file_hdr_def of_nat16(2))
  have ui: "unat (of_nat (length ms) :: u32) = length ms" "unat (of_nat i :: u32) = i" "unat (of_nat (Suc i) :: u32) = Suc i"
    using ok(4) assms(3) by (intro unat_of_nat32; simp)+
  have le: "\<not> ucast (msgs_no ?h) < (of_nat i :: u32)" unfolding no using ui assms(3) by (simp add: word_less_nat_alt)
  have suc: "?o (Suc i) = ?o i + Suc (length t)"
    using assms(3,4) by (simp add: take_Suc_conv_app_nth)
  have last: "?o (length ms) = length ?f" using file_length [OF ok(1)] by simp
  have lim: "?o (Suc i) \<le> length ?f" using bodies_take_le [of "Suc i" ms] file_length [OF ok(1)] by simp
  have off: "msg_offset ?h (?f @ slack) (of_nat i) = Some (int (?o i))" by (rule file_offset [OF assms(1,3)])
  have off': "msg_offset ?h (?f @ slack) (of_nat i + 1) = Some (int (?o (Suc i)))" if "Suc i < length ms"
    using file_offset [OF assms(1) that, of slack] by (simp add: add.commute)
  have eq: "(of_nat i :: u32) + 1 = ucast (msgs_no ?h) \<longleftrightarrow> Suc i = length ms"
    unfolding no using ui by (metis Suc_eq_plus1 of_nat_1 of_nat_add)
  have bounds: "msg_bounds ?h (?f @ slack) (of_nat (length ?f)) (of_nat i) = Some (int (?o i), int (?o (Suc i)))"
    using off off' eq last assms(3) sint_of_nat32 [OF ok(5)] by (auto simp: msg_bounds_def file_hdr_def)
  have conv: "unat (of_int (int k) :: u32) = k" if "k \<le> length ?f" for k
    using that ok(5) unat_of_nat32 [of k] by simp
  have d: "drop (?o i) (?f @ slack) = u8_of_char c # chrs t @ bodies (drop (Suc i) ms) @ slack"
    using file_drop [OF ok(1) assms(3)] assms(4) by (simp add: msg_body_def)
  have c: "rd8 (?f @ slack) (?o i) = Some (u8_of_char c)" and dt: "drop (?o i + 1) (?f @ slack) = chrs t @ bodies (drop (Suc i) ms) @ slack"
  proof -
    show "rd8 (?f @ slack) (?o i) = Some (u8_of_char c)"
      using arg_cong [OF d, of "\<lambda>x. rd8 x 0"] by (simp only: rd8_drop rd8_simps add_0_right)
    show "drop (?o i + 1) (?f @ slack) = chrs t @ bodies (drop (Suc i) ms) @ slack"
      using arg_cong [OF d, of "drop 1"] by (simp only: drop_drop) simp
  qed
  have cf: "\<not> of_nat (length ?f) < (of_int (int k) :: u32)" if "k \<le> length ?f" for k
    using that conv [OF that] conv [of "length ?f"] by (simp add: word_less_nat_alt)
  define o1 o2 where "o1 = ?o i" and "o2 = ?o (Suc i)"
  have o: "o1 \<le> length ?f" "o2 \<le> length ?f" "o2 = o1 + Suc (length t)" using lim suc unfolding o1_def o2_def by simp_all
  have len: "(of_int (int o2 - int o1 - 1) :: u32) = of_nat (length t)" by (simp add: o(3))
  have pre: "msg_prefix ?h (of_nat i) c = (if c \<in> {CHR ''E'', CHR ''W'', CHR ''I''} then Some (fid @ fmt_04u (of_nat i) @ '': '') else None)"
    by (simp add: msg_prefix_def file_hdr_def cstr_id [OF ok(2)])
  have "(case msg_prefix ?h (of_nat i) c of None \<Rightarrow> s' | Some str \<Rightarrow> mh_write host 1 str s') = shown host fid i c s'"
    by (simp add: pre shown_def)
  moreover have a: "\<not> 9 < cTable" "cbBuf \<noteq> 0" using assms(5,6) by auto
  moreover define N :: u32 where "N = of_nat (first + i)"
  ultimately show ?thesis
    unfolding N_def [symmetric]
    using a segment_loaded [OF assms(2), of rc0 cb0] read_file_hdr [OF ok(1), of first short ctry ms slack] n [folded N_def] le
      bounds [folded o1_def o2_def] c [folded o1_def] dt [folded o1_def] conv [OF o(1)] cf [OF o(1)] cf [OF o(2)] len
    by (simp add: DosTrueGetMessage_def Let_def del: drop_append)
qed


section \<open>The code pages of a file\<close>

definition enc_ctry :: "u16 \<Rightarrow> u16 \<Rightarrow> u16 list \<Rightarrow> u8 list \<Rightarrow> u8 list" where
  "enc_ctry family dialect cps r = [1, 0, 0] @ le16 family @ le16 dialect @ le16 (of_nat (length cps)) @ concat (map le16 cps) @ r"

lemma put16_at: "put16 (pre @ [a, b] @ r) (length pre) v = Some (pre @ le16 v @ r)"
  by (simp add: put16_def)

lemma cp_loop_run:
  assumes "\<forall>i < length vs. rd16 seg (pos + 2 * i) = Some (vs ! i)" and "length old = 2 * length vs"
  shows "cp_loop seg pos (length vs) (pre @ old @ r) (length pre) = Some (pre @ concat (map le16 vs) @ r, length pre + 2 * length vs)"
  using assms
proof (induction vs arbitrary: pos pre old)
  case (Cons v vs)
  obtain a b old' where old: "old = a # b # old'" "length old' = 2 * length vs"
    using Cons.prems(2) by (cases old; cases "tl old") auto
  have v: "rd16 seg pos = Some v" using Cons.prems(1) by force
  have "\<forall>i < length vs. rd16 seg ((pos + 2) + 2 * i) = Some (vs ! i)"
  proof (intro allI impI)
    fix i assume "i < length vs"
    then show "rd16 seg ((pos + 2) + 2 * i) = Some (vs ! i)"
      using Cons.prems(1) [rule_format, of "Suc i"] by simp
  qed
  from Cons.IH [OF this old(2), of "pre @ le16 v"] show ?case
    using v put16_at [of pre a b "old' @ r" v] by (simp add: old(1))
qed simp

text \<open>The fields of the country block and its code pages in a file of the format.\<close>

lemma ctry_fields:
  assumes "length fid = 3" and "f = msg_file fid first short (enc_ctry family dialect cps rest) ms @ slack"
    and "k = sizeof_msghdr + idx_size short (length ms)"
  shows "rd16 f (k + 3) = Some family" and "rd16 f (k + 5) = Some dialect" and "rd16 f (k + 7) = Some (of_nat (length cps))"
    and "\<forall>i < length cps. rd16 f ((k + 9) + 2 * i) = Some (cps ! i)"
proof -
  let ?c = "enc_ctry family dialect cps rest"
  define pre where "pre = enc_msghdr (file_hdr fid first short (length ms)) @ msg_index short (offs (first_body short (length ms) ?c) ms)"
  have k: "k = length pre" by (simp add: pre_def length_enc_hdr [OF assms(1)] length_msg_index assms(3))
  have f: "f = pre @ ?c @ bodies ms @ slack" by (simp add: assms(2) msg_file_def pre_def)
  show "rd16 f (k + 3) = Some family" "rd16 f (k + 5) = Some dialect" "rd16 f (k + 7) = Some (of_nat (length cps))"
    unfolding f k rd16_skip by (simp_all add: enc_ctry_def rd_simps numeral_eq_Suc)
  show "\<forall>i < length cps. rd16 f ((k + 9) + 2 * i) = Some (cps ! i)"
  proof (intro allI impI)
    fix i assume "i < length cps"
    then show "rd16 f ((k + 9) + 2 * i) = Some (cps ! i)"
      using rd16_table [of i cps "pre @ [1, 0, 0] @ le16 family @ le16 dialect @ le16 (of_nat (length cps))" "rest @ bodies ms @ slack"]
      unfolding f k by (simp add: enc_ctry_def)
  qed
qed

text \<open>The words that are written into the buffer one after the other.\<close>

lemma code_pages_written:
  assumes "\<forall>i < length cps. rd16 seg (pos + 2 * i) = Some (cps ! i)" and "length ar = 6 + 2 * length cps"
  obtains ar1 ar2 ar3 where "put16 (ar @ behind) 0 v = Some ar1"
    "cp_loop seg pos (length cps) ar1 2 = Some (ar2, 2 + 2 * length cps)"
    "put16 ar2 (2 + 2 * length cps) family = Some ar3"
    "put16 ar3 (2 + 2 * length cps + 2) dialect = Some (le16 v @ concat (map le16 cps) @ le16 family @ le16 dialect @ behind)"
proof -
  let ?k = "length cps"
  obtain a0 old a1 a2 where ar: "ar = a0 @ old @ a1 @ a2" "length a0 = 2" "length old = 2 * ?k" "length a1 = 2" "length a2 = 2"
  proof (rule that)
    let ?r = "drop 2 ar" and ?q = "drop (2 * ?k) (drop 2 ar)"
    show "ar = take 2 ar @ take (2 * ?k) ?r @ take 2 ?q @ drop 2 ?q" by (simp only: append_take_drop_id)
  qed (use assms(2) in simp_all)
  have put: "put16 (p @ a @ q) (length p) v = Some (p @ le16 v @ q)" if "length a = 2" for p a q v
    using that by (simp add: put16_def)
  show thesis
  proof (rule that)
    show "put16 (ar @ behind) 0 v = Some (le16 v @ old @ a1 @ a2 @ behind)"
      using put [OF ar(2), of "[]" "old @ a1 @ a2 @ behind" v] by (simp add: ar(1))
    show "cp_loop seg pos ?k (le16 v @ old @ a1 @ a2 @ behind) 2 = Some (le16 v @ concat (map le16 cps) @ a1 @ a2 @ behind, 2 + 2 * ?k)"
      using cp_loop_run [OF assms(1) ar(3), of "le16 v" "a1 @ a2 @ behind"] by simp
    show "put16 (le16 v @ concat (map le16 cps) @ a1 @ a2 @ behind) (2 + 2 * ?k) family = Some (le16 v @ concat (map le16 cps) @ le16 family @ a2 @ behind)"
      using put [OF ar(4), of "le16 v @ concat (map le16 cps)" "a2 @ behind" family] by (simp add: length_concat_le)
    show "put16 (le16 v @ concat (map le16 cps) @ le16 family @ a2 @ behind) (2 + 2 * ?k + 2) dialect
        = Some (le16 v @ concat (map le16 cps) @ le16 family @ le16 dialect @ behind)"
      using put [OF ar(5), of "le16 v @ concat (map le16 cps) @ le16 family" behind dialect] by (simp add: length_concat_le)
  qed
qed

text \<open>C24: The code pages of a file of the format are returned with their number in front and the language behind them.\<close>

theorem code_pages_returned:
  assumes "msg_file_ok fid first short (enc_ctry family dialect cps rest) ms"
    and "file_read host name (msg_file fid first short (enc_ctry family dialect cps rest) ms) slack s s'"
    and "cps \<noteq> []" and "length cps \<le> 16" and "6 + 2 * length cps \<le> unat cb" and "length ar = 6 + 2 * length cps"
  shows "DosIQueryMessageCP host rc0 (Some (ar @ behind)) cb (Some name) None s =
    Some (NO_ERROR, Some (le16 (of_nat (length cps)) @ concat (map le16 cps) @ le16 family @ le16 dialect @ behind),
      Some (of_nat (6 + 2 * length cps)), mh_free host s')"
proof -
  let ?c = "enc_ctry family dialect cps rest" and ?k = "length cps"
  let ?h = "file_hdr fid first short (length ms)" and ?v = "of_nat ?k :: u16"
  have id: "length fid = 3" and sz: "sizeof_msghdr + idx_size short (length ms) < 2 ^ 16" using assms(1) by (simp_all add: msg_file_ok_def)
  have "unat (of_nat k :: u16) = k" if "k < 2 ^ 16" for k using that by (simp add: unat_of_nat)
  from this [OF sz] have pl: "unat (ctry_info_ofs ?h) = sizeof_msghdr + idx_size short (length ms)" by (simp add: file_hdr_def)
  note rd = ctry_fields [where first = first and short = short and family = family and dialect = dialect and cps = cps and rest = rest and ms = ms and slack = slack, OF id refl refl]
  obtain ar1 ar2 ar3 where w: "put16 (ar @ behind) 0 ?v = Some ar1"
    "cp_loop (msg_file fid first short ?c ms @ slack) (sizeof_msghdr + idx_size short (length ms) + 9) ?k ar1 2 = Some (ar2, 2 + 2 * ?k)"
    "put16 ar2 (2 + 2 * ?k) family = Some ar3"
    "put16 ar3 (2 + 2 * ?k + 2) dialect = Some (le16 ?v @ concat (map le16 cps) @ le16 family @ le16 dialect @ behind)"
    by (rule code_pages_written [OF rd(4) assms(6)])
  have n: "unat ?v = ?k" "ucast ?v = (of_nat ?k :: u32)"
    using assms(4) of_nat16(2) [of ?k] by (simp_all add: unat_of_nat)
  have z: "?v \<noteq> 0" "\<not> 16 < ?v" using n(1) assms(3,4) by (metis length_0_conv unat_0, simp add: word_less_nat_alt)
  have "unat (6 + 2 * of_nat ?k :: u32) = 6 + 2 * ?k" using unat_of_nat32 [of "6 + 2 * ?k"] assms(4) by simp
  then have cb: "\<not> cb < 6 + 2 * of_nat ?k" using assms(5) by (simp add: word_less_nat_alt)
  then have cb0: "cb \<noteq> 0" using assms(5) by auto
  have nm: "name \<noteq> []" using assms(2) by (simp add: file_read_def)
  show ?thesis
    using segment_loaded [OF assms(2), of rc0 0] read_file_hdr [OF id, of first short ?c ms slack] pl rd(1-3) n z cb cb0 nm w
    by (simp add: DosIQueryMessageCP_def Let_def)
qed

section \<open>Examples\<close>

text \<open>A file of two messages with the numbers 7 and 8; the state of the host is what was written.\<close>

definition demo_msgs :: "(char \<times> string) list" where
  "demo_msgs = [(CHR ''E'', ''Bad %1.''), (CHR ''I'', ''x'')]"

definition demo_file :: "u8 list" where
  "demo_file = msg_file ''SYS'' 7 True (enc_ctry 1 2 [850, 437] []) demo_msgs"

definition demo_msg_host :: "string list msg_host" where
  "demo_msg_host = \<lparr>mh_open = \<lambda>n s. (if n = ''OSO'' then Inr 3 else Inl 2, s), mh_search = \<lambda>n s. (Inl 2, s),
     mh_size = \<lambda>n s. (Inr (of_nat (length demo_file)), s), mh_alloc = \<lambda>n s. (Inr (replicate 60 0), s),
     mh_read = \<lambda>h n s. (Inr demo_file, s), mh_close = \<lambda>h s. s, mh_free = \<lambda>s. s, mh_write = \<lambda>h t s. t # s\<rparr>"

lemma demo_file_length: "length demo_file = 58"
  by (simp add: demo_file_def file_length first_body_def sizeof_msghdr_def idx_size_def enc_ctry_def demo_msgs_def msg_body_def)

lemma demo_file_ok: "msg_file_ok ''SYS'' 7 True (enc_ctry 1 2 [850, 437] []) demo_msgs"
  using demo_file_length
  by (simp add: msg_file_ok_def sizeof_msghdr_def idx_size_def flip: demo_file_def) (simp add: demo_msgs_def)

lemma demo_file_read: "file_read demo_msg_host ''OSO'' demo_file [0, 0] [] []"
proof -
  have "drop (length demo_file) (replicate 60 0) = [0, 0 :: u8]" by (simp add: demo_file_length numeral_2_eq_2)
  moreover have "demo_file \<noteq> []" "length demo_file < 2 ^ 31" using demo_file_length by auto
  ultimately show ?thesis by (simp add: file_read_def demo_msg_host_def)
qed


theorem code_pages_returned_witness:
  "DosIQueryMessageCP demo_msg_host 0 (Some (replicate 10 9 @ [9, 9])) 12 (Some ''OSO'') None [] =
    Some (NO_ERROR, Some [2, 0, 0x52, 3, 0xB5, 1, 1, 0, 2, 0, 9, 9], Some 10, [])"
proof -
  have "le16 2 = [2, 0]" "le16 850 = [0x52, 3]" "le16 437 = [0xB5, 1]" "le16 1 = [1, 0]" by code_simp+
  then show ?thesis
    using code_pages_returned [OF demo_file_ok demo_file_read [unfolded demo_file_def], of 12 "replicate 10 9" 0 "[9, 9]"]
    by (simp add: demo_msg_host_def)
qed

end
