(* ===== verification/DosSearch.thy ===== *)
theory DosSearch
  imports DosEnv ExecPgm
begin

text \<open>
  The search for a file along a path (\<open>DosSearchPath\<close>, \<^verbatim>\<open>src/OS2/CPI/doscalls/dossearchpath.c\<close>), with the tokenizer of \<open>PathSearch\<close>, the same
  code as in \<^verbatim>\<open>doscalls/token.c\<close>. The path is given or the value of a variable of the environment. Whether
  a file can be opened belongs to the host and is an argument, and so is what the array for the current directory holds after
  the two queries.
\<close>

section \<open>The code\<close>

abbreviation (input) SEARCH_CUR_DIRECTORY :: u32 where "SEARCH_CUR_DIRECTORY \<equiv> 1"
abbreviation (input) SEARCH_ENVIRONMENT :: u32 where "SEARCH_ENVIRONMENT \<equiv> 2"
abbreviation (input) SEARCH_IGNORENETERRS :: u32 where "SEARCH_IGNORENETERRS \<equiv> 4"

text \<open>The name in the buffer for the directory \<open>p\<close> of the path.\<close>

definition search_name :: "string \<Rightarrow> string \<Rightarrow> nat \<Rightarrow> string \<Rightarrow> char list \<Rightarrow> char list option" where
  "search_name dir0 pszFilename cbBuf p pBuf = do {
     pBuf \<leftarrow> put_chr pBuf 0 NUL;
     (pBuf, _) \<leftarrow> strlcat pBuf 0 ((if p = ''.'' then dir0 else p) @ [NUL]) cbBuf;
     l \<leftarrow> strnlen (p @ [NUL]) cbBuf;
     (pBuf, _) \<leftarrow> (if p ! (l - 1) \<noteq> BSL then strlcat pBuf 0 [BSL, NUL] cbBuf else Some (pBuf, l));
     (pBuf, _) \<leftarrow> strlcat pBuf 0 (pszFilename @ [NUL]) cbBuf;
     Some pBuf }"

text \<open>
  The loop over the directories. \<open>p\<close> is the position of the current one in the copy of the path; the result is the code, the
  buffer and the tokenizer. The state of the tokenizer is restored only where nothing is found.
\<close>

function search_loop ::
    "(string \<Rightarrow> bool) \<Rightarrow> string \<Rightarrow> string \<Rightarrow> nat \<Rightarrow> nat \<Rightarrow> tok_state \<Rightarrow> char list \<Rightarrow> char list \<Rightarrow> (u32 \<times> char list \<times> tok_state) option" where
  "search_loop opens dir0 pszFilename cbBuf p tk ar pBuf = do {
     let d = cstr (drop p ar);
     (r, pBuf) \<leftarrow> (if d = [] then Some (None, pBuf)
       else do {
         pBuf \<leftarrow> search_name dir0 pszFilename cbBuf d pBuf;
         n \<leftarrow> strnlen pBuf cbBuf;
         Some (if n = cbBuf then Some ERROR_BUFFER_OVERFLOW else if opens (cstr pBuf) then Some NO_ERROR else None, pBuf) });
     case r of
       Some rc \<Rightarrow> do { (_, tk, _) \<leftarrow> StrTokStop tk ar; Some (rc, pBuf, tk) }
     | None \<Rightarrow> do {
         (q, tk, ar) \<leftarrow> StrTokenize None (Some psep) tk ar;
         case q of None \<Rightarrow> Some (ERROR_FILE_NOT_FOUND, pBuf, tk) | Some p \<Rightarrow> search_loop opens dir0 pszFilename cbBuf p tk ar pBuf } }"
  by pat_completeness auto
termination
  by (relation "measure (\<lambda>(opens, dir0, name, cb, p, tk, ar, buf). tok_left tk ar)") (auto dest!: StrTokenize_advances)

declare search_loop.simps [simp del]

text \<open>The path: the value of the variable, or the string itself. The code of the lookup is dropped, and \<open>path0\<close> is what the
  pointer holds when nothing was found.\<close>

definition search_path_of :: "pmem \<Rightarrow> u32 \<Rightarrow> u32 \<Rightarrow> u32 \<Rightarrow> string \<Rightarrow> string option" where
  "search_path_of m pib path0 flag pszPathOrName =
     (if flag AND SEARCH_ENVIRONMENT \<noteq> 0 then do {
        (_, v) \<leftarrow> DosScanEnv m pib (map u8_of_char pszPathOrName);
        str_at m (case v of None \<Rightarrow> path0 | Some a \<Rightarrow> a) }
      else Some pszPathOrName)"

text \<open>The code, the buffer and the tokenizer. \<open>alloc\<close>: the memory for the copy of the path is there, which is not tested.\<close>

definition DosSearchPath ::
    "(string \<Rightarrow> bool) \<Rightarrow> bool \<Rightarrow> string \<Rightarrow> pmem \<Rightarrow> u32 \<Rightarrow> u32 \<Rightarrow> tok_state \<Rightarrow> u32 \<Rightarrow> string option \<Rightarrow> string option \<Rightarrow> char list option \<Rightarrow> u32
     \<Rightarrow> (u32 \<times> char list option \<times> tok_state) option" where
  "DosSearchPath opens alloc dir0 m pib path0 tk flag pszPathOrName pszFilename pBuf cbBuf =
     (case (pszPathOrName, pszFilename, pBuf) of
        (Some pth, Some name, Some buf) \<Rightarrow>
          if pth = [] \<or> name = [] \<or> cbBuf = 0 then Some (ERROR_INVALID_PARAMETER, pBuf, tk)
          else if flag AND NOT (SEARCH_ENVIRONMENT OR SEARCH_CUR_DIRECTORY OR SEARCH_IGNORENETERRS) \<noteq> 0
            then Some (ERROR_INVALID_FUNCTION, pBuf, tk)
          else do {
            p \<leftarrow> search_path_of m pib path0 flag pth;
            let ar = (if flag AND SEARCH_CUR_DIRECTORY \<noteq> 0 then ''.;'' @ p @ [NUL] else p @ [NUL]);
            if \<not> alloc then None
            else do {
              let st = StrTokSave tk;
              (q, tk, ar) \<leftarrow> StrTokenize (Some 0) (Some psep) tk ar;
              (rc, buf, tk) \<leftarrow> (case q of
                 None \<Rightarrow> Some (ERROR_FILE_NOT_FOUND, buf, tk)
               | Some p \<Rightarrow> search_loop opens dir0 name (unat cbBuf) p tk ar buf);
              if rc = ERROR_FILE_NOT_FOUND then do {
                buf \<leftarrow> put_chr buf 0 NUL;
                Some (rc, Some buf, StrTokRestore st tk) }
              else Some (rc, Some buf, tk) } }
      | _ \<Rightarrow> Some (ERROR_INVALID_PARAMETER, pBuf, tk))"

section \<open>The name that is tried\<close>

text \<open>The buffer of \<open>cb\<close> characters holds the string \<open>t\<close>.\<close>

definition holds :: "nat \<Rightarrow> char list \<Rightarrow> string \<Rightarrow> bool" where
  "holds cb buf t \<longleftrightarrow> (\<exists>x. buf = t @ NUL # x) \<and> NUL \<notin> set t \<and> length buf = cb"

lemma holds_cstr: "holds cb buf t \<Longrightarrow> cstr buf = t"
  by (auto simp: holds_def)

lemma holds_strnlen: "holds cb buf t \<Longrightarrow> strnlen buf cb = Some (length t) \<and> length t < cb"
  using strnlen_str by (auto simp: holds_def)

lemma holds_strlcat:
  assumes "holds cb buf t" and "NUL \<notin> set s"
  shows "\<exists>buf' n. strlcat buf 0 (s @ [NUL]) cb = Some (buf', n) \<and> holds cb buf' (take (cb - 1) (t @ s))"
proof -
  obtain x where x: "buf = t @ NUL # x" "NUL \<notin> set t" "length buf = cb" using assms(1) by (auto simp: holds_def)
  let ?s = "take (cb - length t - 1) s"
  have "strlcat buf 0 (s @ [NUL]) cb = Some (stored buf (length t) (?s @ [NUL]), length t + length s)"
    using strlcat_str [OF x(2) assms(2), of cb buf x "[]"] x by auto
  moreover have "stored buf (length t) (?s @ [NUL]) = take (cb - 1) (t @ s) @ NUL # drop (length ?s) x"
    using x stored_string [of t x ?s] by auto
  moreover have "length (take (cb - 1) (t @ s) @ NUL # drop (length ?s) x) = cb" using x(1,3) by auto
  moreover have "NUL \<notin> set (take (cb - 1) (t @ s))" using x(2) assms(2) by (auto dest: in_set_takeD)
  ultimately show ?thesis unfolding holds_def by metis
qed

definition built :: "string \<Rightarrow> string \<Rightarrow> nat \<Rightarrow> string \<Rightarrow> string" where
  "built dir0 name cb d =
     (let f = take (cb - 1); a = f (if d = ''.'' then dir0 else d);
          b = (if d ! (min (length d) cb - 1) \<noteq> BSL then f (a @ [BSL]) else a) in f (b @ name))"

lemma search_name_run:
  assumes "length buf = cb" and "0 < cb" and "NUL \<notin> set d" and "d \<noteq> []" and "NUL \<notin> set dir0" and "NUL \<notin> set name"
  shows "\<exists>buf'. search_name dir0 name cb d buf = Some buf' \<and> holds cb buf' (built dir0 name cb d)"
proof -
  let ?e = "if d = ''.'' then dir0 else d" and ?f = "take (cb - 1) :: string \<Rightarrow> string"
  have 0: "put_chr buf 0 NUL = Some (buf[0 := NUL])" "holds cb (buf[0 := NUL]) []"
    using assms(1,2) by (cases buf; simp add: put_chr_def holds_def)+
  have e: "NUL \<notin> set ?e" using assms(3,5) by simp
  obtain b1 n1 where 1: "strlcat (buf[0 := NUL]) 0 (?e @ [NUL]) cb = Some (b1, n1)" "holds cb b1 (?f ?e)"
    using holds_strlcat [OF 0(2) e] by auto
  obtain b2 n2 where 2: "strlcat b1 0 [BSL, NUL] cb = Some (b2, n2)" "holds cb b2 (?f (?f ?e @ [BSL]))"
    using holds_strlcat [OF 1(2), of "[BSL]"] by auto
  let ?c = "d ! (min (length d) cb - 1) \<noteq> BSL"
  let ?b = "if ?c then b2 else b1" and ?t = "if ?c then ?f (?f ?e @ [BSL]) else ?f ?e"
  have "holds cb ?b ?t" using 1(2) 2(2) by simp
  from holds_strlcat [OF this assms(6)] obtain b3 n3 where
    3: "strlcat ?b 0 (name @ [NUL]) cb = Some (b3, n3)" "holds cb b3 (?f (?t @ name))" by blast
  have "built dir0 name cb d = ?f (?t @ name)" by (simp add: built_def Let_def)
  moreover have "strnlen (d @ [NUL]) cb = Some (min (length d) cb)" using strnlen_str [OF assms(3), of "[]"] by simp
  ultimately show ?thesis
    using 0(1) 1(1) 2(1) 3 by (cases ?c) (simp_all add: search_name_def)
qed

section \<open>The loop\<close>

lemma write_str_cstr: "p \<le> length ar \<Longrightarrow> write_str p (cstr (drop p ar)) ar = ar"
proof -
  let ?d = "drop p ar"
  have "cstr ?d @ drop (length (cstr ?d)) ?d = ?d" unfolding cstr_def by (metis dropWhile_eq_drop takeWhile_dropWhile_id)
  then have "cstr ?d @ drop (p + length (cstr ?d)) ar = ?d" by (simp add: add.commute)
  then show ?thesis unfolding write_str_def by (metis append_take_drop_id)
qed

text \<open>The loop is the one of the searches of the server, with the names built as above.\<close>

lemma search_loop_path:
  assumes "path_loop fixc full io p tk ar b = Some (rc, f, tk', ar')" and "fixc = (\<lambda>c. c)" and "full = (\<lambda>d. Some (built dir0 name cb d))"
    and "io = (\<lambda>f. if opens f then NO_ERROR else ERROR_FILE_NOT_FOUND)" and "length buf = cb" and "p \<le> length ar"
    and "0 < cb" and "NUL \<notin> set dir0" and "NUL \<notin> set name"
  shows "\<exists>buf'. search_loop opens dir0 name cb p tk ar buf = Some (rc, buf', tk') \<and> length buf' = cb \<and> (rc = NO_ERROR \<longrightarrow> holds cb buf' f)"
  using assms
proof (induction fixc full io p tk ar b arbitrary: buf rule: path_loop.induct)
  case (1 fixc full io p tk ar b)
  let ?d = "cstr (drop p ar)"
  let ?b = "if ?d = [] then b else built dir0 name cb ?d" and ?found = "?d \<noteq> [] \<and> opens (built dir0 name cb ?d)"
  have t: "path_try fixc full io p ar b = Some (?found, ?b, ar)"
    using "1.prems"(2-4,6) by (auto simp: path_try_def Let_def write_str_cstr)
  obtain buf1 where b1: "(if ?d = [] then Some (None, buf)
       else do {
         pBuf \<leftarrow> search_name dir0 name cb ?d buf;
         n \<leftarrow> strnlen pBuf cb;
         Some (if n = cb then Some ERROR_BUFFER_OVERFLOW else if opens (cstr pBuf) then Some NO_ERROR else None, pBuf) })
      = Some (if ?found then Some NO_ERROR else None, buf1)" and l1: "length buf1 = cb" and h1: "?d \<noteq> [] \<Longrightarrow> holds cb buf1 ?b"
  proof (cases "?d = []")
    case False
    then obtain buf' where r: "search_name dir0 name cb ?d buf = Some buf'" and h: "holds cb buf' (built dir0 name cb ?d)"
      using search_name_run [OF "1.prems"(5,7) _ False "1.prems"(8,9)] by auto
    have "length buf' = cb" using h by (simp add: holds_def)
    with False r h holds_cstr [OF h] holds_strnlen [OF h] show thesis by (intro that [of buf']) simp_all
  qed (use "1.prems"(5) that in auto)
  show ?case
  proof (cases ?found)
    case True
    with "1.prems"(1) t obtain q ar2 where "StrTokStop tk ar = Some (q, tk', ar2)" "rc = NO_ERROR" "f = ?b"
      by (subst (asm) path_loop.simps) (auto simp: bind_eq_Some_conv)
    with True b1 l1 h1 show ?thesis by (subst search_loop.simps) (auto simp: Let_def)
  next
    case False
    obtain q tk2 ar2 where q: "StrTokenize None (Some psep) tk ar = Some (q, tk2, ar2)"
      and r: "(case q of None \<Rightarrow> Some (ERROR_FILE_NOT_FOUND, ?b, tk2, ar2) | Some p \<Rightarrow> path_loop fixc full io p tk2 ar2 ?b) = Some (rc, f, tk', ar')"
      using "1.prems"(1) t False by (subst (asm) path_loop.simps) (auto simp: bind_eq_Some_conv)
    have step: "search_loop opens dir0 name cb p tk ar buf =
        (case q of None \<Rightarrow> Some (ERROR_FILE_NOT_FOUND, buf1, tk2) | Some p \<Rightarrow> search_loop opens dir0 name cb p tk2 ar2 buf1)"
      using b1 False q by (subst search_loop.simps) (simp add: Let_def)
    show ?thesis
    proof (cases q)
      case None
      with r step l1 show ?thesis by auto
    next
      case (Some p2)
      then have "p2 \<le> length ar2" using q
        by (auto simp: StrTokenize_def tok_from_def bind_eq_Some_conv split: option.splits if_splits)
      moreover have "path_loop fixc full io p2 tk2 ar2 ?b = Some (rc, f, tk', ar')" using r Some by simp
      ultimately show ?thesis
        using "1.IH" [OF t refl refl False q refl refl Some _ "1.prems"(2-4) l1 _ "1.prems"(7-9)] step Some by simp
    qed
  qed
qed

section \<open>What is found\<close>

text \<open>The name for a directory, where everything fits the buffer.\<close>

definition candidate :: "string \<Rightarrow> string \<Rightarrow> string \<Rightarrow> string" where
  "candidate dir0 name d = (if d = ''.'' then dir0 else d) @ (if last d \<noteq> BSL then [BSL] else []) @ name"

lemma built_candidate:
  assumes "d \<noteq> []" and "length (candidate dir0 name d) < cb" and "length d < cb"
  shows "built dir0 name cb d = candidate dir0 name d"
proof -
  have "d ! (min (length d) cb - 1) = last d" using assms(1,3) by (simp add: last_conv_nth min_def)
  then show ?thesis using assms(2) by (auto simp: built_def candidate_def Let_def)
qed

lemma search_dirs:
  assumes "NUL \<notin> set p" and "NUL \<notin> set dir0" and "NUL \<notin> set name" and "length buf = cb" and "0 < cb"
    and "\<forall>d \<in> set (split_on (CHR '';'') p). d \<noteq> [] \<longrightarrow> length (candidate dir0 name d) < cb \<and> length d < cb"
  shows "\<exists>q tk1 ar1 rc buf' tk'. StrTokenize (Some 0) (Some psep) tk (p @ [NUL]) = Some (Some q, tk1, ar1) \<and>
    search_loop opens dir0 name cb q tk1 ar1 buf = Some (rc, buf', tk') \<and> length buf' = cb \<and>
    (case find (\<lambda>d. opens (candidate dir0 name d)) (filter (\<lambda>d. d \<noteq> []) (split_on (CHR '';'') p)) of
       None \<Rightarrow> rc = ERROR_FILE_NOT_FOUND
     | Some d \<Rightarrow> rc = NO_ERROR \<and> cstr buf' = candidate dir0 name d \<and> nxtToken tk' = None)"
proof -
  let ?ds = "split_on (CHR '';'') p"
  let ?full = "\<lambda>d. Some (built dir0 name cb d)" and ?io = "\<lambda>f. if opens f then NO_ERROR else ERROR_FILE_NOT_FOUND :: u32"
  have ff: "first_file ?full ?io ?ds = find (\<lambda>d. opens (candidate dir0 name d)) (filter (\<lambda>d. d \<noteq> []) ?ds)"
    unfolding first_file_def by (rule find_cong) (use assms(6) in \<open>auto simp: built_candidate\<close>)
  obtain b2 tk2 where l: "do { (q, tk, ar) \<leftarrow> tok_from (length []) (Some psep) tk (p @ [NUL]);
       path_loop (\<lambda>c. c) ?full ?io (the q) tk ar [] } =
     Some (if first_file ?full ?io ?ds = None then ERROR_FILE_NOT_FOUND else NO_ERROR, b2, tk2, p @ [NUL])"
    and d: "\<forall>d. first_file ?full ?io ?ds = Some d \<longrightarrow> ?full d = Some b2 \<and> nxtToken tk2 = None"
    using path_loop_spec [of "p @ [NUL]" "[]" p "[]" "\<lambda>c. c" ?full tk ?io "[]"] assms(1) by auto
  obtain tk1 ar1 where t: "tok_from 0 (Some psep) tk (p @ [NUL]) = Some (Some 0, tk1, ar1)" "length ar1 = length p + 1"
    using l by (auto simp: bind_eq_Some_conv tok_from_def)
  with l have pl: "path_loop (\<lambda>c. c) ?full ?io 0 tk1 ar1 [] =
      Some (if first_file ?full ?io ?ds = None then ERROR_FILE_NOT_FOUND else NO_ERROR, b2, tk2, p @ [NUL])" by simp
  obtain buf' where r: "search_loop opens dir0 name cb 0 tk1 ar1 buf =
      Some (if first_file ?full ?io ?ds = None then ERROR_FILE_NOT_FOUND else NO_ERROR, buf', tk2)" "length buf' = cb"
      "first_file ?full ?io ?ds \<noteq> None \<longrightarrow> holds cb buf' b2"
    using search_loop_path [OF pl refl refl refl assms(4) _ assms(5,2,3)] by (auto split: if_splits)
  have "StrTokenize (Some 0) (Some psep) tk (p @ [NUL]) = Some (Some 0, tk1, ar1)" using t by (simp add: StrTokenize_def)
  moreover have "case first_file ?full ?io ?ds of None \<Rightarrow> True
      | Some d \<Rightarrow> cstr buf' = candidate dir0 name d \<and> nxtToken tk2 = None"
  proof (cases "first_file ?full ?io ?ds")
    case (Some e)
    then have "e \<in> set (filter (\<lambda>d. d \<noteq> []) ?ds)" unfolding first_file_def using find_mem by fast
    then have "built dir0 name cb e = candidate dir0 name e" using assms(6) by (auto intro!: built_candidate)
    moreover have "holds cb buf' b2" "built dir0 name cb e = b2" "nxtToken tk2 = None" using r(3) d Some by auto
    ultimately show ?thesis using Some holds_cstr [of cb buf' b2] by simp
  qed simp
  ultimately show ?thesis using r(1,2) unfolding ff
    by (cases "find (\<lambda>d. opens (candidate dir0 name d)) (filter (\<lambda>d. d \<noteq> []) ?ds)") auto
qed

text \<open>The directories in the order in which they are tried: the current one, if asked for, and those of the path.\<close>

definition search_dirs_of :: "u32 \<Rightarrow> string \<Rightarrow> string list" where
  "search_dirs_of flag p = filter (\<lambda>d. d \<noteq> []) ((if flag AND SEARCH_CUR_DIRECTORY \<noteq> 0 then [''.''] else []) @ split_on (CHR '';'') p)"

lemma DosSearchPath_dirs:
  assumes "search_path_of m pib path0 flag pth = Some p" and "NUL \<notin> set p" and "NUL \<notin> set dir0" and "NUL \<notin> set name"
    and "pth \<noteq> []" and "name \<noteq> []" and "flag AND NOT 7 = 0" and "length buf = unat cb" and "0 < cb"
    and "\<forall>d \<in> set (search_dirs_of flag p). length (candidate dir0 name d) < unat cb \<and> length d < unat cb"
  shows "\<exists>rc buf' tk'. DosSearchPath opens True dir0 m pib path0 tk flag (Some pth) (Some name) (Some buf) cb = Some (rc, Some buf', tk') \<and>
    (case find (\<lambda>d. opens (candidate dir0 name d)) (search_dirs_of flag p) of
       None \<Rightarrow> rc = ERROR_FILE_NOT_FOUND \<and> cstr buf' = [] \<and> tk' = tk
     | Some d \<Rightarrow> rc = NO_ERROR \<and> cstr buf' = candidate dir0 name d)"
proof -
  let ?p = "if flag AND SEARCH_CUR_DIRECTORY \<noteq> 0 then ''.;'' @ p else p"
  have ds: "search_dirs_of flag p = filter (\<lambda>d. d \<noteq> []) (split_on (CHR '';'') ?p)"
    using split_on_sep [of "CHR '';''" "''.''" p] by (simp add: search_dirs_of_def)
  have cb: "0 < unat cb" "cb \<noteq> 0" using assms(9) by (simp_all add: unat_gt_0)
  have "NUL \<notin> set ?p" using assms(2) by simp
  moreover have "\<forall>d \<in> set (split_on (CHR '';'') ?p). d \<noteq> [] \<longrightarrow> length (candidate dir0 name d) < unat cb \<and> length d < unat cb"
    using assms(10) unfolding ds by simp
  ultimately obtain q tk1 ar1 rc buf' tk' where
    t: "StrTokenize (Some 0) (Some psep) tk (?p @ [NUL]) = Some (Some q, tk1, ar1)"
      "search_loop opens dir0 name (unat cb) q tk1 ar1 buf = Some (rc, buf', tk')" "length buf' = unat cb"
    and r: "case find (\<lambda>d. opens (candidate dir0 name d)) (search_dirs_of flag p) of
       None \<Rightarrow> rc = ERROR_FILE_NOT_FOUND
     | Some d \<Rightarrow> rc = NO_ERROR \<and> cstr buf' = candidate dir0 name d \<and> nxtToken tk' = None"
    using search_dirs [of ?p dir0 name buf "unat cb" tk opens] assms(3,4,8) cb(1) unfolding ds by metis
  have z: "put_chr buf' 0 NUL = Some (buf'[0 := NUL])" "cstr (buf'[0 := NUL]) = []"
    using t(3) cb(1) by (cases buf'; simp add: put_chr_def cstr_def)+
  have tk: "StrTokRestore (StrTokSave tk) tk' = tk" by (simp add: StrTokRestore_def StrTokSave_def)
  have ar: "(if flag AND SEARCH_CUR_DIRECTORY \<noteq> 0 then ''.;'' @ p @ [NUL] else p @ [NUL]) = ?p @ [NUL]" by simp
  have run: "DosSearchPath opens True dir0 m pib path0 tk flag (Some pth) (Some name) (Some buf) cb =
      (if rc = ERROR_FILE_NOT_FOUND then Some (rc, Some (buf'[0 := NUL]), tk) else Some (rc, Some buf', tk'))"
    using assms(1,5,6,7) cb(2) t(1,2) z(1) tk unfolding DosSearchPath_def by (simp add: ar)
  show ?thesis
    using run r z(2) by (cases "find (\<lambda>d. opens (candidate dir0 name d)) (search_dirs_of flag p)") auto
qed


section \<open>The current directory\<close>

text \<open>
  \<open>KalOpenL\<close> takes a name without a drive from the current directory \<open>dir0\<close> of the current disk \<open>c\<close>; \<open>files\<close> are the full
  names of the files that there are.
\<close>

definition opened :: "char \<Rightarrow> string \<Rightarrow> string set \<Rightarrow> string \<Rightarrow> bool" where
  "opened c dir0 files f \<longleftrightarrow> (if cs_at f 1 = CHR '':'' then f else join_name c dir0 f) \<in> files"

text \<open>C40: The server returns the current directory without its drive and leading backslash, and the search puts that in front of the
  name. The name that is tried is relative to the current directory once more: a file that is there, and that
  is opened under its own name, is not found by the search of the current directory.\<close>

theorem current_directory_twice:
  assumes "dir_ok dir0" and "dir0 \<noteq> []" and "cs_at dir0 1 \<noteq> CHR '':''"
    and "NUL \<notin> set p" and "NUL \<notin> set name" and "p \<noteq> []" and "name \<noteq> []" and "cs_at name 1 \<noteq> CHR '':''"
    and "length buf = unat cb" and "0 < cb"
    and "\<forall>d \<in> set (search_dirs_of SEARCH_CUR_DIRECTORY p). length (candidate dir0 name d) < unat cb \<and> length d < unat cb"
    and "\<forall>d \<in> set (search_dirs_of 0 p). \<not> opened c dir0 {join_name c dir0 name} (candidate dir0 name d)"
  shows "opened c dir0 {join_name c dir0 name} name \<and>
    (\<exists>buf' tk'. DosSearchPath (opened c dir0 {join_name c dir0 name}) True dir0 m pib path0 tk SEARCH_CUR_DIRECTORY (Some p) (Some name) (Some buf) cb
      = Some (ERROR_FILE_NOT_FOUND, Some buf', tk'))"
proof
  let ?opens = "opened c dir0 {join_name c dir0 name}"
  show "?opens name" using assms(8) by (simp add: opened_def)
  have "candidate dir0 name ''.'' = dir0 @ [BSL] @ name" by (simp add: candidate_def)
  moreover have "cs_at (dir0 @ [BSL] @ name) 1 \<noteq> CHR '':''"
    using assms(2,3) by (cases dir0; cases "tl dir0") (auto simp: cs_at_def)
  moreover have "join_name c dir0 (dir0 @ [BSL] @ name) \<noteq> join_name c dir0 name"
    using assms(1,2) by (auto simp: join_name_def dir_ok_def)
  ultimately have dot: "\<not> ?opens (candidate dir0 name ''.'')" by (simp add: opened_def)
  have "\<not> ?opens (candidate dir0 name d)" if "d \<in> set (search_dirs_of 1 p)" for d
    using that dot assms(12) by (cases "d = ''.''") (auto simp: search_dirs_of_def)
  then have "find (\<lambda>d. ?opens (candidate dir0 name d)) (search_dirs_of 1 p) = None"
    unfolding find_None_iff by blast
  then show "\<exists>buf' tk'. DosSearchPath ?opens True dir0 m pib path0 tk SEARCH_CUR_DIRECTORY (Some p) (Some name) (Some buf) cb
      = Some (ERROR_FILE_NOT_FOUND, Some buf', tk')"
    using DosSearchPath_dirs [of m pib path0 1 p p dir0 name buf cb ?opens tk] assms(1,4-11)
    by (auto simp: search_path_of_def dir_ok_def)
qed

section \<open>Examples\<close>


theorem current_directory_twice_witness:
  "opened (CHR ''C'') ''OS2'' {''C:'' @ [BSL] @ ''OS2'' @ [BSL] @ ''X''} ''X'' \<and>
    (\<exists>buf' tk'. DosSearchPath (opened (CHR ''C'') ''OS2'' {''C:'' @ [BSL] @ ''OS2'' @ [BSL] @ ''X''}) True ''OS2'' demo_block 4112 0 tok_state0 1
      (Some ''C:'') (Some ''X'') (Some (replicate 9 CR)) 9 = Some (ERROR_FILE_NOT_FOUND, Some buf', tk'))"
proof -
  have d: "search_dirs_of 1 ''C:'' = [''.'', ''C:'']" "search_dirs_of 0 ''C:'' = [''C:'']" by (simp_all add: search_dirs_of_def)
  have j: "join_name (CHR ''C'') ''OS2'' ''X'' = ''C:'' @ [BSL] @ ''OS2'' @ [BSL] @ ''X''"
    by (simp add: join_name_def isRelativePath_def cs_at_def)
  show ?thesis
    using current_directory_twice [of "''OS2''" "''C:''" "''X''" "replicate 9 CR" 9 "CHR ''C''" demo_block 4112 0 tok_state0, unfolded d j]
    by (simp add: candidate_def opened_def dir_ok_def cs_at_def isRelativePath_def)
qed

end
