(* ===== verification/Spec2Isabelle.thy ===== *)
theory Spec2Isabelle
  imports CfgOpt ExcApi KalMap ExecPgm FsInfo LxEntry SemApi DosMsg KalServe KalExample KalThread MsgFile DosSearch
begin

text \<open>
  \<^bold>\<open>A verification of the OS/2 personality server of osFree\<close>

  osFree runs OS/2 programs on a microkernel. Its personality server, \<^verbatim>\<open>src/OS2/Server\<close>, consists of
  programs that exchange messages and of libraries they share. All paths below are relative to
  \<^verbatim>\<open>src/OS2/Server/shared\<close> unless they begin with \<^verbatim>\<open>include\<close> or \<^verbatim>\<open>platform\<close>, which are directories of the server.

  \<^item> The executable server (\<^verbatim>\<open>server/os2exec\<close>) parses \<^verbatim>\<open>CONFIG.SYS\<close>, opens program files and libraries along
    \<open>LIBPATH\<close>, recognises their format, loads and relocates them, loads their imports and links them, and
    hands sections and addresses to its clients. It uses the libraries \<^verbatim>\<open>lib/compat\<close> (configuration, names,
    strings), \<^verbatim>\<open>lib/ixf\<close> (formats LX and NE) and \<^verbatim>\<open>lib/memmgr\<close> (address ranges).
  \<^item> The OS/2 server (\<^verbatim>\<open>server/os2srv\<close>) keeps processes and threads with their information blocks, current
    directories, starts programs through the executable server, answers queries for configuration options
    and has event semaphores on the handle tables of \<^verbatim>\<open>lib/handle\<close>.
  \<^item> The file server (\<^verbatim>\<open>server/os2fs\<close>) maps drives to directories of the host and translates the file calls
    of OS/2 to those of POSIX.

  \<^item> Applications reach the servers through two libraries: \<^verbatim>\<open>src/OS2/CPI/doscalls\<close> holds the calls of the control program, and
    \<^verbatim>\<open>platform/l4env/src/server/os2app/server/src/kal\<close> (\<^verbatim>\<open>KAL.DLL\<close>) the application's side of the servers.

  The model is of the L4Env build for IA-32: \<open>unsigned long\<close> and pointers are 32 bits wide, \<open>char\<close> is signed,
  structures of the file formats are packed.

  \<^bold>\<open>How C is modelled\<close> (theory \<open>OsPrelude\<close>)

  A \<open>struct\<close> is a record, a tagged union a datatype, an unsigned integer a word of its width; signed counters are
  integers where the theorems bound them, and words read by \<open>sint\<close> where the wrap-around is visible. A function that can read
  outside an object, follow a null pointer or use uninitialised memory returns an option or an outcome
  (\<open>Ret\<close>, \<open>Exit\<close> where the program ends itself, \<open>Undef\<close>), so each theorem of the form \<open>f x = Some y\<close> or \<open>f x = Ret y\<close> also says that the code stays inside its memory. Error
  codes of OS/2 are returned as the code returns them. Which of four views of memory a component has depends on what its code
  does with it: buffers that are searched and overwritten are lists of characters with their terminator (parser, names);
  file images are lists of bytes with bounds-checked access; linked records that alias are maps from
  addresses to records (theory \<open>Linked\<close>: shared areas, processes); handle tables and
  information blocks are byte-addressed memory, of which in \<open>StrList\<close> only a part is mapped.

  What belongs to the host or to libraries outside the repository is an argument of the definitions: file access
  (\<open>io_load_file\<close>, the POSIX record of \<open>FsFile\<close>), \<open>malloc\<close> and the allocator of address ranges, regions and
  dataspaces, \<open>glob\<close>, \<open>stat\<close>, \<open>localtime_r\<close>, task creation, the mount table. The theorems state what they need of them.

  \<^bold>\<open>Theories, sources and theorems\<close>

  \<^item> \<open>CfgParser\<close>, \<open>CfgCorrect\<close>, \<open>CfgWf\<close>, \<open>CfgFile\<close>, \<open>CfgOpt\<close> model \<^verbatim>\<open>lib/compat/cfgparser.c\<close>, \<^verbatim>\<open>env.c\<close>, parts of \<^verbatim>\<open>string.c\<close>, and
    \<^verbatim>\<open>server/os2srv/api/cfg.c\<close>; the state is \<open>cfg_state\<close> (the option values, and the table of
    statement types with the lines stored for each, the environment among them). Shown: which handler a line selects and what each handler stores (\<open>CfgParseLine_option\<close>,
    \<open>CfgParseLine_statement\<close>), an invariant of the whole configuration that every
    line and file keeps (\<open>CfgParseConfig_wf\<close>), that parsing a file with CR LF line ends equals parsing its lines one by one
    (\<open>CfgParseConfig_crlf\<close>), and what queries return (\<open>getopt_after_option\<close>, \<open>CfgGetenv_spec\<close>).
  \<^item> \<open>PathSearch\<close> models \<^verbatim>\<open>lib/compat/path.c\<close> and \<^verbatim>\<open>token.c\<close>: the tokenizer writes into the string and undoes it, and the searches
    return the first directory that has the file.
  \<^item> \<open>LxFormat\<close>, \<open>LxFixup\<close>, \<open>LxModule\<close>, \<open>LxEntry\<close>, \<open>LxLoad\<close>, \<open>LxEntries\<close>, \<open>LxImports\<close>, \<open>LxObjects\<close> model \<^verbatim>\<open>lib/ixf/lx\<close> and
    \<^verbatim>\<open>include/os2/exe386.h\<close>. Encoders of the format (of fixup records, entry bundles, name tables) are the references: reading what an
    encoder wrote gives it back (\<open>fixup_record_roundtrip\<close>, \<open>entry_table_roundtrip\<close>, \<open>get_entry_found\<close>), the
    two-pass conversions fill exactly the array they allocated (\<open>import_fixups_converted\<close>), pages reach
    their addresses (\<open>object_pages_loaded\<close>) and internal fixups patch exactly their targets (\<open>internal_fixups_applied\<close>).
  \<^item> \<open>MemMgr\<close> models \<^verbatim>\<open>lib/memmgr/memmgr.c\<close> behind the locale \<open>area_registry\<close>: registered areas do not overlap.
  \<^item> \<open>IxfMgr\<close>, \<open>ModRegistry\<close>, \<open>ModLink\<close>, \<open>ModLoad\<close>, \<open>KalMap\<close> model \<^verbatim>\<open>server/os2exec/ixfmgr.c\<close>, \<^verbatim>\<open>lib/ixf/ne\<close> and
    \<^verbatim>\<open>server/os2exec/modmgr.c\<close>; the state is \<open>exec_state\<close> (the list of module records and the tokenizer, beside the structures and the memory of the formats). The list of modules
    has the contract \<open>module_registry\<close>, from which the lemmas on lookups follow (\<open>first_registration_wins\<close>); an export is specified by the inductive relation
    \<open>resolves\<close>, which follows forwarders, and the code refines it (\<open>query_iff_resolves\<close>); the imports of a module are patched with
    those addresses (\<open>imports_linked\<close>); a file that passes all stages is loaded, registered and linked (\<open>program_loaded\<close>),
    and loading it again returns its handle (\<open>loaded_dll_again\<close>).
  \<^item> \<open>ExcApi\<close>, \<open>SharedMem\<close> model \<^verbatim>\<open>server/os2exec/api/api.c\<close>: the calls of clients, among them the sharing of all
    sections of a module and its imports (\<open>module_shared\<close>), and the list of shared areas with reference counts, an instance of the locale \<open>dlist\<close> of doubly linked lists.
  \<^item> \<open>HandleMgr\<close>, \<open>SemApi\<close> model \<^verbatim>\<open>lib/handle/handlemgr.c\<close> and the semaphore calls of \<^verbatim>\<open>server/os2srv/api/api.c\<close>: handles in use
    are distinct and apart, every handle is in a known state.
  \<^item> \<open>StrList\<close>, \<open>ProcInfo\<close>, \<open>ProcMgr\<close>, \<open>CurDir\<close>, \<open>ProcApi\<close>, \<open>ProcTable\<close>, \<open>ProcChild\<close>, \<open>ExecPgm\<close> model \<^verbatim>\<open>server/os2srv\<close>;
    the process table is the second instance of \<open>dlist\<close>, and the two calls that keep a value per
    process are instances of the locale \<open>caller_field\<close>. Shown: lookups in every reachable table (\<open>process_lookups\<close>), the entry and the information block of
    a child (\<open>child_created\<close>), what its parent gets on exit (\<open>exit_notifies_parent\<close>), a program start from the call to the running task
    (\<open>program_started\<close>) and, with the worker thread and the exit call as interleaved steps, when the caller of a
    synchronous start is answered (\<open>sync_exec_order\<close>).
  \<^item> \<open>FsRoute\<close>, \<open>FsFile\<close>, \<open>FsFind\<close>, \<open>FsInfo\<close> model \<^verbatim>\<open>server/os2fs\<close>; the table of drive servers has the contract \<open>drive_router\<close>. Shown: which server and which
    host name a name gets (\<open>drive_map_routed\<close>, \<open>pathconv_mounted\<close>), what is read after
    a write (\<open>write_read_roundtrip\<close>), positions (\<open>seek_positions\<close>), that a search
    enumerates the matching entries in order (\<open>find_enumerates\<close>), and the properties shown (\<open>file_info_shown\<close>).
  \<^item> \<open>DosName\<close>, \<open>DosMsg\<close>, \<open>MsgFile\<close>, \<open>DosEnv\<close>, \<open>DosSearch\<close> model \<^verbatim>\<open>doseditname.c\<close>, \<^verbatim>\<open>msg.c\<close>, \<^verbatim>\<open>env.c\<close>, \<^verbatim>\<open>dossearchpath.c\<close> and the string routines of
    \<^verbatim>\<open>doscalls\<close>: edited names (\<open>DosEditName_edits\<close>), messages with inserted strings (\<open>message_inserted\<close>) and their retrieval by number from
    every file that an encoder of the format writes (\<open>message_retrieved\<close>), the environment of a process from the server's
    information block to the application (\<open>environment_scanned\<close>), and the search along one of its variables (\<open>searched_on_variable\<close>).
  \<^item> \<open>KalFile\<close>, \<open>KalServe\<close> model \<^verbatim>\<open>kal.c\<close> and \<^verbatim>\<open>util.c\<close> of the application: the full names that are sent to the servers
    (\<open>opened_as_searched\<close>), and, with the models of the file server and the OS/2 server behind the calls, the file that is
    opened for a relative name (\<open>relative_file_opened\<close>).
  \<^item> \<open>KalMem\<close>, \<open>KalLaws\<close>, \<open>KalPages\<close>, \<open>KalArea\<close>, \<open>KalExample\<close> model the memory of an application in \<^verbatim>\<open>kal.c\<close>; the list of areas is the third
    instance of \<open>dlist\<close>. \<open>KalLaws\<close> states the laws that are relied on of the host's region mapper and dataspaces, as predicates over what is at
    each address, and \<open>KalExample\<close> has a region mapper that satisfies all of them. Shown: what a query says of new memory
    (\<open>alloc_query_roundtrip\<close>), which addresses committing, decommitting and freeing change (\<open>pages_committed\<close>,
    \<open>pages_decommitted\<close>, \<open>area_freed\<close>).
  \<^item> \<open>KalThread\<close> models the threads of an application in \<^verbatim>\<open>kal.c\<close>: a suspended thread continues where it was
    (\<open>suspended_thread_resumed\<close>).
  \<^item> This theory holds what spans the parser, the path search and the module manager: a library is read from
    the directories that the configuration file names.

  \<^bold>\<open>Loops and recursion\<close>

  Loops over a buffer, a counter or a list are functions with a termination proof, most of them structural in the rest of the input; those that
  follow links or scan mapped memory are \<open>partial_function (option)\<close>, where not returning is \<open>None\<close>, and the invariants show
  that they return. Fuel is used where the code can really run for ever: the search of the resident name table, which a negative length
  stops from advancing (\<open>res_name_search\<close> has one unit per name and one for the end); forwarders, which
  can be circular (the fuel of a query is the length of the chain, and by \<open>query_iff_resolves\<close> some fuel
  suffices exactly when the export resolves); the recursive loading and sharing of imports (one unit per nested call and
  iteration; larger fuel gives the same result, and the theorems give a bound from which on the result is reached).

  \<^bold>\<open>Behaviour that is not what was meant\<close>

  Theorems next to the definitions prove what the code does where it differs from what its comments or callers
  expect, among them: LF line ends are ignored, \<open>SETBOOT\<close> is taken for \<open>SET\<close>, the newest shared area and the
  first process leave dangling links, a library without imports is not relocated, a failed import blocks its module, an information
  block that is handed out cannot be read by the server any more, a search for several entries overwrites all but the last, freeing an area
  detaches the memory directly behind it, a thread that is suspended twice has lost where it was.

  \<^bold>\<open>Not modelled\<close>

  Logging and printing (\<^verbatim>\<open>lib/ixf/lx/debug.c\<close>, \<^verbatim>\<open>io_log\<close>); code between \<^verbatim>\<open>#if 0\<close> and \<^verbatim>\<open>#endif\<close> and files that no
  build file names (\<^verbatim>\<open>server/os2fs/fsrou.c\<close>, \<^verbatim>\<open>pnsfs\<close>, \<^verbatim>\<open>fshelper\<close>, \<^verbatim>\<open>libc\<close>); the application server
  \<^verbatim>\<open>app/os2app\<close>, which forwards to the host; the message loops and stubs of \<^verbatim>\<open>platform\<close> (L4Env, L4Re, Genode),
  which are written against packages outside the repository and of which only the sharing of sections, the thread numbers and
  start-up notifications are modelled; concurrency inside one server apart from starting programs, since the servers answer one
  message at a time. The rest of the repository is left out: \<^verbatim>\<open>OS2/Server-old\<close>, the rest of \<^verbatim>\<open>doscalls\<close> and \<^verbatim>\<open>kal.c\<close>, where most calls only hand
  their parameters on, the other libraries and the programs that run on the server, the boot code, the DOS tree, and vendored packages.
\<close>

section \<open>From the configuration file to the module file\<close>

lemma libpath_line:
  assumes "std_names st" and "map toupper n = ''LIBPATH''" and "NUL \<notin> set v" and "length n + 1 + length v < 2 ^ 31"
  shows "\<exists>line o'. CfgParseLine True (n @ CHR ''='' # v @ NUL # r) (int (length n + 1 + length v)) lineno st = Ret (1, line, st\<lparr>opts := o'\<rparr>)
    \<and> libpath o' = Some v"
proof -
  let ?line = "v @ NUL # drop (length v + 1) (n @ CHR ''='' # v @ NUL # r)"
  have n: "map toupper n = options_list ! 19" using assms(2) by (simp add: options_list_def)
  have "dup_line True ?line (int (length v)) = Ret v"
    by (rule dup_line_value) (use assms(3,4) in simp_all)
  then have "(option_handlers ! 19) True ?line (int (length v)) (opts st) = Ret (?line, (opts st)\<lparr>libpath := Some v\<rparr>)"
    by (simp add: option_handlers_def opt_libpath_def)
  then have "CfgParseLine True (n @ CHR ''='' # v @ NUL # r) (int (length n + 1 + length v)) lineno st
      = Ret (1, ?line, st\<lparr>opts := (opts st)\<lparr>libpath := Some v\<rparr>\<rparr>)"
    using option_line_runs [OF assms(1) _ _ n assms(3), of True r "int (length n + 1 + length v)"] by simp
  then show ?thesis by (intro exI conjI, assumption) simp
qed

text \<open>The last line of the file decides.\<close>

lemma libpath_last:
  assumes "cfg_wf st" and "cfg_lines True (ls @ [n @ CHR ''='' # v]) line k st = Ret st'"
    and "map toupper n = ''LIBPATH''" and "NUL \<notin> set v" and "length n + 1 + length v < 2 ^ 31"
  shows "libpath (opts st') = Some v"
  using assms(1,2)
proof (induction ls arbitrary: line k st)
  case Nil
  from libpath_line [OF cfg_wf_std_names [OF Nil(1)] assms(3-5), of "drop (length n + 1 + length v + 1) line" k]
  obtain l o' where "CfgParseLine True (n @ CHR ''='' # v @ NUL # drop (length n + 1 + length v + 1) line)
      (int (length n + 1 + length v)) k st = Ret (1, l, st\<lparr>opts := o'\<rparr>)" "libpath o' = Some v" by blast
  with Nil(2) show ?case by auto
next
  case (Cons l ls)
  from Cons.prems(2) obtain rc line' st1 where p: "CfgParseLine True (l @ NUL # drop (length l + 1) line) (int (length l)) k st = Ret (rc, line', st1)"
    and r: "cfg_lines True (ls @ [n @ CHR ''='' # v]) line' (k + 1) st1 = Ret st'"
    by (auto simp: obind_Ret_iff split: if_splits)
  from Cons.IH [OF CfgParseLine_wf(1) [OF Cons.prems(1) p] r] show ?case .
qed


text \<open>The example: two directories, the second has the file.\<close>

definition path_host :: "cfg_state \<Rightarrow> os_host" where
  "path_host cfg = (demo_host (\<lambda>f. if f = ''D:'' @ [BSL] @ ''KBD'' then (0, [1, 2]) else (2, [])))\<lparr>host_cfg := cfg\<rparr>"


end
